(* ===== verification/Prelude.thy ===== *)
theory Prelude
  imports Main "HOL-Library.Word" "HOL-Library.AList" "HOL-Library.Sublist"
begin

text \<open>
  Shared vocabulary of the development: byte strings, the error sum used for thrown
  exceptions, JavaScript slices, \<open>Map\<close> objects in insertion order, decimal text, and the
  generic lemmas and lemma collections the component theories use.
\<close>

section \<open>Lemma collections\<close>

named_theorems result_simps \<open>elimination of the error sum\<close>
named_theorems slice_simps \<open>lengths and contents of slices\<close>
named_theorems jsmap_simps \<open>lookups after updates of insertion-ordered maps\<close>

section \<open>Bytes\<close>

text \<open>A \<open>Uint8Array\<close> is a list of 8-bit words.\<close>

type_synonym byte = "8 word"
type_synonym bytes = "byte list"

definition be_nat :: "bytes \<Rightarrow> nat" where
  "be_nat bs = foldl (\<lambda>a b. a * 256 + unat b) 0 bs"

lemma foldl_be_shift:
  "foldl (\<lambda>a b. a * 256 + unat b) a bs = a * 256 ^ length bs + foldl (\<lambda>a b. a * 256 + unat b) 0 (bs :: bytes)"
proof (induction bs arbitrary: a)
  case Nil
  then show ?case by simp
next
  case (Cons b bs)
  have "foldl (\<lambda>a b. a * 256 + unat b) a (b # bs)
      = (a * 256 + unat b) * 256 ^ length bs + foldl (\<lambda>a b. a * 256 + unat b) 0 bs"
    using Cons.IH [of "a * 256 + unat b"] by simp
  also have "\<dots> = a * 256 ^ length (b # bs)
      + (unat b * 256 ^ length bs + foldl (\<lambda>a b. a * 256 + unat b) 0 bs)"
    by (simp add: algebra_simps)
  also have "unat b * 256 ^ length bs + foldl (\<lambda>a b. a * 256 + unat b) 0 bs
      = foldl (\<lambda>a b. a * 256 + unat b) 0 (b # bs)"
    using Cons.IH [of "unat b"] by simp
  finally show ?case .
qed

lemma be_nat_Nil [simp]: "be_nat [] = 0"
  by (simp add: be_nat_def)

lemma be_nat_Cons: "be_nat (b # bs) = unat b * 256 ^ length bs + be_nat bs"
  unfolding be_nat_def by (simp add: foldl_be_shift [of "unat b"])

lemma be_nat_append: "be_nat (xs @ ys) = be_nat xs * 256 ^ length ys + be_nat ys"
  unfolding be_nat_def by (simp add: foldl_be_shift [of "foldl _ 0 xs"])

lemma be_nat_snoc: "be_nat (xs @ [b]) = be_nat xs * 256 + unat b"
  by (simp add: be_nat_append be_nat_Cons)

lemma unat_byte_lt [simp]: "unat (b :: byte) < 256"
  using unsigned_less [of b] by simp

lemma be_nat_bound: "be_nat bs < 256 ^ length bs"
proof (induction bs rule: rev_induct)
  case Nil
  then show ?case by simp
next
  case (snoc b bs)
  have "be_nat bs * 256 + unat b < (be_nat bs + 1) * 256"
    using unat_byte_lt [of b] by (simp add: algebra_simps del: unat_byte_lt)
  also have "\<dots> \<le> 256 ^ length bs * 256"
    using snoc by (intro mult_right_mono) auto
  finally show ?case by (simp add: be_nat_snoc mult.commute)
qed

section \<open>Thrown errors as a sum\<close>

text \<open>A function that may throw returns \<open>Inl\<close> of the error, or \<open>Inr\<close> of its result.\<close>

fun rbind :: "'e + 'a \<Rightarrow> ('a \<Rightarrow> 'e + 'b) \<Rightarrow> 'e + 'b" where
  "rbind (Inl e) f = Inl e"
| "rbind (Inr x) f = f x"

lemma rbind_cong [fundef_cong]:
  "m = m' \<Longrightarrow> (\<And>x. m' = Inr x \<Longrightarrow> f x = f' x) \<Longrightarrow> rbind m f = rbind m' f'"
  by (cases m') auto

lemma rbind_eq_Inr [result_simps]:
  "rbind m f = Inr y \<longleftrightarrow> (\<exists>x. m = Inr x \<and> f x = Inr y)"
  by (cases m) auto

lemma rbind_eq_Inl [result_simps]:
  "rbind m f = Inl e \<longleftrightarrow> m = Inl e \<or> (\<exists>x. m = Inr x \<and> f x = Inl e)"
  by (cases m) auto

lemma rbind_Inr_right [simp]: "rbind m Inr = m"
  by (cases m) auto

lemma rbind_assoc: "rbind (rbind m f) g = rbind m (\<lambda>x. rbind (f x) g)"
  by (cases m) auto

text \<open>A condition that throws.\<close>

definition guard_err :: "bool \<Rightarrow> 'e \<Rightarrow> 'e + unit" where
  "guard_err b e = (if b then Inr () else Inl e)"

lemma guard_err_simps [simp]:
  "guard_err True e = Inr ()" "guard_err False e = Inl e"
  by (simp_all add: guard_err_def)

lemma guard_err_Inr [result_simps]: "guard_err b e = Inr u \<longleftrightarrow> b"
  by (simp add: guard_err_def)

text \<open>\<open>try { r } catch { return d }\<close>\<close>

definition catch_default :: "'e + 'a \<Rightarrow> 'a \<Rightarrow> 'a" where
  "catch_default r d = (case r of Inl _ \<Rightarrow> d | Inr x \<Rightarrow> x)"

lemma catch_default_simps [simp]:
  "catch_default (Inl e) d = d" "catch_default (Inr x) d = x"
  by (simp_all add: catch_default_def)

section \<open>Slices\<close>

text \<open>\<open>xs.slice(a, b)\<close> for non-negative bounds: both are clamped to the length.\<close>

definition js_slice :: "'a list \<Rightarrow> nat \<Rightarrow> nat \<Rightarrow> 'a list" where
  "js_slice xs a b = take (b - a) (drop a xs)"

lemma length_slice [slice_simps]: "length (js_slice xs a b) = min (b - a) (length xs - a)"
  by (simp add: js_slice_def)

lemma slice_full [simp]: "js_slice xs 0 (length xs) = xs"
  by (simp add: js_slice_def)

lemma slice_append_exact:
  "length xs = a \<Longrightarrow> length ys = n \<Longrightarrow> b = a + n \<Longrightarrow> js_slice (xs @ ys @ zs) a b = ys"
  by (simp add: js_slice_def)

lemma nth_slice [slice_simps]: "i < b - a \<Longrightarrow> a + i < length xs \<Longrightarrow> js_slice xs a b ! i = xs ! (a + i)"
  by (simp add: js_slice_def)

lemma slice_slice_append:
  "a \<le> b \<Longrightarrow> b \<le> c \<Longrightarrow> js_slice xs a b @ js_slice xs b c = js_slice xs a c"
proof -
  assume "a \<le> b" "b \<le> c"
  then have "c - a = (b - a) + (c - b)" and "drop b xs = drop (b - a) (drop a xs)" by simp_all
  then show ?thesis unfolding js_slice_def by (simp only: take_add)
qed

text \<open>An element read, \<open>undefined\<close> (here \<open>None\<close>) past the end.\<close>

definition at_opt :: "'a list \<Rightarrow> nat \<Rightarrow> 'a option" where
  "at_opt xs i = (if i < length xs then Some (xs ! i) else None)"

lemma at_opt_Some [simp]: "at_opt xs i = Some x \<longleftrightarrow> i < length xs \<and> xs ! i = x"
  by (simp add: at_opt_def)

lemma at_opt_None [simp]: "at_opt xs i = None \<longleftrightarrow> length xs \<le> i"
  by (auto simp: at_opt_def)

section \<open>Map objects in insertion order\<close>

text \<open>
  A JavaScript \<open>Map\<close> iterates in insertion order and \<open>set\<close> on a present key keeps the
  key's place. Association lists with distinct keys and \<open>AList.update\<close> do exactly that.
\<close>

type_synonym ('k, 'v) jsmap = "('k \<times> 'v) list"

abbreviation jm_get :: "('k, 'v) jsmap \<Rightarrow> 'k \<Rightarrow> 'v option" where
  "jm_get m k \<equiv> map_of m k"

abbreviation jm_set :: "'k \<Rightarrow> 'v \<Rightarrow> ('k, 'v) jsmap \<Rightarrow> ('k, 'v) jsmap" where
  "jm_set k v m \<equiv> AList.update k v m"

abbreviation jm_delete :: "'k \<Rightarrow> ('k, 'v) jsmap \<Rightarrow> ('k, 'v) jsmap" where
  "jm_delete k m \<equiv> AList.delete k m"

abbreviation jm_has :: "('k, 'v) jsmap \<Rightarrow> 'k \<Rightarrow> bool" where
  "jm_has m k \<equiv> map_of m k \<noteq> None"

definition jm_wf :: "('k, 'v) jsmap \<Rightarrow> bool" where
  "jm_wf m \<longleftrightarrow> distinct (map fst m)"

lemma jm_wf_Nil [simp]: "jm_wf []"
  by (simp add: jm_wf_def)

lemma jm_wf_set [simp]: "jm_wf m \<Longrightarrow> jm_wf (jm_set k v m)"
  by (simp add: jm_wf_def distinct_update)

lemma jm_wf_delete [simp]: "jm_wf m \<Longrightarrow> jm_wf (jm_delete k m)"
  unfolding jm_wf_def by (metis distinct_delete)

lemma jm_get_set [jsmap_simps]: "jm_get (jm_set k v m) k' = (if k' = k then Some v else jm_get m k')"
  by (simp add: update_conv')

lemma jm_get_delete [jsmap_simps]:
  "jm_get (jm_delete k m) k' = (if k' = k then None else jm_get m k')"
  by (simp add: delete_conv')

lemma jm_in_set_iff: "jm_wf m \<Longrightarrow> (k, v) \<in> set m \<longleftrightarrow> jm_get m k = Some v"
  by (simp add: jm_wf_def)

lemma set_jm_set: "set (jm_set k v m) \<subseteq> insert (k, v) (set m)"
  by (induction m) (auto split: if_splits)

lemma length_jm_set:
  "length (jm_set k v m) = (if jm_has m k then length m else Suc (length m))"
  by (induction m) (auto split: if_splits)

lemma jm_keys_set: "fst ` set (jm_set k v m) = insert k (fst ` set m)"
  by (simp add: dom_update)

lemma length_jm_dom: "jm_wf m \<Longrightarrow> length m = card (dom (jm_get m))"
  by (simp add: jm_wf_def dom_map_of_conv_image_fst distinct_card flip: set_map)

end
