(* ===== verification/Js_Text.thy ===== *)
theory Js_Text
  imports Prelude
begin

text \<open>
  The string operations the server uses, on code points: \<open>trim\<close>, \<open>split\<close>, \<open>join\<close>,
  \<open>replaceAll\<close>, decimal printing and reading, and the WHATWG UTF-8 decoder behind
  \<open>TextDecoder\<close>. A \<open>string\<close> holds code points below 256; text that may hold others
  (the decoder's result) is a list of naturals.
\<close>

section \<open>Trim, split, join\<close>

text \<open>White space and line terminators below 256.\<close>

definition is_js_space :: "char \<Rightarrow> bool" where
  "is_js_space c \<longleftrightarrow> (of_char c :: nat) \<in> {9, 10, 11, 12, 13, 32, 160}"

definition js_trim :: "string \<Rightarrow> string" where
  "js_trim s = rev (dropWhile is_js_space (rev (dropWhile is_js_space s)))"

fun split_on :: "char \<Rightarrow> string \<Rightarrow> string list" where
  "split_on c [] = [[]]"
| "split_on c (x # xs) =
     (if x = c then [] # split_on c xs
      else (case split_on c xs of [] \<Rightarrow> [[x]] | p # ps \<Rightarrow> (x # p) # ps))"

fun join_with :: "string \<Rightarrow> string list \<Rightarrow> string" where
  "join_with sep [] = []"
| "join_with sep [p] = p"
| "join_with sep (p # q # ps) = p @ sep @ join_with sep (q # ps)"

text \<open>\<open>replaceAll\<close> of one character by a string.\<close>

definition replace_char :: "char \<Rightarrow> string \<Rightarrow> string \<Rightarrow> string" where
  "replace_char c r s = concat (map (\<lambda>x. if x = c then r else [x]) s)"

lemma replace_char_map: "replace_char c [d] s = map (\<lambda>x. if x = c then d else x) s"
  by (induction s) (auto simp: replace_char_def)

lemma split_on_not_Nil [simp]: "split_on c s \<noteq> []"
  by (induction s) (auto split: list.splits)

lemma split_on_none: "c \<notin> set s \<Longrightarrow> split_on c s = [s]"
  by (induction s) auto

lemma split_on_append: "c \<notin> set a \<Longrightarrow> split_on c (a @ c # b) = a # split_on c b"
  by (induction a) auto

lemma join_split: "join_with [c] (split_on c s) = s"
proof (induction s)
  case Nil
  then show ?case by simp
next
  case (Cons x xs)
  obtain p ps where p: "split_on c xs = p # ps" by (cases "split_on c xs") auto
  with Cons show ?case by (cases ps) auto
qed

lemma js_trim_Nil [simp]: "js_trim [] = []"
  by (simp add: js_trim_def)

lemma js_trim_idem [simp]: "js_trim (js_trim s) = js_trim s"
proof -
  let ?t = "dropWhile is_js_space s"
  have "dropWhile is_js_space (js_trim s) = js_trim s"
  proof (cases "js_trim s")
    case Nil
    then show ?thesis by simp
  next
    case (Cons x xs)
    obtain zs where "?t = js_trim s @ zs"
      unfolding js_trim_def
      by (metis append_take_drop_id rev_append rev_rev_ident suffix_def suffix_dropWhile)
    with Cons have t: "?t = x # (xs @ zs)" by simp
    then have "\<not> is_js_space (hd ?t)" by (metis hd_dropWhile list.distinct(1))
    with t Cons show ?thesis by simp
  qed
  moreover have "dropWhile is_js_space (rev (js_trim s)) = rev (js_trim s)"
    unfolding js_trim_def by (simp add: dropWhile_idem)
  ultimately show ?thesis by (simp add: js_trim_def)
qed

lemma js_trim_pad:
  assumes "s \<noteq> [] \<longrightarrow> \<not> is_js_space (hd s) \<and> \<not> is_js_space (last s)"
  shows "js_trim (s @ replicate n CHR '' '') = s"
proof (cases "s = []")
  case True
  have "dropWhile is_js_space (replicate n CHR '' '') = []"
    by (simp add: is_js_space_def)
  with True show ?thesis by (simp add: js_trim_def)
next
  case False
  then have f: "dropWhile is_js_space (s @ replicate n CHR '' '') = s @ replicate n CHR '' ''"
    using assms by (cases s) auto
  have "dropWhile is_js_space (replicate n CHR '' '' @ rev s) = dropWhile is_js_space (rev s)"
    by (simp add: dropWhile_append is_js_space_def)
  also have "\<dots> = rev s" using assms False by (cases "rev s") (auto simp: hd_rev [symmetric])
  finally show ?thesis by (simp add: js_trim_def f)
qed

text \<open>The ends of a trimmed text are not white space, and such a text is its own trim.\<close>

definition solid_ends :: "string \<Rightarrow> bool" where
  "solid_ends s \<longleftrightarrow> (s \<noteq> [] \<longrightarrow> \<not> is_js_space (hd s) \<and> \<not> is_js_space (last s))"

lemma solid_ends_trim: "solid_ends s \<Longrightarrow> js_trim s = s"
  using js_trim_pad [of s 0] by (simp add: solid_ends_def)

lemma js_trim_solid: "solid_ends (js_trim s)"
  unfolding solid_ends_def
proof (intro impI conjI)
  assume ne: "js_trim s \<noteq> []"
  have i: "js_trim (js_trim s) = js_trim s" by simp
  show "\<not> is_js_space (last (js_trim s))"
    using ne unfolding js_trim_def
    by (metis hd_dropWhile last_rev rev.simps(1) rev_is_rev_conv rev_rev_ident)
  show "\<not> is_js_space (hd (js_trim s))"
  proof
    assume "is_js_space (hd (js_trim s))"
    with ne have "length (dropWhile is_js_space (js_trim s)) < length (js_trim s)"
      by (cases "js_trim s") (auto simp: le_imp_less_Suc length_dropWhile_le)
    then have "length (js_trim (js_trim s)) < length (js_trim s)"
      unfolding js_trim_def [of "js_trim s"] by (metis length_dropWhile_le length_rev order_le_less_trans)
    with i show False by simp
  qed
qed

section \<open>Decimal text\<close>

definition digit_char :: "nat \<Rightarrow> char" where
  "digit_char d = char_of (48 + d)"

lemma digit_char_table [simp]:
  "digit_char 0 = CHR ''0''" "digit_char (Suc 0) = CHR ''1''" "digit_char 1 = CHR ''1''"
  "digit_char 2 = CHR ''2''" "digit_char 3 = CHR ''3''" "digit_char 4 = CHR ''4''"
  "digit_char 5 = CHR ''5''" "digit_char 6 = CHR ''6''" "digit_char 7 = CHR ''7''"
  "digit_char 8 = CHR ''8''" "digit_char 9 = CHR ''9''"
  by code_simp+

definition is_digit :: "char \<Rightarrow> bool" where
  "is_digit c \<longleftrightarrow> 48 \<le> (of_char c :: nat) \<and> (of_char c :: nat) \<le> 57"

definition digit_value :: "char \<Rightarrow> nat" where
  "digit_value c = of_char c - 48"

fun show_nat :: "nat \<Rightarrow> string" where
  "show_nat n = (if n < 10 then [digit_char n] else show_nat (n div 10) @ [digit_char (n mod 10)])"

declare show_nat.simps [simp del]

definition read_nat :: "string \<Rightarrow> nat" where
  "read_nat s = foldl (\<lambda>a c. a * 10 + digit_value c) 0 s"

text \<open>\<open>x.toString()\<close> of an integer.\<close>

definition show_int :: "int \<Rightarrow> string" where
  "show_int i = (if i < 0 then CHR ''-'' # show_nat (nat (- i)) else show_nat (nat i))"

text \<open>\<open>s.padStart(n, "0")\<close>\<close>

definition pad_zero :: "nat \<Rightarrow> string \<Rightarrow> string" where
  "pad_zero n s = replicate (n - length s) CHR ''0'' @ s"

lemma digit_char_props [simp]:
  assumes "d < 10"
  shows "is_digit (digit_char d)" and "digit_value (digit_char d) = d"
  using assms by (simp_all add: is_digit_def digit_char_def digit_value_def)

lemma show_nat_digits: "\<forall>c \<in> set (show_nat n). is_digit c"
proof (induction n rule: show_nat.induct)
  case (1 n)
  then show ?case by (cases "n < 10") (auto simp: show_nat.simps [of n])
qed

lemma show_nat_not_Nil [simp]: "show_nat n \<noteq> []"
  by (simp add: show_nat.simps [of n])

lemma read_nat_snoc: "read_nat (s @ [c]) = read_nat s * 10 + digit_value c"
  by (simp add: read_nat_def)

lemma read_show_nat [simp]: "read_nat (show_nat n) = n"
proof (induction n rule: show_nat.induct)
  case (1 n)
  then show ?case
    by (cases "n < 10") (auto simp: show_nat.simps [of n] read_nat_snoc, simp add: read_nat_def)
qed

lemma show_nat_inj [simp]: "show_nat m = show_nat n \<longleftrightarrow> m = n"
  by (metis read_show_nat)

lemma digit_not_sep: "is_digit c \<Longrightarrow> c \<noteq> CHR '':'' \<and> c \<noteq> CHR ''-'' \<and> c \<noteq> CHR ''.''"
  by (auto simp: is_digit_def)

lemma show_nat_no_colon [simp]: "CHR '':'' \<notin> set (show_nat n)"
  using show_nat_digits [of n] digit_not_sep by blast

lemma read_nat_bound: "\<forall>c \<in> set s. is_digit c \<Longrightarrow> read_nat s < 10 ^ length s"
proof (induction s rule: rev_induct)
  case Nil
  then show ?case by (simp add: read_nat_def)
next
  case (snoc c s)
  then have "digit_value c \<le> 9" and "read_nat s + 1 \<le> 10 ^ length s"
    by (auto simp: is_digit_def digit_value_def)
  then have "read_nat s * 10 + digit_value c < 10 ^ length s * 10" by linarith
  then show ?case by (simp add: read_nat_snoc mult.commute)
qed

text \<open>
  \<open>Number(s)\<close> on text made of decimal digits, \<open>None\<close> for \<open>NaN\<close>. The empty string gives 0,
  as in JavaScript. The other forms \<open>Number\<close> accepts (signs, fractions, exponents, white
  space) are not modelled: the server applies it to text it printed itself.
\<close>

definition js_Number :: "string \<Rightarrow> int option" where
  "js_Number s = (if list_all is_digit s then Some (int (read_nat s)) else None)"

lemma js_Number_show_nat [simp]: "js_Number (show_nat n) = Some (int n)"
  using show_nat_digits [of n] by (simp add: js_Number_def list_all_iff)

section \<open>UTF-8 decoding\<close>

text \<open>
  The decoder of the WHATWG Encoding Standard. The state is the number of continuation bytes
  still needed, the code point so far and the range the next byte must lie in; a byte out of
  the range emits an error and is read again from the initial state. \<open>None\<close> marks an error:
  the plain decoder turns it into U+FFFD, the fatal one throws.
\<close>

function utf8_run :: "nat \<Rightarrow> nat \<Rightarrow> nat \<Rightarrow> nat \<Rightarrow> nat list \<Rightarrow> nat option list" where
  "utf8_run 0 cp lo hi [] = []"
| "utf8_run (Suc need) cp lo hi [] = [None]"
| "utf8_run 0 cp lo hi (b # bs) =
     (if b < 128 then Some b # utf8_run 0 0 128 191 bs
      else if 194 \<le> b \<and> b \<le> 223 then utf8_run 1 (b - 192) 128 191 bs
      else if 224 \<le> b \<and> b \<le> 239 then
        utf8_run 2 (b - 224) (if b = 224 then 160 else 128) (if b = 237 then 159 else 191) bs
      else if 240 \<le> b \<and> b \<le> 244 then
        utf8_run 3 (b - 240) (if b = 240 then 144 else 128) (if b = 244 then 143 else 191) bs
      else None # utf8_run 0 0 128 191 bs)"
| "utf8_run (Suc need) cp lo hi (b # bs) =
     (if b < lo \<or> hi < b then None # utf8_run 0 0 128 191 (b # bs)
      else
        let cp' = cp * 64 + (b - 128)
        in if need = 0 then Some cp' # utf8_run 0 0 128 191 bs
           else utf8_run need cp' 128 191 bs)"
  by pat_completeness auto
termination
  by (relation "measure (\<lambda>(need, cp, lo, hi, bs). 2 * length bs + (if need = 0 then 0 else 1))")
    auto

definition strip_bom :: "nat list \<Rightarrow> nat list" where
  "strip_bom cps = (case cps of [] \<Rightarrow> [] | c # cs \<Rightarrow> if c = 65279 then cs else cps)"

text \<open>\<open>new TextDecoder().decode(bytes)\<close>\<close>

definition utf8_decode :: "bytes \<Rightarrow> nat list" where
  "utf8_decode bs =
     strip_bom (map (\<lambda>r. case r of None \<Rightarrow> 65533 | Some c \<Rightarrow> c) (utf8_run 0 0 128 191 (map unat bs)))"

text \<open>\<open>new TextDecoder("utf-8", \{ fatal: true \}).decode(bytes)\<close>; \<open>None\<close> when it throws.\<close>

definition utf8_decode_fatal :: "bytes \<Rightarrow> nat list option" where
  "utf8_decode_fatal bs =
     (let rs = utf8_run 0 0 128 191 (map unat bs)
      in if None \<in> set rs then None else Some (strip_bom (map the rs)))"

lemma utf8_run_ascii: "\<forall>b \<in> set bs. b < 128 \<Longrightarrow> utf8_run 0 cp lo hi bs = map Some bs"
  by (induction bs arbitrary: cp lo hi) auto

lemma strip_bom_ascii: "\<forall>c \<in> set cs. c < 128 \<Longrightarrow> strip_bom cs = cs"
  by (auto simp: strip_bom_def split: list.splits)

lemma utf8_decode_ascii: "\<forall>b \<in> set bs. unat b < 128 \<Longrightarrow> utf8_decode bs = map unat bs"
  by (simp add: utf8_decode_def utf8_run_ascii strip_bom_ascii o_def)

lemma utf8_decode_fatal_ascii:
  "\<forall>b \<in> set bs. unat b < 128 \<Longrightarrow> utf8_decode_fatal bs = Some (map unat bs)"
  by (auto simp: utf8_decode_fatal_def utf8_run_ascii strip_bom_ascii o_def)

text \<open>\<open>new TextEncoder().encode(s)\<close> for text of ASCII characters.\<close>

definition ascii_bytes :: "string \<Rightarrow> bytes" where
  "ascii_bytes s = map (\<lambda>c. of_nat (of_char c)) s"

lemma ascii_bytes_unat: "unat (of_nat (of_char (c :: char)) :: byte) = of_char c"
  by (simp add: unat_of_nat)

lemma map_unat_ascii_bytes [simp]: "map unat (ascii_bytes s) = map of_char s"
  by (simp add: ascii_bytes_def ascii_bytes_unat)

lemma length_ascii_bytes [simp]: "length (ascii_bytes s) = length s"
  by (simp add: ascii_bytes_def)

end
