(* ===== verification/Machines.thy ===== *)
theory Machines
  imports Prelude
begin

text \<open>
  The interfaces several components share, as locales: a machine whose handler keeps an
  invariant, a machine whose finished states absorb every message, a machine with a rank
  that no message lowers, a machine that every message brings nearer to its end, a codec, and a
  sequential reader that always moves forward. Each component
  discharges the laws for its own handler and takes over the facts about message sequences.
\<close>

section \<open>Invariant machines\<close>

locale invariant_machine =
  fixes handle :: "'s \<Rightarrow> 'm \<Rightarrow> 's"
    and inv :: "'s \<Rightarrow> bool"
  assumes handle_inv: "inv s \<Longrightarrow> inv (handle s m)"
begin

lemma run_inv: "inv s \<Longrightarrow> inv (foldl handle s ms)"
  by (induction ms arbitrary: s) (auto simp: handle_inv)

end

text \<open>A machine with final states: no message changes the part that \<open>view\<close> shows.\<close>

locale absorbing_machine =
  fixes handle :: "'s \<Rightarrow> 'm \<Rightarrow> 's"
    and final :: "'s \<Rightarrow> bool"
    and view :: "'s \<Rightarrow> 'v"
  assumes final_view: "final s \<Longrightarrow> view (handle s m) = view s"
    and final_kept: "final s \<Longrightarrow> final (handle s m)"
begin

lemma run_final: "final s \<Longrightarrow> final (foldl handle s ms) \<and> view (foldl handle s ms) = view s"
proof (induction ms arbitrary: s)
  case Nil
  then show ?case by simp
next
  case (Cons m ms)
  from Cons.IH [OF final_kept [OF Cons.prems]] final_view [OF Cons.prems] show ?case by simp
qed

text \<open>A final state reached at any point of a run is the state the run ends in, up to the view.\<close>

lemma run_final_split:
  "final (foldl handle s ms) \<Longrightarrow> view (foldl handle s (ms @ ns)) = view (foldl handle s ms)"
  by (simp add: run_final)

end

text \<open>A machine with a numeric rank that no message lowers.\<close>

locale ranked_machine = invariant_machine +
  fixes rank :: "'a \<Rightarrow> nat"
  assumes handle_rank: "inv s \<Longrightarrow> rank s \<le> rank (handle s m)"
begin

lemma run_rank: "inv s \<Longrightarrow> rank s \<le> rank (foldl handle s ms)"
proof (induction ms arbitrary: s)
  case Nil
  then show ?case by simp
next
  case (Cons m ms)
  from handle_rank [OF Cons.prems] Cons.IH [OF handle_inv [OF Cons.prems]] show ?case
    using le_trans by fastforce
qed

end

text \<open>A machine that every message brings nearer to its end.\<close>

locale descending_machine =
  fixes handle :: "'s \<Rightarrow> 'm \<Rightarrow> 's"
    and rank :: "'s \<Rightarrow> nat"
  assumes handle_descends: "rank s \<noteq> 0 \<Longrightarrow> rank (handle s m) < rank s"
    and handle_end: "rank s = 0 \<Longrightarrow> handle s m = s"
begin

lemma run_descends: "rank (foldl handle s ms) = 0 \<or> rank (foldl handle s ms) + length ms \<le> rank s"
proof (induction ms rule: rev_induct)
  case Nil
  then show ?case by simp
next
  case (snoc m ms)
  then show ?case
    using handle_descends [of "foldl handle s ms" m] handle_end [of "foldl handle s ms" m] by fastforce
qed

lemma run_ends: "rank s \<le> length ms \<Longrightarrow> rank (foldl handle s ms) = 0"
  using run_descends [of s ms] by linarith

end

section \<open>Codecs\<close>

text \<open>What a decoder promises of the texts its encoder makes.\<close>

locale codec =
  fixes encode :: "'a \<Rightarrow> 'b"
    and decode :: "'b \<Rightarrow> 'a option"
  assumes decode_encode: "decode (encode x) = Some x"
begin

lemma encode_eq_iff: "encode x = encode y \<longleftrightarrow> x = y"
  by (metis decode_encode option.inject)

lemma encode_inj: "inj encode"
  by (rule injI) (simp add: encode_eq_iff)

end

section \<open>Forward readers\<close>

text \<open>
  A reader of consecutive elements: it fails or returns an element and the offset after it,
  strictly further and inside the input. \<open>covers\<close> relates a list of elements to the range
  they were read from.
\<close>

locale forward_reader =
  fixes read :: "'b list \<Rightarrow> nat \<Rightarrow> 'e + 'v"
    and next_of :: "'v \<Rightarrow> nat"
  assumes read_forward: "read bs off = Inr v \<Longrightarrow> off < next_of v"
    and read_inside: "read bs off = Inr v \<Longrightarrow> next_of v \<le> length bs"
begin

lemma read_measure: "read bs off = Inr v \<Longrightarrow> length bs - next_of v < length bs - off"
  using read_forward read_inside by fastforce

lemma read_offset_inside: "read bs off = Inr v \<Longrightarrow> off < length bs"
  using read_forward read_inside by fastforce

lemma read_at_end: "length bs \<le> off \<Longrightarrow> \<exists>e. read bs off = Inl e"
  by (metis Inr_Inl_False not_less old.sum.exhaust read_offset_inside)

end

end
