(* ===== verification/Verify_Codes.thy ===== *)
theory Verify_Codes
  imports Main
begin

text \<open>
  The error codes the verification socket and its handlers report
  (\<open>apps/api/src/v1/verify/\<close>), as one enumeration: the code carries them as string literals.
\<close>

datatype verify_code =
  SESSION_CONNECTION_ACTIVE | SESSION_NOT_FOUND | HANDOFF_DEVICE_MISMATCH
| HANDOFF_TOKEN_CONSUMED | HANDOFF_TOKEN_EXPIRED | HANDOFF_TOKEN_INVALID
| HELLO_ATTEST_INVALID | HELLO_ATTEST_KEY_UNKNOWN | HELLO_AUTH_REQUIRED
| MIN_APP_VERSION_REQUIRED | SESSION_EXPIRED | SESSION_IN_PROGRESS | INVALID_SESSION_ID
| CANCEL_TOKEN_INVALID | CANCEL_TOKEN_USED | INVALID_REQUEST | CONSENT_REQUIRED
| HELLO_REQUIRED | DECODE_FAILED | INVALID_MESSAGE | INTERNAL_ERROR | UNKNOWN
| PHASE_OUT_OF_ORDER | NFC_DATA_PHASE_REQUIRED | NFC_REQUIRED_DATA_MISSING
| LIVENESS_DATA_PHASE_REQUIRED | LIVENESS_REQUIRED_DATA_MISSING | LIVENESS_CHALLENGE_UNAVAILABLE
| DATA_CHUNK_RETRY | FRAME_TOO_LARGE | UNKNOWN_DATA_KIND | LEGACY_SELFIE_KIND_UNSUPPORTED
| TRANSFER_TOO_LARGE | CHUNK_TOTAL_TOO_LARGE | ARTIFACT_TOO_LARGE | ACTIVE_AUTH_PAYLOAD_INVALID
| SHARE_SELECTION_REQUIRED | SHARE_SELECTION_INVALID_FIELD | SHARE_SELECTION_MISSING_REQUIRED

end
