(* ===== verification/Data_Payload.thy ===== *)
theory Data_Payload
  imports Js_Text Machines Verify_Codes
begin

text \<open>
  The artifact transfer of the verification socket
  (\<open>apps/api/src/v1/verify/data-payload*.ts\<close>): frames of document data groups, of the
  active and chip authentication evidence and of the liveness video arrive in chunks, are
  checked, buffered per \<open>kind:index\<close> key, reassembled and stored.

  Numeric payload fields are integers (the wire format has no others); byte counts are
  naturals. The state the code mutates in place is passed and returned.
\<close>

section \<open>Kinds and limits\<close>

definition DG1_KIND :: int where "DG1_KIND = 0"
definition DG2_KIND :: int where "DG2_KIND = 1"
definition SOD_KIND :: int where "SOD_KIND = 2"
definition LEGACY_SELFIE_KIND :: int where "LEGACY_SELFIE_KIND = 3"
definition DG14_KIND :: int where "DG14_KIND = 4"
definition DG15_KIND :: int where "DG15_KIND = 5"
definition ACTIVE_AUTH_KIND :: int where "ACTIVE_AUTH_KIND = 6"
definition CHIP_AUTH_KIND :: int where "CHIP_AUTH_KIND = 7"
definition LIVENESS_VIDEO_KIND :: int where "LIVENESS_VIDEO_KIND = 8"
definition ACTIVE_AUTH_CHALLENGE_BYTES :: nat where "ACTIVE_AUTH_CHALLENGE_BYTES = 8"

definition MAX_FRAME_BYTES :: nat where "MAX_FRAME_BYTES = 256 * 1024"
definition MAX_CHUNKS_PER_KEY :: int where "MAX_CHUNKS_PER_KEY = 256"
definition MAX_KIND_BYTES :: nat where "MAX_KIND_BYTES = 16 * 1024 * 1024"
definition MAX_TOTAL_TRANSFER_BYTES :: nat where "MAX_TOTAL_TRANSFER_BYTES = 48 * 1024 * 1024"

lemmas kind_defs = DG1_KIND_def DG2_KIND_def SOD_KIND_def LEGACY_SELFIE_KIND_def DG14_KIND_def
  DG15_KIND_def ACTIVE_AUTH_KIND_def CHIP_AUTH_KIND_def LIVENESS_VIDEO_KIND_def

definition isNfcDataKind :: "int \<Rightarrow> bool" where
  "isNfcDataKind kind \<longleftrightarrow>
     kind = DG1_KIND \<or> kind = DG2_KIND \<or> kind = SOD_KIND \<or> kind = DG14_KIND \<or>
     kind = DG15_KIND \<or> kind = ACTIVE_AUTH_KIND \<or> kind = CHIP_AUTH_KIND"

definition isLivenessVideoDataKind :: "int \<Rightarrow> bool" where
  "isLivenessVideoDataKind kind \<longleftrightarrow> kind = LIVENESS_VIDEO_KIND"

definition isLegacySelfieDataKind :: "int \<Rightarrow> bool" where
  "isLegacySelfieDataKind kind \<longleftrightarrow> kind = LEGACY_SELFIE_KIND"

definition isSupportedDataKind :: "int \<Rightarrow> bool" where
  "isSupportedDataKind kind \<longleftrightarrow> isNfcDataKind kind \<or> isLivenessVideoDataKind kind"

section \<open>State and results\<close>

record chunk_entry =
  ce_total :: int
  ce_parts :: "(int, bytes) jsmap"

datatype nfc_artifact = Art_dg1 | Art_dg2 | Art_sod

record missing_chunk =
  mc_kind :: int
  mc_index :: int
  mc_total :: int
  mc_indices :: "int list"

record nfc_status =
  ns_complete :: bool
  ns_missing_artifacts :: "nfc_artifact list"
  ns_missing_chunks :: "missing_chunk list"

record liveness_status =
  ls_complete :: bool
  ls_received :: nat
  ls_missing_chunks :: "missing_chunk list"

record transfer_state =
  ts_dg1 :: "bytes option"
  ts_dg2 :: "bytes option"
  ts_sod :: "bytes option"
  ts_dg14 :: "bytes option"
  ts_dg15 :: "bytes option"
  ts_aa_challenge :: "bytes option"
  ts_aa_signature :: "bytes option"
  ts_ca_transcript :: "bytes option"
  ts_attest :: "bytes option"
  ts_video :: "bytes option"
  ts_chunks :: "(string, chunk_entry) jsmap"
  ts_received :: nat

record data_payload =
  dp_kind :: "int option"
  dp_raw :: "bytes option"
  dp_index :: "int option"
  dp_total :: "int option"
  dp_chunkIndex :: "int option"
  dp_chunkTotal :: "int option"

record normalized_payload =
  np_kind :: int
  np_raw :: bytes
  np_index :: int
  np_total :: int
  np_chunkIndex :: int
  np_chunkTotal :: int
  np_chunkKey :: string

record data_result =
  dr_acks :: "string list"
  dr_error :: "(verify_code \<times> string) option"
  dr_authenticityReady :: bool
  dr_nfc :: nfc_status
  dr_liveness :: liveness_status

section \<open>Chunks\<close>

text \<open>\<open>Number.isInteger(value) && value >= 0\<close>; the values are integers already.\<close>

definition isNonNegativeInteger :: "int \<Rightarrow> bool" where
  "isNonNegativeInteger value \<longleftrightarrow> 0 \<le> value"

definition chunk_key :: "int \<Rightarrow> int \<Rightarrow> string" where
  "chunk_key kind index = show_int kind @ '':'' @ show_int index"

definition parseChunkKey :: "string \<Rightarrow> (int \<times> int) option" where
  "parseChunkKey key =
     (let parts = split_on CHR '':'' key
      in case (Option.bind (at_opt parts 0) js_Number, Option.bind (at_opt parts 1) js_Number) of
           (Some kind, Some index) \<Rightarrow>
             if isNonNegativeInteger kind \<and> isNonNegativeInteger index then Some (kind, index) else None
         | _ \<Rightarrow> None)"

definition createChunkRetryMessage :: "int \<Rightarrow> int \<Rightarrow> int \<Rightarrow> string \<Rightarrow> string" where
  \<open>createChunkRetryMessage kind index chunkIndex reason =
     ''{"kind":'' @ show_int kind @ '',"index":'' @ show_int index @
     '',"chunkIndex":'' @ show_int chunkIndex @ '',"reason":"'' @ reason @ ''"}''\<close>

definition getMissingChunkIndices :: "chunk_entry \<Rightarrow> int list" where
  "getMissingChunkIndices entry =
     filter (\<lambda>index. \<not> jm_has (ce_parts entry) index) [0 .. ce_total entry - 1]"

definition getOrCreateChunkEntry ::
  "(string, chunk_entry) jsmap \<Rightarrow> string \<Rightarrow> int \<Rightarrow> (string, chunk_entry) jsmap \<times> chunk_entry" where
  "getOrCreateChunkEntry chunks key chunkTotal =
     (case jm_get chunks key of
        Some existing \<Rightarrow> (chunks, existing)
      | None \<Rightarrow>
          let entry = \<lparr>ce_total = chunkTotal, ce_parts = []\<rparr>
          in (jm_set key entry chunks, entry))"

text \<open>The \<open>for\<close> loop of \<open>collectChunks\<close> over the indices \<open>index \<dots> chunkTotal - 1\<close>.\<close>

fun collect_from :: "(int, bytes) jsmap \<Rightarrow> int list \<Rightarrow> bytes list \<Rightarrow> bytes list option" where
  "collect_from parts [] buffers = Some buffers"
| "collect_from parts (index # rest) buffers =
     (case jm_get parts index of
        None \<Rightarrow> None
      | Some part \<Rightarrow> collect_from parts rest (buffers @ [part]))"

definition collectChunks :: "chunk_entry \<Rightarrow> bytes list option" where
  "collectChunks entry = collect_from (ce_parts entry) [0 .. ce_total entry - 1] []"

text \<open>\<open>merged.set(part, offset)\<close> on a buffer of fixed size.\<close>

definition buffer_set :: "bytes \<Rightarrow> bytes \<Rightarrow> nat \<Rightarrow> bytes" where
  "buffer_set merged part offset =
     take offset merged @ part @ drop (offset + length part) merged"

definition mergeChunks :: "bytes list \<Rightarrow> bytes" where
  "mergeChunks parts =
     (let totalLength = foldl (\<lambda>sum part. sum + length part) 0 parts;
          merged = replicate totalLength 0
      in fst (foldl (\<lambda>(merged, offset) part. (buffer_set merged part offset, offset + length part))
                (merged, 0) parts))"

record assembled =
  as_complete :: bool
  as_data :: "bytes option"

definition assembleChunk ::
  "transfer_state \<Rightarrow> string \<Rightarrow> int \<Rightarrow> int \<Rightarrow> bytes \<Rightarrow> transfer_state \<times> assembled" where
  "assembleChunk state key chunkIndex chunkTotal chunk =
     (if chunkTotal \<le> 1 then
        (state\<lparr>ts_received := ts_received state + length chunk\<rparr>,
         \<lparr>as_complete = True, as_data = Some chunk\<rparr>)
      else
        let (chunks, entry) = getOrCreateChunkEntry (ts_chunks state) key chunkTotal;
            isNewPart = \<not> jm_has (ce_parts entry) chunkIndex;
            entry' = entry\<lparr>ce_parts := jm_set chunkIndex chunk (ce_parts entry)\<rparr>;
            chunks' = jm_set key entry' chunks;
            received = (if isNewPart then ts_received state + length chunk else ts_received state);
            state' = state\<lparr>ts_chunks := chunks', ts_received := received\<rparr>
        in if int (length (ce_parts entry')) < ce_total entry' then
             (state', \<lparr>as_complete = False, as_data = None\<rparr>)
           else
             case collectChunks entry' of
               None \<Rightarrow> (state', \<lparr>as_complete = False, as_data = None\<rparr>)
             | Some buffers \<Rightarrow>
                 let merged = mergeChunks buffers
                 in (state'\<lparr>ts_chunks := jm_delete key (ts_chunks state')\<rparr>,
                     \<lparr>as_complete = True, as_data = Some merged\<rparr>))"

section \<open>Resets\<close>

definition createTransferState :: transfer_state where
  "createTransferState =
     \<lparr>ts_dg1 = None, ts_dg2 = None, ts_sod = None, ts_dg14 = None, ts_dg15 = None,
      ts_aa_challenge = None, ts_aa_signature = None, ts_ca_transcript = None, ts_attest = None,
      ts_video = None, ts_chunks = [], ts_received = 0\<rparr>"

definition resetTransferState :: "transfer_state \<Rightarrow> transfer_state" where
  "resetTransferState state =
     state\<lparr>ts_video := None, ts_dg1 := None, ts_dg2 := None, ts_sod := None, ts_dg14 := None,
           ts_dg15 := None, ts_aa_challenge := None, ts_aa_signature := None,
           ts_ca_transcript := None, ts_attest := None, ts_chunks := [], ts_received := 0\<rparr>"

text \<open>The loop over \<open>Array.from(state.chunks.keys())\<close> that both partial resets run.\<close>

definition delete_keys_where ::
  "(int \<Rightarrow> bool) \<Rightarrow> (string, chunk_entry) jsmap \<Rightarrow> (string, chunk_entry) jsmap" where
  "delete_keys_where test chunks =
     foldl (\<lambda>m key. case parseChunkKey key of
                       Some (kind, index) \<Rightarrow> if test kind then jm_delete key m else m
                     | None \<Rightarrow> m)
           chunks (map fst chunks)"

definition resetNfcTransferState :: "transfer_state \<Rightarrow> transfer_state" where
  "resetNfcTransferState state =
     state\<lparr>ts_dg1 := None, ts_dg2 := None, ts_sod := None, ts_dg14 := None, ts_dg15 := None,
           ts_aa_challenge := None, ts_aa_signature := None, ts_ca_transcript := None,
           ts_attest := None,
           ts_chunks := delete_keys_where (\<lambda>kind. kind \<noteq> LIVENESS_VIDEO_KIND) (ts_chunks state)\<rparr>"

definition resetLivenessTransferState :: "transfer_state \<Rightarrow> transfer_state" where
  "resetLivenessTransferState state =
     state\<lparr>ts_video := None,
           ts_chunks := delete_keys_where isLivenessVideoDataKind (ts_chunks state)\<rparr>"

section \<open>Status\<close>

definition getMissingNfcArtifacts :: "transfer_state \<Rightarrow> nfc_artifact list" where
  "getMissingNfcArtifacts state =
     (if ts_dg1 state = None then [Art_dg1] else []) @
     (if ts_dg2 state = None then [Art_dg2] else []) @
     (if ts_sod state = None then [Art_sod] else [])"

text \<open>One turn of the loop in \<open>getMissingTransferChunks\<close>: the records it pushes, 0 or 1.\<close>

definition missing_of :: "(int \<Rightarrow> bool) \<Rightarrow> string \<times> chunk_entry \<Rightarrow> missing_chunk list" where
  "missing_of includeKind ke =
     (case parseChunkKey (fst ke) of
        None \<Rightarrow> []
      | Some (kind, index) \<Rightarrow>
          if \<not> includeKind kind then []
          else
            let missing = getMissingChunkIndices (snd ke)
            in if missing = [] then []
               else [\<lparr>mc_kind = kind, mc_index = index, mc_total = ce_total (snd ke),
                      mc_indices = missing\<rparr>])"

definition getMissingTransferChunks ::
  "transfer_state \<Rightarrow> (int \<Rightarrow> bool) \<Rightarrow> missing_chunk list" where
  "getMissingTransferChunks state includeKind = concat (map (missing_of includeKind) (ts_chunks state))"

definition getNfcTransferStatus :: "transfer_state \<Rightarrow> nfc_status" where
  "getNfcTransferStatus state =
     (let missingArtifacts = getMissingNfcArtifacts state;
          missingChunks = getMissingTransferChunks state isNfcDataKind
      in \<lparr>ns_complete = (length missingArtifacts = 0 \<and> length missingChunks = 0),
          ns_missing_artifacts = missingArtifacts, ns_missing_chunks = missingChunks\<rparr>)"

definition getLivenessTransferStatus :: "transfer_state \<Rightarrow> liveness_status" where
  "getLivenessTransferStatus state =
     (let missingChunks = getMissingTransferChunks state isLivenessVideoDataKind
      in \<lparr>ls_complete = (ts_video state \<noteq> None \<and> length missingChunks = 0),
          ls_received = (case ts_video state of None \<Rightarrow> 0 | Some v \<Rightarrow> length v),
          ls_missing_chunks = missingChunks\<rparr>)"

section \<open>Storage\<close>

text \<open>\<open>None\<close> is \<open>\{ ok: true \}\<close>, \<open>Some\<close> the failing code and message.\<close>

definition storeActiveAuthData ::
  "transfer_state \<Rightarrow> bytes \<Rightarrow> transfer_state \<times> (verify_code \<times> string) option" where
  "storeActiveAuthData state data =
     (if length data \<le> ACTIVE_AUTH_CHALLENGE_BYTES then
        (state, Some (ACTIVE_AUTH_PAYLOAD_INVALID, ''Active authentication payload is invalid.''))
      else
        (state\<lparr>ts_aa_challenge := Some (js_slice data 0 ACTIVE_AUTH_CHALLENGE_BYTES),
               ts_aa_signature := Some (js_slice data ACTIVE_AUTH_CHALLENGE_BYTES (length data))\<rparr>,
         None))"

definition storeData ::
  "transfer_state \<Rightarrow> int \<Rightarrow> bytes \<Rightarrow> transfer_state \<times> (verify_code \<times> string) option" where
  "storeData state kind data =
     (if MAX_KIND_BYTES < length data then
        (state, Some (ARTIFACT_TOO_LARGE, ''Verify artifact exceeds the maximum allowed size.''))
      else if kind = DG1_KIND then (state\<lparr>ts_dg1 := Some data\<rparr>, None)
      else if kind = DG2_KIND then (state\<lparr>ts_dg2 := Some data\<rparr>, None)
      else if kind = SOD_KIND then (state\<lparr>ts_sod := Some data\<rparr>, None)
      else if kind = DG14_KIND then (state\<lparr>ts_dg14 := Some data\<rparr>, None)
      else if kind = DG15_KIND then (state\<lparr>ts_dg15 := Some data\<rparr>, None)
      else if kind = ACTIVE_AUTH_KIND then storeActiveAuthData state data
      else if kind = CHIP_AUTH_KIND then (state\<lparr>ts_ca_transcript := Some data\<rparr>, None)
      else if kind = LIVENESS_VIDEO_KIND then (state\<lparr>ts_video := Some data\<rparr>, None)
      else (state, Some (UNKNOWN_DATA_KIND, ''Unknown data kind.'')))"

definition isAuthenticityReady :: "transfer_state \<Rightarrow> bool" where
  "isAuthenticityReady state \<longleftrightarrow>
     ts_dg1 state \<noteq> None \<and> ts_dg2 state \<noteq> None \<and> ts_sod state \<noteq> None"

section \<open>Validation\<close>

definition normalizeDataPayload :: "data_payload \<Rightarrow> normalized_payload" where
  "normalizeDataPayload payload =
     (let kind = (case dp_kind payload of None \<Rightarrow> 0 | Some k \<Rightarrow> k);
          raw = (case dp_raw payload of None \<Rightarrow> [] | Some r \<Rightarrow> r);
          index = (case dp_index payload of None \<Rightarrow> 0 | Some i \<Rightarrow> i);
          total = (case dp_total payload of None \<Rightarrow> 0 | Some t \<Rightarrow> t);
          chunkIndex = (case dp_chunkIndex payload of None \<Rightarrow> 0 | Some c \<Rightarrow> c);
          chunkTotal = (case dp_chunkTotal payload of None \<Rightarrow> 1 | Some c \<Rightarrow> if c > 0 then c else 1)
      in \<lparr>np_kind = kind, np_raw = raw, np_index = index, np_total = total,
          np_chunkIndex = chunkIndex, np_chunkTotal = chunkTotal,
          np_chunkKey = chunk_key kind index\<rparr>)"

definition createErrorResult :: "transfer_state \<Rightarrow> verify_code \<Rightarrow> string \<Rightarrow> data_result" where
  "createErrorResult state code message =
     \<lparr>dr_acks = [], dr_error = Some (code, message), dr_authenticityReady = False,
      dr_nfc = getNfcTransferStatus state, dr_liveness = getLivenessTransferStatus state\<rparr>"

definition createChunkRetryResult ::
  "transfer_state \<Rightarrow> int \<Rightarrow> int \<Rightarrow> int \<Rightarrow> string \<Rightarrow> data_result" where
  "createChunkRetryResult state kind index chunkIndex reason =
     createErrorResult state DATA_CHUNK_RETRY (createChunkRetryMessage kind index chunkIndex reason)"

definition legacy_selfie_message :: string where
  "legacy_selfie_message =
     ''Legacy three-still selfie uploads are no longer accepted. '' @
     ''Upgrade the client and re-attempt verification.''"

definition validateDataPayload :: "transfer_state \<Rightarrow> normalized_payload \<Rightarrow> data_result option" where
  "validateDataPayload state p =
     (let kind = np_kind p; raw = np_raw p; index = np_index p; total = np_total p;
          chunkIndex = np_chunkIndex p; chunkTotal = np_chunkTotal p;
          fail = (\<lambda>code message. Some (createErrorResult state code message));
          retry = (\<lambda>reason. Some (createChunkRetryResult state kind index chunkIndex reason))
      in if MAX_FRAME_BYTES < length raw then
           fail FRAME_TOO_LARGE ''Verify frame exceeds the maximum allowed size.''
         else if \<not> isNonNegativeInteger kind then fail UNKNOWN_DATA_KIND ''Unknown data kind.''
         else if isLegacySelfieDataKind kind then
           fail LEGACY_SELFIE_KIND_UNSUPPORTED legacy_selfie_message
         else if \<not> isSupportedDataKind kind then fail UNKNOWN_DATA_KIND ''Unknown data kind.''
         else if MAX_TOTAL_TRANSFER_BYTES < ts_received state + length raw then
           fail TRANSFER_TOO_LARGE ''Verify transfer exceeds the maximum allowed size.''
         else if \<not> (isNonNegativeInteger index \<and> isNonNegativeInteger total) then
           retry ''invalid_index_or_total''
         else if isNfcDataKind kind \<and> index \<noteq> 0 then retry ''invalid_nfc_index''
         else if isLivenessVideoDataKind kind \<and> total \<noteq> 1 then
           retry ''invalid_liveness_artifact_total''
         else if isLivenessVideoDataKind kind \<and> index \<noteq> 0 then
           retry ''invalid_liveness_artifact_index''
         else if \<not> (isNonNegativeInteger chunkIndex \<and> isNonNegativeInteger chunkTotal \<and>
                   chunkIndex < chunkTotal) then
           retry ''invalid_chunk_range''
         else if MAX_CHUNKS_PER_KEY < chunkTotal then
           fail CHUNK_TOTAL_TOO_LARGE ''chunkTotal exceeds the maximum allowed value.''
         else
           case jm_get (ts_chunks state) (np_chunkKey p) of
             Some existing \<Rightarrow>
               if ce_total existing \<noteq> chunkTotal then retry ''chunk_total_mismatch'' else None
           | None \<Rightarrow> None)"

section \<open>Processing a frame\<close>

definition processDataPayload :: "transfer_state \<Rightarrow> data_payload \<Rightarrow> transfer_state \<times> data_result" where
  "processDataPayload state payload =
     (let p = normalizeDataPayload payload
      in case validateDataPayload state p of
           Some result \<Rightarrow> (state, result)
         | None \<Rightarrow>
             let (state1, assembled) =
                   assembleChunk state (np_chunkKey p) (np_chunkIndex p) (np_chunkTotal p) (np_raw p)
             in if \<not> as_complete assembled then
                  (state1,
                   \<lparr>dr_acks = [''data_chunk_ok_'' @ show_int (np_kind p) @ ''_'' @
                               show_int (np_index p) @ ''_'' @ show_int (np_chunkIndex p)],
                    dr_error = None, dr_authenticityReady = False,
                    dr_nfc = getNfcTransferStatus state1,
                    dr_liveness = getLivenessTransferStatus state1\<rparr>)
                else
                  let data = (case as_data assembled of None \<Rightarrow> np_raw p | Some d \<Rightarrow> d);
                      (state2, failure) = storeData state1 (np_kind p) data
                  in case failure of
                       Some (code, message) \<Rightarrow> (state2, createErrorResult state2 code message)
                     | None \<Rightarrow>
                         (state2,
                          \<lparr>dr_acks = [''data_ok_'' @ show_int (np_kind p) @ ''_'' @ show_int (np_index p)],
                           dr_error = None, dr_authenticityReady = isAuthenticityReady state2,
                           dr_nfc = getNfcTransferStatus state2,
                           dr_liveness = getLivenessTransferStatus state2\<rparr>))"

end
