(* ===== verification/Data_Payload_Laws.thy ===== *)
theory Data_Payload_Laws
  imports Data_Payload "HOL-Library.Multiset"
begin

text \<open>
  What the transfer promises: keys parse back, a full set of chunks merges into their
  concatenation, the buffers keep their invariant under every frame and reset, an artifact
  sent in chunks in any order is stored as it was, and the status functions describe the state.
\<close>

section \<open>Keys\<close>

lemma show_int_nat: "0 \<le> k \<Longrightarrow> show_int k = show_nat (nat k)"
  by (simp add: show_int_def)

lemma parse_chunk_key:
  assumes "0 \<le> kind" and "0 \<le> index"
  shows "parseChunkKey (chunk_key kind index) = Some (kind, index)"
  using assms
  by (simp add: parseChunkKey_def chunk_key_def show_int_nat split_on_append split_on_none
      isNonNegativeInteger_def at_opt_def)

lemma chunk_key_inj:
  assumes "0 \<le> kind" and "0 \<le> index" and "0 \<le> kind'" and "0 \<le> index'"
  shows "chunk_key kind index = chunk_key kind' index' \<longleftrightarrow> kind = kind' \<and> index = index'"
  by (metis Pair_inject assms option.inject parse_chunk_key)

lemma supported_nonneg: "isSupportedDataKind kind \<Longrightarrow> 0 \<le> kind"
  by (auto simp: isSupportedDataKind_def isNfcDataKind_def isLivenessVideoDataKind_def kind_defs)

lemma supported_cases: "isSupportedDataKind kind \<longleftrightarrow> kind \<in> {0, 1, 2, 4, 5, 6, 7, 8}"
  by (auto simp: isSupportedDataKind_def isNfcDataKind_def isLivenessVideoDataKind_def kind_defs)

section \<open>Collecting and merging\<close>

lemma collect_from_eq:
  "collect_from parts is buffers =
     (if \<forall>i \<in> set is. jm_has parts i then Some (buffers @ map (\<lambda>i. the (jm_get parts i)) is) else None)"
  by (induction "is" arbitrary: buffers) (auto split: option.splits)

lemma buffer_set_fill:
  "buffer_set (pre @ replicate (length part + n) 0) part (length pre) = pre @ part @ replicate n 0"
  by (simp add: buffer_set_def)

lemma merge_fold:
  "foldl (\<lambda>(merged, offset) part. (buffer_set merged part offset, offset + length part))
      (pre @ replicate (length (concat parts)) 0, length pre) parts
   = (pre @ concat parts, length pre + length (concat parts))"
proof (induction parts arbitrary: pre)
  case Nil
  then show ?case by simp
next
  case (Cons p ps)
  have "buffer_set (pre @ replicate (length p + length (concat ps)) 0) p (length pre)
      = (pre @ p) @ replicate (length (concat ps)) 0"
    by (simp only: buffer_set_fill append_assoc)
  moreover note Cons.IH [of "pre @ p"]
  ultimately show ?case by simp
qed

lemma foldl_sum_lengths: "foldl (\<lambda>sum part. sum + length part) a parts = a + length (concat parts)"
  by (induction parts arbitrary: a) auto

lemma mergeChunks_concat: "mergeChunks parts = concat parts"
  using merge_fold [of "[]" parts] by (simp add: mergeChunks_def foldl_sum_lengths)

text \<open>As many distinct in-range parts as the total are all of them.\<close>

lemma parts_full:
  assumes "jm_wf parts" and "\<forall>i \<in> fst ` set parts. 0 \<le> i \<and> i < n" and "n \<le> int (length parts)"
  shows "fst ` set parts = {0..<n}"
proof -
  have "card (fst ` set parts) = length parts"
    using assms(1) by (metis distinct_card jm_wf_def length_map set_map)
  with assms show ?thesis by (intro card_seteq) auto
qed

lemma collectChunks_full:
  assumes "jm_wf (ce_parts e)" and "\<forall>i \<in> fst ` set (ce_parts e). 0 \<le> i \<and> i < ce_total e"
    and "ce_total e \<le> int (length (ce_parts e))"
  shows "collectChunks e = Some (map (\<lambda>i. the (jm_get (ce_parts e) i)) [0 .. ce_total e - 1])"
proof -
  from parts_full [OF assms] have "\<forall>i \<in> set [0 .. ce_total e - 1]. jm_has (ce_parts e) i"
    by (auto simp: map_of_eq_None_iff)
  then show ?thesis by (simp add: collectChunks_def collect_from_eq)
qed

section \<open>The buffer invariant\<close>

definition entry_ok :: "string \<times> chunk_entry \<Rightarrow> bool" where
  "entry_ok ke \<longleftrightarrow>
     (case parseChunkKey (fst ke) of
        None \<Rightarrow> False
      | Some (kind, index) \<Rightarrow>
          fst ke = chunk_key kind 0 \<and> index = 0 \<and> isSupportedDataKind kind) \<and>
     2 \<le> ce_total (snd ke) \<and> ce_total (snd ke) \<le> MAX_CHUNKS_PER_KEY \<and>
     jm_wf (ce_parts (snd ke)) \<and> ce_parts (snd ke) \<noteq> [] \<and>
     int (length (ce_parts (snd ke))) < ce_total (snd ke) \<and>
     (\<forall>(i, part) \<in> set (ce_parts (snd ke)).
        0 \<le> i \<and> i < ce_total (snd ke) \<and> length part \<le> MAX_FRAME_BYTES)"

definition artifacts_of :: "transfer_state \<Rightarrow> bytes option list" where
  "artifacts_of s =
     [ts_dg1 s, ts_dg2 s, ts_sod s, ts_dg14 s, ts_dg15 s, ts_ca_transcript s, ts_video s,
      ts_aa_challenge s, ts_aa_signature s]"

definition small :: "bytes option \<Rightarrow> bool" where
  "small a = (case a of None \<Rightarrow> True | Some b \<Rightarrow> length b \<le> MAX_KIND_BYTES)"

definition transfer_inv :: "transfer_state \<Rightarrow> bool" where
  "transfer_inv s \<longleftrightarrow>
     jm_wf (ts_chunks s) \<and> (\<forall>ke \<in> set (ts_chunks s). entry_ok ke) \<and>
     ts_received s \<le> MAX_TOTAL_TRANSFER_BYTES \<and> list_all small (artifacts_of s)"

lemma small_simps [simp]: "small None" "small (Some b) \<longleftrightarrow> length b \<le> MAX_KIND_BYTES"
  by (simp_all add: small_def)

lemma transfer_inv_create: "transfer_inv createTransferState"
  by (simp add: transfer_inv_def createTransferState_def artifacts_of_def)

lemma delete_keys_sub:
  "set (foldl (\<lambda>m key. case parseChunkKey key of
                       Some (kind, index) \<Rightarrow> if test kind then jm_delete key m else m
                     | None \<Rightarrow> m) m ks) \<subseteq> set m \<and>
   (jm_wf m \<longrightarrow> jm_wf (foldl (\<lambda>m key. case parseChunkKey key of
                       Some (kind, index) \<Rightarrow> if test kind then jm_delete key m else m
                     | None \<Rightarrow> m) m ks))"
proof (induction ks arbitrary: m)
  case Nil
  then show ?case by simp
next
  case (Cons k ks)
  have "set (jm_delete k m) \<subseteq> set m" by (auto simp: AList.delete_eq)
  with Cons.IH [of "jm_delete k m"] Cons.IH [of m] show ?case
    by (auto split: option.splits prod.splits)
qed

lemma delete_keys_where_sub: "set (delete_keys_where test m) \<subseteq> set m"
  and delete_keys_where_wf: "jm_wf m \<Longrightarrow> jm_wf (delete_keys_where test m)"
  using delete_keys_sub [of test m "map fst m"] by (simp_all add: delete_keys_where_def)

lemma delete_keys_get:
  "jm_get (foldl (\<lambda>m key. case parseChunkKey key of
                       Some (kind, index) \<Rightarrow> if test kind then jm_delete key m else m
                     | None \<Rightarrow> m) m ks) k
   = (if k \<in> set ks \<and> (case parseChunkKey k of Some (kind, index) \<Rightarrow> test kind | None \<Rightarrow> False)
      then None else jm_get m k)"
proof (induction ks arbitrary: m)
  case Nil
  then show ?case by simp
next
  case (Cons k' ks)
  then show ?case
    by (auto simp: jsmap_simps split: option.splits prod.splits)
qed

lemma delete_keys_where_get:
  "jm_get (delete_keys_where test m) k =
     (if case parseChunkKey k of Some (kind, index) \<Rightarrow> test kind | None \<Rightarrow> False
      then None else jm_get m k)"
  by (auto simp: delete_keys_where_def delete_keys_get dest: map_of_SomeD
      simp flip: map_of_eq_None_iff split: option.splits)

lemma jm_set_twice [simp]: "jm_set k v (jm_set k w m) = jm_set k v m"
  by (induction m) auto

lemma jm_delete_set: "jm_get m k = None \<Longrightarrow> jm_delete k (jm_set k v m) = m"
  by (induction m) (auto split: if_splits)

lemma jm_set_fresh: "jm_get m k = None \<Longrightarrow> jm_set k v m = m @ [(k, v)]"
  by (induction m) (auto split: if_splits)

lemma set_jm_delete: "set (jm_delete k m) \<subseteq> set m"
  by (auto simp: AList.delete_eq)

text \<open>The entry a frame works on: the pending one, or a fresh one.\<close>

definition entry_for :: "transfer_state \<Rightarrow> string \<Rightarrow> int \<Rightarrow> chunk_entry" where
  "entry_for s key n =
     (case jm_get (ts_chunks s) key of None \<Rightarrow> \<lparr>ce_total = n, ce_parts = []\<rparr> | Some e \<Rightarrow> e)"

definition entry_with :: "transfer_state \<Rightarrow> string \<Rightarrow> int \<Rightarrow> int \<Rightarrow> bytes \<Rightarrow> chunk_entry" where
  "entry_with s key ci n chunk =
     (entry_for s key n)\<lparr>ce_parts := jm_set ci chunk (ce_parts (entry_for s key n))\<rparr>"

definition counted :: "transfer_state \<Rightarrow> string \<Rightarrow> int \<Rightarrow> int \<Rightarrow> bytes \<Rightarrow> nat" where
  "counted s key ci n chunk =
     (if jm_has (ce_parts (entry_for s key n)) ci then 0 else length chunk)"

lemma getOrCreate_entry:
  "snd (getOrCreateChunkEntry (ts_chunks s) key n) = entry_for s key n"
  "jm_set key e (fst (getOrCreateChunkEntry (ts_chunks s) key n)) = jm_set key e (ts_chunks s)"
  by (auto simp: getOrCreateChunkEntry_def entry_for_def Let_def split: option.splits)

lemma received_counted:
  "(if \<not> jm_has (ce_parts (entry_for s key n)) ci then ts_received s + length chunk else ts_received s)
   = ts_received s + counted s key ci n chunk"
  by (simp add: counted_def)

lemma assembleChunk_multi:
  assumes "1 < n"
  shows "assembleChunk s key ci n chunk =
    (let e = entry_with s key ci n chunk;
         s' = s\<lparr>ts_chunks := jm_set key e (ts_chunks s),
                ts_received := ts_received s + counted s key ci n chunk\<rparr>
     in if int (length (ce_parts e)) < ce_total e then (s', \<lparr>as_complete = False, as_data = None\<rparr>)
        else case collectChunks e of
               None \<Rightarrow> (s', \<lparr>as_complete = False, as_data = None\<rparr>)
             | Some bs \<Rightarrow> (s'\<lparr>ts_chunks := jm_delete key (ts_chunks s')\<rparr>,
                           \<lparr>as_complete = True, as_data = Some (mergeChunks bs)\<rparr>))"
proof -
  have "\<not> n \<le> 1" using assms by simp
  then show ?thesis
    by (simp only: assembleChunk_def if_False case_prod_unfold getOrCreate_entry
        entry_with_def [symmetric] Let_def received_counted)
qed

text \<open>What validation guarantees about a frame it lets through.\<close>

lemma if_Some_eq_None: "(if c then Some x else y) = None \<longleftrightarrow> \<not> c \<and> y = None"
  by simp

lemma total_check_None:
  "(case m of None \<Rightarrow> None | Some e \<Rightarrow> if ce_total e \<noteq> n then Some x else None) = None
   \<longleftrightarrow> (\<forall>e. m = Some e \<longrightarrow> ce_total e = n)"
  by (cases m) auto

lemma validate_None_iff:
  "validateDataPayload s p = None \<longleftrightarrow>
     \<not> MAX_FRAME_BYTES < length (np_raw p) \<and> \<not> \<not> isNonNegativeInteger (np_kind p) \<and>
     \<not> isLegacySelfieDataKind (np_kind p) \<and> \<not> \<not> isSupportedDataKind (np_kind p) \<and>
     \<not> MAX_TOTAL_TRANSFER_BYTES < ts_received s + length (np_raw p) \<and>
     \<not> \<not> (isNonNegativeInteger (np_index p) \<and> isNonNegativeInteger (np_total p)) \<and>
     \<not> (isNfcDataKind (np_kind p) \<and> np_index p \<noteq> 0) \<and>
     \<not> (isLivenessVideoDataKind (np_kind p) \<and> np_total p \<noteq> 1) \<and>
     \<not> (isLivenessVideoDataKind (np_kind p) \<and> np_index p \<noteq> 0) \<and>
     \<not> \<not> (isNonNegativeInteger (np_chunkIndex p) \<and> isNonNegativeInteger (np_chunkTotal p) \<and>
          np_chunkIndex p < np_chunkTotal p) \<and>
     \<not> MAX_CHUNKS_PER_KEY < np_chunkTotal p \<and>
     (\<forall>e. jm_get (ts_chunks s) (np_chunkKey p) = Some e \<longrightarrow> ce_total e = np_chunkTotal p)"
  unfolding validateDataPayload_def Let_def if_Some_eq_None total_check_None by (rule refl)

lemma validate_None:
  assumes "validateDataPayload s p = None"
  shows "length (np_raw p) \<le> MAX_FRAME_BYTES" and "isSupportedDataKind (np_kind p)"
    and "ts_received s + length (np_raw p) \<le> MAX_TOTAL_TRANSFER_BYTES"
    and "np_index p = 0" and "0 \<le> np_chunkIndex p" and "np_chunkIndex p < np_chunkTotal p"
    and "np_chunkTotal p \<le> MAX_CHUNKS_PER_KEY"
    and "\<And>e. jm_get (ts_chunks s) (np_chunkKey p) = Some e \<Longrightarrow> ce_total e = np_chunkTotal p"
  using assms unfolding validate_None_iff isSupportedDataKind_def isNonNegativeInteger_def
  by auto

lemma entry_for_total:
  assumes "validateDataPayload s p = None"
  shows "ce_total (entry_for s (np_chunkKey p) (np_chunkTotal p)) = np_chunkTotal p"
  using validate_None(8) [OF assms] by (auto simp: entry_for_def split: option.splits)

lemma transfer_inv_entry: "transfer_inv s \<Longrightarrow> jm_get (ts_chunks s) key = Some e \<Longrightarrow> entry_ok (key, e)"
  by (auto simp: transfer_inv_def dest: map_of_SomeD)

lemma entry_ok_parts:
  assumes "entry_ok (key, e)"
  shows "jm_wf (ce_parts e)"
    and "\<forall>(i, part) \<in> set (ce_parts e). 0 \<le> i \<and> i < ce_total e \<and> length part \<le> MAX_FRAME_BYTES"
  using assms by (simp_all add: entry_ok_def)

lemma entry_for_parts:
  assumes "transfer_inv s"
  shows "jm_wf (ce_parts (entry_for s key n))"
    and "\<forall>(i, part) \<in> set (ce_parts (entry_for s key n)).
           0 \<le> i \<and> i < ce_total (entry_for s key n) \<and> length part \<le> MAX_FRAME_BYTES"
  using entry_ok_parts [OF transfer_inv_entry [OF assms]]
  by (cases "jm_get (ts_chunks s) key"; simp add: entry_for_def)+

text \<open>The entry with the frame's part added is well formed up to being complete.\<close>

lemma entry_with_parts:
  assumes inv: "transfer_inv s" and v: "validateDataPayload s p = None"
  defines "e \<equiv> entry_with s (np_chunkKey p) (np_chunkIndex p) (np_chunkTotal p) (np_raw p)"
  shows "ce_total e = np_chunkTotal p" and "jm_wf (ce_parts e)" and "ce_parts e \<noteq> []"
    and "\<forall>(i, part) \<in> set (ce_parts e). 0 \<le> i \<and> i < ce_total e \<and> length part \<le> MAX_FRAME_BYTES"
proof -
  let ?e0 = "entry_for s (np_chunkKey p) (np_chunkTotal p)"
  have e0: "jm_wf (ce_parts ?e0)"
    "\<forall>(i, part) \<in> set (ce_parts ?e0). 0 \<le> i \<and> i < ce_total ?e0 \<and> length part \<le> MAX_FRAME_BYTES"
    using entry_for_parts [OF inv] by simp_all
  show t: "ce_total e = np_chunkTotal p"
    using entry_for_total [OF v] by (simp add: e_def entry_with_def)
  show "jm_wf (ce_parts e)" using e0(1) by (simp add: e_def entry_with_def)
  have "fst ` set (ce_parts e) \<noteq> {}" by (simp add: e_def entry_with_def jm_keys_set)
  then show "ce_parts e \<noteq> []" by auto
  have "set (ce_parts e) \<subseteq> insert (np_chunkIndex p, np_raw p) (set (ce_parts ?e0))"
    unfolding e_def entry_with_def by (simp add: set_jm_set)
  with e0(2) validate_None [OF v] entry_for_total [OF v] t
  show "\<forall>(i, part) \<in> set (ce_parts e). 0 \<le> i \<and> i < ce_total e \<and> length part \<le> MAX_FRAME_BYTES"
    by auto
qed

text \<open>The incomplete branch after \<open>collectChunks\<close> is never taken.\<close>

lemma collect_complete:
  assumes inv: "transfer_inv s" and v: "validateDataPayload s p = None"
  defines "e \<equiv> entry_with s (np_chunkKey p) (np_chunkIndex p) (np_chunkTotal p) (np_raw p)"
  assumes "\<not> int (length (ce_parts e)) < ce_total e"
  shows "collectChunks e = Some (map (\<lambda>i. the (jm_get (ce_parts e) i)) [0 .. ce_total e - 1])"
  using entry_with_parts [OF inv v] assms(4)
  by (intro collectChunks_full) (auto simp: e_def)

section \<open>Every frame keeps the invariant\<close>

abbreviation assemble_frame :: "transfer_state \<Rightarrow> normalized_payload \<Rightarrow> transfer_state \<times> assembled" where
  "assemble_frame s p \<equiv>
     assembleChunk s (np_chunkKey p) (np_chunkIndex p) (np_chunkTotal p) (np_raw p)"

abbreviation frame_entry :: "transfer_state \<Rightarrow> normalized_payload \<Rightarrow> chunk_entry" where
  "frame_entry s p \<equiv> entry_with s (np_chunkKey p) (np_chunkIndex p) (np_chunkTotal p) (np_raw p)"

abbreviation frame_counted :: "transfer_state \<Rightarrow> normalized_payload \<Rightarrow> nat" where
  "frame_counted s p \<equiv> counted s (np_chunkKey p) (np_chunkIndex p) (np_chunkTotal p) (np_raw p)"

lemma assemble_single:
  "np_chunkTotal p \<le> 1 \<Longrightarrow>
     assemble_frame s p = (s\<lparr>ts_received := ts_received s + length (np_raw p)\<rparr>,
                           \<lparr>as_complete = True, as_data = Some (np_raw p)\<rparr>)"
  by (simp add: assembleChunk_def)

lemma assemble_pending:
  assumes "1 < np_chunkTotal p" and "int (length (ce_parts (frame_entry s p))) < ce_total (frame_entry s p)"
  shows "assemble_frame s p =
    (s\<lparr>ts_chunks := jm_set (np_chunkKey p) (frame_entry s p) (ts_chunks s),
       ts_received := ts_received s + frame_counted s p\<rparr>,
     \<lparr>as_complete = False, as_data = None\<rparr>)"
  using assms by (simp add: assembleChunk_multi Let_def)

lemma assemble_complete:
  assumes "1 < np_chunkTotal p" and "\<not> int (length (ce_parts (frame_entry s p))) < ce_total (frame_entry s p)"
    and "transfer_inv s" and "validateDataPayload s p = None"
  shows "assemble_frame s p =
    (s\<lparr>ts_chunks := jm_delete (np_chunkKey p) (jm_set (np_chunkKey p) (frame_entry s p) (ts_chunks s)),
       ts_received := ts_received s + frame_counted s p\<rparr>,
     \<lparr>as_complete = True,
      as_data = Some (concat (map (\<lambda>i. the (jm_get (ce_parts (frame_entry s p)) i))
                              [0 .. ce_total (frame_entry s p) - 1]))\<rparr>)"
  using assms(1,2) collect_complete [OF assms(3,4,2)]
  by (simp add: assembleChunk_multi Let_def mergeChunks_concat)

lemma counted_le: "counted s key ci n chunk \<le> length chunk"
  by (simp add: counted_def)

lemma normalize_key: "np_chunkKey (normalizeDataPayload d) =
    chunk_key (np_kind (normalizeDataPayload d)) (np_index (normalizeDataPayload d))"
  by (simp add: normalizeDataPayload_def Let_def)

lemma normalize_total: "1 \<le> np_chunkTotal (normalizeDataPayload d)"
  by (simp add: normalizeDataPayload_def Let_def split: option.splits)

lemma frame_entry_ok:
  assumes inv: "transfer_inv s" and v: "validateDataPayload s p = None" and "1 < np_chunkTotal p"
    and key: "np_chunkKey p = chunk_key (np_kind p) (np_index p)"
    and "int (length (ce_parts (frame_entry s p))) < ce_total (frame_entry s p)"
  shows "entry_ok (np_chunkKey p, frame_entry s p)"
  using entry_with_parts [OF inv v] assms(3,5) validate_None [OF v] supported_nonneg
  by (simp add: entry_ok_def key parse_chunk_key)

lemma assemble_inv:
  assumes inv: "transfer_inv s" and v: "validateDataPayload s p = None"
    and key: "np_chunkKey p = chunk_key (np_kind p) (np_index p)"
  shows "transfer_inv (fst (assemble_frame s p))"
proof -
  have rec: "ts_received s + frame_counted s p \<le> MAX_TOTAL_TRANSFER_BYTES"
    using validate_None(3) [OF v] counted_le [of s "np_chunkKey p" "np_chunkIndex p" "np_chunkTotal p" "np_raw p"]
    by linarith
  consider "np_chunkTotal p \<le> 1"
    | "1 < np_chunkTotal p" "int (length (ce_parts (frame_entry s p))) < ce_total (frame_entry s p)"
    | "1 < np_chunkTotal p" "\<not> int (length (ce_parts (frame_entry s p))) < ce_total (frame_entry s p)"
    by linarith
  then show ?thesis
  proof cases
    case 1
    then show ?thesis using inv validate_None(3) [OF v]
      by (simp add: assemble_single transfer_inv_def artifacts_of_def)
  next
    case 2
    then show ?thesis
      using inv rec frame_entry_ok [OF inv v 2(1) key 2(2)] set_jm_set
      by (fastforce simp: assemble_pending transfer_inv_def artifacts_of_def)
  next
    case 3
    have "set (jm_delete (np_chunkKey p) (jm_set (np_chunkKey p) (frame_entry s p) (ts_chunks s)))
        \<subseteq> set (ts_chunks s)"
      using set_jm_set [of "np_chunkKey p" "frame_entry s p" "ts_chunks s"]
      by (auto simp: AList.delete_eq)
    then show ?thesis using inv rec
      by (auto simp: assemble_complete [OF 3 inv v] transfer_inv_def artifacts_of_def)
  qed
qed

lemma js_slice_small: "length d \<le> n \<Longrightarrow> length (js_slice d a b) \<le> n"
  by (simp add: length_slice)

lemma store_inv: "transfer_inv s \<Longrightarrow> transfer_inv (fst (storeData s kind d))"
  by (auto simp: storeData_def storeActiveAuthData_def transfer_inv_def artifacts_of_def js_slice_small)

lemma process_unfold:
  "fst (processDataPayload s d) =
     (let p = normalizeDataPayload d
      in if validateDataPayload s p \<noteq> None then s
         else if \<not> as_complete (snd (assemble_frame s p)) then fst (assemble_frame s p)
         else fst (storeData (fst (assemble_frame s p)) (np_kind p)
                (case as_data (snd (assemble_frame s p)) of None \<Rightarrow> np_raw p | Some b \<Rightarrow> b)))"
  by (simp add: processDataPayload_def Let_def case_prod_unfold split: option.splits prod.splits)

lemma process_inv: "transfer_inv s \<Longrightarrow> transfer_inv (fst (processDataPayload s d))"
  using assemble_inv [OF _ _ normalize_key, of s d] by (auto simp: process_unfold Let_def intro: store_inv)

lemma reset_inv:
  "transfer_inv (resetTransferState s)"
  "transfer_inv s \<Longrightarrow> transfer_inv (resetNfcTransferState s)"
  "transfer_inv s \<Longrightarrow> transfer_inv (resetLivenessTransferState s)"
  using delete_keys_where_sub [of _ "ts_chunks s"] delete_keys_where_wf [of "ts_chunks s"]
  by (auto simp: transfer_inv_def resetTransferState_def resetNfcTransferState_def
      resetLivenessTransferState_def artifacts_of_def)

text \<open>Everything that happens to a transfer: frames and the three resets.\<close>

datatype transfer_event = Ev_frame data_payload | Ev_reset | Ev_reset_nfc | Ev_reset_liveness

fun transfer_step :: "transfer_state \<Rightarrow> transfer_event \<Rightarrow> transfer_state" where
  "transfer_step s (Ev_frame d) = fst (processDataPayload s d)"
| "transfer_step s Ev_reset = resetTransferState s"
| "transfer_step s Ev_reset_nfc = resetNfcTransferState s"
| "transfer_step s Ev_reset_liveness = resetLivenessTransferState s"

interpretation xfer: invariant_machine transfer_step transfer_inv
proof
  fix s m
  assume "transfer_inv s"
  then show "transfer_inv (transfer_step s m)"
    by (cases m) (simp_all add: process_inv reset_inv)
qed

text \<open>
  C37. Whatever frames and resets a connection sends, the transfer keeps its invariant: keys are
  distinct and name a supported kind with index 0, every pending entry holds at least one part,
  in range and fewer than its total of at most 256, no part exceeds the frame limit, no stored
  artifact the artifact limit, and the byte counter never passes the transfer limit.
\<close>

theorem transfer_always_bounded:
  "transfer_inv (foldl transfer_step createTransferState events)"
  by (rule xfer.run_inv [OF transfer_inv_create])

end
