(* ===== verification/Data_Payload_Reassembly.thy ===== *)
theory Data_Payload_Reassembly
  imports Data_Payload_Laws
begin

text \<open>
  Chunked delivery end to end: the frames of one artifact in any order, the counter a repeated
  chunk escapes, the partial resets and the transfer status.
\<close>

section \<open>Delivery in any order\<close>

definition chunk_frame :: "int \<Rightarrow> nat \<Rightarrow> nat \<Rightarrow> bytes \<Rightarrow> data_payload" where
  "chunk_frame kind n i chunk =
     \<lparr>dp_kind = Some kind, dp_raw = Some chunk, dp_index = Some 0, dp_total = Some 1,
      dp_chunkIndex = Some (int i), dp_chunkTotal = Some (int n)\<rparr>"

definition deliver :: "int \<Rightarrow> bytes list \<Rightarrow> transfer_state \<Rightarrow> nat list \<Rightarrow> transfer_state" where
  "deliver kind parts =
     foldl (\<lambda>s i. transfer_step s (Ev_frame (chunk_frame kind (length parts) i (parts ! i))))"

definition stored :: "int \<Rightarrow> transfer_state \<Rightarrow> bytes option" where
  "stored kind s =
     (if kind = DG1_KIND then ts_dg1 s
      else if kind = DG2_KIND then ts_dg2 s
      else if kind = SOD_KIND then ts_sod s
      else if kind = DG14_KIND then ts_dg14 s
      else if kind = DG15_KIND then ts_dg15 s
      else if kind = ACTIVE_AUTH_KIND then
        (case (ts_aa_challenge s, ts_aa_signature s) of
           (Some c, Some g) \<Rightarrow> Some (c @ g) | _ \<Rightarrow> None)
      else if kind = CHIP_AUTH_KIND then ts_ca_transcript s
      else if kind = LIVENESS_VIDEO_KIND then ts_video s
      else None)"

text \<open>The sizes an artifact must have to be accepted.\<close>

definition storable :: "int \<Rightarrow> nat \<Rightarrow> bool" where
  "storable kind n \<longleftrightarrow> isSupportedDataKind kind \<and> n \<le> MAX_KIND_BYTES \<and>
     (kind = ACTIVE_AUTH_KIND \<longrightarrow> ACTIVE_AUTH_CHALLENGE_BYTES < n)"

lemma storeData_storable:
  assumes "storable kind (length d)"
  shows "snd (storeData s kind d) = None" and "stored kind (fst (storeData s kind d)) = Some d"
    and "ts_chunks (fst (storeData s kind d)) = ts_chunks s"
    and "ts_received (fst (storeData s kind d)) = ts_received s"
    and "k \<noteq> kind \<Longrightarrow> stored k (fst (storeData s kind d)) = stored k s"
  using assms slice_slice_append [of 0 ACTIVE_AUTH_CHALLENGE_BYTES "length d" d]
  by (auto simp: storable_def storeData_def storeActiveAuthData_def stored_def isSupportedDataKind_def
      isNfcDataKind_def isLivenessVideoDataKind_def kind_defs split: option.split)

definition pending ::
  "string \<Rightarrow> nat \<Rightarrow> (nat \<Rightarrow> bytes) \<Rightarrow> (string, chunk_entry) jsmap \<Rightarrow> nat list \<Rightarrow> (string, chunk_entry) jsmap" where
  "pending key n part base js =
     (if js = [] then base
      else base @ [(key, \<lparr>ce_total = int n, ce_parts = map (\<lambda>i. (int i, part i)) js\<rparr>)])"

lemma map_of_int_parts:
  "map_of (map (\<lambda>i. (int i, part i)) js) (int i) = (if i \<in> set js then Some (part i) else None)"
  by (induction js) auto

lemma entry_for_pending:
  assumes "ts_chunks s = pending key n part base js" and "jm_get base key = None"
  shows "entry_for s key (int n) = \<lparr>ce_total = int n, ce_parts = map (\<lambda>i. (int i, part i)) js\<rparr>"
  using assms by (simp add: entry_for_def pending_def map_add_def)

lemma entry_with_pending:
  assumes "ts_chunks s = pending key n part base js" and "jm_get base key = None" and "i \<notin> set js"
  shows "entry_with s key (int i) (int n) (part i) =
           \<lparr>ce_total = int n, ce_parts = map (\<lambda>i. (int i, part i)) (js @ [i])\<rparr>"
  using assms by (simp add: entry_with_def entry_for_pending jm_set_fresh map_of_int_parts)

lemma jm_set_last: "jm_get m k = None \<Longrightarrow> jm_set k v (m @ [(k, w)]) = m @ [(k, v)]"
  by (induction m) (auto split: if_splits)

lemma pending_set:
  "jm_get base key = None \<Longrightarrow>
     jm_set key \<lparr>ce_total = int n, ce_parts = map (\<lambda>i. (int i, part i)) (js @ [i])\<rparr>
       (pending key n part base js) = pending key n part base (js @ [i])"
  by (simp add: pending_def jm_set_fresh jm_set_last)

lemma jm_delete_absent: "jm_get m k = None \<Longrightarrow> jm_delete k m = m"
  by (induction m) (auto split: if_splits)

lemma pending_delete:
  "jm_get base key = None \<Longrightarrow> jm_delete key (pending key n part base js) = base"
  using jm_delete_set [of base key] by (simp add: pending_def jm_set_fresh jm_delete_absent)

lemma normalize_chunk_frame:
  "normalizeDataPayload (chunk_frame kind n i chunk) =
     \<lparr>np_kind = kind, np_raw = chunk, np_index = 0, np_total = 1, np_chunkIndex = int i,
      np_chunkTotal = (if n = 0 then 1 else int n), np_chunkKey = chunk_key kind 0\<rparr>"
  by (simp add: normalizeDataPayload_def chunk_frame_def)

lemma validate_chunk_frame:
  assumes "isSupportedDataKind kind" and "length chunk \<le> MAX_FRAME_BYTES"
    and "ts_received s + length chunk \<le> MAX_TOTAL_TRANSFER_BYTES" and "i < n" and "n \<le> 256"
    and "ce_total (entry_for s (chunk_key kind 0) (int n)) = int n"
  shows "validateDataPayload s (normalizeDataPayload (chunk_frame kind n i chunk)) = None"
  using assms supported_nonneg [OF assms(1)] supported_cases [of kind]
  by (auto simp: validate_None_iff normalize_chunk_frame isNonNegativeInteger_def entry_for_def
      isLegacySelfieDataKind_def kind_defs MAX_CHUNKS_PER_KEY_def)

lemma frame_step:
  assumes "isSupportedDataKind kind" and "length (part i) \<le> MAX_FRAME_BYTES"
    and "ts_received s + length (part i) \<le> MAX_TOTAL_TRANSFER_BYTES" and "i < n" and "n \<le> 256"
    and chunks: "ts_chunks s = pending (chunk_key kind 0) n part base js"
    and fresh: "jm_get base (chunk_key kind 0) = None" "i \<notin> set js"
  shows "length js + 1 < n \<Longrightarrow>
      transfer_step s (Ev_frame (chunk_frame kind n i (part i))) =
        s\<lparr>ts_chunks := pending (chunk_key kind 0) n part base (js @ [i]),
          ts_received := ts_received s + length (part i)\<rparr>"
proof -
  let ?p = "normalizeDataPayload (chunk_frame kind n i (part i))"
  assume less: "length js + 1 < n"
  have v: "validateDataPayload s ?p = None"
    using assms by (intro validate_chunk_frame) (simp_all add: entry_for_pending [OF chunks fresh(1)])
  have e: "frame_entry s ?p = \<lparr>ce_total = int n, ce_parts = map (\<lambda>i. (int i, part i)) (js @ [i])\<rparr>"
    using entry_with_pending [OF chunks fresh] less by (simp add: normalize_chunk_frame)
  have c: "frame_counted s ?p = length (part i)"
    using less fresh(2)
    by (simp add: normalize_chunk_frame counted_def entry_for_pending [OF chunks fresh(1)] map_of_int_parts)
  have "assemble_frame s ?p = (s\<lparr>ts_chunks := pending (chunk_key kind 0) n part base (js @ [i]),
      ts_received := ts_received s + length (part i)\<rparr>, \<lparr>as_complete = False, as_data = None\<rparr>)"
    using assemble_pending [of ?p s] less e c pending_set [OF fresh(1), of n part js i] chunks
    by (simp add: normalize_chunk_frame)
  with v show ?thesis by (simp add: process_unfold Let_def)
qed

lemma deliver_snoc:
  "deliver kind parts s (js @ [i]) =
     transfer_step (deliver kind parts s js) (Ev_frame (chunk_frame kind (length parts) i (parts ! i)))"
  by (simp add: deliver_def)

definition lengths_of :: "bytes list \<Rightarrow> nat list \<Rightarrow> nat" where
  "lengths_of parts js = sum_list (map (\<lambda>i. length (parts ! i)) js)"

lemma lengths_of_simps [simp]:
  "lengths_of parts [] = 0" "lengths_of parts (js @ [i]) = lengths_of parts js + length (parts ! i)"
  by (simp_all add: lengths_of_def)

lemma lengths_of_perm:
  assumes "mset js = mset [0..<length parts]"
  shows "lengths_of parts js = length (concat parts)"
proof -
  have "lengths_of parts js = sum_mset (image_mset (\<lambda>i. length (parts ! i)) (mset js))"
    by (simp add: lengths_of_def flip: sum_mset_sum_list)
  also have "\<dots> = sum_list (map length (map ((!) parts) [0..<length parts]))"
    unfolding assms by (simp add: comp_def flip: sum_mset_sum_list)
  also have "\<dots> = length (concat parts)" by (simp add: map_nth length_concat)
  finally show ?thesis .
qed

text \<open>The state after a proper part of the chunks.\<close>

lemma deliver_prefix:
  assumes "isSupportedDataKind kind" and "\<forall>p \<in> set parts. length p \<le> MAX_FRAME_BYTES"
    and "length parts \<le> 256" and "jm_get (ts_chunks s) (chunk_key kind 0) = None"
  shows "distinct js \<Longrightarrow> set js \<subseteq> {0..<length parts} \<Longrightarrow> length js < length parts \<Longrightarrow>
    ts_received s + lengths_of parts js \<le> MAX_TOTAL_TRANSFER_BYTES \<Longrightarrow>
    deliver kind parts s js =
      s\<lparr>ts_chunks := pending (chunk_key kind 0) (length parts) ((!) parts) (ts_chunks s) js,
        ts_received := ts_received s + lengths_of parts js\<rparr>"
proof (induction js rule: rev_induct)
  case Nil
  then show ?case by (simp add: deliver_def pending_def)
next
  case (snoc i js)
  let ?s = "s\<lparr>ts_chunks := pending (chunk_key kind 0) (length parts) ((!) parts) (ts_chunks s) js,
        ts_received := ts_received s + lengths_of parts js\<rparr>"
  from snoc have IH: "deliver kind parts s js = ?s" by simp
  have "transfer_step ?s (Ev_frame (chunk_frame kind (length parts) i (parts ! i))) =
      ?s\<lparr>ts_chunks := pending (chunk_key kind 0) (length parts) ((!) parts) (ts_chunks s) (js @ [i]),
         ts_received := ts_received ?s + length (parts ! i)\<rparr>"
    using snoc.prems assms by (intro frame_step) auto
  then show ?case by (simp add: deliver_snoc IH)
qed

lemma frame_last:
  assumes "isSupportedDataKind kind" and "length (part i) \<le> MAX_FRAME_BYTES"
    and "ts_received s + length (part i) \<le> MAX_TOTAL_TRANSFER_BYTES" and "n \<le> 256" and "1 < n"
    and chunks: "ts_chunks s = pending (chunk_key kind 0) n part base js"
    and fresh: "jm_get base (chunk_key kind 0) = None"
    and perm: "mset (js @ [i]) = mset [0..<n]"
  shows "transfer_step s (Ev_frame (chunk_frame kind n i (part i))) =
      fst (storeData (s\<lparr>ts_chunks := base, ts_received := ts_received s + length (part i)\<rparr>)
             kind (concat (map part [0..<n])))"
proof -
  let ?p = "normalizeDataPayload (chunk_frame kind n i (part i))"
  from perm have d: "distinct (js @ [i])" "set (js @ [i]) = {0..<n}" and l: "length (js @ [i]) = n"
    by (metis distinct_upt mset_eq_imp_distinct_iff, metis mset_eq_setD set_upt,
        metis length_upt minus_nat.diff_0 mset_eq_length)
  then have i: "i < n" "i \<notin> set js" by auto
  have v: "validateDataPayload s ?p = None"
    using assms i by (intro validate_chunk_frame) (simp_all add: entry_for_pending [OF chunks fresh(1)])
  have e: "entry_with s (chunk_key kind 0) (int i) (int n) (part i) =
      \<lparr>ce_total = int n, ce_parts = map (\<lambda>i. (int i, part i)) (js @ [i])\<rparr>"
    by (rule entry_with_pending [OF chunks fresh i(2)])
  have c: "counted s (chunk_key kind 0) (int i) (int n) (part i) = length (part i)"
    using i by (simp add: counted_def entry_for_pending [OF chunks fresh] map_of_int_parts)
  have upt: "[0 .. int n - 1] = map int [0..<n]"
    by (rule nth_equalityI) auto
  have g: "map (\<lambda>k. the (map_of (map (\<lambda>i. (int i, part i)) (js @ [i])) k)) (map int [0..<n]) = map part [0..<n]"
    using d(2) by (auto simp: map_of_int_parts simp del: map_append)
  have col: "collectChunks \<lparr>ce_total = int n, ce_parts = map (\<lambda>i. (int i, part i)) (js @ [i])\<rparr> =
      Some (map part [0..<n])"
  proof -
    have "\<forall>k \<in> set (map int [0..<n]). jm_has (map (\<lambda>i. (int i, part i)) (js @ [i])) k"
      using d(2) by (auto simp: map_of_int_parts simp del: map_append)
    then show ?thesis
      unfolding collectChunks_def chunk_entry.select_convs upt collect_from_eq g append_Nil by (rule if_P)
  qed
  have "assemble_frame s ?p = (s\<lparr>ts_chunks := base, ts_received := ts_received s + length (part i)\<rparr>,
      \<lparr>as_complete = True, as_data = Some (concat (map part [0..<n]))\<rparr>)"
    using l assms(5) col pending_set [OF fresh, of n part js i] chunks fresh
    by (simp add: normalize_chunk_frame assembleChunk_multi Let_def e c pending_delete mergeChunks_concat
        del: map_append)
  with v show ?thesis by (simp add: process_unfold Let_def normalize_chunk_frame)
qed

text \<open>
  C36. An artifact of at most 256 chunks comes out as it went in, whatever the order its chunks
  arrive in, beside whatever other artifacts are pending: after the last chunk the artifact of
  that kind is the concatenation of the chunks by index, the pending table is as it was before
  the first, the counter has grown by exactly the artifact's length, and no other artifact of
  the transfer has changed.
\<close>

theorem chunks_in_any_order:
  assumes "storable kind (length (concat parts))"
    and "\<forall>p \<in> set parts. length p \<le> MAX_FRAME_BYTES"
    and "1 < length parts" and "length parts \<le> 256"
    and "jm_get (ts_chunks s) (chunk_key kind 0) = None"
    and "ts_received s + length (concat parts) \<le> MAX_TOTAL_TRANSFER_BYTES"
    and "mset order = mset [0..<length parts]"
  shows "stored kind (deliver kind parts s order) = Some (concat parts)
    \<and> ts_chunks (deliver kind parts s order) = ts_chunks s
    \<and> ts_received (deliver kind parts s order) = ts_received s + length (concat parts)
    \<and> (\<forall>k. k \<noteq> kind \<longrightarrow> stored k (deliver kind parts s order) = stored k s)"
proof -
  from assms(3,7) have "order \<noteq> []" by (metis length_upt less_nat_zero_code list.size(3) minus_nat.diff_0 mset_eq_length)
  then obtain js i where o: "order = js @ [i]" by (metis rev_exhaust)
  from assms(7) have d: "distinct (js @ [i])" "set (js @ [i]) = {0..<length parts}"
    and l: "length (js @ [i]) = length parts"
    unfolding o
    by (metis distinct_upt mset_eq_imp_distinct_iff, metis mset_eq_setD set_upt,
        metis length_upt minus_nat.diff_0 mset_eq_length)
  have sum: "lengths_of parts js + length (parts ! i) = length (concat parts)"
    using lengths_of_perm [OF assms(7)] by (simp add: o)
  have sup: "isSupportedDataKind kind" using assms(1) by (simp add: storable_def)
  have "i < length parts" using d(2) by auto
  then have i: "parts ! i \<in> set parts" by simp
  let ?s = "s\<lparr>ts_chunks := pending (chunk_key kind 0) (length parts) ((!) parts) (ts_chunks s) js,
        ts_received := ts_received s + lengths_of parts js\<rparr>"
  have "deliver kind parts s js = ?s"
    using assms d l sum by (intro deliver_prefix [OF sup]) auto
  then have "deliver kind parts s order =
      fst (storeData (?s\<lparr>ts_chunks := ts_chunks s, ts_received := ts_received ?s + length (parts ! i)\<rparr>)
        kind (concat (map ((!) parts) [0..<length parts])))"
    unfolding o deliver_snoc using assms d sum i
    by (simp only:, intro frame_last [OF sup, where js = js]) (auto simp: o)
  also have "concat (map ((!) parts) [0..<length parts]) = concat parts" by (simp add: map_nth)
  finally show ?thesis
    using storeData_storable [OF assms(1)] sum by (simp add: stored_def)
qed

theorem chunks_in_any_order_witness:
  "stored DG2_KIND (deliver DG2_KIND [[1, 2], [3], [4, 5]] createTransferState [2, 0, 1]) = Some [1, 2, 3, 4, 5]"
proof -
  have "storable DG2_KIND (length (concat [[1, 2], [3], [4, 5 :: byte]]))"
    by (simp add: storable_def supported_cases kind_defs MAX_KIND_BYTES_def)
  from chunks_in_any_order [OF this, of createTransferState "[2, 0, 1]"] show ?thesis
    by (simp add: createTransferState_def MAX_FRAME_BYTES_def MAX_TOTAL_TRANSFER_BYTES_def)
qed

section \<open>A repeated chunk is not counted\<close>

definition buffered_bytes :: "transfer_state \<Rightarrow> nat" where
  "buffered_bytes s =
     sum_list (map (\<lambda>ke. sum_list (map (\<lambda>ip. length (snd ip)) (ce_parts (snd ke)))) (ts_chunks s))"

lemma jm_set_part:
  assumes "i < m"
  shows "jm_set (int i) (f i) (map (\<lambda>j. (int j, g j)) [0..<m]) =
    map (\<lambda>j. (int j, (g(i := f i)) j)) [0..<m]"
proof -
  have "jm_set (int i) x (map (\<lambda>j. (int j, g j)) js) = map (\<lambda>j. (int j, (g(i := x)) j)) js"
    if "i \<in> set js" "distinct js" for js x
    using that by (induction js) (auto intro: map_cong)
  with assms show ?thesis by simp
qed

text \<open>A chunk already present is replaced, and the counter stays where it was.\<close>

lemma resend_step:
  assumes "isSupportedDataKind kind" and "length chunk \<le> MAX_FRAME_BYTES"
    and "ts_received s + length chunk \<le> MAX_TOTAL_TRANSFER_BYTES" and "i < m" and "m < n" and "n \<le> 256"
    and chunks: "ts_chunks s = pending (chunk_key kind 0) n g base [0..<m]"
    and fresh: "jm_get base (chunk_key kind 0) = None"
  shows "transfer_step s (Ev_frame (chunk_frame kind n i chunk)) =
      s\<lparr>ts_chunks := pending (chunk_key kind 0) n (g(i := chunk)) base [0..<m]\<rparr>"
proof -
  let ?p = "normalizeDataPayload (chunk_frame kind n i chunk)"
  have v: "validateDataPayload s ?p = None"
    using assms by (intro validate_chunk_frame) (simp_all add: entry_for_pending [OF chunks fresh])
  have e: "frame_entry s ?p =
      \<lparr>ce_total = int n, ce_parts = map (\<lambda>j. (int j, (g(i := chunk)) j)) [0..<m]\<rparr>"
    using assms(4,5) jm_set_part [OF assms(4), of "\<lambda>_. chunk" g]
    by (simp add: normalize_chunk_frame entry_with_def entry_for_pending [OF chunks fresh])
  have c: "frame_counted s ?p = 0"
    using assms(4,5) by (simp add: normalize_chunk_frame counted_def
        entry_for_pending [OF chunks fresh] map_of_int_parts)
  have "assemble_frame s ?p =
      (s\<lparr>ts_chunks := pending (chunk_key kind 0) n (g(i := chunk)) base [0..<m]\<rparr>,
       \<lparr>as_complete = False, as_data = None\<rparr>)"
    using assemble_pending [of ?p s] assms(4,5) e c chunks jm_set_last [OF fresh]
    by (simp add: normalize_chunk_frame pending_def)
  with v show ?thesis by (simp add: process_unfold Let_def)
qed

definition resend_all :: "int \<Rightarrow> nat \<Rightarrow> bytes \<Rightarrow> nat \<Rightarrow> transfer_event list" where
  "resend_all kind n chunk k = map (\<lambda>i. Ev_frame (chunk_frame kind n i chunk)) [0..<k]"

lemma resend_all_run:
  assumes "isSupportedDataKind kind" and "length chunk \<le> MAX_FRAME_BYTES"
    and "ts_received s + length chunk \<le> MAX_TOTAL_TRANSFER_BYTES" and "m < n" and "n \<le> 256"
    and chunks: "ts_chunks s = pending (chunk_key kind 0) n g base [0..<m]"
    and fresh: "jm_get base (chunk_key kind 0) = None"
  shows "k \<le> m \<Longrightarrow> foldl transfer_step s (resend_all kind n chunk k) =
    s\<lparr>ts_chunks := pending (chunk_key kind 0) n (\<lambda>j. if j < k then chunk else g j) base [0..<m]\<rparr>"
proof (induction k)
  case 0
  then show ?case using chunks by (simp add: resend_all_def)
next
  case (Suc k)
  let ?g = "\<lambda>k j. if j < k then chunk else g j"
  have g: "(?g k)(k := chunk) = ?g (Suc k)" by auto
  let ?s = "s\<lparr>ts_chunks := pending (chunk_key kind 0) n (?g k) base [0..<m]\<rparr>"
  have "transfer_step ?s (Ev_frame (chunk_frame kind n k chunk)) =
      ?s\<lparr>ts_chunks := pending (chunk_key kind 0) n ((?g k)(k := chunk)) base [0..<m]\<rparr>"
    using assms Suc.prems by (intro resend_step) auto
  with Suc show ?case unfolding g by (simp add: resend_all_def)
qed

text \<open>
  The transfer limit does not bound what the server buffers. A connection that sends the
  first 255 of 256 chunks empty and then sends them again full is counted as having sent
  nothing, while the transfer holds 255 frames of 256 KiB, more than the 48 MiB limit.
\<close>

theorem resent_chunks_escape_the_limit:
  "let s = foldl transfer_step createTransferState
             (resend_all DG2_KIND 256 [] 255 @ resend_all DG2_KIND 256 (replicate MAX_FRAME_BYTES 0) 255)
   in ts_received s = 0 \<and> MAX_TOTAL_TRANSFER_BYTES < buffered_bytes s"
proof -
  let ?e = "replicate 256 ([] :: bytes)" and ?b = "replicate MAX_FRAME_BYTES (0 :: byte)"
  let ?key = "chunk_key DG2_KIND 0"
  have sup: "isSupportedDataKind DG2_KIND" by (simp add: supported_cases kind_defs)
  have "map (\<lambda>i. length (?e ! i)) [0..<255] = map (\<lambda>_. 0) [0..<255]" by (rule map_cong) auto
  then have len: "lengths_of ?e [0..<255] = 0" by (simp only: lengths_of_def sum_list_0)
  have "deliver DG2_KIND ?e createTransferState [0..<255] =
      createTransferState\<lparr>ts_chunks := pending ?key (length ?e) ((!) ?e) (ts_chunks createTransferState) [0..<255],
        ts_received := ts_received createTransferState + lengths_of ?e [0..<255]\<rparr>"
    by (rule deliver_prefix [OF sup])
      (auto simp: createTransferState_def len MAX_TOTAL_TRANSFER_BYTES_def)
  moreover have "foldl transfer_step createTransferState (resend_all DG2_KIND 256 [] 255) =
      deliver DG2_KIND ?e createTransferState [0..<255]"
    unfolding deliver_def resend_all_def foldl_map length_replicate
    by (rule foldl_cong) auto
  ultimately have first: "foldl transfer_step createTransferState (resend_all DG2_KIND 256 [] 255) =
      createTransferState\<lparr>ts_chunks := pending ?key 256 ((!) ?e) [] [0..<255]\<rparr>" (is "_ = ?s")
    by (simp add: createTransferState_def len)
  have second: "foldl transfer_step ?s (resend_all DG2_KIND 256 ?b 255) =
      ?s\<lparr>ts_chunks := pending ?key 256 (\<lambda>j. if j < 255 then ?b else ?e ! j) [] [0..<255]\<rparr>"
    by (rule resend_all_run [OF sup])
      (auto simp: createTransferState_def MAX_TOTAL_TRANSFER_BYTES_def MAX_FRAME_BYTES_def)
  have "buffered_bytes (?s\<lparr>ts_chunks := pending ?key 256 (\<lambda>j. if j < 255 then ?b else ?e ! j) [] [0..<255]\<rparr>)
      = sum_list (map (\<lambda>j. MAX_FRAME_BYTES) [0..<255])"
    by (auto simp: buffered_bytes_def pending_def o_def intro!: arg_cong [of _ _ sum_list] map_cong)
  then have "MAX_TOTAL_TRANSFER_BYTES <
      buffered_bytes (?s\<lparr>ts_chunks := pending ?key 256 (\<lambda>j. if j < 255 then ?b else ?e ! j) [] [0..<255]\<rparr>)"
    by (simp only: sum_list_triv) (simp add: MAX_FRAME_BYTES_def MAX_TOTAL_TRANSFER_BYTES_def)
  then show ?thesis
    unfolding Let_def foldl_append first second by (simp add: createTransferState_def)
qed

section \<open>Answers and locality\<close>

lemma storeData_cases: "snd (storeData s kind d) = None \<or> fst (storeData s kind d) = s"
  by (simp add: storeData_def storeActiveAuthData_def)

lemma storeData_error: "snd (storeData s kind d) \<noteq> None \<Longrightarrow> fst (storeData s kind d) = s"
  using storeData_cases [of s kind d] by (simp del: not_None_eq)

lemma stored_update [simp]:
  "k \<noteq> DG1_KIND \<Longrightarrow> stored k (s\<lparr>ts_dg1 := v\<rparr>) = stored k s"
  "k \<noteq> DG2_KIND \<Longrightarrow> stored k (s\<lparr>ts_dg2 := v\<rparr>) = stored k s"
  "k \<noteq> SOD_KIND \<Longrightarrow> stored k (s\<lparr>ts_sod := v\<rparr>) = stored k s"
  "k \<noteq> DG14_KIND \<Longrightarrow> stored k (s\<lparr>ts_dg14 := v\<rparr>) = stored k s"
  "k \<noteq> DG15_KIND \<Longrightarrow> stored k (s\<lparr>ts_dg15 := v\<rparr>) = stored k s"
  "k \<noteq> ACTIVE_AUTH_KIND \<Longrightarrow> stored k (s\<lparr>ts_aa_challenge := v, ts_aa_signature := w\<rparr>) = stored k s"
  "k \<noteq> CHIP_AUTH_KIND \<Longrightarrow> stored k (s\<lparr>ts_ca_transcript := v\<rparr>) = stored k s"
  "k \<noteq> LIVENESS_VIDEO_KIND \<Longrightarrow> stored k (s\<lparr>ts_video := v\<rparr>) = stored k s"
  "stored k (s\<lparr>ts_chunks := c\<rparr>) = stored k s"
  "stored k (s\<lparr>ts_received := r\<rparr>) = stored k s"
  by (simp_all add: stored_def)

lemma storeData_other: "k \<noteq> kind \<Longrightarrow> stored k (fst (storeData s kind d)) = stored k s"
  by (simp add: storeData_def storeActiveAuthData_def)

lemma storeData_chunks: "ts_chunks (fst (storeData s kind d)) = ts_chunks s"
  by (simp add: storeData_def storeActiveAuthData_def)

lemma assembleChunk_stored: "stored k (fst (assembleChunk s key ci n chunk)) = stored k s"
proof (cases "n \<le> 1")
  case True
  then show ?thesis by (simp add: assembleChunk_def)
next
  case False
  then show ?thesis by (simp add: assembleChunk_multi Let_def split: option.split)
qed

lemma assembleChunk_other:
  assumes "k \<noteq> key"
  shows "jm_get (ts_chunks (fst (assembleChunk s key ci n chunk))) k = jm_get (ts_chunks s) k"
proof (cases "n \<le> 1")
  case True
  then show ?thesis by (simp add: assembleChunk_def)
next
  case False
  with assms show ?thesis by (simp add: assembleChunk_multi Let_def jsmap_simps split: option.split)
qed

lemma validate_Some_error:
  "validateDataPayload s p = Some r \<Longrightarrow> dr_acks r = [] \<and> dr_error r \<noteq> None \<and> \<not> dr_authenticityReady r"
  unfolding validateDataPayload_def Let_def createChunkRetryResult_def createErrorResult_def
  by (auto split: if_split_asm option.split_asm)

lemma process_result:
  "snd (processDataPayload s d) = (let p = normalizeDataPayload d in
     case validateDataPayload s p of
       Some r \<Rightarrow> r
     | None \<Rightarrow>
         let s1 = fst (assemble_frame s p); a = snd (assemble_frame s p)
         in if \<not> as_complete a then
              \<lparr>dr_acks = [''data_chunk_ok_'' @ show_int (np_kind p) @ ''_'' @
                          show_int (np_index p) @ ''_'' @ show_int (np_chunkIndex p)],
               dr_error = None, dr_authenticityReady = False,
               dr_nfc = getNfcTransferStatus s1, dr_liveness = getLivenessTransferStatus s1\<rparr>
            else
              let st = storeData s1 (np_kind p) (case as_data a of None \<Rightarrow> np_raw p | Some b \<Rightarrow> b)
              in case snd st of
                   Some cm \<Rightarrow> createErrorResult (fst st) (fst cm) (snd cm)
                 | None \<Rightarrow>
                     \<lparr>dr_acks = [''data_ok_'' @ show_int (np_kind p) @ ''_'' @ show_int (np_index p)],
                      dr_error = None, dr_authenticityReady = isAuthenticityReady (fst st),
                      dr_nfc = getNfcTransferStatus (fst st),
                      dr_liveness = getLivenessTransferStatus (fst st)\<rparr>)"
  by (simp add: processDataPayload_def Let_def case_prod_unfold split: option.split)

text \<open>
  Every frame is answered with exactly one acknowledgement or with an error and none; an
  error leaves every stored artifact as it was, and an error of the frame checks leaves the
  whole transfer as it was.
\<close>

theorem frame_answered_once:
  "(case dr_error (snd (processDataPayload s d)) of
      None \<Rightarrow> length (dr_acks (snd (processDataPayload s d))) = 1
    | Some e \<Rightarrow>
        dr_acks (snd (processDataPayload s d)) = [] \<and>
        (\<forall>k. stored k (fst (processDataPayload s d)) = stored k s) \<and>
        (fst (processDataPayload s d) = s \<or> fst e \<in> {ARTIFACT_TOO_LARGE, ACTIVE_AUTH_PAYLOAD_INVALID}))"
proof (cases "validateDataPayload s (normalizeDataPayload d)")
  case (Some r)
  then have "processDataPayload s d = (s, r)" by (simp add: processDataPayload_def Let_def)
  with validate_Some_error [OF Some] show ?thesis by auto
next
  case None
  let ?p = "normalizeDataPayload d"
  let ?s1 = "fst (assemble_frame s ?p)" and ?a = "snd (assemble_frame s ?p)"
  let ?st = "storeData ?s1 (np_kind ?p) (case as_data ?a of None \<Rightarrow> np_raw ?p | Some b \<Rightarrow> b)"
  have codes: "snd ?st = Some (c, m) \<Longrightarrow> c \<in> {ARTIFACT_TOO_LARGE, ACTIVE_AUTH_PAYLOAD_INVALID}" for c m
    using validate_None(2) [OF None]
    by (auto simp: storeData_def storeActiveAuthData_def isSupportedDataKind_def isNfcDataKind_def
        isLivenessVideoDataKind_def split: if_splits)
  show ?thesis
  proof (cases "as_complete ?a")
    case False
    with None show ?thesis by (simp add: process_result Let_def)
  next
    case True
    show ?thesis
    proof (cases "snd ?st")
      case None2: None
      with None True show ?thesis by (simp add: process_result Let_def)
    next
      case (Some cm)
      obtain c m where cm: "cm = (c, m)" by (cases cm)
      have e: "snd (processDataPayload s d) = createErrorResult (fst ?st) c m"
        using None True Some by (simp add: process_result Let_def cm)
      have f: "fst (processDataPayload s d) = ?s1"
        using None True storeData_error [of ?s1 "np_kind ?p"] Some by (simp add: process_unfold Let_def)
      show ?thesis unfolding e f using codes Some cm
        by (simp add: createErrorResult_def assembleChunk_stored)
    qed
  qed
qed

text \<open>
  A frame touches only its own artifact: the artifacts of other kinds and the chunks pending
  under other keys are as before, whether the frame is accepted, completes its artifact or fails.
\<close>

theorem frame_touches_its_kind_only:
  "(\<forall>k. k \<noteq> np_kind (normalizeDataPayload d) \<longrightarrow>
      stored k (fst (processDataPayload s d)) = stored k s) \<and>
   (\<forall>key. key \<noteq> np_chunkKey (normalizeDataPayload d) \<longrightarrow>
      jm_get (ts_chunks (fst (processDataPayload s d))) key = jm_get (ts_chunks s) key)"
  by (auto simp: process_unfold Let_def storeData_other storeData_chunks assembleChunk_stored assembleChunk_other)

lemma frame_touches_its_kind_only_witness:
  "stored SOD_KIND (fst (processDataPayload (createTransferState\<lparr>ts_sod := Some [1]\<rparr>)
     \<lparr>dp_kind = Some DG1_KIND, dp_raw = Some [2], dp_index = None, dp_total = None, dp_chunkIndex = None,
      dp_chunkTotal = None\<rparr>)) = Some [1]"
proof -
  let ?f = "\<lparr>dp_kind = Some DG1_KIND, dp_raw = Some [2], dp_index = None, dp_total = None, dp_chunkIndex = None,
      dp_chunkTotal = None\<rparr>"
  have "SOD_KIND \<noteq> np_kind (normalizeDataPayload ?f)" by (simp add: normalizeDataPayload_def kind_defs)
  then have "stored SOD_KIND (fst (processDataPayload (createTransferState\<lparr>ts_sod := Some [1]\<rparr>) ?f)) =
             stored SOD_KIND (createTransferState\<lparr>ts_sod := Some [1]\<rparr>)"
    using frame_touches_its_kind_only [of ?f "createTransferState\<lparr>ts_sod := Some [1]\<rparr>"] by blast
  then show ?thesis by (simp add: stored_def kind_defs)
qed

section \<open>Status and resets\<close>

lemma missing_indices_set:
  "set (getMissingChunkIndices e) = {i. 0 \<le> i \<and> i < ce_total e \<and> i \<notin> fst ` set (ce_parts e)}"
  by (auto simp: getMissingChunkIndices_def map_of_eq_None_iff)

text \<open>A pending entry always lacks a chunk: fewer distinct parts than its total.\<close>

lemma entry_ok_missing:
  assumes "entry_ok ke"
  shows "getMissingChunkIndices (snd ke) \<noteq> []"
proof
  assume "getMissingChunkIndices (snd ke) = []"
  then have "{0..<ce_total (snd ke)} \<subseteq> fst ` set (ce_parts (snd ke))"
    using missing_indices_set [of "snd ke"] by auto
  then have "card {0..<ce_total (snd ke)} \<le> card (fst ` set (ce_parts (snd ke)))"
    by (rule card_mono [rotated]) simp
  also have "\<dots> \<le> length (ce_parts (snd ke))"
    by (metis card_length length_map set_map)
  finally have "nat (ce_total (snd ke)) \<le> length (ce_parts (snd ke))" by simp
  moreover have "int (length (ce_parts (snd ke))) < ce_total (snd ke)" using assms by (simp add: entry_ok_def)
  ultimately show False by linarith
qed

definition key_kind :: "string \<Rightarrow> int" where
  "key_kind key = (case parseChunkKey key of None \<Rightarrow> -1 | Some (kind, index) \<Rightarrow> kind)"

lemma entry_ok_key:
  "entry_ok ke \<Longrightarrow> parseChunkKey (fst ke) = Some (key_kind (fst ke), 0) \<and> isSupportedDataKind (key_kind (fst ke))"
  by (auto simp: entry_ok_def key_kind_def split: option.splits)

lemma missing_of_ok:
  assumes "entry_ok ke"
  shows "missing_of test ke =
    (if test (key_kind (fst ke))
     then [\<lparr>mc_kind = key_kind (fst ke), mc_index = 0, mc_total = ce_total (snd ke),
            mc_indices = getMissingChunkIndices (snd ke)\<rparr>] else [])"
  using entry_ok_key [OF assms] entry_ok_missing [OF assms] by (simp add: missing_of_def Let_def)

lemma missing_transfer_chunks:
  assumes "transfer_inv s"
  shows "getMissingTransferChunks s test =
    map (\<lambda>ke. \<lparr>mc_kind = key_kind (fst ke), mc_index = 0, mc_total = ce_total (snd ke),
               mc_indices = getMissingChunkIndices (snd ke)\<rparr>)
      (filter (\<lambda>ke. test (key_kind (fst ke))) (ts_chunks s))"
proof -
  have "concat (map (missing_of test) m) =
    map (\<lambda>ke. \<lparr>mc_kind = key_kind (fst ke), mc_index = 0, mc_total = ce_total (snd ke),
               mc_indices = getMissingChunkIndices (snd ke)\<rparr>)
      (filter (\<lambda>ke. test (key_kind (fst ke))) m)"
    if "\<forall>ke \<in> set m. entry_ok ke" for m
    using that by (induction m) (simp_all add: missing_of_ok)
  with assms show ?thesis by (simp add: getMissingTransferChunks_def transfer_inv_def)
qed

text \<open>
  In every state a connection can reach, the reading is reported complete exactly when the
  three required artifacts are stored and no chunked artifact of the document is pending, and
  the video exactly when it is stored and none is pending; each reported gap belongs to a
  pending entry and lists exactly the chunk numbers that have not arrived.
\<close>

theorem status_describes_the_transfer:
  "let s = foldl transfer_step createTransferState events
   in (ns_complete (getNfcTransferStatus s) \<longleftrightarrow>
         ts_dg1 s \<noteq> None \<and> ts_dg2 s \<noteq> None \<and> ts_sod s \<noteq> None \<and>
         (\<forall>ke \<in> set (ts_chunks s). \<not> isNfcDataKind (key_kind (fst ke))))
    \<and> (ls_complete (getLivenessTransferStatus s) \<longleftrightarrow>
         ts_video s \<noteq> None \<and>
         (\<forall>ke \<in> set (ts_chunks s). \<not> isLivenessVideoDataKind (key_kind (fst ke))))
    \<and> (\<forall>mc \<in> set (ns_missing_chunks (getNfcTransferStatus s)).
         mc_indices mc \<noteq> [] \<and> isNfcDataKind (mc_kind mc) \<and>
         (\<exists>ke \<in> set (ts_chunks s). key_kind (fst ke) = mc_kind mc \<and> mc_total mc = ce_total (snd ke) \<and>
            set (mc_indices mc) = {i. 0 \<le> i \<and> i < ce_total (snd ke) \<and> i \<notin> fst ` set (ce_parts (snd ke))}))"
proof -
  let ?s = "foldl transfer_step createTransferState events"
  have inv: "transfer_inv ?s" by (rule xfer.run_inv [OF transfer_inv_create])
  then have ok: "\<forall>ke \<in> set (ts_chunks ?s). entry_ok ke" by (simp add: transfer_inv_def)
  have "ns_complete (getNfcTransferStatus ?s) \<longleftrightarrow>
      ts_dg1 ?s \<noteq> None \<and> ts_dg2 ?s \<noteq> None \<and> ts_sod ?s \<noteq> None \<and>
      (\<forall>ke \<in> set (ts_chunks ?s). \<not> isNfcDataKind (key_kind (fst ke)))"
    by (auto simp: getNfcTransferStatus_def Let_def missing_transfer_chunks [OF inv]
        getMissingNfcArtifacts_def filter_empty_conv)
  moreover have "ls_complete (getLivenessTransferStatus ?s) \<longleftrightarrow>
      ts_video ?s \<noteq> None \<and>
      (\<forall>ke \<in> set (ts_chunks ?s). \<not> isLivenessVideoDataKind (key_kind (fst ke)))"
    by (auto simp: getLivenessTransferStatus_def Let_def missing_transfer_chunks [OF inv] filter_empty_conv)
  moreover have "mc_indices mc \<noteq> [] \<and> isNfcDataKind (mc_kind mc) \<and>
      (\<exists>ke \<in> set (ts_chunks ?s). key_kind (fst ke) = mc_kind mc \<and> mc_total mc = ce_total (snd ke) \<and>
         set (mc_indices mc) = {i. 0 \<le> i \<and> i < ce_total (snd ke) \<and> i \<notin> fst ` set (ce_parts (snd ke))})"
    if "mc \<in> set (ns_missing_chunks (getNfcTransferStatus ?s))" for mc
  proof -
    from that obtain ke where "ke \<in> set (ts_chunks ?s)" "isNfcDataKind (key_kind (fst ke))"
      "mc = \<lparr>mc_kind = key_kind (fst ke), mc_index = 0, mc_total = ce_total (snd ke),
             mc_indices = getMissingChunkIndices (snd ke)\<rparr>"
      by (auto simp: getNfcTransferStatus_def Let_def missing_transfer_chunks [OF inv])
    with ok entry_ok_missing [of ke] show ?thesis
      by (intro conjI bexI [of _ ke]) (simp_all add: missing_indices_set)
  qed
  ultimately show ?thesis by (simp add: Let_def)
qed

lemma status_describes_the_transfer_witness:
  "\<not> ns_complete (getNfcTransferStatus (foldl transfer_step createTransferState []))"
  using status_describes_the_transfer [of "[]"] by (simp add: Let_def createTransferState_def)

text \<open>
  A retry of the chip reading clears exactly the document's part of the transfer: every
  artifact of the chip and every pending chunk of one is gone, the video and its pending chunks
  are as before; a retry of the liveness check clears exactly the other part.
\<close>

theorem resets_clear_their_part:
  "let s = foldl transfer_step createTransferState events; n = resetNfcTransferState s;
       l = resetLivenessTransferState s
   in (\<forall>k. stored k n = (if isNfcDataKind k then None else stored k s))
    \<and> (\<forall>k. stored k l = (if isLivenessVideoDataKind k then None else stored k s))
    \<and> (\<forall>key. jm_get (ts_chunks n) key = (if isNfcDataKind (key_kind key) then None else jm_get (ts_chunks s) key))
    \<and> (\<forall>key. jm_get (ts_chunks l) key =
          (if isLivenessVideoDataKind (key_kind key) then None else jm_get (ts_chunks s) key))"
proof -
  let ?s = "foldl transfer_step createTransferState events"
  have inv: "transfer_inv ?s" by (rule xfer.run_inv [OF transfer_inv_create])
  have absent: "jm_get (ts_chunks ?s) key = None" if "\<not> isSupportedDataKind (key_kind key)" for key
    using transfer_inv_entry [OF inv, of key] entry_ok_key [of "(key, _)"] that
    by (cases "jm_get (ts_chunks ?s) key") auto
  have "jm_get (ts_chunks (resetNfcTransferState ?s)) key =
      (if isNfcDataKind (key_kind key) then None else jm_get (ts_chunks ?s) key)" for key
    using absent [of key]
    by (auto simp: resetNfcTransferState_def delete_keys_where_get key_kind_def isSupportedDataKind_def
        isNfcDataKind_def isLivenessVideoDataKind_def kind_defs split: option.splits)
  moreover have "jm_get (ts_chunks (resetLivenessTransferState ?s)) key =
      (if isLivenessVideoDataKind (key_kind key) then None else jm_get (ts_chunks ?s) key)" for key
    by (auto simp: resetLivenessTransferState_def delete_keys_where_get key_kind_def
        isLivenessVideoDataKind_def kind_defs split: option.splits)
  ultimately show ?thesis
    by (simp add: Let_def stored_def resetNfcTransferState_def resetLivenessTransferState_def
        isNfcDataKind_def isLivenessVideoDataKind_def kind_defs)
qed

end
