(* ===== verification/Tlv.thy ===== *)
theory Tlv
  imports Machines
begin

text \<open>
  The BER tag-length-value reader of \<open>apps/api/src/v1/verify/tlv.ts\<close>, which every document
  data group goes through. Offsets and lengths are natural numbers; a tag is the unbounded
  value \<open>tag * 256 + byte\<close> accumulates to (the code compares tags only with constants below
  \<open>2 ^ 16\<close>, far inside the range in which a JavaScript number is exact).
\<close>

section \<open>Reader\<close>

datatype tlv_error =
  Tlv_out_of_bounds | Tlv_tag_truncated | Tlv_length_truncated | Tlv_length_invalid
| Tlv_value_truncated

record tlv_value =
  tlv_tag :: nat
  tlv_bytes :: bytes
  tlv_next :: nat

text \<open>The \<open>do \<dots> while\<close> of \<open>readTlvTag\<close>: continuation bytes of a multi-byte tag.\<close>

function readTlvTag_loop :: "bytes \<Rightarrow> nat \<Rightarrow> nat \<Rightarrow> tlv_error + nat \<times> nat" where
  "readTlvTag_loop bs offset tag =
     (if length bs \<le> offset then Inl Tlv_tag_truncated
      else
        let nextTagByte = unat (bs ! offset); tag' = tag * 256 + nextTagByte
        in if 128 \<le> nextTagByte then readTlvTag_loop bs (offset + 1) tag'
           else Inr (tag', offset + 1))"
  by pat_completeness auto
termination
  by (relation "measure (\<lambda>(bs, offset, tag). length bs - offset)") auto

declare readTlvTag_loop.simps [simp del]

definition readTlvTag :: "bytes \<Rightarrow> nat \<Rightarrow> tlv_error + nat \<times> nat" where
  "readTlvTag bs startOffset =
     (if length bs \<le> startOffset then Inl Tlv_out_of_bounds
      else
        let tag = unat (bs ! startOffset); offset = startOffset + 1
        in if tag mod 32 \<noteq> 31 then Inr (tag, offset) else readTlvTag_loop bs offset tag)"

definition readTlvLength :: "bytes \<Rightarrow> nat \<Rightarrow> tlv_error + nat \<times> nat" where
  "readTlvLength bs startOffset =
     (if length bs \<le> startOffset then Inl Tlv_length_truncated
      else
        let firstLengthByte = unat (bs ! startOffset); offset = startOffset + 1
        in if firstLengthByte < 128 then Inr (firstLengthByte, offset)
           else
             let lengthByteCount = firstLengthByte mod 128
             in if lengthByteCount = 0 \<or> 4 < lengthByteCount
                   \<or> length bs < offset + lengthByteCount
                then Inl Tlv_length_invalid
                else Inr (be_nat (js_slice bs offset (offset + lengthByteCount)),
                          offset + lengthByteCount))"

definition readTlv :: "bytes \<Rightarrow> nat \<Rightarrow> tlv_error + tlv_value" where
  "readTlv bs startOffset =
     rbind (readTlvTag bs startOffset) (\<lambda>(tag, valueOffset).
     rbind (readTlvLength bs valueOffset) (\<lambda>(len, nextOffset).
       if length bs < nextOffset + len then Inl Tlv_value_truncated
       else Inr \<lparr>tlv_tag = tag, tlv_bytes = js_slice bs nextOffset (nextOffset + len),
                 tlv_next = nextOffset + len\<rparr>))"

section \<open>Progress and bounds\<close>

lemma readTlvTag_loop_progress:
  "readTlvTag_loop bs offset tag = Inr (t, n) \<Longrightarrow> offset < n \<and> n \<le> length bs"
proof (induction bs offset tag rule: readTlvTag_loop.induct)
  case (1 bs offset tag)
  show ?case
  proof (cases "offset < length bs \<and> 128 \<le> unat (bs ! offset)")
    case True
    with "1.prems" have "readTlvTag_loop bs (offset + 1) (tag * 256 + unat (bs ! offset)) = Inr (t, n)"
      by (simp add: readTlvTag_loop.simps [of bs offset tag] Let_def)
    with True "1.IH" show ?thesis by fastforce
  next
    case False
    with "1.prems" show ?thesis
      by (auto simp: readTlvTag_loop.simps [of bs offset tag] Let_def split: if_splits)
  qed
qed

lemma readTlvTag_progress: "readTlvTag bs off = Inr (t, n) \<Longrightarrow> off < n \<and> n \<le> length bs"
  by (auto simp: readTlvTag_def Let_def split: if_splits dest: readTlvTag_loop_progress)

lemma readTlvLength_progress:
  "readTlvLength bs off = Inr (len, n) \<Longrightarrow> off < n \<and> n \<le> length bs \<and> len < 2 ^ 32"
proof -
  assume r: "readTlvLength bs off = Inr (len, n)"
  show ?thesis
  proof (cases "unat (bs ! off) < 128")
    case True
    with r show ?thesis by (auto simp: readTlvLength_def Let_def split: if_splits)
  next
    case False
    let ?k = "unat (bs ! off) mod 128"
    let ?s = "js_slice bs (off + 1) (off + 1 + ?k)"
    from r False have k: "?k \<le> 4" "off + 1 + ?k \<le> length bs" "len = be_nat ?s" "n = off + 1 + ?k"
      by (auto simp: readTlvLength_def Let_def split: if_splits)
    have "be_nat ?s < 256 ^ length ?s" by (rule be_nat_bound)
    also have "\<dots> \<le> 256 ^ 4" using k by (intro power_increasing) (auto simp: length_slice)
    finally show ?thesis using k by simp
  qed
qed

lemma readTlv_unfold_Inr:
  assumes "readTlv bs off = Inr v"
  obtains t vo len no where "readTlvTag bs off = Inr (t, vo)" and "readTlvLength bs vo = Inr (len, no)"
    and "no + len \<le> length bs"
    and "v = \<lparr>tlv_tag = t, tlv_bytes = js_slice bs no (no + len), tlv_next = no + len\<rparr>"
  using assms by (auto simp: readTlv_def result_simps split: if_splits)

text \<open>
  Every successful read moves strictly forward, stays inside the input and returns a value
  that is a contiguous part of it. The loops over sibling elements terminate because of it.
\<close>

lemma readTlv_progress:
  assumes "readTlv bs off = Inr v"
  shows "off < tlv_next v" and "tlv_next v \<le> length bs"
    and "tlv_bytes v = js_slice bs (tlv_next v - length (tlv_bytes v)) (tlv_next v)"
    and "off + 2 + length (tlv_bytes v) \<le> tlv_next v"
proof -
  from assms obtain t vo len no where r: "readTlvTag bs off = Inr (t, vo)"
      "readTlvLength bs vo = Inr (len, no)" "no + len \<le> length bs"
      "v = \<lparr>tlv_tag = t, tlv_bytes = js_slice bs no (no + len), tlv_next = no + len\<rparr>"
    by (rule readTlv_unfold_Inr)
  from readTlvTag_progress [OF r(1)] readTlvLength_progress [OF r(2)]
  have "off < vo" "vo < no" by auto
  with r(3,4) show "off < tlv_next v" "tlv_next v \<le> length bs"
    "tlv_bytes v = js_slice bs (tlv_next v - length (tlv_bytes v)) (tlv_next v)"
    "off + 2 + length (tlv_bytes v) \<le> tlv_next v"
    by (auto simp: length_slice)
qed

interpretation tlvr: forward_reader readTlv tlv_next
  by unfold_locales (auto dest: readTlv_progress)

section \<open>Encoded elements read back\<close>

text \<open>
  A single-byte tag (low five bits not all ones) followed by a BER length and that many
  bytes reads back, wherever it stands in the input.
\<close>

lemma readTlvTag_single:
  "unat t mod 32 \<noteq> 31 \<Longrightarrow> readTlvTag (pre @ t # rest) (length pre) = Inr (unat t, length pre + 1)"
  by (simp add: readTlvTag_def)

lemma readTlvTag_double:
  assumes "unat t mod 32 = 31" and "unat u < 128"
  shows "readTlvTag (pre @ t # u # rest) (length pre) = Inr (unat t * 256 + unat u, length pre + 2)"
  using assms
  by (simp add: readTlvTag_def readTlvTag_loop.simps [of _ "Suc (length pre)"] nth_append)

lemma readTlvLength_short:
  "unat l < 128 \<Longrightarrow> readTlvLength (pre @ l # rest) (length pre) = Inr (unat l, length pre + 1)"
  by (simp add: readTlvLength_def)

lemma readTlvLength_long:
  assumes "unat l = 128 + length ds" and "0 < length ds" and "length ds \<le> 4"
  shows "readTlvLength (pre @ l # ds @ rest) (length pre) = Inr (be_nat ds, length pre + 1 + length ds)"
proof -
  have "js_slice (pre @ l # ds @ rest) (length pre + 1) (length pre + 1 + length ds) = ds"
    using slice_append_exact [of "pre @ [l]" "length pre + 1" ds "length ds" _ rest] by simp
  with assms show ?thesis by (simp add: readTlvLength_def)
qed

text \<open>Whole elements of short length, wherever they stand.\<close>

lemma readTlv_single_at:
  assumes "unat t mod 32 \<noteq> 31" and "unat l < 128" and "length v = unat l"
  shows "readTlv (pre @ t # l # v @ rest) (length pre) =
    Inr \<lparr>tlv_tag = unat t, tlv_bytes = v, tlv_next = length pre + 2 + length v\<rparr>"
proof -
  have "js_slice (pre @ t # l # v @ rest) (length pre + 2) (length pre + 2 + unat l) = v"
    using slice_append_exact [of "pre @ [t, l]" "length pre + 2" v "unat l" _ rest] assms(3) by simp
  with readTlvTag_single [OF assms(1), of pre "l # v @ rest"]
    readTlvLength_short [OF assms(2), of "pre @ [t]" "v @ rest"] assms(3)
  show ?thesis by (simp add: readTlv_def)
qed

lemma readTlv_double_at:
  assumes "unat t mod 32 = 31" and "unat u < 128" and "unat l < 128" and "length v = unat l"
  shows "readTlv (pre @ t # u # l # v @ rest) (length pre) =
    Inr \<lparr>tlv_tag = unat t * 256 + unat u, tlv_bytes = v, tlv_next = length pre + 3 + length v\<rparr>"
proof -
  have "js_slice (pre @ t # u # l # v @ rest) (length pre + 3) (length pre + 3 + unat l) = v"
    using slice_append_exact [of "pre @ [t, u, l]" "length pre + 3" v "unat l" _ rest] assms(4) by simp
  with readTlvTag_double [OF assms(1,2), of pre "l # v @ rest"]
    readTlvLength_short [OF assms(3), of "pre @ [t, u]" "v @ rest"] assms(4)
  show ?thesis by (simp add: readTlv_def numeral_3_eq_3)
qed

lemmas readTlv_short = readTlv_single_at [where pre = "[]" and rest = "[]", simplified]
lemmas readTlv_short2 = readTlv_double_at [where pre = "[]" and rest = "[]", simplified]

end
