(* ===== verification/Dg2_Image.thy ===== *)
theory Dg2_Image
  imports Tlv
begin

text \<open>
  The face image of data grp 2 (\<open>packages/config/src/dg2-face-image.ts\<close>), shared by the
  server and the biometric worker. The file has a TLV reader of its own, with checked byte
  reads; it is shown to agree with the reader of \<open>verify/tlv.ts\<close>.
\<close>

section \<open>The reader\<close>

datatype dg2_error =
  Dg2_tlv tlv_error | Dg2_out_of_bounds | Dg2_fac_header_invalid | Dg2_image_missing
| Dg2_image_format_unsupported | Dg2_root_tag_invalid | Dg2_instance_count_missing
| Dg2_biometric_group_missing | Dg2_biometric_data_missing

datatype image_format = Jpeg | Jpeg2000

record face_image =
  fi_data :: bytes
  fi_format :: image_format
  fi_height :: nat
  fi_width :: nat

definition FAC_HEADER :: bytes where "FAC_HEADER = [0x46, 0x41, 0x43, 0x00]"
definition JPEG_SIGNATURE :: bytes where "JPEG_SIGNATURE = [0xff, 0xd8, 0xff]"
definition JPEG_2000_FILE_SIGNATURE :: bytes where
  "JPEG_2000_FILE_SIGNATURE =
     [0x00, 0x00, 0x00, 0x0c, 0x6a, 0x50, 0x20, 0x20, 0x0d, 0x0a, 0x87, 0x0a]"
definition JPEG_2000_CODESTREAM_SIGNATURE :: bytes where
  "JPEG_2000_CODESTREAM_SIGNATURE = [0xff, 0x4f, 0xff, 0x51]"
definition FEATURE_POINT_SIZE :: nat where "FEATURE_POINT_SIZE = 8"
definition DG2_FILE_TAG :: nat where "DG2_FILE_TAG = 0x75"
definition DG2_ROOT_TAG :: nat where "DG2_ROOT_TAG = 0x7f61"
definition DG2_BIOMETRIC_GROUP_TAG :: nat where "DG2_BIOMETRIC_GROUP_TAG = 0x7f60"
definition DG2_BIOMETRIC_DATA_TAG :: nat where "DG2_BIOMETRIC_DATA_TAG = 0x7f2e"
definition DG2_BIOMETRIC_DATA_ALT_TAG :: nat where "DG2_BIOMETRIC_DATA_ALT_TAG = 0x5f2e"

definition startsWithBytes :: "bytes \<Rightarrow> bytes \<Rightarrow> bool" where
  "startsWithBytes bs pre =
     (if length bs < length pre then False
      else list_all (\<lambda>index. bs ! index = pre ! index) [0..<length pre])"

definition byteAt :: "bytes \<Rightarrow> nat \<Rightarrow> dg2_error + nat" where
  "byteAt bs offset = (case at_opt bs offset of None \<Rightarrow> Inl Dg2_out_of_bounds | Some b \<Rightarrow> Inr (unat b))"

text \<open>The loop \<open>value = value * 256 + byteAt(bytes, offset + index)\<close>, \<open>n\<close> turns.\<close>

fun read_bytes :: "bytes \<Rightarrow> nat \<Rightarrow> nat \<Rightarrow> nat \<Rightarrow> dg2_error + nat" where
  "read_bytes bs offset 0 acc = Inr acc"
| "read_bytes bs offset (Suc n) acc =
     rbind (byteAt bs offset) (\<lambda>b. read_bytes bs (offset + 1) n (acc * 256 + b))"

definition readUint :: "bytes \<Rightarrow> nat \<Rightarrow> nat \<Rightarrow> dg2_error + nat" where
  "readUint bs offset n =
     (if n = 0 \<or> length bs < offset + n then Inl Dg2_out_of_bounds else read_bytes bs offset n 0)"

function dg2_tag_loop :: "bytes \<Rightarrow> nat \<Rightarrow> nat \<Rightarrow> dg2_error + nat \<times> nat" where
  "dg2_tag_loop bs offset tag =
     (if length bs \<le> offset then Inl (Dg2_tlv Tlv_tag_truncated)
      else case byteAt bs offset of
             Inl e \<Rightarrow> Inl e
           | Inr nextTagByte \<Rightarrow>
               if 128 \<le> nextTagByte then dg2_tag_loop bs (offset + 1) (tag * 256 + nextTagByte)
               else Inr (tag * 256 + nextTagByte, offset + 1))"
  by pat_completeness auto
termination
  by (relation "measure (\<lambda>(bs, offset, tag). length bs - offset)") auto

declare dg2_tag_loop.simps [simp del]

definition dg2_readTlvTag :: "bytes \<Rightarrow> nat \<Rightarrow> dg2_error + nat \<times> nat" where
  "dg2_readTlvTag bs startOffset =
     (if length bs \<le> startOffset then Inl (Dg2_tlv Tlv_out_of_bounds)
      else rbind (byteAt bs startOffset) (\<lambda>tag.
             if tag mod 32 \<noteq> 31 then Inr (tag, startOffset + 1)
             else dg2_tag_loop bs (startOffset + 1) tag))"

definition dg2_readTlvLength :: "bytes \<Rightarrow> nat \<Rightarrow> dg2_error + nat \<times> nat" where
  "dg2_readTlvLength bs startOffset =
     (if length bs \<le> startOffset then Inl (Dg2_tlv Tlv_length_truncated)
      else rbind (byteAt bs startOffset) (\<lambda>firstLengthByte.
             let offset = startOffset + 1
             in if firstLengthByte < 128 then Inr (firstLengthByte, offset)
                else
                  let lengthByteCount = firstLengthByte mod 128
                  in if lengthByteCount = 0 \<or> 4 < lengthByteCount
                        \<or> length bs < offset + lengthByteCount
                     then Inl (Dg2_tlv Tlv_length_invalid)
                     else rbind (read_bytes bs offset lengthByteCount 0) (\<lambda>len.
                            Inr (len, offset + lengthByteCount))))"

definition dg2_readTlv :: "bytes \<Rightarrow> nat \<Rightarrow> dg2_error + tlv_value" where
  "dg2_readTlv bs startOffset =
     rbind (dg2_readTlvTag bs startOffset) (\<lambda>(tag, valueOffset).
     rbind (dg2_readTlvLength bs valueOffset) (\<lambda>(len, nextOffset).
       if length bs < nextOffset + len then Inl (Dg2_tlv Tlv_value_truncated)
       else Inr \<lparr>tlv_tag = tag, tlv_bytes = js_slice bs nextOffset (nextOffset + len),
                 tlv_next = nextOffset + len\<rparr>))"

section \<open>Agreement with the shared reader\<close>

definition lift_tlv :: "tlv_error + 'a \<Rightarrow> dg2_error + 'a" where
  "lift_tlv r = (case r of Inl e \<Rightarrow> Inl (Dg2_tlv e) | Inr v \<Rightarrow> Inr v)"

lemma lift_tlv_simps [simp]: "lift_tlv (Inl e) = Inl (Dg2_tlv e)" "lift_tlv (Inr v) = Inr v"
  by (simp_all add: lift_tlv_def)

lemma byteAt_in [simp]: "i < length bs \<Longrightarrow> byteAt bs i = Inr (unat (bs ! i))"
  by (simp add: byteAt_def at_opt_def)

lemma read_bytes_in:
  "offset + n \<le> length bs \<Longrightarrow>
     read_bytes bs offset n acc = Inr (acc * 256 ^ n + be_nat (js_slice bs offset (offset + n)))"
proof (induction n arbitrary: offset acc)
  case 0
  then show ?case by (simp add: js_slice_def)
next
  case (Suc n)
  have "js_slice bs offset (offset + Suc n) = bs ! offset # js_slice bs (offset + 1) (offset + 1 + n)"
    using Suc.prems by (simp add: js_slice_def Cons_nth_drop_Suc [symmetric])
  moreover have "length (js_slice bs (offset + 1) (offset + 1 + n)) = n"
    using Suc.prems by (simp add: length_slice)
  ultimately show ?case using Suc by (simp add: be_nat_Cons algebra_simps)
qed

lemma dg2_tag_loop_agrees: "dg2_tag_loop bs offset tag = lift_tlv (readTlvTag_loop bs offset tag)"
proof (induction bs offset tag rule: readTlvTag_loop.induct)
  case (1 bs offset tag)
  then show ?case
    by (simp add: dg2_tag_loop.simps [of bs offset tag] readTlvTag_loop.simps [of bs offset tag] Let_def)
qed

lemma dg2_readTlv_lift: "dg2_readTlv bs off = lift_tlv (readTlv bs off)"
proof -
  have t: "dg2_readTlvTag bs off = lift_tlv (readTlvTag bs off)"
    by (simp add: dg2_readTlvTag_def readTlvTag_def dg2_tag_loop_agrees Let_def)
  have l: "dg2_readTlvLength bs n = lift_tlv (readTlvLength bs n)" for n
    by (simp add: dg2_readTlvLength_def readTlvLength_def read_bytes_in Let_def)
  show ?thesis
    unfolding dg2_readTlv_def readTlv_def t l
    by (cases "readTlvTag bs off"; simp add: lift_tlv_def split: sum.split prod.split)
qed

text \<open>
  The TLV reader that the face image code carries in its own file reads exactly as the
  server's shared one: same tags, values and offsets, and the same errors. The checked byte
  reads add no failure of their own.
\<close>

theorem dg2_reader_agrees: "dg2_readTlv bs off = lift_tlv (readTlv bs off)"
  by (rule dg2_readTlv_lift)

lemma dg2_readTlv_Inr: "dg2_readTlv bs off = Inr v \<Longrightarrow> readTlv bs off = Inr v"
  unfolding dg2_readTlv_lift by (simp add: lift_tlv_def split: sum.splits)

interpretation dg2r: forward_reader dg2_readTlv tlv_next
  by unfold_locales (auto dest!: dg2_readTlv_Inr dest: readTlv_progress)

section \<open>The face image\<close>

definition parseIso197945FaceImage :: "bytes \<Rightarrow> dg2_error + face_image" where
  "parseIso197945FaceImage data =
     (if \<not> startsWithBytes data FAC_HEADER then Inl Dg2_fac_header_invalid
      else
        let offset = length FAC_HEADER + 4 + 4 + 2 + 4
        in rbind (readUint data offset 2) (\<lambda>featurePointCount.
           let offset = offset + 2 + 1 + 1 + 1 + 3 + 2 + 3 + 3 + featurePointCount * FEATURE_POINT_SIZE + 1 + 1
           in rbind (readUint data offset 2) (\<lambda>imageWidth.
              let offset = offset + 2
              in rbind (readUint data offset 2) (\<lambda>imageHeight.
                 let offset = offset + 2 + 1 + 1 + 2 + 2
                 in if length data \<le> offset then Inl Dg2_image_missing
                    else
                      let imageData = js_slice data offset (length data)
                      in if startsWithBytes imageData JPEG_SIGNATURE then
                           Inr \<lparr>fi_data = imageData, fi_format = Jpeg, fi_height = imageHeight,
                                fi_width = imageWidth\<rparr>
                         else if startsWithBytes imageData JPEG_2000_FILE_SIGNATURE \<or>
                                 startsWithBytes imageData JPEG_2000_CODESTREAM_SIGNATURE then
                           Inr \<lparr>fi_data = imageData, fi_format = Jpeg2000, fi_height = imageHeight,
                                fi_width = imageWidth\<rparr>
                         else Inl Dg2_image_format_unsupported))))"

text \<open>The \<open>while\<close> loop over the children of the biometric group.\<close>

function dg2_group_loop :: "bytes \<Rightarrow> nat \<Rightarrow> dg2_error + face_image" where
  "dg2_group_loop grp groupOffset =
     (if groupOffset < length grp then
        case dg2_readTlv grp groupOffset of
          Inl e \<Rightarrow> Inl e
        | Inr child \<Rightarrow>
            if tlv_tag child = DG2_BIOMETRIC_DATA_ALT_TAG \<or> tlv_tag child = DG2_BIOMETRIC_DATA_TAG
            then parseIso197945FaceImage (tlv_bytes child)
            else dg2_group_loop grp (tlv_next child)
      else Inl Dg2_biometric_data_missing)"
  by pat_completeness auto
termination
  by (relation "measure (\<lambda>(bs, off). length bs - off)") (auto dest: dg2r.read_measure)

declare dg2_group_loop.simps [simp del]

definition extractDg2FaceImage :: "bytes \<Rightarrow> dg2_error + face_image" where
  "extractDg2FaceImage dg2 =
     rbind (dg2_readTlv dg2 0) (\<lambda>outer.
     rbind (if tlv_tag outer = DG2_FILE_TAG then dg2_readTlv (tlv_bytes outer) 0 else Inr outer) (\<lambda>root.
       if tlv_tag root \<noteq> DG2_ROOT_TAG then Inl Dg2_root_tag_invalid
       else
         rbind (dg2_readTlv (tlv_bytes root) 0) (\<lambda>numberOfInstances.
           if tlv_tag numberOfInstances \<noteq> 2 then Inl Dg2_instance_count_missing
           else
             rbind (dg2_readTlv (tlv_bytes root) (tlv_next numberOfInstances)) (\<lambda>biometricGroup.
               if tlv_tag biometricGroup \<noteq> DG2_BIOMETRIC_GROUP_TAG then Inl Dg2_biometric_group_missing
               else dg2_group_loop (tlv_bytes biometricGroup) 0))))"

section \<open>What an extracted image is\<close>

definition image_signature :: "face_image \<Rightarrow> bool" where
  "image_signature im \<longleftrightarrow>
     (case fi_format im of
        Jpeg \<Rightarrow> startsWithBytes (fi_data im) JPEG_SIGNATURE
      | Jpeg2000 \<Rightarrow> startsWithBytes (fi_data im) JPEG_2000_FILE_SIGNATURE \<or>
                    startsWithBytes (fi_data im) JPEG_2000_CODESTREAM_SIGNATURE)"

lemma startsWithBytes_prefix: "startsWithBytes bs pre \<longleftrightarrow> prefix pre bs"
proof
  assume s: "startsWithBytes bs pre"
  then have "pre = take (length pre) bs"
    by (intro nth_equalityI) (auto simp: startsWithBytes_def list_all_iff split: if_splits)
  then show "prefix pre bs" by (metis take_is_prefix)
qed (auto simp: startsWithBytes_def list_all_iff prefix_def nth_append)

lemma readUint_bound: "readUint bs off n = Inr v \<Longrightarrow> v < 256 ^ n"
  using be_nat_bound [of "js_slice bs off (off + n)"]
  by (auto simp: readUint_def read_bytes_in length_slice split: if_splits)

lemma js_slice_sublist: "sublist (js_slice xs a b) xs"
  unfolding js_slice_def by (meson sublist_drop sublist_order.order_trans sublist_take)

lemma parse_image:
  assumes "parseIso197945FaceImage d = Inr im"
  shows "image_signature im" "sublist (fi_data im) d" "fi_width im < 65536" "fi_height im < 65536"
    "prefix FAC_HEADER d" "length (fi_data im) + 46 \<le> length d"
  using assms readUint_bound [of d _ 2]
  by (auto simp: parseIso197945FaceImage_def Let_def result_simps image_signature_def js_slice_sublist
      startsWithBytes_prefix length_slice FAC_HEADER_def split: if_splits)

lemma group_image:
  "dg2_group_loop g off = Inr im \<Longrightarrow> \<exists>d. sublist d g \<and> parseIso197945FaceImage d = Inr im"
proof (induction g off rule: dg2_group_loop.induct)
  case (1 g off)
  from "1.prems" obtain child where c: "off < length g" "dg2_readTlv g off = Inr child"
    by (auto simp: dg2_group_loop.simps [of g off] split: if_splits sum.splits)
  from readTlv_progress(3) [OF dg2_readTlv_Inr [OF c(2)]] have "sublist (tlv_bytes child) g"
    by (metis js_slice_sublist)
  with "1.prems" "1.IH" c show ?case
    by (auto simp: dg2_group_loop.simps [of g off] split: if_splits)
qed

lemma readTlv_sublist: "dg2_readTlv bs off = Inr v \<Longrightarrow> sublist (tlv_bytes v) bs"
  using readTlv_progress(3) [OF dg2_readTlv_Inr] by (metis js_slice_sublist)

text \<open>
  An extracted face image is a contiguous part of the data grp, starts with the signature
  of the format it is labelled with, stands after a facial record header, and its dimensions
  are 16-bit values: nothing is copied from elsewhere, relabelled or read out of bounds.
\<close>

theorem extracted_face_image:
  assumes "extractDg2FaceImage dg2 = Inr im"
  shows "sublist (fi_data im) dg2 \<and> image_signature im \<and> fi_width im < 65536 \<and> fi_height im < 65536 \<and>
    (\<exists>d. sublist d dg2 \<and> prefix FAC_HEADER d \<and> sublist (fi_data im) d \<and> length (fi_data im) + 46 \<le> length d)"
proof -
  from assms obtain outer root grp off where o: "dg2_readTlv dg2 0 = Inr outer"
    and r: "(if tlv_tag outer = DG2_FILE_TAG then dg2_readTlv (tlv_bytes outer) 0 else Inr outer) = Inr root"
    and g: "dg2_readTlv (tlv_bytes root) off = Inr grp" "dg2_group_loop (tlv_bytes grp) 0 = Inr im"
    by (auto simp: extractDg2FaceImage_def result_simps DG2_FILE_TAG_def split: if_splits)
  from group_image [OF g(2)] obtain d where d: "sublist d (tlv_bytes grp)" "parseIso197945FaceImage d = Inr im"
    by auto
  have "sublist (tlv_bytes root) (tlv_bytes outer)"
    using r readTlv_sublist by (auto split: if_splits)
  then have "sublist d dg2"
    using d(1) readTlv_sublist [OF g(1)] readTlv_sublist [OF o]
    by (meson sublist_order.order_trans)
  with parse_image [OF d(2)] show ?thesis by (meson sublist_order.order_trans)
qed

definition sample_record :: bytes where
  "sample_record = FAC_HEADER @ replicate 32 0 @ [1, 0x40, 0, 0xf0] @ replicate 6 0 @ JPEG_SIGNATURE"

definition sample_dg2 :: bytes where
  "sample_dg2 = 0x7f # 0x61 # 58 # 0x02 # 1 # [1] @ 0x7f # 0x60 # 52 # 0x5f # 0x2e # 49 # sample_record"

lemma sample_extract:
  "extractDg2FaceImage sample_dg2 =
     Inr \<lparr>fi_data = JPEG_SIGNATURE, fi_format = Jpeg, fi_height = 240, fi_width = 320\<rparr>"
proof -
  have len: "length sample_record = 49" by (simp add: sample_record_def FAC_HEADER_def JPEG_SIGNATURE_def)
  have image: "parseIso197945FaceImage sample_record =
      Inr \<lparr>fi_data = JPEG_SIGNATURE, fi_format = Jpeg, fi_height = 240, fi_width = 320\<rparr>"
    by code_simp
  let ?g = "0x5f # 0x2e # 49 # sample_record"
  let ?r = "0x02 # 1 # [1] @ 0x7f # 0x60 # 52 # ?g"
  have 1: "dg2_readTlv sample_dg2 0 = Inr \<lparr>tlv_tag = DG2_ROOT_TAG, tlv_bytes = ?r, tlv_next = 61\<rparr>"
    using readTlv_short2 [of "0x7f" "0x61" 58 ?r] len
    by (simp add: dg2_readTlv_lift sample_dg2_def DG2_ROOT_TAG_def)
  have 2: "dg2_readTlv ?r 0 = Inr \<lparr>tlv_tag = 2, tlv_bytes = [1], tlv_next = 3\<rparr>"
    using readTlv_single_at [of "0x02" 1 "[1]" "[]"] by (simp add: dg2_readTlv_lift)
  have 3: "dg2_readTlv ?r 3 = Inr \<lparr>tlv_tag = DG2_BIOMETRIC_GROUP_TAG, tlv_bytes = ?g, tlv_next = 58\<rparr>"
    using readTlv_double_at [of "0x7f" "0x60" 52 ?g "[2, 1, 1]" "[]"] len
    by (simp add: dg2_readTlv_lift DG2_BIOMETRIC_GROUP_TAG_def numeral_3_eq_3)
  have 4: "dg2_readTlv ?g 0 = Inr \<lparr>tlv_tag = DG2_BIOMETRIC_DATA_ALT_TAG, tlv_bytes = sample_record, tlv_next = 52\<rparr>"
    using readTlv_short2 [of "0x5f" "0x2e" 49 sample_record] len
    by (simp add: dg2_readTlv_lift DG2_BIOMETRIC_DATA_ALT_TAG_def)
  have "dg2_group_loop ?g 0 = parseIso197945FaceImage sample_record"
    by (subst dg2_group_loop.simps) (simp add: 4)
  with 1 2 3 image show ?thesis
    by (simp add: extractDg2FaceImage_def DG2_ROOT_TAG_def DG2_FILE_TAG_def)
qed

theorem extracted_face_image_witness:
  "sublist JPEG_SIGNATURE sample_dg2 \<and> prefix JPEG_SIGNATURE JPEG_SIGNATURE"
  using extracted_face_image [OF sample_extract] by simp

end
