(* ===== verification/Mrz_Dates.thy ===== *)
theory Mrz_Dates
  imports Js_Text
begin

text \<open>
  The dates of the machine readable zone (\<open>apps/api/src/v1/verify/dg1-dates.ts\<close>). A \<open>Date\<close> is
  its UTC calendar day and the milliseconds of the day; \<open>getTime\<close> counts from 1970-01-01.
  Years are integers, since shifting a date may leave the four-digit range.
\<close>

section \<open>Calendar\<close>

record utc_date =
  ud_year :: int
  ud_month :: int
  ud_day :: int
  ud_millis :: int

definition leap_year :: "int \<Rightarrow> bool" where
  "leap_year y \<longleftrightarrow> 4 dvd y \<and> (\<not> 100 dvd y \<or> 400 dvd y)"

text \<open>\<open>Date.UTC\<close> reads a year from 0 to 99 as one of the twentieth century.\<close>

definition utc_year :: "int \<Rightarrow> int" where
  "utc_year y = (if 0 \<le> y \<and> y \<le> 99 then 1900 + y else y)"

definition month_length :: "int \<Rightarrow> int \<Rightarrow> int" where
  "month_length y m =
     (if m = 2 then (if leap_year y then 29 else 28)
      else if m \<in> {4, 6, 9, 11} then 30 else 31)"

text \<open>
  \<open>new Date(Date.UTC(year, month, 0)).getUTCDate()\<close>: the day before the first of the month
  after \<open>month\<close> (1 to 12; month 0 is the December before, months over 12 wrap into later years).
\<close>

definition daysInMonth :: "int \<Rightarrow> int \<Rightarrow> int" where
  "daysInMonth year month =
     (let y = utc_year year + (month - 1) div 12; m = (month - 1) mod 12 + 1
      in month_length y m)"

definition day_number :: "int \<Rightarrow> int \<Rightarrow> int \<Rightarrow> int" where
  "day_number y m d =
     365 * (y - 1) + (y - 1) div 4 - (y - 1) div 100 + (y - 1) div 400 +
     sum_list (map (month_length y) [1 .. m - 1]) + d - 719163"

definition getTime :: "utc_date \<Rightarrow> int" where
  "getTime d = 86400000 * day_number (ud_year d) (ud_month d) (ud_day d) + ud_millis d"

section \<open>Two-digit years\<close>

datatype date_error = Mrz_date_invalid | Iso_date_invalid

definition MIN_BIRTH_YEAR_OFFSET :: int where "MIN_BIRTH_YEAR_OFFSET = 130"
definition MAX_EXPIRY_PAST_OFFSET :: int where "MAX_EXPIRY_PAST_OFFSET = 50"
definition MAX_EXPIRY_FUTURE_OFFSET :: int where "MAX_EXPIRY_FUTURE_OFFSET = 50"

definition parse_int :: "string \<Rightarrow> int" where
  "parse_int s = int (read_nat s)"

text \<open>\<open>SIX_DIGIT_DATE_REGEX\<close> and \<open>ISO_DATE_REGEX\<close>\<close>

definition six_digit_date :: "string \<Rightarrow> bool" where
  "six_digit_date s \<longleftrightarrow> length s = 6 \<and> list_all is_digit s"

definition iso_date_text :: "string \<Rightarrow> bool" where
  "iso_date_text s \<longleftrightarrow>
     length s = 10 \<and> list_all is_digit (js_slice s 0 4) \<and> s ! 4 = CHR ''-'' \<and>
     list_all is_digit (js_slice s 5 7) \<and> s ! 7 = CHR ''-'' \<and> list_all is_digit (js_slice s 8 10)"

text \<open>\<open>x.toString().padStart(n, "0")\<close>\<close>

definition pad_int :: "nat \<Rightarrow> int \<Rightarrow> string" where
  "pad_int n x = pad_zero n (show_int x)"

definition expandMrzDateWithinRange :: "int \<Rightarrow> int \<Rightarrow> string \<Rightarrow> date_error + string" where
  "expandMrzDateWithinRange maxYear minYear value =
     (if \<not> six_digit_date value then Inl Mrz_date_invalid
      else
        let yearSuffix = parse_int (js_slice value 0 2);
            month = parse_int (js_slice value 2 4);
            day = parse_int (js_slice value 4 6);
            baseCentury = (maxYear div 100) * 100;
            candidateYears = remdups (map (\<lambda>offset. baseCentury + offset + yearSuffix) [-200, -100, 0, 100]);
            validYears = rev (sort (filter (\<lambda>y. minYear \<le> y \<and> y \<le> maxYear) candidateYears));
            resolvedYear = at_opt validYears 0
        in if (resolvedYear = None \<or> resolvedYear = Some 0) \<or> month < 1 \<or> 12 < month \<or> day < 1 \<or> 31 < day
           then Inl Mrz_date_invalid
           else Inr (pad_int 4 (the resolvedYear) @ ''-'' @ js_slice value 2 4 @ ''-'' @ js_slice value 4 6))"

definition buildBirthDateIso :: "string \<Rightarrow> utc_date \<Rightarrow> date_error + string" where
  "buildBirthDateIso value now =
     (let birthYearMax = ud_year now
      in expandMrzDateWithinRange birthYearMax (birthYearMax - MIN_BIRTH_YEAR_OFFSET) value)"

definition buildExpiryDateIso :: "string \<Rightarrow> utc_date \<Rightarrow> date_error + string" where
  "buildExpiryDateIso value now =
     (let expiryYear = ud_year now
      in expandMrzDateWithinRange (expiryYear + MAX_EXPIRY_FUTURE_OFFSET)
           (expiryYear - MAX_EXPIRY_PAST_OFFSET) value)"

section \<open>ISO dates\<close>

record iso_date =
  id_day :: int
  id_month :: int
  id_year :: int

definition parseIsoDate :: "string \<Rightarrow> date_error + iso_date" where
  "parseIsoDate dateIso =
     (if \<not> iso_date_text dateIso then Inl Iso_date_invalid
      else
        let year = parse_int (js_slice dateIso 0 4);
            month = parse_int (js_slice dateIso 5 7);
            day = parse_int (js_slice dateIso 8 10);
            maxDay = daysInMonth year month
        in if month < 1 \<or> 12 < month \<or> day < 1 \<or> maxDay < day then Inl Iso_date_invalid
           else Inr \<lparr>id_day = day, id_month = month, id_year = year\<rparr>)"

text \<open>
  \<open>new Date(Date.UTC(year, month - 1, day))\<close> for the dates \<open>parseIsoDate\<close> returns: the day is
  in the month, so nothing rolls over.
\<close>

definition dateFromIsoDate :: "string \<Rightarrow> date_error + utc_date" where
  "dateFromIsoDate dateIso =
     rbind (parseIsoDate dateIso) (\<lambda>p.
       Inr \<lparr>ud_year = utc_year (id_year p), ud_month = id_month p, ud_day = id_day p, ud_millis = 0\<rparr>)"

definition shiftIsoDateByYears :: "string \<Rightarrow> int \<Rightarrow> date_error + string" where
  "shiftIsoDateByYears dateIso yearDelta =
     rbind (parseIsoDate dateIso) (\<lambda>p.
       let targetYear = id_year p + yearDelta;
           targetDay = min (id_day p) (daysInMonth targetYear (id_month p))
       in Inr (pad_int 4 targetYear @ ''-'' @ pad_int 2 (id_month p) @ ''-'' @ pad_int 2 targetDay))"

definition ageFromDateOfBirth :: "string \<Rightarrow> utc_date \<Rightarrow> date_error + int" where
  "ageFromDateOfBirth dateOfBirthIso referenceDate =
     rbind (parseIsoDate dateOfBirthIso) (\<lambda>p.
       let age = ud_year referenceDate - id_year p;
           monthDelta = ud_month referenceDate - id_month p;
           dayDelta = ud_day referenceDate - id_day p
       in Inr (if monthDelta < 0 \<or> monthDelta = 0 \<and> dayDelta < 0 then age - 1 else age))"

section \<open>Printing and reading numbers of fixed width\<close>

lemma read_nat_zeros: "read_nat (replicate k CHR ''0'' @ s) = read_nat s"
proof (induction k)
  case 0
  then show ?case by simp
next
  case (Suc k)
  have "read_nat (CHR ''0'' # xs) = read_nat xs" for xs
    by (simp add: read_nat_def digit_value_def)
  with Suc show ?case by simp
qed

lemma length_show_nat: "n < 10 ^ k \<Longrightarrow> 0 < k \<Longrightarrow> length (show_nat n) \<le> k"
proof (induction k arbitrary: n)
  case 0
  then show ?case by simp
next
  case (Suc k)
  show ?case
  proof (cases "n < 10")
    case True
    then show ?thesis by (simp add: show_nat.simps [of n])
  next
    case False
    with Suc.prems have "n div 10 < 10 ^ k" "0 < k" by (auto intro: gr0I)
    with Suc.IH [of "n div 10"] False show ?thesis by (simp add: show_nat.simps [of n])
  qed
qed

lemma is_digit_0 [simp]: "is_digit CHR ''0''"
  by (simp add: is_digit_def)

lemma pad_int_fixed:
  assumes "0 \<le> x" and "x < 10 ^ k" and "0 < k"
  shows "length (pad_int k x) = k" and "list_all is_digit (pad_int k x)" and "parse_int (pad_int k x) = x"
proof -
  have len: "length (show_nat (nat x)) \<le> k" using assms by (intro length_show_nat) (auto simp: nat_less_iff)
  then show "length (pad_int k x) = k" using assms by (simp add: pad_int_def pad_zero_def show_int_def)
  show "list_all is_digit (pad_int k x)"
    using show_nat_digits [of "nat x"] assms
    by (auto simp: pad_int_def pad_zero_def show_int_def list_all_iff)
  show "parse_int (pad_int k x) = x"
    using assms by (simp add: pad_int_def pad_zero_def show_int_def parse_int_def read_nat_zeros)
qed

definition iso_text :: "int \<Rightarrow> int \<Rightarrow> int \<Rightarrow> string" where
  "iso_text y m d = pad_int 4 y @ ''-'' @ pad_int 2 m @ ''-'' @ pad_int 2 d"

lemma iso_text_parts:
  assumes "0 \<le> y" "y < 10000" "0 \<le> m" "m < 100" "0 \<le> d" "d < 100"
  shows "js_slice (iso_text y m d) 0 4 = pad_int 4 y" "js_slice (iso_text y m d) 5 7 = pad_int 2 m"
    "js_slice (iso_text y m d) 8 10 = pad_int 2 d" "length (iso_text y m d) = 10"
    "iso_text y m d ! 4 = CHR ''-''" "iso_text y m d ! 7 = CHR ''-''"
  using assms pad_int_fixed(1) [of y 4] pad_int_fixed(1) [of m 2] pad_int_fixed(1) [of d 2]
  by (simp_all add: iso_text_def js_slice_def nth_append)

lemma month_length_bounds: "28 \<le> month_length y m \<and> month_length y m \<le> 31"
  by (simp add: month_length_def)

lemma daysInMonth_bounds: "28 \<le> daysInMonth y m \<and> daysInMonth y m \<le> 31"
  unfolding daysInMonth_def Let_def by (rule month_length_bounds)

lemma parse_iso_text:
  assumes "0 \<le> y" "y < 10000" "1 \<le> m" "m \<le> 12" "1 \<le> d" "d \<le> daysInMonth y m"
  shows "parseIsoDate (iso_text y m d) = Inr \<lparr>id_day = d, id_month = m, id_year = y\<rparr>"
proof -
  have "d < 100" using assms(6) daysInMonth_bounds [of y m] by linarith
  with assms iso_text_parts [of y m d] pad_int_fixed [of y 4] pad_int_fixed [of m 2] pad_int_fixed [of d 2]
  show ?thesis by (simp add: parseIsoDate_def iso_date_text_def)
qed

lemma parseIsoDate_valid:
  assumes "parseIsoDate t = Inr p"
  shows "0 \<le> id_year p" "id_year p < 10000" "1 \<le> id_month p" "id_month p \<le> 12" "1 \<le> id_day p"
    "id_day p \<le> daysInMonth (id_year p) (id_month p)"
proof -
  from assms have iso: "iso_date_text t" and y: "id_year p = parse_int (js_slice t 0 4)"
    by (auto simp: parseIsoDate_def Let_def split: if_splits)
  from iso have "length (js_slice t 0 4) = 4" "\<forall>c \<in> set (js_slice t 0 4). is_digit c"
    by (auto simp: iso_date_text_def length_slice list_all_iff)
  with read_nat_bound [of "js_slice t 0 4"] y show "0 \<le> id_year p" "id_year p < 10000"
    by (simp_all add: parse_int_def)
  from assms show "1 \<le> id_month p" "id_month p \<le> 12" "1 \<le> id_day p"
    "id_day p \<le> daysInMonth (id_year p) (id_month p)"
    by (auto simp: parseIsoDate_def Let_def split: if_splits)
qed

section \<open>The century a two-digit year belongs to\<close>

lemma parse_int_two:
  assumes "list_all is_digit s" and "length s = 2"
  shows "0 \<le> parse_int s" and "parse_int s < 100"
  using assms read_nat_bound [of s] by (auto simp: parse_int_def list_all_iff)

lemma six_digit_parts:
  assumes "six_digit_date v"
  shows "length (js_slice v 0 2) = 2" "length (js_slice v 2 4) = 2" "length (js_slice v 4 6) = 2"
    "list_all is_digit (js_slice v 0 2)" "list_all is_digit (js_slice v 2 4)" "list_all is_digit (js_slice v 4 6)"
  using assms by (auto simp: six_digit_date_def length_slice js_slice_def list_all_iff
      dest: in_set_takeD in_set_dropD)

lemma rev_sort_head:
  fixes xs :: "int list"
  shows "at_opt (rev (sort xs)) 0 = (if xs = [] then None else Some (Max (set xs)))"
proof (cases "xs = []")
  case True
  then show ?thesis by simp
next
  case False
  then have ne: "sort xs \<noteq> []" by (metis length_0_conv length_sort)
  have "Max (set xs) = last (sort xs)"
  proof (rule Max_eqI)
    show "last (sort xs) \<in> set xs" using ne by (metis last_in_set set_sort)
    fix y assume "y \<in> set xs"
    then obtain i where "i < length (sort xs)" "sort xs ! i = y" by (metis in_set_conv_nth set_sort)
    then show "y \<le> last (sort xs)"
      using sorted_nth_mono [OF sorted_sort, of i "length (sort xs) - 1" xs] ne by (simp add: last_conv_nth)
  qed simp
  with ne False show ?thesis by (simp add: at_opt_def hd_rev flip: hd_conv_nth)
qed

text \<open>The year the code resolves: the latest one with that suffix up to the maximum.\<close>

definition latest_year :: "int \<Rightarrow> int \<Rightarrow> int" where
  "latest_year maxYear sfx = maxYear - (maxYear - sfx) mod 100"

lemma latest_year_props:
  assumes "0 \<le> sfx" "sfx < 100"
  shows "latest_year maxYear sfx mod 100 = sfx" "latest_year maxYear sfx \<le> maxYear"
    "maxYear - 99 \<le> latest_year maxYear sfx"
proof -
  have "(maxYear - (maxYear - sfx) mod 100) mod 100 = sfx mod 100"
    by (metis diff_diff_eq2 add_diff_cancel_left' mod_diff_right_eq)
  with assms show "latest_year maxYear sfx mod 100 = sfx" by (simp add: latest_year_def)
  show "latest_year maxYear sfx \<le> maxYear" "maxYear - 99 \<le> latest_year maxYear sfx"
    using pos_mod_sign [of 100 "maxYear - sfx"] pos_mod_bound [of 100 "maxYear - sfx"]
    unfolding latest_year_def by linarith+
qed

lemma latest_year_candidate:
  assumes "0 \<le> sfx" "sfx < 100" "minYear \<le> maxYear - 99"
  defines "valid \<equiv> filter (\<lambda>y. minYear \<le> y \<and> y \<le> maxYear)
      (remdups (map (\<lambda>offset. (maxYear div 100) * 100 + offset + sfx) [-200, -100, 0, 100]))"
  shows "valid \<noteq> [] \<and> Max (set valid) = latest_year maxYear sfx"
proof -
  let ?b = "(maxYear div 100) * 100"
  have b: "maxYear = ?b + maxYear mod 100" by simp
  have ly: "latest_year maxYear sfx = (if sfx \<le> maxYear mod 100 then ?b + sfx else ?b - 100 + sfx)"
  proof (cases "sfx \<le> maxYear mod 100")
    case True
    have "(maxYear - sfx) mod 100 = (maxYear mod 100 - sfx) mod 100"
      by (simp add: mod_diff_left_eq)
    also have "\<dots> = maxYear mod 100 - sfx"
      using True assms(1) pos_mod_bound [of 100 maxYear] by (intro mod_pos_pos_trivial) auto
    finally have "(maxYear - sfx) mod 100 = maxYear mod 100 - sfx" .
    with True show ?thesis unfolding latest_year_def by (simp add: minus_mod_eq_div_mult)
  next
    case False
    have "(maxYear - sfx) mod 100 = (maxYear mod 100 - sfx + 100) mod 100"
      by (metis mod_add_self2 mod_diff_left_eq)
    also have "\<dots> = maxYear mod 100 - sfx + 100"
      using False assms(2) by (intro mod_pos_pos_trivial) (auto simp: pos_mod_sign)
    finally show ?thesis using False unfolding latest_year_def by (simp add: minus_mod_eq_div_mult)
  qed
  have set: "set valid = {y \<in> {?b - 200 + sfx, ?b - 100 + sfx, ?b + sfx, ?b + 100 + sfx}.
      minYear \<le> y \<and> y \<le> maxYear}"
    by (auto simp: valid_def)
  have mem: "latest_year maxYear sfx \<in> set valid"
    using latest_year_props [OF assms(1,2), of maxYear] assms(3) unfolding set ly by auto
  moreover have "y \<le> latest_year maxYear sfx" if "y \<in> set valid" for y
  proof -
    obtain q r where q: "maxYear div 100 = q" "maxYear mod 100 = r" "maxYear = q * 100 + r" "r < 100"
      by (metis b pos_mod_bound zero_less_numeral)
    from that assms(1,2) q(3,4) show ?thesis unfolding set ly q(1,2) by auto
  qed
  ultimately show ?thesis by (metis List.finite_set Max_eqI empty_iff list.set(1))
qed

lemma pad_int_parse:
  assumes "list_all is_digit s" and "length s = 2"
  shows "pad_int 2 (parse_int s) = s"
proof -
  obtain a b where s: "s = [a, b]" using assms(2) by (auto simp: length_Suc_conv numeral_2_eq_2)
  have dc: "digit_char (digit_value c) = c" "digit_value c < 10" if "is_digit c" for c
    using that by (auto simp: digit_char_def digit_value_def is_digit_def)
  from assms(1) have d: "is_digit a" "is_digit b" by (simp_all add: s)
  have r: "read_nat s = digit_value a * 10 + digit_value b" by (simp add: s read_nat_def)
  show ?thesis
  proof (cases "digit_value a = 0")
    case True
    with dc(1) [OF d(1)] have "a = CHR ''0''" by simp
    with True r dc [OF d(2)] s show ?thesis
      by (simp add: pad_int_def pad_zero_def parse_int_def show_int_def show_nat.simps)
  next
    case False
    with dc [OF d(1)] dc [OF d(2)] have "show_nat (digit_value a * 10 + digit_value b) = s"
      by (simp add: s show_nat.simps [of "digit_value a * 10 + digit_value b"] show_nat.simps [of "digit_value a"])
    then show ?thesis by (simp only: pad_int_def pad_zero_def parse_int_def show_int_def r nat_int) (simp add: s)
  qed
qed

lemma expand_exact:
  assumes "minYear \<le> maxYear - 99" and "100 \<le> maxYear"
  shows "expandMrzDateWithinRange maxYear minYear v =
    (let m = parse_int (js_slice v 2 4); d = parse_int (js_slice v 4 6)
     in if six_digit_date v \<and> 1 \<le> m \<and> m \<le> 12 \<and> 1 \<le> d \<and> d \<le> 31
        then Inr (iso_text (latest_year maxYear (parse_int (js_slice v 0 2))) m d)
        else Inl Mrz_date_invalid)"
proof (cases "six_digit_date v")
  case False
  then show ?thesis by (simp add: expandMrzDateWithinRange_def Let_def)
next
  case True
  let ?y = "parse_int (js_slice v 0 2)"
  have y: "0 \<le> ?y" "?y < 100" using parse_int_two six_digit_parts [OF True] by auto
  have "latest_year maxYear ?y \<noteq> 0" using latest_year_props(3) [OF y, of maxYear] assms(2) by linarith
  note c = latest_year_candidate [OF y assms(1)]
  have r: "(if L = [] then None else Some (Max (set L))) = Some (latest_year maxYear ?y)"
    if "L \<noteq> [] \<and> Max (set L) = latest_year maxYear ?y" for L :: "int list"
    using that by simp
  show ?thesis
    unfolding expandMrzDateWithinRange_def Let_def rev_sort_head r [OF c]
    using True \<open>latest_year maxYear ?y \<noteq> 0\<close> six_digit_parts [OF True]
    by (auto simp: iso_text_def pad_int_parse)
qed

text \<open>
  A six-digit date is read in the one century that makes it the latest possible date whose
  year does not pass the maximum: for birth dates the current year, for expiry dates fifty years
  ahead. Every six-digit text with a month from 1 to 12 and a day from 1 to 31 is accepted (no
  year is out of reach), every other text refused.
\<close>

theorem mrz_date_century:
  assumes "1000 \<le> ud_year now" and "ud_year now < 9900"
  shows "buildBirthDateIso v now =
    (let m = parse_int (js_slice v 2 4); d = parse_int (js_slice v 4 6)
     in if six_digit_date v \<and> 1 \<le> m \<and> m \<le> 12 \<and> 1 \<le> d \<and> d \<le> 31
        then Inr (iso_text (latest_year (ud_year now) (parse_int (js_slice v 0 2))) m d)
        else Inl Mrz_date_invalid)
  \<and> buildExpiryDateIso v now =
    (let m = parse_int (js_slice v 2 4); d = parse_int (js_slice v 4 6)
     in if six_digit_date v \<and> 1 \<le> m \<and> m \<le> 12 \<and> 1 \<le> d \<and> d \<le> 31
        then Inr (iso_text (latest_year (ud_year now + 50) (parse_int (js_slice v 0 2))) m d)
        else Inl Mrz_date_invalid)"
  using assms expand_exact [of "ud_year now - 130" "ud_year now" v]
    expand_exact [of "ud_year now - 50" "ud_year now + 50" v]
  by (simp_all add: buildBirthDateIso_def buildExpiryDateIso_def Let_def MIN_BIRTH_YEAR_OFFSET_def
      MAX_EXPIRY_PAST_OFFSET_def MAX_EXPIRY_FUTURE_OFFSET_def)

theorem mrz_date_century_witness:
  "buildBirthDateIso ''740812'' \<lparr>ud_year = 2026, ud_month = 1, ud_day = 1, ud_millis = 0\<rparr> = Inr ''1974-08-12''"
  using mrz_date_century [of "\<lparr>ud_year = 2026, ud_month = 1, ud_day = 1, ud_millis = 0\<rparr>" "''740812''"]
  by (simp add: Let_def six_digit_date_def is_digit_def js_slice_def parse_int_def read_nat_def
      digit_value_def latest_year_def iso_text_def pad_int_def pad_zero_def show_int_def
      show_nat.simps)

end
