(* ===== verification/Mrz.thy ===== *)
theory Mrz
  imports Mrz_Dates Tlv
begin

text \<open>
  The machine readable zone of data group 1 (\<open>apps/api/src/v1/verify/dg1-mrz.ts\<close>): finding the
  text in the TLV structure, normalizing it, detecting the document format by its length and
  cutting the fields.
\<close>

section \<open>Constants and types\<close>

definition DG1_ROOT_TAG :: nat where "DG1_ROOT_TAG = 0x61"
definition MRZ_DATA_TAG :: nat where "MRZ_DATA_TAG = 0x5f1f"
definition TD1_LINE_LENGTH :: nat where "TD1_LINE_LENGTH = 30"
definition TD2_LINE_LENGTH :: nat where "TD2_LINE_LENGTH = 36"
definition TD3_LINE_LENGTH :: nat where "TD3_LINE_LENGTH = 44"
definition TD1_TOTAL_LENGTH :: nat where "TD1_TOTAL_LENGTH = TD1_LINE_LENGTH * 3"
definition TD2_TOTAL_LENGTH :: nat where "TD2_TOTAL_LENGTH = TD2_LINE_LENGTH * 2"
definition TD3_TOTAL_LENGTH :: nat where "TD3_TOTAL_LENGTH = TD3_LINE_LENGTH * 2"

lemmas mrz_lengths = TD1_LINE_LENGTH_def TD2_LINE_LENGTH_def TD3_LINE_LENGTH_def
  TD1_TOTAL_LENGTH_def TD2_TOTAL_LENGTH_def TD3_TOTAL_LENGTH_def

datatype dg1_error =
  Dg1_tlv tlv_error | Dg1_mrz_invalid | Dg1_date date_error | Dg1_td3_invalid

datatype mrz_format = Td1 | Td2 | Td3

record dg1_claims =
  cl_birthDateIso :: string
  cl_documentNumber :: string
  cl_documentType :: string
  cl_expiryDateIso :: string
  cl_givenNames :: string
  cl_issuingCountry :: string
  cl_nationality :: string
  cl_optionalData :: string
  cl_sex :: string
  cl_surname :: string

section \<open>Normalizing the text\<close>

text \<open>
  The ASCII part of \<open>toUpperCase\<close> on a code point. Sixteen code points outside ASCII have an
  upper case that contains ASCII letters (the ligatures, dotless i, long s, sharp s and the
  letters with a combining or modifier accent); their other characters are dropped by the filter
  that follows, as is every other code point outside ASCII.
\<close>

definition upper_ascii_special :: "(nat \<times> string) list" where
  "upper_ascii_special =
     [(0xdf, ''SS''), (0x131, ''I''), (0x149, ''N''), (0x17f, ''S''), (0x1f0, ''J''), (0x1e96, ''H''),
      (0x1e97, ''T''), (0x1e98, ''W''), (0x1e99, ''Y''), (0x1e9a, ''A''), (0xfb00, ''FF''),
      (0xfb01, ''FI''), (0xfb02, ''FL''), (0xfb03, ''FFI''), (0xfb04, ''FFL''), (0xfb05, ''ST''),
      (0xfb06, ''ST'')]"

definition upper_ascii :: "nat \<Rightarrow> string" where
  "upper_ascii c =
     (if 97 \<le> c \<and> c \<le> 122 then [char_of (c - 32)]
      else if c < 128 then [char_of c]
      else case map_of upper_ascii_special c of None \<Rightarrow> [] | Some s \<Rightarrow> s)"

definition is_mrz_char :: "char \<Rightarrow> bool" where
  "is_mrz_char c \<longleftrightarrow>
     c = CHR ''<'' \<or> 65 \<le> (of_char c :: nat) \<and> (of_char c :: nat) \<le> 90 \<or>
     48 \<le> (of_char c :: nat) \<and> (of_char c :: nat) \<le> 57"

definition normalizeMrzText :: "nat list \<Rightarrow> dg1_error + string" where
  "normalizeMrzText raw =
     (let upper = concat (map upper_ascii raw);
          filtered = filter is_mrz_char
            (filter (\<lambda>c. c \<noteq> CHR 0x0A)
               (filter (\<lambda>c. c \<noteq> CHR 0x0D) (filter (\<lambda>c. c \<noteq> CHR '' '') upper)))
      in if length filtered \<noteq> TD1_TOTAL_LENGTH \<and> length filtered \<noteq> TD2_TOTAL_LENGTH \<and>
            length filtered \<noteq> TD3_TOTAL_LENGTH
         then Inl Dg1_mrz_invalid else Inr filtered)"

section \<open>Finding the text\<close>

text \<open>The inner loop over the elements of the root; \<open>Inr None\<close> when it ends without the text.\<close>

function mrz_inner :: "bytes \<Rightarrow> nat \<Rightarrow> dg1_error + string option" where
  "mrz_inner bs innerOffset =
     (if innerOffset < length bs then
        case readTlv bs innerOffset of
          Inl e \<Rightarrow> Inl (Dg1_tlv e)
        | Inr nestedEntry \<Rightarrow>
            if tlv_tag nestedEntry = MRZ_DATA_TAG then
              rbind (normalizeMrzText (utf8_decode (tlv_bytes nestedEntry))) (\<lambda>t. Inr (Some t))
            else mrz_inner bs (tlv_next nestedEntry)
      else Inr None)"
  by pat_completeness auto
termination
  by (relation "measure (\<lambda>(bs, off). length bs - off)") (auto dest: tlvr.read_measure)

function mrz_outer :: "bytes \<Rightarrow> nat \<Rightarrow> dg1_error + string option" where
  "mrz_outer dg1 offset =
     (if offset < length dg1 then
        case readTlv dg1 offset of
          Inl e \<Rightarrow> Inl (Dg1_tlv e)
        | Inr entry \<Rightarrow>
            if tlv_tag entry = MRZ_DATA_TAG then
              rbind (normalizeMrzText (utf8_decode (tlv_bytes entry))) (\<lambda>t. Inr (Some t))
            else if tlv_tag entry = DG1_ROOT_TAG then
              (case mrz_inner (tlv_bytes entry) 0 of
                 Inl e \<Rightarrow> Inl e
               | Inr (Some t) \<Rightarrow> Inr (Some t)
               | Inr None \<Rightarrow> mrz_outer dg1 (tlv_next entry))
            else mrz_outer dg1 (tlv_next entry)
      else Inr None)"
  by pat_completeness auto
termination
  by (relation "measure (\<lambda>(bs, off). length bs - off)") (auto dest: tlvr.read_measure)

declare mrz_inner.simps [simp del] mrz_outer.simps [simp del]

definition readMrzTextFromTlv :: "bytes \<Rightarrow> string option" where
  "readMrzTextFromTlv dg1 = catch_default (mrz_outer dg1 0) None"

definition extractMrzTextFromDg1 :: "bytes \<Rightarrow> dg1_error + string" where
  "extractMrzTextFromDg1 dg1 =
     (case readMrzTextFromTlv dg1 of
        Some t \<Rightarrow> Inr t
      | None \<Rightarrow> normalizeMrzText (utf8_decode dg1))"

section \<open>Cutting the fields\<close>

definition detectMrzFormat :: "string \<Rightarrow> (mrz_format \<times> string list) option" where
  "detectMrzFormat rawMrz =
     (if length rawMrz = TD3_TOTAL_LENGTH then
        Some (Td3, [js_slice rawMrz 0 TD3_LINE_LENGTH, js_slice rawMrz TD3_LINE_LENGTH (length rawMrz)])
      else if length rawMrz = TD2_TOTAL_LENGTH then
        Some (Td2, [js_slice rawMrz 0 TD2_LINE_LENGTH, js_slice rawMrz TD2_LINE_LENGTH (length rawMrz)])
      else if length rawMrz = TD1_TOTAL_LENGTH then
        Some (Td1, [js_slice rawMrz 0 TD1_LINE_LENGTH,
                    js_slice rawMrz TD1_LINE_LENGTH (TD1_LINE_LENGTH * 2),
                    js_slice rawMrz (TD1_LINE_LENGTH * 2) (length rawMrz)])
      else None)"

definition mrzChar :: "string \<Rightarrow> nat \<Rightarrow> string" where
  "mrzChar v index = (case at_opt v index of None \<Rightarrow> [] | Some c \<Rightarrow> [c])"

definition unfill :: "string \<Rightarrow> string" where
  "unfill v = js_trim (replace_char CHR ''<'' [] v)"

text \<open>\<open>value.replaceAll("<<", "|")\<close>: left to right, without overlap.\<close>

fun replace_fill_pairs :: "string \<Rightarrow> string" where
  "replace_fill_pairs (a # b # s) =
     (if a = CHR ''<'' \<and> b = CHR ''<'' then CHR ''|'' # replace_fill_pairs s
      else a # replace_fill_pairs (b # s))"
| "replace_fill_pairs s = s"

text \<open>\<open>parseNames\<close>, as (given names, surname)\<close>

definition parseNames :: "string \<Rightarrow> string \<times> string" where
  "parseNames v =
     (let raw = replace_fill_pairs v;
          pieces = split_on CHR ''|'' raw;
          first = (case at_opt pieces 0 of None \<Rightarrow> [] | Some p \<Rightarrow> p);
          surname = js_trim (unfill (replace_char CHR ''<'' '' '' first));
          givenNames = js_trim (unfill (replace_char CHR ''<'' '' '' (join_with '' '' (drop 1 pieces))))
      in (givenNames, surname))"

definition normalizeSex :: "string \<Rightarrow> string" where
  "normalizeSex v = (if v = ''<'' then ''X'' else v)"

definition line_at :: "string list \<Rightarrow> nat \<Rightarrow> string" where
  "line_at ls i = (case at_opt ls i of None \<Rightarrow> [] | Some l \<Rightarrow> l)"

definition date_result :: "date_error + string \<Rightarrow> dg1_error + string" where
  "date_result r = (case r of Inl e \<Rightarrow> Inl (Dg1_date e) | Inr s \<Rightarrow> Inr s)"

definition parseTd3Lines :: "string list \<Rightarrow> utc_date \<Rightarrow> dg1_error + dg1_claims" where
  "parseTd3Lines ls now =
     (let lineOne = line_at ls 0; lineTwo = line_at ls 1;
          (givenNames, surname) = parseNames (js_slice lineOne 5 44)
      in rbind (date_result (buildBirthDateIso (js_slice lineTwo 13 19) now)) (\<lambda>birth.
         rbind (date_result (buildExpiryDateIso (js_slice lineTwo 21 27) now)) (\<lambda>expiry.
         Inr \<lparr>cl_birthDateIso = birth, cl_documentNumber = unfill (js_slice lineTwo 0 9),
              cl_documentType = unfill (js_slice lineOne 0 2), cl_expiryDateIso = expiry,
              cl_givenNames = givenNames, cl_issuingCountry = unfill (js_slice lineOne 2 5),
              cl_nationality = unfill (js_slice lineTwo 10 13),
              cl_optionalData = unfill (js_slice lineTwo 28 42),
              cl_sex = normalizeSex (mrzChar lineTwo 20), cl_surname = surname\<rparr>)))"

definition parseTd2Lines :: "string list \<Rightarrow> utc_date \<Rightarrow> dg1_error + dg1_claims" where
  "parseTd2Lines ls now =
     (let lineOne = line_at ls 0; lineTwo = line_at ls 1;
          (givenNames, surname) = parseNames (js_slice lineOne 5 36)
      in rbind (date_result (buildBirthDateIso (js_slice lineTwo 13 19) now)) (\<lambda>birth.
         rbind (date_result (buildExpiryDateIso (js_slice lineTwo 21 27) now)) (\<lambda>expiry.
         Inr \<lparr>cl_birthDateIso = birth, cl_documentNumber = unfill (js_slice lineTwo 0 9),
              cl_documentType = unfill (js_slice lineOne 0 2), cl_expiryDateIso = expiry,
              cl_givenNames = givenNames, cl_issuingCountry = unfill (js_slice lineOne 2 5),
              cl_nationality = unfill (js_slice lineTwo 10 13),
              cl_optionalData = unfill (js_slice lineTwo 28 35),
              cl_sex = normalizeSex (mrzChar lineTwo 20), cl_surname = surname\<rparr>)))"

definition parseTd1Lines :: "string list \<Rightarrow> utc_date \<Rightarrow> dg1_error + dg1_claims" where
  "parseTd1Lines ls now =
     (let lineOne = line_at ls 0; lineTwo = line_at ls 1; lineThree = line_at ls 2;
          (givenNames, surname) = parseNames lineThree;
          optionalData1 = js_slice lineOne 15 30; optionalData2 = js_slice lineTwo 18 29
      in rbind (date_result (buildBirthDateIso (js_slice lineTwo 0 6) now)) (\<lambda>birth.
         rbind (date_result (buildExpiryDateIso (js_slice lineTwo 8 14) now)) (\<lambda>expiry.
         Inr \<lparr>cl_birthDateIso = birth, cl_documentNumber = unfill (js_slice lineOne 5 14),
              cl_documentType = unfill (js_slice lineOne 0 2), cl_expiryDateIso = expiry,
              cl_givenNames = givenNames, cl_issuingCountry = unfill (js_slice lineOne 2 5),
              cl_nationality = unfill (js_slice lineTwo 15 18),
              cl_optionalData = unfill (optionalData1 @ optionalData2),
              cl_sex = normalizeSex (mrzChar lineTwo 7), cl_surname = surname\<rparr>)))"

definition parseDg1Claims :: "bytes \<Rightarrow> utc_date \<Rightarrow> dg1_error + dg1_claims" where
  "parseDg1Claims dg1 now =
     rbind (extractMrzTextFromDg1 dg1) (\<lambda>rawMrz.
       case detectMrzFormat rawMrz of
         None \<Rightarrow> Inl Dg1_mrz_invalid
       | Some (Td1, ls) \<Rightarrow> parseTd1Lines ls now
       | Some (Td2, ls) \<Rightarrow> parseTd2Lines ls now
       | Some (Td3, ls) \<Rightarrow> parseTd3Lines ls now)"

definition parseTd3MrzClaims :: "bytes \<Rightarrow> utc_date \<Rightarrow> dg1_error + dg1_claims" where
  "parseTd3MrzClaims dg1 now =
     rbind (parseDg1Claims dg1 now) (\<lambda>claims.
       if take 1 (cl_documentType claims) \<noteq> ''P'' then Inl Dg1_td3_invalid else Inr claims)"

end
