(* ===== verification/Face_Threshold.thy ===== *)
theory Face_Threshold
  imports Complex_Main Mrz
begin

text \<open>
  The face match threshold derived from the document's dates
  (\<open>apps/api/src/v1/verify/dg1-threshold.ts\<close>). The floating-point arithmetic is modelled by
  exact rationals; the constants are the decimals the file writes.
\<close>

definition CHILD_DOCUMENT_VALIDITY_YEARS :: int where "CHILD_DOCUMENT_VALIDITY_YEARS = 5"
definition ADULT_DOCUMENT_VALIDITY_YEARS :: int where "ADULT_DOCUMENT_VALIDITY_YEARS = 10"
definition CHILD_DOCUMENT_MAX_ISSUE_AGE :: int where "CHILD_DOCUMENT_MAX_ISSUE_AGE = 16"
definition ADULT_DOCUMENT_MIN_ISSUE_AGE :: int where "ADULT_DOCUMENT_MIN_ISSUE_AGE = 16"
definition MAX_YOUTH_AGE :: int where "MAX_YOUTH_AGE = 25"
definition YOUTH_DRIFT_RANGE_YEARS :: int where "YOUTH_DRIFT_RANGE_YEARS = 10"
definition DOCUMENT_AGE_WEIGHT :: rat where "DOCUMENT_AGE_WEIGHT = 14 / 100"
definition YOUTH_DRIFT_WEIGHT :: rat where "YOUTH_DRIFT_WEIGHT = 9 / 100"
definition MIN_FACE_MATCH_THRESHOLD :: rat where "MIN_FACE_MATCH_THRESHOLD = 6875 / 10000"
definition MAX_FACE_MATCH_THRESHOLD :: rat where "MAX_FACE_MATCH_THRESHOLD = 8 / 10"
definition DEFAULT_FACE_MATCH_THRESHOLD :: rat where "DEFAULT_FACE_MATCH_THRESHOLD = 7 / 10"

lemmas threshold_constants = CHILD_DOCUMENT_VALIDITY_YEARS_def ADULT_DOCUMENT_VALIDITY_YEARS_def
  CHILD_DOCUMENT_MAX_ISSUE_AGE_def ADULT_DOCUMENT_MIN_ISSUE_AGE_def MAX_YOUTH_AGE_def
  YOUTH_DRIFT_RANGE_YEARS_def DOCUMENT_AGE_WEIGHT_def YOUTH_DRIFT_WEIGHT_def
  MIN_FACE_MATCH_THRESHOLD_def MAX_FACE_MATCH_THRESHOLD_def DEFAULT_FACE_MATCH_THRESHOLD_def

definition clamp :: "rat \<Rightarrow> rat \<Rightarrow> rat \<Rightarrow> rat" where
  "clamp value lo hi = max lo (min hi value)"

text \<open>\<open>None\<close> is \<open>null\<close>: the dates fit both kinds of document or neither.\<close>

definition inferDocumentValidityYears :: "string \<Rightarrow> string \<Rightarrow> date_error + int option" where
  "inferDocumentValidityYears birthDateIso expiryDateIso =
     rbind (rbind (shiftIsoDateByYears expiryDateIso (- ADULT_DOCUMENT_VALIDITY_YEARS)) dateFromIsoDate) (\<lambda>adultIssue.
     rbind (ageFromDateOfBirth birthDateIso adultIssue) (\<lambda>adultIssueAge.
     rbind (rbind (shiftIsoDateByYears expiryDateIso (- CHILD_DOCUMENT_VALIDITY_YEARS)) dateFromIsoDate) (\<lambda>childIssue.
     rbind (ageFromDateOfBirth birthDateIso childIssue) (\<lambda>childIssueAge.
       let adultIssuancePossible = (ADULT_DOCUMENT_MIN_ISSUE_AGE \<le> adultIssueAge);
           childIssuancePossible = (childIssueAge < CHILD_DOCUMENT_MAX_ISSUE_AGE)
       in if adultIssuancePossible = childIssuancePossible then Inr None
          else Inr (Some (if adultIssuancePossible then ADULT_DOCUMENT_VALIDITY_YEARS
                          else CHILD_DOCUMENT_VALIDITY_YEARS))))))"

definition resolveDocumentAgeFraction :: "string \<Rightarrow> string \<Rightarrow> utc_date \<Rightarrow> date_error + rat" where
  "resolveDocumentAgeFraction expiryDateIso issueDateIso now =
     rbind (dateFromIsoDate issueDateIso) (\<lambda>issue.
     rbind (dateFromIsoDate expiryDateIso) (\<lambda>expiry.
       let issueTime = getTime issue; expiryTime = getTime expiry;
           validityDuration = expiryTime - issueTime
       in if validityDuration \<le> 0 then Inr 0
          else Inr (clamp (of_int (getTime now - issueTime) / of_int validityDuration) 0 1)))"

definition resolveFaceMatchThreshold :: "string \<Rightarrow> string \<Rightarrow> utc_date \<Rightarrow> date_error + rat" where
  "resolveFaceMatchThreshold birthDateIso expiryDateIso now =
     rbind (inferDocumentValidityYears birthDateIso expiryDateIso) (\<lambda>validityYears.
       case validityYears of
         None \<Rightarrow> Inr DEFAULT_FACE_MATCH_THRESHOLD
       | Some years \<Rightarrow>
           rbind (shiftIsoDateByYears expiryDateIso (- years)) (\<lambda>issueDateIso.
           rbind (ageFromDateOfBirth birthDateIso now) (\<lambda>currentAgeYears.
           rbind (dateFromIsoDate issueDateIso) (\<lambda>issueDate.
           rbind (ageFromDateOfBirth birthDateIso issueDate) (\<lambda>issueAgeYears.
           rbind (resolveDocumentAgeFraction expiryDateIso issueDateIso now) (\<lambda>normalizedDocumentAge.
             let normalizedYouthDrift =
                   clamp (of_int (min currentAgeYears MAX_YOUTH_AGE - min issueAgeYears MAX_YOUTH_AGE) /
                          of_int YOUTH_DRIFT_RANGE_YEARS) 0 1
             in Inr (clamp (MAX_FACE_MATCH_THRESHOLD - DOCUMENT_AGE_WEIGHT * normalizedDocumentAge -
                            YOUTH_DRIFT_WEIGHT * normalizedYouthDrift)
                       MIN_FACE_MATCH_THRESHOLD MAX_FACE_MATCH_THRESHOLD)))))))"

definition threshold_result :: "date_error + rat \<Rightarrow> dg1_error + rat" where
  "threshold_result r = (case r of Inl e \<Rightarrow> Inl (Dg1_date e) | Inr t \<Rightarrow> Inr t)"

definition resolveFaceMatchThresholdFromDg1 :: "bytes \<Rightarrow> utc_date \<Rightarrow> dg1_error + rat" where
  "resolveFaceMatchThresholdFromDg1 dg1 now =
     rbind (parseDg1Claims dg1 now) (\<lambda>claims.
       if take 1 (cl_documentType claims) \<noteq> ''P'' then Inr DEFAULT_FACE_MATCH_THRESHOLD
       else threshold_result
              (resolveFaceMatchThreshold (cl_birthDateIso claims) (cl_expiryDateIso claims) now))"

section \<open>The range of the threshold\<close>

lemma clamp_range: "lo \<le> hi \<Longrightarrow> lo \<le> clamp v lo hi \<and> clamp v lo hi \<le> hi"
  by (simp add: clamp_def)

lemma clamp_mono: "v \<le> w \<Longrightarrow> clamp v lo hi \<le> clamp w lo hi"
  by (auto simp: clamp_def)

lemma threshold_range:
  "resolveFaceMatchThreshold b e now = Inr t \<Longrightarrow> MIN_FACE_MATCH_THRESHOLD \<le> t \<and> t \<le> MAX_FACE_MATCH_THRESHOLD"
  using clamp_range [of MIN_FACE_MATCH_THRESHOLD MAX_FACE_MATCH_THRESHOLD]
  by (auto simp: resolveFaceMatchThreshold_def Let_def result_simps threshold_constants split: option.splits)

text \<open>
  Whatever the document says, the threshold the face comparison must reach lies between
  0.6875 and 0.8: no choice of dates, document type or clock takes it out of that range.
\<close>

theorem threshold_in_range:
  "case resolveFaceMatchThresholdFromDg1 dg1 now of
     Inl _ \<Rightarrow> True
   | Inr t \<Rightarrow> 6875 / 10000 \<le> t \<and> t \<le> 8 / 10"
proof (cases "resolveFaceMatchThresholdFromDg1 dg1 now")
  case (Inr t)
  then have "t = DEFAULT_FACE_MATCH_THRESHOLD \<or> (\<exists>b e. resolveFaceMatchThreshold b e now = Inr t)"
    by (auto simp: resolveFaceMatchThresholdFromDg1_def threshold_result_def result_simps split: if_splits sum.splits)
  then show ?thesis
    using threshold_range Inr by (auto simp: threshold_constants)
qed simp

end
