(* ===== verification/Mrz_Roundtrip.thy ===== *)
theory Mrz_Roundtrip
  imports Mrz
begin

text \<open>
  A passport's data page written in the TD3 layout of ICAO 9303, wrapped as data group 1, reads
  back as the fields it was written from.
\<close>

section \<open>Text without fill characters\<close>

definition fill :: "nat \<Rightarrow> string \<Rightarrow> string" where
  "fill n s = s @ replicate (n - length s) CHR ''<''"

definition field_text :: "nat \<Rightarrow> string \<Rightarrow> bool" where
  "field_text n s \<longleftrightarrow> length s \<le> n \<and> list_all (\<lambda>c. is_mrz_char c \<and> c \<noteq> CHR ''<'') s"

definition no_double :: "char \<Rightarrow> string \<Rightarrow> bool" where
  "no_double c s \<longleftrightarrow> successively (\<lambda>a b. \<not> (a = c \<and> b = c)) s"

text \<open>A name: words of letters and digits separated by single spaces, possibly empty.\<close>

definition name_text :: "string \<Rightarrow> bool" where
  "name_text s \<longleftrightarrow> list_all (\<lambda>c. is_mrz_char c \<and> c \<noteq> CHR ''<'' \<or> c = CHR '' '') s \<and>
     no_double CHR '' '' s \<and> (s \<noteq> [] \<longrightarrow> hd s \<noteq> CHR '' '' \<and> last s \<noteq> CHR '' '')"

definition name_code :: "string \<Rightarrow> string" where
  "name_code s = map (\<lambda>c. if c = CHR '' '' then CHR ''<'' else c) s"

lemma length_fill: "length s \<le> n \<Longrightarrow> length (fill n s) = n"
  by (simp add: fill_def)

lemma mrz_char_not_space: "is_mrz_char c \<Longrightarrow> \<not> is_js_space c"
  by (auto simp: is_mrz_char_def is_js_space_def)

lemma mrz_char_distinct: "is_mrz_char c \<Longrightarrow> c \<noteq> CHR '' '' \<and> c \<noteq> CHR 0x0A \<and> c \<noteq> CHR 0x0D \<and> c \<noteq> CHR ''|''"
  by (auto simp: is_mrz_char_def)

lemma replace_char_none: "c \<notin> set s \<Longrightarrow> replace_char c r s = s"
  by (induction s) (auto simp: replace_char_def)

lemma replace_char_append: "replace_char c r (s @ t) = replace_char c r s @ replace_char c r t"
  by (simp add: replace_char_def)

lemma unfill_fill:
  assumes "field_text n s"
  shows "unfill (fill m s) = s"
proof -
  have "CHR ''<'' \<notin> set s" using assms by (auto simp: field_text_def list_all_iff)
  then have "replace_char CHR ''<'' [] (fill m s) = s"
    by (simp add: fill_def replace_char_append replace_char_none) (simp add: replace_char_def)
  moreover have "js_trim (s @ replicate 0 CHR '' '') = s"
    using assms by (intro js_trim_pad) (auto simp: field_text_def list_all_iff mrz_char_not_space)
  ultimately show ?thesis by (simp add: unfill_def)
qed

section \<open>Names\<close>

lemma replace_fill_pairs_prefix:
  assumes "no_double CHR ''<'' a" and "a \<noteq> [] \<longrightarrow> last a \<noteq> CHR ''<''"
  shows "replace_fill_pairs (a @ b) = a @ replace_fill_pairs b"
  using assms
proof (induction a rule: induct_list012)
  case 1
  then show ?case by simp
next
  case (2 x)
  then show ?case by (cases b) auto
next
  case (3 x y zs)
  then show ?case by (auto simp: no_double_def)
qed

lemma replace_fill_pairs_fill:
  "replace_fill_pairs (replicate k CHR ''<'') =
     replicate (k div 2) CHR ''|'' @ replicate (k mod 2) CHR ''<''"
proof (induction k rule: less_induct)
  case (less k)
  consider "k = 0" | "k = 1" | j where "k = Suc (Suc j)" by (metis One_nat_def not0_implies_Suc)
  then show ?case
  proof cases
    case 3
    with less.IH [of j] show ?thesis by simp
  qed simp_all
qed

lemma join_split_other: "join_with [d] (split_on c s) = map (\<lambda>x. if x = c then d else x) s"
proof (induction s)
  case Nil
  then show ?case by simp
next
  case (Cons x xs)
  obtain p ps where p: "split_on c xs = p # ps" by (cases "split_on c xs") auto
  with Cons show ?case by (cases ps) auto
qed

lemma name_code_props:
  assumes "name_text s"
  shows "no_double CHR ''<'' (name_code s)" "name_code s \<noteq> [] \<longrightarrow> last (name_code s) \<noteq> CHR ''<''"
    "CHR ''|'' \<notin> set (name_code s)" "map (\<lambda>x. if x = CHR ''<'' then CHR '' '' else x) (name_code s) = s"
    "CHR ''<'' \<notin> set s" "s \<noteq> [] \<longrightarrow> \<not> is_js_space (hd s) \<and> \<not> is_js_space (last s)"
proof -
  have el: "\<And>c. c \<in> set s \<Longrightarrow> is_mrz_char c \<and> c \<noteq> CHR ''<'' \<or> c = CHR '' ''"
    using assms by (auto simp: name_text_def list_all_iff)
  show lt: "CHR ''<'' \<notin> set s" using el [of "CHR ''<''"] by auto
  show "no_double CHR ''<'' (name_code s)"
    using assms el unfolding no_double_def name_code_def name_text_def successively_map
    by (auto elim!: successively_mono simp: mrz_char_distinct split: if_splits)
  show "name_code s \<noteq> [] \<longrightarrow> last (name_code s) \<noteq> CHR ''<''"
    using assms el [OF last_in_set] by (auto simp: name_code_def name_text_def last_map)
  show "CHR ''|'' \<notin> set (name_code s)" using el mrz_char_distinct by (fastforce simp: name_code_def)
  show "map (\<lambda>x. if x = CHR ''<'' then CHR '' '' else x) (name_code s) = s"
    using lt by (auto simp: name_code_def intro!: map_idI)
  show "s \<noteq> [] \<longrightarrow> \<not> is_js_space (hd s) \<and> \<not> is_js_space (last s)"
    using assms el [OF last_in_set] el [OF hd_in_set] mrz_char_not_space
    by (auto simp: name_text_def)
qed

lemma parseNames_code:
  assumes s: "name_text sur" and g: "name_text given"
  shows "parseNames (fill n (name_code sur @ ''<<'' @ name_code given)) = (given, sur)"
proof -
  let ?k = "n - length (name_code sur @ ''<<'' @ name_code given)"
  let ?Y = "name_code given @ replicate (?k div 2) CHR ''|'' @ replicate (?k mod 2) CHR ''<''"
  note ps = name_code_props [OF s] and pg = name_code_props [OF g]
  have raw: "replace_fill_pairs (fill n (name_code sur @ ''<<'' @ name_code given)) =
      name_code sur @ CHR ''|'' # ?Y"
    using replace_fill_pairs_prefix [OF ps(1,2)] replace_fill_pairs_prefix [OF pg(1,2)]
    by (simp add: fill_def replace_fill_pairs_fill)
  have pieces: "split_on CHR ''|'' (name_code sur @ CHR ''|'' # ?Y) = name_code sur # split_on CHR ''|'' ?Y"
    by (rule split_on_append [OF ps(3)])
  have joined: "join_with '' '' (split_on CHR ''|'' ?Y) =
      name_code given @ replicate (?k div 2) CHR '' '' @ replicate (?k mod 2) CHR ''<''"
    using pg(3) by (auto simp: join_split_other intro!: map_idI)
  have rep: "replace_char CHR ''<'' '' '' (name_code given @ replicate (?k div 2) CHR '' '' @ replicate (?k mod 2) CHR ''<'')
      = given @ replicate (?k div 2 + ?k mod 2) CHR '' ''"
    using pg(4) by (simp add: replace_char_map replicate_add)
  have clean: "replace_char CHR ''<'' [] (given @ replicate m CHR '' '') = given @ replicate m CHR '' ''" for m
    using pg(5) by (intro replace_char_none) auto
  have surn: "replace_char CHR ''<'' '' '' (name_code sur) = sur" "replace_char CHR ''<'' [] sur = sur"
    using ps(4,5) by (simp_all add: replace_char_map replace_char_none)
  have first: "js_trim (unfill (replace_char CHR ''<'' '' '' (name_code sur))) = sur"
    using js_trim_pad [OF ps(6), of 0] by (simp add: surn unfill_def)
  have rest: "js_trim (unfill (replace_char CHR ''<'' '' '' (join_with '' '' (split_on CHR ''|'' ?Y)))) = given"
    unfolding joined rep unfill_def clean js_trim_pad [OF pg(6)]
    using js_trim_pad [OF pg(6), of 0] by simp
  have parts: "at_opt (name_code sur # split_on CHR ''|'' ?Y) 0 = Some (name_code sur)"
    "drop 1 (name_code sur # split_on CHR ''|'' ?Y) = split_on CHR ''|'' ?Y"
    by simp_all
  show ?thesis unfolding parseNames_def Let_def raw pieces parts option.case first rest ..
qed

section \<open>A TD3 data page\<close>

text \<open>The five check digits are arbitrary: the parser skips them.\<close>

record td3_page =
  pg_type :: string
  pg_issuer :: string
  pg_surname :: string
  pg_given :: string
  pg_number :: string
  pg_nationality :: string
  pg_birth :: string
  pg_sex :: char
  pg_expiry :: string
  pg_optional :: string
  pg_checks :: "char list"

definition td3_line1 :: "td3_page \<Rightarrow> string" where
  "td3_line1 p = fill 2 (pg_type p) @ fill 3 (pg_issuer p) @
     fill 39 (name_code (pg_surname p) @ ''<<'' @ name_code (pg_given p))"

definition td3_line2 :: "td3_page \<Rightarrow> string" where
  "td3_line2 p = fill 9 (pg_number p) @ [pg_checks p ! 0] @ fill 3 (pg_nationality p) @ pg_birth p @
     [pg_checks p ! 1] @ [pg_sex p] @ pg_expiry p @ [pg_checks p ! 2] @ fill 14 (pg_optional p) @
     [pg_checks p ! 3, pg_checks p ! 4]"

definition td3_dg1 :: "td3_page \<Rightarrow> bytes" where
  "td3_dg1 p = [0x61, 91, 0x5f, 0x1f, 88] @ ascii_bytes (td3_line1 p @ td3_line2 p)"

definition td3_page_ok :: "td3_page \<Rightarrow> bool" where
  "td3_page_ok p \<longleftrightarrow>
     field_text 2 (pg_type p) \<and> take 1 (pg_type p) = ''P'' \<and> field_text 3 (pg_issuer p) \<and>
     name_text (pg_surname p) \<and> name_text (pg_given p) \<and>
     length (pg_surname p) + length (pg_given p) \<le> 37 \<and>
     field_text 9 (pg_number p) \<and> field_text 3 (pg_nationality p) \<and>
     six_digit_date (pg_birth p) \<and> six_digit_date (pg_expiry p) \<and>
     is_mrz_char (pg_sex p) \<and> field_text 14 (pg_optional p) \<and>
     length (pg_checks p) = 5 \<and> list_all is_mrz_char (pg_checks p)"

lemma is_mrz_fill [simp]: "is_mrz_char CHR ''<''"
  by (simp add: is_mrz_char_def)

lemma mrz_fill: "list_all is_mrz_char s \<Longrightarrow> list_all is_mrz_char (fill n s)"
  by (auto simp: fill_def list_all_iff)

lemma mrz_field: "field_text n s \<Longrightarrow> list_all is_mrz_char (fill m s)"
  by (rule mrz_fill) (simp add: field_text_def list_all_iff)

lemma mrz_name_code:
  assumes "name_text s"
  shows "list_all is_mrz_char (name_code s)"
proof -
  from assms have "list_all (\<lambda>c. is_mrz_char c \<and> c \<noteq> CHR ''<'' \<or> c = CHR '' '') s"
    by (simp only: name_text_def)
  then show ?thesis by (induction s) (simp_all add: name_code_def, blast)
qed

lemma digit_is_mrz: "is_digit c \<Longrightarrow> is_mrz_char c"
  by (simp add: is_digit_def is_mrz_char_def)

lemma mrz_date: "six_digit_date s \<Longrightarrow> list_all is_mrz_char s"
  by (auto simp: six_digit_date_def list_all_iff digit_is_mrz)

lemma td3_lengths:
  assumes "td3_page_ok p"
  shows "length (td3_line1 p) = 44" "length (td3_line2 p) = 44"
  using assms
  by (simp_all add: td3_page_ok_def td3_line1_def td3_line2_def field_text_def length_fill
      name_code_def six_digit_date_def)

lemma td3_chars:
  assumes ok: "td3_page_ok p"
  shows "list_all is_mrz_char (td3_line1 p @ td3_line2 p)"
proof -
  have "is_mrz_char (pg_checks p ! k)" if "k < 5" for k
    using ok that by (simp add: td3_page_ok_def list_all_length)
  moreover have "list_all is_mrz_char (fill 39 (name_code (pg_surname p) @ ''<<'' @ name_code (pg_given p)))"
    using ok mrz_name_code by (intro mrz_fill) (simp add: td3_page_ok_def)
  ultimately show ?thesis
    using ok mrz_field [of 2 "pg_type p" 2] mrz_field [of 3 "pg_issuer p" 3] mrz_field [of 9 "pg_number p" 9]
      mrz_field [of 3 "pg_nationality p" 3] mrz_field [of 14 "pg_optional p" 14] mrz_date
    unfolding td3_line1_def td3_line2_def td3_page_ok_def
    by (simp only: list_all_append list.pred_inject)
qed

lemma upper_mrz: "is_mrz_char c \<Longrightarrow> upper_ascii (of_char c) = [c]"
  by (auto simp: is_mrz_char_def upper_ascii_def)

lemma normalize_mrz_chars:
  assumes "list_all is_mrz_char t" and "length t \<in> {TD1_TOTAL_LENGTH, TD2_TOTAL_LENGTH, TD3_TOTAL_LENGTH}"
  shows "normalizeMrzText (map of_char t) = Inr t"
proof -
  have "concat (map upper_ascii (map of_char t)) = t"
    using assms(1) by (induction t) (simp_all add: upper_mrz)
  moreover have "filter P t = t" if "\<And>c. is_mrz_char c \<Longrightarrow> P c" for P
    using assms(1) that by (simp add: filter_id_conv list_all_iff)
  ultimately show ?thesis using assms(2) mrz_char_distinct by (auto simp: normalizeMrzText_def)
qed

lemma mrz_char_ascii: "is_mrz_char c \<Longrightarrow> (of_char c :: nat) < 128"
  by (auto simp: is_mrz_char_def)

lemma decode_mrz_chars:
  assumes "list_all is_mrz_char t"
  shows "utf8_decode (ascii_bytes t) = map of_char t"
proof -
  have "\<forall>b \<in> set (ascii_bytes t). unat b < 128"
    using assms mrz_char_ascii by (auto simp: ascii_bytes_def ascii_bytes_unat list_all_iff)
  then show ?thesis by (simp add: utf8_decode_ascii)
qed

lemma extract_td3:
  assumes ok: "td3_page_ok p"
  shows "extractMrzTextFromDg1 (td3_dg1 p) = Inr (td3_line1 p @ td3_line2 p)"
proof -
  let ?t = "td3_line1 p @ td3_line2 p"
  have len: "length ?t = 88" using td3_lengths [OF ok] by simp
  have norm: "normalizeMrzText (utf8_decode (ascii_bytes ?t)) = Inr ?t"
    using td3_chars [OF ok] len by (simp only: decode_mrz_chars, intro normalize_mrz_chars)
      (auto simp: mrz_lengths)
  have inner: "readTlv (0x5f # 0x1f # 88 # ascii_bytes ?t) 0 =
      Inr \<lparr>tlv_tag = MRZ_DATA_TAG, tlv_bytes = ascii_bytes ?t, tlv_next = 91\<rparr>"
    using readTlv_short2 [of "0x5f" "0x1f" 88 "ascii_bytes ?t"] len by (simp add: MRZ_DATA_TAG_def)
  have outer: "readTlv (td3_dg1 p) 0 =
      Inr \<lparr>tlv_tag = DG1_ROOT_TAG, tlv_bytes = 0x5f # 0x1f # 88 # ascii_bytes ?t, tlv_next = 93\<rparr>"
    using readTlv_short [of "0x61" 91 "0x5f # 0x1f # 88 # ascii_bytes ?t"] len
    by (simp add: td3_dg1_def DG1_ROOT_TAG_def)
  have "mrz_inner (0x5f # 0x1f # 88 # ascii_bytes ?t) 0 = Inr (Some ?t)"
    by (subst mrz_inner.simps) (simp add: inner norm del: map_append)
  then have "mrz_outer (td3_dg1 p) 0 = Inr (Some ?t)"
    using outer by (subst mrz_outer.simps) (simp add: td3_dg1_def DG1_ROOT_TAG_def MRZ_DATA_TAG_def)
  then show ?thesis by (simp add: extractMrzTextFromDg1_def readMrzTextFromTlv_def)
qed

text \<open>The fields of line two stand where the parser cuts them.\<close>

lemma td3_line2_fields:
  assumes ok: "td3_page_ok p"
  shows "js_slice (td3_line2 p) 0 9 = fill 9 (pg_number p)"
    "js_slice (td3_line2 p) 10 13 = fill 3 (pg_nationality p)"
    "js_slice (td3_line2 p) 13 19 = pg_birth p" "js_slice (td3_line2 p) 21 27 = pg_expiry p"
    "js_slice (td3_line2 p) 28 42 = fill 14 (pg_optional p)" "mrzChar (td3_line2 p) 20 = [pg_sex p]"
proof -
  from ok have l: "length (fill 9 (pg_number p)) = 9" "length (fill 3 (pg_nationality p)) = 3"
    "length (pg_birth p) = 6" "length (pg_expiry p) = 6" "length (fill 14 (pg_optional p)) = 14"
    by (simp_all add: td3_page_ok_def length_fill field_text_def six_digit_date_def)
  then show "js_slice (td3_line2 p) 0 9 = fill 9 (pg_number p)"
    "js_slice (td3_line2 p) 10 13 = fill 3 (pg_nationality p)"
    "js_slice (td3_line2 p) 13 19 = pg_birth p" "js_slice (td3_line2 p) 21 27 = pg_expiry p"
    "js_slice (td3_line2 p) 28 42 = fill 14 (pg_optional p)"
    by (simp_all add: td3_line2_def js_slice_def drop_Cons' take_Cons')
  from l show "mrzChar (td3_line2 p) 20 = [pg_sex p]"
    by (simp add: mrzChar_def td3_line2_def at_opt_def nth_append nth_Cons')
qed

lemma td3_line1_fields:
  assumes ok: "td3_page_ok p"
  shows "js_slice (td3_line1 p) 0 2 = fill 2 (pg_type p)" "js_slice (td3_line1 p) 2 5 = fill 3 (pg_issuer p)"
    "js_slice (td3_line1 p) 5 44 = fill 39 (name_code (pg_surname p) @ ''<<'' @ name_code (pg_given p))"
proof -
  from ok have "length (fill 2 (pg_type p)) = 2" "length (fill 3 (pg_issuer p)) = 3"
    "length (fill 39 (name_code (pg_surname p) @ ''<<'' @ name_code (pg_given p))) = 39"
    by (simp_all add: td3_page_ok_def length_fill field_text_def name_code_def)
  then show "js_slice (td3_line1 p) 0 2 = fill 2 (pg_type p)" "js_slice (td3_line1 p) 2 5 = fill 3 (pg_issuer p)"
    "js_slice (td3_line1 p) 5 44 = fill 39 (name_code (pg_surname p) @ ''<<'' @ name_code (pg_given p))"
    by (simp_all add: td3_line1_def js_slice_def)
qed

definition date_in_range :: "string \<Rightarrow> bool" where
  "date_in_range v \<longleftrightarrow> six_digit_date v \<and>
     1 \<le> parse_int (js_slice v 2 4) \<and> parse_int (js_slice v 2 4) \<le> 12 \<and>
     1 \<le> parse_int (js_slice v 4 6) \<and> parse_int (js_slice v 4 6) \<le> 31"

definition resolved_date :: "int \<Rightarrow> string \<Rightarrow> string" where
  "resolved_date maxYear v =
     iso_text (latest_year maxYear (parse_int (js_slice v 0 2))) (parse_int (js_slice v 2 4))
       (parse_int (js_slice v 4 6))"

lemma td3_parse:
  assumes ok: "td3_page_ok p" and dates: "date_in_range (pg_birth p)" "date_in_range (pg_expiry p)"
    and now: "1000 \<le> ud_year now" "ud_year now < 9900"
  shows "parseTd3MrzClaims (td3_dg1 p) now = Inr
    \<lparr>cl_birthDateIso = resolved_date (ud_year now) (pg_birth p), cl_documentNumber = pg_number p,
     cl_documentType = pg_type p, cl_expiryDateIso = resolved_date (ud_year now + 50) (pg_expiry p),
     cl_givenNames = pg_given p, cl_issuingCountry = pg_issuer p, cl_nationality = pg_nationality p,
     cl_optionalData = pg_optional p,
     cl_sex = (if pg_sex p = CHR ''<'' then ''X'' else [pg_sex p]), cl_surname = pg_surname p\<rparr>"
proof -
  note l = td3_lengths [OF ok] and f1 = td3_line1_fields [OF ok] and f2 = td3_line2_fields [OF ok]
  have det: "detectMrzFormat (td3_line1 p @ td3_line2 p) = Some (Td3, [td3_line1 p, td3_line2 p])"
    using l by (simp add: detectMrzFormat_def mrz_lengths js_slice_def)
  have names: "parseNames (js_slice (td3_line1 p) 5 44) = (pg_given p, pg_surname p)"
    using ok unfolding f1 by (simp only: td3_page_ok_def parseNames_code)
  have unf: "unfill (fill n s) = s" if "field_text n s" for n s
    by (rule unfill_fill [OF that])
  from ok have fields: "unfill (fill 2 (pg_type p)) = pg_type p" "unfill (fill 3 (pg_issuer p)) = pg_issuer p"
    "unfill (fill 9 (pg_number p)) = pg_number p" "unfill (fill 3 (pg_nationality p)) = pg_nationality p"
    "unfill (fill 14 (pg_optional p)) = pg_optional p" and P: "take 1 (pg_type p) = ''P''"
    unfolding td3_page_ok_def by (simp_all only: unf)
  have "buildBirthDateIso (pg_birth p) now = Inr (resolved_date (ud_year now) (pg_birth p))"
    "buildExpiryDateIso (pg_expiry p) now = Inr (resolved_date (ud_year now + 50) (pg_expiry p))"
    using dates now expand_exact [of "ud_year now - 130" "ud_year now"]
      expand_exact [of "ud_year now - 50" "ud_year now + 50"]
    by (simp_all add: buildBirthDateIso_def buildExpiryDateIso_def date_in_range_def resolved_date_def
        Let_def MIN_BIRTH_YEAR_OFFSET_def MAX_EXPIRY_PAST_OFFSET_def MAX_EXPIRY_FUTURE_OFFSET_def)
  then have "parseTd3Lines [td3_line1 p, td3_line2 p] now = Inr
    \<lparr>cl_birthDateIso = resolved_date (ud_year now) (pg_birth p), cl_documentNumber = pg_number p,
     cl_documentType = pg_type p, cl_expiryDateIso = resolved_date (ud_year now + 50) (pg_expiry p),
     cl_givenNames = pg_given p, cl_issuingCountry = pg_issuer p, cl_nationality = pg_nationality p,
     cl_optionalData = pg_optional p,
     cl_sex = (if pg_sex p = CHR ''<'' then ''X'' else [pg_sex p]), cl_surname = pg_surname p\<rparr>"
    using names fields f1(1,2) f2
    by (simp add: parseTd3Lines_def line_at_def at_opt_def date_result_def normalizeSex_def Let_def)
  with P show ?thesis
    by (simp add: parseTd3MrzClaims_def parseDg1Claims_def extract_td3 [OF ok] det)
qed


definition sample_page :: td3_page where
  "sample_page = \<lparr>pg_type = ''P'', pg_issuer = ''UTO'', pg_surname = ''DE LA CRUZ'', pg_given = ''ANNA MARIA'',
     pg_number = ''L898902C3'', pg_nationality = ''UTO'', pg_birth = ''740812'', pg_sex = CHR ''F'',
     pg_expiry = ''320415'', pg_optional = ''ZE184226B'', pg_checks = ''62910''\<rparr>"

definition sample_now :: utc_date where
  "sample_now = \<lparr>ud_year = 2026, ud_month = 1, ud_day = 1, ud_millis = 0\<rparr>"


lemma sample_page_parse:
  "parseTd3MrzClaims (td3_dg1 sample_page) sample_now = Inr
    \<lparr>cl_birthDateIso = ''1974-08-12'', cl_documentNumber = ''L898902C3'', cl_documentType = ''P'',
     cl_expiryDateIso = ''2032-04-15'', cl_givenNames = ''ANNA MARIA'', cl_issuingCountry = ''UTO'',
     cl_nationality = ''UTO'', cl_optionalData = ''ZE184226B'', cl_sex = ''F'', cl_surname = ''DE LA CRUZ''\<rparr>"
proof -
  have "td3_page_ok sample_page" "date_in_range (pg_birth sample_page)" "date_in_range (pg_expiry sample_page)"
    "1000 \<le> ud_year sample_now" "ud_year sample_now < 9900"
    "resolved_date (ud_year sample_now) (pg_birth sample_page) = ''1974-08-12''"
    "resolved_date (ud_year sample_now + 50) (pg_expiry sample_page) = ''2032-04-15''"
    by code_simp+
  from td3_parse [OF this(1-5)] this(6,7) show ?thesis by (simp add: sample_page_def)
qed

lemma sample_page_claims:
  "parseDg1Claims (td3_dg1 sample_page) sample_now = Inr
    \<lparr>cl_birthDateIso = ''1974-08-12'', cl_documentNumber = ''L898902C3'', cl_documentType = ''P'',
     cl_expiryDateIso = ''2032-04-15'', cl_givenNames = ''ANNA MARIA'', cl_issuingCountry = ''UTO'',
     cl_nationality = ''UTO'', cl_optionalData = ''ZE184226B'', cl_sex = ''F'', cl_surname = ''DE LA CRUZ''\<rparr>"
  using sample_page_parse by (auto simp: parseTd3MrzClaims_def result_simps split: if_splits)

end
