(* ===== verification/Share_Contract.thy ===== *)
theory Share_Contract
  imports Js_Text "HOL-Library.List_Lexorder"
begin

text \<open>
  The share contract of a session: the claim catalogue
  (\<open>packages/config/src/share-claims.ts\<close>), the validation and normalization of requested
  fields (\<open>apps/api/src/v1/sessions/domain/share-contract/\<close>) and the fields a stored session
  is resolved to (\<open>apps/api/src/v1/verify/public-share-fields.ts\<close>). Untyped input is a JSON
  value; an object is its list of entries in order, with distinct keys.
\<close>

section \<open>JSON values\<close>

datatype json =
  JNull | JBool bool | JNum int | JStr string | JArr "json list" | JObj "(string \<times> json) list"

text \<open>\<open>isRecord\<close>, with \<open>undefined\<close> as \<open>None\<close>; the entries of a record.\<close>

definition isRecord :: "json option \<Rightarrow> bool" where
  "isRecord v = (case v of Some (JObj _) \<Rightarrow> True | _ \<Rightarrow> False)"

definition entries_of :: "json option \<Rightarrow> (string \<times> json) list" where
  "entries_of v = (case v of Some (JObj es) \<Rightarrow> es | _ \<Rightarrow> [])"

section \<open>Claim catalogue\<close>

definition AGE_OVER_PREFIX :: string where "AGE_OVER_PREFIX = ''age_over_''"

definition STATIC_CLAIMS :: "string list" where
  "STATIC_CLAIMS =
     [''document_type_code'', ''issuing_country_code'', ''family_name'', ''given_names'',
      ''document_number'', ''nationality_code'', ''date_of_birth'', ''sex_marker'',
      ''document_expiry_date'', ''mrz_optional_data'', ''kayle_document_id'', ''kayle_human_id'']"

definition maxShareFields :: nat where "maxShareFields = 32"
definition maxReasonLength :: nat where "maxReasonLength = 200"
definition minAgeThreshold :: nat where "minAgeThreshold = 12"
definition maxAgeThreshold :: nat where "maxAgeThreshold = 130"

definition claimLabels :: "(string \<times> string) list" where
  "claimLabels =
     [(''document_type_code'', ''Document Type Code''),
      (''issuing_country_code'', ''Issuing Country Code''),
      (''family_name'', ''Family Name''), (''given_names'', ''Given Names''),
      (''document_number'', ''Document Number''), (''nationality_code'', ''Nationality Code''),
      (''date_of_birth'', ''Date of Birth''), (''sex_marker'', ''Sex Marker''),
      (''document_expiry_date'', ''Document Expiry Date''),
      (''mrz_optional_data'', ''MRZ Optional Data''),
      (''kayle_document_id'', ''Kayle Document ID''), (''kayle_human_id'', ''Kayle Human ID'')]"

definition isKnownStaticClaim :: "string \<Rightarrow> bool" where
  "isKnownStaticClaim claimKey \<longleftrightarrow> claimKey \<in> set STATIC_CLAIMS"

definition isAgeOverClaim :: "string \<Rightarrow> bool" where
  "isAgeOverClaim claimKey \<longleftrightarrow> take (length AGE_OVER_PREFIX) claimKey = AGE_OVER_PREFIX"

definition parseAgeOverThreshold :: "string \<Rightarrow> nat option" where
  "parseAgeOverThreshold claimKey =
     (if \<not> isAgeOverClaim claimKey then None
      else
        let thresholdText = drop (length AGE_OVER_PREFIX) claimKey
        in if thresholdText = [] \<or> \<not> list_all is_digit thresholdText then None
           else
             let threshold = read_nat thresholdText
             in if threshold < minAgeThreshold \<or> maxAgeThreshold < threshold then None
                else Some threshold)"

definition isDOBClaim :: "string \<Rightarrow> bool" where
  "isDOBClaim claimKey \<longleftrightarrow> claimKey = ''date_of_birth''"

text \<open>A threshold of 0 would count as absent; the minimum excludes it.\<close>

definition getClaimLabel :: "string \<Rightarrow> string" where
  "getClaimLabel claimKey =
     (case parseAgeOverThreshold claimKey of
        Some (Suc n) \<Rightarrow> ''Age Over '' @ show_nat (Suc n)
      | _ \<Rightarrow> (case map_of claimLabels claimKey of Some l \<Rightarrow> l | None \<Rightarrow> claimKey))"

definition defaultReasonForClaim :: "string \<Rightarrow> string" where
  \<open>defaultReasonForClaim claimKey = ''Sharing "'' @ getClaimLabel claimKey @ ''"''\<close>

section \<open>Key order\<close>

text \<open>
  \<open>localeCompare\<close> on claim keys. In the root collation the underscore stands before the digits
  and these before the letters, so the order is that of the weights below on keys of lower-case
  letters, digits and underscores, which all claim keys are. The order is total on all strings.
\<close>

datatype claim_key = Claim string

definition collation_weights :: "string \<Rightarrow> nat list" where
  "collation_weights s = map (\<lambda>c. if c = CHR ''_'' then 0 else of_char c + 1) s"

lemma collation_weights_inj: "collation_weights s = collation_weights t \<longleftrightarrow> s = t"
proof
  assume "collation_weights s = collation_weights t"
  then show "s = t"
    unfolding collation_weights_def by (rule map_injective) (auto simp: inj_def split: if_splits)
qed simp

instantiation claim_key :: linorder
begin

fun less_eq_claim_key :: "claim_key \<Rightarrow> claim_key \<Rightarrow> bool" where
  "less_eq_claim_key (Claim s) (Claim t) \<longleftrightarrow> collation_weights s \<le> collation_weights t"

fun less_claim_key :: "claim_key \<Rightarrow> claim_key \<Rightarrow> bool" where
  "less_claim_key (Claim s) (Claim t) \<longleftrightarrow> collation_weights s < collation_weights t"

instance
proof
  fix x y z :: claim_key
  show "x < y \<longleftrightarrow> x \<le> y \<and> \<not> y \<le> x" by (cases x; cases y) auto
  show "x \<le> x" by (cases x) auto
  show "x \<le> y \<Longrightarrow> y \<le> z \<Longrightarrow> x \<le> z" by (cases x; cases y; cases z) auto
  show "x \<le> y \<Longrightarrow> y \<le> x \<Longrightarrow> x = y"
    by (cases x; cases y) (auto simp: collation_weights_inj dest: order_antisym)
  show "x \<le> y \<or> y \<le> x" by (cases x; cases y) auto
qed

end

section \<open>Validation\<close>

datatype share_error_code =
  INVALID_SHARE_FIELDS | UNKNOWN_CLAIM_KEY | INVALID_AGE_GATE_KEY | MULTIPLE_AGE_GATES_NOT_ALLOWED
| REASON_REQUIRED | REASON_TOO_LONG | TOO_MANY_SHARE_FIELDS

datatype share_source = Src_default | Src_rc

record requested_field =
  rf_required :: bool
  rf_reason :: string

record share_field =
  sf_required :: bool
  sf_reason :: string
  sf_source :: share_source

type_synonym requested_fields = "(string, requested_field) jsmap"
type_synonym share_fields = "(string, share_field) jsmap"

text \<open>\<open>s.replace(/\s+/g, " ")\<close>\<close>

fun collapse_spaces :: "string \<Rightarrow> string" where
  "collapse_spaces [] = []"
| "collapse_spaces [c] = (if is_js_space c then '' '' else [c])"
| "collapse_spaces (c # d # s) =
     (if is_js_space c then
        (if is_js_space d then collapse_spaces (d # s) else CHR '' '' # collapse_spaces (d # s))
      else c # collapse_spaces (d # s))"

text \<open>A property read \<open>value.name\<close>; \<open>undefined\<close> when absent.\<close>

definition jget :: "(string \<times> json) list \<Rightarrow> string \<Rightarrow> json option" where
  "jget es name = map_of es name"

definition validateRequestedField ::
  "string \<Rightarrow> json \<Rightarrow> bool \<Rightarrow> share_error_code + requested_field" where
  "validateRequestedField claimKey v allowEmptyReason =
     (if \<not> isRecord (Some v) then Inl INVALID_SHARE_FIELDS
      else
        let es = entries_of (Some v)
        in case jget es ''required'' of
             Some (JBool required) \<Rightarrow>
               (case jget es ''reason'' of
                  Some (JStr reason0) \<Rightarrow>
                    let reason = js_trim reason0
                    in if length reason = 0 \<and> \<not> allowEmptyReason then Inl REASON_REQUIRED
                       else if maxReasonLength < length reason then Inl REASON_TOO_LONG
                       else if isAgeOverClaim claimKey \<and> parseAgeOverThreshold claimKey = None
                         then Inl INVALID_AGE_GATE_KEY
                       else if \<not> (isAgeOverClaim claimKey \<or> isKnownStaticClaim claimKey)
                         then Inl UNKNOWN_CLAIM_KEY
                       else Inr \<lparr>rf_required = required, rf_reason = collapse_spaces reason\<rparr>
                | _ \<Rightarrow> Inl REASON_REQUIRED)
           | _ \<Rightarrow> Inl INVALID_SHARE_FIELDS)"

text \<open>The loop over the entries, with the age gate count and the fields validated so far.\<close>

fun validate_entries ::
  "bool \<Rightarrow> (string \<times> json) list \<Rightarrow> nat \<Rightarrow> requested_fields \<Rightarrow> share_error_code + requested_fields" where
  "validate_entries hasDOB [] ageGateCount validated = Inr validated"
| "validate_entries hasDOB ((claimKey, rawField) # es) ageGateCount validated =
     (let allowEmptyReason = (hasDOB \<and> isAgeOverClaim claimKey)
      in case validateRequestedField claimKey rawField allowEmptyReason of
           Inl e \<Rightarrow> Inl e
         | Inr field \<Rightarrow>
             let count = (if isAgeOverClaim claimKey then ageGateCount + 1 else ageGateCount)
             in if isAgeOverClaim claimKey \<and> 1 < count then Inl MULTIPLE_AGE_GATES_NOT_ALLOWED
                else validate_entries hasDOB es count (jm_set claimKey field validated))"

definition validateShareFields :: "json option \<Rightarrow> share_error_code + requested_fields" where
  "validateShareFields v =
     (if \<not> isRecord v then Inl INVALID_SHARE_FIELDS
      else
        let entries = entries_of v
        in if maxShareFields < length entries then Inl TOO_MANY_SHARE_FIELDS
           else
             let hasDOB = list_ex (\<lambda>e. isDOBClaim (fst e)) entries
             in validate_entries hasDOB entries 0 [])"

section \<open>Normalization\<close>

definition toSortedShareFields :: "share_fields \<Rightarrow> share_fields" where
  "toSortedShareFields fs = sort_key (\<lambda>e. Claim (fst e)) fs"

definition makeDefaultEntry :: "string \<Rightarrow> bool \<Rightarrow> share_field" where
  "makeDefaultEntry claimKey required =
     \<lparr>sf_required = required, sf_reason = defaultReasonForClaim claimKey, sf_source = Src_default\<rparr>"

definition createDefaultShareFields :: share_fields where
  "createDefaultShareFields =
     toSortedShareFields
       (foldl (\<lambda>defaults claimKey.
                 jm_set claimKey (makeDefaultEntry claimKey (claimKey = ''kayle_document_id'')) defaults)
          [] STATIC_CLAIMS)"

definition to_rc :: "requested_field \<Rightarrow> share_field" where
  "to_rc entry = \<lparr>sf_required = rf_required entry, sf_reason = rf_reason entry, sf_source = Src_rc\<rparr>"

definition link_dob_age :: "share_fields \<Rightarrow> share_fields" where
  "link_dob_age normalized =
     (case (jm_get normalized ''date_of_birth'', find isAgeOverClaim (map fst normalized)) of
        (Some dob, Some ageGateKey) \<Rightarrow>
          (let ageGate = the (jm_get normalized ageGateKey)
           in if sf_required dob \<or> sf_required ageGate then
                jm_set ageGateKey (ageGate\<lparr>sf_required := True\<rparr>)
                  (jm_set ''date_of_birth'' (dob\<lparr>sf_required := True\<rparr>) normalized)
              else normalized)
      | _ \<Rightarrow> normalized)"

definition require_document_id :: "share_fields \<Rightarrow> share_fields" where
  "require_document_id normalized =
     (case jm_get normalized ''kayle_document_id'' of
        Some docId \<Rightarrow> jm_set ''kayle_document_id'' (docId\<lparr>sf_required := True\<rparr>) normalized
      | None \<Rightarrow> jm_set ''kayle_document_id'' (makeDefaultEntry ''kayle_document_id'' True) normalized)"

definition normalizeRequestedShareFields :: "requested_fields \<Rightarrow> share_fields" where
  "normalizeRequestedShareFields requested =
     (let normalized = foldl (\<lambda>m (claimKey, entry). jm_set claimKey (to_rc entry) m) [] requested
      in toSortedShareFields (require_document_id (link_dob_age normalized)))"

definition normalizeShareFields :: "json option \<Rightarrow> share_error_code + share_fields" where
  "normalizeShareFields v =
     (if v = None then Inr createDefaultShareFields
      else case validateShareFields v of
             Inl e \<Rightarrow> Inl e
           | Inr requested \<Rightarrow> Inr (normalizeRequestedShareFields requested))"

section \<open>Fields of a stored session\<close>

definition blockedShareFieldKeys :: "string list" where
  "blockedShareFieldKeys = [''document_photo'']"

definition removeBlockedShareFields :: "json option \<Rightarrow> json option" where
  "removeBlockedShareFields v =
     (if \<not> isRecord v then v
      else Some (JObj (filter (\<lambda>e. fst e \<notin> set blockedShareFieldKeys) (entries_of v))))"

definition readShareFieldSources :: "json option \<Rightarrow> (string, share_source) jsmap" where
  "readShareFieldSources v =
     (if \<not> isRecord v then []
      else foldl (\<lambda>sources (key, field).
             if \<not> isRecord (Some field) then sources
             else if jget (entries_of (Some field)) ''source'' = Some (JStr ''default'')
               then jm_set key Src_default sources
             else if jget (entries_of (Some field)) ''source'' = Some (JStr ''rc'')
               then jm_set key Src_rc sources
             else sources) [] (entries_of v))"

definition applyExistingSources :: "share_fields \<Rightarrow> (string, share_source) jsmap \<Rightarrow> share_fields" where
  "applyExistingSources shareFields existingSources =
     (if length existingSources = 0 then shareFields
      else foldl (\<lambda>m (key, field).
             jm_set key (field\<lparr>sf_source := (case jm_get existingSources key of
                                              Some src \<Rightarrow> src | None \<Rightarrow> sf_source field)\<rparr>) m)
           [] shareFields)"

definition resolvePublicShareFields :: "json option \<Rightarrow> share_fields" where
  "resolvePublicShareFields shareFieldsInput =
     (let allowed = removeBlockedShareFields shareFieldsInput;
          existingSources = readShareFieldSources allowed
      in case normalizeShareFields allowed of
           Inl _ \<Rightarrow> createDefaultShareFields
         | Inr fs \<Rightarrow> applyExistingSources fs existingSources)"

definition getShareFieldKeys :: "share_fields \<Rightarrow> string list" where
  "getShareFieldKeys shareFields = sort_key Claim (map fst shareFields)"

end
