(* ===== verification/Share_Laws.thy ===== *)
theory Share_Laws
  imports Share_Contract "HOL-Library.Multiset"
begin

text \<open>
  What a normalized share contract satisfies, and that a stored contract resolves to itself.
\<close>

section \<open>Reasons\<close>

lemma collapse_hd: "s \<noteq> [] \<Longrightarrow> \<not> is_js_space (hd s) \<Longrightarrow> collapse_spaces s \<noteq> [] \<and> hd (collapse_spaces s) = hd s"
  by (induction s rule: collapse_spaces.induct) auto

lemma collapse_last:
  "s \<noteq> [] \<Longrightarrow> \<not> is_js_space (last s) \<Longrightarrow> collapse_spaces s \<noteq> [] \<and> last (collapse_spaces s) = last s"
  by (induction s rule: collapse_spaces.induct) auto

lemma collapse_solid: "solid_ends s \<Longrightarrow> solid_ends (collapse_spaces s)"
  using collapse_hd [of s] collapse_last [of s] by (cases "s = []") (auto simp: solid_ends_def)

lemma collapse_not_Nil: "s \<noteq> [] \<Longrightarrow> collapse_spaces s \<noteq> []"
  by (induction s rule: collapse_spaces.induct) auto

lemma collapse_length: "length (collapse_spaces s) \<le> length s"
  by (induction s rule: collapse_spaces.induct) auto

lemma space_is_space [simp]: "is_js_space CHR '' ''"
  by (simp add: is_js_space_def)

lemma collapse_hd_space: "is_js_space c \<Longrightarrow> s \<noteq> [] \<Longrightarrow> \<not> is_js_space (hd s) \<Longrightarrow>
    collapse_spaces (CHR '' '' # s) = CHR '' '' # collapse_spaces s"
  by (cases s) auto

lemma collapse_idem [simp]: "collapse_spaces (collapse_spaces s) = collapse_spaces s"
proof (induction s rule: collapse_spaces.induct)
  case (3 c d s)
  show ?case
  proof (cases "is_js_space c")
    case True
    with 3 show ?thesis using collapse_hd [of "d # s"] collapse_hd_space [OF True, of "collapse_spaces (d # s)"]
      by auto
  next
    case False
    obtain e t where "collapse_spaces (d # s) = e # t"
      using collapse_not_Nil [of "d # s"] by (cases "collapse_spaces (d # s)") auto
    with 3 False show ?thesis by auto
  qed
qed auto

definition reason_ok :: "string \<Rightarrow> bool" where
  "reason_ok r \<longleftrightarrow> solid_ends r \<and> collapse_spaces r = r \<and> length r \<le> maxReasonLength"

lemma reason_ok_normal:
  "length (js_trim r) \<le> maxReasonLength \<Longrightarrow> reason_ok (collapse_spaces (js_trim r))"
  using collapse_length [of "js_trim r"] by (simp add: reason_ok_def collapse_solid js_trim_solid)

section \<open>A normalized contract\<close>

definition valid_claim :: "string \<Rightarrow> bool" where
  "valid_claim k \<longleftrightarrow> isKnownStaticClaim k \<or> isAgeOverClaim k \<and> parseAgeOverThreshold k \<noteq> None"

definition share_ok :: "share_fields \<Rightarrow> bool" where
  "share_ok fs \<longleftrightarrow>
     sorted (map (\<lambda>e. Claim (fst e)) fs) \<and> jm_wf fs \<and>
     (\<forall>e \<in> set fs. valid_claim (fst e) \<and> reason_ok (sf_reason (snd e)) \<and>
        (sf_reason (snd e) = [] \<longrightarrow> isAgeOverClaim (fst e) \<and> jm_has fs ''date_of_birth'')) \<and>
     length (filter isAgeOverClaim (map fst fs)) \<le> 1 \<and>
     (\<exists>f. jm_get fs ''kayle_document_id'' = Some f \<and> sf_required f) \<and>
     (\<forall>k dob age. jm_get fs ''date_of_birth'' = Some dob \<longrightarrow> isAgeOverClaim k \<longrightarrow>
        jm_get fs k = Some age \<longrightarrow> sf_required dob = sf_required age)"

lemma static_not_age: "isKnownStaticClaim k \<Longrightarrow> \<not> isAgeOverClaim k"
  by (auto simp: isKnownStaticClaim_def STATIC_CLAIMS_def isAgeOverClaim_def AGE_OVER_PREFIX_def)

lemma dob_static [simp]: "isKnownStaticClaim ''date_of_birth''" "isKnownStaticClaim ''kayle_document_id''"
  by (simp_all add: isKnownStaticClaim_def STATIC_CLAIMS_def)

lemma dob_not_age [simp]: "\<not> isAgeOverClaim ''date_of_birth''" "\<not> isAgeOverClaim ''kayle_document_id''"
  by (simp_all add: static_not_age)

text \<open>The same up to the order and the two adjustments: what validation returns.\<close>

definition requested_ok :: "bool \<Rightarrow> requested_fields \<Rightarrow> bool" where
  "requested_ok hasDOB m \<longleftrightarrow> jm_wf m \<and>
     (\<forall>e \<in> set m. valid_claim (fst e) \<and> reason_ok (rf_reason (snd e)) \<and>
        (rf_reason (snd e) = [] \<longrightarrow> isAgeOverClaim (fst e) \<and> hasDOB))"

lemma validateRequestedField_ok:
  assumes "validateRequestedField k v allow = Inr f"
  shows "valid_claim k \<and> reason_ok (rf_reason f) \<and> (rf_reason f = [] \<longrightarrow> allow)"
proof -
  from assms obtain r0 where r: "rf_reason f = collapse_spaces (js_trim r0)"
      "length (js_trim r0) \<noteq> 0 \<or> allow" "length (js_trim r0) \<le> maxReasonLength" "valid_claim k"
    by (auto simp: validateRequestedField_def Let_def valid_claim_def
        split: if_splits option.splits json.splits)
  with reason_ok_normal [OF r(3)] collapse_hd [of "js_trim r0"] js_trim_solid [of r0]
  show ?thesis by (auto simp: solid_ends_def)
qed

lemma jm_set_elem: "e \<in> set (jm_set k v m) \<Longrightarrow> e = (k, v) \<or> e \<in> set m"
  by (induction m) (auto split: if_splits)

lemma keys_jm_set: "map fst (jm_set k v m) = (if jm_has m k then map fst m else map fst m @ [k])"
  by (induction m) (auto split: if_splits)

lemma validate_entries_ok:
  assumes "validate_entries hasDOB es n m = Inr m'" and "requested_ok hasDOB m"
    and "length (filter isAgeOverClaim (map fst m)) \<le> n" and "n \<le> 1"
  shows "requested_ok hasDOB m' \<and> length (filter isAgeOverClaim (map fst m')) \<le> 1 \<and>
    fst ` set m' = fst ` set m \<union> fst ` set es"
  using assms
proof (induction es arbitrary: n m)
  case Nil
  then show ?case by auto
next
  case (Cons e es)
  obtain k raw where e: "e = (k, raw)" by (cases e)
  from Cons.prems(1) obtain f where f: "validateRequestedField k raw (hasDOB \<and> isAgeOverClaim k) = Inr f"
    by (auto simp: e Let_def split: sum.splits)
  let ?c = "if isAgeOverClaim k then n + 1 else n"
  from Cons.prems(1) f have rest: "validate_entries hasDOB es ?c (jm_set k f m) = Inr m'"
    and le: "?c \<le> 1"
    using Cons.prems(4) by (auto simp: e Let_def split: if_splits)
  have ok: "requested_ok hasDOB (jm_set k f m)"
    using Cons.prems(2) validateRequestedField_ok [OF f] by (auto simp: requested_ok_def dest: jm_set_elem)
  have cnt: "length (filter isAgeOverClaim (map fst (jm_set k f m))) \<le> ?c"
    using Cons.prems(3) by (auto simp: keys_jm_set)
  from Cons.IH [OF rest ok cnt le] show ?case by (auto simp: e jm_keys_set)
qed

text \<open>Sorting by key: the same fields, in order.\<close>

definition share_pre :: "share_fields \<Rightarrow> bool" where
  "share_pre fs \<longleftrightarrow> jm_wf fs \<and>
     (\<forall>e \<in> set fs. valid_claim (fst e) \<and> reason_ok (sf_reason (snd e)) \<and>
        (sf_reason (snd e) = [] \<longrightarrow> isAgeOverClaim (fst e) \<and> jm_has fs ''date_of_birth'')) \<and>
     length (filter isAgeOverClaim (map fst fs)) \<le> 1"

definition share_linked :: "share_fields \<Rightarrow> bool" where
  "share_linked fs \<longleftrightarrow>
     (\<exists>f. jm_get fs ''kayle_document_id'' = Some f \<and> sf_required f) \<and>
     (\<forall>k dob age. jm_get fs ''date_of_birth'' = Some dob \<longrightarrow> isAgeOverClaim k \<longrightarrow>
        jm_get fs k = Some age \<longrightarrow> sf_required dob = sf_required age)"

lemma share_ok_iff:
  "share_ok fs \<longleftrightarrow> sorted (map (\<lambda>e. Claim (fst e)) fs) \<and> share_pre fs \<and> share_linked fs"
  by (auto simp: share_ok_def share_pre_def share_linked_def)

lemma sorted_fields_keys: "mset (map fst (toSortedShareFields fs)) = mset (map fst fs)"
  by (simp add: toSortedShareFields_def)

lemma sorted_fields_set: "set (toSortedShareFields fs) = set fs"
  by (simp add: toSortedShareFields_def)

lemma sorted_fields_wf: "jm_wf fs \<Longrightarrow> jm_wf (toSortedShareFields fs)"
  unfolding jm_wf_def using sorted_fields_keys mset_eq_imp_distinct_iff by blast

lemma sorted_fields_get:
  assumes "jm_wf fs"
  shows "jm_get (toSortedShareFields fs) k = jm_get fs k"
proof -
  have "jm_get (toSortedShareFields fs) k = Some v \<longleftrightarrow> jm_get fs k = Some v" for v
    using jm_in_set_iff [OF assms, of k v] jm_in_set_iff [OF sorted_fields_wf [OF assms], of k v]
    by (simp add: sorted_fields_set)
  then show ?thesis by (metis option.exhaust)
qed

lemma sorted_fields_ok:
  assumes "share_pre fs" and "share_linked fs"
  shows "share_ok (toSortedShareFields fs)"
proof -
  have wf: "jm_wf fs" using assms(1) by (simp add: share_pre_def)
  have "length (filter isAgeOverClaim (map fst (toSortedShareFields fs)))
      = length (filter isAgeOverClaim (map fst fs))"
    using sorted_fields_keys [of fs] by (metis mset_filter size_mset)
  with assms(1) sorted_fields_wf [OF wf] have "share_pre (toSortedShareFields fs)"
    unfolding share_pre_def sorted_fields_set sorted_fields_get [OF wf] by simp
  moreover have "share_linked (toSortedShareFields fs)"
    using assms(2) unfolding share_linked_def sorted_fields_get [OF wf] .
  moreover have "sorted (map (\<lambda>e. Claim (fst e)) (toSortedShareFields fs))"
    unfolding toSortedShareFields_def by (rule sorted_sort_key)
  ultimately show ?thesis by (simp only: share_ok_iff simp_thms)
qed

lemma foldl_set_fresh:
  "jm_wf (acc @ map (\<lambda>(k, e). (k, g k e)) m) \<Longrightarrow>
     foldl (\<lambda>acc (k, e). jm_set k (g k e) acc) acc m = acc @ map (\<lambda>(k, e). (k, g k e)) m"
proof (induction m arbitrary: acc)
  case Nil
  then show ?case by simp
next
  case (Cons p m)
  obtain k e where p: "p = (k, e)" by (cases p)
  from Cons.prems have "jm_get acc k = None"
    by (auto simp: p jm_wf_def map_of_eq_None_iff)
  then have "jm_set k (g k e) acc = acc @ [(k, g k e)]" by (induction acc) (auto split: if_splits)
  with Cons show ?case by (simp add: p)
qed

lemma jm_wf_map: "jm_wf (map (\<lambda>(k, e). (k, g k e)) m) \<longleftrightarrow> jm_wf m"
  by (simp add: jm_wf_def o_def case_prod_unfold)

lemma keys_map: "map fst (map (\<lambda>(k, e). (k, g k e)) m) = map fst m"
  by (simp add: o_def case_prod_unfold)

lemma share_pre_set:
  assumes "share_pre fs" and "jm_get fs k = Some old" and "sf_reason f = sf_reason old"
  shows "share_pre (jm_set k f fs)"
proof -
  from assms(2) have "(k, old) \<in> set fs" by (rule map_of_SomeD)
  with assms show ?thesis
    by (auto simp: share_pre_def keys_jm_set jsmap_simps dest!: jm_set_elem)
qed

lemma share_pre_link:
  assumes "share_pre fs"
  shows "share_pre (link_dob_age fs)"
proof (cases "jm_get fs ''date_of_birth''")
  case None
  with assms show ?thesis by (simp add: link_dob_age_def)
next
  case (Some dob)
  show ?thesis
  proof (cases "find isAgeOverClaim (map fst fs)")
    case None
    with assms show ?thesis by (simp add: link_dob_age_def Some)
  next
    case age: (Some k)
    then have "k \<in> set (map fst fs)" "isAgeOverClaim k" by (auto simp: find_Some_iff)
    then obtain a where a: "jm_get fs k = Some a" "k \<noteq> ''date_of_birth''"
      by (metis dob_not_age(1) map_of_eq_None_iff not_None_eq list.set_map)
    have 1: "share_pre (jm_set ''date_of_birth'' (dob\<lparr>sf_required := True\<rparr>) fs)"
      by (rule share_pre_set [OF assms Some]) simp
    have "share_pre (jm_set k (a\<lparr>sf_required := True\<rparr>) (jm_set ''date_of_birth'' (dob\<lparr>sf_required := True\<rparr>) fs))"
      by (rule share_pre_set [OF 1, of _ a]) (use a in \<open>simp_all add: jsmap_simps\<close>)
    with assms show ?thesis by (simp add: link_dob_age_def Some age a(1) Let_def)
  qed
qed

text \<open>With at most one age gate, any age gate is the one \<open>find\<close> returns.\<close>

lemma single_elem: "length xs \<le> 1 \<Longrightarrow> k \<in> set xs \<Longrightarrow> x \<in> set xs \<Longrightarrow> x = k"
  by (cases xs) auto

lemma one_age_gate:
  assumes "length (filter isAgeOverClaim ks) \<le> 1" and "k \<in> set ks" and "isAgeOverClaim k"
  shows "find isAgeOverClaim ks = Some k"
proof -
  obtain x where x: "find isAgeOverClaim ks = Some x"
    using assms(2,3) by (metis find_None_iff not_None_eq)
  then have "x \<in> set ks" "isAgeOverClaim x" by (auto simp: find_Some_iff)
  with single_elem [OF assms(1), of k x] assms(2,3) have "x = k" by simp
  with x show ?thesis by simp
qed

definition dob_age_equal :: "share_fields \<Rightarrow> bool" where
  "dob_age_equal fs \<longleftrightarrow>
     (\<forall>k dob age. jm_get fs ''date_of_birth'' = Some dob \<longrightarrow> isAgeOverClaim k \<longrightarrow>
        jm_get fs k = Some age \<longrightarrow> sf_required dob = sf_required age)"

lemma age_gate_found:
  assumes "share_pre fs" and "isAgeOverClaim k" and "jm_get fs k = Some a"
  shows "find isAgeOverClaim (map fst fs) = Some k"
proof (rule one_age_gate)
  show "length (filter isAgeOverClaim (map fst fs)) \<le> 1" using assms(1) by (simp add: share_pre_def)
  show "k \<in> set (map fst fs)" using map_of_SomeD [OF assms(3)] by force
  show "isAgeOverClaim k" by (rule assms(2))
qed

lemma link_equal:
  assumes pre: "share_pre fs"
  shows "dob_age_equal (link_dob_age fs)"
  unfolding dob_age_equal_def
proof (intro allI impI)
  fix k dob age
  assume d: "jm_get (link_dob_age fs) ''date_of_birth'' = Some dob" and k: "isAgeOverClaim k"
    and a: "jm_get (link_dob_age fs) k = Some age"
  have kd: "k \<noteq> ''date_of_birth''" using k dob_not_age(1) by blast
  show "sf_required dob = sf_required age"
  proof (cases "jm_get fs ''date_of_birth'' = None \<or> jm_get fs k = None")
    case True
    moreover have "jm_get (link_dob_age fs) x = None" if "jm_get fs x = None" for x
    proof -
      have "k' \<noteq> x" if "find isAgeOverClaim (map fst fs) = Some k'" for k'
      proof
        assume "k' = x"
        with that have "x \<in> set (map fst fs)" by (auto simp: find_Some_iff)
        with \<open>jm_get fs x = None\<close> show False by (simp add: map_of_eq_None_iff)
      qed
      with \<open>jm_get fs x = None\<close> show ?thesis
        by (auto simp: link_dob_age_def Let_def jsmap_simps split: option.split)
    qed
    ultimately show ?thesis using d a by auto
  next
    case False
    then obtain dob0 age0 where o: "jm_get fs ''date_of_birth'' = Some dob0" "jm_get fs k = Some age0" by auto
    with age_gate_found [OF pre k o(2)] d a kd show ?thesis
      by (auto simp: link_dob_age_def Let_def jsmap_simps split: if_splits)
  qed
qed

lemma js_space_chars:
  "is_js_space c \<longleftrightarrow> c \<in> {CHR 0x09, CHR 0x0A, CHR 0x0B, CHR 0x0C, CHR 0x0D, CHR '' '', CHR 0xA0}"
proof -
  have "(of_char c :: nat) = of_char d \<longleftrightarrow> c = d" for d by simp
  from this [of "CHR 0x09"] this [of "CHR 0x0A"] this [of "CHR 0x0B"] this [of "CHR 0x0C"]
    this [of "CHR 0x0D"] this [of "CHR '' ''"] this [of "CHR 0xA0"]
  show ?thesis by (simp add: is_js_space_def)
qed

lemma static_label:
  assumes "k \<in> set STATIC_CLAIMS"
  shows "getClaimLabel k = the (map_of claimLabels k)"
proof -
  have "parseAgeOverThreshold k = None"
    using static_not_age [of k] assms by (simp add: parseAgeOverThreshold_def isKnownStaticClaim_def)
  then show ?thesis using assms by (auto simp: getClaimLabel_def STATIC_CLAIMS_def claimLabels_def)
qed

lemma default_reason_ok: "k \<in> set STATIC_CLAIMS \<Longrightarrow> reason_ok (defaultReasonForClaim k) \<and> defaultReasonForClaim k \<noteq> []"
  unfolding defaultReasonForClaim_def reason_ok_def solid_ends_def maxReasonLength_def
  by (simp only: static_label) (auto simp: STATIC_CLAIMS_def claimLabels_def js_space_chars)

lemma docid_static: "''kayle_document_id'' \<in> set STATIC_CLAIMS"
  by (simp add: STATIC_CLAIMS_def)

lemma require_pre:
  assumes "share_pre fs"
  shows "share_pre (require_document_id fs)"
proof (cases "jm_get fs ''kayle_document_id''")
  case None
  then have "jm_set ''kayle_document_id'' f fs = fs @ [(''kayle_document_id'', f)]" for f :: share_field
    by (induction fs) (auto split: if_splits)
  moreover have "''kayle_document_id'' \<notin> fst ` set fs" using None by (simp add: map_of_eq_None_iff)
  ultimately show ?thesis
    using assms default_reason_ok [OF docid_static]
    by (auto simp: require_document_id_def None share_pre_def jm_wf_def makeDefaultEntry_def valid_claim_def
        split: option.split)
next
  case (Some d)
  then show ?thesis using share_pre_set [OF assms Some] by (simp add: require_document_id_def)
qed

lemma dob_not_docid: "''date_of_birth'' \<noteq> ''kayle_document_id''"
  by simp

lemma require_linked:
  assumes "dob_age_equal fs"
  shows "share_linked (require_document_id fs)"
proof -
  have other: "jm_get (require_document_id fs) k = jm_get fs k" if "k \<noteq> ''kayle_document_id''" for k
    using that by (auto simp: require_document_id_def jsmap_simps split: option.split)
  have "\<exists>f. jm_get (require_document_id fs) ''kayle_document_id'' = Some f \<and> sf_required f"
    by (auto simp: require_document_id_def jsmap_simps makeDefaultEntry_def split: option.split)
  moreover have "k \<noteq> ''kayle_document_id''" if "isAgeOverClaim k" for k using that dob_not_age(2) by blast
  ultimately show ?thesis
    using assms other [of "''date_of_birth''"] other
    unfolding share_linked_def dob_age_equal_def by (metis (no_types, lifting) dob_not_docid)
qed

lemma normalized_fields_ok:
  assumes v: "validateShareFields v = Inr requested"
  shows "share_ok (normalizeRequestedShareFields requested)"
proof -
  let ?dob = "list_ex (\<lambda>e. isDOBClaim (fst e)) (entries_of v)"
  from v have e: "validate_entries ?dob (entries_of v) 0 [] = Inr requested"
    by (auto simp: validateShareFields_def Let_def split: if_splits)
  from validate_entries_ok [OF e] have r: "requested_ok ?dob requested"
    "length (filter isAgeOverClaim (map fst requested)) \<le> 1" "fst ` set requested = fst ` set (entries_of v)"
    by (auto simp: requested_ok_def)
  let ?m = "map (\<lambda>(k, e). (k, to_rc e)) requested"
  have fold: "foldl (\<lambda>m (claimKey, entry). jm_set claimKey (to_rc entry) m) [] requested = ?m"
    using foldl_set_fresh [of "[]" "\<lambda>_. to_rc" requested] r(1) by (simp add: jm_wf_map requested_ok_def)
  have dob: "jm_has ?m ''date_of_birth''" if ?dob
  proof -
    from that have "''date_of_birth'' \<in> fst ` set requested"
      unfolding r(3) by (auto simp: list_ex_iff isDOBClaim_def intro: rev_image_eqI)
    then have "''date_of_birth'' \<in> set (map fst ?m)" unfolding keys_map by simp
    then show ?thesis by (simp only: map_of_eq_None_iff set_map not_not)
  qed
  have "share_pre ?m"
    using r(1,2) dob unfolding share_pre_def requested_ok_def jm_wf_map keys_map by (auto simp: to_rc_def)
  then show ?thesis
    unfolding normalizeRequestedShareFields_def fold Let_def
    by (intro sorted_fields_ok require_pre require_linked share_pre_link link_equal)
qed

lemma default_fields_ok: "share_ok createDefaultShareFields"
proof -
  let ?d = "map (\<lambda>k. (k, makeDefaultEntry k (k = ''kayle_document_id''))) STATIC_CLAIMS"
  have fresh: "foldl (\<lambda>defaults k. jm_set k (makeDefaultEntry k (k = ''kayle_document_id'')) defaults) acc ks
      = acc @ map (\<lambda>k. (k, makeDefaultEntry k (k = ''kayle_document_id''))) ks"
    if "distinct (map fst acc @ ks)" for acc ks
    using that
  proof (induction ks arbitrary: acc)
    case (Cons k ks)
    then have "k \<notin> fst ` set acc" by auto
    then have "jm_set k f acc = acc @ [(k, f)]" for f by (induction acc) auto
    with Cons show ?case by simp
  qed simp
  have "distinct STATIC_CLAIMS" by (simp add: STATIC_CLAIMS_def)
  then have d: "createDefaultShareFields = toSortedShareFields ?d"
    using fresh [of "[]" STATIC_CLAIMS] by (simp add: createDefaultShareFields_def)
  have na: "filter isAgeOverClaim STATIC_CLAIMS = []"
    using static_not_age by (auto simp: filter_empty_conv isKnownStaticClaim_def)
  have keys: "map fst ?d = STATIC_CLAIMS" by (simp add: o_def)
  have "share_pre ?d"
    using default_reason_ok na \<open>distinct STATIC_CLAIMS\<close> unfolding share_pre_def jm_wf_def keys
    by (auto simp: makeDefaultEntry_def valid_claim_def isKnownStaticClaim_def)
  moreover have "share_linked ?d"
  proof -
    have "jm_get ?d k = None" if "isAgeOverClaim k" for k
      using that static_not_age by (auto simp: map_of_eq_None_iff isKnownStaticClaim_def)
    then show ?thesis
      by (auto simp: share_linked_def) (simp add: STATIC_CLAIMS_def makeDefaultEntry_def)
  qed
  ultimately show ?thesis unfolding d by (intro sorted_fields_ok)
qed

text \<open>
  Whatever a relying party requests, a contract that is accepted is well formed: keys are
  distinct, sorted and all from the catalogue or valid age gates, there is at most one age gate,
  each reason is trimmed, free of runs of white space and within its limit, and empty only for
  an age gate beside the date of birth; the document id is present and required; a date of birth
  and an age gate requested together are both required or both optional.
\<close>

theorem accepted_contract_well_formed:
  "case normalizeShareFields v of Inl _ \<Rightarrow> True | Inr fs \<Rightarrow> share_ok fs"
  using default_fields_ok normalized_fields_ok [of v]
  by (auto simp: normalizeShareFields_def split: sum.split)

section \<open>A stored contract resolves to itself\<close>

text \<open>The \<open>share_fields\<close> column: the JSON of the normalized contract.\<close>

definition source_json :: "share_source \<Rightarrow> json" where
  "source_json src = JStr (case src of Src_default \<Rightarrow> ''default'' | Src_rc \<Rightarrow> ''rc'')"

definition field_json :: "share_field \<Rightarrow> json" where
  "field_json f = JObj [(''required'', JBool (sf_required f)), (''reason'', JStr (sf_reason f)),
                        (''source'', source_json (sf_source f))]"

definition fields_json :: "share_fields \<Rightarrow> json" where
  "fields_json fs = JObj (map (\<lambda>(k, f). (k, field_json f)) fs)"

definition as_requested :: "share_field \<Rightarrow> requested_field" where
  "as_requested f = \<lparr>rf_required = sf_required f, rf_reason = sf_reason f\<rparr>"

lemma validate_stored_field:
  assumes "valid_claim k" and "reason_ok (sf_reason f)" and "sf_reason f = [] \<longrightarrow> allow"
  shows "validateRequestedField k (field_json f) allow = Inr (as_requested f)"
  using assms solid_ends_trim [of "sf_reason f"]
  by (auto simp: validateRequestedField_def field_json_def isRecord_def entries_of_def jget_def
      reason_ok_def valid_claim_def as_requested_def Let_def dest: static_not_age)

lemma validate_stored_entries:
  assumes "\<forall>e \<in> set fs. valid_claim (fst e) \<and> reason_ok (sf_reason (snd e)) \<and>
        (sf_reason (snd e) = [] \<longrightarrow> isAgeOverClaim (fst e) \<and> hasDOB)"
    and "jm_wf (acc @ map (\<lambda>(k, f). (k, as_requested f)) fs)"
    and "n + length (filter isAgeOverClaim (map fst fs)) \<le> 1"
  shows "validate_entries hasDOB (map (\<lambda>(k, f). (k, field_json f)) fs) n acc =
    Inr (acc @ map (\<lambda>(k, f). (k, as_requested f)) fs)"
  using assms
proof (induction fs arbitrary: n acc)
  case Nil
  then show ?case by simp
next
  case (Cons e fs)
  obtain k f where e: "e = (k, f)" by (cases e)
  have v: "validateRequestedField k (field_json f) (hasDOB \<and> isAgeOverClaim k) = Inr (as_requested f)"
    using Cons.prems(1) by (intro validate_stored_field) (auto simp: e)
  have "k \<notin> fst ` set acc" using Cons.prems(2) by (auto simp: e jm_wf_def)
  then have set: "jm_set k (as_requested f) acc = acc @ [(k, as_requested f)]"
    by (induction acc) auto
  let ?n = "if isAgeOverClaim k then n + 1 else n"
  have IH: "validate_entries hasDOB (map (\<lambda>(k, f). (k, field_json f)) fs) ?n (acc @ [(k, as_requested f)]) =
      Inr ((acc @ [(k, as_requested f)]) @ map (\<lambda>(k, f). (k, as_requested f)) fs)"
    using Cons.prems by (intro Cons.IH) (auto simp: e)
  have "\<not> (isAgeOverClaim k \<and> 1 < ?n)" using Cons.prems(3) by (auto simp: e)
  with IH show ?case by (simp add: e v set Let_def)
qed

lemma jm_set_same: "jm_get m k = Some v \<Longrightarrow> jm_set k v m = m"
  by (induction m) (auto split: if_splits)

text \<open>No more than the static claims and one age gate fit.\<close>

lemma share_ok_length:
  assumes "share_ok fs"
  shows "length fs \<le> maxShareFields"
proof -
  let ?ks = "map fst fs"
  have "distinct ?ks" using assms by (simp add: share_ok_def jm_wf_def)
  then have "length (filter (\<lambda>k. \<not> isAgeOverClaim k) ?ks) = card (set (filter (\<lambda>k. \<not> isAgeOverClaim k) ?ks))"
    by (metis distinct_card distinct_filter)
  also have "\<dots> \<le> card (set STATIC_CLAIMS)"
    using assms by (intro card_mono) (auto simp: share_ok_def valid_claim_def isKnownStaticClaim_def)
  also have "\<dots> \<le> 12" by (rule order_trans [OF card_length]) (simp add: STATIC_CLAIMS_def)
  finally have "length (filter (\<lambda>k. \<not> isAgeOverClaim k) ?ks) \<le> 12" .
  moreover have "length (filter isAgeOverClaim ?ks) \<le> 1" using assms by (simp add: share_ok_def)
  moreover have "length (filter isAgeOverClaim ?ks) + length (filter (\<lambda>k. \<not> isAgeOverClaim k) ?ks) = length ?ks"
    by (rule sum_length_filter_compl)
  ultimately show ?thesis by (simp add: maxShareFields_def)
qed

lemma stored_sources:
  assumes "jm_wf (acc @ map (\<lambda>(k, f). (k, sf_source f)) fs)"
  shows "foldl (\<lambda>sources (key, field).
             if \<not> isRecord (Some field) then sources
             else if jget (entries_of (Some field)) ''source'' = Some (JStr ''default'')
               then jm_set key Src_default sources
             else if jget (entries_of (Some field)) ''source'' = Some (JStr ''rc'')
               then jm_set key Src_rc sources
             else sources) acc (map (\<lambda>(k, f). (k, field_json f)) fs)
      = acc @ map (\<lambda>(k, f). (k, sf_source f)) fs"
  using assms
proof (induction fs arbitrary: acc)
  case Nil
  then show ?case by simp
next
  case (Cons e fs)
  obtain k f where e: "e = (k, f)" by (cases e)
  have "k \<notin> fst ` set acc" using Cons.prems by (auto simp: e jm_wf_def)
  then have "jm_set k src acc = acc @ [(k, src)]" for src by (induction acc) auto
  with Cons show ?case
    by (cases "sf_source f")
      (simp_all add: e isRecord_def entries_of_def field_json_def jget_def source_json_def)
qed

lemma normalize_stored:
  assumes ok: "share_ok fs"
  shows "normalizeRequestedShareFields (map (\<lambda>(k, f). (k, as_requested f)) fs) =
    map (\<lambda>(k, f). (k, f\<lparr>sf_source := Src_rc\<rparr>)) fs"
proof -
  let ?m = "map (\<lambda>(k, f). (k, f\<lparr>sf_source := Src_rc\<rparr>)) fs"
  have rc: "to_rc (as_requested f) = f\<lparr>sf_source := Src_rc\<rparr>" for f
    by (simp add: to_rc_def as_requested_def)
  have wf: "jm_wf fs" and pre: "share_pre fs" and lk: "share_linked fs" using ok by (auto simp: share_ok_iff share_pre_def)
  have fold: "foldl (\<lambda>m (claimKey, entry). jm_set claimKey (to_rc entry) m) [] (map (\<lambda>(k, f). (k, as_requested f)) fs) = ?m"
  proof -
    have "map (\<lambda>(k, e). (k, to_rc e)) (map (\<lambda>(k, f). (k, as_requested f)) fs) = ?m" by (auto simp: rc)
    moreover have "jm_wf ?m" using wf by (simp only: jm_wf_map)
    ultimately show ?thesis
      using foldl_set_fresh [of "[]" "\<lambda>_. to_rc" "map (\<lambda>(k, f). (k, as_requested f)) fs"] by (simp only: append_Nil)
  qed
  have get: "jm_get ?m k = map_option (\<lambda>f. f\<lparr>sf_source := Src_rc\<rparr>) (jm_get fs k)" for k
    by (simp only: map_of_map o_apply)
  have keys: "map fst ?m = map fst fs" by (rule keys_map)
  have "link_dob_age ?m = ?m"
  proof (cases "jm_get fs ''date_of_birth''")
    case None
    then show ?thesis by (simp add: link_dob_age_def get)
  next
    case (Some dob)
    show ?thesis
    proof (cases "find isAgeOverClaim (map fst fs)")
      case None
      then show ?thesis unfolding link_dob_age_def keys get Some by simp
    next
      case age: (Some k)
      then have k: "k \<in> set (map fst fs)" "isAgeOverClaim k" by (auto simp: find_Some_iff)
      then obtain a where a: "jm_get fs k = Some a" by (metis list.set_map map_of_eq_None_iff not_None_eq)
      have eq: "sf_required dob = sf_required a" using lk Some a k(2) by (simp add: share_linked_def)
      have up: "f\<lparr>sf_source := Src_rc, sf_required := True\<rparr> = f\<lparr>sf_source := Src_rc\<rparr>" if "sf_required f" for f
        using that by (cases f) simp
      show ?thesis
        unfolding link_dob_age_def keys get Some age
        using eq by (auto simp: get Some a Let_def up jm_set_same)
    qed
  qed
  moreover have "require_document_id ?m = ?m"
  proof -
    obtain f where f: "jm_get fs ''kayle_document_id'' = Some f" "sf_required f"
      using lk by (auto simp: share_linked_def)
    have "f\<lparr>sf_source := Src_rc, sf_required := True\<rparr> = f\<lparr>sf_source := Src_rc\<rparr>" using f(2) by (cases f) simp
    with f show ?thesis by (simp add: require_document_id_def get jm_set_same)
  qed
  moreover have "toSortedShareFields ?m = ?m"
    unfolding toSortedShareFields_def using ok
    by (intro sort_key_id_if_sorted) (simp add: share_ok_def o_def case_prod_unfold)
  ultimately show ?thesis unfolding normalizeRequestedShareFields_def fold Let_def by simp
qed

text \<open>
  A contract that was accepted when the session was created is the contract the server later
  reads back from the stored session: resolving the stored JSON gives the same fields with the
  same reasons, flags, sources and order, never the default contract.
\<close>

theorem stored_contract_resolves:
  assumes ok: "share_ok fs"
  shows "resolvePublicShareFields (Some (fields_json fs)) = fs"
proof -
  let ?es = "map (\<lambda>(k, f). (k, field_json f)) fs"
  have wf: "jm_wf fs" and val: "\<forall>e \<in> set fs. valid_claim (fst e)" using ok by (auto simp: share_ok_def)
  have "\<forall>e \<in> set fs. fst e \<noteq> ''document_photo''"
  proof
    fix e assume "e \<in> set fs"
    with val have "valid_claim (fst e)" by blast
    moreover have "\<not> valid_claim ''document_photo''"
      by (simp add: valid_claim_def isKnownStaticClaim_def STATIC_CLAIMS_def isAgeOverClaim_def AGE_OVER_PREFIX_def)
    ultimately show "fst e \<noteq> ''document_photo''" by metis
  qed
  then have removed: "removeBlockedShareFields (Some (fields_json fs)) = Some (JObj ?es)"
    by (auto simp: removeBlockedShareFields_def isRecord_def entries_of_def fields_json_def
        blockedShareFieldKeys_def filter_id_conv)
  have src: "readShareFieldSources (Some (JObj ?es)) = map (\<lambda>(k, f). (k, sf_source f)) fs"
    using stored_sources [of "[]" fs] wf
    by (simp add: readShareFieldSources_def isRecord_def entries_of_def jm_wf_map)
  let ?dob = "list_ex (\<lambda>e. isDOBClaim (fst e)) ?es"
  have dob: "?dob" if "jm_has fs ''date_of_birth''"
    using that by (force simp: list_ex_iff isDOBClaim_def dest: map_of_SomeD)
  have "validate_entries ?dob ?es 0 [] = Inr ([] @ map (\<lambda>(k, f). (k, as_requested f)) fs)"
    using ok dob wf by (intro validate_stored_entries) (auto simp: share_ok_def jm_wf_map)
  then have "normalizeShareFields (Some (JObj ?es)) = Inr (map (\<lambda>(k, f). (k, f\<lparr>sf_source := Src_rc\<rparr>)) fs)"
    using share_ok_length [OF ok] normalize_stored [OF ok]
    by (simp add: normalizeShareFields_def validateShareFields_def isRecord_def entries_of_def Let_def)
  moreover have "applyExistingSources (map (\<lambda>(k, f). (k, f\<lparr>sf_source := Src_rc\<rparr>)) fs)
      (map (\<lambda>(k, f). (k, sf_source f)) fs) = fs"
  proof -
    let ?g = "\<lambda>k (f :: share_field). f\<lparr>sf_source := (case jm_get (map (\<lambda>(k, f). (k, sf_source f)) fs) k of
                                              Some src \<Rightarrow> src | None \<Rightarrow> sf_source f)\<rparr>"
    have "map (\<lambda>(k, f). (k, ?g k f)) (map (\<lambda>(k, f). (k, f\<lparr>sf_source := Src_rc\<rparr>)) fs) = fs"
      using wf by (auto simp: map_of_map jm_in_set_iff intro!: map_idI)
    then show ?thesis
      using foldl_set_fresh [of "[]" ?g "map (\<lambda>(k, f). (k, f\<lparr>sf_source := Src_rc\<rparr>)) fs"] wf
      by (simp add: applyExistingSources_def jm_wf_map)
  qed
  ultimately show ?thesis by (simp add: resolvePublicShareFields_def removed src)
qed

theorem stored_contract_resolves_witness:
  "resolvePublicShareFields (Some (fields_json createDefaultShareFields)) = createDefaultShareFields"
  by (rule stored_contract_resolves [OF default_fields_ok])

end
