(* ===== verification/Share_Manifest.thy ===== *)
theory Share_Manifest
  imports Share_Laws Mrz_Roundtrip Verify_Codes
begin

text \<open>
  The claims a session shares (\<open>apps/api/src/v1/verify/share-manifest.ts\<close>) and the document
  id among them (\<open>sessions/domain/share-contract/kayle-document-id.ts\<close>). The keyed hash is the
  platform's HMAC-SHA256, a parameter \<open>hmac\<close> that already holds the secret.
\<close>

section \<open>Document id\<close>

text \<open>\<open>toUpperCase\<close> and the removal of white space, on the ASCII text of a parsed document.\<close>

definition upper_char :: "char \<Rightarrow> char" where
  "upper_char c = (if 97 \<le> (of_char c :: nat) \<and> (of_char c :: nat) \<le> 122 then char_of (of_char c - 32 :: nat) else c)"

definition normalizeTuplePart :: "string \<Rightarrow> string" where
  "normalizeTuplePart v = filter (\<lambda>c. \<not> is_js_space c) (map upper_char (js_trim v))"

definition createKayleDocumentId ::
  "(string \<Rightarrow> string) \<Rightarrow> string \<Rightarrow> string \<Rightarrow> string \<Rightarrow> string \<Rightarrow> string" where
  "createKayleDocumentId hmac organizationId countryCode documentType documentNumber =
     hmac (join_with ''|''
             [js_trim organizationId, normalizeTuplePart countryCode, normalizeTuplePart documentType,
              normalizeTuplePart documentNumber])"

section \<open>Claim values\<close>

datatype claim_value = Claim_bool bool | Claim_text string | Claim_null

datatype share_exception =
  Unsupported_share_claim string | Invalid_age_over_claim string | Share_dg1 dg1_error

definition date_thrown :: "date_error + 'a \<Rightarrow> share_exception + 'a" where
  "date_thrown r = (case r of Inl e \<Rightarrow> Inl (Share_dg1 (Dg1_date e)) | Inr v \<Rightarrow> Inr v)"

definition buildShareClaimValue ::
  "(string \<Rightarrow> string) \<Rightarrow> string \<Rightarrow> dg1_claims \<Rightarrow> utc_date \<Rightarrow> string \<Rightarrow> share_exception + claim_value" where
  "buildShareClaimValue hmac claimKey c now organizationId =
     (if claimKey = ''document_type_code'' then Inr (Claim_text (cl_documentType c))
      else if claimKey = ''issuing_country_code'' then Inr (Claim_text (cl_issuingCountry c))
      else if claimKey = ''family_name'' then Inr (Claim_text (cl_surname c))
      else if claimKey = ''given_names'' then Inr (Claim_text (cl_givenNames c))
      else if claimKey = ''document_number'' then Inr (Claim_text (cl_documentNumber c))
      else if claimKey = ''nationality_code'' then Inr (Claim_text (cl_nationality c))
      else if claimKey = ''date_of_birth'' then Inr (Claim_text (cl_birthDateIso c))
      else if claimKey = ''sex_marker'' then Inr (Claim_text (cl_sex c))
      else if claimKey = ''document_expiry_date'' then Inr (Claim_text (cl_expiryDateIso c))
      else if claimKey = ''mrz_optional_data'' then Inr (Claim_text (cl_optionalData c))
      else if claimKey = ''kayle_document_id'' then
        Inr (Claim_text (createKayleDocumentId hmac organizationId (cl_issuingCountry c)
               (cl_documentType c) (cl_documentNumber c)))
      else if claimKey = ''kayle_human_id'' then Inr Claim_null
      else if \<not> isAgeOverClaim claimKey then Inl (Unsupported_share_claim claimKey)
      else case parseAgeOverThreshold claimKey of
             None \<Rightarrow> Inl (Invalid_age_over_claim claimKey)
           | Some threshold \<Rightarrow>
               rbind (date_thrown (ageFromDateOfBirth (cl_birthDateIso c) now)) (\<lambda>age.
                 Inr (Claim_bool (int threshold \<le> age))))"

section \<open>Selection and manifest\<close>

record request_field =
  rq_key :: string
  rq_reason :: string
  rq_required :: bool

record share_request =
  sr_contractVersion :: int
  sr_sessionId :: string
  sr_fields :: "request_field list"

record share_manifest =
  sm_contractVersion :: int
  sm_claims :: "(string, claim_value) jsmap"
  sm_selectedFieldKeys :: "string list"
  sm_sessionId :: string

definition createShareRequestPayload :: "int \<Rightarrow> string \<Rightarrow> json option \<Rightarrow> share_request" where
  "createShareRequestPayload contractVersion sessionId shareFieldsInput =
     \<lparr>sr_contractVersion = contractVersion, sr_sessionId = sessionId,
      sr_fields = map (\<lambda>(key, field). \<lparr>rq_key = key, rq_reason = sf_reason field,
                                        rq_required = sf_required field\<rparr>)
                    (resolvePublicShareFields shareFieldsInput)\<rparr>"

definition normalizeSelectedFieldKeys ::
  "request_field list \<Rightarrow> string list option \<Rightarrow> verify_code + string list" where
  "normalizeSelectedFieldKeys availableFields selectedFieldKeysInput =
     (case selectedFieldKeysInput of
        None \<Rightarrow> Inl SHARE_SELECTION_REQUIRED
      | Some input \<Rightarrow>
          if length input = 0 then Inl SHARE_SELECTION_REQUIRED
          else
            let selected = remdups (filter (\<lambda>v. 0 < length v) (map js_trim input))
            in if length selected = 0 then Inl SHARE_SELECTION_REQUIRED
               else if list_ex (\<lambda>key. key \<notin> set (map rq_key availableFields)) selected
                 then Inl SHARE_SELECTION_INVALID_FIELD
               else if list_ex (\<lambda>field. rq_required field \<and> rq_key field \<notin> set selected) availableFields
                 then Inl SHARE_SELECTION_MISSING_REQUIRED
               else Inr (map rq_key (filter (\<lambda>field. rq_key field \<in> set selected) availableFields)))"

text \<open>\<open>Promise.all\<close> over the fields: the first claim that throws fails the whole.\<close>

fun build_entries ::
  "(request_field \<Rightarrow> share_exception + claim_value) \<Rightarrow> request_field list \<Rightarrow>
     share_exception + (string \<times> claim_value) list" where
  "build_entries value_of [] = Inr []"
| "build_entries value_of (field # fs) =
     rbind (value_of field) (\<lambda>v. rbind (build_entries value_of fs) (\<lambda>rest. Inr ((rq_key field, v) # rest)))"

text \<open>The outer sum is a thrown error, the inner one the \<open>ok: false\<close> results.\<close>

definition validateAndBuildShareManifest ::
  "(string \<Rightarrow> string) \<Rightarrow> int \<Rightarrow> bytes \<Rightarrow> utc_date \<Rightarrow> string \<Rightarrow> string list option \<Rightarrow> string \<Rightarrow>
     string option \<Rightarrow> json option \<Rightarrow> share_exception + (verify_code + share_manifest \<times> dg1_claims)" where
  "validateAndBuildShareManifest hmac contractVersion dg1 now organizationId selectedFieldKeysInput
       sessionId submittedSessionId shareFieldsInput =
     (if map_option js_trim submittedSessionId \<noteq> Some sessionId then Inr (Inl INVALID_SESSION_ID)
      else
        let shareRequest = createShareRequestPayload contractVersion sessionId shareFieldsInput
        in case normalizeSelectedFieldKeys (sr_fields shareRequest) selectedFieldKeysInput of
             Inl code \<Rightarrow> Inr (Inl code)
           | Inr selected \<Rightarrow>
               (case parseDg1Claims dg1 now of
                  Inl e \<Rightarrow> Inl (Share_dg1 e)
                | Inr dg1Claims \<Rightarrow>
                    rbind (build_entries
                             (\<lambda>field. if rq_key field \<in> set selected
                                      then buildShareClaimValue hmac (rq_key field) dg1Claims now organizationId
                                      else Inr Claim_null)
                             (sr_fields shareRequest)) (\<lambda>claims.
                      Inr (Inr (\<lparr>sm_contractVersion = contractVersion,
                                 sm_claims = foldl (\<lambda>m (k, v). jm_set k v m) [] claims,
                                 sm_selectedFieldKeys = selected, sm_sessionId = sessionId\<rparr>,
                                dg1Claims)))))"

section \<open>What a manifest discloses\<close>

lemma build_entries_keys: "build_entries g fs = Inr es \<Longrightarrow> map fst es = map rq_key fs"
  by (induction fs arbitrary: es) (auto simp: result_simps)

lemma build_entries_values:
  "build_entries g fs = Inr es \<Longrightarrow> (k, v) \<in> set es \<Longrightarrow> \<exists>f \<in> set fs. rq_key f = k \<and> g f = Inr v"
  by (induction fs arbitrary: es) (auto simp: result_simps)

lemma foldl_set_id: "jm_wf (acc @ m) \<Longrightarrow> foldl (\<lambda>acc (k, v). jm_set k v acc) acc m = acc @ m"
  using foldl_set_fresh [of acc "\<lambda>_ v. v" m] by (simp add: case_prod_unfold)

lemma resolve_wf: "jm_wf (resolvePublicShareFields v)"
proof -
  have wf: "jm_wf fs" if "normalizeShareFields w = Inr fs" for w fs
    using that default_fields_ok normalized_fields_ok [of w]
    by (auto simp: normalizeShareFields_def share_ok_def split: if_splits sum.splits)
  have "jm_wf (foldl (\<lambda>m (key, field). jm_set key (g key field) m) acc fs)" if "jm_wf acc"
    for g :: "string \<Rightarrow> share_field \<Rightarrow> share_field" and acc fs
    using that by (induction fs arbitrary: acc) auto
  with wf show ?thesis
    using default_fields_ok
    by (auto simp: resolvePublicShareFields_def applyExistingSources_def share_ok_def Let_def split: sum.split)
qed

text \<open>The age the gates compare with never exceeds 99.\<close>

lemma birth_year_recent:
  assumes "buildBirthDateIso v now = Inr t" and "1000 \<le> ud_year now" "ud_year now < 9900"
  shows "\<exists>y m d. t = iso_text y m d \<and> ud_year now - 99 \<le> y \<and> y \<le> ud_year now \<and> 0 \<le> m \<and> m < 100 \<and> 0 \<le> d \<and> d < 100"
proof -
  have e: "expandMrzDateWithinRange (ud_year now) (ud_year now - 130) v = Inr t"
    using assms(1) by (simp add: buildBirthDateIso_def Let_def MIN_BIRTH_YEAR_OFFSET_def)
  have "six_digit_date v" "1 \<le> parse_int (js_slice v 2 4)" "parse_int (js_slice v 2 4) \<le> 12"
    "1 \<le> parse_int (js_slice v 4 6)" "parse_int (js_slice v 4 6) \<le> 31"
    and t: "t = iso_text (latest_year (ud_year now) (parse_int (js_slice v 0 2))) (parse_int (js_slice v 2 4))
       (parse_int (js_slice v 4 6))"
    using expand_exact [of "ud_year now - 130" "ud_year now" v] e assms(2)
    by (simp_all add: Let_def split: if_split_asm)
  moreover from this(1) have "0 \<le> parse_int (js_slice v 0 2)" "parse_int (js_slice v 0 2) < 100"
    using parse_int_two six_digit_parts by auto
  ultimately show ?thesis
    using latest_year_props [of "parse_int (js_slice v 0 2)" "ud_year now"] unfolding t
    by (intro exI [of _ "latest_year (ud_year now) (parse_int (js_slice v 0 2))"]
        exI [of _ "parse_int (js_slice v 2 4)"] exI [of _ "parse_int (js_slice v 4 6)"]) simp
qed

lemma age_of_parsed:
  assumes "0 \<le> y" "y < 10000" "0 \<le> m" "m < 100" "0 \<le> d" "d < 100"
    and "ageFromDateOfBirth (iso_text y m d) now = Inr a"
  shows "a \<le> ud_year now - y"
proof -
  from assms(7) obtain p where p: "parseIsoDate (iso_text y m d) = Inr p"
      "a = ud_year now - id_year p \<or> a = ud_year now - id_year p - 1"
    by (auto simp: ageFromDateOfBirth_def result_simps Let_def split: if_splits)
  have "id_year p = y"
    using p(1) iso_text_parts(1) [OF assms(1-6)] pad_int_fixed(3) [of y 4] assms(1,2)
    by (auto simp: parseIsoDate_def Let_def split: if_splits)
  with p(2) show ?thesis by auto
qed

lemma parsed_birth_date:
  assumes "parseDg1Claims dg1 now = Inr c"
  shows "\<exists>v. buildBirthDateIso v now = Inr (cl_birthDateIso c)"
proof -
  have d: "\<exists>v. buildBirthDateIso v now = Inr b" if "date_result (buildBirthDateIso w now) = Inr b" for w b
    using that by (auto simp: date_result_def split: sum.splits)
  from assms obtain f ls where
    "(case f of Td1 \<Rightarrow> parseTd1Lines ls now | Td2 \<Rightarrow> parseTd2Lines ls now | Td3 \<Rightarrow> parseTd3Lines ls now) = Inr c"
  proof -
    from assms obtain x where x: "(case detectMrzFormat x of None \<Rightarrow> Inl Dg1_mrz_invalid
       | Some (Td1, ls) \<Rightarrow> parseTd1Lines ls now | Some (Td2, ls) \<Rightarrow> parseTd2Lines ls now
       | Some (Td3, ls) \<Rightarrow> parseTd3Lines ls now) = Inr c"
      unfolding parseDg1Claims_def rbind_eq_Inr by blast
    then obtain f ls where "detectMrzFormat x = Some (f, ls)" by (cases "detectMrzFormat x") auto
    with x have "(case f of Td1 \<Rightarrow> parseTd1Lines ls now | Td2 \<Rightarrow> parseTd2Lines ls now
        | Td3 \<Rightarrow> parseTd3Lines ls now) = Inr c" by (cases f) auto
    then show thesis by (rule that)
  qed
  then show ?thesis
    by (cases f) (auto simp: parseTd1Lines_def parseTd2Lines_def parseTd3Lines_def Let_def result_simps
        case_prod_unfold dest: d)
qed

lemma map_filter_keys: "set (map g (filter (\<lambda>f. g f \<in> X) l)) = set (map g l) \<inter> X"
  by auto


definition sample_contract :: "json option" where
  "sample_contract = Some (JObj [(''family_name'', JObj [(''required'', JBool True), (''reason'', JStr '' Name '')]),
     (''sex_marker'', JObj [(''required'', JBool False), (''reason'', JStr ''Sex'')])])"

lemma sample_contract_fields:
  "resolvePublicShareFields sample_contract =
     [(''family_name'', \<lparr>sf_required = True, sf_reason = ''Name'', sf_source = Src_rc\<rparr>),
      (''kayle_document_id'', makeDefaultEntry ''kayle_document_id'' True),
      (''sex_marker'', \<lparr>sf_required = False, sf_reason = ''Sex'', sf_source = Src_rc\<rparr>)]"
  by code_simp


text \<open>
  No document satisfies an age gate of 100 or more: the two-digit birth year is read as the
  latest year that has passed, so the age computed from it is at most 99, while the catalogue
  accepts thresholds up to 130. A holder of 101 is given an age of 1.
\<close>

theorem age_gate_ceiling:
  assumes "parseDg1Claims dg1 now = Inr c" and "1000 \<le> ud_year now" and "ud_year now < 9900"
    and "parseAgeOverThreshold k = Some n" and "buildShareClaimValue hmac k c now org = Inr (Claim_bool True)"
  shows "n \<le> 99"
proof -
  from parsed_birth_date [OF assms(1)] obtain v where "buildBirthDateIso v now = Inr (cl_birthDateIso c)" by auto
  from birth_year_recent [OF this assms(2,3)] obtain y mo d where
    b: "cl_birthDateIso c = iso_text y mo d" "ud_year now - 99 \<le> y" "y \<le> ud_year now"
      "0 \<le> mo" "mo < 100" "0 \<le> d" "d < 100" by auto
  have age: "isAgeOverClaim k" using assms(4) by (auto simp: parseAgeOverThreshold_def split: if_splits)
  then have "\<not> isKnownStaticClaim k" using static_not_age by blast
  with assms(4,5) age obtain a where "ageFromDateOfBirth (cl_birthDateIso c) now = Inr a" "int n \<le> a"
    by (auto simp: buildShareClaimValue_def isKnownStaticClaim_def STATIC_CLAIMS_def date_thrown_def
        result_simps split: if_splits sum.splits)
  with age_of_parsed [of y mo d now a] b assms(2,3) show ?thesis by simp
qed

theorem age_gate_ceiling_witness: "(18 :: nat) \<le> 99"
proof (rule age_gate_ceiling [OF sample_page_claims])
  show "1000 \<le> ud_year sample_now" "ud_year sample_now < 9900" by (simp_all add: sample_now_def)
  show "parseAgeOverThreshold ''age_over_18'' = Some 18" by code_simp
  have "ageFromDateOfBirth ''1974-08-12'' sample_now = Inr 51" by code_simp
  then show "buildShareClaimValue id ''age_over_18''
      \<lparr>cl_birthDateIso = ''1974-08-12'', cl_documentNumber = ''L898902C3'', cl_documentType = ''P'',
       cl_expiryDateIso = ''2032-04-15'', cl_givenNames = ''ANNA MARIA'', cl_issuingCountry = ''UTO'',
       cl_nationality = ''UTO'', cl_optionalData = ''ZE184226B'', cl_sex = ''F'', cl_surname = ''DE LA CRUZ''\<rparr>
      sample_now ''org'' = Inr (Claim_bool True)"
    by (simp add: buildShareClaimValue_def isAgeOverClaim_def AGE_OVER_PREFIX_def date_thrown_def
        \<open>parseAgeOverThreshold ''age_over_18'' = Some 18\<close>)
qed

end
