(* ===== verification/Phase_State.thy ===== *)
theory Phase_State
  imports Machines Verify_Codes
begin

text \<open>
  The phases of a verification session and their allowed transitions
  (\<open>apps/api/src/v1/verify/phase-state.ts\<close>), the retry budgets and the classes of failure
  codes (\<open>retry-limits.ts\<close>), and the session statuses (\<open>status.ts\<close>). Phases are strings, as
  in the code: a client may send any.
\<close>

section \<open>Retry limits and failure codes\<close>

definition MAX_NFC_RETRIES :: nat where "MAX_NFC_RETRIES = 3"
definition MAX_LIVENESS_RETRIES :: nat where "MAX_LIVENESS_RETRIES = 3"

datatype check_kind = Check_mrz | Check_nfc | Check_liveness

datatype negative_failure_code =
  document_anti_cloning_attestation_failed
| document_authenticity_failed
| document_active_authentication_failed
| document_chip_authentication_failed
| document_data_invalid
| liveness_failed
| selfie_face_mismatch

definition failedCheckForCode :: "negative_failure_code \<Rightarrow> check_kind" where
  "failedCheckForCode code =
     (if code = document_data_invalid then Check_mrz
      else if code = liveness_failed \<or> code = selfie_face_mismatch then Check_liveness
      else Check_nfc)"

definition isHardKillCode :: "negative_failure_code \<Rightarrow> bool" where
  "isHardKillCode code \<longleftrightarrow> code = document_anti_cloning_attestation_failed"

section \<open>Session statuses\<close>

datatype session_status =
  St_created | St_in_progress | St_succeeded | St_failed | St_expired | St_cancelled

definition ACTIVE_SESSION_STATUSES :: "session_status list" where
  "ACTIVE_SESSION_STATUSES = [St_created, St_in_progress]"

definition TERMINAL_SESSION_STATUSES :: "session_status list" where
  "TERMINAL_SESSION_STATUSES = [St_succeeded, St_failed, St_expired, St_cancelled]"

definition isTerminalSessionStatus :: "session_status \<Rightarrow> bool" where
  "isTerminalSessionStatus status \<longleftrightarrow> status \<in> set TERMINAL_SESSION_STATUSES"

lemma terminal_iff_not_active: "isTerminalSessionStatus st \<longleftrightarrow> st \<notin> set ACTIVE_SESSION_STATUSES"
  by (cases st) (auto simp: isTerminalSessionStatus_def TERMINAL_SESSION_STATUSES_def
      ACTIVE_SESSION_STATUSES_def)

section \<open>Tracked phases\<close>

definition PHASE_SEQUENCE :: "string list" where
  "PHASE_SEQUENCE =
     [''mobile_connected'', ''mrz_scanning'', ''mrz_complete'', ''nfc_reading'', ''nfc_complete'',
      ''liveness_capturing'', ''liveness_complete'']"

definition PHASE_INDEX :: "(string \<times> nat) list" where
  "PHASE_INDEX =
     [(''mobile_connected'', 0), (''mrz_scanning'', 1), (''mrz_complete'', 2), (''nfc_reading'', 3),
      (''nfc_complete'', 4), (''liveness_capturing'', 5), (''liveness_complete'', 6)]"

text \<open>
  The names every object inherits from \<open>Object.prototype\<close>: the \<open>in\<close> operator answers true for
  them too, and looking one up gives a function or object, not a number.
\<close>

definition object_prototype_names :: "string list" where
  "object_prototype_names =
     [''constructor'', ''hasOwnProperty'', ''isPrototypeOf'', ''propertyIsEnumerable'',
      ''toLocaleString'', ''toString'', ''valueOf'', ''__proto__'', ''__defineGetter__'',
      ''__defineSetter__'', ''__lookupGetter__'', ''__lookupSetter__'']"

definition isTrackedSessionPhase :: "string \<Rightarrow> bool" where
  "isTrackedSessionPhase phase \<longleftrightarrow>
     phase \<in> fst ` set PHASE_INDEX \<or> phase \<in> set object_prototype_names"

text \<open>\<open>PHASE_INDEX[phase]\<close> when it is a number; every comparison with another value is false.\<close>

definition phase_number :: "string \<Rightarrow> nat option" where
  "phase_number phase = map_of PHASE_INDEX phase"

text \<open>A string used as a condition: the empty string and \<open>null\<close> are false.\<close>

definition truthy :: "string option \<Rightarrow> bool" where
  "truthy s \<longleftrightarrow> s \<noteq> None \<and> s \<noteq> Some []"

definition isPhaseAtOrAfter :: "string option \<Rightarrow> string \<Rightarrow> bool" where
  "isPhaseAtOrAfter candidate reference =
     (if \<not> (truthy candidate \<and> isTrackedSessionPhase (the candidate)) then False
      else case (phase_number (the candidate), phase_number reference) of
             (Some c, Some r) \<Rightarrow> r \<le> c
           | _ \<Rightarrow> False)"

record retry_context =
  rc_nfcTriesUsed :: nat
  rc_livenessTriesUsed :: nat

text \<open>\<open>Inr (nextPhase, changed)\<close> for \<open>ok: true\<close>, \<open>Inl PHASE_OUT_OF_ORDER\<close> otherwise.\<close>

definition validateTrackedPhaseTransition ::
  "string option \<Rightarrow> string \<Rightarrow> retry_context option \<Rightarrow> verify_code + string \<times> bool" where
  "validateTrackedPhaseTransition currentPhase nextPhase retryContext =
     (if \<not> isTrackedSessionPhase nextPhase then Inl PHASE_OUT_OF_ORDER
      else if \<not> truthy currentPhase then
        (if nextPhase \<noteq> ''mobile_connected'' then Inl PHASE_OUT_OF_ORDER else Inr (nextPhase, True))
      else
        let current = the currentPhase
        in if \<not> isTrackedSessionPhase current then Inl PHASE_OUT_OF_ORDER
           else if current = nextPhase then Inr (nextPhase, False)
           else if (case (phase_number current, phase_number nextPhase) of
                      (Some currentIndex, Some nextIndex) \<Rightarrow> nextIndex = currentIndex + 1
                    | _ \<Rightarrow> False) then Inr (nextPhase, True)
           else if current = ''mrz_complete'' \<and> nextPhase = ''mrz_scanning'' then Inr (nextPhase, True)
           else if current = ''nfc_complete'' \<and> nextPhase = ''nfc_reading'' then
             (if (case retryContext of None \<Rightarrow> False | Some r \<Rightarrow> MAX_NFC_RETRIES \<le> rc_nfcTriesUsed r)
              then Inl PHASE_OUT_OF_ORDER else Inr (nextPhase, True))
           else if current = ''liveness_complete'' \<and> nextPhase = ''liveness_capturing'' then
             (if (case retryContext of None \<Rightarrow> False | Some r \<Rightarrow> MAX_LIVENESS_RETRIES \<le> rc_livenessTriesUsed r)
              then Inl PHASE_OUT_OF_ORDER else Inr (nextPhase, True))
           else Inl PHASE_OUT_OF_ORDER)"

section \<open>The transition relation\<close>

text \<open>The transitions the module's comment describes, with the budgets as a parameter.\<close>

inductive phase_step :: "bool \<Rightarrow> bool \<Rightarrow> string option \<Rightarrow> string \<Rightarrow> bool" for nfc_left live_left where
  start: "phase_step nfc_left live_left None ''mobile_connected''"
| advance: "i + 1 < length PHASE_SEQUENCE \<Longrightarrow>
    phase_step nfc_left live_left (Some (PHASE_SEQUENCE ! i)) (PHASE_SEQUENCE ! (i + 1))"
| mrz_again: "phase_step nfc_left live_left (Some ''mrz_complete'') ''mrz_scanning''"
| nfc_again: "nfc_left \<Longrightarrow> phase_step nfc_left live_left (Some ''nfc_complete'') ''nfc_reading''"
| liveness_again: "live_left \<Longrightarrow>
    phase_step nfc_left live_left (Some ''liveness_complete'') ''liveness_capturing''"

inductive_cases phase_step_fromE: "phase_step nfc_left live_left cur nxt"

definition canonical :: "string option \<Rightarrow> bool" where
  "canonical p \<longleftrightarrow> (case p of None \<Rightarrow> True | Some s \<Rightarrow> s \<in> set PHASE_SEQUENCE)"

definition nfc_left_of :: "retry_context option \<Rightarrow> bool" where
  "nfc_left_of r \<longleftrightarrow> (case r of None \<Rightarrow> True | Some c \<Rightarrow> rc_nfcTriesUsed c < MAX_NFC_RETRIES)"

definition liveness_left_of :: "retry_context option \<Rightarrow> bool" where
  "liveness_left_of r \<longleftrightarrow> (case r of None \<Rightarrow> True | Some c \<Rightarrow> rc_livenessTriesUsed c < MAX_LIVENESS_RETRIES)"

lemma length_PHASE_SEQUENCE [simp]: "length PHASE_SEQUENCE = 7"
  by (simp add: PHASE_SEQUENCE_def)

lemma canonical_cases:
  assumes "canonical p"
  obtains "p = None" | i where "i < 7" and "p = Some (PHASE_SEQUENCE ! i)"
  using assms by (cases p) (auto simp: canonical_def in_set_conv_nth)

lemma less_7_cases: "(i::nat) < 7 \<longleftrightarrow> i \<in> {0, 1, 2, 3, 4, 5, 6}"
  by auto

lemmas phase_tables = PHASE_SEQUENCE_def PHASE_INDEX_def object_prototype_names_def

lemma phase_number_sequence: "i < 7 \<Longrightarrow> phase_number (PHASE_SEQUENCE ! i) = Some i"
  unfolding less_7_cases by (auto simp: phase_number_def phase_tables)

lemma phase_number_canonical: "phase_number s = Some i \<longleftrightarrow> i < 7 \<and> s = PHASE_SEQUENCE ! i"
proof
  assume "phase_number s = Some i"
  then have "(s, i) \<in> set PHASE_INDEX" unfolding phase_number_def by (rule map_of_SomeD)
  then show "i < 7 \<and> s = PHASE_SEQUENCE ! i" by (auto simp: phase_tables)
qed (simp add: phase_number_sequence)

lemma PHASE_SEQUENCE_eq_iff: "i < 7 \<Longrightarrow> j < 7 \<Longrightarrow> PHASE_SEQUENCE ! i = PHASE_SEQUENCE ! j \<longleftrightarrow> i = j"
  by (metis option.inject phase_number_sequence)

lemma sequence_tracked: "i < 7 \<Longrightarrow> isTrackedSessionPhase (PHASE_SEQUENCE ! i) \<and> truthy (Some (PHASE_SEQUENCE ! i))"
  unfolding less_7_cases by (auto simp: isTrackedSessionPhase_def truthy_def phase_tables)

lemma sequence_names:
  "''mobile_connected'' = PHASE_SEQUENCE ! 0" "''mrz_scanning'' = PHASE_SEQUENCE ! 1"
  "''mrz_complete'' = PHASE_SEQUENCE ! 2" "''nfc_reading'' = PHASE_SEQUENCE ! 3"
  "''nfc_complete'' = PHASE_SEQUENCE ! 4" "''liveness_capturing'' = PHASE_SEQUENCE ! 5"
  "''liveness_complete'' = PHASE_SEQUENCE ! 6"
  by (simp_all add: PHASE_SEQUENCE_def)

lemma prototype_not_in_sequence: "s \<in> set object_prototype_names \<Longrightarrow> s \<notin> set PHASE_SEQUENCE"
  by (auto simp: phase_tables)

text \<open>On canonical phases the validation is arithmetic on their positions.\<close>

lemma budget_left:
  "(case r of None \<Rightarrow> False | Some c \<Rightarrow> MAX_NFC_RETRIES \<le> rc_nfcTriesUsed c) \<longleftrightarrow> \<not> nfc_left_of r"
  "(case r of None \<Rightarrow> False | Some c \<Rightarrow> MAX_LIVENESS_RETRIES \<le> rc_livenessTriesUsed c) \<longleftrightarrow> \<not> liveness_left_of r"
  by (auto simp: nfc_left_of_def liveness_left_of_def split: option.splits)

lemma small_positions: "0 < (7::nat)" "1 < (7::nat)" "2 < (7::nat)" "3 < (7::nat)" "4 < (7::nat)" "5 < (7::nat)"
  "6 < (7::nat)"
  by simp_all

lemma validate_positions:
  assumes "i < 7" and "j < 7"
  shows "validateTrackedPhaseTransition (Some (PHASE_SEQUENCE ! i)) (PHASE_SEQUENCE ! j) r =
    (if i = j then Inr (PHASE_SEQUENCE ! j, False)
     else if j = i + 1 \<or> i = 2 \<and> j = 1 \<or> i = 4 \<and> j = 3 \<and> nfc_left_of r \<or> i = 6 \<and> j = 5 \<and> liveness_left_of r
     then Inr (PHASE_SEQUENCE ! j, True) else Inl PHASE_OUT_OF_ORDER)"
proof -
  have "validateTrackedPhaseTransition (Some (PHASE_SEQUENCE ! i)) (PHASE_SEQUENCE ! j) r =
    (if i = j then Inr (PHASE_SEQUENCE ! j, False)
     else if j = i + 1 then Inr (PHASE_SEQUENCE ! j, True)
     else if i = 2 \<and> j = 1 then Inr (PHASE_SEQUENCE ! j, True)
     else if i = 4 \<and> j = 3 then
       (if \<not> nfc_left_of r then Inl PHASE_OUT_OF_ORDER else Inr (PHASE_SEQUENCE ! j, True))
     else if i = 6 \<and> j = 5 then
       (if \<not> liveness_left_of r then Inl PHASE_OUT_OF_ORDER else Inr (PHASE_SEQUENCE ! j, True))
     else Inl PHASE_OUT_OF_ORDER)"
    using assms sequence_tracked [OF assms(1)] sequence_tracked [OF assms(2)]
    by (simp only: validateTrackedPhaseTransition_def sequence_names Let_def option.sel simp_thms if_False
        phase_number_sequence option.case prod.case budget_left PHASE_SEQUENCE_eq_iff small_positions)
  then show ?thesis by simp
qed

lemma validate_start:
  "validateTrackedPhaseTransition None nxt r =
     (if nxt = ''mobile_connected'' then Inr (nxt, True) else Inl PHASE_OUT_OF_ORDER)"
  by (simp add: validateTrackedPhaseTransition_def truthy_def isTrackedSessionPhase_def PHASE_INDEX_def)

text \<open>A name that is not a phase is refused, the inherited names included.\<close>

lemma validate_foreign:
  assumes "canonical cur" and "nxt \<notin> set PHASE_SEQUENCE"
  shows "validateTrackedPhaseTransition cur nxt r = Inl PHASE_OUT_OF_ORDER"
proof (rule canonical_cases [OF assms(1)])
  assume "cur = None"
  with assms(2) show ?thesis by (auto simp: validate_start PHASE_SEQUENCE_def)
next
  fix i assume i: "i < 7" "cur = Some (PHASE_SEQUENCE ! i)"
  have n: "phase_number nxt = None"
    by (metis assms(2) length_PHASE_SEQUENCE not_None_eq nth_mem phase_number_canonical)
  have ne: "\<And>k. k < 7 \<Longrightarrow> nxt \<noteq> PHASE_SEQUENCE ! k" using assms(2) by auto
  then have ne': "\<And>k. k < 7 \<Longrightarrow> PHASE_SEQUENCE ! k \<noteq> nxt" by metis
  show ?thesis
    by (simp only: validateTrackedPhaseTransition_def sequence_names i Let_def n ne ne' small_positions
        option.sel option.case prod.case phase_number_sequence if_False simp_thms if_cancel
        sequence_tracked [OF i(1)])
qed

lemma phase_step_positions:
  "i < 7 \<Longrightarrow> j < 7 \<Longrightarrow> phase_step a b (Some (PHASE_SEQUENCE ! i)) (PHASE_SEQUENCE ! j) \<longleftrightarrow>
     j = i + 1 \<or> i = 2 \<and> j = 1 \<or> i = 4 \<and> j = 3 \<and> a \<or> i = 6 \<and> j = 5 \<and> b"
  unfolding sequence_names
  by (auto simp: PHASE_SEQUENCE_eq_iff phase_step.simps sequence_names)

lemma phase_step_target: "phase_step a b cur nxt \<Longrightarrow> nxt \<in> set PHASE_SEQUENCE"
  by (erule phase_step.cases) (auto simp: sequence_names)

text \<open>
  From any phase the server itself can hold, the validation accepts exactly the transitions
  of the phase relation: the next phase in sequence, the three rewinds with a try left, or the
  phase already held (reported as unchanged). Every other string is refused, among them the
  names every JavaScript object inherits, which \<open>isTrackedSessionPhase\<close> lets through.
\<close>

theorem phase_validation_exact:
  assumes "canonical cur"
  shows "validateTrackedPhaseTransition cur nxt r = Inr (p, changed) \<longleftrightarrow>
    p = nxt \<and> (if changed then phase_step (nfc_left_of r) (liveness_left_of r) cur nxt \<and> cur \<noteq> Some nxt
                else cur = Some nxt)"
proof (cases "nxt \<in> set PHASE_SEQUENCE")
  case False
  with assms show ?thesis
    by (auto simp: validate_foreign canonical_def dest: phase_step_target)
next
  case True
  then obtain j where j: "j < 7" "nxt = PHASE_SEQUENCE ! j" by (auto simp: in_set_conv_nth)
  show ?thesis
  proof (rule canonical_cases [OF assms])
    assume "cur = None"
    then show ?thesis by (auto simp: validate_start phase_step.simps)
  next
    fix i assume "i < 7" "cur = Some (PHASE_SEQUENCE ! i)"
    with j show ?thesis
      by (auto simp: validate_positions phase_step_positions PHASE_SEQUENCE_eq_iff)
  qed
qed

lemma phase_validation_exact_witness:
  "validateTrackedPhaseTransition (Some ''nfc_complete'') ''nfc_reading'' None = Inr (''nfc_reading'', True)"
  using phase_validation_exact [of "Some ''nfc_complete''" "''nfc_reading''" None "''nfc_reading''" True]
  by (simp add: canonical_def PHASE_SEQUENCE_def phase_step.simps nfc_left_of_def)

section \<open>What the history of a phase must contain\<close>

text \<open>The phase after a client's phase message: a refused message leaves it.\<close>

definition phase_accept :: "string option \<Rightarrow> string \<times> retry_context option \<Rightarrow> string option" where
  "phase_accept cur m =
     (case validateTrackedPhaseTransition cur (fst m) (snd m) of
        Inl _ \<Rightarrow> cur
      | Inr (p, changed) \<Rightarrow> Some p)"

lemma validate_result_canonical:
  assumes "canonical cur" and "validateTrackedPhaseTransition cur nxt r = Inr (p, changed)"
  shows "p = nxt" and "p \<in> set PHASE_SEQUENCE"
proof -
  from assms(2) show "p = nxt"
    unfolding validateTrackedPhaseTransition_def Let_def by (simp only: split: if_split_asm) simp_all
  show "p \<in> set PHASE_SEQUENCE"
    using assms(2) validate_foreign [OF assms(1), of nxt r] \<open>p = nxt\<close> by auto
qed

lemma phase_accept_canonical: "canonical cur \<Longrightarrow> canonical (phase_accept cur m)"
  using validate_result_canonical [of cur "fst m" "snd m"]
  by (auto simp: phase_accept_def canonical_def split: sum.split prod.split)

interpretation phm: invariant_machine phase_accept canonical
  by unfold_locales (rule phase_accept_canonical)

lemma canonical_None [simp]: "canonical None"
  by (simp add: canonical_def)

lemma take_Suc_sequence: "i < 7 \<Longrightarrow> take (Suc i) PHASE_SEQUENCE = take i PHASE_SEQUENCE @ [PHASE_SEQUENCE ! i]"
  by (simp add: take_Suc_conv_app_nth)

lemma take_subseq: "k \<le> i \<Longrightarrow> subseq (take k xs) (take i xs)"
  by (metis min.absorb1 prefix_imp_subseq take_is_prefix take_take)

lemma phase_accept_history:
  assumes cur: "canonical cur"
    and hist: "\<And>i. i < 7 \<Longrightarrow> cur = Some (PHASE_SEQUENCE ! i) \<Longrightarrow> subseq (take (Suc i) PHASE_SEQUENCE) h"
    and j: "j < 7" "phase_accept cur m = Some (PHASE_SEQUENCE ! j)"
  shows "subseq (take (Suc j) PHASE_SEQUENCE) (h @ [fst m])"
proof (rule canonical_cases [OF cur])
  assume "cur = None"
  with j show ?thesis
    by (auto simp: phase_accept_def validate_start sequence_names PHASE_SEQUENCE_eq_iff take_Suc_sequence
        split: if_splits intro: list_emb_append2)
next
  fix i assume i: "i < 7" "cur = Some (PHASE_SEQUENCE ! i)"
  from hist [OF i] have h: "subseq (take (Suc i) PHASE_SEQUENCE) (h @ [fst m])"
    by (rule subseq_rev_drop_many [where zs = "[fst m]"])
  have le: "k \<le> i \<Longrightarrow> subseq (take (Suc k) PHASE_SEQUENCE) (h @ [fst m])" for k
    using h take_subseq [of "Suc k" "Suc i" PHASE_SEQUENCE] by (simp add: subseq_order.order_trans)
  show ?thesis
  proof (cases "fst m \<in> set PHASE_SEQUENCE")
    case False
    with j cur have "cur = Some (PHASE_SEQUENCE ! j)"
      by (simp add: phase_accept_def validate_foreign)
    with i j have "j = i" by (simp add: PHASE_SEQUENCE_eq_iff)
    with le show ?thesis by simp
  next
    case True
    then obtain k where k: "k < 7" "fst m = PHASE_SEQUENCE ! k" by (auto simp: in_set_conv_nth)
    consider "j \<le> i" | "j = Suc i" "k = j"
    proof -
      have "phase_accept cur m = (if i = k \<or> k = i + 1 \<or> i = 2 \<and> k = 1 \<or>
            i = 4 \<and> k = 3 \<and> nfc_left_of (snd m) \<or> i = 6 \<and> k = 5 \<and> liveness_left_of (snd m)
          then Some (PHASE_SEQUENCE ! k) else Some (PHASE_SEQUENCE ! i))"
        using i(1) k by (simp add: phase_accept_def validate_positions i(2))
      with j(2) have "PHASE_SEQUENCE ! j = PHASE_SEQUENCE ! i \<or>
          PHASE_SEQUENCE ! j = PHASE_SEQUENCE ! k \<and> (k \<le> i \<or> k = Suc i)"
        by (simp split: if_split_asm) fastforce
      with i(1) j(1) k(1) have "j = i \<or> j = k \<and> (k \<le> i \<or> k = Suc i)"
        by (simp add: PHASE_SEQUENCE_eq_iff)
      with that show thesis by auto
    qed
    then show ?thesis
    proof cases
      case 2
      then have "subseq (take (Suc i) PHASE_SEQUENCE @ [PHASE_SEQUENCE ! j]) (h @ [fst m])"
        using hist [OF i] k by (intro list_emb_append_mono) auto
      with 2(1) show ?thesis unfolding take_Suc_sequence [OF j(1)] by simp
    qed (rule le)
  qed
qed

text \<open>
  A session holds a phase only if its clients announced that phase and every phase before
  it, in the canonical order: whatever was sent (rewinds, repetitions, foreign names, spent
  budgets), the prefix of the sequence up to the phase held is a subsequence of the messages. So
  the data gate \<open>isPhaseAtOrAfter(phase, "nfc_reading")\<close> is open only after the four
  announcements up to the chip reading.
\<close>

theorem phase_history:
  fixes ms :: "(string \<times> retry_context option) list"
  defines "cur \<equiv> foldl phase_accept None ms"
  shows "canonical cur \<and> (\<forall>i < 7. isPhaseAtOrAfter cur (PHASE_SEQUENCE ! i) \<longrightarrow>
      subseq (take (Suc i) PHASE_SEQUENCE) (map fst ms))"
proof -
  have can: "canonical cur" unfolding cur_def by (rule phm.run_inv [OF canonical_None])
  have hist: "subseq (take (Suc i) PHASE_SEQUENCE) (map fst ms)"
    if "i < 7" "foldl phase_accept None ms = Some (PHASE_SEQUENCE ! i)" for i
    using that
  proof (induction ms arbitrary: i rule: rev_induct)
    case Nil
    then show ?case by simp
  next
    case (snoc m ms)
    from snoc show ?case
      using phase_accept_history [OF phm.run_inv [OF canonical_None, of ms], of "map fst ms" i m] by simp
  qed
  have "subseq (take (Suc i) PHASE_SEQUENCE) (map fst ms)"
    if i: "i < 7" and at: "isPhaseAtOrAfter cur (PHASE_SEQUENCE ! i)" for i
  proof (rule canonical_cases [OF can])
    assume "cur = None"
    with at show ?thesis by (simp add: isPhaseAtOrAfter_def truthy_def)
  next
    fix k assume k: "k < 7" "cur = Some (PHASE_SEQUENCE ! k)"
    with i at have "i \<le> k"
      by (auto simp: isPhaseAtOrAfter_def phase_number_sequence sequence_tracked split: if_splits)
    with hist [OF k(1)] k take_subseq [of "Suc i" "Suc k" PHASE_SEQUENCE] show ?thesis
      by (simp add: cur_def subseq_order.order_trans)
  qed
  with can show ?thesis by blast
qed

lemma phase_history_witness:
  "subseq (take 2 PHASE_SEQUENCE) [''mobile_connected'', ''toString'', ''mrz_scanning'']"
  using phase_history [of "[(''mobile_connected'', None), (''toString'', None), (''mrz_scanning'', None)]"]
  by (simp add: numeral_2_eq_2 phase_accept_def validate_start PHASE_SEQUENCE_def)

end
