(* ===== verification/Session_Store.thy ===== *)
theory Session_Store
  imports Share_Contract Phase_State Complex_Main
begin

text \<open>
  The session table and the writes that move a session between statuses
  (\<open>packages/database/src/schema/core.ts\<close>, \<open>apps/api/src/v1/verify/outcome-*.ts\<close>,
  \<open>session-connection.ts\<close>, \<open>phase-state.ts\<close>, \<open>sessions/repo/*.ts\<close>). The database is the part
  of it these writes touch; a transaction is one step that returns the database unchanged when
  its body throws. The clock, generated identifiers and the delivery service's answers are
  arguments. Times are milliseconds.
\<close>

section \<open>Tables\<close>

record session_row =
  vs_org :: string
  vs_status :: session_status
  vs_contractVersion :: int
  vs_shareFields :: json
  vs_redirectUrl :: "string option"
  vs_webhookEndpointIds :: "string list option"
  vs_cancelTokenHash :: "string option"
  vs_cancelTokenConsumedAt :: "int option"
  vs_isAgeOnly :: bool
  vs_expiresAt :: int
  vs_completedAt :: "int option"
  vs_failureCode :: "negative_failure_code option"
  vs_nfcTriesUsed :: nat
  vs_livenessTriesUsed :: nat
  vs_riskScore :: rat
  vs_selectedShareFieldKeys :: "string list"
  vs_currentPhase :: "string option"
  vs_phaseUpdatedAt :: "int option"
  vs_writeTokenSeed :: "string option"
  vs_writeTokenHash :: "string option"
  vs_writeTokenIssuedAt :: "int option"
  vs_writeTokenExpiresAt :: "int option"
  vs_writeTokenConsumedAt :: "int option"
  vs_helloDeviceIdHash :: "string option"
  vs_helloAppVersion :: "string option"
  vs_attestKeyId :: "string option"
  vs_claimedBy :: "string option"
  vs_claimedAt :: "int option"
  vs_createdAt :: int

datatype event_type = Ev_session_succeeded | Ev_session_failed | Ev_session_expired | Ev_session_cancelled

record event_row =
  er_id :: string
  er_org :: string
  er_type :: event_type
  er_trigger :: string

datatype audit_event =
  Au_check_failed negative_failure_code check_kind
| Au_failed negative_failure_code "check_kind option" nat nat
| Au_succeeded
| Au_expired
| Au_cancelled
| Au_created bool nat
| Au_privacy_request session_status nat nat nat nat

record audit_row =
  ar_org :: string
  ar_target :: string
  ar_event :: audit_event

datatype cancelled_reason =
  Rs_cancelled | Rs_cancelled_after_failed_check
| Rs_privacy_after_terminal_failure | Rs_privacy_after_terminal_success

datatype webhook_kind =
  Wh_succeeded
| Wh_failed negative_failure_code nat nat
| Wh_expired
| Wh_cancelled cancelled_reason nat nat

text \<open>A call of the delivery service, recorded in the order made.\<close>

record webhook_call =
  wc_kind :: webhook_kind
  wc_eventId :: string
  wc_org :: string
  wc_session :: string
  wc_version :: int

record db =
  db_sessions :: "(string, session_row) jsmap"
  db_events :: "event_row list"
  db_audit :: "audit_row list"
  db_consents :: "(string, string list) jsmap"
  db_webhooks :: "webhook_call list"

section \<open>Conditional updates\<close>

text \<open>\<open>UPDATE verification_sessions SET f WHERE id = sid AND cond RETURNING *\<close>\<close>

definition update_session ::
  "db \<Rightarrow> string \<Rightarrow> (session_row \<Rightarrow> bool) \<Rightarrow> (session_row \<Rightarrow> session_row) \<Rightarrow> db \<times> session_row option" where
  "update_session db sid cond f =
     (case jm_get (db_sessions db) sid of
        None \<Rightarrow> (db, None)
      | Some row \<Rightarrow>
          if cond row then (db\<lparr>db_sessions := jm_set sid (f row) (db_sessions db)\<rparr>, Some (f row))
          else (db, None))"

definition is_active :: "session_row \<Rightarrow> bool" where
  "is_active row \<longleftrightarrow> vs_status row \<in> set ACTIVE_SESSION_STATUSES"

definition insert_event :: "db \<Rightarrow> string \<Rightarrow> string \<Rightarrow> event_type \<Rightarrow> string \<Rightarrow> db" where
  "insert_event db evtId org ty sid =
     db\<lparr>db_events := db_events db @ [\<lparr>er_id = evtId, er_org = org, er_type = ty, er_trigger = sid\<rparr>]\<rparr>"

definition record_audit :: "db \<Rightarrow> string \<Rightarrow> string \<Rightarrow> audit_event \<Rightarrow> db" where
  "record_audit db org sid ev =
     db\<lparr>db_audit := db_audit db @ [\<lparr>ar_org = org, ar_target = sid, ar_event = ev\<rparr>]\<rparr>"

definition call_webhook :: "db \<Rightarrow> webhook_kind \<Rightarrow> string \<Rightarrow> string \<Rightarrow> string \<Rightarrow> int \<Rightarrow> db" where
  "call_webhook db kind evtId org sid ver =
     db\<lparr>db_webhooks := db_webhooks db @
          [\<lparr>wc_kind = kind, wc_eventId = evtId, wc_org = org, wc_session = sid, wc_version = ver\<rparr>]\<rparr>"

section \<open>Outcome: scores and events\<close>

text \<open>A score is a rational, or \<open>None\<close> for \<open>NaN\<close>.\<close>

definition normalizeRiskScore :: "rat option \<Rightarrow> rat" where
  "normalizeRiskScore score = (case score of None \<Rightarrow> 0 | Some s \<Rightarrow> max 0 (min 1 s))"

record session_context =
  sc_contractVersion :: int
  sc_id :: string
  sc_org :: string
  sc_status :: session_status
  sc_completedAt :: "int option"

definition recordCheckFailedAuditLog ::
  "db \<Rightarrow> session_context \<Rightarrow> negative_failure_code \<Rightarrow> check_kind \<Rightarrow> db" where
  "recordCheckFailedAuditLog db session failureCode failedCheck =
     record_audit db (sc_org session) (sc_id session) (Au_check_failed failureCode failedCheck)"

definition createSessionFailedEvent ::
  "db \<Rightarrow> string \<Rightarrow> session_context \<Rightarrow> negative_failure_code \<Rightarrow> nat \<Rightarrow> nat \<Rightarrow> check_kind option \<Rightarrow> db" where
  "createSessionFailedEvent db evtId session failureCode nfcTriesUsed livenessTriesUsed failedCheck =
     record_audit (insert_event db evtId (sc_org session) Ev_session_failed (sc_id session))
       (sc_org session) (sc_id session) (Au_failed failureCode failedCheck nfcTriesUsed livenessTriesUsed)"

text \<open>The guard every terminal transition of a session context uses.\<close>

definition owned_active :: "session_context \<Rightarrow> session_row \<Rightarrow> bool" where
  "owned_active session row \<longleftrightarrow> vs_org row = sc_org session \<and> is_active row"

section \<open>Outcome: terminal failure\<close>

record failed_result =
  fr_deliveryIds :: "string list"
  fr_nfcTriesUsed :: nat
  fr_livenessTriesUsed :: nat

definition markSessionFailed ::
  "(webhook_call \<Rightarrow> string list) \<Rightarrow> int \<Rightarrow> string \<Rightarrow> db \<Rightarrow> session_context \<Rightarrow> negative_failure_code \<Rightarrow>
     rat option \<Rightarrow> db \<times> session_context \<times> failed_result" where
  "markSessionFailed deliveries now evtId db session failureCode riskScore =
     (case update_session db (sc_id session) (owned_active session)
             (\<lambda>row. row\<lparr>vs_status := St_failed, vs_failureCode := Some failureCode,
                        vs_riskScore := max (vs_riskScore row) (normalizeRiskScore riskScore),
                        vs_completedAt := Some now\<rparr>) of
        (_, None) \<Rightarrow>
          (db, session, \<lparr>fr_deliveryIds = [], fr_nfcTriesUsed = 0, fr_livenessTriesUsed = 0\<rparr>)
      | (db1, Some terminated) \<Rightarrow>
          let nfc = vs_nfcTriesUsed terminated; live = vs_livenessTriesUsed terminated;
              db2 = createSessionFailedEvent db1 evtId session failureCode nfc live None;
              session' = session\<lparr>sc_status := vs_status terminated, sc_completedAt := vs_completedAt terminated\<rparr>;
              db3 = call_webhook db2 (Wh_failed failureCode nfc live) evtId (sc_org session) (sc_id session)
                      (sc_contractVersion session)
          in (db3, session', \<lparr>fr_deliveryIds = deliveries (last (db_webhooks db3)),
                              fr_nfcTriesUsed = nfc, fr_livenessTriesUsed = live\<rparr>))"

section \<open>Outcome: failed checks\<close>

record check_failed_result =
  cf_terminalized :: bool
  cf_deliveryIds :: "string list"
  cf_nfcTriesUsed :: nat
  cf_livenessTriesUsed :: nat
  cf_remainingNfc :: nat
  cf_remainingLiveness :: nat

definition check_result :: "bool \<Rightarrow> string list \<Rightarrow> nat \<Rightarrow> nat \<Rightarrow> check_failed_result" where
  "check_result terminalized ids nfc live =
     \<lparr>cf_terminalized = terminalized, cf_deliveryIds = ids, cf_nfcTriesUsed = nfc,
      cf_livenessTriesUsed = live, cf_remainingNfc = MAX_NFC_RETRIES - nfc,
      cf_remainingLiveness = MAX_LIVENESS_RETRIES - live\<rparr>"

definition rewindUnlimitedMrzFailure ::
  "int \<Rightarrow> db \<Rightarrow> session_context \<Rightarrow> rat option \<Rightarrow> db \<times> check_failed_result" where
  "rewindUnlimitedMrzFailure now db session riskScore =
     (let db1 = fst (update_session db (sc_id session) (\<lambda>_. True)
                  (\<lambda>row. row\<lparr>vs_currentPhase := Some ''mrz_scanning'', vs_phaseUpdatedAt := Some now,
                             vs_riskScore := max (vs_riskScore row) (normalizeRiskScore riskScore)\<rparr>));
          row = jm_get (db_sessions db1) (sc_id session);
          nfc = (case row of None \<Rightarrow> 0 | Some r \<Rightarrow> vs_nfcTriesUsed r);
          live = (case row of None \<Rightarrow> 0 | Some r \<Rightarrow> vs_livenessTriesUsed r)
      in (db1, check_result False [] nfc live))"

record retry_result =
  rr_nfcTriesUsed :: nat
  rr_livenessTriesUsed :: nat
  rr_terminalized :: bool
  rr_eventId :: "string option"

text \<open>\<open>None\<close> is \<open>SessionTransitionSkippedError\<close>: the transaction is rolled back.\<close>

definition incrementRetryFailure ::
  "int \<Rightarrow> string \<Rightarrow> db \<Rightarrow> session_context \<Rightarrow> negative_failure_code \<Rightarrow> rat option \<Rightarrow> check_kind \<Rightarrow>
     (db \<times> session_context \<times> retry_result) option" where
  "incrementRetryFailure now evtId db session failureCode riskScore check =
     (let rewindPhase = (if check = Check_nfc then ''nfc_reading'' else ''liveness_capturing'');
          maxRetries = (if check = Check_nfc then MAX_NFC_RETRIES else MAX_LIVENESS_RETRIES)
      in case update_session db (sc_id session) (owned_active session)
                (\<lambda>row. row\<lparr>vs_nfcTriesUsed := (if check = Check_nfc then vs_nfcTriesUsed row + 1 else vs_nfcTriesUsed row),
                           vs_livenessTriesUsed := (if check = Check_nfc then vs_livenessTriesUsed row else vs_livenessTriesUsed row + 1),
                           vs_currentPhase := Some rewindPhase, vs_phaseUpdatedAt := Some now,
                           vs_riskScore := max (vs_riskScore row) (normalizeRiskScore riskScore)\<rparr>) of
           (_, None) \<Rightarrow> None
         | (db1, Some incremented) \<Rightarrow>
             let db2 = recordCheckFailedAuditLog db1 session failureCode check;
                 nfc = vs_nfcTriesUsed incremented; live = vs_livenessTriesUsed incremented;
                 checkTriesUsed = (if check = Check_nfc then nfc else live)
             in if checkTriesUsed < maxRetries then
                  Some (db2, session, \<lparr>rr_nfcTriesUsed = nfc, rr_livenessTriesUsed = live,
                                       rr_terminalized = False, rr_eventId = None\<rparr>)
                else
                  case update_session db2 (sc_id session) (owned_active session)
                         (\<lambda>row. row\<lparr>vs_status := St_failed, vs_failureCode := Some failureCode,
                                    vs_completedAt := Some now\<rparr>) of
                    (_, None) \<Rightarrow> None
                  | (db3, Some terminated) \<Rightarrow>
                      Some (createSessionFailedEvent db3 evtId session failureCode nfc live (Some check),
                            session\<lparr>sc_status := vs_status terminated, sc_completedAt := vs_completedAt terminated\<rparr>,
                            \<lparr>rr_nfcTriesUsed = nfc, rr_livenessTriesUsed = live, rr_terminalized = True,
                             rr_eventId = Some evtId\<rparr>))"

definition markCheckFailed ::
  "(webhook_call \<Rightarrow> string list) \<Rightarrow> int \<Rightarrow> string \<Rightarrow> db \<Rightarrow> session_context \<Rightarrow> negative_failure_code \<Rightarrow>
     rat option \<Rightarrow> db \<times> session_context \<times> check_failed_result" where
  "markCheckFailed deliveries now evtId db session failureCode riskScore =
     (if isHardKillCode failureCode then
        let (db1, session1, terminalResult) = markSessionFailed deliveries now evtId db session failureCode riskScore
        in (db1, session1, check_result True (fr_deliveryIds terminalResult)
              (fr_nfcTriesUsed terminalResult) (fr_livenessTriesUsed terminalResult))
      else
        let check = failedCheckForCode failureCode
        in if check = Check_mrz then
             let (db1, result) = rewindUnlimitedMrzFailure now db session riskScore in (db1, session, result)
           else
             case incrementRetryFailure now evtId db session failureCode riskScore check of
               None \<Rightarrow> (db, session, check_result True [] MAX_NFC_RETRIES MAX_LIVENESS_RETRIES)
             | Some (db1, session1, txResult) \<Rightarrow>
                 let nfc = rr_nfcTriesUsed txResult; live = rr_livenessTriesUsed txResult;
                     db2 = (case (rr_terminalized txResult, rr_eventId txResult) of
                              (True, Some eid) \<Rightarrow>
                                call_webhook db1 (Wh_failed failureCode nfc live) eid (sc_org session) (sc_id session)
                                  (sc_contractVersion session)
                            | _ \<Rightarrow> db1);
                     ids = (if rr_terminalized txResult \<and> rr_eventId txResult \<noteq> None
                            then deliveries (last (db_webhooks db2)) else [])
                 in (db2, session1, check_result (rr_terminalized txResult) ids nfc live))"

end
