(* ===== verification/Session_Lifecycle.thy ===== *)
theory Session_Lifecycle
  imports Session_Store
begin

text \<open>
  The other writes of the session table: success (\<open>verify/outcome-success.ts\<close>), expiry,
  cancellation, privacy requests and creation (\<open>sessions/repo/*.ts\<close>), the connection claim
  (\<open>verify/session-connection.ts\<close>), the persisted phase (\<open>verify/phase-state.ts\<close>) and the
  consent (\<open>verify/consent-records.ts\<close>).
\<close>

section \<open>Success\<close>

text \<open>\<open>Inl\<close> a face score, \<open>Inr\<close> a risk score.\<close>

definition resolveSuccessRiskScore :: "rat option + rat option \<Rightarrow> rat" where
  "resolveSuccessRiskScore scoreInput =
     (case scoreInput of
        Inr risk \<Rightarrow> normalizeRiskScore risk
      | Inl face \<Rightarrow> normalizeRiskScore (Some (1 - normalizeRiskScore face)))"

definition markSessionSucceeded ::
  "(webhook_call \<Rightarrow> string list) \<Rightarrow> int \<Rightarrow> string \<Rightarrow> db \<Rightarrow> session_context \<Rightarrow> string list \<Rightarrow>
     rat option + rat option \<Rightarrow> db \<times> session_context \<times> (string option \<times> string list)" where
  "markSessionSucceeded deliveries now evtId db session selectedFieldKeys scoreInput =
     (case update_session db (sc_id session) (owned_active session)
             (\<lambda>row. row\<lparr>vs_status := St_succeeded, vs_failureCode := None,
                        vs_riskScore := resolveSuccessRiskScore scoreInput,
                        vs_selectedShareFieldKeys := selectedFieldKeys, vs_completedAt := Some now\<rparr>) of
        (_, None) \<Rightarrow> (db, session, (None, []))
      | (db1, Some completed) \<Rightarrow>
          let db2 = db1\<lparr>db_consents := map (\<lambda>(sid, claims). (sid, if sid = sc_id session then selectedFieldKeys else claims))
                                        (db_consents db1)\<rparr>;
              db3 = record_audit (insert_event db2 evtId (sc_org session) Ev_session_succeeded (sc_id session))
                      (sc_org session) (sc_id session) Au_succeeded;
              db4 = call_webhook db3 Wh_succeeded evtId (sc_org session) (sc_id session) (sc_contractVersion session)
          in (db4, session\<lparr>sc_status := St_succeeded, sc_completedAt := Some now\<rparr>,
              (Some evtId, deliveries (last (db_webhooks db4)))))"

section \<open>Expiry\<close>

definition EXPIRED_SESSION_NORMALIZATION_BATCH_SIZE :: nat where
  "EXPIRED_SESSION_NORMALIZATION_BATCH_SIZE = 100"
definition EXPIRED_SESSION_NORMALIZATION_MAX_BATCHES :: nat where
  "EXPIRED_SESSION_NORMALIZATION_MAX_BATCHES = 10"

text \<open>\<open>row\<close> is the row as the caller read it, possibly before other writes.\<close>

definition expireVerificationSessionIfNeeded ::
  "int \<Rightarrow> string \<Rightarrow> db \<Rightarrow> string \<Rightarrow> session_row \<Rightarrow> db \<times> session_row" where
  "expireVerificationSessionIfNeeded now evtId db sid row =
     (if vs_status row = St_expired \<or> vs_status row = St_succeeded \<or> vs_status row = St_failed \<or>
         vs_status row = St_cancelled \<or> now < vs_expiresAt row
      then (db, row)
      else
        case update_session db sid (\<lambda>r. is_active r \<and> vs_expiresAt r \<le> now)
               (\<lambda>r. r\<lparr>vs_status := St_expired,
                      vs_completedAt := (case vs_completedAt row of None \<Rightarrow> Some now | Some t \<Rightarrow> Some t)\<rparr>) of
          (_, None) \<Rightarrow> (db, case jm_get (db_sessions db) sid of None \<Rightarrow> row | Some latest \<Rightarrow> latest)
        | (db1, Some expired) \<Rightarrow>
            let db2 = record_audit (insert_event db1 evtId (vs_org expired) Ev_session_expired sid)
                        (vs_org expired) sid Au_expired
            in (call_webhook db2 Wh_expired evtId (vs_org expired) sid (vs_contractVersion expired), expired))"

definition due :: "int \<Rightarrow> session_row \<Rightarrow> bool" where
  "due now r \<longleftrightarrow> is_active r \<and> vs_expiresAt r \<le> now"

text \<open>The rows of one batch: the due ones, the longest expired first.\<close>

definition select_due :: "int \<Rightarrow> nat \<Rightarrow> db \<Rightarrow> (string \<times> session_row) list" where
  "select_due now batchSize db =
     take batchSize (sort_key (\<lambda>sr. vs_expiresAt (snd sr)) (filter (\<lambda>sr. due now (snd sr)) (db_sessions db)))"

fun expire_rows :: "int \<Rightarrow> (nat \<Rightarrow> string) \<Rightarrow> db \<Rightarrow> (string \<times> session_row) list \<Rightarrow> nat \<Rightarrow> db \<times> nat" where
  "expire_rows now evtIds db [] processed = (db, processed)"
| "expire_rows now evtIds db ((sid, row) # rows) processed =
     expire_rows now evtIds (fst (expireVerificationSessionIfNeeded now (evtIds processed) db sid row))
       rows (processed + 1)"

text \<open>The \<open>for\<close> loop over batches; the first argument is the number of batches left.\<close>

fun normalize_batches :: "nat \<Rightarrow> int \<Rightarrow> (nat \<Rightarrow> string) \<Rightarrow> nat \<Rightarrow> db \<Rightarrow> nat \<Rightarrow> db \<times> nat" where
  "normalize_batches 0 now evtIds batchSize db processed = (db, processed)"
| "normalize_batches (Suc batches) now evtIds batchSize db processed =
     (let rows = select_due now batchSize db
      in if length rows = 0 then (db, processed)
         else
           let (db1, processed1) = expire_rows now evtIds db rows processed
           in if length rows < batchSize then (db1, processed1)
              else normalize_batches batches now evtIds batchSize db1 processed1)"

definition normalizeExpiredVerificationSessions ::
  "nat \<Rightarrow> nat \<Rightarrow> int \<Rightarrow> (nat \<Rightarrow> string) \<Rightarrow> db \<Rightarrow> db \<times> nat" where
  "normalizeExpiredVerificationSessions batchSize maxBatches now evtIds db =
     normalize_batches maxBatches now evtIds batchSize db 0"

section \<open>Cancellation and privacy\<close>

definition privacy_minimize :: "session_row \<Rightarrow> session_row" where
  "privacy_minimize row =
     row\<lparr>vs_claimedAt := None, vs_claimedBy := None, vs_currentPhase := None, vs_attestKeyId := None,
         vs_helloAppVersion := None, vs_helloDeviceIdHash := None, vs_writeTokenConsumedAt := None,
         vs_writeTokenExpiresAt := None, vs_writeTokenHash := None, vs_writeTokenIssuedAt := None,
         vs_writeTokenSeed := None, vs_phaseUpdatedAt := None, vs_riskScore := 0,
         vs_selectedShareFieldKeys := []\<rparr>"

definition cancelVerificationSession :: "int \<Rightarrow> string \<Rightarrow> db \<Rightarrow> string \<Rightarrow> string \<Rightarrow> db" where
  "cancelVerificationSession now evtId db sid organizationId =
     (case update_session db sid (\<lambda>r. vs_org r = organizationId \<and> is_active r)
             (\<lambda>r. (privacy_minimize r)\<lparr>vs_status := St_cancelled, vs_completedAt := Some now\<rparr>) of
        (_, None) \<Rightarrow> db
      | (db1, Some cancelled) \<Rightarrow>
          let db2 = record_audit (insert_event db1 evtId (vs_org cancelled) Ev_session_cancelled sid)
                      (vs_org cancelled) sid Au_cancelled;
              consumedAnyRetryBudget = (0 < vs_livenessTriesUsed cancelled \<or> 0 < vs_nfcTriesUsed cancelled)
          in call_webhook db2
               (Wh_cancelled (if consumedAnyRetryBudget then Rs_cancelled_after_failed_check else Rs_cancelled)
                  (vs_nfcTriesUsed cancelled) (vs_livenessTriesUsed cancelled))
               evtId (vs_org cancelled) sid (vs_contractVersion cancelled))"

record scrub_result =
  su_delivered :: nat
  su_scrubbed :: nat
  su_total :: nat

record privacy_result =
  pr_delivered :: nat
  pr_minimized :: nat
  pr_scrubbed :: nat
  pr_total :: nat

definition recordVerificationSessionPrivacyRequest ::
  "scrub_result \<Rightarrow> int \<Rightarrow> string \<Rightarrow> db \<Rightarrow> string \<Rightarrow> session_row \<Rightarrow> string \<Rightarrow> db \<times> privacy_result" where
  "recordVerificationSessionPrivacyRequest scrub now evtId db sid row organizationId =
     (let (db1, minimized) =
        (if is_active row then (cancelVerificationSession now evtId db sid organizationId, 0)
         else if vs_status row = St_succeeded \<or> vs_status row = St_failed then
           let shouldMarkWithdrawn = (su_delivered scrub = 0);
               reason = (if vs_status row = St_failed then Rs_privacy_after_terminal_failure
                         else Rs_privacy_after_terminal_success)
           in case update_session db sid
                     (\<lambda>r. vs_org r = organizationId \<and> (vs_status r = St_succeeded \<or> vs_status r = St_failed))
                     (\<lambda>r. if shouldMarkWithdrawn
                          then (privacy_minimize r)\<lparr>vs_status := St_cancelled,
                                 vs_completedAt := (case vs_completedAt row of None \<Rightarrow> Some now | Some t \<Rightarrow> Some t)\<rparr>
                          else privacy_minimize r) of
                (_, None) \<Rightarrow> (db, 0)
              | (db2, Some _) \<Rightarrow>
                  if shouldMarkWithdrawn then
                    (call_webhook (insert_event db2 evtId organizationId Ev_session_cancelled sid)
                       (Wh_cancelled reason (vs_nfcTriesUsed row) (vs_livenessTriesUsed row)) evtId
                       organizationId sid (vs_contractVersion row), 1)
                  else (db2, 1)
         else (db, 0))
      in (record_audit db1 organizationId sid
            (Au_privacy_request (vs_status row) (su_delivered scrub) minimized (su_scrubbed scrub) (su_total scrub)),
          \<lparr>pr_delivered = su_delivered scrub, pr_minimized = minimized, pr_scrubbed = su_scrubbed scrub,
           pr_total = su_total scrub\<rparr>))"

section \<open>Connection claim\<close>

definition STALE_CLAIM_MS :: int where "STALE_CLAIM_MS = 15 * 60000"

text \<open>\<open>Inr ()\<close> when the claim is won; a comparison with an absent time is not true in SQL.\<close>

definition claimSessionConnection :: "int \<Rightarrow> db \<Rightarrow> string \<Rightarrow> string \<Rightarrow> bool \<Rightarrow> db \<times> (verify_code + unit)" where
  "claimSessionConnection now db sid ownerId allowTakeover =
     (let staleThreshold = now - STALE_CLAIM_MS
      in case update_session db sid
                (\<lambda>r. if allowTakeover then True
                     else vs_claimedBy r = None \<or> vs_claimedBy r = Some ownerId \<or>
                          (case vs_claimedAt r of None \<Rightarrow> False | Some t \<Rightarrow> t < staleThreshold))
                (\<lambda>r. r\<lparr>vs_claimedBy := Some ownerId, vs_claimedAt := Some now\<rparr>) of
           (_, None) \<Rightarrow> (db, Inl SESSION_CONNECTION_ACTIVE)
         | (db1, Some _) \<Rightarrow> (db1, Inr ()))"

definition releaseSessionConnection :: "db \<Rightarrow> string \<Rightarrow> string \<Rightarrow> db" where
  "releaseSessionConnection db sid ownerId =
     fst (update_session db sid (\<lambda>r. vs_claimedBy r = Some ownerId)
            (\<lambda>r. r\<lparr>vs_claimedBy := None, vs_claimedAt := None\<rparr>))"

section \<open>Persisted phase\<close>

definition persistTrackedSessionPhase :: "int \<Rightarrow> db \<Rightarrow> string \<Rightarrow> string \<Rightarrow> db" where
  "persistTrackedSessionPhase now db sid phase =
     fst (update_session db sid (\<lambda>_. True)
            (\<lambda>r. r\<lparr>vs_currentPhase := Some phase, vs_phaseUpdatedAt := Some now\<rparr>))"

section \<open>Creation\<close>

record create_input =
  ci_id :: string
  ci_org :: string
  ci_redirectUrl :: "string option"
  ci_shareFields :: share_fields
  ci_shareFieldsJson :: json
  ci_contractVersion :: int
  ci_isAgeOnly :: bool
  ci_webhookEndpointIds :: "string list option"

definition created_row :: "int \<Rightarrow> string \<Rightarrow> create_input \<Rightarrow> session_row" where
  "created_row now cancelTokenHash input =
     \<lparr>vs_org = ci_org input, vs_status = St_created, vs_contractVersion = ci_contractVersion input,
      vs_shareFields = ci_shareFieldsJson input, vs_redirectUrl = ci_redirectUrl input,
      vs_webhookEndpointIds = ci_webhookEndpointIds input, vs_cancelTokenHash = Some cancelTokenHash,
      vs_cancelTokenConsumedAt = None, vs_isAgeOnly = ci_isAgeOnly input,
      vs_expiresAt = now + 60 * 60000, vs_completedAt = None, vs_failureCode = None,
      vs_nfcTriesUsed = 0, vs_livenessTriesUsed = 0, vs_riskScore = 0, vs_selectedShareFieldKeys = [],
      vs_currentPhase = None, vs_phaseUpdatedAt = None, vs_writeTokenSeed = None, vs_writeTokenHash = None,
      vs_writeTokenIssuedAt = None, vs_writeTokenExpiresAt = None, vs_writeTokenConsumedAt = None,
      vs_helloDeviceIdHash = None, vs_helloAppVersion = None, vs_attestKeyId = None,
      vs_claimedBy = None, vs_claimedAt = None, vs_createdAt = now\<rparr>"

text \<open>
  A primary key that exists makes the insert throw (\<open>None\<close>). The token is the one drawn for
  this session, \<open>hash\<close> its keyed hash.
\<close>

definition insertVerificationSessionRow ::
  "(string \<Rightarrow> string) \<Rightarrow> string \<Rightarrow> int \<Rightarrow> db \<Rightarrow> create_input \<Rightarrow> (db \<times> session_row \<times> string) option" where
  "insertVerificationSessionRow hash cancelToken now db input =
     (if jm_has (db_sessions db) (ci_id input) then None
      else
        let row = created_row now (hash cancelToken) input
        in Some (record_audit (db\<lparr>db_sessions := jm_set (ci_id input) row (db_sessions db)\<rparr>) (vs_org row)
                   (ci_id input) (Au_created (vs_isAgeOnly row) (length (ci_shareFields input))),
                 row, cancelToken))"

section \<open>Consent\<close>

text \<open>
  A consent is a row of its own table (\<open>verify/consent-records.ts\<close>); the model keeps the session
  and the selected claim keys, and a session may have several. \<open>gone\<close> stands for an organization
  that is missing, hidden or pending deletion.
\<close>

record consent_input =
  cn_biometric :: bool
  cn_documentProcessing :: bool
  cn_privacyNotice :: bool
  cn_shareClaims :: bool
  cn_terms :: bool

definition recordVerifySessionConsent ::
  "bool \<Rightarrow> int \<Rightarrow> string \<Rightarrow> db \<Rightarrow> consent_input \<Rightarrow> string \<Rightarrow> db \<times> (verify_code + unit)" where
  "recordVerifySessionConsent gone now evtId db input sid =
     (case jm_get (db_sessions db) sid of
        None \<Rightarrow> (db, Inl SESSION_NOT_FOUND)
      | Some row \<Rightarrow>
          if gone then (db, Inl SESSION_NOT_FOUND)
          else
            let (db1, session) = expireVerificationSessionIfNeeded now evtId db sid row
            in if isTerminalSessionStatus (vs_status session) \<or> vs_expiresAt session < now
               then (db1, Inl SESSION_EXPIRED)
               else if \<not> (cn_biometric input \<and> cn_documentProcessing input \<and> cn_privacyNotice input \<and>
                          cn_shareClaims input \<and> cn_terms input)
               then (db1, Inl CONSENT_REQUIRED)
               else
                 let requestedClaimKeys = getShareFieldKeys (resolvePublicShareFields (Some (vs_shareFields session)))
                 in (db1\<lparr>db_consents := db_consents db1 @ [(sid, requestedClaimKeys)]\<rparr>, Inr ()))"

end
