(* ===== verification/Hello_Auth.thy ===== *)
theory Hello_Auth
  imports Session_Lifecycle
begin

text \<open>
  The tokens that bind a mobile device to a session: hashing and comparison
  (\<open>verify/token-crypto.ts\<close>, \<open>packages/config/src/constant-time.ts\<close>), the handoff
  (\<open>verify/handoff.ts\<close>), the hello of the socket (\<open>verify/hello-auth.ts\<close>) and the public
  cancellation (\<open>verify/public-cancel.ts\<close>). \<open>hmac\<close> is the platform's HMAC-SHA256 under the
  server's secret, as lowercase hexadecimal text; random strings and the clock are arguments.
\<close>

section \<open>Comparison\<close>

text \<open>The accumulator is a 32-bit integer, the width of JavaScript's bitwise operators.\<close>

unbundle bit_operations_syntax

definition char_code_at :: "string \<Rightarrow> nat \<Rightarrow> 32 word" where
  "char_code_at s index = (if index < length s then word_of_nat (of_char (s ! index)) else 0)"

definition constantTimeStringEqual :: "string \<Rightarrow> string \<Rightarrow> bool" where
  "constantTimeStringEqual a b =
     (let maxLength = max (length a) (length b);
          mismatch = word_of_nat (length a) XOR word_of_nat (length b) :: 32 word
      in foldl (\<lambda>mismatch index. mismatch OR (char_code_at a index XOR char_code_at b index))
           mismatch [0..<maxLength] = 0)"

lemma or_fold_zero:
  "foldl (\<lambda>m i. m OR f i) (a :: 32 word) xs = 0 \<longleftrightarrow> a = 0 \<and> (\<forall>i \<in> set xs. f i = 0)"
proof (induction xs arbitrary: a)
  case Nil
  then show ?case by simp
next
  case (Cons x xs)
  have "a OR f x = 0 \<longleftrightarrow> a = 0 \<and> f x = 0"
    by (rule or_eq_0_iff)
  with Cons show ?case by auto
qed

lemma xor_zero_iff: "(a :: 32 word) XOR b = 0 \<longleftrightarrow> a = b"
proof
  assume z: "a XOR b = 0"
  have "bit a n = bit b n" for n
    using arg_cong [OF z, of "\<lambda>w. bit w n"] by (simp add: bit_xor_iff)
  then show "a = b" by (simp add: bit_eq_iff)
qed simp

lemma char_word_inj: "word_of_nat (of_char c) = (word_of_nat (of_char d) :: 32 word) \<longleftrightarrow> c = d"
proof -
  have "(of_char x :: nat) < 2 ^ 32" for x :: char
    by (rule less_trans [OF nat_of_char_less_256]) simp
  then show ?thesis by (simp add: word_of_nat_eq_iff take_bit_nat_eq_self)
qed

lemma length_word_inj: "m < 2 ^ 32 \<Longrightarrow> n < 2 ^ 32 \<Longrightarrow> word_of_nat m = (word_of_nat n :: 32 word) \<longleftrightarrow> m = n"
  by (simp add: word_of_nat_eq_iff take_bit_nat_eq_self)

lemma constant_time_equal:
  assumes "length a < 2 ^ 32" and "length b < 2 ^ 32"
  shows "constantTimeStringEqual a b \<longleftrightarrow> a = b"
proof -
  have "constantTimeStringEqual a b \<longleftrightarrow>
      length a = length b \<and> (\<forall>i < max (length a) (length b). char_code_at a i = char_code_at b i)"
    using assms by (auto simp: constantTimeStringEqual_def Let_def or_fold_zero xor_zero_iff length_word_inj)
  also have "\<dots> \<longleftrightarrow> a = b"
    by (auto simp: char_code_at_def char_word_inj intro: nth_equalityI)
  finally show ?thesis .
qed

section \<open>Tokens\<close>

definition SESSION_CANCEL_TOKEN_LENGTH :: nat where "SESSION_CANCEL_TOKEN_LENGTH = 48"

text \<open>\<open>SESSION_CANCEL_TOKEN_PATTERN\<close> together with the length, as the body schema checks them.\<close>

definition cancel_token_text :: "string \<Rightarrow> bool" where
  "cancel_token_text t \<longleftrightarrow> length t = SESSION_CANCEL_TOKEN_LENGTH \<and>
     list_all (\<lambda>c. is_digit c \<or> 97 \<le> (of_char c :: nat) \<and> (of_char c :: nat) \<le> 122) t"

definition hashSessionCancelToken :: "(string \<Rightarrow> string) \<Rightarrow> string \<Rightarrow> string" where
  "hashSessionCancelToken hmac token = hmac (''verify_cancel_token_v1|'' @ token)"

text \<open>\<open>Date.prototype.toISOString\<close> for years 0 to 9999.\<close>

definition civil_from_days :: "int \<Rightarrow> int \<times> int \<times> int" where
  "civil_from_days days =
     (let z = days + 719468; era = z div 146097; doe = z - era * 146097;
          yoe = (doe - doe div 1460 + doe div 36524 - doe div 146096) div 365;
          doy = doe - (365 * yoe + yoe div 4 - yoe div 100);
          mp = (5 * doy + 2) div 153; d = doy - (153 * mp + 2) div 5 + 1;
          m = (if mp < 10 then mp + 3 else mp - 9)
      in (yoe + era * 400 + (if m \<le> 2 then 1 else 0), m, d))"

definition pad_num :: "nat \<Rightarrow> int \<Rightarrow> string" where
  "pad_num n x = pad_zero n (show_int x)"

definition toISOString :: "int \<Rightarrow> string" where
  "toISOString ms =
     (let (y, m, d) = civil_from_days (ms div 86400000); t = ms mod 86400000
      in pad_num 4 y @ ''-'' @ pad_num 2 m @ ''-'' @ pad_num 2 d @ ''T'' @
         pad_num 2 (t div 3600000) @ '':'' @ pad_num 2 (t div 60000 mod 60) @ '':'' @
         pad_num 2 (t div 1000 mod 60) @ ''.'' @ pad_num 3 (t mod 1000) @ ''Z'')"

definition deriveMobileWriteToken :: "(string \<Rightarrow> string) \<Rightarrow> string \<Rightarrow> int \<Rightarrow> string \<Rightarrow> string" where
  "deriveMobileWriteToken hmac sessionId issuedAt seed =
     hmac (''verify_handoff_token_v1|'' @ sessionId @ ''|'' @ toISOString issuedAt @ ''|'' @ seed)"

definition hashMobileWriteToken :: "(string \<Rightarrow> string) \<Rightarrow> string \<Rightarrow> string" where
  "hashMobileWriteToken hmac token = hmac token"

definition hashMobileDeviceId :: "(string \<Rightarrow> string) \<Rightarrow> string \<Rightarrow> string" where
  "hashMobileDeviceId hmac deviceId = hmac deviceId"

section \<open>Attestation challenges\<close>

definition ATTEST_HELLO_LABEL :: string where "ATTEST_HELLO_LABEL = ''attest:hello:''"
definition ATTEST_NFC_LABEL :: string where "ATTEST_NFC_LABEL = ''attest:nfc:''"
definition ATTEST_CHALLENGE_BYTES :: nat where "ATTEST_CHALLENGE_BYTES = 32"

text \<open>\<open>mac\<close> is the raw HMAC-SHA256 under the server's secret.\<close>

definition deriveAttestChallenge :: "(string \<Rightarrow> bytes) \<Rightarrow> string \<Rightarrow> string \<Rightarrow> bytes" where
  "deriveAttestChallenge mac label keyMaterial = js_slice (mac (label @ keyMaterial)) 0 ATTEST_CHALLENGE_BYTES"

definition deriveAttestHelloChallenge :: "(string \<Rightarrow> bytes) \<Rightarrow> string \<Rightarrow> bytes" where
  "deriveAttestHelloChallenge mac sessionId = deriveAttestChallenge mac ATTEST_HELLO_LABEL sessionId"

definition deriveAttestNfcChallenge :: "(string \<Rightarrow> bytes) \<Rightarrow> string \<Rightarrow> bytes" where
  "deriveAttestNfcChallenge mac sessionId = deriveAttestChallenge mac ATTEST_NFC_LABEL sessionId"

section \<open>Handoff\<close>

definition HANDOFF_TOKEN_TTL_MS :: int where "HANDOFF_TOKEN_TTL_MS = 5 * 60000"
definition HANDOFF_PAYLOAD_VERSION :: nat where "HANDOFF_PAYLOAD_VERSION = 1"

record handoff =
  ho_version :: nat
  ho_sessionId :: string
  ho_mobileWriteToken :: string
  ho_expiresAt :: string
  ho_helloChallenge :: bytes
  ho_nfcChallenge :: bytes

definition can_reuse_token :: "int \<Rightarrow> session_row \<Rightarrow> bool" where
  "can_reuse_token now r \<longleftrightarrow>
     truthy (vs_writeTokenSeed r) \<and> truthy (vs_writeTokenHash r) \<and> vs_writeTokenIssuedAt r \<noteq> None \<and>
     vs_writeTokenExpiresAt r \<noteq> None \<and> vs_writeTokenConsumedAt r = None \<and>
     now < the (vs_writeTokenExpiresAt r)"

text \<open>
  The transaction that selects or draws the token: the row is read again under the lock.
  \<open>Inr (issuedAt, expiresAt, seed)\<close>.
\<close>

definition select_handoff ::
  "(string \<Rightarrow> string) \<Rightarrow> int \<Rightarrow> string \<Rightarrow> db \<Rightarrow> string \<Rightarrow> db \<times> (verify_code + int \<times> int \<times> string)" where
  "select_handoff hmac now newSeed db sid =
     (if \<not> jm_has (db_consents db) sid then (db, Inl CONSENT_REQUIRED)
      else
        case jm_get (db_sessions db) sid of
          None \<Rightarrow> (db, Inl SESSION_NOT_FOUND)
        | Some current \<Rightarrow>
            if vs_status current = St_in_progress \<and> vs_writeTokenConsumedAt current \<noteq> None
            then (db, Inl SESSION_IN_PROGRESS)
            else if can_reuse_token now current then
              (db, Inr (the (vs_writeTokenIssuedAt current), the (vs_writeTokenExpiresAt current),
                        the (vs_writeTokenSeed current)))
            else
              let expiresAt = now + HANDOFF_TOKEN_TTL_MS;
                  tokenHash = hashMobileWriteToken hmac (deriveMobileWriteToken hmac sid now newSeed)
              in (fst (update_session db sid (\<lambda>_. True)
                         (\<lambda>r. r\<lparr>vs_writeTokenSeed := Some newSeed, vs_writeTokenHash := Some tokenHash,
                                vs_writeTokenIssuedAt := Some now, vs_writeTokenExpiresAt := Some expiresAt,
                                vs_writeTokenConsumedAt := None\<rparr>)),
                  Inr (now, expiresAt, newSeed)))"

definition issueHandoffPayload ::
  "(string \<Rightarrow> string) \<Rightarrow> (string \<Rightarrow> bytes) \<Rightarrow> bool \<Rightarrow> int \<Rightarrow> string \<Rightarrow> string \<Rightarrow> db \<Rightarrow> string \<Rightarrow>
     db \<times> (verify_code + handoff)" where
  "issueHandoffPayload hmac mac pendingDeletion now evtId newSeed db sid =
     (case jm_get (db_sessions db) sid of
        None \<Rightarrow> (db, Inl SESSION_NOT_FOUND)
      | Some row \<Rightarrow>
          if pendingDeletion then (db, Inl SESSION_NOT_FOUND)
          else
            let (db1, normalized) = expireVerificationSessionIfNeeded now evtId db sid row
            in if isTerminalSessionStatus (vs_status normalized) \<or> vs_expiresAt normalized < now
               then (db1, Inl SESSION_EXPIRED)
               else
                 case select_handoff hmac now newSeed db1 sid of
                   (db2, Inl code) \<Rightarrow> (db2, Inl code)
                 | (db2, Inr (issuedAt, expiresAt, seed)) \<Rightarrow>
                     (db2, Inr \<lparr>ho_version = HANDOFF_PAYLOAD_VERSION, ho_sessionId = sid,
                                ho_mobileWriteToken = deriveMobileWriteToken hmac sid issuedAt seed,
                                ho_expiresAt = toISOString expiresAt,
                                ho_helloChallenge = deriveAttestHelloChallenge mac sid,
                                ho_nfcChallenge = deriveAttestNfcChallenge mac sid\<rparr>))"

section \<open>Hello\<close>

record hello_payload =
  hp_sessionId :: "string option"
  hp_mobileWriteToken :: "string option"
  hp_deviceId :: "string option"
  hp_appVersion :: "string option"
  hp_attestKeyId :: "string option"
  hp_helloAssertion :: "bytes option"
  hp_runtimeIntegritySignal :: "int option"

record parsed_hello =
  ph_sessionId :: string
  ph_mobileWriteToken :: string
  ph_deviceId :: string
  ph_appVersion :: string
  ph_attestKeyId :: string
  ph_helloAssertion :: bytes
  ph_runtimeIntegritySignal :: int

definition trim_or_empty :: "string option \<Rightarrow> string" where
  "trim_or_empty s = (case s of None \<Rightarrow> [] | Some t \<Rightarrow> js_trim t)"

definition parseHelloPayload :: "hello_payload \<Rightarrow> parsed_hello option" where
  "parseHelloPayload p =
     (let parsed = \<lparr>ph_sessionId = trim_or_empty (hp_sessionId p),
                    ph_mobileWriteToken = trim_or_empty (hp_mobileWriteToken p),
                    ph_deviceId = trim_or_empty (hp_deviceId p),
                    ph_appVersion = trim_or_empty (hp_appVersion p),
                    ph_attestKeyId = trim_or_empty (hp_attestKeyId p),
                    ph_helloAssertion = (case hp_helloAssertion p of None \<Rightarrow> [] | Some a \<Rightarrow> a),
                    ph_runtimeIntegritySignal = (case hp_runtimeIntegritySignal p of None \<Rightarrow> 0 | Some x \<Rightarrow> x)\<rparr>
      in if ph_sessionId parsed = [] \<or> ph_mobileWriteToken parsed = [] \<or> ph_deviceId parsed = []
         then None else Some parsed)"

datatype hello_auth_state = Hello_error verify_code | Hello_resume | Hello_consume string

definition resolveHelloAuthState ::
  "(string \<Rightarrow> string) \<Rightarrow> session_row \<Rightarrow> string \<Rightarrow> string \<Rightarrow> int \<Rightarrow> hello_auth_state" where
  "resolveHelloAuthState hmac session mobileWriteToken deviceId nowMs =
     (if \<not> truthy (vs_writeTokenHash session) then Hello_error HANDOFF_TOKEN_INVALID
      else if \<not> constantTimeStringEqual (hashMobileWriteToken hmac mobileWriteToken)
                  (the (vs_writeTokenHash session)) then Hello_error HANDOFF_TOKEN_INVALID
      else
        let deviceIdHash = hashMobileDeviceId hmac deviceId
        in if vs_writeTokenConsumedAt session \<noteq> None then
             (if \<not> truthy (vs_helloDeviceIdHash session) then Hello_error HANDOFF_TOKEN_CONSUMED
              else if \<not> constantTimeStringEqual (the (vs_helloDeviceIdHash session)) deviceIdHash
                then Hello_error HANDOFF_DEVICE_MISMATCH
              else Hello_resume)
           else
             let expiresAtMs = (case vs_writeTokenExpiresAt session of None \<Rightarrow> 0 | Some t \<Rightarrow> t)
             in if expiresAtMs \<le> nowMs then Hello_error HANDOFF_TOKEN_EXPIRED
                else Hello_consume deviceIdHash)"

definition none_if_empty :: "string \<Rightarrow> string option" where
  "none_if_empty s = (if s = [] then None else Some s)"

definition consumeHelloHandoff :: "int \<Rightarrow> db \<Rightarrow> string \<Rightarrow> string \<Rightarrow> string \<Rightarrow> string option \<Rightarrow> db" where
  "consumeHelloHandoff now db sid deviceIdHash appVersion attestKeyId =
     fst (update_session db sid (\<lambda>_. True)
            (\<lambda>r. r\<lparr>vs_writeTokenConsumedAt := Some now, vs_helloDeviceIdHash := Some deviceIdHash,
                   vs_helloAppVersion := none_if_empty appVersion, vs_attestKeyId := attestKeyId\<rparr>))"

text \<open>\<open>True\<close> when a row was updated; the caller's session then takes the new status.\<close>

definition persistFirstHelloState ::
  "int \<Rightarrow> db \<Rightarrow> string \<Rightarrow> string \<Rightarrow> string \<Rightarrow> string option \<Rightarrow> db \<times> bool" where
  "persistFirstHelloState now db sid deviceIdHash appVersion attestKeyId =
     (case update_session db sid is_active
             (\<lambda>r. r\<lparr>vs_status := St_in_progress, vs_currentPhase := Some ''mobile_connected'',
                    vs_attestKeyId := attestKeyId, vs_helloAppVersion := none_if_empty appVersion,
                    vs_helloDeviceIdHash := Some deviceIdHash, vs_writeTokenConsumedAt := Some now,
                    vs_phaseUpdatedAt := Some now\<rparr>) of
        (_, None) \<Rightarrow> (db, False)
      | (db1, Some _) \<Rightarrow> (db1, True))"

definition markSessionInProgress :: "db \<Rightarrow> string \<Rightarrow> session_status \<Rightarrow> db \<times> bool" where
  "markSessionInProgress db sid status =
     (if status = St_in_progress then (db, True)
      else case update_session db sid is_active (\<lambda>r. r\<lparr>vs_status := St_in_progress\<rparr>) of
             (_, None) \<Rightarrow> (db, False)
           | (db1, Some _) \<Rightarrow> (db1, True))"

definition isSessionMissingOrTerminal :: "session_row option \<Rightarrow> bool" where
  "isSessionMissingOrTerminal session =
     (case session of None \<Rightarrow> True | Some r \<Rightarrow> isTerminalSessionStatus (vs_status r))"

section \<open>Public cancellation\<close>

text \<open>
  \<open>TERMINAL_CANCEL_STATUSES\<close> is \<open>["completed", "expired", "cancelled"]\<close>; no session ever has
  the status \<open>"completed"\<close>, so only the other two are statuses of the model.
\<close>

definition isTerminalCancelStatus :: "session_status \<Rightarrow> bool" where
  "isTerminalCancelStatus status \<longleftrightarrow> status = St_expired \<or> status = St_cancelled"

definition cancelPublicVerifySession ::
  "(string \<Rightarrow> string) \<Rightarrow> bool \<Rightarrow> scrub_result \<Rightarrow> int \<Rightarrow> string \<Rightarrow> string \<Rightarrow> db \<Rightarrow> string \<Rightarrow> string \<Rightarrow>
     db \<times> (verify_code + unit)" where
  "cancelPublicVerifySession hmac hidden scrub now evtId1 evtId2 db providedToken sid =
     (case jm_get (db_sessions db) sid of
        None \<Rightarrow> (db, Inl SESSION_NOT_FOUND)
      | Some rawSession \<Rightarrow>
          if hidden then (db, Inl SESSION_NOT_FOUND)
          else if \<not> truthy (vs_cancelTokenHash rawSession) then (db, Inl CANCEL_TOKEN_INVALID)
          else if \<not> constantTimeStringEqual (hashSessionCancelToken hmac providedToken)
                      (the (vs_cancelTokenHash rawSession)) then (db, Inl CANCEL_TOKEN_INVALID)
          else
            let (db1, session) = expireVerificationSessionIfNeeded now evtId1 db sid rawSession
            in if vs_cancelTokenConsumedAt rawSession \<noteq> None then
                 (db1, if isTerminalCancelStatus (vs_status session) then Inr () else Inl CANCEL_TOKEN_USED)
               else
                 case update_session db1 sid (\<lambda>r. vs_cancelTokenConsumedAt r = None)
                        (\<lambda>r. r\<lparr>vs_cancelTokenConsumedAt := Some now\<rparr>) of
                   (_, None) \<Rightarrow>
                     (db1, case jm_get (db_sessions db1) sid of
                             None \<Rightarrow> Inl CANCEL_TOKEN_USED
                           | Some latest \<Rightarrow>
                               if vs_cancelTokenConsumedAt latest \<noteq> None \<and> isTerminalCancelStatus (vs_status latest)
                               then Inr () else Inl CANCEL_TOKEN_USED)
                 | (db2, Some _) \<Rightarrow>
                     (fst (recordVerificationSessionPrivacyRequest scrub now evtId2 db2 sid session (vs_org session)),
                      Inr ()))"

end
