(* ===== verification/Session_Machine.thy ===== *)
theory Session_Machine
  imports Hello_Auth
begin

text \<open>
  Every write of the session table as one machine: an operation is a call of one of the
  functions of the session theories, with its time, the identifiers drawn for it and the
  arguments its caller passes. Arguments a caller read earlier (a session context, a row) are
  free: they may be stale. The invariant relates a row's status, retry counters and completion
  to the events recorded and delivered for it.
\<close>

section \<open>Operations\<close>

datatype session_op =
  Op_create create_input string
| Op_succeed session_context "string list" "rat option + rat option"
| Op_check_failed session_context negative_failure_code "rat option"
| Op_expire string session_row
| Op_normalize nat nat
| Op_cancel string string
| Op_privacy scrub_result string session_row string
| Op_public_cancel bool scrub_result string string
| Op_claim string string bool
| Op_release string string
| Op_phase string string
| Op_handoff bool string string
| Op_consent bool consent_input string
| Op_first_hello string string string "string option"
| Op_consume_hello string string string "string option"
| Op_in_progress string session_status

type_synonym session_msg = "int \<times> (nat \<Rightarrow> string) \<times> session_op"

fun session_step ::
  "(string \<Rightarrow> string) \<Rightarrow> (string \<Rightarrow> bytes) \<Rightarrow> (webhook_call \<Rightarrow> string list) \<Rightarrow> db \<Rightarrow> session_msg \<Rightarrow> db" where
  "session_step hmac mac deliveries db (now, ids, Op_create input token) =
     (case insertVerificationSessionRow (hashSessionCancelToken hmac) token now db input of
        None \<Rightarrow> db | Some (db1, _) \<Rightarrow> db1)"
| "session_step hmac mac deliveries db (now, ids, Op_succeed session keys score) =
     fst (markSessionSucceeded deliveries now (ids 0) db session keys score)"
| "session_step hmac mac deliveries db (now, ids, Op_check_failed session code score) =
     fst (markCheckFailed deliveries now (ids 0) db session code score)"
| "session_step hmac mac deliveries db (now, ids, Op_expire sid row) =
     fst (expireVerificationSessionIfNeeded now (ids 0) db sid row)"
| "session_step hmac mac deliveries db (now, ids, Op_normalize batchSize maxBatches) =
     fst (normalizeExpiredVerificationSessions batchSize maxBatches now ids db)"
| "session_step hmac mac deliveries db (now, ids, Op_cancel sid org) =
     cancelVerificationSession now (ids 0) db sid org"
| "session_step hmac mac deliveries db (now, ids, Op_privacy scrub sid row org) =
     fst (recordVerificationSessionPrivacyRequest scrub now (ids 0) db sid row org)"
| "session_step hmac mac deliveries db (now, ids, Op_public_cancel hidden scrub token sid) =
     fst (cancelPublicVerifySession hmac hidden scrub now (ids 0) (ids 1) db token sid)"
| "session_step hmac mac deliveries db (now, ids, Op_claim sid owner takeover) =
     fst (claimSessionConnection now db sid owner takeover)"
| "session_step hmac mac deliveries db (now, ids, Op_release sid owner) =
     releaseSessionConnection db sid owner"
| "session_step hmac mac deliveries db (now, ids, Op_phase sid phase) =
     persistTrackedSessionPhase now db sid phase"
| "session_step hmac mac deliveries db (now, ids, Op_handoff pendingDeletion seed sid) =
     fst (issueHandoffPayload hmac mac pendingDeletion now (ids 0) seed db sid)"
| "session_step hmac mac deliveries db (now, ids, Op_consent gone input sid) =
     fst (recordVerifySessionConsent gone now (ids 0) db input sid)"
| "session_step hmac mac deliveries db (now, ids, Op_first_hello sid dev ver key) =
     fst (persistFirstHelloState now db sid dev ver key)"
| "session_step hmac mac deliveries db (now, ids, Op_consume_hello sid dev ver key) =
     consumeHelloHandoff now db sid dev ver key"
| "session_step hmac mac deliveries db (now, ids, Op_in_progress sid status) =
     fst (markSessionInProgress db sid status)"

definition empty_db :: db where
  "empty_db = \<lparr>db_sessions = [], db_events = [], db_audit = [], db_consents = [], db_webhooks = []\<rparr>"

section \<open>Conditional updates, observed\<close>

lemma update_session_None:
  "update_session db sid cond f = (db', None) \<longleftrightarrow>
     db' = db \<and> (\<forall>r. jm_get (db_sessions db) sid = Some r \<longrightarrow> \<not> cond r)"
  by (auto simp: update_session_def split: option.splits)

lemma update_session_Some:
  "update_session db sid cond f = (db', Some r') \<longleftrightarrow>
     (\<exists>r. jm_get (db_sessions db) sid = Some r \<and> cond r \<and> r' = f r \<and>
          db' = db\<lparr>db_sessions := jm_set sid (f r) (db_sessions db)\<rparr>)"
  by (auto simp: update_session_def split: option.splits)

lemma sessions_insert_event [simp]: "db_sessions (insert_event db e org ty sid) = db_sessions db"
  by (simp add: insert_event_def)

lemma sessions_record_audit [simp]: "db_sessions (record_audit db org sid ev) = db_sessions db"
  by (simp add: record_audit_def)

lemma sessions_call_webhook [simp]: "db_sessions (call_webhook db k e org sid v) = db_sessions db"
  by (simp add: call_webhook_def)

section \<open>The lifecycle of one session\<close>

text \<open>
  The abstract view of a session: the part of its row the lifecycle is about, and the
  terminal events recorded and handed to the delivery service for it.
\<close>

record life_core =
  lc_status :: session_status
  lc_completedAt :: "int option"
  lc_failure :: "negative_failure_code option"
  lc_nfc :: nat
  lc_live :: nat

type_synonym life = "life_core option \<times> (string \<times> event_type) list \<times> (string \<times> event_type) list"

definition core :: "session_row \<Rightarrow> life_core" where
  "core r = \<lparr>lc_status = vs_status r, lc_completedAt = vs_completedAt r, lc_failure = vs_failureCode r,
             lc_nfc = vs_nfcTriesUsed r, lc_live = vs_livenessTriesUsed r\<rparr>"

fun webhook_event :: "webhook_kind \<Rightarrow> event_type" where
  "webhook_event Wh_succeeded = Ev_session_succeeded"
| "webhook_event (Wh_failed _ _ _) = Ev_session_failed"
| "webhook_event Wh_expired = Ev_session_expired"
| "webhook_event (Wh_cancelled _ _ _) = Ev_session_cancelled"

definition recorded :: "db \<Rightarrow> string \<Rightarrow> (string \<times> event_type) list" where
  "recorded db sid = map (\<lambda>e. (er_id e, er_type e)) (filter (\<lambda>e. er_trigger e = sid) (db_events db))"

definition delivered :: "db \<Rightarrow> string \<Rightarrow> (string \<times> event_type) list" where
  "delivered db sid =
     map (\<lambda>w. (wc_eventId w, webhook_event (wc_kind w))) (filter (\<lambda>w. wc_session w = sid) (db_webhooks db))"

definition life_of :: "db \<Rightarrow> string \<Rightarrow> life" where
  "life_of db sid = (map_option core (jm_get (db_sessions db) sid), recorded db sid, delivered db sid)"

definition fresh_core :: life_core where
  "fresh_core = \<lparr>lc_status = St_created, lc_completedAt = None, lc_failure = None, lc_nfc = 0, lc_live = 0\<rparr>"

definition core_active :: "life_core \<Rightarrow> bool" where
  "core_active c \<longleftrightarrow> lc_status c \<in> set ACTIVE_SESSION_STATUSES"

text \<open>The ways a session can end, with the event each records.\<close>

inductive settles :: "life_core \<Rightarrow> event_type \<Rightarrow> life_core \<Rightarrow> bool" where
  succeed: "core_active c \<Longrightarrow>
    settles c Ev_session_succeeded (c\<lparr>lc_status := St_succeeded, lc_failure := None, lc_completedAt := Some t\<rparr>)"
| kill: "core_active c \<Longrightarrow> isHardKillCode code \<Longrightarrow>
    settles c Ev_session_failed (c\<lparr>lc_status := St_failed, lc_failure := Some code, lc_completedAt := Some t\<rparr>)"
| exhaust_nfc: "core_active c \<Longrightarrow> \<not> isHardKillCode code \<Longrightarrow> failedCheckForCode code = Check_nfc \<Longrightarrow>
    MAX_NFC_RETRIES \<le> lc_nfc c + 1 \<Longrightarrow>
    settles c Ev_session_failed (c\<lparr>lc_status := St_failed, lc_failure := Some code, lc_completedAt := Some t,
                                   lc_nfc := lc_nfc c + 1\<rparr>)"
| exhaust_liveness: "core_active c \<Longrightarrow> failedCheckForCode code = Check_liveness \<Longrightarrow>
    MAX_LIVENESS_RETRIES \<le> lc_live c + 1 \<Longrightarrow>
    settles c Ev_session_failed (c\<lparr>lc_status := St_failed, lc_failure := Some code, lc_completedAt := Some t,
                                   lc_live := lc_live c + 1\<rparr>)"
| expire: "core_active c \<Longrightarrow>
    settles c Ev_session_expired (c\<lparr>lc_status := St_expired, lc_completedAt := Some t\<rparr>)"
| cancel: "core_active c \<Longrightarrow>
    settles c Ev_session_cancelled (c\<lparr>lc_status := St_cancelled, lc_completedAt := Some t\<rparr>)"
| withdraw: "lc_status c = St_succeeded \<or> lc_status c = St_failed \<Longrightarrow>
    settles c Ev_session_cancelled (c\<lparr>lc_status := St_cancelled, lc_completedAt := Some t\<rparr>)"

inductive life_step :: "life \<Rightarrow> life \<Rightarrow> bool" where
  create: "life_step (None, evs, dls) (Some fresh_core, evs, dls)"
| proceed: "core_active c \<Longrightarrow> life_step (Some c, evs, dls) (Some (c\<lparr>lc_status := St_in_progress\<rparr>), evs, dls)"
| retry_nfc: "core_active c \<Longrightarrow> lc_nfc c + 1 < MAX_NFC_RETRIES \<Longrightarrow>
    life_step (Some c, evs, dls) (Some (c\<lparr>lc_nfc := lc_nfc c + 1\<rparr>), evs, dls)"
| retry_liveness: "core_active c \<Longrightarrow> lc_live c + 1 < MAX_LIVENESS_RETRIES \<Longrightarrow>
    life_step (Some c, evs, dls) (Some (c\<lparr>lc_live := lc_live c + 1\<rparr>), evs, dls)"
| settle: "settles c ty c' \<Longrightarrow>
    life_step (Some c, evs, dls) (Some c', evs @ [(i, ty)], dls @ [(i, ty)])"

inductive_cases life_stepE: "life_step a b"

text \<open>A change of the database in which every session moves by lifecycle steps.\<close>

definition evolves :: "db \<Rightarrow> db \<Rightarrow> bool" where
  "evolves db db' \<longleftrightarrow> (\<forall>sid. life_step\<^sup>*\<^sup>* (life_of db sid) (life_of db' sid))"

lemma evolves_refl [simp, intro]: "evolves db db"
  by (simp add: evolves_def)

lemma evolves_trans: "evolves a b \<Longrightarrow> evolves b c \<Longrightarrow> evolves a c"
  by (meson evolves_def rtranclp_trans)

lemma recorded_simps [simp]:
  "recorded (record_audit db org s ev) sid = recorded db sid"
  "recorded (call_webhook db k e org s v) sid = recorded db sid"
  "recorded (insert_event db e org ty s) sid = recorded db sid @ (if s = sid then [(e, ty)] else [])"
  "recorded (db\<lparr>db_sessions := ss\<rparr>) sid = recorded db sid"
  "recorded (db\<lparr>db_consents := cs\<rparr>) sid = recorded db sid"
  by (simp_all add: recorded_def record_audit_def call_webhook_def insert_event_def)

lemma delivered_simps [simp]:
  "delivered (record_audit db org s ev) sid = delivered db sid"
  "delivered (insert_event db e org ty s) sid = delivered db sid"
  "delivered (call_webhook db k e org s v) sid = delivered db sid @ (if s = sid then [(e, webhook_event k)] else [])"
  "delivered (db\<lparr>db_sessions := ss\<rparr>) sid = delivered db sid"
  "delivered (db\<lparr>db_consents := cs\<rparr>) sid = delivered db sid"
  by (simp_all add: delivered_def record_audit_def call_webhook_def insert_event_def)

text \<open>The two ways an operation changes the table: at most one step of one session each.\<close>

lemma evolves_row:
  assumes "jm_get (db_sessions db) sid = Some r" and "db_sessions db' = jm_set sid r' (db_sessions db)"
    and "\<And>s. recorded db' s = recorded db s" and "\<And>s. delivered db' s = delivered db s"
    and "core r' = core r \<or> life_step (Some (core r), recorded db sid, delivered db sid)
                                       (Some (core r'), recorded db sid, delivered db sid)"
  shows "evolves db db'"
  using assms by (auto simp: evolves_def life_of_def jsmap_simps)

lemma evolves_settle:
  assumes "jm_get (db_sessions db) sid = Some r"
    and "\<And>s. jm_get (db_sessions db') s = (if s = sid then Some r' else jm_get (db_sessions db) s)"
    and "\<And>s. recorded db' s = recorded db s @ (if sid = s then [(i, ty)] else [])"
    and "\<And>s. delivered db' s = delivered db s @ (if sid = s then [(i, ty)] else [])"
    and "settles (core r) ty (core r')"
  shows "evolves db db'"
  using assms settle [OF assms(5)] by (auto simp: evolves_def life_of_def)

lemma evolves_quiet:
  assumes "\<And>r. cond r \<Longrightarrow> core (f r) = core r"
  shows "evolves db (fst (update_session db sid cond f))"
proof (cases "update_session db sid cond f")
  case (Pair db' res)
  show ?thesis
  proof (cases res)
    case None
    with Pair have "db' = db" by (simp add: update_session_None)
    with Pair show ?thesis by simp
  next
    case (Some r')
    then obtain r where "jm_get (db_sessions db) sid = Some r" "cond r" "r' = f r"
      "db' = db\<lparr>db_sessions := jm_set sid (f r) (db_sessions db)\<rparr>"
      using Pair by (auto simp: update_session_Some)
    with Pair assms show ?thesis by (auto intro!: evolves_row [of db sid r])
  qed
qed

lemma evolves_audit [intro]: "evolves db db' \<Longrightarrow> evolves db (record_audit db' org sid ev)"
  by (simp add: evolves_def life_of_def)

lemma core_active_core: "core_active (core r) \<longleftrightarrow> is_active r"
  by (simp add: core_active_def core_def is_active_def)

section \<open>Every operation is lifecycle steps\<close>

text \<open>The two results of a conditional update, as a rule.\<close>

lemma update_cases:
  obtains "update_session db sid cond f = (db, None)"
  | r where "jm_get (db_sessions db) sid = Some r" and "cond r"
      and "update_session db sid cond f = (db\<lparr>db_sessions := jm_set sid (f r) (db_sessions db)\<rparr>, Some (f r))"
proof (cases "jm_get (db_sessions db) sid")
  case None
  with that(1) show ?thesis by (simp add: update_session_def)
next
  case (Some r)
  with that(1) that(2) [of r] show ?thesis by (cases "cond r") (simp_all add: update_session_def)
qed

lemma owned_core_active: "owned_active session r \<Longrightarrow> core_active (core r)"
  by (simp add: owned_active_def core_active_core)

lemma core_simps:
  "lc_status (core r) = vs_status r" "lc_nfc (core r) = vs_nfcTriesUsed r" "lc_live (core r) = vs_livenessTriesUsed r"
  "lc_failure (core r) = vs_failureCode r" "lc_completedAt (core r) = vs_completedAt r"
  by (simp_all add: core_def)

lemma succeed_evolves: "evolves db (fst (markSessionSucceeded deliveries now i db session keys score))"
proof (cases rule: update_cases [of db "sc_id session" "owned_active session"
      "\<lambda>row. row\<lparr>vs_status := St_succeeded, vs_failureCode := None, vs_riskScore := resolveSuccessRiskScore score,
                vs_selectedShareFieldKeys := keys, vs_completedAt := Some now\<rparr>"])
  case 1
  then show ?thesis by (simp add: markSessionSucceeded_def)
next
  case (2 r)
  show ?thesis
  proof (rule evolves_settle [where sid = "sc_id session" and r = r and i = i and ty = Ev_session_succeeded])
    show "settles (core r) Ev_session_succeeded
        (core (r\<lparr>vs_status := St_succeeded, vs_failureCode := None, vs_riskScore := resolveSuccessRiskScore score,
                vs_selectedShareFieldKeys := keys, vs_completedAt := Some now\<rparr>))"
      using succeed [OF owned_core_active [OF 2(2)], of now] by (simp add: core_def)
  qed (use 2 in \<open>simp_all add: markSessionSucceeded_def Let_def jsmap_simps\<close>)
qed

lemma fail_evolves:
  assumes "isHardKillCode code"
  shows "evolves db (fst (markSessionFailed deliveries now i db session code score))"
proof (cases rule: update_cases [of db "sc_id session" "owned_active session"
      "\<lambda>row. row\<lparr>vs_status := St_failed, vs_failureCode := Some code,
                vs_riskScore := max (vs_riskScore row) (normalizeRiskScore score), vs_completedAt := Some now\<rparr>"])
  case 1
  then show ?thesis by (simp add: markSessionFailed_def)
next
  case (2 r)
  show ?thesis
  proof (rule evolves_settle [where sid = "sc_id session" and r = r and i = i and ty = Ev_session_failed])
    show "settles (core r) Ev_session_failed
        (core (r\<lparr>vs_status := St_failed, vs_failureCode := Some code,
                vs_riskScore := max (vs_riskScore r) (normalizeRiskScore score), vs_completedAt := Some now\<rparr>))"
      using kill [OF owned_core_active [OF 2(2)] assms, of now] by (simp add: core_def)
  qed (use 2 in \<open>simp_all add: markSessionFailed_def createSessionFailedEvent_def Let_def jsmap_simps\<close>)
qed

lemma rewind_evolves: "evolves db (fst (rewindUnlimitedMrzFailure now db session score))"
  by (simp add: rewindUnlimitedMrzFailure_def Let_def evolves_quiet core_def)

lemma expire_evolves: "evolves db (fst (expireVerificationSessionIfNeeded now i db sid row))"
proof (cases "vs_status row = St_expired \<or> vs_status row = St_succeeded \<or> vs_status row = St_failed \<or>
         vs_status row = St_cancelled \<or> now < vs_expiresAt row")
  case True
  then show ?thesis by (simp add: expireVerificationSessionIfNeeded_def)
next
  case False
  show ?thesis
  proof (cases rule: update_cases [of db sid "\<lambda>r. is_active r \<and> vs_expiresAt r \<le> now"
        "\<lambda>r. r\<lparr>vs_status := St_expired,
              vs_completedAt := (case vs_completedAt row of None \<Rightarrow> Some now | Some t \<Rightarrow> Some t)\<rparr>"])
    case 1
    with False show ?thesis by (simp add: expireVerificationSessionIfNeeded_def)
  next
    case (2 r)
    obtain t where t: "(case vs_completedAt row of None \<Rightarrow> Some now | Some t \<Rightarrow> Some t) = Some t"
      by (cases "vs_completedAt row") auto
    show ?thesis
    proof (rule evolves_settle [where sid = sid and r = r and i = i and ty = Ev_session_expired])
      show "settles (core r) Ev_session_expired (core (r\<lparr>vs_status := St_expired, vs_completedAt := Some t\<rparr>))"
        using expire [of "core r" t] 2(2) by (simp add: core_def core_active_def is_active_def)
    qed (use False 2 t in \<open>simp_all add: expireVerificationSessionIfNeeded_def Let_def jsmap_simps\<close>)
  qed
qed

lemma expire_rows_evolves: "evolves db (fst (expire_rows now ids db rows n))"
proof (induction now ids db rows n rule: expire_rows.induct)
  case (1 now ids db n)
  then show ?case by simp
next
  case (2 now ids db sid row rows n)
  then show ?case using evolves_trans [OF expire_evolves] by simp
qed

lemma normalize_evolves: "evolves db (fst (normalize_batches batches now ids bsz db n))"
proof (induction batches arbitrary: db n)
  case 0
  then show ?case by simp
next
  case (Suc batches)
  show ?case
    using evolves_trans [OF expire_rows_evolves Suc] expire_rows_evolves
    by (auto simp: Let_def split: prod.split) (metis fst_conv)+
qed

text \<open>The retry transaction writes the row twice; only the last write is seen.\<close>

definition retried :: "int \<Rightarrow> check_kind \<Rightarrow> rat option \<Rightarrow> session_row \<Rightarrow> session_row" where
  "retried now check score row =
     row\<lparr>vs_nfcTriesUsed := (if check = Check_nfc then vs_nfcTriesUsed row + 1 else vs_nfcTriesUsed row),
         vs_livenessTriesUsed := (if check = Check_nfc then vs_livenessTriesUsed row else vs_livenessTriesUsed row + 1),
         vs_currentPhase := Some (if check = Check_nfc then ''nfc_reading'' else ''liveness_capturing''),
         vs_phaseUpdatedAt := Some now, vs_riskScore := max (vs_riskScore row) (normalizeRiskScore score)\<rparr>"

definition tries_of :: "check_kind \<Rightarrow> session_row \<Rightarrow> nat" where
  "tries_of check row = (if check = Check_nfc then vs_nfcTriesUsed row else vs_livenessTriesUsed row)"

definition max_tries :: "check_kind \<Rightarrow> nat" where
  "max_tries check = (if check = Check_nfc then MAX_NFC_RETRIES else MAX_LIVENESS_RETRIES)"

lemma retried_active: "owned_active session (retried now check score r) = owned_active session r"
  by (simp add: retried_def owned_active_def is_active_def)

lemma retry_cases:
  obtains "incrementRetryFailure now i db session code score check = None"
    and "\<And>r. jm_get (db_sessions db) (sc_id session) = Some r \<Longrightarrow> \<not> owned_active session r"
  | r db1 session1 res where "jm_get (db_sessions db) (sc_id session) = Some r" and "owned_active session r"
    and "incrementRetryFailure now i db session code score check = Some (db1, session1, res)"
    and "tries_of check r + 1 < max_tries check" and "rr_terminalized res = False" and "rr_eventId res = None"
    and "db_sessions db1 = jm_set (sc_id session) (retried now check score r) (db_sessions db)"
    and "\<And>s. recorded db1 s = recorded db s" and "\<And>s. delivered db1 s = delivered db s"
    and "rr_nfcTriesUsed res = vs_nfcTriesUsed (retried now check score r)"
    and "rr_livenessTriesUsed res = vs_livenessTriesUsed (retried now check score r)" and "session1 = session"
  | r db1 session1 res where "jm_get (db_sessions db) (sc_id session) = Some r" and "owned_active session r"
    and "incrementRetryFailure now i db session code score check = Some (db1, session1, res)"
    and "max_tries check \<le> tries_of check r + 1" and "rr_terminalized res = True" and "rr_eventId res = Some i"
    and "\<And>s. jm_get (db_sessions db1) s = (if s = sc_id session
          then Some ((retried now check score r)\<lparr>vs_status := St_failed, vs_failureCode := Some code,
                       vs_completedAt := Some now\<rparr>) else jm_get (db_sessions db) s)"
    and "\<And>s. recorded db1 s = recorded db s @ (if sc_id session = s then [(i, Ev_session_failed)] else [])"
    and "\<And>s. delivered db1 s = delivered db s"
    and "rr_nfcTriesUsed res = vs_nfcTriesUsed (retried now check score r)"
    and "rr_livenessTriesUsed res = vs_livenessTriesUsed (retried now check score r)"
proof (cases rule: update_cases [of db "sc_id session" "owned_active session" "retried now check score"])
  case 1
  then have "incrementRetryFailure now i db session code score check = None"
    by (simp add: incrementRetryFailure_def retried_def [abs_def] Let_def)
  with 1 show ?thesis using that(1) by (simp add: update_session_None)
next
  case (2 r)
  let ?r = "retried now check score r"
  let ?f = "\<lambda>row. row\<lparr>vs_status := St_failed, vs_failureCode := Some code, vs_completedAt := Some now\<rparr>"
  define db2 where "db2 = recordCheckFailedAuditLog
      (db\<lparr>db_sessions := jm_set (sc_id session) ?r (db_sessions db)\<rparr>) session code check"
  have g: "jm_get (db_sessions db2) (sc_id session) = Some ?r"
    by (simp add: db2_def recordCheckFailedAuditLog_def jsmap_simps)
  have inc: "incrementRetryFailure now i db session code score check =
      (if tries_of check ?r < max_tries check
       then Some (db2, session, \<lparr>rr_nfcTriesUsed = vs_nfcTriesUsed ?r, rr_livenessTriesUsed = vs_livenessTriesUsed ?r,
                                 rr_terminalized = False, rr_eventId = None\<rparr>)
       else case update_session db2 (sc_id session) (owned_active session) ?f of
              (_, None) \<Rightarrow> None
            | (db3, Some terminated) \<Rightarrow>
                Some (createSessionFailedEvent db3 i session code (vs_nfcTriesUsed ?r) (vs_livenessTriesUsed ?r) (Some check),
                      session\<lparr>sc_status := vs_status terminated, sc_completedAt := vs_completedAt terminated\<rparr>,
                      \<lparr>rr_nfcTriesUsed = vs_nfcTriesUsed ?r, rr_livenessTriesUsed = vs_livenessTriesUsed ?r,
                       rr_terminalized = True, rr_eventId = Some i\<rparr>))"
    using 2(3) by (simp add: incrementRetryFailure_def retried_def [abs_def] Let_def db2_def tries_of_def max_tries_def)
  have t: "tries_of check ?r = tries_of check r + 1"
    by (simp add: tries_of_def retried_def)
  show ?thesis
  proof (cases "tries_of check r + 1 < max_tries check")
    case True
    with inc t have e: "incrementRetryFailure now i db session code score check =
        Some (db2, session, \<lparr>rr_nfcTriesUsed = vs_nfcTriesUsed ?r, rr_livenessTriesUsed = vs_livenessTriesUsed ?r,
                             rr_terminalized = False, rr_eventId = None\<rparr>)"
      by simp
    show ?thesis
      by (rule that(2) [OF 2(1,2) e]) (use True in \<open>simp_all add: db2_def recordCheckFailedAuditLog_def\<close>)
  next
    case False
    have u: "update_session db2 (sc_id session) (owned_active session) ?f =
        (db2\<lparr>db_sessions := jm_set (sc_id session) (?f ?r) (db_sessions db2)\<rparr>, Some (?f ?r))"
      using g 2(2) by (simp add: update_session_def retried_active)
    from False inc t have e: "incrementRetryFailure now i db session code score check =
        Some (createSessionFailedEvent (db2\<lparr>db_sessions := jm_set (sc_id session) (?f ?r) (db_sessions db2)\<rparr>)
                i session code (vs_nfcTriesUsed ?r) (vs_livenessTriesUsed ?r) (Some check),
              session\<lparr>sc_status := St_failed, sc_completedAt := Some now\<rparr>,
              \<lparr>rr_nfcTriesUsed = vs_nfcTriesUsed ?r, rr_livenessTriesUsed = vs_livenessTriesUsed ?r,
               rr_terminalized = True, rr_eventId = Some i\<rparr>)"
      by (simp add: u)
    show ?thesis
      by (rule that(3) [OF 2(1,2) e])
        (use False in \<open>simp_all add: createSessionFailedEvent_def jsmap_simps db2_def recordCheckFailedAuditLog_def\<close>)
  qed
qed

lemma check_failed_evolves: "evolves db (fst (markCheckFailed deliveries now i db session code score))"
proof (cases "isHardKillCode code")
  case True
  then show ?thesis
    using fail_evolves [OF True, of db deliveries now i session score]
    by (simp add: markCheckFailed_def split: prod.split) (metis fst_conv)
next
  case hard: False
  show ?thesis
  proof (cases "failedCheckForCode code")
    case Check_mrz
    with hard show ?thesis
      using rewind_evolves [of db now session score]
      by (simp add: markCheckFailed_def Let_def split: prod.split) (metis fst_conv)
  next
    case Check_nfc
    show ?thesis
    proof (cases rule: retry_cases [of now i db session code score Check_nfc])
      case 1
      with hard Check_nfc show ?thesis by (simp add: markCheckFailed_def Let_def)
    next
      case (2 r db1 session1 res)
      have "core (retried now Check_nfc score r) = (core r)\<lparr>lc_nfc := lc_nfc (core r) + 1\<rparr>"
        by (simp add: retried_def core_def)
      moreover have "lc_nfc (core r) + 1 < MAX_NFC_RETRIES"
        using 2(4) by (simp add: tries_of_def max_tries_def core_simps)
      ultimately have "evolves db db1"
        using retry_nfc [OF owned_core_active [OF 2(2)]] 2(7)
        by (intro evolves_row [OF 2(1) 2(7) 2(8) 2(9)]) simp
      with hard Check_nfc 2(3,5,6) show ?thesis by (simp add: markCheckFailed_def Let_def)
    next
      case (3 r db1 session1 res)
      have "settles (core r) Ev_session_failed (core ((retried now Check_nfc score r)
          \<lparr>vs_status := St_failed, vs_failureCode := Some code, vs_completedAt := Some now\<rparr>))"
        using exhaust_nfc [OF owned_core_active [OF 3(2)] hard Check_nfc, of now] 3(4)
        by (simp add: retried_def core_def tries_of_def max_tries_def)
      then have "evolves db (call_webhook db1 (Wh_failed code (rr_nfcTriesUsed res) (rr_livenessTriesUsed res)) i
          (sc_org session) (sc_id session) (sc_contractVersion session))"
        using 3(1,7,8,9) by (intro evolves_settle [of db "sc_id session" r]) auto
      with hard Check_nfc 3(3,5,6) show ?thesis by (simp add: markCheckFailed_def Let_def)
    qed
  next
    case Check_liveness
    show ?thesis
    proof (cases rule: retry_cases [of now i db session code score Check_liveness])
      case 1
      with hard Check_liveness show ?thesis by (simp add: markCheckFailed_def Let_def)
    next
      case (2 r db1 session1 res)
      have "core (retried now Check_liveness score r) = (core r)\<lparr>lc_live := lc_live (core r) + 1\<rparr>"
        by (simp add: retried_def core_def)
      moreover have "lc_live (core r) + 1 < MAX_LIVENESS_RETRIES"
        using 2(4) by (simp add: tries_of_def max_tries_def core_simps)
      ultimately have "evolves db db1"
        using retry_liveness [OF owned_core_active [OF 2(2)]] 2(7)
        by (intro evolves_row [OF 2(1) 2(7) 2(8) 2(9)]) simp
      with hard Check_liveness 2(3,5,6) show ?thesis by (simp add: markCheckFailed_def Let_def)
    next
      case (3 r db1 session1 res)
      have "settles (core r) Ev_session_failed (core ((retried now Check_liveness score r)
          \<lparr>vs_status := St_failed, vs_failureCode := Some code, vs_completedAt := Some now\<rparr>))"
        using exhaust_liveness [OF owned_core_active [OF 3(2)] Check_liveness, of now] 3(4)
        by (simp add: retried_def core_def tries_of_def max_tries_def)
      then have "evolves db (call_webhook db1 (Wh_failed code (rr_nfcTriesUsed res) (rr_livenessTriesUsed res)) i
          (sc_org session) (sc_id session) (sc_contractVersion session))"
        using 3(1,7,8,9) by (intro evolves_settle [of db "sc_id session" r]) auto
      with hard Check_liveness 3(3,5,6) show ?thesis by (simp add: markCheckFailed_def Let_def)
    qed
  qed
qed

lemma core_minimize [simp]: "core (privacy_minimize r) = core r"
  by (simp add: privacy_minimize_def core_def)

lemma core_cancelled:
  "core ((privacy_minimize r)\<lparr>vs_status := St_cancelled, vs_completedAt := Some t\<rparr>) =
     (core r)\<lparr>lc_status := St_cancelled, lc_completedAt := Some t\<rparr>"
  by (simp add: privacy_minimize_def core_def)

lemma cancel_evolves: "evolves db (cancelVerificationSession now i db sid org)"
proof (cases rule: update_cases [of db sid "\<lambda>r. vs_org r = org \<and> is_active r"
      "\<lambda>r. (privacy_minimize r)\<lparr>vs_status := St_cancelled, vs_completedAt := Some now\<rparr>"])
  case 1
  then show ?thesis by (simp add: cancelVerificationSession_def)
next
  case (2 r)
  show ?thesis
  proof (rule evolves_settle [where sid = sid and r = r and i = i and ty = Ev_session_cancelled])
    show "settles (core r) Ev_session_cancelled
        (core ((privacy_minimize r)\<lparr>vs_status := St_cancelled, vs_completedAt := Some now\<rparr>))"
      using cancel [of "core r" now] 2(2) by (simp only: core_cancelled core_active_core)
  qed (use 2 in \<open>simp_all add: cancelVerificationSession_def Let_def jsmap_simps\<close>)
qed

lemma withdraw_evolves:
  assumes "jm_get (db_sessions db) sid = Some r" and "vs_status r = St_succeeded \<or> vs_status r = St_failed"
    and "webhook_event kind = Ev_session_cancelled"
  shows "evolves db (call_webhook (insert_event
    (db\<lparr>db_sessions := jm_set sid ((privacy_minimize r)\<lparr>vs_status := St_cancelled, vs_completedAt := Some t\<rparr>)
       (db_sessions db)\<rparr>) i org Ev_session_cancelled sid) kind i org2 sid v)"
proof (rule evolves_settle [where sid = sid and r = r and i = i and ty = Ev_session_cancelled])
  show "settles (core r) Ev_session_cancelled
      (core ((privacy_minimize r)\<lparr>vs_status := St_cancelled, vs_completedAt := Some t\<rparr>))"
    using withdraw [of "core r" t] assms(2) by (simp only: core_cancelled core_simps)
qed (use assms in \<open>simp_all add: jsmap_simps\<close>)

lemma privacy_evolves:
  "evolves db (fst (recordVerificationSessionPrivacyRequest scrub now i db sid row org))"
proof (cases "is_active row")
  case True
  then show ?thesis
    using evolves_audit [OF cancel_evolves] by (simp add: recordVerificationSessionPrivacyRequest_def)
next
  case act: False
  show ?thesis
  proof (cases "vs_status row = St_succeeded \<or> vs_status row = St_failed")
    case False
    with act show ?thesis
      by (auto simp: recordVerificationSessionPrivacyRequest_def)
  next
    case ended: True
    obtain t where t: "(case vs_completedAt row of None \<Rightarrow> Some now | Some t \<Rightarrow> Some t) = Some t"
      by (cases "vs_completedAt row") auto
    let ?w = "su_delivered scrub = 0"
    let ?f = "\<lambda>r. if ?w then (privacy_minimize r)\<lparr>vs_status := St_cancelled, vs_completedAt := Some t\<rparr>
                  else privacy_minimize r"
    show ?thesis
    proof (cases rule: update_cases [of db sid
          "\<lambda>r. vs_org r = org \<and> (vs_status r = St_succeeded \<or> vs_status r = St_failed)" ?f])
      case 1
      with act ended show ?thesis
        unfolding recordVerificationSessionPrivacyRequest_def t Let_def by auto
    next
      case (2 r)
      show ?thesis
      proof (cases ?w)
        case True
        with act ended 2 show ?thesis
          unfolding recordVerificationSessionPrivacyRequest_def t Let_def
          by (auto intro!: evolves_audit withdraw_evolves [OF 2(1)])
      next
        case False
        with act ended 2 show ?thesis
          unfolding recordVerificationSessionPrivacyRequest_def t Let_def
          by (auto intro!: evolves_audit evolves_row [OF 2(1)])
      qed
    qed
  qed
qed

lemma public_cancel_evolves:
  "evolves db (fst (cancelPublicVerifySession hmac hidden scrub now i j db token sid))"
proof (cases "jm_get (db_sessions db) sid")
  case None
  then show ?thesis by (simp add: cancelPublicVerifySession_def)
next
  case (Some raw)
  show ?thesis
  proof (cases "hidden \<or> \<not> truthy (vs_cancelTokenHash raw) \<or>
      \<not> constantTimeStringEqual (hashSessionCancelToken hmac token) (the (vs_cancelTokenHash raw))")
    case True
    with Some show ?thesis by (auto simp: cancelPublicVerifySession_def)
  next
    case False
    obtain db1 session where e: "expireVerificationSessionIfNeeded now i db sid raw = (db1, session)"
      by fastforce
    have e1: "evolves db db1" using expire_evolves [of db now i sid raw] e by simp
    let ?u = "update_session db1 sid (\<lambda>r. vs_cancelTokenConsumedAt r = None) (\<lambda>r. r\<lparr>vs_cancelTokenConsumedAt := Some now\<rparr>)"
    have e2: "evolves db1 (fst ?u)" by (rule evolves_quiet) (simp add: core_def)
    obtain db2 res where u: "?u = (db2, res)" by fastforce
    have e3: "evolves db2 (fst (recordVerificationSessionPrivacyRequest scrub now j db2 sid session (vs_org session)))"
      by (rule privacy_evolves)
    have "evolves db (fst (recordVerificationSessionPrivacyRequest scrub now j db2 sid session (vs_org session)))"
      using evolves_trans [OF e1 evolves_trans [OF e2]] e3 u by simp
    with Some False e e1 u show ?thesis
      by (auto simp: cancelPublicVerifySession_def Let_def split: option.splits)
  qed
qed

lemma fst_case_update:
  "fst (case update_session db sid cond f of (_, None) \<Rightarrow> (db, a) | (db1, Some _) \<Rightarrow> (db1, b)) =
     fst (update_session db sid cond f)"
  by (simp add: update_session_def split: option.split)

lemma claim_evolves: "evolves db (fst (claimSessionConnection now db sid owner takeover))"
  unfolding claimSessionConnection_def Let_def fst_case_update by (rule evolves_quiet) (simp add: core_def)

lemma release_evolves: "evolves db (releaseSessionConnection db sid owner)"
  unfolding releaseSessionConnection_def by (rule evolves_quiet) (simp add: core_def)

lemma phase_evolves: "evolves db (persistTrackedSessionPhase now db sid phase)"
  unfolding persistTrackedSessionPhase_def by (rule evolves_quiet) (simp add: core_def)

lemma consume_evolves: "evolves db (consumeHelloHandoff now db sid dev ver key)"
  unfolding consumeHelloHandoff_def by (rule evolves_quiet) (simp add: core_def)

lemma select_handoff_evolves: "evolves db (fst (select_handoff hmac now seed db sid))"
  by (auto simp: select_handoff_def Let_def intro!: evolves_quiet split: option.split) (simp_all add: core_def)

lemma handoff_evolves: "evolves db (fst (issueHandoffPayload hmac mac pending now i seed db sid))"
proof (cases "jm_get (db_sessions db) sid")
  case None
  then show ?thesis by (simp add: issueHandoffPayload_def)
next
  case (Some row)
  obtain db1 normalized where e: "expireVerificationSessionIfNeeded now i db sid row = (db1, normalized)"
    by fastforce
  obtain db2 res where s: "select_handoff hmac now seed db1 sid = (db2, res)" by fastforce
  have "evolves db db1" "evolves db1 db2"
    using expire_evolves [of db now i sid row] select_handoff_evolves [of db1 hmac now seed sid] e s by simp_all
  moreover from this have "evolves db db2" by (rule evolves_trans)
  ultimately show ?thesis using Some e s
    by (auto simp: issueHandoffPayload_def split: sum.split)
qed

lemma evolves_consents: "evolves db db' \<Longrightarrow> evolves db (db'\<lparr>db_consents := cs\<rparr>)"
  by (simp add: evolves_def life_of_def)

lemma consent_evolves: "evolves db (fst (recordVerifySessionConsent gone now i db input sid))"
proof (cases "jm_get (db_sessions db) sid")
  case None
  then show ?thesis by (simp add: recordVerifySessionConsent_def)
next
  case (Some row)
  obtain db1 session where e: "expireVerificationSessionIfNeeded now i db sid row = (db1, session)"
    by fastforce
  then have "evolves db db1" using expire_evolves [of db now i sid row] by simp
  with Some e show ?thesis
    by (simp add: recordVerifySessionConsent_def evolves_consents)
qed

lemma begin_evolves:
  assumes "\<And>r. is_active r \<Longrightarrow> core (f r) = (core r)\<lparr>lc_status := St_in_progress\<rparr>"
  shows "evolves db (fst (update_session db sid is_active f))"
proof (cases rule: update_cases [of db sid is_active f])
  case 1
  then show ?thesis by simp
next
  case (2 r)
  then show ?thesis
    using proceed [of "core r"] assms [OF 2(2)]
    by (auto simp: core_active_core intro!: evolves_row [OF 2(1)])
qed

lemma first_hello_evolves: "evolves db (fst (persistFirstHelloState now db sid dev ver key))"
  unfolding persistFirstHelloState_def fst_case_update by (rule begin_evolves) (simp add: core_def)

lemma in_progress_evolves: "evolves db (fst (markSessionInProgress db sid status))"
proof (cases "status = St_in_progress")
  case True
  then show ?thesis by (simp add: markSessionInProgress_def)
next
  case False
  then show ?thesis
    unfolding markSessionInProgress_def if_not_P [OF False] fst_case_update
    by (intro begin_evolves) (simp add: core_def)
qed

lemma core_created: "core (created_row now h input) = fresh_core"
  by (simp add: core_def created_row_def fresh_core_def)

lemma create_evolves:
  assumes "insertVerificationSessionRow hash token now db input = Some (db1, row, tok)"
  shows "evolves db db1"
  unfolding evolves_def
proof
  fix sid
  have "life_of db1 sid = life_of db sid \<or>
      life_of db sid = (None, recorded db sid, delivered db sid) \<and>
      life_of db1 sid = (Some fresh_core, recorded db sid, delivered db sid)"
    using assms
    by (auto simp: insertVerificationSessionRow_def Let_def life_of_def jsmap_simps core_created split: if_splits)
  then show "life_step\<^sup>*\<^sup>* (life_of db sid) (life_of db1 sid)"
    using life_step.create by (metis r_into_rtranclp rtranclp.rtrancl_refl)
qed

lemma step_evolves: "evolves db (session_step hmac mac deliveries db m)"
  by (cases "(hmac, mac, deliveries, db, m)" rule: session_step.cases)
    (auto simp: succeed_evolves check_failed_evolves expire_evolves normalizeExpiredVerificationSessions_def
      normalize_evolves cancel_evolves privacy_evolves public_cancel_evolves claim_evolves release_evolves
      phase_evolves handoff_evolves consent_evolves first_hello_evolves consume_evolves in_progress_evolves
      split: option.split dest: create_evolves)

text \<open>
  C8. The detailed writes refine the lifecycle: whatever an operation is called with, stale
  arguments included, every session of the table moves by steps of \<open>life_step\<close>. So a session
  ends only from an active status, a failure is a hard kill or the last try of its check, and
  every ending records one event and hands that same event to the delivery service.
\<close>

theorem store_refines_lifecycle: "evolves db (session_step hmac mac deliveries db (now, ids, op))"
  by (rule step_evolves)

section \<open>Invariants of the lifecycle\<close>

text \<open>The endings a status can have behind it.\<close>

definition endings_of :: "session_status \<Rightarrow> event_type list list" where
  "endings_of status =
     (case status of
        St_created \<Rightarrow> [[]]
      | St_in_progress \<Rightarrow> [[]]
      | St_succeeded \<Rightarrow> [[Ev_session_succeeded]]
      | St_failed \<Rightarrow> [[Ev_session_failed]]
      | St_expired \<Rightarrow> [[Ev_session_expired]]
      | St_cancelled \<Rightarrow> [[Ev_session_cancelled], [Ev_session_succeeded, Ev_session_cancelled],
                         [Ev_session_failed, Ev_session_cancelled]])"

definition exhausted :: "negative_failure_code \<Rightarrow> nat \<Rightarrow> nat \<Rightarrow> bool" where
  "exhausted code nfc live \<longleftrightarrow>
     isHardKillCode code \<or>
     failedCheckForCode code = Check_nfc \<and> nfc = MAX_NFC_RETRIES \<or>
     failedCheckForCode code = Check_liveness \<and> live = MAX_LIVENESS_RETRIES"

definition core_ok :: "life_core \<Rightarrow> bool" where
  "core_ok c \<longleftrightarrow>
     lc_nfc c \<le> MAX_NFC_RETRIES \<and> lc_live c \<le> MAX_LIVENESS_RETRIES \<and>
     (core_active c \<longrightarrow> lc_nfc c < MAX_NFC_RETRIES \<and> lc_live c < MAX_LIVENESS_RETRIES \<and> lc_failure c = None) \<and>
     (lc_completedAt c = None \<longleftrightarrow> core_active c) \<and>
     (lc_status c = St_failed \<longrightarrow> lc_failure c \<noteq> None) \<and>
     (lc_status c = St_succeeded \<or> lc_status c = St_expired \<longrightarrow> lc_failure c = None) \<and>
     (case lc_failure c of
        None \<Rightarrow> lc_nfc c < MAX_NFC_RETRIES \<and> lc_live c < MAX_LIVENESS_RETRIES
      | Some code \<Rightarrow> exhausted code (lc_nfc c) (lc_live c))"

fun life_ok :: "life \<Rightarrow> bool" where
  "life_ok (None, evs, dls) \<longleftrightarrow> evs = [] \<and> dls = []"
| "life_ok (Some c, evs, dls) \<longleftrightarrow> core_ok c \<and> dls = evs \<and> map snd evs \<in> set (endings_of (lc_status c))"

lemmas core_active_simps = core_active_def ACTIVE_SESSION_STATUSES_def

lemma settles_ok:
  assumes "settles c ty c'" and "core_ok c" and "map snd evs \<in> set (endings_of (lc_status c))"
  shows "core_ok c' \<and> map snd evs @ [ty] \<in> set (endings_of (lc_status c'))"
  using assms
  by (cases rule: settles.cases)
    (auto simp: core_ok_def core_active_simps endings_of_def exhausted_def)

lemma life_step_ok: "life_step a b \<Longrightarrow> life_ok a \<Longrightarrow> life_ok b"
proof (induction rule: life_step.induct)
  case (create evs dls)
  then show ?case
    by (simp add: fresh_core_def core_ok_def core_active_simps endings_of_def MAX_NFC_RETRIES_def MAX_LIVENESS_RETRIES_def)
next
  case (proceed c evs dls)
  then show ?case by (auto simp: core_ok_def core_active_simps endings_of_def)
next
  case (retry_nfc c evs dls)
  then show ?case by (auto simp: core_ok_def core_active_simps)
next
  case (retry_liveness c evs dls)
  then show ?case by (auto simp: core_ok_def core_active_simps)
next
  case (settle c ty c' evs dls i)
  then show ?case using settles_ok [of c ty c' evs] by simp
qed

lemma life_steps_ok: "life_step\<^sup>*\<^sup>* a b \<Longrightarrow> life_ok a \<Longrightarrow> life_ok b"
  by (induction rule: rtranclp_induct) (auto dest: life_step_ok)

definition db_ok :: "db \<Rightarrow> bool" where
  "db_ok db \<longleftrightarrow> (\<forall>sid. life_ok (life_of db sid))"

lemma step_ok: "db_ok db \<Longrightarrow> db_ok (session_step hmac mac deliveries db m)"
  using step_evolves [of db hmac mac deliveries m] life_steps_ok
  unfolding db_ok_def evolves_def by blast

interpretation store: invariant_machine "session_step hmac mac deliveries" db_ok for hmac mac deliveries
  by unfold_locales (rule step_ok)

lemma empty_db_ok: "db_ok empty_db"
  by (simp add: db_ok_def empty_db_def life_of_def recorded_def delivered_def)

definition run_store ::
  "(string \<Rightarrow> string) \<Rightarrow> (string \<Rightarrow> bytes) \<Rightarrow> (webhook_call \<Rightarrow> string list) \<Rightarrow> session_msg list \<Rightarrow> db" where
  "run_store hmac mac deliveries ms = foldl (session_step hmac mac deliveries) empty_db ms"

lemma run_store_life: "life_ok (life_of (run_store hmac mac deliveries ms) sid)"
  using store.run_inv [OF empty_db_ok] by (simp add: run_store_def db_ok_def)

lemma run_store_row:
  assumes "jm_get (db_sessions (run_store hmac mac deliveries ms)) sid = Some r"
  shows "core_ok (core r)"
    and "delivered (run_store hmac mac deliveries ms) sid = recorded (run_store hmac mac deliveries ms) sid"
    and "map snd (recorded (run_store hmac mac deliveries ms) sid) \<in> set (endings_of (vs_status r))"
  using run_store_life [of hmac mac deliveries ms sid] assms by (simp_all add: life_of_def core_simps)

text \<open>A small run, for the instances below.\<close>

definition sample_input :: create_input where
  "sample_input = \<lparr>ci_id = ''s'', ci_org = ''o'', ci_redirectUrl = None, ci_shareFields = [],
     ci_shareFieldsJson = JObj [], ci_contractVersion = 1, ci_isAgeOnly = False, ci_webhookEndpointIds = None\<rparr>"

definition sample_context :: session_context where
  "sample_context = \<lparr>sc_contractVersion = 1, sc_id = ''s'', sc_org = ''o'', sc_status = St_in_progress,
     sc_completedAt = None\<rparr>"

definition sample_create :: session_msg where
  "sample_create = (0, (\<lambda>_. ''e''), Op_create sample_input ''t'')"

definition sample_nfc_failure :: session_msg where
  "sample_nfc_failure = (1, (\<lambda>_. ''e''), Op_check_failed sample_context document_authenticity_failed None)"

definition sample_store :: "session_msg list \<Rightarrow> db" where
  "sample_store ms = run_store (\<lambda>s. s) (\<lambda>s. []) (\<lambda>w. []) ms"

definition sample_exhausted :: "session_msg list" where
  "sample_exhausted = [sample_create, sample_nfc_failure, sample_nfc_failure, sample_nfc_failure]"

lemma sample_exhausted_row:
  "\<exists>r. jm_get (db_sessions (sample_store sample_exhausted)) ''s'' = Some r \<and> vs_status r = St_failed \<and>
     vs_nfcTriesUsed r = 3"
proof -
  have "map_option (\<lambda>r. (vs_status r, vs_nfcTriesUsed r)) (jm_get (db_sessions (sample_store sample_exhausted)) ''s'') =
      Some (St_failed, 3)"
    by code_simp
  then show ?thesis by auto
qed

text \<open>
  C9. In every reachable table, whatever the order of the writes: a session that is still
  active has a try left on both checks, no failure code and no completion time; no counter
  exceeds its budget; and a session that failed carries the code of a hard kill or of the check
  whose budget is spent. In particular no session fails while it has a try left, and no session
  with a spent budget succeeds.
\<close>

theorem retry_budget_decides:
  assumes "jm_get (db_sessions (run_store hmac mac deliveries ms)) sid = Some r"
  shows "vs_nfcTriesUsed r \<le> 3 \<and> vs_livenessTriesUsed r \<le> 3 \<and>
    (vs_completedAt r = None \<longleftrightarrow> is_active r) \<and>
    (is_active r \<or> vs_status r = St_succeeded \<or> vs_status r = St_expired \<longrightarrow>
       vs_nfcTriesUsed r < 3 \<and> vs_livenessTriesUsed r < 3 \<and> vs_failureCode r = None) \<and>
    (vs_status r = St_failed \<longrightarrow>
       (\<exists>code. vs_failureCode r = Some code \<and>
          (code = document_anti_cloning_attestation_failed \<or>
           failedCheckForCode code = Check_nfc \<and> vs_nfcTriesUsed r = 3 \<or>
           failedCheckForCode code = Check_liveness \<and> vs_livenessTriesUsed r = 3)))"
proof -
  have ok: "core_ok (core r)" by (rule run_store_row(1) [OF assms])
  note d = core_ok_def core_simps core_active_core MAX_NFC_RETRIES_def MAX_LIVENESS_RETRIES_def
    exhausted_def isHardKillCode_def
  have "vs_nfcTriesUsed r \<le> 3 \<and> vs_livenessTriesUsed r \<le> 3 \<and> (vs_completedAt r = None \<longleftrightarrow> is_active r)"
    using ok by (simp add: d)
  moreover have "is_active r \<or> vs_status r = St_succeeded \<or> vs_status r = St_expired \<longrightarrow>
      vs_nfcTriesUsed r < 3 \<and> vs_livenessTriesUsed r < 3 \<and> vs_failureCode r = None"
    using ok by (auto simp: d)
  moreover have "vs_status r = St_failed \<longrightarrow> (\<exists>code. vs_failureCode r = Some code \<and>
      (code = document_anti_cloning_attestation_failed \<or>
       failedCheckForCode code = Check_nfc \<and> vs_nfcTriesUsed r = 3 \<or>
       failedCheckForCode code = Check_liveness \<and> vs_livenessTriesUsed r = 3))"
    using ok by (auto simp: d split: option.splits)
  ultimately show ?thesis by blast
qed

lemma retry_budget_decides_witness:
  "\<exists>r. jm_get (db_sessions (sample_store sample_exhausted)) ''s'' = Some r \<and> vs_status r = St_failed \<and>
     vs_failureCode r \<noteq> None \<and> vs_completedAt r \<noteq> None"
proof -
  obtain r where r: "jm_get (db_sessions (sample_store sample_exhausted)) ''s'' = Some r" "vs_status r = St_failed"
    using sample_exhausted_row by blast
  from retry_budget_decides [OF r(1) [unfolded sample_store_def]] r(2)
  have "vs_failureCode r \<noteq> None" "vs_completedAt r \<noteq> None"
    by (auto simp: is_active_def ACTIVE_SESSION_STATUSES_def)
  with r show ?thesis by blast
qed

text \<open>
  In every reachable table each ending of a session is one event and one call of the
  delivery service with that event's identifier, in the same order: none while the session is
  active, one that matches its status once it has ended, and at most one more, the cancellation
  a privacy request adds to an undelivered success or failure.
\<close>

theorem endings_recorded_once:
  assumes "jm_get (db_sessions (run_store hmac mac deliveries ms)) sid = Some r"
  shows "map snd (recorded (run_store hmac mac deliveries ms) sid) \<in> set (endings_of (vs_status r)) \<and>
    delivered (run_store hmac mac deliveries ms) sid = recorded (run_store hmac mac deliveries ms) sid"
  using run_store_row [OF assms] by blast

lemma endings_recorded_once_witness:
  "delivered (sample_store sample_exhausted) ''s'' = recorded (sample_store sample_exhausted) ''s'' \<and>
   map snd (recorded (sample_store sample_exhausted) ''s'') = [Ev_session_failed]"
proof -
  obtain r where r: "jm_get (db_sessions (sample_store sample_exhausted)) ''s'' = Some r" "vs_status r = St_failed"
    using sample_exhausted_row by blast
  from endings_recorded_once [OF r(1) [unfolded sample_store_def]] r(2) show ?thesis
    by (simp add: endings_of_def sample_store_def)
qed

section \<open>What no operation can undo\<close>

definition life_ended :: "life \<Rightarrow> bool" where
  "life_ended l \<longleftrightarrow> (case fst l of None \<Rightarrow> False | Some c \<Rightarrow> \<not> core_active c)"

definition life_closed :: "life \<Rightarrow> bool" where
  "life_closed l \<longleftrightarrow> (case fst l of None \<Rightarrow> False
                     | Some c \<Rightarrow> lc_status c = St_expired \<or> lc_status c = St_cancelled)"

definition life_account :: "life \<Rightarrow> (negative_failure_code option \<times> nat \<times> nat) option" where
  "life_account l = map_option (\<lambda>c. (lc_failure c, lc_nfc c, lc_live c)) (fst l)"

lemma life_step_ended:
  assumes "life_step a b" and "life_ended a"
  shows "life_ended b \<and> life_account b = life_account a"
  using assms
  by (cases rule: life_step.cases) (auto simp: life_ended_def life_account_def core_active_simps elim: settles.cases)

lemma life_step_closed: "life_step a b \<Longrightarrow> life_closed a \<Longrightarrow> b = a"
  by (erule life_step.cases)
    (auto simp: life_closed_def core_active_simps elim: settles.cases)

lemma life_steps_ended:
  "life_step\<^sup>*\<^sup>* a b \<Longrightarrow> life_ended a \<Longrightarrow> life_ended b \<and> life_account b = life_account a"
  by (induction rule: rtranclp_induct) (auto dest: life_step_ended)

lemma life_steps_closed: "life_step\<^sup>*\<^sup>* a b \<Longrightarrow> life_closed a \<Longrightarrow> b = a"
  by (induction rule: rtranclp_induct) (auto dest: life_step_closed)

lemma step_life: "life_step\<^sup>*\<^sup>* (life_of db sid) (life_of (session_step hmac mac deliveries db m) sid)"
  using step_evolves by (simp add: evolves_def)

interpretation ended: absorbing_machine "session_step hmac mac deliveries"
  "\<lambda>db. life_ended (life_of db sid)" "\<lambda>db. life_account (life_of db sid)" for hmac mac deliveries sid
  by unfold_locales (use life_steps_ended [OF step_life] in blast)+

interpretation closed_for_good: absorbing_machine "session_step hmac mac deliveries"
  "\<lambda>db. life_closed (life_of db sid)" "\<lambda>db. life_of db sid" for hmac mac deliveries sid
  by unfold_locales (use life_steps_closed [OF step_life] in \<open>metis\<close>)+

definition nfc_rank :: "life \<Rightarrow> nat" where
  "nfc_rank l = (case fst l of None \<Rightarrow> 0 | Some c \<Rightarrow> lc_nfc c)"

definition liveness_rank :: "life \<Rightarrow> nat" where
  "liveness_rank l = (case fst l of None \<Rightarrow> 0 | Some c \<Rightarrow> lc_live c)"

lemma life_step_rank: "life_step a b \<Longrightarrow> nfc_rank a \<le> nfc_rank b \<and> liveness_rank a \<le> liveness_rank b"
  by (erule life_step.cases) (auto simp: nfc_rank_def liveness_rank_def elim: settles.cases)

lemma life_steps_rank: "life_step\<^sup>*\<^sup>* a b \<Longrightarrow> nfc_rank a \<le> nfc_rank b \<and> liveness_rank a \<le> liveness_rank b"
proof (induction rule: rtranclp_induct)
  case base
  then show ?case by simp
next
  case (step y z)
  from step.IH life_step_rank [OF step.hyps(2)] show ?case by linarith
qed

interpretation nfc_count: ranked_machine "session_step hmac mac deliveries" db_ok
  "\<lambda>db. nfc_rank (life_of db sid)" for hmac mac deliveries sid
  by unfold_locales (use life_steps_rank [OF step_life] in blast)

interpretation liveness_count: ranked_machine "session_step hmac mac deliveries" db_ok
  "\<lambda>db. liveness_rank (life_of db sid)" for hmac mac deliveries sid
  by unfold_locales (use life_steps_rank [OF step_life] in blast)

text \<open>
  A session that has ended stays ended under every later operation, with the same failure
  code and the same counters; once it is expired or cancelled, its status, completion time and
  events are fixed for good.
\<close>

theorem ended_sessions_stay_ended:
  assumes "jm_get (db_sessions db) sid = Some r" and "isTerminalSessionStatus (vs_status r)"
  shows "case jm_get (db_sessions (foldl (session_step hmac mac deliveries) db ms)) sid of
      None \<Rightarrow> False
    | Some r' \<Rightarrow>
        isTerminalSessionStatus (vs_status r') \<and> vs_failureCode r' = vs_failureCode r \<and>
        vs_nfcTriesUsed r' = vs_nfcTriesUsed r \<and> vs_livenessTriesUsed r' = vs_livenessTriesUsed r \<and>
        (vs_status r = St_expired \<or> vs_status r = St_cancelled \<longrightarrow>
           core r' = core r \<and> recorded (foldl (session_step hmac mac deliveries) db ms) sid = recorded db sid)"
proof -
  let ?db = "foldl (session_step hmac mac deliveries) db ms"
  have tm: "\<And>q. isTerminalSessionStatus (vs_status q) \<longleftrightarrow> \<not> core_active (core q)"
    by (simp add: terminal_iff_not_active core_active_def core_simps)
  have "life_ended (life_of db sid)"
    using assms by (simp add: life_ended_def life_of_def tm)
  then have e: "life_ended (life_of ?db sid)" "life_account (life_of ?db sid) = life_account (life_of db sid)"
    using ended.run_final by blast+
  have c: "life_of ?db sid = life_of db sid" if "vs_status r = St_expired \<or> vs_status r = St_cancelled"
    using closed_for_good.run_final [of db sid] that assms(1) by (simp add: life_closed_def life_of_def core_simps)
  from e obtain r' where r': "jm_get (db_sessions ?db) sid = Some r'"
    by (auto simp: life_ended_def life_of_def split: option.splits)
  with e assms(1) have "\<not> core_active (core r')" "vs_failureCode r' = vs_failureCode r"
    "vs_nfcTriesUsed r' = vs_nfcTriesUsed r" "vs_livenessTriesUsed r' = vs_livenessTriesUsed r"
    by (simp_all add: life_ended_def life_account_def life_of_def core_simps)
  with r' c assms(1) show ?thesis by (auto simp: tm life_of_def)
qed

lemma ended_sessions_stay_ended_witness:
  "\<exists>r. jm_get (db_sessions (foldl (session_step (\<lambda>s. s) (\<lambda>s. []) (\<lambda>w. [])) (sample_store sample_exhausted)
       [sample_nfc_failure])) ''s'' = Some r \<and> isTerminalSessionStatus (vs_status r) \<and> vs_nfcTriesUsed r = 3"
proof -
  obtain r where r: "jm_get (db_sessions (sample_store sample_exhausted)) ''s'' = Some r" "vs_status r = St_failed"
    "vs_nfcTriesUsed r = 3"
    using sample_exhausted_row by blast
  then have "isTerminalSessionStatus (vs_status r)"
    by (simp add: isTerminalSessionStatus_def TERMINAL_SESSION_STATUSES_def)
  from ended_sessions_stay_ended [OF r(1) this, of "\<lambda>s. s" "\<lambda>s. []" "\<lambda>w. []" "[sample_nfc_failure]"] r(3)
  show ?thesis by (auto split: option.splits)
qed

text \<open>
  No sequence of operations gives a try back: neither a privacy request, nor a rewind of
  the phases, nor a reconnection lowers a session's counters.
\<close>

theorem tries_are_never_refunded:
  assumes "jm_get (db_sessions (run_store hmac mac deliveries ms)) sid = Some r"
    and "jm_get (db_sessions (run_store hmac mac deliveries (ms @ later))) sid = Some r'"
  shows "vs_nfcTriesUsed r \<le> vs_nfcTriesUsed r' \<and> vs_livenessTriesUsed r \<le> vs_livenessTriesUsed r'"
proof -
  let ?db = "run_store hmac mac deliveries ms"
  have "db_ok ?db" unfolding run_store_def by (rule store.run_inv [OF empty_db_ok])
  then have "nfc_rank (life_of ?db sid) \<le> nfc_rank (life_of (run_store hmac mac deliveries (ms @ later)) sid)"
    and "liveness_rank (life_of ?db sid) \<le> liveness_rank (life_of (run_store hmac mac deliveries (ms @ later)) sid)"
    using nfc_count.run_rank liveness_count.run_rank by (simp_all add: run_store_def)
  with assms show ?thesis by (simp add: nfc_rank_def liveness_rank_def life_of_def core_simps)
qed

lemma tries_are_never_refunded_witness:
  "\<exists>r r'. jm_get (db_sessions (sample_store sample_exhausted)) ''s'' = Some r \<and>
     jm_get (db_sessions (sample_store (sample_exhausted @ []))) ''s'' = Some r' \<and>
     vs_nfcTriesUsed r \<le> vs_nfcTriesUsed r'"
proof -
  obtain r where r: "jm_get (db_sessions (sample_store sample_exhausted)) ''s'' = Some r"
    using sample_exhausted_row by blast
  then have "jm_get (db_sessions (sample_store (sample_exhausted @ []))) ''s'' = Some r" by simp
  with tries_are_never_refunded [OF r [unfolded sample_store_def] this [unfolded sample_store_def]] r
  show ?thesis by blast
qed

end
