(* ===== verification/Session_Guarantees.thy ===== *)
theory Session_Guarantees
  imports Session_Machine
begin

text \<open>
  Guarantees of single operations of the session store: failures reported after the end, the
  expiry sweep, the exclusive connection claim, and the tokens of the handoff, the hello and the
  public cancellation.
\<close>

section \<open>Failures after the end\<close>

lemma not_owned_update:
  assumes "jm_get (db_sessions db) sid = Some r" and "\<not> cond r"
  shows "update_session db sid cond f = (db, None)"
  using assms by (simp add: update_session_def)

lemma update_session_hit:
  assumes "jm_get (db_sessions db) sid = Some r" and "cond r"
  shows "update_session db sid cond f = (db\<lparr>db_sessions := jm_set sid (f r) (db_sessions db)\<rparr>, Some (f r))"
  using assms by (simp add: update_session_def)

text \<open>
  A check that fails after its session has ended changes nothing for the two budgeted
  checks and reports the session as over. Two reports are odd: a late hard kill reports no tries
  used, so a full budget remaining, beside the end; and a late data failure is not guarded at
  all: it writes the phase of the ended row and reports that a retry is allowed.
\<close>

theorem late_check_failure:
  assumes "jm_get (db_sessions db) (sc_id session) = Some r" and "isTerminalSessionStatus (vs_status r)"
  shows "markCheckFailed deliveries now i db session code score =
    (if code = document_anti_cloning_attestation_failed then
       (db, session, \<lparr>cf_terminalized = True, cf_deliveryIds = [], cf_nfcTriesUsed = 0, cf_livenessTriesUsed = 0,
                      cf_remainingNfc = 3, cf_remainingLiveness = 3\<rparr>)
     else if code = document_data_invalid then
       (db\<lparr>db_sessions := jm_set (sc_id session)
             (r\<lparr>vs_currentPhase := Some ''mrz_scanning'', vs_phaseUpdatedAt := Some now,
                vs_riskScore := max (vs_riskScore r) (normalizeRiskScore score)\<rparr>) (db_sessions db)\<rparr>,
        session, \<lparr>cf_terminalized = False, cf_deliveryIds = [], cf_nfcTriesUsed = vs_nfcTriesUsed r,
                  cf_livenessTriesUsed = vs_livenessTriesUsed r, cf_remainingNfc = 3 - vs_nfcTriesUsed r,
                  cf_remainingLiveness = 3 - vs_livenessTriesUsed r\<rparr>)
     else
       (db, session, \<lparr>cf_terminalized = True, cf_deliveryIds = [], cf_nfcTriesUsed = 3, cf_livenessTriesUsed = 3,
                      cf_remainingNfc = 0, cf_remainingLiveness = 0\<rparr>))"
proof -
  have no: "\<not> owned_active session r"
    using assms(2) by (simp add: owned_active_def is_active_def terminal_iff_not_active)
  note u = not_owned_update [of db "sc_id session" r "owned_active session", OF assms(1) no]
  consider "code = document_anti_cloning_attestation_failed" | "code = document_data_invalid"
    | "\<not> isHardKillCode code" "code \<noteq> document_data_invalid"
    by (auto simp: isHardKillCode_def)
  then show ?thesis
  proof cases
    case 1
    then show ?thesis
      by (simp add: markCheckFailed_def isHardKillCode_def markSessionFailed_def u check_result_def
          MAX_NFC_RETRIES_def MAX_LIVENESS_RETRIES_def)
  next
    case 2
    then show ?thesis
      by (simp add: markCheckFailed_def isHardKillCode_def failedCheckForCode_def rewindUnlimitedMrzFailure_def
          update_session_hit [OF assms(1)] Let_def check_result_def jsmap_simps MAX_NFC_RETRIES_def MAX_LIVENESS_RETRIES_def)
  next
    case 3
    then show ?thesis
      by (simp add: markCheckFailed_def isHardKillCode_def failedCheckForCode_def incrementRetryFailure_def u Let_def
          check_result_def MAX_NFC_RETRIES_def MAX_LIVENESS_RETRIES_def)
  qed
qed

text \<open>A row that privacy minimisation has emptied, for the instances.\<close>

definition sample_row :: session_row where
  "sample_row = created_row 0 ''h'' sample_input"

definition one_row :: "session_row \<Rightarrow> db" where
  "one_row r = empty_db\<lparr>db_sessions := [(''s'', r)]\<rparr>"

lemma late_check_failure_witness:
  "map_option vs_currentPhase (jm_get (db_sessions (fst (markCheckFailed (\<lambda>_. []) 5 ''e''
     (one_row (sample_row\<lparr>vs_status := St_cancelled\<rparr>)) sample_context document_data_invalid None))) ''s'') =
   Some (Some ''mrz_scanning'')"
  using late_check_failure [of "one_row (sample_row\<lparr>vs_status := St_cancelled\<rparr>)" sample_context
      "sample_row\<lparr>vs_status := St_cancelled\<rparr>" "\<lambda>_. []" 5 "''e''" document_data_invalid None]
  by (simp add: one_row_def empty_db_def sample_context_def isTerminalSessionStatus_def TERMINAL_SESSION_STATUSES_def)

section \<open>The expiry sweep\<close>

definition due_keys :: "int \<Rightarrow> db \<Rightarrow> string set" where
  "due_keys now db = {sid. \<exists>r. jm_get (db_sessions db) sid = Some r \<and> due now r}"

lemma due_keys_filter:
  assumes "jm_wf (db_sessions db)"
  shows "due_keys now db = fst ` set (filter (\<lambda>sr. due now (snd sr)) (db_sessions db))"
    and "card (due_keys now db) = length (filter (\<lambda>sr. due now (snd sr)) (db_sessions db))"
proof -
  let ?xs = "filter (\<lambda>sr. due now (snd sr)) (db_sessions db)"
  show e: "due_keys now db = fst ` set ?xs"
    using jm_in_set_iff [OF assms] by (force simp: due_keys_def)
  have "distinct (map fst ?xs)" using assms by (simp add: jm_wf_def distinct_map_filter)
  then have "card (set (map fst ?xs)) = length ?xs" by (metis distinct_card length_map)
  then show "card (due_keys now db) = length ?xs" by (simp add: e)
qed

lemma finite_due_keys: "finite (due_keys now db)"
proof (rule finite_subset)
  show "due_keys now db \<subseteq> dom (jm_get (db_sessions db))" by (auto simp: due_keys_def)
qed (rule finite_dom_map_of)

text \<open>Expiring a due row, read unchanged, takes exactly that row out of the due ones.\<close>

lemma expire_due_row:
  assumes "jm_get (db_sessions db) sid = Some r" and "due now r"
  shows "db_sessions (fst (expireVerificationSessionIfNeeded now i db sid r)) =
    jm_set sid (r\<lparr>vs_status := St_expired,
      vs_completedAt := (case vs_completedAt r of None \<Rightarrow> Some now | Some t \<Rightarrow> Some t)\<rparr>) (db_sessions db)"
proof -
  have "is_active r" "vs_expiresAt r \<le> now" using assms(2) by (simp_all add: due_def)
  moreover from this have "\<not> (vs_status r = St_expired \<or> vs_status r = St_succeeded \<or> vs_status r = St_failed \<or>
      vs_status r = St_cancelled \<or> now < vs_expiresAt r)"
    by (auto simp: is_active_def ACTIVE_SESSION_STATUSES_def)
  ultimately show ?thesis
    unfolding expireVerificationSessionIfNeeded_def
    by (simp only: if_False update_session_hit [OF assms(1)] simp_thms)
      (simp only: prod.case option.case Let_def fst_conv sessions_call_webhook sessions_record_audit
        sessions_insert_event, simp)
qed

lemma expire_rows_due:
  assumes "distinct (map fst rows)"
    and "\<And>sid r. (sid, r) \<in> set rows \<Longrightarrow> jm_get (db_sessions db) sid = Some r \<and> due now r"
    and "jm_wf (db_sessions db)"
  shows "due_keys now (fst (expire_rows now ids db rows n)) = due_keys now db - fst ` set rows
    \<and> jm_wf (db_sessions (fst (expire_rows now ids db rows n)))
    \<and> snd (expire_rows now ids db rows n) = n + length rows"
  using assms
proof (induction now ids db rows n rule: expire_rows.induct)
  case (1 now ids db n)
  then show ?case by simp
next
  case (2 now ids db sid row rows n)
  let ?db = "fst (expireVerificationSessionIfNeeded now (ids n) db sid row)"
  have h: "jm_get (db_sessions db) sid = Some row" "due now row" using "2.prems"(2) by auto
  note s = expire_due_row [where i = "ids n", OF h]
  have d: "due_keys now ?db = due_keys now db - {sid}"
    by (auto simp: due_keys_def s jsmap_simps due_def is_active_def ACTIVE_SESSION_STATUSES_def split: if_splits)
  have wf: "jm_wf (db_sessions ?db)" using "2.prems"(3) by (simp add: s)
  have "due_keys now (fst (expire_rows now ids ?db rows (n + 1))) = due_keys now ?db - fst ` set rows
    \<and> jm_wf (db_sessions (fst (expire_rows now ids ?db rows (n + 1))))
    \<and> snd (expire_rows now ids ?db rows (n + 1)) = n + 1 + length rows"
  proof (rule "2.IH")
    show "distinct (map fst rows)" using "2.prems"(1) by simp
    fix sid' r' assume m: "(sid', r') \<in> set rows"
    then have "sid' \<noteq> sid" using "2.prems"(1) by force
    with m "2.prems"(2) show "jm_get (db_sessions ?db) sid' = Some r' \<and> due now r'"
      by (auto simp: s jsmap_simps)
  qed (rule wf)
  then show ?case by (auto simp: d)
qed

lemma select_due_rows:
  assumes "jm_wf (db_sessions db)"
  shows "distinct (map fst (select_due now b db))"
    and "(sid, r) \<in> set (select_due now b db) \<Longrightarrow> jm_get (db_sessions db) sid = Some r \<and> due now r"
    and "length (select_due now b db) = min b (card (due_keys now db))"
    and "fst ` set (select_due now b db) \<subseteq> due_keys now db"
proof -
  let ?xs = "filter (\<lambda>sr. due now (snd sr)) (db_sessions db)"
  have sub: "set (select_due now b db) \<subseteq> set ?xs"
    unfolding select_due_def using set_take_subset by fastforce
  have "distinct (map fst ?xs)" using assms by (simp add: jm_wf_def distinct_map_filter)
  then have "distinct (map fst (sort_key (\<lambda>sr. vs_expiresAt (snd sr)) ?xs))"
    by (metis (no_types, lifting) distinct_map distinct_sort set_sort)
  then show "distinct (map fst (select_due now b db))"
    unfolding select_due_def by (metis distinct_take take_map)
  show "(sid, r) \<in> set (select_due now b db) \<Longrightarrow> jm_get (db_sessions db) sid = Some r \<and> due now r"
    using sub jm_in_set_iff [OF assms] by auto
  show "length (select_due now b db) = min b (card (due_keys now db))"
    by (simp add: select_due_def due_keys_filter(2) [OF assms] min.commute)
  show "fst ` set (select_due now b db) \<subseteq> due_keys now db"
    using sub by (auto simp: due_keys_filter(1) [OF assms])
qed

lemma batch_expired:
  assumes "jm_wf (db_sessions db)"
  shows "card (due_keys now (fst (expire_rows now ids db (select_due now b db) n))) = card (due_keys now db) - b
    \<and> jm_wf (db_sessions (fst (expire_rows now ids db (select_due now b db) n)))
    \<and> snd (expire_rows now ids db (select_due now b db) n) = n + min b (card (due_keys now db))"
proof -
  note sel = select_due_rows [OF assms, where now = now and b = b]
  have c: "card (fst ` set (select_due now b db)) = min b (card (due_keys now db))"
    using distinct_card [OF sel(1)] sel(3) by simp
  have "card (due_keys now db - fst ` set (select_due now b db)) = card (due_keys now db) - b"
    using card_Diff_subset [OF finite_subset [OF sel(4) finite_due_keys] sel(4)] c by simp
  then show ?thesis
    using expire_rows_due [OF sel(1,2) assms] sel(3) by simp
qed

lemma normalize_due:
  assumes "0 < b" and "jm_wf (db_sessions db)"
  shows "card (due_keys now (fst (normalize_batches k now ids b db n))) = card (due_keys now db) - b * k
    \<and> snd (normalize_batches k now ids b db n) = n + min (b * k) (card (due_keys now db))"
  using assms
proof (induction k arbitrary: db n)
  case 0
  then show ?case by simp
next
  case (Suc k)
  let ?rows = "select_due now b db" and ?c = "card (due_keys now db)"
  obtain db1 n1 where e: "expire_rows now ids db ?rows n = (db1, n1)" by fastforce
  have b: "card (due_keys now db1) = ?c - b" "jm_wf (db_sessions db1)" "n1 = n + min b ?c"
    using batch_expired [OF Suc.prems(2), of now ids b n] e by simp_all
  have l: "length ?rows = min b ?c" by (rule select_due_rows(3) [OF Suc.prems(2)])
  consider "?c = 0" | "0 < ?c" "?c < b" | "b \<le> ?c" by linarith
  then show ?case
  proof cases
    case 1
    with l show ?thesis by simp
  next
    case 2
    with l Suc.prems(1) have "length ?rows \<noteq> 0" "length ?rows < b" by linarith+
    then have "normalize_batches (Suc k) now ids b db n = (db1, n1)"
      by (simp only: normalize_batches.simps Let_def e prod.case if_True if_False)
    with 2 b show ?thesis by simp
  next
    case 3
    with l Suc.prems(1) have "length ?rows \<noteq> 0" "\<not> length ?rows < b" by linarith+
    then have "normalize_batches (Suc k) now ids b db n = normalize_batches k now ids b db1 n1"
      by (simp only: normalize_batches.simps Let_def e prod.case if_False)
    with Suc.IH [OF Suc.prems(1) b(2), of n1] b 3 show ?thesis by simp
  qed
qed



end
