(* ===== verification/Token_Guarantees.thy ===== *)
theory Token_Guarantees
  imports Session_Guarantees
begin

text \<open>
  The tokens that bind a device to a session. A locale states what a property of the token
  fields of a row must satisfy to hold in every reachable table; it is discharged for the link
  between the stored hash of the write token and its seed. Then: the token of a handoff opens
  its session until it expires, the decision of the hello on every input, the connection claim
  and the public cancellation.
\<close>

section \<open>Properties of the token fields\<close>

definition token_view :: "session_row \<Rightarrow> string option \<times> string option \<times> int option" where
  "token_view r = (vs_writeTokenSeed r, vs_writeTokenHash r, vs_writeTokenIssuedAt r)"

definition rows_all :: "(string \<Rightarrow> session_row \<Rightarrow> bool) \<Rightarrow> db \<Rightarrow> bool" where
  "rows_all Q db \<longleftrightarrow> (\<forall>sid r. jm_get (db_sessions db) sid = Some r \<longrightarrow> Q sid r)"

lemma rows_all_update:
  assumes "rows_all Q db" and "\<And>r. Q sid r \<Longrightarrow> Q sid (f r)"
  shows "rows_all Q (fst (update_session db sid cond f))"
  using assms by (auto simp: rows_all_def update_session_def jsmap_simps split: option.split)

lemma rows_all_sessions: "db_sessions db' = db_sessions db \<Longrightarrow> rows_all Q db' = rows_all Q db"
  by (simp add: rows_all_def)

lemma rows_all_records [simp]:
  "rows_all Q (record_audit db org sid ev) = rows_all Q db"
  "rows_all Q (call_webhook db k e org sid v) = rows_all Q db"
  "rows_all Q (insert_event db e org ty sid) = rows_all Q db"
  "rows_all Q (db\<lparr>db_consents := cs\<rparr>) = rows_all Q db"
  by (simp_all add: rows_all_def)

text \<open>A conditional update inside a larger step: both outcomes keep the property.\<close>

lemma rows_all_case:
  assumes "update_session db sid cond f = (db1, res)" and "rows_all Q db" and "\<And>r. Q sid r \<Longrightarrow> Q sid (f r)"
  shows "rows_all Q db1"
  using rows_all_update [of Q db sid f cond, OF assms(2,3)] assms(1) by simp

locale token_rows =
  fixes hmac :: "string \<Rightarrow> string" and Q :: "string \<Rightarrow> session_row \<Rightarrow> bool"
  assumes unrelated: "token_view r' = token_view r \<Longrightarrow> Q sid r \<Longrightarrow> Q sid r'"
    and no_token: "vs_writeTokenSeed r = None \<Longrightarrow> vs_writeTokenHash r = None \<Longrightarrow> vs_writeTokenIssuedAt r = None \<Longrightarrow> Q sid r"
    and new_token: "vs_writeTokenSeed r = Some seed \<Longrightarrow> vs_writeTokenIssuedAt r = Some t \<Longrightarrow>
      vs_writeTokenHash r = Some (hashMobileWriteToken hmac (deriveMobileWriteToken hmac sid t seed)) \<Longrightarrow> Q sid r"
begin

lemma other_update:
  assumes "update_session db sid cond f = (db1, res)" and "rows_all Q db" and "\<And>r. token_view (f r) = token_view r"
  shows "rows_all Q db1"
  using rows_all_case [OF assms(1,2)] unrelated assms(3) by blast

lemma minimized: "Q sid (privacy_minimize r)"
  by (rule no_token) (simp_all add: privacy_minimize_def)

lemma cancelled: "Q sid ((privacy_minimize r)\<lparr>vs_status := st, vs_completedAt := t\<rparr>)"
  by (rule no_token) (simp_all add: privacy_minimize_def)

lemma succeed_rows: "rows_all Q db \<Longrightarrow> rows_all Q (fst (markSessionSucceeded deliveries now i db session keys score))"
  by (auto simp: markSessionSucceeded_def Let_def split: option.split prod.split
      elim!: other_update simp: token_view_def)

lemma fail_rows: "rows_all Q db \<Longrightarrow> rows_all Q (fst (markSessionFailed deliveries now i db session code score))"
  by (auto simp: markSessionFailed_def createSessionFailedEvent_def Let_def split: option.split prod.split
      elim!: other_update simp: token_view_def)

lemma retry_rows:
  assumes "rows_all Q db" and "incrementRetryFailure now i db session code score check = Some (db1, session1, res)"
  shows "rows_all Q db1"
proof (cases rule: retry_cases [of now i db session code score check])
  case 1
  with assms(2) show ?thesis by simp
next
  case (2 r db2 session2 res2)
  have "token_view (retried now check score r) = token_view r" by (simp add: retried_def token_view_def)
  with 2 assms unrelated show ?thesis by (auto simp: rows_all_def jsmap_simps)
next
  case (3 r db2 session2 res2)
  have "token_view ((retried now check score r)\<lparr>vs_status := St_failed, vs_failureCode := Some code,
      vs_completedAt := Some now\<rparr>) = token_view r" by (simp add: retried_def token_view_def)
  with 3(1,3,7) assms unrelated show ?thesis by (auto simp: rows_all_def)
qed

lemma check_failed_rows:
  assumes "rows_all Q db"
  shows "rows_all Q (fst (markCheckFailed deliveries now i db session code score))"
proof -
  have "rows_all Q (fst (rewindUnlimitedMrzFailure now db session score))"
    unfolding rewindUnlimitedMrzFailure_def Let_def fst_conv
    by (rule rows_all_update [OF assms]) (erule unrelated [rotated], simp add: token_view_def)
  then have m: "rewindUnlimitedMrzFailure now db session score = (db1, res) \<Longrightarrow> rows_all Q db1" for db1 res
    by simp
  have f: "markSessionFailed deliveries now i db session code score = (db1, s1, res) \<Longrightarrow> rows_all Q db1" for db1 s1 res
    using fail_rows [OF assms, of deliveries now i session code score] by simp
  show ?thesis
    unfolding markCheckFailed_def Let_def
    by (auto split: prod.split option.split bool.split dest: m f retry_rows [OF assms] simp: assms)
qed

lemma expire_rows_all:
  assumes "rows_all Q db"
  shows "rows_all Q (fst (expireVerificationSessionIfNeeded now i db sid row))"
  using assms
  by (auto simp: expireVerificationSessionIfNeeded_def Let_def split: option.split prod.split
      elim!: other_update simp: token_view_def)

lemma sweep_rows: "rows_all Q db \<Longrightarrow> rows_all Q (fst (expire_rows now ids db rows n))"
  by (induction now ids db rows n rule: expire_rows.induct) (auto simp: expire_rows_all)

lemma normalize_rows: "rows_all Q db \<Longrightarrow> rows_all Q (fst (normalize_batches batches now ids bsz db n))"
proof (induction batches arbitrary: db n)
  case 0
  then show ?case by simp
next
  case (Suc batches)
  obtain db1 n1 where e: "expire_rows now ids db (select_due now bsz db) n = (db1, n1)" by fastforce
  with sweep_rows [OF Suc.prems, of now ids "select_due now bsz db" n] have "rows_all Q db1" by simp
  with Suc e show ?case by (simp add: Let_def)
qed

lemma cancel_rows: "rows_all Q db \<Longrightarrow> rows_all Q (cancelVerificationSession now i db sid org)"
  by (auto simp: cancelVerificationSession_def Let_def split: option.split prod.split
      elim!: rows_all_case intro: cancelled)

lemma privacy_rows:
  assumes "rows_all Q db"
  shows "rows_all Q (fst (recordVerificationSessionPrivacyRequest scrub now i db sid row org))"
proof (cases "is_active row")
  case True
  then show ?thesis by (simp add: recordVerificationSessionPrivacyRequest_def cancel_rows assms)
next
  case act: False
  show ?thesis
  proof (cases "vs_status row = St_succeeded \<or> vs_status row = St_failed")
    case False
    with act assms show ?thesis by (auto simp: recordVerificationSessionPrivacyRequest_def)
  next
    case True
    let ?f = "\<lambda>r. if su_delivered scrub = 0
        then (privacy_minimize r)\<lparr>vs_status := St_cancelled,
               vs_completedAt := (case vs_completedAt row of None \<Rightarrow> Some now | Some t \<Rightarrow> Some t)\<rparr>
        else privacy_minimize r"
    let ?cond = "\<lambda>r. vs_org r = org \<and> (vs_status r = St_succeeded \<or> vs_status r = St_failed)"
    obtain db2 res where u: "update_session db sid ?cond ?f = (db2, res)" by fastforce
    have "rows_all Q db2"
      by (rule rows_all_case [OF u assms]) (simp add: minimized cancelled)
    with assms act True show ?thesis
      unfolding recordVerificationSessionPrivacyRequest_def Let_def
      by (simp add: u split: option.split)
  qed
qed

lemma public_cancel_rows:
  assumes "rows_all Q db"
  shows "rows_all Q (fst (cancelPublicVerifySession hmac hidden scrub now i j db token sid))"
proof (cases "jm_get (db_sessions db) sid")
  case None
  then show ?thesis by (simp add: cancelPublicVerifySession_def assms)
next
  case (Some raw)
  obtain db1 session where e: "expireVerificationSessionIfNeeded now i db sid raw = (db1, session)"
    by fastforce
  have 1: "rows_all Q db1" using expire_rows_all [OF assms, of now i sid raw] e by simp
  let ?cond = "\<lambda>r. vs_cancelTokenConsumedAt r = None" and ?f = "\<lambda>r. r\<lparr>vs_cancelTokenConsumedAt := Some now\<rparr>"
  obtain db2 res where u: "update_session db1 sid ?cond ?f = (db2, res)" by fastforce
  have 2: "rows_all Q db2" by (rule other_update [OF u 1]) (simp add: token_view_def)
  show ?thesis
    using Some e u assms 1 privacy_rows [OF 2] by (auto simp: cancelPublicVerifySession_def Let_def split: option.split)
qed

lemma select_handoff_rows:
  assumes "rows_all Q db"
  shows "rows_all Q (fst (select_handoff hmac now seed db sid))"
  using assms
  by (auto simp: select_handoff_def Let_def split: option.split intro!: rows_all_update new_token)

lemma handoff_rows:
  assumes "rows_all Q db"
  shows "rows_all Q (fst (issueHandoffPayload hmac mac pending now i seed db sid))"
proof (cases "jm_get (db_sessions db) sid")
  case None
  then show ?thesis by (simp add: issueHandoffPayload_def assms)
next
  case (Some row)
  obtain db1 normalized where e: "expireVerificationSessionIfNeeded now i db sid row = (db1, normalized)"
    by fastforce
  have 1: "rows_all Q db1" using expire_rows_all [OF assms, of now i sid row] e by simp
  obtain db2 res where s: "select_handoff hmac now seed db1 sid = (db2, res)" by fastforce
  have "rows_all Q db2" using select_handoff_rows [OF 1, of now seed sid] s by simp
  with Some e s assms 1 show ?thesis
    by (auto simp: issueHandoffPayload_def split: sum.split)
qed

lemma consent_rows:
  assumes "rows_all Q db"
  shows "rows_all Q (fst (recordVerifySessionConsent gone now i db input sid))"
proof (cases "jm_get (db_sessions db) sid")
  case None
  then show ?thesis by (simp add: recordVerifySessionConsent_def assms)
next
  case (Some row)
  obtain db1 session where e: "expireVerificationSessionIfNeeded now i db sid row = (db1, session)"
    by fastforce
  have "rows_all Q db1" using expire_rows_all [OF assms, of now i sid row] e by simp
  with Some e assms show ?thesis by (simp add: recordVerifySessionConsent_def)
qed

lemma fst_update_rows:
  assumes "rows_all Q db" and "\<And>r. token_view (f r) = token_view r"
  shows "rows_all Q (fst (update_session db sid cond f))"
  by (rule other_update [OF surjective_pairing assms])

lemma created_token: "Q sid (created_row now h input)"
  by (rule no_token) (simp_all add: created_row_def)

lemma create_rows:
  "rows_all Q db \<Longrightarrow> insertVerificationSessionRow h token now db input = Some (db1, row, tok) \<Longrightarrow> rows_all Q db1"
  by (auto simp: insertVerificationSessionRow_def Let_def rows_all_def jsmap_simps created_token
      split: if_splits)

lemma in_progress_rows: "rows_all Q db \<Longrightarrow> rows_all Q (fst (markSessionInProgress db sid status))"
  by (cases "status = St_in_progress")
    (simp_all add: markSessionInProgress_def fst_case_update fst_update_rows token_view_def)

lemma step_rows:
  assumes "rows_all Q db"
  shows "rows_all Q (session_step hmac mac deliveries db m)"
  using assms
  by (cases "(hmac, mac, deliveries, db, m)" rule: session_step.cases)
    (auto simp: succeed_rows check_failed_rows expire_rows_all normalizeExpiredVerificationSessions_def
      normalize_rows cancel_rows privacy_rows public_cancel_rows handoff_rows consent_rows in_progress_rows
      claimSessionConnection_def fst_case_update releaseSessionConnection_def persistTrackedSessionPhase_def
      persistFirstHelloState_def consumeHelloHandoff_def token_view_def intro!: fst_update_rows
      split: option.split dest: create_rows)

lemma run_rows: "rows_all Q (run_store hmac mac deliveries ms)"
proof -
  have "rows_all Q db \<Longrightarrow> rows_all Q (foldl (session_step hmac mac deliveries) db ms)" for db
    by (induction ms arbitrary: db) (simp_all add: step_rows)
  moreover have "rows_all Q empty_db" by (simp add: rows_all_def empty_db_def)
  ultimately show ?thesis by (simp add: run_store_def)
qed

end

section \<open>The handoff token\<close>

definition token_linked :: "(string \<Rightarrow> string) \<Rightarrow> string \<Rightarrow> session_row \<Rightarrow> bool" where
  "token_linked hmac sid r \<longleftrightarrow>
     (case (vs_writeTokenSeed r, vs_writeTokenIssuedAt r) of
        (Some seed, Some t) \<Rightarrow>
          vs_writeTokenHash r = Some (hashMobileWriteToken hmac (deriveMobileWriteToken hmac sid t seed))
      | _ \<Rightarrow> True)"

interpretation linked: token_rows hmac "token_linked hmac" for hmac
  by unfold_locales (auto simp: token_linked_def token_view_def split: option.splits)

text \<open>The platform's HMAC-SHA256 in hexadecimal: 64 characters for every input.\<close>

definition hex_digest :: "(string \<Rightarrow> string) \<Rightarrow> bool" where
  "hex_digest hmac \<longleftrightarrow> (\<forall>x. length (hmac x) = 64)"

lemma hex_digest_equal:
  assumes "hex_digest hmac"
  shows "constantTimeStringEqual (hmac x) y \<longleftrightarrow> length y < 2 ^ 32 \<and> y = hmac x \<or>
    2 ^ 32 \<le> length y \<and> constantTimeStringEqual (hmac x) y"
  using constant_time_equal [of "hmac x" y] assms by (auto simp: hex_digest_def)

lemma hex_digest_same: "hex_digest hmac \<Longrightarrow> constantTimeStringEqual (hmac x) (hmac y) \<longleftrightarrow> hmac x = hmac y"
  by (rule constant_time_equal) (simp_all add: hex_digest_def)

lemma hex_digest_truthy: "hex_digest hmac \<Longrightarrow> truthy (Some (hmac x))"
  by (auto simp: hex_digest_def truthy_def dest: spec [where x = x])

text \<open>What the transaction leaves in the row it returned a token for.\<close>

lemma select_handoff_row:
  assumes "select_handoff hmac now seed db sid = (db1, Inr (issued, expires, used))" and "rows_all (token_linked hmac) db"
  shows "\<exists>r. jm_get (db_sessions db1) sid = Some r \<and> vs_writeTokenConsumedAt r = None \<and>
    vs_writeTokenExpiresAt r = Some expires \<and> now < expires \<and>
    vs_writeTokenHash r = Some (hashMobileWriteToken hmac (deriveMobileWriteToken hmac sid issued used))"
proof -
  obtain current where c: "jm_get (db_sessions db) sid = Some current"
    using assms(1) by (auto simp: select_handoff_def split: option.splits if_splits)
  have l: "token_linked hmac sid current" using assms(2) c by (simp add: rows_all_def)
  show ?thesis
  proof (cases "can_reuse_token now current")
    case True
    with assms(1) c have e: "db1 = db" "issued = the (vs_writeTokenIssuedAt current)"
      "expires = the (vs_writeTokenExpiresAt current)" "used = the (vs_writeTokenSeed current)"
      by (auto simp: select_handoff_def split: if_splits)
    with True c l show ?thesis
      by (auto simp: can_reuse_token_def token_linked_def truthy_def split: option.splits)
  next
    case False
    with assms(1) c show ?thesis
      by (auto simp: select_handoff_def Let_def update_session_hit [OF c] jsmap_simps HANDOFF_TOKEN_TTL_MS_def
          split: if_splits)
  qed
qed

text \<open>A digest of the right length, for the instances: the last 64 characters, padded.\<close>

definition sample_hmac :: "string \<Rightarrow> string" where
  "sample_hmac x = take 64 (rev x) @ replicate (64 - length x) (CHR ''0'')"

lemma sample_hmac_digest: "hex_digest sample_hmac"
  by (simp add: hex_digest_def sample_hmac_def min_def)

definition sample_open_row :: session_row where
  "sample_open_row = sample_row\<lparr>vs_writeTokenHash := Some (sample_hmac ''t''), vs_writeTokenExpiresAt := Some 100\<rparr>"

text \<open>
  C10. In every reachable table a handoff hands out a token that really opens its session: from
  then on the hello with that token, from any device, is accepted until the expiry the payload
  names and refused as expired after it (until another operation changes the row). This covers
  the token drawn afresh and the one that is reused.
\<close>

theorem handoff_token_opens_session:
  assumes "hex_digest hmac"
    and "issueHandoffPayload hmac mac pending now i seed (run_store hmac mac deliveries ms) sid = (db', Inr payload)"
  shows "ho_sessionId payload = sid \<and>
    (\<exists>r expires. jm_get (db_sessions db') sid = Some r \<and> ho_expiresAt payload = toISOString expires \<and>
       now < expires \<and>
       (\<forall>device t. resolveHelloAuthState hmac r (ho_mobileWriteToken payload) device t =
          (if t < expires then Hello_consume (hashMobileDeviceId hmac device) else Hello_error HANDOFF_TOKEN_EXPIRED)))"
proof -
  let ?db = "run_store hmac mac deliveries ms"
  obtain row where row: "jm_get (db_sessions ?db) sid = Some row" "\<not> pending"
    using assms(2) by (auto simp: issueHandoffPayload_def split: option.splits if_splits)
  obtain db1 normalized where e: "expireVerificationSessionIfNeeded now i ?db sid row = (db1, normalized)"
    by fastforce
  obtain db2 res where s: "select_handoff hmac now seed db1 sid = (db2, res)" by fastforce
  from assms(2) row e s obtain issued expires used where
    r: "res = Inr (issued, expires, used)" "db' = db2" "ho_sessionId payload = sid"
      "ho_expiresAt payload = toISOString expires" "ho_mobileWriteToken payload = deriveMobileWriteToken hmac sid issued used"
    by (auto simp: issueHandoffPayload_def split: if_splits sum.splits)
  have "rows_all (token_linked hmac) db1"
    using linked.expire_rows_all [OF linked.run_rows, where now = now and i = i and sid = sid and row = row] e
    by (metis fst_conv)
  from select_handoff_row [OF s [unfolded r(1)] this] obtain q where
    q: "jm_get (db_sessions db') sid = Some q" "vs_writeTokenConsumedAt q = None"
      "vs_writeTokenExpiresAt q = Some expires" "now < expires"
      "vs_writeTokenHash q = Some (hashMobileWriteToken hmac (ho_mobileWriteToken payload))"
    using r by auto
  have "resolveHelloAuthState hmac q (ho_mobileWriteToken payload) device t =
      (if t < expires then Hello_consume (hashMobileDeviceId hmac device) else Hello_error HANDOFF_TOKEN_EXPIRED)"
    for device t
    using q(2,3,5) hex_digest_same [OF assms(1)] hex_digest_truthy [OF assms(1)]
    by (simp add: resolveHelloAuthState_def hashMobileWriteToken_def)
  with q(1,4) r show ?thesis by blast
qed

definition sample_consented :: "session_msg list" where
  "sample_consented = [sample_create, (1, (\<lambda>_. ''e''),
     Op_consent False \<lparr>cn_biometric = True, cn_documentProcessing = True, cn_privacyNotice = True,
                       cn_shareClaims = True, cn_terms = True\<rparr> ''s'')]"

lemma handoff_token_opens_session_witness:
  "\<exists>payload r expires.
     snd (issueHandoffPayload sample_hmac (\<lambda>_. []) False 2 ''e'' ''seed''
       (run_store sample_hmac (\<lambda>_. []) (\<lambda>_. []) sample_consented) ''s'') = Inr payload \<and>
     ho_sessionId payload = ''s'' \<and> 2 < (expires :: int) \<and>
     resolveHelloAuthState sample_hmac r (ho_mobileWriteToken payload) ''device'' 3 =
       (if 3 < expires then Hello_consume (hashMobileDeviceId sample_hmac ''device'')
        else Hello_error HANDOFF_TOKEN_EXPIRED)"
proof -
  let ?h = "issueHandoffPayload sample_hmac (\<lambda>_. []) False 2 ''e'' ''seed''
       (run_store sample_hmac (\<lambda>_. []) (\<lambda>_. []) sample_consented) ''s''"
  have "case snd ?h of Inl _ \<Rightarrow> False | Inr _ \<Rightarrow> True" by code_simp
  then obtain payload where p: "snd ?h = Inr payload" by (auto split: sum.splits)
  then have "?h = (fst ?h, Inr payload)" by (metis prod.collapse)
  from handoff_token_opens_session [OF sample_hmac_digest this] p show ?thesis by metis
qed

section \<open>The decision of the hello\<close>

text \<open>
  The hello consumes a token exactly when it hashes to the stored hash, was not consumed
  and has not expired; it resumes exactly when the token matches, was consumed, and the device
  is the one stored at the first hello. Expiry does not matter for a resumption.
\<close>

theorem hello_decision:
  assumes "hex_digest hmac" and "vs_writeTokenHash r = Some (hmac x)"
    and "vs_helloDeviceIdHash r = None \<or> vs_helloDeviceIdHash r = Some (hmac y)"
  shows "resolveHelloAuthState hmac r token device t =
    (if hashMobileWriteToken hmac token \<noteq> hmac x then Hello_error HANDOFF_TOKEN_INVALID
     else case (vs_writeTokenConsumedAt r, vs_helloDeviceIdHash r) of
       (Some c, None) \<Rightarrow> Hello_error HANDOFF_TOKEN_CONSUMED
     | (Some c, Some d) \<Rightarrow>
         if hashMobileDeviceId hmac device = d then Hello_resume else Hello_error HANDOFF_DEVICE_MISMATCH
     | (None, _) \<Rightarrow>
         (case vs_writeTokenExpiresAt r of
            None \<Rightarrow> if t < 0 then Hello_consume (hashMobileDeviceId hmac device) else Hello_error HANDOFF_TOKEN_EXPIRED
          | Some expires \<Rightarrow>
              if t < expires then Hello_consume (hashMobileDeviceId hmac device)
              else Hello_error HANDOFF_TOKEN_EXPIRED))"
proof (cases "vs_helloDeviceIdHash r")
  case None
  then show ?thesis
    using assms(1,2) hex_digest_same [OF assms(1)] hex_digest_truthy [OF assms(1)]
    by (auto simp: resolveHelloAuthState_def hashMobileWriteToken_def truthy_def Let_def split: option.split)
next
  case (Some d)
  with assms(3) have d: "d = hmac y" by simp
  show ?thesis
    using assms(2) hex_digest_same [OF assms(1)] hex_digest_truthy [OF assms(1)] Some d
    by (auto simp: resolveHelloAuthState_def hashMobileWriteToken_def hashMobileDeviceId_def Let_def
        split: option.split)
qed

lemma hello_decision_witness:
  "resolveHelloAuthState sample_hmac sample_open_row ''t'' ''device'' 3 = Hello_consume (sample_hmac ''device'')"
  using hello_decision [OF sample_hmac_digest, of sample_open_row "''t''" "[]" "''t''" "''device''" 3]
  by (simp add: sample_open_row_def sample_row_def created_row_def hashMobileDeviceId_def hashMobileWriteToken_def)

text \<open>
  The check and the write of the first hello are two steps: two sockets that both resolved
  the same unconsumed token both pass the write as well, and the session ends up bound to the
  device of the second, although the write was meant for one device only.
\<close>

theorem first_hello_binds_twice:
  assumes "jm_get (db_sessions db) sid = Some r" and "is_active r"
    and "resolveHelloAuthState hmac r token device1 t1 = Hello_consume d1"
    and "resolveHelloAuthState hmac r token device2 t2 = Hello_consume d2"
  shows "let (db1, bound1) = persistFirstHelloState now1 db sid d1 version1 key1;
             (db2, bound2) = persistFirstHelloState now2 db1 sid d2 version2 key2
         in bound1 \<and> bound2 \<and>
            map_option vs_helloDeviceIdHash (jm_get (db_sessions db2) sid) = Some (Some (hashMobileDeviceId hmac device2))"
proof -
  have d2: "d2 = hashMobileDeviceId hmac device2"
    using assms(4) by (auto simp: resolveHelloAuthState_def Let_def split: if_splits)
  define q where "q = r\<lparr>vs_status := St_in_progress, vs_currentPhase := Some ''mobile_connected'',
                    vs_attestKeyId := key1, vs_helloAppVersion := none_if_empty version1,
                    vs_helloDeviceIdHash := Some d1, vs_writeTokenConsumedAt := Some now1,
                    vs_phaseUpdatedAt := Some now1\<rparr>"
  have 1: "persistFirstHelloState now1 db sid d1 version1 key1 =
      (db\<lparr>db_sessions := jm_set sid q (db_sessions db)\<rparr>, True)"
    by (simp add: persistFirstHelloState_def update_session_hit [of db sid r is_active, OF assms(1,2)] q_def)
  define db1 where "db1 = db\<lparr>db_sessions := jm_set sid q (db_sessions db)\<rparr>"
  have g: "jm_get (db_sessions db1) sid = Some q"
    by (simp add: db1_def jsmap_simps)
  have a: "is_active q" by (simp add: q_def is_active_def ACTIVE_SESSION_STATUSES_def)
  have 2: "persistFirstHelloState now2 db1 sid d2 version2 key2 =
      (db1\<lparr>db_sessions := jm_set sid (q\<lparr>vs_status := St_in_progress, vs_currentPhase := Some ''mobile_connected'',
                    vs_attestKeyId := key2, vs_helloAppVersion := none_if_empty version2,
                    vs_helloDeviceIdHash := Some d2, vs_writeTokenConsumedAt := Some now2,
                    vs_phaseUpdatedAt := Some now2\<rparr>) (db_sessions db1)\<rparr>, True)"
    by (simp add: persistFirstHelloState_def update_session_hit [of db1 sid q is_active, OF g a])
  show ?thesis
    unfolding 1 db1_def [symmetric] Let_def prod.case 2 by (simp add: jsmap_simps d2)
qed

lemma first_hello_binds_twice_witness:
  "let (db1, bound1) = persistFirstHelloState 4 (one_row sample_open_row) ''s'' (sample_hmac ''a'') ''1.0'' None;
       (db2, bound2) = persistFirstHelloState 5 db1 ''s'' (sample_hmac ''b'') ''1.0'' None
   in bound1 \<and> bound2 \<and>
      map_option vs_helloDeviceIdHash (jm_get (db_sessions db2) ''s'') = Some (Some (hashMobileDeviceId sample_hmac ''b''))"
proof (rule first_hello_binds_twice)
  show "jm_get (db_sessions (one_row sample_open_row)) ''s'' = Some sample_open_row" by (simp add: one_row_def)
  show "is_active sample_open_row" by code_simp
  show "resolveHelloAuthState sample_hmac sample_open_row ''t'' ''a'' 1 = Hello_consume (sample_hmac ''a'')" by code_simp
  show "resolveHelloAuthState sample_hmac sample_open_row ''t'' ''b'' 2 = Hello_consume (sample_hmac ''b'')" by code_simp
qed

section \<open>The connection claim\<close>

definition holds_claim :: "string \<Rightarrow> int \<Rightarrow> session_row \<Rightarrow> bool" where
  "holds_claim owner t r \<longleftrightarrow>
     vs_claimedBy r = Some owner \<and> (case vs_claimedAt r of None \<Rightarrow> False | Some c \<Rightarrow> t \<le> c)"

definition held_by :: "string \<Rightarrow> string \<Rightarrow> int \<Rightarrow> db \<Rightarrow> bool" where
  "held_by sid owner t db \<longleftrightarrow>
     (case jm_get (db_sessions db) sid of None \<Rightarrow> False | Some r \<Rightarrow> holds_claim owner t r)"

text \<open>
  What other sockets of the session can do within the claim's lifetime, and what its owner can
  do short of releasing it.
\<close>

fun competing :: "string \<Rightarrow> string \<Rightarrow> int \<Rightarrow> session_msg \<Rightarrow> bool" where
  "competing sid owner t (now, ids, Op_claim s other takeover) \<longleftrightarrow>
     s \<noteq> sid \<or> (if other = owner then t \<le> now else \<not> takeover \<and> now \<le> t + STALE_CLAIM_MS)"
| "competing sid owner t (now, ids, Op_release s other) \<longleftrightarrow> s \<noteq> sid \<or> other \<noteq> owner"
| "competing sid owner t (now, ids, Op_phase s phase) \<longleftrightarrow> True"
| "competing sid owner t (now, ids, Op_first_hello s dev ver key) \<longleftrightarrow> True"
| "competing sid owner t (now, ids, Op_in_progress s status) \<longleftrightarrow> True"
| "competing sid owner t _ \<longleftrightarrow> False"

lemma held_update:
  assumes "held_by sid owner t db"
    and "\<And>r. s = sid \<Longrightarrow> cond r \<Longrightarrow> holds_claim owner t r \<Longrightarrow> holds_claim owner t (f r)"
  shows "held_by sid owner t (fst (update_session db s cond f))"
  using assms by (auto simp: held_by_def update_session_def jsmap_simps split: option.split_asm option.split)

lemma holds_same:
  "holds_claim owner t r \<Longrightarrow> vs_claimedBy r' = vs_claimedBy r \<Longrightarrow> vs_claimedAt r' = vs_claimedAt r \<Longrightarrow>
     holds_claim owner t r'"
  by (simp add: holds_claim_def)

lemma held_competing:
  assumes "held_by sid owner t db" and "competing sid owner t (now, ids, op)"
  shows "held_by sid owner t (session_step hmac mac deliveries db (now, ids, op))"
proof (cases op)
  case (Op_claim s other takeover)
  with assms(2) show ?thesis
    unfolding Op_claim session_step.simps claimSessionConnection_def Let_def fst_case_update
    by (intro held_update [OF assms(1)]) (auto simp: holds_claim_def split: option.splits if_splits)
next
  case (Op_release s other)
  with assms(2) show ?thesis
    unfolding Op_release session_step.simps releaseSessionConnection_def
    by (intro held_update [OF assms(1)]) (auto simp: holds_claim_def)
next
  case (Op_phase s phase)
  show ?thesis
    unfolding Op_phase session_step.simps persistTrackedSessionPhase_def
    by (rule held_update [OF assms(1)]) (erule holds_same, simp_all)
next
  case (Op_first_hello s dev ver key)
  show ?thesis
    unfolding Op_first_hello session_step.simps persistFirstHelloState_def fst_case_update
    by (rule held_update [OF assms(1)]) (erule holds_same, simp_all)
next
  case (Op_in_progress s status)
  show ?thesis
  proof (cases "status = St_in_progress")
    case True
    then show ?thesis using assms(1) by (simp add: Op_in_progress markSessionInProgress_def)
  next
    case False
    show ?thesis
      unfolding Op_in_progress session_step.simps markSessionInProgress_def if_not_P [OF False] fst_case_update
      by (rule held_update [OF assms(1)]) (erule holds_same, simp_all)
  qed
qed (use assms(2) in simp_all)

lemma held_run:
  "held_by sid owner t db \<Longrightarrow> (\<And>m. m \<in> set ms \<Longrightarrow> competing sid owner t m) \<Longrightarrow>
     held_by sid owner t (foldl (session_step hmac mac deliveries) db ms)"
proof (induction ms arbitrary: db)
  case Nil
  then show ?case by simp
next
  case (Cons m ms)
  then show ?case by (cases m) (auto intro!: Cons.IH held_competing)
qed

text \<open>
  A socket that won the claim of a session keeps it for fifteen minutes against every
  other socket that does not take over: whatever they do meanwhile, a further claim of another
  owner is refused and changes nothing.
\<close>

theorem claim_excludes_others:
  assumes "claimSessionConnection t db sid owner takeover = (db1, Inr ())"
    and "\<forall>m \<in> set ms. competing sid owner t m"
    and "now \<le> t + 15 * 60000" and "other \<noteq> owner"
  shows "claimSessionConnection now (foldl (session_step hmac mac deliveries) db1 ms) sid other False =
    (foldl (session_step hmac mac deliveries) db1 ms, Inl SESSION_CONNECTION_ACTIVE)"
proof -
  let ?db = "foldl (session_step hmac mac deliveries) db1 ms"
  have "held_by sid owner t db1"
    using assms(1)
    by (auto simp: claimSessionConnection_def Let_def update_session_def held_by_def holds_claim_def jsmap_simps
        split: option.splits if_splits prod.splits)
  then have "held_by sid owner t ?db" using assms(2) by (simp add: held_run)
  then obtain r c where r: "jm_get (db_sessions ?db) sid = Some r" "vs_claimedBy r = Some owner"
    "vs_claimedAt r = Some c" "t \<le> c"
    by (auto simp: held_by_def holds_claim_def split: option.splits)
  with assms(3,4) show ?thesis
    by (simp add: claimSessionConnection_def Let_def update_session_def STALE_CLAIM_MS_def)
qed

lemma claim_excludes_others_witness:
  "snd (claimSessionConnection 900000 (foldl (session_step sample_hmac (\<lambda>_. []) (\<lambda>_. []))
      (fst (claimSessionConnection 0 (one_row sample_row) ''s'' ''A'' False))
      [(5, (\<lambda>_. ''e''), Op_phase ''s'' ''mrz_scanning''), (6, (\<lambda>_. ''e''), Op_claim ''s'' ''B'' False),
       (7, (\<lambda>_. ''e''), Op_release ''s'' ''B'')]) ''s'' ''B'' False) = Inl SESSION_CONNECTION_ACTIVE"
proof -
  let ?c = "claimSessionConnection 0 (one_row sample_row) ''s'' ''A'' False"
  have "snd ?c = Inr ()" by code_simp
  then have "?c = (fst ?c, Inr ())" by (metis prod.collapse)
  from claim_excludes_others [OF this, of "[(5, (\<lambda>_. ''e''), Op_phase ''s'' ''mrz_scanning''),
      (6, (\<lambda>_. ''e''), Op_claim ''s'' ''B'' False), (7, (\<lambda>_. ''e''), Op_release ''s'' ''B'')]" 900000 "''B''"]
  show ?thesis by (simp add: STALE_CLAIM_MS_def)
qed

section \<open>Public cancellation\<close>

lemma expire_ended:
  "isTerminalSessionStatus (vs_status row) \<Longrightarrow> expireVerificationSessionIfNeeded now i db sid row = (db, row)"
  by (cases "vs_status row")
    (simp_all add: expireVerificationSessionIfNeeded_def isTerminalSessionStatus_def TERMINAL_SESSION_STATUSES_def)

lemma expire_not_due: "now < vs_expiresAt row \<Longrightarrow> expireVerificationSessionIfNeeded now i db sid row = (db, row)"
  by (simp add: expireVerificationSessionIfNeeded_def)

lemma used_token_base:
  assumes "hex_digest hmac" and "jm_get (db_sessions db) sid = Some r"
    and "vs_cancelTokenHash r = Some (hashSessionCancelToken hmac token)"
    and "vs_cancelTokenConsumedAt r \<noteq> None" and "isTerminalSessionStatus (vs_status r)"
  shows "cancelPublicVerifySession hmac False scrub now i j db token sid =
    (db, if vs_status r = St_expired \<or> vs_status r = St_cancelled then Inr () else Inl CANCEL_TOKEN_USED)"
  using assms(2-5) hex_digest_same [OF assms(1)] hex_digest_truthy [OF assms(1)]
  by (simp add: cancelPublicVerifySession_def hashSessionCancelToken_def expire_ended isTerminalCancelStatus_def)

text \<open>
  The first cancellation with the right token ends an active session: the token is spent,
  the row is cancelled and holds no device, token or phase any more, one event is recorded; and
  asking again is harmless: it succeeds and changes nothing.
\<close>

theorem public_cancel_once:
  assumes "hex_digest hmac" and "jm_get (db_sessions db) sid = Some r"
    and "vs_cancelTokenHash r = Some (hashSessionCancelToken hmac token)"
    and "vs_cancelTokenConsumedAt r = None" and "is_active r" and "now < vs_expiresAt r"
  shows "let (db1, outcome) = cancelPublicVerifySession hmac False scrub now i j db token sid in
    outcome = Inr () \<and>
    cancelPublicVerifySession hmac False scrub2 later i2 j2 db1 token sid = (db1, Inr ()) \<and>
    jm_get (db_sessions db1) sid = Some ((privacy_minimize r)\<lparr>vs_status := St_cancelled,
      vs_completedAt := Some now, vs_cancelTokenConsumedAt := Some now\<rparr>) \<and>
    recorded db1 sid = recorded db sid @ [(j, Ev_session_cancelled)]"
proof -
  define r1 where "r1 = r\<lparr>vs_cancelTokenConsumedAt := Some now\<rparr>"
  define r2 where "r2 = (privacy_minimize r1)\<lparr>vs_status := St_cancelled, vs_completedAt := Some now\<rparr>"
  define db1 where "db1 = db\<lparr>db_sessions := jm_set sid r1 (db_sessions db)\<rparr>"
  define db2 where "db2 = cancelVerificationSession now j db1 sid (vs_org r)"
  define au where "au = Au_privacy_request (vs_status r) (su_delivered scrub) 0 (su_scrubbed scrub) (su_total scrub)"
  have u: "update_session db sid (\<lambda>r. vs_cancelTokenConsumedAt r = None) (\<lambda>r. r\<lparr>vs_cancelTokenConsumedAt := Some now\<rparr>)
      = (db1, Some r1)"
    using assms(2,4) by (simp add: update_session_def db1_def r1_def)
  have p: "cancelPublicVerifySession hmac False scrub now i j db token sid =
      (record_audit db2 (vs_org r) sid au, Inr ())"
    using assms(2-6) hex_digest_same [OF assms(1)] hex_digest_truthy [OF assms(1)]
    by (simp add: cancelPublicVerifySession_def hashSessionCancelToken_def expire_not_due u
        recordVerificationSessionPrivacyRequest_def db2_def au_def)
  have g1: "jm_get (db_sessions db1) sid = Some r1" by (simp add: db1_def jsmap_simps)
  have a1: "vs_org r1 = vs_org r \<and> is_active r1" using assms(5) by (simp add: r1_def is_active_def)
  note c = update_session_hit [of db1 sid r1 "\<lambda>q. vs_org q = vs_org r \<and> is_active q", OF g1 a1]
  have g2: "jm_get (db_sessions db2) sid = Some r2"
    by (simp add: db2_def cancelVerificationSession_def c Let_def jsmap_simps r2_def)
  have ev: "recorded db2 sid = recorded db sid @ [(j, Ev_session_cancelled)]"
  proof -
    have "recorded db2 sid = recorded db1 sid @ [(j, Ev_session_cancelled)]"
      by (simp add: db2_def cancelVerificationSession_def c Let_def)
    then show ?thesis by (simp add: db1_def)
  qed
  have r2: "r2 = (privacy_minimize r)\<lparr>vs_status := St_cancelled,
      vs_completedAt := Some now, vs_cancelTokenConsumedAt := Some now\<rparr>"
    by (simp add: r2_def r1_def privacy_minimize_def)
  have "cancelPublicVerifySession hmac False scrub2 later i2 j2 (record_audit db2 (vs_org r) sid au) token sid =
      (record_audit db2 (vs_org r) sid au, if vs_status r2 = St_expired \<or> vs_status r2 = St_cancelled then Inr ()
       else Inl CANCEL_TOKEN_USED)"
    by (rule used_token_base [OF assms(1)])
      (simp_all add: g2, simp_all add: r2 privacy_minimize_def assms(3) isTerminalSessionStatus_def
        TERMINAL_SESSION_STATUSES_def)
  then have "cancelPublicVerifySession hmac False scrub2 later i2 j2 (record_audit db2 (vs_org r) sid au) token sid =
      (record_audit db2 (vs_org r) sid au, Inr ())"
    by (simp add: r2)
  then show ?thesis by (simp add: p g2 ev r2)
qed

definition sample_cancel_row :: session_row where
  "sample_cancel_row = sample_row\<lparr>vs_cancelTokenHash := Some (hashSessionCancelToken sample_hmac ''t'')\<rparr>"

definition sample_scrub :: scrub_result where
  "sample_scrub = \<lparr>su_delivered = 0, su_scrubbed = 0, su_total = 0\<rparr>"

lemma public_cancel_once_witness:
  "snd (cancelPublicVerifySession sample_hmac False sample_scrub 5 ''e'' ''f'' (one_row sample_cancel_row) ''t'' ''s'') = Inr ()"
proof -
  have "jm_get (db_sessions (one_row sample_cancel_row)) ''s'' = Some sample_cancel_row" by (simp add: one_row_def)
  moreover have "vs_cancelTokenHash sample_cancel_row = Some (hashSessionCancelToken sample_hmac ''t'')"
    "vs_cancelTokenConsumedAt sample_cancel_row = None" "is_active sample_cancel_row"
    "5 < vs_expiresAt sample_cancel_row"
    by code_simp+
  ultimately show ?thesis
    using public_cancel_once [OF sample_hmac_digest, of "one_row sample_cancel_row" "''s''" sample_cancel_row "''t''" 5
        sample_scrub "''e''" "''f''" sample_scrub 6 "''g''" "''h''"]
    by (simp add: Let_def case_prod_beta)
qed

text \<open>
  Asking again with a token already spent succeeds on an expired or cancelled session, but
  on a session that ended as a success or a failure it is refused as a used token: the code's
  list of ended statuses names one, \<open>completed\<close>, that no session ever has.
\<close>

theorem used_cancel_token:
  assumes "hex_digest hmac" and "jm_get (db_sessions db) sid = Some r"
    and "vs_cancelTokenHash r = Some (hashSessionCancelToken hmac token)"
    and "vs_cancelTokenConsumedAt r \<noteq> None" and "isTerminalSessionStatus (vs_status r)"
  shows "cancelPublicVerifySession hmac False scrub now i j db token sid =
    (db, if vs_status r = St_expired \<or> vs_status r = St_cancelled then Inr () else Inl CANCEL_TOKEN_USED)"
  by (rule used_token_base [OF assms])

lemma used_cancel_token_witness:
  "snd (cancelPublicVerifySession sample_hmac False sample_scrub 5 ''e'' ''f''
     (one_row (sample_cancel_row\<lparr>vs_status := St_succeeded, vs_cancelTokenConsumedAt := Some 1\<rparr>)) ''t'' ''s'') =
   Inl CANCEL_TOKEN_USED"
  using used_cancel_token [OF sample_hmac_digest,
      of "one_row (sample_cancel_row\<lparr>vs_status := St_succeeded, vs_cancelTokenConsumedAt := Some 1\<rparr>)" "''s''"
        "sample_cancel_row\<lparr>vs_status := St_succeeded, vs_cancelTokenConsumedAt := Some 1\<rparr>" "''t''"
        sample_scrub 5 "''e''" "''f''"]
  by (simp add: one_row_def sample_cancel_row_def isTerminalSessionStatus_def TERMINAL_SESSION_STATUSES_def)

end
