(* ===== verification/Socket_Checks.thy ===== *)
theory Socket_Checks
  imports Session_Lifecycle Hello_Auth Share_Manifest Face_Threshold Data_Payload
begin

text \<open>
  The connection of a verifying device and the checks its phases run
  (\<open>socket-context.ts\<close>, \<open>socket-check-result.ts\<close>, \<open>socket-missing-data.ts\<close>,
  \<open>socket-*-validation.ts\<close>, \<open>attest-gate*.ts\<close>). A handler takes the connection and the database
  and returns both with what it sent. The cryptographic verdicts (passive, chip and active
  authentication, the attestation assertion) and the biometric service's answer are functions of
  the environment, on which nothing is assumed; every message has its own, so that answers may
  differ from call to call. \<open>en_firstHelloFails\<close> lets the database refuse the write of the first
  hello, the one failure the handlers catch.
\<close>

section \<open>Connection, effects, environment\<close>

record conn =
  co_owner :: string
  co_session :: session_context
  co_shareFields :: json
  co_confirmedFaceScore :: "rat option"
  co_sessionId :: "string option"
  co_currentPhase :: "string option"
  co_helloReceived :: bool
  co_nonce :: "bytes option"
  co_shareManifest :: "share_manifest option"
  co_shareRequestSent :: bool
  co_transfer :: transfer_state

definition createVerifySocketState :: "string \<Rightarrow> session_context \<Rightarrow> json \<Rightarrow> conn" where
  "createVerifySocketState owner session shareFields =
     \<lparr>co_owner = owner, co_session = session, co_shareFields = shareFields, co_confirmedFaceScore = None,
      co_sessionId = None, co_currentPhase = None, co_helloReceived = False, co_nonce = None,
      co_shareManifest = None, co_shareRequestSent = False, co_transfer = createTransferState\<rparr>"

definition share_request_payload :: "conn \<Rightarrow> share_request" where
  "share_request_payload c =
     createShareRequestPayload (sc_contractVersion (co_session c)) (sc_id (co_session c)) (Some (co_shareFields c))"

type_synonym close_reason = "verify_code + negative_failure_code"

record check_message =
  km_confirmed :: bool
  km_reason :: "negative_failure_code option"
  km_reasonMessage :: string
  km_retryAllowed :: bool
  km_failedCheck :: "check_kind option"
  km_remainingNfc :: nat
  km_remainingLiveness :: nat

datatype outgoing =
  Out_ack string
| Out_error verify_code string
| Out_close int verify_code
| Out_close_later close_reason
| Out_aa_challenge bytes
| Out_liveness_challenge nat bytes
| Out_check_result check_message
| Out_share_request share_request
| Out_share_ready string "string list"
| Out_manifest_webhook string share_manifest string

record sod_declares =
  sd_dg14 :: bool
  sd_dg15 :: bool

record liveness_result =
  lr_livenessPassed :: bool
  lr_padPassed :: bool
  lr_faceMatchPassed :: bool
  lr_usedFallback :: bool
  lr_faceMatchScore :: "rat option"

record env =
  en_hmac :: "string \<Rightarrow> string"
  en_mac :: "string \<Rightarrow> bytes"
  en_deliveries :: "webhook_call \<Rightarrow> string list"
  en_message :: "close_reason \<Rightarrow> string"
  en_nodeEnv :: "string option"
  en_requireAttestation :: "string option"
  en_minAppVersion :: string
  en_firstHelloFails :: bool
  en_authSecret :: "string option"
  en_attestKeyKnown :: "string \<Rightarrow> bool"
  en_helloAssertion :: "parsed_hello \<Rightarrow> bool"
  en_nfcAssertion :: "string \<Rightarrow> string \<Rightarrow> transfer_state \<Rightarrow> bool"
  en_authenticity :: "bytes \<Rightarrow> bytes \<Rightarrow> bytes option \<Rightarrow> bytes option \<Rightarrow> bytes \<Rightarrow> sod_declares option"
  en_chipAuthVersions :: "bytes \<Rightarrow> int list option"
  en_chipAuthentication :: "bytes \<Rightarrow> bytes \<Rightarrow> bool"
  en_activeAuthentication :: "bytes \<Rightarrow> bytes option \<Rightarrow> bytes \<Rightarrow> bytes \<Rightarrow> bytes \<Rightarrow> bool"
  en_liveness :: "bytes \<Rightarrow> bytes \<Rightarrow> bytes \<Rightarrow> rat \<Rightarrow> liveness_result"

definition resolveVerifyErrorMessage :: "env \<Rightarrow> verify_code \<Rightarrow> string" where
  "resolveVerifyErrorMessage env code = en_message env (Inl code)"

definition send_code :: "env \<Rightarrow> verify_code \<Rightarrow> outgoing" where
  "send_code env code = Out_error code (resolveVerifyErrorMessage env code)"

definition sendAuthErrorAndClose :: "env \<Rightarrow> verify_code \<Rightarrow> outgoing list" where
  "sendAuthErrorAndClose env code = [send_code env code, Out_close 1008 code]"

definition date_of :: "int \<Rightarrow> utc_date" where
  "date_of ms =
     (let (y, m, d) = civil_from_days (ms div 86400000)
      in \<lparr>ud_year = y, ud_month = m, ud_day = d, ud_millis = ms mod 86400000\<rparr>)"

section \<open>Check results\<close>

definition completeCheckWithNegativeSignal ::
  "env \<Rightarrow> int \<Rightarrow> string \<Rightarrow> conn \<Rightarrow> db \<Rightarrow> negative_failure_code \<Rightarrow> rat \<Rightarrow> conn \<times> db \<times> check_message" where
  "completeCheckWithNegativeSignal env now evtId c db code riskScore =
     (let (db1, session1, result) = markCheckFailed (en_deliveries env) now evtId db (co_session c) code (Some riskScore)
      in (c\<lparr>co_session := session1\<rparr>, db1,
          \<lparr>km_confirmed = False, km_reason = Some code, km_reasonMessage = en_message env (Inr code),
           km_retryAllowed = (\<not> cf_terminalized result), km_failedCheck = Some (failedCheckForCode code),
           km_remainingNfc = cf_remainingNfc result, km_remainingLiveness = cf_remainingLiveness result\<rparr>))"

definition sendCheckResultAndMaybeClose :: "check_message \<Rightarrow> outgoing list" where
  "sendCheckResultAndMaybeClose k =
     Out_check_result k #
       (if km_retryAllowed k then []
        else case km_reason k of None \<Rightarrow> [] | Some code \<Rightarrow> [Out_close_later (Inr code)])"

definition confirmedCheckResult :: check_message where
  "confirmedCheckResult =
     \<lparr>km_confirmed = True, km_reason = None, km_reasonMessage = [], km_retryAllowed = False,
      km_failedCheck = None, km_remainingNfc = MAX_NFC_RETRIES, km_remainingLiveness = MAX_LIVENESS_RETRIES\<rparr>"

text \<open>A failed check: mark it, send the result and return it.\<close>

type_synonym check_outcome = "conn \<times> db \<times> outgoing list \<times> check_message option"

definition fail_check ::
  "env \<Rightarrow> int \<Rightarrow> string \<Rightarrow> conn \<Rightarrow> db \<Rightarrow> negative_failure_code \<Rightarrow> rat \<Rightarrow> check_outcome" where
  "fail_check env now evtId c db code riskScore =
     (let (c1, db1, k) = completeCheckWithNegativeSignal env now evtId c db code riskScore
      in (c1, db1, sendCheckResultAndMaybeClose k, Some k))"

section \<open>Missing data\<close>

definition missing_chunks_json :: "missing_chunk list \<Rightarrow> string" where
  \<open>missing_chunks_json chunks =
     ''['' @ join_with '','' (map (\<lambda>k. ''{"kind":'' @ show_int (mc_kind k) @ '',"index":'' @ show_int (mc_index k) @
        '',"chunk_total":'' @ show_int (mc_total k) @ '',"missing_chunk_indices":['' @
        join_with '','' (map show_int (mc_indices k)) @ '']}'') chunks) @ '']''\<close>

definition artifact_name :: "nfc_artifact \<Rightarrow> string" where
  "artifact_name a = (case a of Art_dg1 \<Rightarrow> ''dg1'' | Art_dg2 \<Rightarrow> ''dg2'' | Art_sod \<Rightarrow> ''sod'')"

definition buildMissingNfcDataMessage :: "nfc_status \<Rightarrow> verify_code \<times> string" where
  \<open>buildMissingNfcDataMessage status =
     (NFC_REQUIRED_DATA_MISSING,
      ''{"missing_artifacts":['' @ join_with '','' (map (\<lambda>a. ''"'' @ artifact_name a @ ''"'') (ns_missing_artifacts status)) @
      ''],"missing_chunks":'' @ missing_chunks_json (ns_missing_chunks status) @ ''}'')\<close>

definition buildMissingDataMessage :: "transfer_state \<Rightarrow> string \<Rightarrow> (verify_code \<times> string) option" where
  \<open>buildMissingDataMessage transfer nextPhase =
     (if nextPhase = ''nfc_complete'' then
        (let status = getNfcTransferStatus transfer
         in if ns_complete status then None else Some (buildMissingNfcDataMessage status))
      else if nextPhase \<noteq> ''liveness_complete'' then None
      else
        let nfcStatus = getNfcTransferStatus transfer
        in if \<not> ns_complete nfcStatus then Some (buildMissingNfcDataMessage nfcStatus)
           else
             let status = getLivenessTransferStatus transfer
             in if ls_complete status then None
                else Some (LIVENESS_REQUIRED_DATA_MISSING,
                           ''{"received_bytes":'' @ show_nat (ls_received status) @ '',"missing_chunks":'' @
                           missing_chunks_json (ls_missing_chunks status) @ ''}''))\<close>

section \<open>Attestation\<close>

definition isAttestationGateEnabled :: "env \<Rightarrow> bool" where
  "isAttestationGateEnabled env \<longleftrightarrow>
     en_nodeEnv env = Some ''production'' \<or> en_requireAttestation env = Some ''true''"

definition verifyHelloAttestation :: "env \<Rightarrow> parsed_hello \<Rightarrow> verify_code option" where
  "verifyHelloAttestation env p =
     (if \<not> en_attestKeyKnown env (ph_attestKeyId p) then Some HELLO_ATTEST_KEY_UNKNOWN
      else if \<not> en_helloAssertion env p then Some HELLO_ATTEST_INVALID
      else None)"

text \<open>\<open>Inl\<close> the code of a refusal, \<open>Inr\<close> the key the session is bound to.\<close>

definition runHelloAttestationGate :: "env \<Rightarrow> parsed_hello \<Rightarrow> verify_code + string option" where
  "runHelloAttestationGate env p =
     (let hasAssertion = (ph_attestKeyId p \<noteq> [] \<and> 0 < length (ph_helloAssertion p))
      in if \<not> isAttestationGateEnabled env then Inr (if hasAssertion then Some (ph_attestKeyId p) else None)
         else if \<not> hasAssertion then Inl HELLO_ATTEST_KEY_UNKNOWN
         else case verifyHelloAttestation env p of
                Some code \<Rightarrow>
                  Inl (if code = HELLO_ATTEST_KEY_UNKNOWN then HELLO_ATTEST_KEY_UNKNOWN else HELLO_ATTEST_INVALID)
              | None \<Rightarrow> Inr (Some (ph_attestKeyId p)))"

definition verifyNfcAttestation :: "env \<Rightarrow> string \<Rightarrow> string \<Rightarrow> transfer_state \<Rightarrow> bool" where
  "verifyNfcAttestation env sid attestKeyId transfer =
     (case ts_attest transfer of
        None \<Rightarrow> False
      | Some assertion \<Rightarrow>
          length assertion \<noteq> 0 \<and> en_attestKeyKnown env attestKeyId \<and> en_nfcAssertion env sid attestKeyId transfer)"

definition runAttestationValidation :: "env \<Rightarrow> int \<Rightarrow> string \<Rightarrow> conn \<Rightarrow> db \<Rightarrow> string \<Rightarrow> check_outcome" where
  "runAttestationValidation env now evtId c db sid =
     (if \<not> isAttestationGateEnabled env then (c, db, [], None)
      else
        let attestKeyId = Option.bind (jm_get (db_sessions db) (sc_id (co_session c))) vs_attestKeyId
        in if \<not> truthy attestKeyId then
             fail_check env now evtId c db document_anti_cloning_attestation_failed 1
           else if verifyNfcAttestation env sid (the attestKeyId) (co_transfer c) then (c, db, [], None)
           else fail_check env now evtId c db document_anti_cloning_attestation_failed 1)"

section \<open>Document\<close>

text \<open>\<open>Inl\<close> the failed check, \<open>Inr\<close> what the document's security object declares.\<close>

definition runPassiveAuthValidation ::
  "env \<Rightarrow> int \<Rightarrow> string \<Rightarrow> conn \<Rightarrow> db \<Rightarrow> bytes \<Rightarrow> bytes \<Rightarrow> bytes \<Rightarrow> check_outcome + sod_declares" where
  "runPassiveAuthValidation env now evtId c db dg1 dg2 sod =
     (case en_authenticity env dg1 dg2 (ts_dg14 (co_transfer c)) (ts_dg15 (co_transfer c)) sod of
        None \<Rightarrow> Inl (fail_check env now evtId c db document_authenticity_failed 1)
      | Some declares \<Rightarrow> Inr declares)"

datatype chip_declaration = Chip_none | Chip_v1_only | Chip_v2

definition summarizeDg14ChipAuth :: "env \<Rightarrow> bytes option \<Rightarrow> chip_declaration" where
  "summarizeDg14ChipAuth env dg14 =
     (case dg14 of
        None \<Rightarrow> Chip_none
      | Some bytes \<Rightarrow>
          if length bytes = 0 then Chip_none
          else case en_chipAuthVersions env bytes of
                 None \<Rightarrow> Chip_none
               | Some versions \<Rightarrow>
                   if length versions = 0 then Chip_none
                   else if list_ex (\<lambda>v. 2 \<le> v) versions then Chip_v2 else Chip_v1_only)"

definition runChipAuthValidation ::
  "env \<Rightarrow> int \<Rightarrow> string \<Rightarrow> conn \<Rightarrow> db \<Rightarrow> bool \<Rightarrow> check_outcome" where
  "runChipAuthValidation env now evtId c db sodDeclaresDg14 =
     (if \<not> sodDeclaresDg14 then (c, db, [], None)
      else
        case summarizeDg14ChipAuth env (ts_dg14 (co_transfer c)) of
          Chip_none \<Rightarrow> (c, db, [], None)
        | Chip_v1_only \<Rightarrow> (c, db, [], None)
        | Chip_v2 \<Rightarrow>
            (case (ts_dg14 (co_transfer c), ts_ca_transcript (co_transfer c)) of
               (Some dg14, Some transcript) \<Rightarrow>
                 if en_chipAuthentication env transcript dg14 then (c, db, [], None)
                 else fail_check env now evtId c db document_chip_authentication_failed 1
             | _ \<Rightarrow> fail_check env now evtId c db document_chip_authentication_failed 1))"

definition ICAO_CHALLENGE_BYTES :: nat where "ICAO_CHALLENGE_BYTES = 8"

definition deriveActiveAuthChallenge :: "env \<Rightarrow> string \<Rightarrow> bytes" where
  "deriveActiveAuthChallenge env sid = js_slice (en_mac env (''aa:'' @ sid)) 0 ICAO_CHALLENGE_BYTES"

definition runActiveAuthValidation ::
  "env \<Rightarrow> int \<Rightarrow> string \<Rightarrow> conn \<Rightarrow> db \<Rightarrow> string \<Rightarrow> bool \<Rightarrow> check_outcome" where
  "runActiveAuthValidation env now evtId c db sid sodDeclaresDg15 =
     (if \<not> sodDeclaresDg15 then (c, db, [], None)
      else
        case (ts_dg15 (co_transfer c), ts_aa_challenge (co_transfer c), ts_aa_signature (co_transfer c)) of
          (Some dg15, Some challenge, Some signature) \<Rightarrow>
            if en_activeAuthentication env challenge (ts_dg14 (co_transfer c)) dg15
                 (deriveActiveAuthChallenge env sid) signature
            then (c, db, [], None)
            else fail_check env now evtId c db document_active_authentication_failed 1
        | _ \<Rightarrow> fail_check env now evtId c db document_active_authentication_failed 1)"

definition runDocumentPhaseValidation :: "env \<Rightarrow> int \<Rightarrow> string \<Rightarrow> conn \<Rightarrow> db \<Rightarrow> string \<Rightarrow> check_outcome" where
  "runDocumentPhaseValidation env now evtId c db sid =
     (case (ts_dg1 (co_transfer c), ts_dg2 (co_transfer c), ts_sod (co_transfer c)) of
        (Some dg1, Some dg2, Some sod) \<Rightarrow>
          (case runAttestationValidation env now evtId c db sid of
             (c1, db1, outs1, Some k) \<Rightarrow> (c1, db1, outs1, Some k)
           | (c1, db1, outs1, None) \<Rightarrow>
               (case runPassiveAuthValidation env now evtId c1 db1 dg1 dg2 sod of
                  Inl (c2, db2, outs2, k) \<Rightarrow> (c2, db2, outs1 @ outs2, k)
                | Inr declares \<Rightarrow>
                    (case runChipAuthValidation env now evtId c1 db1 (sd_dg14 declares) of
                       (c3, db3, outs3, Some k) \<Rightarrow> (c3, db3, outs1 @ outs3, Some k)
                     | (c3, db3, outs3, None) \<Rightarrow>
                         (case runActiveAuthValidation env now evtId c3 db3 sid (sd_dg15 declares) of
                            (c4, db4, outs4, k) \<Rightarrow> (c4, db4, outs1 @ outs3 @ outs4, k)))))
      | _ \<Rightarrow> (c, db, [], None))"

section \<open>Liveness\<close>

definition shouldRejectSuccessfulFallbackMatch :: "env \<Rightarrow> liveness_result \<Rightarrow> bool" where
  "shouldRejectSuccessfulFallbackMatch env result \<longleftrightarrow>
     en_nodeEnv env = Some ''production'' \<and> lr_faceMatchPassed result \<and> lr_usedFallback result"

text \<open>The last component tells whether the handler threw.\<close>

definition resolveLivenessCheckResult ::
  "env \<Rightarrow> int \<Rightarrow> string \<Rightarrow> conn \<Rightarrow> db \<Rightarrow> liveness_result \<Rightarrow> check_outcome \<times> bool" where
  "resolveLivenessCheckResult env now evtId c db result =
     (if \<not> lr_livenessPassed result then (fail_check env now evtId c db liveness_failed 1, False)
      else if \<not> lr_padPassed result then (fail_check env now evtId c db liveness_failed 1, False)
      else if \<not> lr_faceMatchPassed result \<or> shouldRejectSuccessfulFallbackMatch env result then
        (fail_check env now evtId c db selfie_face_mismatch
           (if lr_usedFallback result then 1
            else 1 - (case lr_faceMatchScore result of None \<Rightarrow> 0 | Some s \<Rightarrow> s)), False)
      else case lr_faceMatchScore result of
             None \<Rightarrow> ((c, db, [], None), True)
           | Some score \<Rightarrow> ((c\<lparr>co_confirmedFaceScore := Some score\<rparr>, db, [], Some confirmedCheckResult), False))"

definition resolve_threshold :: "conn \<Rightarrow> utc_date \<Rightarrow> rat option" where
  "resolve_threshold c today =
     (case ts_dg1 (co_transfer c) of
        None \<Rightarrow> None
      | Some dg1 \<Rightarrow> (case resolveFaceMatchThresholdFromDg1 dg1 today of Inl _ \<Rightarrow> None | Inr t \<Rightarrow> Some t))"

definition runLivenessPhaseValidation ::
  "env \<Rightarrow> int \<Rightarrow> string \<Rightarrow> conn \<Rightarrow> db \<Rightarrow> check_outcome \<times> bool" where
  "runLivenessPhaseValidation env now evtId c db =
     (case (ts_dg2 (co_transfer c), ts_video (co_transfer c)) of
        (Some documentPortrait, Some livenessVideo) \<Rightarrow>
          (case resolve_threshold c (date_of now) of
             None \<Rightarrow> (fail_check env now evtId c db document_data_invalid 1, False)
           | Some threshold \<Rightarrow>
               (case co_nonce c of
                  None \<Rightarrow> (fail_check env now evtId c db liveness_failed 1, False)
                | Some nonce \<Rightarrow>
                    resolveLivenessCheckResult env now evtId c db
                      (en_liveness env documentPortrait livenessVideo nonce threshold)))
      | _ \<Rightarrow> ((c, db, [], None), False))"

definition runPhaseValidation ::
  "env \<Rightarrow> int \<Rightarrow> string \<Rightarrow> conn \<Rightarrow> db \<Rightarrow> string \<Rightarrow> string \<Rightarrow> check_outcome \<times> bool" where
  "runPhaseValidation env now evtId c db sid nextPhase =
     (if nextPhase = ''nfc_complete'' then (runDocumentPhaseValidation env now evtId c db sid, False)
      else runLivenessPhaseValidation env now evtId c db)"

end
