(* ===== verification/Socket_Handlers.thy ===== *)
theory Socket_Handlers
  imports Socket_Checks
begin

text \<open>
  The message handlers of the verification socket (\<open>socket-controller.ts\<close>, \<open>socket-hello*.ts\<close>,
  \<open>socket-phase.ts\<close>, \<open>socket-data.ts\<close>, \<open>socket-share.ts\<close>, \<open>session-context.ts\<close>). A handler is one step: it takes the
  connection and the database and returns both, what it sent, and whether it threw.
\<close>

type_synonym reply = "conn \<times> db \<times> outgoing list \<times> bool"

section \<open>Application versions\<close>

text \<open>\<open>Number.parseInt(part, 10)\<close>; \<open>None\<close> is \<open>NaN\<close>.\<close>

definition js_parseInt :: "string \<Rightarrow> int option" where
  "js_parseInt text =
     (let s = dropWhile is_js_space text;
          negative = (s \<noteq> [] \<and> hd s = CHR ''-'');
          t = (if s \<noteq> [] \<and> (hd s = CHR ''-'' \<or> hd s = CHR ''+'') then tl s else s);
          digits = takeWhile is_digit t
      in if digits = [] then None
         else Some (if negative then - int (read_nat digits) else int (read_nat digits)))"

definition parseSemver :: "string \<Rightarrow> int list option" where
  "parseSemver value =
     (let parts = map js_parseInt (split_on CHR ''.'' value)
      in if list_ex (\<lambda>part. part = None) parts then None
         else Some (map (\<lambda>i. case at_opt parts i of Some (Some n) \<Rightarrow> n | _ \<Rightarrow> 0) [0, 1, 2]))"

fun version_loop :: "int list \<Rightarrow> int list \<Rightarrow> bool" where
  "version_loop (a # as) (m # ms) =
     (if m < a then True else if a < m then False else version_loop as ms)"
| "version_loop _ _ = True"

definition isAppVersionAtLeast :: "string \<Rightarrow> string \<Rightarrow> bool" where
  "isAppVersionAtLeast actual minimum =
     (if actual = [] \<or> minimum = [] then True
      else case (parseSemver actual, parseSemver minimum) of
             (Some actualVersion, Some minimumVersion) \<Rightarrow> version_loop actualVersion minimumVersion
           | _ \<Rightarrow> True)"

section \<open>Hello\<close>

definition resetSessionState :: "conn \<Rightarrow> db \<Rightarrow> string \<Rightarrow> conn \<times> db" where
  "resetSessionState c db sid =
     (c\<lparr>co_confirmedFaceScore := None, co_sessionId := None, co_currentPhase := None,
        co_shareManifest := None, co_shareRequestSent := False\<rparr>,
      releaseSessionConnection db sid (co_owner c))"

definition persistConnectedPhaseIfMissing :: "int \<Rightarrow> conn \<Rightarrow> db \<Rightarrow> string \<Rightarrow> conn \<times> db" where
  "persistConnectedPhaseIfMissing now c db sid =
     (if truthy (co_currentPhase c) then (c, db)
      else (c\<lparr>co_currentPhase := Some ''mobile_connected''\<rparr>,
            persistTrackedSessionPhase now db sid ''mobile_connected''))"

definition sendActiveAuthChallenge :: "env \<Rightarrow> string \<Rightarrow> outgoing" where
  "sendActiveAuthChallenge env sid = Out_aa_challenge (deriveActiveAuthChallenge env sid)"

text \<open>
  The checks of a hello, up to the claim of the session: none of them changes the state. \<open>Inl\<close>
  the code of a refusal, \<open>Inr\<close> the parsed hello, the session's row, its authentication and the
  attestation key.
\<close>

definition check_hello ::
  "env \<Rightarrow> int \<Rightarrow> conn \<Rightarrow> db \<Rightarrow> hello_payload \<Rightarrow>
     verify_code + parsed_hello \<times> session_row \<times> hello_auth_state \<times> string option" where
  "check_hello env now c db payload =
     (let sid = sc_id (co_session c) in
      case parseHelloPayload payload of
        None \<Rightarrow> Inl HELLO_AUTH_REQUIRED
      | Some parsed \<Rightarrow>
          if ph_sessionId parsed \<noteq> sid then Inl HELLO_AUTH_REQUIRED
          else
            case jm_get (db_sessions db) sid of
              None \<Rightarrow> Inl SESSION_NOT_FOUND
            | Some row \<Rightarrow>
                if isSessionMissingOrTerminal (Some row) then Inl SESSION_NOT_FOUND
                else if co_helloReceived c \<and> truthy (co_sessionId c) \<and> co_sessionId c \<noteq> Some sid
                  then Inl HELLO_AUTH_REQUIRED
                else if en_minAppVersion env \<noteq> [] \<and>
                        \<not> isAppVersionAtLeast (ph_appVersion parsed) (en_minAppVersion env)
                  then Inl MIN_APP_VERSION_REQUIRED
                else
                  case resolveHelloAuthState (en_hmac env) row (ph_mobileWriteToken parsed)
                         (ph_deviceId parsed) now of
                    Hello_error code \<Rightarrow> Inl code
                  | authState \<Rightarrow>
                      (case runHelloAttestationGate env parsed of
                         Inl code \<Rightarrow> Inl code
                       | Inr key \<Rightarrow> Inr (parsed, row, authState, key)))"

definition hello_claimed :: "conn \<Rightarrow> string \<Rightarrow> session_row \<Rightarrow> conn" where
  "hello_claimed c sid row =
     c\<lparr>co_confirmedFaceScore := None, co_sessionId := Some sid, co_currentPhase := vs_currentPhase row,
       co_helloReceived := True, co_shareManifest := None, co_shareRequestSent := False\<rparr>"

definition handleHelloMessage :: "env \<Rightarrow> int \<Rightarrow> conn \<Rightarrow> db \<Rightarrow> hello_payload \<Rightarrow> reply" where
  "handleHelloMessage env now c db payload =
     (case check_hello env now c db payload of
        Inl code \<Rightarrow> (c, db, sendAuthErrorAndClose env code, False)
      | Inr (parsed, row, authState, attestKeyId) \<Rightarrow>
          let sid = sc_id (co_session c) in
          case claimSessionConnection now db sid (co_owner c) (authState = Hello_resume) of
            (db1, Inl code) \<Rightarrow> (c, db1, sendAuthErrorAndClose env code, False)
          | (db1, Inr _) \<Rightarrow>
              let c1 = hello_claimed c sid row in
              case authState of
                Hello_consume deviceIdHash \<Rightarrow>
                  (if en_firstHelloFails env then
                     (let (c2, db2) = resetSessionState c1 db1 sid in (c2, db2, [], True))
                   else
                     case persistFirstHelloState now db1 sid deviceIdHash (ph_appVersion parsed) attestKeyId of
                       (db2, False) \<Rightarrow> (c1, db2, sendAuthErrorAndClose env SESSION_EXPIRED, False)
                     | (db2, True) \<Rightarrow>
                         (c1\<lparr>co_session := (co_session c1)\<lparr>sc_status := St_in_progress\<rparr>,
                             co_currentPhase := Some ''mobile_connected''\<rparr>,
                          db2, [Out_ack ''hello_ok'', sendActiveAuthChallenge env sid], False))
              | _ \<Rightarrow>
                  (let (c2, db2) = persistConnectedPhaseIfMissing now c1 db1 sid
                   in (c2, db2, [Out_ack ''hello_ok'', sendActiveAuthChallenge env sid], False)))"

section \<open>Phase\<close>

record phase_payload =
  pp_phase :: "string option"
  pp_attestAssertion :: "bytes option"

definition LIVENESS_CHALLENGE_LABEL :: string where "LIVENESS_CHALLENGE_LABEL = ''liveness:''"
definition CHALLENGE_NONCE_BYTES :: nat where "CHALLENGE_NONCE_BYTES = 4"
definition DEFAULT_MAX_DURATION_MS :: nat where "DEFAULT_MAX_DURATION_MS = 8000"

definition deriveLivenessChallenge :: "env \<Rightarrow> string \<Rightarrow> nat \<times> bytes" where
  "deriveLivenessChallenge env attemptId =
     (DEFAULT_MAX_DURATION_MS,
      js_slice (en_mac env (LIVENESS_CHALLENGE_LABEL @ attemptId)) 0 CHALLENGE_NONCE_BYTES)"

definition keep_assertion :: "conn \<Rightarrow> string \<Rightarrow> bytes option \<Rightarrow> conn" where
  "keep_assertion c nextPhase assertion =
     (case assertion of
        None \<Rightarrow> c
      | Some bytes \<Rightarrow>
          if nextPhase = ''nfc_complete'' \<and> 0 < length bytes
          then c\<lparr>co_transfer := (co_transfer c)\<lparr>ts_attest := Some bytes\<rparr>\<rparr> else c)"

definition drop_stale_artifacts :: "conn \<Rightarrow> string \<Rightarrow> conn" where
  "drop_stale_artifacts c nextPhase =
     (if co_currentPhase c = Some ''nfc_complete'' \<and> nextPhase = ''nfc_reading''
      then c\<lparr>co_transfer := resetNfcTransferState (co_transfer c)\<rparr>
      else if co_currentPhase c = Some ''liveness_complete'' \<and> nextPhase = ''liveness_capturing''
      then c\<lparr>co_transfer := resetLivenessTransferState (co_transfer c)\<rparr>
      else c)"

text \<open>The phase is entered; the flag tells whether the handler returns here.\<close>

definition enter_phase ::
  "env \<Rightarrow> int \<Rightarrow> conn \<Rightarrow> db \<Rightarrow> string \<Rightarrow> string \<Rightarrow> conn \<times> db \<times> outgoing list \<times> bool" where
  "enter_phase env now c db sid nextPhase =
     (let c1 = (drop_stale_artifacts c nextPhase)\<lparr>co_currentPhase := Some nextPhase\<rparr>;
          db1 = persistTrackedSessionPhase now db sid nextPhase
      in if nextPhase \<noteq> ''liveness_capturing'' then (c1, db1, [], False)
         else if \<not> truthy (en_authSecret env) then
           (c1, db1, [send_code env LIVENESS_CHALLENGE_UNAVAILABLE,
                      Out_close_later (Inl LIVENESS_CHALLENGE_UNAVAILABLE)], True)
         else
           let (maxDurationMs, challengeNonce) = deriveLivenessChallenge env sid
           in (c1\<lparr>co_nonce := Some challengeNonce\<rparr>, db1,
               [Out_liveness_challenge maxDurationMs challengeNonce], False))"

definition finish_phase ::
  "env \<Rightarrow> conn \<Rightarrow> db \<Rightarrow> string \<Rightarrow> check_message option \<Rightarrow> conn \<times> db \<times> outgoing list" where
  "finish_phase env c db nextPhase checkResult =
     (case checkResult of
        Some k \<Rightarrow>
          if nextPhase = ''liveness_complete''
          then (c\<lparr>co_shareRequestSent := True\<rparr>, db, [Out_check_result k, Out_share_request (share_request_payload c)])
          else (c, db, [Out_ack ''phase_ok''])
      | None \<Rightarrow> (c, db, [Out_ack ''phase_ok'']))"

definition stops_phase :: "string \<Rightarrow> check_message option \<Rightarrow> bool" where
  "stops_phase nextPhase checkResult \<longleftrightarrow>
     (case checkResult of None \<Rightarrow> False | Some k \<Rightarrow> \<not> km_confirmed k \<or> nextPhase = ''nfc_complete'')"

text \<open>The checks of an announced phase.\<close>

definition phase_checks :: "env \<Rightarrow> int \<Rightarrow> string \<Rightarrow> conn \<Rightarrow> db \<Rightarrow> string \<Rightarrow> string \<Rightarrow> check_outcome \<times> bool" where
  "phase_checks env now evtId c db sid nextPhase =
     (if nextPhase = ''nfc_complete'' \<or> nextPhase = ''liveness_complete''
      then runPhaseValidation env now evtId c db sid nextPhase else ((c, db, [], None), False))"

text \<open>The handler after its guards, from the checks on.\<close>

definition phase_rest :: "env \<Rightarrow> int \<Rightarrow> string \<Rightarrow> conn \<Rightarrow> db \<Rightarrow> string \<Rightarrow> string \<Rightarrow> string \<Rightarrow> bool \<Rightarrow> reply" where
  "phase_rest env now evtId c db sid nextPhase phase changed =
     (case phase_checks env now evtId c db sid nextPhase of
        ((c2, db2, outs, checkResult), thrown) \<Rightarrow>
          if thrown then (c2, db2, outs, True)
          else if stops_phase nextPhase checkResult then (c2, db2, outs, False)
          else
            case (if changed then enter_phase env now c2 db2 sid phase else (c2, db2, [], False)) of
              (c3, db3, outs3, returned) \<Rightarrow>
                if returned then (c3, db3, outs @ outs3, False)
                else case finish_phase env c3 db3 nextPhase checkResult of
                       (c4, db4, outs4) \<Rightarrow> (c4, db4, outs @ outs3 @ outs4, False))"

definition handlePhaseMessage :: "env \<Rightarrow> int \<Rightarrow> string \<Rightarrow> conn \<Rightarrow> db \<Rightarrow> phase_payload \<Rightarrow> reply" where
  "handlePhaseMessage env now evtId c db payload =
     (if \<not> truthy (co_sessionId c) then
        (c, db, [Out_error HELLO_REQUIRED ''Send hello before other messages.''], False)
      else
        let nextPhase = trim_or_empty (pp_phase payload)
        in if \<not> isTrackedSessionPhase nextPhase then (c, db, [Out_ack ''phase_ok''], False)
           else
             let c1 = keep_assertion c nextPhase (pp_attestAssertion payload) in
             case buildMissingDataMessage (co_transfer c1) nextPhase of
               Some (code, message) \<Rightarrow> (c1, db, [Out_error code message], False)
             | None \<Rightarrow>
                 (case validateTrackedPhaseTransition (co_currentPhase c1) nextPhase None of
                    Inl code \<Rightarrow> (c1, db, [send_code env code], False)
                  | Inr (phase, changed) \<Rightarrow>
                      phase_rest env now evtId c1 db (the (co_sessionId c)) nextPhase phase changed))"

section \<open>Data\<close>

definition handleDataMessage :: "env \<Rightarrow> conn \<Rightarrow> data_payload \<Rightarrow> conn \<times> outgoing list" where
  "handleDataMessage env c payload =
     (let kind = (case dp_kind payload of None \<Rightarrow> 0 | Some k \<Rightarrow> k)
      in if isNfcDataKind kind \<and> \<not> isPhaseAtOrAfter (co_currentPhase c) ''nfc_reading''
           then (c, [send_code env NFC_DATA_PHASE_REQUIRED])
         else if isLivenessVideoDataKind kind \<and> \<not> isPhaseAtOrAfter (co_currentPhase c) ''liveness_capturing''
           then (c, [send_code env LIVENESS_DATA_PHASE_REQUIRED])
         else
           let (transfer, result) = processDataPayload (co_transfer c) (payload\<lparr>dp_kind := Some kind\<rparr>)
           in (c\<lparr>co_transfer := transfer\<rparr>,
               case dr_error result of
                 Some (code, message) \<Rightarrow> [Out_error code message]
               | None \<Rightarrow> map Out_ack (dr_acks result)))"

section \<open>Share selection\<close>

record share_payload =
  sp_selectedFieldKeys :: "string list option"
  sp_sessionId :: "string option"

definition handleShareSelectionMessage ::
  "env \<Rightarrow> int \<Rightarrow> string \<Rightarrow> conn \<Rightarrow> db \<Rightarrow> share_payload \<Rightarrow> reply" where
  "handleShareSelectionMessage env now evtId c db payload =
     (if \<not> (co_helloReceived c \<and> truthy (co_sessionId c) \<and> co_shareRequestSent c)
      then (c, db, [send_code env PHASE_OUT_OF_ORDER], False)
      else
        case (ts_dg1 (co_transfer c), ts_dg2 (co_transfer c)) of
          (Some dg1, Some dg2) \<Rightarrow>
            (case co_shareManifest c of
               Some manifest \<Rightarrow>
                 (c, db, [Out_share_ready (sm_sessionId manifest) (sm_selectedFieldKeys manifest)], False)
             | None \<Rightarrow>
                 let session = co_session c in
                 case validateAndBuildShareManifest (en_hmac env) (sc_contractVersion session) dg1 (date_of now)
                        (sc_org session) (sp_selectedFieldKeys payload) (sc_id session) (sp_sessionId payload)
                        (Some (co_shareFields c)) of
                   Inl _ \<Rightarrow> (c, db, [], True)
                 | Inr (Inl code) \<Rightarrow> (c, db, [send_code env code], False)
                 | Inr (Inr (manifest, claims)) \<Rightarrow>
                     (case co_confirmedFaceScore c of
                        None \<Rightarrow> (c, db, [], True)
                      | Some score \<Rightarrow>
                          (case markSessionSucceeded (en_deliveries env) now evtId db session
                                  (sm_selectedFieldKeys manifest) (Inl (Some score)) of
                             (db1, session1, None, _) \<Rightarrow>
                               (c\<lparr>co_session := session1\<rparr>, db1, [send_code env SESSION_EXPIRED], False)
                           | (db1, session1, Some eventId, _) \<Rightarrow>
                               (c\<lparr>co_session := session1, co_shareManifest := Some manifest\<rparr>, db1,
                                [Out_manifest_webhook eventId manifest (sc_org session),
                                 Out_share_ready (sm_sessionId manifest) (sm_selectedFieldKeys manifest)], False))))
        | _ \<Rightarrow> (c, db, [send_code env PHASE_OUT_OF_ORDER], False))"

section \<open>Controller\<close>

record client_message =
  cm_hello :: "hello_payload option"
  cm_phase :: "phase_payload option"
  cm_data :: "data_payload option"
  cm_share :: "share_payload option"

text \<open>A frame is text, or binary of some size; \<open>None\<close> is one the codec refuses.\<close>

datatype frame = Frame_text | Frame_binary nat "client_message option"

definition handleDecodedMessage ::
  "env \<Rightarrow> int \<Rightarrow> string \<Rightarrow> conn \<Rightarrow> db \<Rightarrow> client_message \<Rightarrow> reply" where
  "handleDecodedMessage env now evtId c db decoded =
     (case cm_hello decoded of
        Some hello \<Rightarrow> handleHelloMessage env now c db hello
      | None \<Rightarrow>
          if \<not> co_helloReceived c then
            (c, db, [Out_error HELLO_REQUIRED ''Send hello before other messages.''], False)
          else
            case cm_phase decoded of
              Some phase \<Rightarrow> handlePhaseMessage env now evtId c db phase
            | None \<Rightarrow>
                (case cm_data decoded of
                   Some data \<Rightarrow> (let (c1, outs) = handleDataMessage env c data in (c1, db, outs, False))
                 | None \<Rightarrow>
                     (case cm_share decoded of
                        Some share \<Rightarrow> handleShareSelectionMessage env now evtId c db share
                      | None \<Rightarrow> (c, db, [], False))))"

definition receive_frame :: "env \<Rightarrow> int \<Rightarrow> string \<Rightarrow> conn \<Rightarrow> db \<Rightarrow> frame \<Rightarrow> conn \<times> db \<times> outgoing list" where
  "receive_frame env now evtId c db frame =
     (case frame of
        Frame_text \<Rightarrow> (c, db, [Out_error INVALID_MESSAGE ''Binary protobuf messages are required.''])
      | Frame_binary byteLength decoded \<Rightarrow>
          if MAX_FRAME_BYTES < byteLength then
            (c, db, [Out_error FRAME_TOO_LARGE ''Verify frame exceeds the maximum allowed size.'',
                     Out_close 1009 FRAME_TOO_LARGE])
          else
            case decoded of
              None \<Rightarrow> (c, db, [Out_error DECODE_FAILED ''Failed to decode protobuf message.''])
            | Some message \<Rightarrow>
                (case handleDecodedMessage env now evtId c db message of
                   (c1, db1, outs, thrown) \<Rightarrow>
                     (c1, db1,
                      if thrown then outs @ [Out_error INTERNAL_ERROR ''An internal server error occurred.'',
                                             Out_close 1011 INTERNAL_ERROR]
                      else outs)))"

definition close_connection :: "conn \<Rightarrow> db \<Rightarrow> conn \<times> db" where
  "close_connection c db =
     (c\<lparr>co_transfer := resetTransferState (co_transfer c)\<rparr>,
      if truthy (co_sessionId c) then releaseSessionConnection db (the (co_sessionId c)) (co_owner c) else db)"

text \<open>\<open>pendingDeletion\<close> stands for the organization's flag.\<close>

definition session_of_row :: "string \<Rightarrow> session_row \<Rightarrow> session_context" where
  "session_of_row sid row =
     \<lparr>sc_contractVersion = vs_contractVersion row, sc_id = sid, sc_org = vs_org row,
      sc_status = vs_status row, sc_completedAt = vs_completedAt row\<rparr>"

definition loadActiveVerifySession ::
  "bool \<Rightarrow> int \<Rightarrow> string \<Rightarrow> db \<Rightarrow> string \<Rightarrow> db \<times> (verify_code + session_context \<times> json)" where
  "loadActiveVerifySession pendingDeletion now evtId db sid =
     (case jm_get (db_sessions db) sid of
        None \<Rightarrow> (db, Inl SESSION_NOT_FOUND)
      | Some row \<Rightarrow>
          if pendingDeletion then (db, Inl SESSION_NOT_FOUND)
          else
            let (db1, session) = expireVerificationSessionIfNeeded now evtId db sid row
            in if isTerminalSessionStatus (vs_status session) \<or> vs_expiresAt session < now
               then (db1, Inl SESSION_EXPIRED)
               else (db1, Inr (session_of_row sid session, vs_shareFields session)))"

definition startVerifySocketSession :: "string \<Rightarrow> session_context \<times> json \<Rightarrow> conn" where
  "startVerifySocketSession connectionOwnerId activeSession =
     createVerifySocketState connectionOwnerId (fst activeSession) (snd activeSession)"

end
