(* ===== verification/Socket_Network.thy ===== *)
theory Socket_Network
  imports Socket_Handlers Session_Machine Data_Payload_Laws
begin

text \<open>
  The whole service: one database, any number of connections and every other operation on the
  sessions, in any order. The checks and the handlers are shown to move the sessions along the
  lifecycle only, and to keep the invariant of their connection; both hold of every world that
  can be reached.
\<close>

section \<open>What the checks keep\<close>

definition same_link :: "conn \<Rightarrow> conn \<Rightarrow> bool" where
  "same_link c c' \<longleftrightarrow>
     sc_id (co_session c') = sc_id (co_session c) \<and> sc_org (co_session c') = sc_org (co_session c) \<and>
     sc_contractVersion (co_session c') = sc_contractVersion (co_session c) \<and>
     c' = c\<lparr>co_session := co_session c'\<rparr>"

lemma same_link_refl [simp]: "same_link c c"
  by (simp add: same_link_def)

lemma same_link_fields:
  assumes "same_link c c'"
  shows "co_owner c' = co_owner c" "co_shareFields c' = co_shareFields c"
    "co_confirmedFaceScore c' = co_confirmedFaceScore c" "co_sessionId c' = co_sessionId c"
    "co_currentPhase c' = co_currentPhase c" "co_helloReceived c' = co_helloReceived c"
    "co_nonce c' = co_nonce c" "co_shareManifest c' = co_shareManifest c"
    "co_shareRequestSent c' = co_shareRequestSent c" "co_transfer c' = co_transfer c"
    "sc_id (co_session c') = sc_id (co_session c)" "sc_org (co_session c') = sc_org (co_session c)"
proof -
  have e: "c' = c\<lparr>co_session := co_session c'\<rparr>" using assms by (simp add: same_link_def)
  show "co_owner c' = co_owner c" by (subst e) simp
  show "co_shareFields c' = co_shareFields c" by (subst e) simp
  show "co_confirmedFaceScore c' = co_confirmedFaceScore c" by (subst e) simp
  show "co_sessionId c' = co_sessionId c" by (subst e) simp
  show "co_currentPhase c' = co_currentPhase c" by (subst e) simp
  show "co_helloReceived c' = co_helloReceived c" by (subst e) simp
  show "co_nonce c' = co_nonce c" by (subst e) simp
  show "co_shareManifest c' = co_shareManifest c" by (subst e) simp
  show "co_shareRequestSent c' = co_shareRequestSent c" by (subst e) simp
  show "co_transfer c' = co_transfer c" by (subst e) simp
qed (use assms in \<open>simp_all add: same_link_def\<close>)

text \<open>A check that is passed changes nothing; a failed one records its failure.\<close>

fun check_ok :: "conn \<Rightarrow> db \<Rightarrow> check_outcome \<Rightarrow> bool" where
  "check_ok c db (c', db', outs, k) \<longleftrightarrow>
     same_link c c' \<and> evolves db db' \<and>
     (case k of None \<Rightarrow> c' = c \<and> db' = db \<and> outs = [] | Some m \<Rightarrow> \<not> km_confirmed m)"

lemma failed_session:
  assumes "markSessionFailed deliveries now i db s code score = (db', s', r)"
  shows "sc_id s' = sc_id s \<and> sc_org s' = sc_org s \<and> sc_contractVersion s' = sc_contractVersion s"
  using assms by (auto simp: markSessionFailed_def Let_def split: prod.splits option.splits)

lemma retry_session:
  assumes "incrementRetryFailure now i db s code score check = Some (db', s', r)"
  shows "sc_id s' = sc_id s \<and> sc_org s' = sc_org s \<and> sc_contractVersion s' = sc_contractVersion s"
  using assms by (auto simp: incrementRetryFailure_def Let_def split: prod.splits option.splits if_splits)

lemma check_failed_session:
  assumes "markCheckFailed deliveries now i db s code score = (db', s', r)"
  shows "sc_id s' = sc_id s \<and> sc_org s' = sc_org s \<and> sc_contractVersion s' = sc_contractVersion s"
  using assms
  by (auto simp: markCheckFailed_def Let_def dest: failed_session retry_session
      split: prod.splits option.splits if_splits)

lemma fail_check_ok: "check_ok c db (fail_check env now i c db code score)"
proof -
  obtain db' s' r where m: "markCheckFailed (en_deliveries env) now i db (co_session c) code (Some score) = (db', s', r)"
    by (cases "markCheckFailed (en_deliveries env) now i db (co_session c) code (Some score)") auto
  have "evolves db db'"
    using check_failed_evolves [of db "en_deliveries env" now i "co_session c" code "Some score"] by (simp add: m)
  with check_failed_session [OF m] show ?thesis
    by (simp add: fail_check_def completeCheckWithNegativeSignal_def m same_link_def)
qed

lemma passed_check_ok: "check_ok c db (c, db, [], None)"
  by simp

lemmas check_ok_intros = fail_check_ok passed_check_ok

lemma attestation_ok: "check_ok c db (runAttestationValidation env now i c db sid)"
  unfolding runAttestationValidation_def Let_def
  by (auto simp del: check_ok.simps intro!: check_ok_intros)

lemma chip_ok: "check_ok c db (runChipAuthValidation env now i c db declares)"
  unfolding runChipAuthValidation_def
  by (auto simp del: check_ok.simps intro!: check_ok_intros split: chip_declaration.splits option.splits)

lemma active_ok: "check_ok c db (runActiveAuthValidation env now i c db sid declares)"
  unfolding runActiveAuthValidation_def
  by (auto simp del: check_ok.simps intro!: check_ok_intros split: option.splits)

lemma passive_ok:
  "runPassiveAuthValidation env now i c db dg1 dg2 sod = Inl out \<Longrightarrow> check_ok c db out"
  by (auto simp: runPassiveAuthValidation_def simp del: check_ok.simps intro!: check_ok_intros split: option.splits)

lemma check_ok_passed: "check_ok c db (c', db', outs, None) \<Longrightarrow> c' = c \<and> db' = db \<and> outs = []"
  by simp

lemma document_ok: "check_ok c db (runDocumentPhaseValidation env now i c db sid)"
proof (cases "ts_dg1 (co_transfer c) = None \<or> ts_dg2 (co_transfer c) = None \<or> ts_sod (co_transfer c) = None")
  case True
  then show ?thesis by (auto simp: runDocumentPhaseValidation_def split: option.splits)
next
  case False
  then obtain dg1 dg2 sod where t: "ts_dg1 (co_transfer c) = Some dg1" "ts_dg2 (co_transfer c) = Some dg2"
    "ts_sod (co_transfer c) = Some sod" by auto
  obtain c1 db1 o1 k1 where a: "runAttestationValidation env now i c db sid = (c1, db1, o1, k1)"
    by (cases "runAttestationValidation env now i c db sid") auto
  have a_ok: "check_ok c db (c1, db1, o1, k1)" using attestation_ok [of c db env now i sid] by (simp only: a)
  show ?thesis
  proof (cases k1)
    case (Some k)
    then show ?thesis using a_ok by (simp add: runDocumentPhaseValidation_def t a)
  next
    case None
    then have s: "c1 = c" "db1 = db" "o1 = []" using a_ok by auto
    show ?thesis
    proof (cases "runPassiveAuthValidation env now i c db dg1 dg2 sod")
      case (Inl out)
      then show ?thesis using passive_ok [OF Inl]
        by (cases out) (simp add: runDocumentPhaseValidation_def t a None s)
    next
      case (Inr declares)
      obtain c3 db3 o3 k3 where h: "runChipAuthValidation env now i c db (sd_dg14 declares) = (c3, db3, o3, k3)"
        by (cases "runChipAuthValidation env now i c db (sd_dg14 declares)") auto
      have h_ok: "check_ok c db (c3, db3, o3, k3)" using chip_ok [of c db env now i "sd_dg14 declares"] by (simp only: h)
      show ?thesis
      proof (cases k3)
        case (Some k)
        then show ?thesis using h_ok by (simp add: runDocumentPhaseValidation_def t a None s Inr h)
      next
        case n3: None
        then have "c3 = c" "db3 = db" "o3 = []" using h_ok by auto
        then show ?thesis using active_ok [of c db env now i sid "sd_dg15 declares"]
          by (cases "runActiveAuthValidation env now i c db sid (sd_dg15 declares)")
            (simp add: runDocumentPhaseValidation_def t a None s Inr h n3)
      qed
    qed
  qed
qed

text \<open>The liveness check ends in a failure, a confirmation, or not at all.\<close>

definition liveness_verdict :: "env \<Rightarrow> liveness_result \<Rightarrow> rat \<Rightarrow> bool" where
  "liveness_verdict env r score \<longleftrightarrow>
     lr_livenessPassed r \<and> lr_padPassed r \<and> lr_faceMatchPassed r \<and>
     \<not> (en_nodeEnv env = Some ''production'' \<and> lr_usedFallback r) \<and> lr_faceMatchScore r = Some score"

definition liveness_confirms :: "env \<Rightarrow> int \<Rightarrow> conn \<Rightarrow> rat \<Rightarrow> bool" where
  "liveness_confirms env now c score \<longleftrightarrow>
     (\<exists>dg1 dg2 video threshold nonce.
        ts_dg1 (co_transfer c) = Some dg1 \<and> ts_dg2 (co_transfer c) = Some dg2 \<and>
        ts_video (co_transfer c) = Some video \<and> co_nonce c = Some nonce \<and>
        resolveFaceMatchThresholdFromDg1 dg1 (date_of now) = Inr threshold \<and>
        liveness_verdict env (en_liveness env dg2 video nonce threshold) score)"

lemma liveness_cases:
  assumes "runLivenessPhaseValidation env now i c db = (out, thrown)"
  obtains "check_ok c db out"
  | score where "liveness_confirms env now c score" "\<not> thrown"
      "out = (c\<lparr>co_confirmedFaceScore := Some score\<rparr>, db, [], Some confirmedCheckResult)"
proof (cases "\<exists>dg2 video nonce threshold. ts_dg2 (co_transfer c) = Some dg2 \<and> ts_video (co_transfer c) = Some video
    \<and> co_nonce c = Some nonce \<and> resolve_threshold c (date_of now) = Some threshold")
  case False
  then have "check_ok c db out" using assms
    by (auto simp: runLivenessPhaseValidation_def simp del: check_ok.simps intro!: check_ok_intros split: option.splits)
  then show thesis by (rule that(1))
next
  case True
  then obtain dg2 video nonce threshold where t: "ts_dg2 (co_transfer c) = Some dg2"
    "ts_video (co_transfer c) = Some video" "co_nonce c = Some nonce"
    "resolve_threshold c (date_of now) = Some threshold" by auto
  let ?r = "en_liveness env dg2 video nonce threshold"
  have out: "resolveLivenessCheckResult env now i c db ?r = (out, thrown)"
    using assms by (simp add: runLivenessPhaseValidation_def t)
  show thesis
  proof (cases "\<exists>score. liveness_verdict env ?r score")
    case True
    then obtain score where s: "liveness_verdict env ?r score" by blast
    from t(4) obtain dg1 where "ts_dg1 (co_transfer c) = Some dg1"
      "resolveFaceMatchThresholdFromDg1 dg1 (date_of now) = Inr threshold"
      by (auto simp: resolve_threshold_def split: option.splits sum.splits)
    with t s have "liveness_confirms env now c score" unfolding liveness_confirms_def by blast
    moreover have "out = (c\<lparr>co_confirmedFaceScore := Some score\<rparr>, db, [], Some confirmedCheckResult)" "\<not> thrown"
      using out s
      by (auto simp: resolveLivenessCheckResult_def liveness_verdict_def shouldRejectSuccessfulFallbackMatch_def)
    ultimately show thesis using that(2) by blast
  next
    case False
    then have "check_ok c db out" using out
      by (auto simp: resolveLivenessCheckResult_def liveness_verdict_def shouldRejectSuccessfulFallbackMatch_def
          simp del: check_ok.simps intro!: check_ok_intros split: if_splits option.splits)
    then show thesis by (rule that(1))
  qed
qed

section \<open>What the handlers keep\<close>

text \<open>
  The invariant of a connection: it is bound to its own session only, asks for shared claims only
  with a confirmed face comparison, holds a manifest only of its session and only after asking,
  and its transfer stays bounded.
\<close>

definition conn_ok :: "conn \<Rightarrow> bool" where
  "conn_ok c \<longleftrightarrow>
     (\<forall>sid. co_sessionId c = Some sid \<longrightarrow> sid = sc_id (co_session c) \<and> co_helloReceived c) \<and>
     (co_shareRequestSent c \<longrightarrow> co_sessionId c \<noteq> None \<and> co_confirmedFaceScore c \<noteq> None) \<and>
     (\<forall>m. co_shareManifest c = Some m \<longrightarrow> co_shareRequestSent c \<and> sm_sessionId m = sc_id (co_session c)) \<and>
     transfer_inv (co_transfer c)"

text \<open>One step of a connection: the sessions move along the lifecycle, the invariant is kept.\<close>

fun step_ok :: "conn \<Rightarrow> db \<Rightarrow> conn \<times> db \<times> 'a \<Rightarrow> bool" where
  "step_ok c db (c', db', rest) \<longleftrightarrow>
     evolves db db' \<and> (conn_ok c \<longrightarrow> conn_ok c') \<and> co_owner c' = co_owner c \<and>
     sc_id (co_session c') = sc_id (co_session c)"

lemma step_ok_trans:
  "step_ok c db (c1, db1, x) \<Longrightarrow> step_ok c1 db1 (c2, db2, y) \<Longrightarrow> step_ok c db (c2, db2, z)"
  by (auto intro: evolves_trans)

lemma step_ok_refl [simp]: "step_ok c db (c, db, x)"
  by simp

lemma conn_ok_same_link: "same_link c c' \<Longrightarrow> conn_ok c' = conn_ok c"
  by (simp add: conn_ok_def same_link_fields)

lemma check_step_ok: "check_ok c db (c', db', outs, k) \<Longrightarrow> step_ok c db (c', db', x)"
  using conn_ok_same_link [of c c'] by (auto simp: same_link_fields)

lemma conn_ok_created: "conn_ok (createVerifySocketState owner session shares)"
  using transfer_inv_create by (simp add: conn_ok_def createVerifySocketState_def)

lemma owner_created: "co_owner (createVerifySocketState owner session shares) = owner"
  by (simp add: createVerifySocketState_def)

lemma first_hello_db: "persistFirstHelloState now db sid dev ver key = (db', b) \<Longrightarrow> evolves db db'"
  using first_hello_evolves [of db now sid dev ver key] by simp

lemma claim_db: "claimSessionConnection now db sid owner takeover = (db', r) \<Longrightarrow> evolves db db'"
  using claim_evolves [of db now sid owner takeover] by simp

lemma connected_step:
  "persistConnectedPhaseIfMissing now c db sid = (c', db') \<Longrightarrow> step_ok c db (c', db', x)"
  by (auto simp: persistConnectedPhaseIfMissing_def conn_ok_def intro: phase_evolves split: if_splits)

lemma reset_state_step:
  "resetSessionState c db sid = (c', db') \<Longrightarrow> step_ok c db (c', db', x)"
  by (auto simp: resetSessionState_def conn_ok_def intro: release_evolves)

lemma claimed_step: "evolves db db1 \<Longrightarrow> step_ok c db (hello_claimed c (sc_id (co_session c)) row, db1, x)"
  by (auto simp: hello_claimed_def conn_ok_def)

lemma hello_step: "step_ok c db (handleHelloMessage env now c db payload)"
proof (cases "check_hello env now c db payload")
  case (Inl code)
  then show ?thesis by (simp add: handleHelloMessage_def)
next
  case (Inr r)
  obtain parsed row auth key where r: "r = (parsed, row, auth, key)" by (cases r) auto
  let ?sid = "sc_id (co_session c)" and ?c1 = "hello_claimed c (sc_id (co_session c)) row"
  obtain db1 cl where cl: "claimSessionConnection now db ?sid (co_owner c) (auth = Hello_resume) = (db1, cl)"
    by (cases "claimSessionConnection now db ?sid (co_owner c) (auth = Hello_resume)") auto
  note ev = claim_db [OF cl]
  show ?thesis
  proof (cases cl)
    case (Inl code)
    then show ?thesis by (simp add: handleHelloMessage_def Inr r Let_def cl ev)
  next
    case ok: (Inr u)
    note c1 = claimed_step [OF ev, of c row]
    have resume: "step_ok c db (let (c2, db2) = persistConnectedPhaseIfMissing now ?c1 db1 ?sid
                   in (c2, db2, [Out_ack ''hello_ok'', sendActiveAuthChallenge env ?sid], False))"
      by (auto simp del: step_ok.simps split: prod.split intro: step_ok_trans [OF c1] connected_step)
    show ?thesis
    proof (cases auth)
      case (Hello_consume dev)
      note m = Inr r Let_def cl ok Hello_consume
      show ?thesis
      proof (cases "en_firstHelloFails env")
        case True
        then show ?thesis using cl ok
          by (auto simp: handleHelloMessage_def m simp del: step_ok.simps split: prod.split
              intro: step_ok_trans [OF c1] reset_state_step)
      next
        case False
        obtain db2 b where p: "persistFirstHelloState now db1 ?sid dev (ph_appVersion parsed) key = (db2, b)"
          by (cases "persistFirstHelloState now db1 ?sid dev (ph_appVersion parsed) key") auto
        have "evolves db db2" using ev first_hello_db [OF p] by (rule evolves_trans)
        moreover have "conn_ok c \<longrightarrow> conn_ok ?c1" using c1 by auto
        ultimately show ?thesis using cl ok False
          by (cases b) (auto simp: handleHelloMessage_def m p conn_ok_def hello_claimed_def)
      qed
    qed (use resume cl ok in \<open>simp_all add: handleHelloMessage_def Inr r Let_def del: step_ok.simps\<close>)
  qed
qed

section \<open>Phase, data and share handlers\<close>

lemma keep_assertion_step: "step_ok c db (keep_assertion c nxt a, db, x)"
  by (auto simp: keep_assertion_def conn_ok_def transfer_inv_def artifacts_of_def split: option.splits)

lemma drop_stale_ok: "conn_ok c \<Longrightarrow> conn_ok (drop_stale_artifacts c nxt)"
  by (auto simp: drop_stale_artifacts_def conn_ok_def reset_inv)

lemma drop_stale_simps [simp]:
  "co_owner (drop_stale_artifacts c nxt) = co_owner c" "co_session (drop_stale_artifacts c nxt) = co_session c"
  "co_confirmedFaceScore (drop_stale_artifacts c nxt) = co_confirmedFaceScore c"
  "co_sessionId (drop_stale_artifacts c nxt) = co_sessionId c"
  "co_helloReceived (drop_stale_artifacts c nxt) = co_helloReceived c"
  "co_shareManifest (drop_stale_artifacts c nxt) = co_shareManifest c"
  "co_shareRequestSent (drop_stale_artifacts c nxt) = co_shareRequestSent c"
  by (simp_all add: drop_stale_artifacts_def)

lemma enter_step: "step_ok c db (enter_phase env now c db sid nxt)"
  using drop_stale_ok [of c nxt]
  by (auto simp: enter_phase_def Let_def conn_ok_def deriveLivenessChallenge_def intro: phase_evolves)

lemma finish_step:
  assumes "k \<noteq> None \<Longrightarrow> nxt = ''liveness_complete'' \<Longrightarrow> co_sessionId c \<noteq> None \<and> co_confirmedFaceScore c \<noteq> None"
  shows "step_ok c db (finish_phase env c db nxt k)"
  using assms by (auto simp: finish_phase_def conn_ok_def split: option.split)

lemma data_step: "handleDataMessage env c payload = (c', outs) \<Longrightarrow> step_ok c db (c', db, x)"
  using process_inv [of "co_transfer c"]
  by (auto simp: handleDataMessage_def Let_def conn_ok_def split: if_splits prod.splits) (metis fst_conv)+

text \<open>The checks of an announced phase: none, passed, failed, or a liveness confirmed.\<close>

lemma phase_checks_cases:
  assumes "phase_checks env now i c db sid nxt = ((c2, db2, outs, k), thrown)"
  obtains (passed) "c2 = c" "db2 = db" "outs = []" "k = None"
  | (failed) m where "check_ok c db (c2, db2, outs, Some m)" "k = Some m" "\<not> km_confirmed m"
  | (confirmed) score where "nxt = ''liveness_complete''" "liveness_confirms env now c score" "\<not> thrown"
      "c2 = c\<lparr>co_confirmedFaceScore := Some score\<rparr>" "db2 = db" "outs = []" "k = Some confirmedCheckResult"
proof -
  have sound: thesis if "check_ok c db (c2, db2, outs, k)"
    using that passed failed by (cases k) auto
  show thesis
  proof (cases "nxt = ''nfc_complete''")
    case True
    then show thesis using assms document_ok [of c db env now i sid]
      by (intro sound) (simp add: phase_checks_def runPhaseValidation_def del: check_ok.simps)
  next
    case not_nfc: False
    show thesis
    proof (cases "nxt = ''liveness_complete''")
      case False
      then show thesis using assms not_nfc by (intro sound) (simp add: phase_checks_def)
    next
      case True
      then have "runLivenessPhaseValidation env now i c db = ((c2, db2, outs, k), thrown)"
        using assms by (simp add: phase_checks_def runPhaseValidation_def)
      then show thesis by (rule liveness_cases) (use sound confirmed True in auto)
    qed
  qed
qed

lemma phase_rest_step:
  assumes "co_sessionId c \<noteq> None"
  shows "step_ok c db (phase_rest env now i c db sid nxt phase changed)"
proof -
  obtain c2 db2 outs k thrown where p: "phase_checks env now i c db sid nxt = ((c2, db2, outs, k), thrown)"
    by (metis prod.collapse)
  obtain c3 db3 o3 returned where e:
    "(if changed then enter_phase env now c2 db2 sid phase else (c2, db2, [], False)) = (c3, db3, o3, returned)"
    by (metis prod.collapse)
  have e_step: "step_ok c2 db2 (c3, db3, x)" for x :: unit
    using enter_step [of c2 db2 env now sid phase] e by (cases changed) auto
  have e_kept: "co_sessionId c3 = co_sessionId c2 \<and> co_confirmedFaceScore c3 = co_confirmedFaceScore c2"
    using e by (cases changed) (auto simp: enter_phase_def Let_def deriveLivenessChallenge_def split: if_splits)
  have c2: "step_ok c db (c2, db2, ())"
    using p by (cases rule: phase_checks_cases) (auto simp: conn_ok_def same_link_fields dest: conn_ok_same_link)
  show ?thesis
  proof (cases "thrown \<or> stops_phase nxt k")
    case True
    then show ?thesis using c2 by (auto simp: phase_rest_def p)
  next
    case False
    have "k \<noteq> None \<Longrightarrow> nxt = ''liveness_complete'' \<Longrightarrow> co_sessionId c3 \<noteq> None \<and> co_confirmedFaceScore c3 \<noteq> None"
      using p by (cases rule: phase_checks_cases) (use e_kept assms False in \<open>auto simp: stops_phase_def\<close>)
    then have f: "step_ok c3 db3 (finish_phase env c3 db3 nxt k)" by (rule finish_step)
    obtain c4 db4 o4 where "finish_phase env c3 db3 nxt k = (c4, db4, o4)" by (metis prod.collapse)
    with f step_ok_trans [OF c2 e_step] False show ?thesis
      by (auto simp: phase_rest_def p e intro: evolves_trans)
  qed
qed

lemma phase_step: "step_ok c db (handlePhaseMessage env now i c db payload)"
proof -
  let ?nxt = "trim_or_empty (pp_phase payload)"
  let ?c1 = "keep_assertion c ?nxt (pp_attestAssertion payload)"
  have k: "step_ok c db (?c1, db, x)" for x :: unit by (rule keep_assertion_step)
  have s: "co_sessionId ?c1 = co_sessionId c" by (auto simp: keep_assertion_def split: option.split)
  have r: "step_ok c db (phase_rest env now i ?c1 db (the (co_sessionId c)) ?nxt phase changed)"
    if "truthy (co_sessionId c)" for phase changed
  proof -
    have "co_sessionId ?c1 \<noteq> None" using that s by (auto simp: truthy_def)
    from phase_rest_step [OF this] have
      "step_ok ?c1 db (phase_rest env now i ?c1 db (the (co_sessionId c)) ?nxt phase changed)" .
    with k show ?thesis
      by (cases "phase_rest env now i ?c1 db (the (co_sessionId c)) ?nxt phase changed")
        (simp only: , rule step_ok_trans)
  qed
  show ?thesis unfolding handlePhaseMessage_def Let_def
    using r by (auto simp del: step_ok.simps simp: step_ok_refl intro: keep_assertion_step split: option.split sum.split)
qed

lemma share_step: "step_ok c db (handleShareSelectionMessage env now i c db payload)"
proof -
  have s: "evolves db db' \<and> sc_id s' = sc_id s"
    if "markSessionSucceeded d now i db s keys score = (db', s', r)" for d s keys score db' s' r
    using succeed_evolves [of db d now i s keys score] that
    by (auto simp: markSessionSucceeded_def Let_def split: prod.splits option.splits)
  have m: "sm_sessionId m = sid"
    if "validateAndBuildShareManifest h v dg1 t org picks sid sub fs = Inr (Inr (m, cl))" for h v dg1 t org picks sid sub fs m cl
    using that by (auto simp: validateAndBuildShareManifest_def Let_def result_simps split: if_splits sum.splits)
  show ?thesis unfolding handleShareSelectionMessage_def Let_def
    by (auto simp: conn_ok_def split: if_split option.split sum.split prod.split dest!: s m)
qed

section \<open>The service\<close>

lemma decoded_step: "step_ok c db (handleDecodedMessage env now i c db message)"
  unfolding handleDecodedMessage_def
  by (auto simp del: step_ok.simps simp: step_ok_refl Let_def
      intro: hello_step phase_step share_step data_step split: option.split prod.split)

lemma receive_step: "step_ok c db (receive_frame env now i c db frame)"
proof (cases frame)
  case (Frame_binary byteLength decoded)
  show ?thesis
  proof (cases decoded)
    case (Some message)
    obtain c1 db1 outs thrown where "handleDecodedMessage env now i c db message = (c1, db1, outs, thrown)"
      by (metis prod_cases4)
    with decoded_step [of c db env now i message] show ?thesis
      by (simp add: receive_frame_def Frame_binary Some)
  qed (simp add: receive_frame_def Frame_binary)
qed (simp add: receive_frame_def)

lemma expire_db: "expireVerificationSessionIfNeeded now i db sid row = (db', r) \<Longrightarrow> evolves db db'"
  using expire_evolves [of db now i sid row] by simp

lemma load_evolves: "evolves db (fst (loadActiveVerifySession pending now i db sid))"
  by (auto simp: loadActiveVerifySession_def Let_def intro: expire_db split: option.split prod.split)

lemma close_evolves: "evolves db (snd (close_connection c db))"
  by (simp add: close_connection_def release_evolves)

record net =
  nt_db :: db
  nt_conns :: "string \<Rightarrow> conn option"
  nt_sent :: "(string \<times> outgoing) list"

text \<open>
  The operations other parts of the service run on the sessions: the API of the relying party,
  the public routes and the scheduled sweep. The rest of \<open>session_op\<close> is run by sockets only.
\<close>

fun outside_op :: "session_op \<Rightarrow> bool" where
  "outside_op (Op_create _ _) = True"
| "outside_op (Op_expire _ _) = True"
| "outside_op (Op_normalize _ _) = True"
| "outside_op (Op_cancel _ _) = True"
| "outside_op (Op_privacy _ _ _ _) = True"
| "outside_op (Op_public_cancel _ _ _ _) = True"
| "outside_op (Op_handoff _ _ _) = True"
| "outside_op (Op_consent _ _ _) = True"
| "outside_op _ = False"

datatype net_op =
  Net_open bool string string
| Net_frame string env frame
| Net_close string
| Net_store env session_op

type_synonym net_msg = "int \<times> (nat \<Rightarrow> string) \<times> net_op"

fun net_step :: "net \<Rightarrow> net_msg \<Rightarrow> net" where
  "net_step n (now, ids, Net_open pendingDeletion owner sid) =
     (if nt_conns n owner \<noteq> None then n
      else case loadActiveVerifySession pendingDeletion now (ids 0) (nt_db n) sid of
             (db1, Inl code) \<Rightarrow> n\<lparr>nt_db := db1\<rparr>
           | (db1, Inr active) \<Rightarrow>
               n\<lparr>nt_db := db1, nt_conns := (nt_conns n)(owner \<mapsto> startVerifySocketSession owner active)\<rparr>)"
| "net_step n (now, ids, Net_frame owner env frame) =
     (case nt_conns n owner of
        None \<Rightarrow> n
      | Some c \<Rightarrow>
          (case receive_frame env now (ids 0) c (nt_db n) frame of
             (c1, db1, outs) \<Rightarrow>
               n\<lparr>nt_db := db1, nt_conns := (nt_conns n)(owner \<mapsto> c1),
                 nt_sent := nt_sent n @ map (Pair owner) outs\<rparr>))"
| "net_step n (now, ids, Net_close owner) =
     (case nt_conns n owner of
        None \<Rightarrow> n
      | Some c \<Rightarrow> n\<lparr>nt_db := snd (close_connection c (nt_db n)), nt_conns := (nt_conns n)(owner := None)\<rparr>)"
| "net_step n (now, ids, Net_store env op) =
     (if outside_op op
      then n\<lparr>nt_db := session_step (en_hmac env) (en_mac env) (en_deliveries env) (nt_db n) (now, ids, op)\<rparr>
      else n)"

definition empty_net :: net where
  "empty_net = \<lparr>nt_db = empty_db, nt_conns = (\<lambda>_. None), nt_sent = []\<rparr>"

definition run_net :: "net_msg list \<Rightarrow> net" where
  "run_net ms = foldl net_step empty_net ms"

lemma run_net_simps [simp]: "run_net [] = empty_net" "run_net (ms @ [m]) = net_step (run_net ms) m"
  by (simp_all add: run_net_def)

lemma net_evolves: "evolves (nt_db n) (nt_db (net_step n m))"
proof (cases "(n, m)" rule: net_step.cases)
  case (1 n' now ids pending owner sid)
  then show ?thesis using load_evolves [of "nt_db n'" pending now "ids 0" sid]
    by (auto split: prod.split sum.split)
next
  case (2 n' now ids owner env frame)
  then show ?thesis using receive_step [of _ "nt_db n'" env now "ids 0" frame]
    by (auto split: option.split prod.split) (metis step_ok.simps)
next
  case (3 n' now ids owner)
  then show ?thesis by (auto intro: close_evolves split: option.split)
next
  case (4 n' now ids env op)
  then show ?thesis by (auto intro: step_evolves)
qed

text \<open>
  C2. The whole service refines the lifecycle: every frame on every connection, every opening and
  closing, and every other operation moves each session by steps of \<open>life_step\<close> only, whatever
  the verdicts of the environment. So what holds of all lifecycles (budgets, one event per
  ending, endings that stay) holds of the service.
\<close>

theorem service_refines_lifecycle:
  "\<forall>sid. life_step\<^sup>*\<^sup>* (life_of (nt_db n) sid) (life_of (nt_db (net_step n (now, ids, op))) sid)"
  using net_evolves unfolding evolves_def by blast

definition net_ok :: "net \<Rightarrow> bool" where
  "net_ok n \<longleftrightarrow> db_ok (nt_db n) \<and> (\<forall>owner c. nt_conns n owner = Some c \<longrightarrow> conn_ok c \<and> co_owner c = owner)"

lemma net_step_ok: "net_ok n \<Longrightarrow> net_ok (net_step n m)"
proof -
  assume ok: "net_ok n"
  have "db_ok (nt_db (net_step n m))"
    using ok net_evolves [of n m] life_steps_ok unfolding net_ok_def db_ok_def evolves_def by blast
  moreover have "conn_ok c \<and> co_owner c = owner" if "nt_conns (net_step n m) owner = Some c" for owner c
  proof (cases "(n, m)" rule: net_step.cases)
    case (1 n' now ids pending owner' sid)
    with that ok show ?thesis
      by (auto simp: net_ok_def startVerifySocketSession_def conn_ok_created owner_created
          split: if_splits prod.splits sum.splits)
  next
    case (2 n' now ids owner' env frame)
    with that ok show ?thesis using receive_step [of _ "nt_db n'" env now "ids 0" frame]
      by (auto simp: net_ok_def split: if_splits option.splits prod.splits) (metis step_ok.simps)+
  qed (use that ok in \<open>auto simp: net_ok_def split: if_splits option.splits\<close>)
  ultimately show ?thesis by (simp add: net_ok_def)
qed

interpretation service: invariant_machine net_step net_ok
  by unfold_locales (rule net_step_ok)

lemma empty_net_ok: "net_ok empty_net"
  by (simp add: net_ok_def empty_net_def empty_db_ok)

lemma run_net_ok: "net_ok (run_net ms)"
  unfolding run_net_def by (rule service.run_inv [OF empty_net_ok])

end
