(* ===== verification/Socket_Progress.thy ===== *)
theory Socket_Progress
  imports Socket_Network
begin

text \<open>
  Where a success comes from. Every event that reports one is traced back through the run of the
  service: to the share selection that recorded it, from there to a liveness check the same
  connection passed, and from there to a document check passed for the same session.
\<close>

section \<open>Writes that neither finish a session nor advance its phase\<close>

definition wins :: "db \<Rightarrow> event_row list" where
  "wins db = filter (\<lambda>e. er_type e = Ev_session_succeeded) (db_events db)"

text \<open>A phase that is entered only with a document that passed its check.\<close>

definition late :: "string option \<Rightarrow> bool" where
  "late p \<longleftrightarrow> p = Some ''nfc_complete'' \<or> p = Some ''liveness_capturing'' \<or> p = Some ''liveness_complete''"

definition late_row :: "db \<Rightarrow> string \<Rightarrow> bool" where
  "late_row db sid \<longleftrightarrow> (\<exists>r. jm_get (db_sessions db) sid = Some r \<and> late (vs_currentPhase r))"

lemma late_simps [simp]:
  "\<not> late None" "\<not> late (Some ''mobile_connected'')" "\<not> late (Some ''mrz_scanning'')"
  "\<not> late (Some ''mrz_complete'')" "\<not> late (Some ''nfc_reading'')"
  "late (Some ''nfc_complete'')" "late (Some ''liveness_capturing'')" "late (Some ''liveness_complete'')"
  by (simp_all add: late_def)

definition calm :: "string set \<Rightarrow> db \<Rightarrow> db \<Rightarrow> bool" where
  "calm S db db' \<longleftrightarrow> wins db' = wins db \<and> (\<forall>sid. late_row db' sid \<longrightarrow> late_row db sid \<or> sid \<in> S)"

named_theorems calm_intros \<open>writes that keep the phases and record no success\<close>

lemma calm_refl [simp, intro]: "calm S db db"
  by (simp add: calm_def)

lemma calm_trans: "calm S a b \<Longrightarrow> calm S b c \<Longrightarrow> calm S a c"
  by (auto simp: calm_def)

lemma calm_mono: "calm {} a b \<Longrightarrow> calm S a b"
  by (auto simp: calm_def)

lemma calm_event [calm_intros]:
  "calm S db db' \<Longrightarrow> ty \<noteq> Ev_session_succeeded \<Longrightarrow> calm S db (insert_event db' i org ty sid)"
  by (simp add: calm_def wins_def late_row_def insert_event_def)

lemma calm_audit [calm_intros]: "calm S db db' \<Longrightarrow> calm S db (record_audit db' org sid ev)"
  by (simp add: calm_def wins_def late_row_def record_audit_def)

lemma calm_webhook [calm_intros]: "calm S db db' \<Longrightarrow> calm S db (call_webhook db' k i org sid v)"
  by (simp add: calm_def wins_def late_row_def call_webhook_def)

lemma calm_consents [calm_intros]: "calm S db db' \<Longrightarrow> calm S db (db'\<lparr>db_consents := cs\<rparr>)"
  by (simp add: calm_def wins_def late_row_def)

lemma calm_row:
  assumes "jm_get (db_sessions db) sid = Some r" and "late (vs_currentPhase r') \<Longrightarrow> late (vs_currentPhase r) \<or> sid \<in> S"
  shows "calm S db (db\<lparr>db_sessions := jm_set sid r' (db_sessions db)\<rparr>)"
  using assms by (auto simp: calm_def wins_def late_row_def jsmap_simps split: if_splits)

lemma calm_update:
  assumes "\<And>r. late (vs_currentPhase (f r)) \<Longrightarrow> late (vs_currentPhase r) \<or> sid \<in> S"
  shows "calm S db (fst (update_session db sid cond f))"
  using assms by (auto simp: update_session_def intro: calm_row split: option.split)

lemma minimized_phase [simp]: "vs_currentPhase (privacy_minimize r) = None"
  by (simp add: privacy_minimize_def)

lemma expire_calm: "calm {} db (fst (expireVerificationSessionIfNeeded now i db sid row))"
  by (auto simp: expireVerificationSessionIfNeeded_def Let_def update_session_Some
      intro!: calm_intros calm_row split: prod.split option.split)

lemma expire_db_calm: "expireVerificationSessionIfNeeded now i db sid row = (db', r) \<Longrightarrow> calm {} db db'"
  using expire_calm [of db now i sid row] by simp

lemma expire_rows_calm: "calm {} db (fst (expire_rows now ids db rows n))"
proof (induction rows arbitrary: db n)
  case Nil
  then show ?case by simp
next
  case (Cons row rows)
  obtain sid r where row: "row = (sid, r)" by (cases row)
  obtain db1 r1 where e: "expireVerificationSessionIfNeeded now (ids n) db sid r = (db1, r1)" by fastforce
  from expire_db_calm [OF e] Cons have "calm {} db (fst (expire_rows now ids db1 rows m))" for m
    by (blast intro: calm_trans)
  with row e show ?case by simp
qed

lemma normalize_calm: "calm {} db (fst (normalize_batches batches now ids bsz db n))"
proof (induction batches arbitrary: db n)
  case 0
  then show ?case by simp
next
  case (Suc batches)
  have e: "calm {} db db1" if "expire_rows now ids db rows n = (db1, n1)" for rows db1 n1
    using expire_rows_calm [of db now ids rows n] that by simp
  show ?case using Suc
    by (auto simp: Let_def dest!: e intro: calm_trans split: prod.split)
qed

lemma cancel_calm: "calm {} db (cancelVerificationSession now i db sid org)"
  by (auto simp: cancelVerificationSession_def Let_def update_session_Some
      intro!: calm_intros calm_row split: prod.split option.split)

lemma privacy_calm: "calm {} db (fst (recordVerificationSessionPrivacyRequest scrub now i db sid row org))"
  by (auto simp: recordVerificationSessionPrivacyRequest_def Let_def update_session_Some cancel_calm
      intro!: calm_intros calm_row split: prod.split option.split)

lemma public_cancel_calm: "calm {} db (fst (cancelPublicVerifySession hmac hidden scrub now i j db token sid))"
proof -
  have u: "calm {} db1 db2"
    if "update_session db1 sid c (\<lambda>r. r\<lparr>vs_cancelTokenConsumedAt := Some now\<rparr>) = (db2, x)" for db1 db2 c x
    using calm_update [of "\<lambda>r. r\<lparr>vs_cancelTokenConsumedAt := Some now\<rparr>" sid "{}" db1 c] that by simp
  show ?thesis
    by (auto simp: cancelPublicVerifySession_def Let_def split: prod.split option.split
        dest!: expire_db_calm u intro: calm_trans [OF _ calm_trans [OF _ privacy_calm]])
qed

lemma select_handoff_calm: "calm {} db (fst (select_handoff hmac now seed db sid))"
  by (auto simp: select_handoff_def Let_def intro!: calm_update split: option.split)

lemma handoff_calm: "calm {} db (fst (issueHandoffPayload hmac mac pending now i seed db sid))"
proof -
  have s: "calm {} db1 db2" if "select_handoff hmac now seed db1 sid = (db2, x)" for db1 db2 x
    using select_handoff_calm [of db1 hmac now seed sid] that by simp
  show ?thesis
    by (auto simp: issueHandoffPayload_def Let_def split: prod.split option.split sum.split
        dest!: expire_db_calm s intro: calm_trans)
qed

lemma consent_calm: "calm {} db (fst (recordVerifySessionConsent gone now i db input sid))"
  by (auto simp: recordVerifySessionConsent_def Let_def split: prod.split option.split
      dest!: expire_db_calm intro!: calm_intros)

lemma create_calm:
  "insertVerificationSessionRow hash token now db input = Some (db', r) \<Longrightarrow> calm {} db db'"
  by (auto simp: insertVerificationSessionRow_def Let_def created_row_def calm_def wins_def late_row_def
      record_audit_def jsmap_simps split: if_splits)

lemma outside_calm: "outside_op op \<Longrightarrow> calm {} db (session_step hmac mac deliveries db (now, ids, op))"
  by (cases op)
    (auto simp: expire_calm cancel_calm privacy_calm public_cancel_calm handoff_calm consent_calm
      normalizeExpiredVerificationSessions_def normalize_calm dest: create_calm split: option.split)

section \<open>The writes of the sockets\<close>

lemma claim_calm: "claimSessionConnection now db sid owner takeover = (db', r) \<Longrightarrow> calm {} db db'"
  by (auto simp: claimSessionConnection_def Let_def update_session_Some update_session_None
      intro: calm_row split: prod.splits option.splits)

lemma release_calm: "calm {} db (releaseSessionConnection db sid owner)"
  by (auto simp: releaseSessionConnection_def intro!: calm_update)

lemma first_hello_calm: "persistFirstHelloState now db sid dev ver key = (db', b) \<Longrightarrow> calm {} db db'"
  by (auto simp: persistFirstHelloState_def update_session_Some
      intro: calm_row split: prod.splits option.splits)

lemma persist_calm:
  "(late (Some phase) \<Longrightarrow> sid \<in> S) \<Longrightarrow> calm S db (persistTrackedSessionPhase now db sid phase)"
  by (auto simp: persistTrackedSessionPhase_def intro!: calm_update)

lemma load_calm: "loadActiveVerifySession pending now i db sid = (db', r) \<Longrightarrow> calm {} db db'"
  by (auto simp: loadActiveVerifySession_def Let_def dest: expire_db_calm
      split: option.splits prod.splits if_splits)

lemma failed_event_calm [calm_intros]:
  "calm S db db' \<Longrightarrow> calm S db (createSessionFailedEvent db' i s code nfc live check)"
  by (auto simp: createSessionFailedEvent_def intro!: calm_intros)

lemma mark_failed_calm: "calm {} db (fst (markSessionFailed deliveries now i db s code score))"
  by (auto simp: markSessionFailed_def Let_def update_session_Some
      intro!: calm_intros calm_row split: prod.split option.split)

lemma rewind_calm: "calm {} db (fst (rewindUnlimitedMrzFailure now db s score))"
  by (auto simp: rewindUnlimitedMrzFailure_def Let_def intro!: calm_update)

lemma update_calm:
  "update_session a sid cond f = (b, x) \<Longrightarrow> (\<And>r. late (vs_currentPhase (f r)) \<Longrightarrow> late (vs_currentPhase r) \<or> sid \<in> S) \<Longrightarrow>
     calm S a b"
  using calm_update [of f sid S a cond] by (metis fst_conv)

lemma retry_calm:
  assumes "incrementRetryFailure now i db s code score check = Some (db', s', res)"
    and "check \<noteq> Check_nfc \<Longrightarrow> sc_id s \<in> S"
  shows "calm S db db'"
proof -
  let ?f = "\<lambda>row. row\<lparr>vs_nfcTriesUsed := (if check = Check_nfc then vs_nfcTriesUsed row + 1 else vs_nfcTriesUsed row),
      vs_livenessTriesUsed := (if check = Check_nfc then vs_livenessTriesUsed row else vs_livenessTriesUsed row + 1),
      vs_currentPhase := Some (if check = Check_nfc then ''nfc_reading'' else ''liveness_capturing''),
      vs_phaseUpdatedAt := Some now, vs_riskScore := max (vs_riskScore row) (normalizeRiskScore score)\<rparr>"
  let ?g = "\<lambda>row. row\<lparr>vs_status := St_failed, vs_failureCode := Some code, vs_completedAt := Some now\<rparr>"
  obtain db1 row where u: "update_session db (sc_id s) (owned_active s) ?f = (db1, Some row)"
    using assms(1) by (auto simp: incrementRetryFailure_def Let_def split: prod.splits option.splits)
  define db2 where "db2 = recordCheckFailedAuditLog db1 s code check"
  have c1: "calm S db db1" by (rule update_calm [OF u]) (use assms(2) in \<open>auto split: if_splits\<close>)
  then have c2: "calm S db db2" unfolding db2_def recordCheckFailedAuditLog_def by (rule calm_intros)
  obtain db3 x where v: "update_session db2 (sc_id s) (owned_active s) ?g = (db3, x)" by fastforce
  have "calm S db2 db3" by (rule update_calm [OF v]) simp
  with c2 have c3: "calm S db db3" by (rule calm_trans)
  have "db' = db2 \<or> (\<exists>nfc live. db' = createSessionFailedEvent db3 i s code nfc live (Some check))"
    using assms(1) u v unfolding incrementRetryFailure_def Let_def
    by (auto simp: db2_def split: prod.splits option.splits if_splits)
  with c2 c3 show ?thesis by (auto intro: calm_intros)
qed

lemma check_failed_calm:
  assumes "failedCheckForCode code = Check_liveness \<Longrightarrow> sc_id s \<in> S"
  shows "calm S db (fst (markCheckFailed deliveries now i db s code score))"
proof (cases "isHardKillCode code")
  case True
  then show ?thesis using mark_failed_calm [of db deliveries now i s code score]
    by (auto simp: markCheckFailed_def split: prod.split intro: calm_mono)
next
  case hard: False
  show ?thesis
  proof (cases "failedCheckForCode code = Check_mrz")
    case True
    then show ?thesis using hard rewind_calm [of db now s score]
      by (auto simp: markCheckFailed_def Let_def split: prod.split intro: calm_mono)
  next
    case False
    have r: "calm S db db'"
      if "incrementRetryFailure now i db s code score (failedCheckForCode code) = Some (db', s', res)" for db' s' res
      by (rule retry_calm [OF that]) (use assms False in \<open>cases "failedCheckForCode code"; simp\<close>)
    show ?thesis using hard False
      by (auto simp: markCheckFailed_def Let_def dest!: r intro!: calm_intros split: option.split bool.split)
  qed
qed

lemma fail_check_calm:
  assumes "fail_check env now i c db code score = (c', db', outs, k)"
    and "failedCheckForCode code = Check_liveness \<Longrightarrow> sc_id (co_session c) \<in> S"
  shows "calm S db db'"
  using assms(1) check_failed_calm [of code "co_session c" S db "en_deliveries env" now i "Some score"] assms(2)
  by (auto simp: fail_check_def completeCheckWithNegativeSignal_def split: prod.splits)

section \<open>Passing the document check\<close>

text \<open>
  The document check is passed: the required artifacts are there, the attested device signed
  them where the gate is on, the security object authenticates them, and the chip answered for
  every key its security object declares.
\<close>

definition document_confirms :: "env \<Rightarrow> conn \<Rightarrow> db \<Rightarrow> string \<Rightarrow> bool" where
  "document_confirms env c db sid \<longleftrightarrow>
     (\<exists>dg1 dg2 sod declares.
        ts_dg1 (co_transfer c) = Some dg1 \<and> ts_dg2 (co_transfer c) = Some dg2 \<and> ts_sod (co_transfer c) = Some sod \<and>
        (isAttestationGateEnabled env \<longrightarrow>
           (\<exists>row key. jm_get (db_sessions db) (sc_id (co_session c)) = Some row \<and> vs_attestKeyId row = Some key \<and> key \<noteq> [] \<and>
              verifyNfcAttestation env sid key (co_transfer c))) \<and>
        en_authenticity env dg1 dg2 (ts_dg14 (co_transfer c)) (ts_dg15 (co_transfer c)) sod = Some declares \<and>
        (sd_dg14 declares \<and> summarizeDg14ChipAuth env (ts_dg14 (co_transfer c)) = Chip_v2 \<longrightarrow>
           (\<exists>dg14 transcript. ts_dg14 (co_transfer c) = Some dg14 \<and> ts_ca_transcript (co_transfer c) = Some transcript \<and>
              en_chipAuthentication env transcript dg14)) \<and>
        (sd_dg15 declares \<longrightarrow>
           (\<exists>dg15 challenge signature. ts_dg15 (co_transfer c) = Some dg15 \<and>
              ts_aa_challenge (co_transfer c) = Some challenge \<and> ts_aa_signature (co_transfer c) = Some signature \<and>
              en_activeAuthentication env challenge (ts_dg14 (co_transfer c)) dg15
                (deriveActiveAuthChallenge env sid) signature)))"

lemma fail_check_Some: "\<exists>c' db' outs k. fail_check env now i c db code score = (c', db', outs, Some k) \<and> \<not> km_confirmed k"
  using fail_check_ok [of c db env now i code score]
  by (cases "fail_check env now i c db code score") (auto simp: fail_check_def split: prod.splits)

lemma fail_check_not_None [simp]: "fail_check env now i c db code score \<noteq> (c', db', outs, None)"
  using fail_check_Some [of env now i c db code score] by auto

lemmas check_defs = runAttestationValidation_def runPassiveAuthValidation_def runChipAuthValidation_def
  runActiveAuthValidation_def

lemma attestation_passes:
  "(\<exists>c' db' outs. runAttestationValidation env now i c db sid = (c', db', outs, None)) \<longleftrightarrow>
     (isAttestationGateEnabled env \<longrightarrow>
        (\<exists>row key. jm_get (db_sessions db) (sc_id (co_session c)) = Some row \<and> vs_attestKeyId row = Some key \<and>
           key \<noteq> [] \<and> verifyNfcAttestation env sid key (co_transfer c)))"
  by (cases "jm_get (db_sessions db) (sc_id (co_session c))")
    (auto simp: runAttestationValidation_def truthy_def Let_def split: option.splits)

lemma chip_passes:
  "(\<exists>c' db' outs. runChipAuthValidation env now i c db declares = (c', db', outs, None)) \<longleftrightarrow>
     (declares \<and> summarizeDg14ChipAuth env (ts_dg14 (co_transfer c)) = Chip_v2 \<longrightarrow>
        (\<exists>dg14 transcript. ts_dg14 (co_transfer c) = Some dg14 \<and> ts_ca_transcript (co_transfer c) = Some transcript \<and>
           en_chipAuthentication env transcript dg14))"
  by (cases "summarizeDg14ChipAuth env (ts_dg14 (co_transfer c))")
    (auto simp: runChipAuthValidation_def split: option.splits)

lemma active_passes:
  "(\<exists>c' db' outs. runActiveAuthValidation env now i c db sid declares = (c', db', outs, None)) \<longleftrightarrow>
     (declares \<longrightarrow>
        (\<exists>dg15 challenge signature. ts_dg15 (co_transfer c) = Some dg15 \<and>
           ts_aa_challenge (co_transfer c) = Some challenge \<and> ts_aa_signature (co_transfer c) = Some signature \<and>
           en_activeAuthentication env challenge (ts_dg14 (co_transfer c)) dg15
             (deriveActiveAuthChallenge env sid) signature))"
  by (auto simp: runActiveAuthValidation_def split: option.splits)

lemma document_result:
  assumes "ts_dg1 (co_transfer c) \<noteq> None" and "ts_dg2 (co_transfer c) \<noteq> None" and "ts_sod (co_transfer c) \<noteq> None"
  shows "runDocumentPhaseValidation env now i c db sid = (c, db, [], None) \<longleftrightarrow> document_confirms env c db sid"
proof -
  from assms obtain dg1 dg2 sod where t: "ts_dg1 (co_transfer c) = Some dg1" "ts_dg2 (co_transfer c) = Some dg2"
    "ts_sod (co_transfer c) = Some sod" by auto
  let ?doc = "runDocumentPhaseValidation env now i c db sid"
  obtain c1 db1 o1 k1 where a: "runAttestationValidation env now i c db sid = (c1, db1, o1, k1)" by (metis prod_cases4)
  have a_ok: "check_ok c db (c1, db1, o1, k1)" using attestation_ok [of c db env now i sid] by (simp only: a)
  note part1 = attestation_passes [of env now i c db sid, unfolded a]
  show ?thesis
  proof (cases k1)
    case (Some k)
    then show ?thesis using part1 by (auto simp: runDocumentPhaseValidation_def t a document_confirms_def)
  next
    case None
    then have s: "c1 = c" "db1 = db" "o1 = []" using a_ok by auto
    show ?thesis
    proof (cases "en_authenticity env dg1 dg2 (ts_dg14 (co_transfer c)) (ts_dg15 (co_transfer c)) sod")
      case no: None
      then have p: "runPassiveAuthValidation env now i c db dg1 dg2 sod =
          Inl (fail_check env now i c db document_authenticity_failed 1)"
        by (simp add: runPassiveAuthValidation_def)
      then show ?thesis using no fail_check_Some [of env now i c db document_authenticity_failed 1]
        by (auto simp: runDocumentPhaseValidation_def t a None s document_confirms_def)
    next
      case (Some declares)
      then have p: "runPassiveAuthValidation env now i c db dg1 dg2 sod = Inr declares"
        by (simp add: runPassiveAuthValidation_def)
      obtain c3 db3 o3 k3 where h: "runChipAuthValidation env now i c db (sd_dg14 declares) = (c3, db3, o3, k3)"
        by (metis prod_cases4)
      have h_ok: "check_ok c db (c3, db3, o3, k3)" using chip_ok [of c db env now i "sd_dg14 declares"] by (simp only: h)
      note part3 = chip_passes [of env now i c db "sd_dg14 declares", unfolded h]
      show ?thesis
      proof (cases k3)
        case k3: (Some k)
        then have doc: "?doc = (c3, db3, o3, Some k)" by (simp add: runDocumentPhaseValidation_def t a None s p h)
        have "\<not> document_confirms env c db sid" using part3 k3 Some by (auto simp: document_confirms_def t)
        with doc show ?thesis by simp
      next
        case n3: None
        then have s3: "c3 = c" "db3 = db" "o3 = []" using h_ok by auto
        obtain c4 db4 o4 k4 where v: "runActiveAuthValidation env now i c db sid (sd_dg15 declares) = (c4, db4, o4, k4)"
          by (metis prod_cases4)
        have v_ok: "check_ok c db (c4, db4, o4, k4)"
          using active_ok [of c db env now i sid "sd_dg15 declares"] by (simp only: v)
        have doc: "?doc = (c4, db4, o4, k4)"
          by (simp add: runDocumentPhaseValidation_def t a None s p h n3 s3 v)
        note part4 = active_passes [of env now i c db sid "sd_dg15 declares", unfolded v]
        have "?doc = (c, db, [], None) \<longleftrightarrow> k4 = None" unfolding doc using v_ok by auto
        moreover have "k4 = None \<longleftrightarrow> document_confirms env c db sid"
          using part1 part3 part4 Some None n3 by (auto simp: document_confirms_def t)
        ultimately show ?thesis by blast
      qed
    qed
  qed
qed

lemma document_passed_confirms:
  assumes "runDocumentPhaseValidation env now i c db sid = (c', db', outs, None)"
    and "ts_dg1 (co_transfer c) \<noteq> None" and "ts_dg2 (co_transfer c) \<noteq> None" and "ts_sod (co_transfer c) \<noteq> None"
  shows "document_confirms env c db sid"
  using document_result [OF assms(2-4), of env now i db sid] document_ok [of c db env now i sid] assms(1) by simp

section \<open>Entering a phase\<close>

lemma validated_phase:
  assumes "validateTrackedPhaseTransition cur nxt r = Inr (phase, changed)"
  shows "phase = nxt"
  using assms unfolding validateTrackedPhaseTransition_def Let_def by (simp only: split: if_split_asm) simp_all

lemma number_late:
  "phase_number x = Some 4 \<or> phase_number x = Some 5 \<Longrightarrow> late (Some x)"
  by (auto simp: phase_number_canonical PHASE_SEQUENCE_def)

lemma liveness_after_late:
  assumes "validateTrackedPhaseTransition cur nxt r = Inr (phase, changed)"
    and "nxt = ''liveness_capturing'' \<or> nxt = ''liveness_complete''"
  shows "late cur"
proof (rule ccontr)
  assume nl: "\<not> late cur"
  have n: "phase_number ''liveness_capturing'' = Some 5" "phase_number ''liveness_complete'' = Some 6"
    by (simp_all add: phase_number_canonical PHASE_SEQUENCE_def)
  show False
  proof (cases "truthy cur")
    case False
    then show ?thesis using assms by (auto simp: validateTrackedPhaseTransition_def split: if_splits)
  next
    case True
    then obtain x where x: "cur = Some x" by (auto simp: truthy_def)
    have "x \<noteq> nxt" using nl assms(2) x by auto
    moreover have "\<not> (case (phase_number x, phase_number nxt) of (Some i, Some j) \<Rightarrow> j = i + 1 | _ \<Rightarrow> False)"
      using nl x assms(2) n number_late [of x] by (auto split: option.splits)
    moreover have "x \<noteq> ''liveness_complete''" using nl x by auto
    ultimately show ?thesis using assms True x
      unfolding validateTrackedPhaseTransition_def Let_def by (auto split: if_splits)
  qed
qed

lemma nfc_check_codes:
  "failedCheckForCode document_anti_cloning_attestation_failed \<noteq> Check_liveness"
  "failedCheckForCode document_authenticity_failed \<noteq> Check_liveness"
  "failedCheckForCode document_chip_authentication_failed \<noteq> Check_liveness"
  "failedCheckForCode document_active_authentication_failed \<noteq> Check_liveness"
  by (simp_all add: failedCheckForCode_def)

lemma nfc_fail_calm:
  assumes "fail_check env now i c db code score = (c', db', outs, k)"
    and "code \<in> {document_anti_cloning_attestation_failed, document_authenticity_failed,
                 document_chip_authentication_failed, document_active_authentication_failed}"
  shows "calm {} db db'"
  by (rule fail_check_calm [OF assms(1)]) (use assms(2) nfc_check_codes in auto)

lemma document_calm:
  assumes "runDocumentPhaseValidation env now i c db sid = (c', db', outs, k)"
  shows "calm {} db db'"
proof -
  note f = nfc_fail_calm
  have 1: "calm {} db db1" if "runAttestationValidation env now i c db sid = (c1, db1, o1, k1)" for c db c1 db1 o1 k1
    using that by (auto simp: runAttestationValidation_def Let_def dest: f split: if_splits)
  have 2: "calm {} db db1" if "runPassiveAuthValidation env now i c db dg1 dg2 sod = Inl (c1, db1, o1, k1)"
    for c db c1 db1 o1 k1 dg1 dg2 sod
    using that by (auto simp: runPassiveAuthValidation_def dest: f split: option.splits)
  have 3: "calm {} db db1" if "runChipAuthValidation env now i c db d = (c1, db1, o1, k1)" for c db c1 db1 o1 k1 d
    using that by (auto simp: runChipAuthValidation_def dest: f split: if_splits option.splits chip_declaration.splits)
  have 4: "calm {} db db1" if "runActiveAuthValidation env now i c db sid d = (c1, db1, o1, k1)" for c db c1 db1 o1 k1 d
    using that by (auto simp: runActiveAuthValidation_def dest: f split: if_splits option.splits)
  show ?thesis using assms unfolding runDocumentPhaseValidation_def
    by (auto split: option.splits prod.splits sum.splits dest!: 1 2 3 4 intro: calm_trans)
qed

lemma liveness_calm:
  assumes "runLivenessPhaseValidation env now i c db = ((c', db', outs, k), thrown)"
  shows "calm {sc_id (co_session c)} db db'"
proof -
  have f: "calm {sc_id (co_session c)} db db1"
    if "fail_check env now i c db code score = (c1, db1, o1, k1)" for code score c1 db1 o1 k1
    by (rule fail_check_calm [OF that]) simp
  show ?thesis using assms
    by (auto simp: runLivenessPhaseValidation_def resolveLivenessCheckResult_def dest: f
        split: option.splits if_splits)
qed

text \<open>What one frame can do to the phases, the confirmed score and the recorded successes.\<close>

record advance =
  ad_document :: bool
  ad_liveness :: "rat \<Rightarrow> bool"

definition advances :: "advance \<Rightarrow> conn \<Rightarrow> db \<Rightarrow> conn \<Rightarrow> db \<Rightarrow> bool" where
  "advances a c db c' db' \<longleftrightarrow>
     calm (if late (co_currentPhase c) \<or> ad_document a then {sc_id (co_session c)} else {}) db db' \<and>
     (late (co_currentPhase c') \<longrightarrow>
        late (co_currentPhase c) \<or> late_row db (sc_id (co_session c)) \<or> ad_document a) \<and>
     (\<forall>s. co_confirmedFaceScore c' = Some s \<longrightarrow>
        co_confirmedFaceScore c = Some s \<or> late (co_currentPhase c) \<and> ad_liveness a s)"

lemma advances_quiet: "co_currentPhase c' = co_currentPhase c \<Longrightarrow> co_confirmedFaceScore c' = co_confirmedFaceScore c \<Longrightarrow>
    calm {} db db' \<Longrightarrow> advances a c db c' db'"
  by (auto simp: advances_def intro: calm_mono)

lemma phase_rest_advances:
  assumes r: "phase_rest env now i c db sid nxt phase changed = (c', db', outs, t)"
    and v: "validateTrackedPhaseTransition (co_currentPhase c) nxt None = Inr (phase, changed)"
    and m: "buildMissingDataMessage (co_transfer c) nxt = None"
    and sid: "sid = sc_id (co_session c)"
  shows "advances \<lparr>ad_document = document_confirms env c db sid, ad_liveness = liveness_confirms env now c\<rparr> c db c' db'"
proof -
  let ?S = "if late (co_currentPhase c) \<or> document_confirms env c db sid then {sid} else {}"
  have ph: "phase = nxt" by (rule validated_phase [OF v])
  obtain c2 db2 o2 k thrown where p: "phase_checks env now i c db sid nxt = ((c2, db2, o2, k), thrown)"
    by (metis prod.collapse)
  have calm2: "calm ?S db db2"
  proof -
    consider "nxt = ''nfc_complete''" | "nxt = ''liveness_complete''" | "nxt \<noteq> ''nfc_complete''" "nxt \<noteq> ''liveness_complete''"
      by blast
    then show ?thesis
    proof cases
      case 1
      then show ?thesis using p document_calm [of env now i c db sid c2 db2 o2 k]
        by (auto simp: phase_checks_def runPhaseValidation_def intro: calm_mono)
    next
      case 2
      then have "late (co_currentPhase c)" using liveness_after_late [OF v] by blast
      with 2 show ?thesis using p liveness_calm [of env now i c db c2 db2 o2 k thrown]
        by (simp add: phase_checks_def runPhaseValidation_def sid)
    next
      case 3
      then show ?thesis using p by (auto simp: phase_checks_def)
    qed
  qed
  have c2: "co_currentPhase c2 = co_currentPhase c"
    "\<And>s. co_confirmedFaceScore c2 = Some s \<Longrightarrow>
       co_confirmedFaceScore c = Some s \<or> late (co_currentPhase c) \<and> liveness_confirms env now c s"
    using p by (cases rule: phase_checks_cases; use liveness_after_late [OF v] in \<open>auto simp: same_link_fields\<close>)+
  show ?thesis
  proof (cases "thrown \<or> stops_phase nxt k")
    case True
    then have "c' = c2" "db' = db2" using r by (auto simp: phase_rest_def p split: if_splits)
    then show ?thesis using calm2 c2 by (auto simp: advances_def sid)
  next
    case False
    obtain c3 db3 o3 returned where e:
      "(if changed then enter_phase env now c2 db2 sid phase else (c2, db2, [], False)) = (c3, db3, o3, returned)"
      by (metis prod.collapse)
    have entered: "late (co_currentPhase c) \<or> document_confirms env c db sid" if "late (Some nxt)"
    proof (cases "nxt = ''nfc_complete''")
      case True
      then have "k = None" using False by (auto simp: stops_phase_def split: option.splits)
      then have "runDocumentPhaseValidation env now i c db sid = (c2, db2, o2, None)"
        using p True by (simp add: phase_checks_def runPhaseValidation_def)
      moreover have "ts_dg1 (co_transfer c) \<noteq> None" "ts_dg2 (co_transfer c) \<noteq> None" "ts_sod (co_transfer c) \<noteq> None"
        using m True by (auto simp: buildMissingDataMessage_def getNfcTransferStatus_def getMissingNfcArtifacts_def
            Let_def split: if_splits)
      ultimately show ?thesis using document_passed_confirms by blast
    next
      case n: False
      then show ?thesis using that liveness_after_late [OF v] by (auto simp: late_def)
    qed
    have c3: "co_currentPhase c3 = co_currentPhase c \<or> co_currentPhase c3 = Some nxt"
      "co_confirmedFaceScore c3 = co_confirmedFaceScore c2"
      using e c2(1) ph by (auto simp: enter_phase_def Let_def deriveLivenessChallenge_def split: if_splits)
    have "calm ?S db2 db3"
      using e entered by (auto simp: enter_phase_def Let_def ph deriveLivenessChallenge_def
          split: if_splits intro!: persist_calm)
    with calm2 have calm3: "calm ?S db db3" by (rule calm_trans)
    have "db' = db3 \<and> co_currentPhase c' = co_currentPhase c3 \<and> co_confirmedFaceScore c' = co_confirmedFaceScore c3"
      using r False by (auto simp: phase_rest_def p e finish_phase_def split: if_splits prod.splits option.splits)
    then show ?thesis using calm3 c2(2) c3 entered by (auto simp: advances_def sid)
  qed
qed

section \<open>Frames\<close>

definition frame_advance :: "env \<Rightarrow> int \<Rightarrow> conn \<Rightarrow> db \<Rightarrow> advance" where
  "frame_advance env now c db =
     \<lparr>ad_document = (\<exists>a. document_confirms env (keep_assertion c ''nfc_complete'' a) db (sc_id (co_session c))),
      ad_liveness = liveness_confirms env now c\<rparr>"

text \<open>A share selection that records a success.\<close>

definition shares :: "conn \<Rightarrow> db \<Rightarrow> conn \<Rightarrow> db \<Rightarrow> bool" where
  "shares c db c' db' \<longleftrightarrow>
     co_shareRequestSent c \<and> co_confirmedFaceScore c \<noteq> None \<and> co_currentPhase c' = co_currentPhase c \<and>
     co_confirmedFaceScore c' = co_confirmedFaceScore c \<and> (\<forall>sid. late_row db' sid \<longrightarrow> late_row db sid) \<and>
     (\<exists>e. wins db' = wins db @ [e] \<and> er_trigger e = sc_id (co_session c))"

lemma kept_liveness: "liveness_confirms env now (keep_assertion c nxt a) = liveness_confirms env now c"
  by (rule ext) (auto simp: liveness_confirms_def keep_assertion_def split: option.splits if_splits)

lemma kept_fields [simp]:
  "co_currentPhase (keep_assertion c nxt a) = co_currentPhase c" "co_session (keep_assertion c nxt a) = co_session c"
  "co_confirmedFaceScore (keep_assertion c nxt a) = co_confirmedFaceScore c"
  "co_sessionId (keep_assertion c nxt a) = co_sessionId c"
  by (auto simp: keep_assertion_def split: option.split)

lemma kept_cases: "\<exists>b. keep_assertion c nxt a = keep_assertion c ''nfc_complete'' b"
  by (cases "nxt = ''nfc_complete''") (auto simp: keep_assertion_def split: option.split intro: exI [of _ None])

lemma hello_advances:
  assumes "handleHelloMessage env now c db payload = (c', db', outs, t)"
  shows "advances a c db c' db'"
proof (cases "check_hello env now c db payload")
  case (Inl code)
  then show ?thesis using assms by (auto simp: handleHelloMessage_def intro: advances_quiet)
next
  case (Inr r)
  obtain parsed row auth key where r: "r = (parsed, row, auth, key)" by (cases r) auto
  let ?sid = "sc_id (co_session c)"
  have row: "jm_get (db_sessions db) ?sid = Some row"
    using Inr r by (auto simp: check_hello_def Let_def split: option.splits if_splits hello_auth_state.splits sum.splits)
  obtain db1 cl where cl: "claimSessionConnection now db ?sid (co_owner c) (auth = Hello_resume) = (db1, cl)"
    by fastforce
  have c1: "calm {} db db1" by (rule claim_calm [OF cl])
  have out: "advances a c db c2 db2"
    if "calm {} db db2" "co_confirmedFaceScore c2 = None"
      "co_currentPhase c2 = vs_currentPhase row \<or> \<not> late (co_currentPhase c2)" for c2 db2
    using that row by (auto simp: advances_def late_row_def intro: calm_mono)
  have conn: "calm {} db db2 \<and> co_confirmedFaceScore c2 = None \<and>
      (co_currentPhase c2 = vs_currentPhase row \<or> \<not> late (co_currentPhase c2))"
    if "persistConnectedPhaseIfMissing now (hello_claimed c ?sid row) db1 ?sid = (c2, db2)" for c2 db2
    using that c1 by (auto simp: persistConnectedPhaseIfMissing_def hello_claimed_def
        intro!: calm_trans [OF c1] persist_calm split: if_splits)
  have first: "calm {} db db2" if "persistFirstHelloState now db1 ?sid dev ver key = (db2, b)" for dev ver b db2
    using calm_trans [OF c1 first_hello_calm [OF that]] .
  have reset: "calm {} db (releaseSessionConnection db1 s w)" for s w
    by (rule calm_trans [OF c1 release_calm])
  show ?thesis
  proof (cases cl)
    case (Inl code)
    then show ?thesis using assms c1 by (auto simp: handleHelloMessage_def Inr r Let_def cl intro: advances_quiet)
  next
    case ok: (Inr u)
    show ?thesis
    proof (cases auth)
      case (Hello_consume dev)
      then show ?thesis using assms ok cl
        by (auto simp: handleHelloMessage_def Inr r Let_def hello_claimed_def resetSessionState_def
            intro!: out reset dest!: first split: if_splits prod.splits bool.splits)
    qed (use assms ok cl conn in \<open>auto simp: handleHelloMessage_def Inr r Let_def intro!: out split: prod.splits\<close>)
  qed
qed

lemma phase_advances:
  assumes "handlePhaseMessage env now i c db payload = (c', db', outs, t)" and "conn_ok c"
  shows "advances (frame_advance env now c db) c db c' db'"
proof -
  let ?nxt = "trim_or_empty (pp_phase payload)"
  let ?c1 = "keep_assertion c ?nxt (pp_attestAssertion payload)"
  have quiet: "advances x c db ?c1 db" for x by (rule advances_quiet) simp_all
  have sid: "the (co_sessionId c) = sc_id (co_session c)" if "truthy (co_sessionId c)"
    using that assms(2) by (auto simp: truthy_def conn_ok_def)
  have rest: "advances (frame_advance env now c db) c db c' db'"
    if r: "phase_rest env now i ?c1 db (the (co_sessionId c)) ?nxt phase changed = (c', db', outs, t)"
      and v: "validateTrackedPhaseTransition (co_currentPhase ?c1) ?nxt None = Inr (phase, changed)"
      and m: "buildMissingDataMessage (co_transfer ?c1) ?nxt = None" and s: "truthy (co_sessionId c)" for phase changed
  proof -
    let ?a = "\<lparr>ad_document = document_confirms env ?c1 db (sc_id (co_session c)), ad_liveness = liveness_confirms env now ?c1\<rparr>"
    have "advances ?a ?c1 db c' db'"
      using phase_rest_advances [OF r v m] sid [OF s] by simp
    moreover have "ad_document ?a \<Longrightarrow> ad_document (frame_advance env now c db)"
      using kept_cases [of c ?nxt "pp_attestAssertion payload"] by (auto simp: frame_advance_def)
    ultimately show ?thesis
      by (auto simp: advances_def frame_advance_def kept_liveness calm_def split: if_splits)
  qed
  show ?thesis using assms(1) unfolding handlePhaseMessage_def Let_def
    by (auto split: if_splits option.splits sum.splits prod.splits intro: advances_quiet quiet rest)
qed

lemma share_progress:
  assumes "handleShareSelectionMessage env now i c db payload = (c', db', outs, t)"
  shows "advances a c db c' db' \<or> shares c db c' db'"
proof -
  have won: "(db' = db \<and> e = None) \<or> (e = Some i \<and> (\<forall>sid. late_row db' sid \<longrightarrow> late_row db sid) \<and>
      (\<exists>ev. wins db' = wins db @ [ev] \<and> er_trigger ev = sc_id s))"
    if "markSessionSucceeded d now i db s keys score = (db', s', e, ids)" for d s keys score db' s' e ids
    using that
    by (auto simp: markSessionSucceeded_def Let_def update_session_Some wins_def late_row_def insert_event_def
        record_audit_def call_webhook_def jsmap_simps split: prod.splits option.splits if_splits)
  show ?thesis using assms unfolding handleShareSelectionMessage_def Let_def
    by (auto split: if_splits option.splits sum.splits prod.splits dest!: won
        simp: shares_def intro: advances_quiet)
qed

lemma receive_progress:
  assumes "receive_frame env now i c db frame = (c', db', outs)" and "conn_ok c"
  shows "advances (frame_advance env now c db) c db c' db' \<or> shares c db c' db'"
proof -
  have decoded: "advances (frame_advance env now c db) c db c' db' \<or> shares c db c' db'"
    if d: "handleDecodedMessage env now i c db message = (c', db', o2, t)" for message o2 t
  proof -
    have "co_currentPhase c1 = co_currentPhase c \<and> co_confirmedFaceScore c1 = co_confirmedFaceScore c"
      if "handleDataMessage env c data = (c1, x)" for data c1 x
      using that by (auto simp: handleDataMessage_def Let_def split: if_splits prod.splits)
    then show ?thesis using d assms(2) unfolding handleDecodedMessage_def Let_def
      by (auto split: option.splits if_splits prod.splits intro: advances_quiet hello_advances phase_advances
          dest: share_progress [where a = "frame_advance env now c db"])
  qed
  show ?thesis using assms(1) decoded
    by (auto simp: receive_frame_def split: frame.splits option.splits if_splits prod.splits intro: advances_quiet)
qed

section \<open>Tracing a success back\<close>

text \<open>Something happened in a run: at some message, in the state the messages before it left.\<close>

definition happened :: "(net_msg list \<Rightarrow> net_msg \<Rightarrow> bool) \<Rightarrow> net_msg list \<Rightarrow> bool" where
  "happened P ms \<longleftrightarrow> (\<exists>before m after. ms = before @ m # after \<and> P before m)"

lemma happened_Nil [simp]: "\<not> happened P []"
  by (simp add: happened_def)

lemma happened_snoc: "happened P (ms @ [m]) \<longleftrightarrow> happened P ms \<or> P ms m"
proof
  assume "happened P (ms @ [m])"
  then obtain before x after where s: "ms @ [m] = before @ x # after" and x: "P before x"
    by (auto simp: happened_def)
  show "happened P ms \<or> P ms m"
  proof (cases after rule: rev_cases)
    case Nil
    then show ?thesis using s x by simp
  next
    case (snoc ys y)
    then have "ms = before @ x # ys" using s by simp
    with x have "happened P ms" unfolding happened_def by blast
    then show ?thesis ..
  qed
next
  assume "happened P ms \<or> P ms m"
  then show "happened P (ms @ [m])"
  proof
    assume "happened P ms"
    then obtain before x after where "ms = before @ x # after" "P before x" by (auto simp: happened_def)
    then have "ms @ [m] = before @ x # (after @ [m])" by simp
    with \<open>P before x\<close> show ?thesis unfolding happened_def by blast
  next
    assume "P ms m"
    then show ?thesis unfolding happened_def by blast
  qed
qed

text \<open>A frame on a connection of the session, whose transfer then passes the document check.\<close>

definition document_passed :: "string \<Rightarrow> net_msg list \<Rightarrow> net_msg \<Rightarrow> bool" where
  "document_passed sid before m \<longleftrightarrow>
     (\<exists>now ids owner env frame c a.
        m = (now, ids, Net_frame owner env frame) \<and> nt_conns (run_net before) owner = Some c \<and>
        sc_id (co_session c) = sid \<and>
        document_confirms env (keep_assertion c ''nfc_complete'' a) (nt_db (run_net before)) sid)"

text \<open>A frame on a connection whose liveness check then yields the score, after a document passed.\<close>

definition liveness_passed :: "string \<Rightarrow> string \<Rightarrow> rat \<Rightarrow> net_msg list \<Rightarrow> net_msg \<Rightarrow> bool" where
  "liveness_passed owner sid score before m \<longleftrightarrow>
     (\<exists>now ids env frame c.
        m = (now, ids, Net_frame owner env frame) \<and> nt_conns (run_net before) owner = Some c \<and>
        sc_id (co_session c) = sid \<and> liveness_confirms env now c score \<and>
        happened (document_passed sid) before)"

text \<open>A share selection on a connection of the session that had asked for it after such a check.\<close>

definition share_accepted :: "string \<Rightarrow> net_msg list \<Rightarrow> net_msg \<Rightarrow> bool" where
  "share_accepted sid before m \<longleftrightarrow>
     (\<exists>now ids owner env frame c score.
        m = (now, ids, Net_frame owner env frame) \<and> nt_conns (run_net before) owner = Some c \<and>
        sc_id (co_session c) = sid \<and> co_shareRequestSent c \<and> co_confirmedFaceScore c = Some score \<and>
        happened (liveness_passed owner sid score) before)"

definition traced :: "net_msg list \<Rightarrow> bool" where
  "traced ms \<longleftrightarrow>
     (\<forall>owner c. nt_conns (run_net ms) owner = Some c \<longrightarrow>
        (late (co_currentPhase c) \<longrightarrow> happened (document_passed (sc_id (co_session c))) ms) \<and>
        (\<forall>s. co_confirmedFaceScore c = Some s \<longrightarrow> happened (liveness_passed owner (sc_id (co_session c)) s) ms)) \<and>
     (\<forall>sid. late_row (nt_db (run_net ms)) sid \<longrightarrow> happened (document_passed sid) ms) \<and>
     (\<forall>e \<in> set (wins (nt_db (run_net ms))). happened (share_accepted (er_trigger e)) ms)"

lemma traced_mono:
  assumes "traced ms"
    and "\<And>owner c. nt_conns (run_net (ms @ [m])) owner = Some c \<Longrightarrow>
      nt_conns (run_net ms) owner = Some c \<or> co_currentPhase c = None \<and> co_confirmedFaceScore c = None"
    and "calm {} (nt_db (run_net ms)) (nt_db (run_net (ms @ [m])))"
  shows "traced (ms @ [m])"
  unfolding traced_def happened_snoc
proof (intro conjI allI impI ballI)
  fix owner c
  assume c: "nt_conns (run_net (ms @ [m])) owner = Some c"
  from assms(2) [OF c] assms(1)
  show "happened (document_passed (sc_id (co_session c))) ms \<or> document_passed (sc_id (co_session c)) ms m"
    if "late (co_currentPhase c)" using that unfolding traced_def by auto
  from assms(2) [OF c] assms(1)
  show "happened (liveness_passed owner (sc_id (co_session c)) s) ms \<or> liveness_passed owner (sc_id (co_session c)) s ms m"
    if "co_confirmedFaceScore c = Some s" for s using that unfolding traced_def by auto
next
  fix sid
  assume "late_row (nt_db (run_net (ms @ [m]))) sid"
  with assms(1,3) show "happened (document_passed sid) ms \<or> document_passed sid ms m"
    unfolding traced_def calm_def by auto
next
  fix e
  assume "e \<in> set (wins (nt_db (run_net (ms @ [m]))))"
  with assms(1,3) show "happened (share_accepted (er_trigger e)) ms \<or> share_accepted (er_trigger e) ms m"
    unfolding traced_def calm_def by auto
qed

lemma frame_traced:
  assumes tr: "traced ms" and c: "nt_conns (run_net ms) owner = Some c"
    and r: "receive_frame env now (ids 0) c (nt_db (run_net ms)) frame = (c', db', outs)"
  shows "traced (ms @ [(now, ids, Net_frame owner env frame)])"
proof -
  let ?m = "(now, ids, Net_frame owner env frame)" and ?db = "nt_db (run_net ms)" and ?sid = "sc_id (co_session c)"
  have net: "nt_conns (run_net (ms @ [?m])) = (nt_conns (run_net ms))(owner \<mapsto> c')" "nt_db (run_net (ms @ [?m])) = db'"
    using c r by simp_all
  have ok: "conn_ok c" using run_net_ok c by (auto simp: net_ok_def)
  have sid: "sc_id (co_session c') = ?sid"
    using receive_step [of c ?db env now "ids 0" frame] by (simp add: r)
  have old: "late (co_currentPhase c) \<Longrightarrow> happened (document_passed ?sid) ms"
    "late_row ?db s \<Longrightarrow> happened (document_passed s) ms"
    "co_confirmedFaceScore c = Some x \<Longrightarrow> happened (liveness_passed owner ?sid x) ms"
    "e \<in> set (wins ?db) \<Longrightarrow> happened (share_accepted (er_trigger e)) ms" for s x e
    using tr c unfolding traced_def by blast+
  have doc: "ad_document (frame_advance env now c ?db) \<Longrightarrow> document_passed ?sid ms ?m"
    using c unfolding document_passed_def frame_advance_def by auto
  have live: "late (co_currentPhase c) \<Longrightarrow> ad_liveness (frame_advance env now c ?db) x \<Longrightarrow>
      liveness_passed owner ?sid x ms ?m" for x
    using c old(1) unfolding liveness_passed_def frame_advance_def by auto
  have facts: "(late (co_currentPhase c') \<longrightarrow> happened (document_passed ?sid) (ms @ [?m])) \<and>
      (\<forall>x. co_confirmedFaceScore c' = Some x \<longrightarrow> happened (liveness_passed owner ?sid x) (ms @ [?m])) \<and>
      (\<forall>s. late_row db' s \<longrightarrow> happened (document_passed s) (ms @ [?m])) \<and>
      (\<forall>e \<in> set (wins db'). happened (share_accepted (er_trigger e)) (ms @ [?m]))"
    using receive_progress [OF r ok]
  proof
    assume a: "advances (frame_advance env now c ?db) c ?db c' db'"
    then show ?thesis using old doc live unfolding advances_def calm_def happened_snoc
      by (auto split: if_splits)
  next
    assume s: "shares c ?db c' db'"
    then obtain x where x: "co_confirmedFaceScore c = Some x" by (auto simp: shares_def)
    have "share_accepted ?sid ms ?m"
      using s c x old(3) [OF x] unfolding share_accepted_def shares_def by blast
    with s show ?thesis using old unfolding shares_def happened_snoc by auto
  qed
  show ?thesis
    unfolding traced_def net using facts sid tr by (auto simp: traced_def happened_snoc)
qed

lemma run_traced: "traced ms"
proof (induction ms rule: rev_induct)
  case Nil
  then show ?case
    by (simp add: traced_def empty_net_def empty_db_def late_row_def wins_def)
next
  case (snoc m ms)
  show ?case
  proof (cases "(run_net ms, m)" rule: net_step.cases)
    case (1 n now ids pending owner sid)
    then show ?thesis using snoc
      by (intro traced_mono) (auto simp: startVerifySocketSession_def createVerifySocketState_def
          dest: load_calm split: if_splits prod.splits sum.splits)
  next
    case (2 n now ids owner env frame)
    show ?thesis
    proof (cases "nt_conns n owner")
      case None
      with 2 snoc show ?thesis by (intro traced_mono) auto
    next
      case (Some c)
      obtain c' db' outs where r: "receive_frame env now (ids 0) c (nt_db (run_net ms)) frame = (c', db', outs)"
        by (metis prod_cases3)
      have "nt_conns (run_net ms) owner = Some c" using 2 Some by simp
      from frame_traced [where ids = ids, OF snoc this r] 2 show ?thesis by simp
    qed
  next
    case (3 n now ids owner)
    then show ?thesis using snoc
      by (intro traced_mono) (auto simp: close_connection_def release_calm split: if_splits option.splits)
  next
    case (4 n now ids env op)
    then show ?thesis using snoc
      by (intro traced_mono) (auto simp: outside_calm split: if_splits)
  qed
qed

end
