(* ===== verification/Socket_Samples.thy ===== *)
theory Socket_Samples
  imports Socket_Progress Share_Manifest
begin

text \<open>
  Frames that carry a whole artifact, and a run of the service, message by message, on which the
  theorems about it are instantiated.
\<close>

section \<open>Whole artifacts\<close>

definition whole_artifact :: "int \<Rightarrow> bytes \<Rightarrow> data_payload" where
  "whole_artifact kind raw =
     \<lparr>dp_kind = Some kind, dp_raw = Some raw, dp_index = None, dp_total = Some 1, dp_chunkIndex = None,
      dp_chunkTotal = None\<rparr>"

definition has_room :: "transfer_state \<Rightarrow> int \<Rightarrow> bytes \<Rightarrow> bool" where
  "has_room s kind raw \<longleftrightarrow>
     length raw \<le> MAX_FRAME_BYTES \<and> ts_received s + length raw \<le> MAX_TOTAL_TRANSFER_BYTES \<and>
     jm_get (ts_chunks s) (chunk_key kind 0) = None"

lemma whole_artifact_stored:
  assumes "kind \<in> {DG1_KIND, DG2_KIND, SOD_KIND, LIVENESS_VIDEO_KIND}" and "has_room s kind raw"
  shows "fst (processDataPayload s (whole_artifact kind raw)) =
      fst (storeData (s\<lparr>ts_received := ts_received s + length raw\<rparr>) kind raw)"
    and "dr_error (snd (processDataPayload s (whole_artifact kind raw))) = None"
proof -
  have p: "normalizeDataPayload (whole_artifact kind raw) = \<lparr>np_kind = kind, np_raw = raw, np_index = 0,
      np_total = 1, np_chunkIndex = 0, np_chunkTotal = 1, np_chunkKey = chunk_key kind 0\<rparr>"
    by (simp add: normalizeDataPayload_def whole_artifact_def)
  have v: "validateDataPayload s (normalizeDataPayload (whole_artifact kind raw)) = None"
    using assms unfolding p
    by (auto simp: validateDataPayload_def has_room_def kind_defs isNonNegativeInteger_def
        isLegacySelfieDataKind_def isSupportedDataKind_def isNfcDataKind_def isLivenessVideoDataKind_def
        MAX_CHUNKS_PER_KEY_def)
  have small: "length raw \<le> MAX_KIND_BYTES"
    using assms(2) by (simp add: has_room_def MAX_FRAME_BYTES_def MAX_KIND_BYTES_def)
  have st: "snd (storeData s' kind raw) = None" for s'
    using assms(1) small by (auto simp: storeData_def kind_defs)
  let ?s = "s\<lparr>ts_received := ts_received s + length raw\<rparr>"
  have a: "assembleChunk s key 0 1 raw = (?s, \<lparr>as_complete = True, as_data = Some raw\<rparr>)" for key
    by (simp add: assembleChunk_def)
  obtain s2 where s2: "storeData ?s kind raw = (s2, None)" using st [of ?s] by (cases "storeData ?s kind raw") auto
  show "fst (processDataPayload s (whole_artifact kind raw)) = fst (storeData ?s kind raw)"
    and "dr_error (snd (processDataPayload s (whole_artifact kind raw))) = None"
    using v by (simp_all add: processDataPayload_def p a s2 Let_def)
qed

lemma whole_artifact_frame:
  assumes "kind \<in> {DG1_KIND, DG2_KIND, SOD_KIND, LIVENESS_VIDEO_KIND}" and "has_room (co_transfer c) kind raw"
    and "isNfcDataKind kind \<Longrightarrow> isPhaseAtOrAfter (co_currentPhase c) ''nfc_reading''"
    and "isLivenessVideoDataKind kind \<Longrightarrow> isPhaseAtOrAfter (co_currentPhase c) ''liveness_capturing''"
  shows "fst (handleDataMessage env c (whole_artifact kind raw)) =
    c\<lparr>co_transfer := fst (storeData ((co_transfer c)\<lparr>ts_received := ts_received (co_transfer c) + length raw\<rparr>) kind raw)\<rparr>"
proof -
  have k: "dp_kind (whole_artifact kind raw) = Some kind" "(whole_artifact kind raw)\<lparr>dp_kind := Some kind\<rparr> = whole_artifact kind raw"
    by (simp_all add: whole_artifact_def)
  obtain t r where p: "processDataPayload (co_transfer c) (whole_artifact kind raw) = (t, r)" by fastforce
  have gate: "\<not> (isNfcDataKind kind \<and> \<not> isPhaseAtOrAfter (co_currentPhase c) ''nfc_reading'')"
    "\<not> (isLivenessVideoDataKind kind \<and> \<not> isPhaseAtOrAfter (co_currentPhase c) ''liveness_capturing'')"
    using assms(3,4) by blast+
  have "fst (handleDataMessage env c (whole_artifact kind raw)) = c\<lparr>co_transfer := t\<rparr>"
    unfolding handleDataMessage_def k Let_def option.case if_not_P [OF gate(1)] if_not_P [OF gate(2)] p by simp
  then show ?thesis using whole_artifact_stored(1) [OF assms(1,2)] p by simp
qed

section \<open>A run\<close>

definition genuine_dg1 :: bytes where
  "genuine_dg1 = td3_dg1 sample_page"

definition sample_time :: int where
  "sample_time = 1767225600000"

lemma sample_date: "date_of sample_time = sample_now"
proof -
  have "sample_time div 86400000 = 20454" "sample_time mod 86400000 = 0" by (simp_all add: sample_time_def)
  moreover have "civil_from_days 20454 = (2026, 1, 1)" by code_simp
  ultimately show ?thesis by (simp add: date_of_def sample_now_def)
qed

lemma length_genuine: "length genuine_dg1 = 93"
proof -
  have "td3_page_ok sample_page" by code_simp
  from td3_lengths [OF this] show ?thesis by (simp add: genuine_dg1_def td3_dg1_def)
qed

definition sample_env :: env where
  "sample_env =
     \<lparr>en_hmac = (\<lambda>s. ''h''), en_mac = (\<lambda>s. [1, 2, 3, 4, 5, 6, 7, 8]), en_deliveries = (\<lambda>_. []), en_message = (\<lambda>_. []),
      en_nodeEnv = None, en_requireAttestation = None, en_minAppVersion = [], en_firstHelloFails = False,
      en_authSecret = Some ''k'', en_attestKeyKnown = (\<lambda>_. False), en_helloAssertion = (\<lambda>_. False),
      en_nfcAssertion = (\<lambda>_ _ _. False),
      en_authenticity = (\<lambda>dg1 dg2 dg14 dg15 sod. if dg1 = genuine_dg1 then Some \<lparr>sd_dg14 = False, sd_dg15 = False\<rparr> else None),
      en_chipAuthVersions = (\<lambda>_. None), en_chipAuthentication = (\<lambda>_ _. False),
      en_activeAuthentication = (\<lambda>_ _ _ _ _. False),
      en_liveness = (\<lambda>_ _ _ _. \<lparr>lr_livenessPassed = True, lr_padPassed = True, lr_faceMatchPassed = True,
                                lr_usedFallback = False, lr_faceMatchScore = Some (9/10)\<rparr>)\<rparr>"

definition now_do :: "net_op \<Rightarrow> net_msg" where
  "now_do op = (sample_time, (\<lambda>_. ''e''), op)"

definition say :: "client_message \<Rightarrow> net_msg" where
  "say message = now_do (Net_frame ''c'' sample_env (Frame_binary 100 (Some message)))"

definition empty_message :: client_message where
  "empty_message = \<lparr>cm_hello = None, cm_phase = None, cm_data = None, cm_share = None\<rparr>"

definition say_phase :: "string \<Rightarrow> net_msg" where
  "say_phase phase = say (empty_message\<lparr>cm_phase := Some \<lparr>pp_phase = Some phase, pp_attestAssertion = None\<rparr>\<rparr>)"

definition say_data :: "int \<Rightarrow> bytes \<Rightarrow> net_msg" where
  "say_data kind raw = say (empty_message\<lparr>cm_data := Some (whole_artifact kind raw)\<rparr>)"

definition sample_hello :: hello_payload where
  "sample_hello = \<lparr>hp_sessionId = Some ''s'', hp_mobileWriteToken = Some ''h'', hp_deviceId = Some ''d'',
     hp_appVersion = None, hp_attestKeyId = None, hp_helloAssertion = None, hp_runtimeIntegritySignal = None\<rparr>"

definition sample_opening :: "net_msg list" where
  "sample_opening =
     [now_do (Net_store sample_env (Op_create (sample_input\<lparr>ci_shareFieldsJson := the sample_contract\<rparr>) ''t'')),
      now_do (Net_store sample_env (Op_consent False \<lparr>cn_biometric = True, cn_documentProcessing = True,
        cn_privacyNotice = True, cn_shareClaims = True, cn_terms = True\<rparr> ''s'')),
      now_do (Net_store sample_env (Op_handoff False ''seed'' ''s'')),
      now_do (Net_open False ''c'' ''s''),
      say (empty_message\<lparr>cm_hello := Some sample_hello\<rparr>)]"

definition sample_checks :: "net_msg list" where
  "sample_checks =
     [say_phase ''mrz_scanning'', say_phase ''mrz_complete'', say_phase ''nfc_reading'',
      say_data DG1_KIND genuine_dg1, say_data DG2_KIND [1], say_data SOD_KIND [1], say_phase ''nfc_complete'',
      say_phase ''liveness_capturing'', say_data LIVENESS_VIDEO_KIND [1], say_phase ''liveness_complete'']"

definition sample_selection :: share_payload where
  "sample_selection = \<lparr>sp_selectedFieldKeys = Some [''family_name'', ''kayle_document_id''], sp_sessionId = Some ''s''\<rparr>"

definition sample_run :: "net_msg list" where
  "sample_run = sample_opening @ sample_checks @ [say (empty_message\<lparr>cm_share := Some sample_selection\<rparr>)]"

text \<open>After some messages the connection and the session's row are the given ones.\<close>

definition stage :: "net_msg list \<Rightarrow> conn \<Rightarrow> session_row \<Rightarrow> bool" where
  "stage ms c r \<longleftrightarrow>
     nt_conns (run_net ms) ''c'' = Some c \<and> jm_get (db_sessions (nt_db (run_net ms))) ''s'' = Some r"

lemma stage_say:
  assumes "stage ms c r" and "handleDecodedMessage sample_env sample_time ''e'' c (nt_db (run_net ms)) message = (c', db', outs, t)"
    and "jm_get (db_sessions db') ''s'' = Some r'"
  shows "stage (ms @ [say message]) c' r'"
  using assms by (auto simp: stage_def say_def now_do_def receive_frame_def MAX_FRAME_BYTES_def)

text \<open>A phase without checks of its own.\<close>

lemma stage_phase:
  assumes "stage ms c r" and "co_helloReceived c" and "co_sessionId c = Some ''s''" and "co_currentPhase c = Some cur"
    and "(cur, phase) \<in> {(''mobile_connected'', ''mrz_scanning''), (''mrz_scanning'', ''mrz_complete''),
                         (''mrz_complete'', ''nfc_reading'')}"
  shows "\<exists>r'. stage (ms @ [say_phase phase]) (c\<lparr>co_currentPhase := Some phase\<rparr>) r' \<and>
    r' = r\<lparr>vs_currentPhase := Some phase, vs_phaseUpdatedAt := Some sample_time\<rparr>"
proof -
  have trim: "js_trim phase = phase"
    using assms(5) by (auto simp: js_trim_def is_js_space_def)
  have tr: "isTrackedSessionPhase phase" "validateTrackedPhaseTransition (Some cur) phase None = Inr (phase, True)"
    using assms(5) by (auto simp: isTrackedSessionPhase_def phase_tables validateTrackedPhaseTransition_def
        truthy_def phase_number_def Let_def)
  let ?p = "empty_message\<lparr>cm_phase := Some \<lparr>pp_phase = Some phase, pp_attestAssertion = None\<rparr>\<rparr>"
  have b: "buildMissingDataMessage t phase = None" and n: "phase \<noteq> ''nfc_complete''" "phase \<noteq> ''liveness_complete''"
    "phase \<noteq> ''liveness_capturing''" and d: "drop_stale_artifacts c phase = c" for t
    using assms(4,5) by (auto simp: buildMissingDataMessage_def drop_stale_artifacts_def)
  have "handleDecodedMessage sample_env sample_time ''e'' c (nt_db (run_net ms)) ?p =
      (c\<lparr>co_currentPhase := Some phase\<rparr>, persistTrackedSessionPhase sample_time (nt_db (run_net ms)) ''s'' phase,
       [Out_ack ''phase_ok''], False)"
    using assms(2-4) trim tr b n d
    by (simp add: handleDecodedMessage_def empty_message_def handlePhaseMessage_def trim_or_empty_def truthy_def
        keep_assertion_def phase_rest_def phase_checks_def stops_phase_def enter_phase_def finish_phase_def Let_def)
  from stage_say [OF assms(1) this] assms(1) show ?thesis
    by (simp add: stage_def say_phase_def persistTrackedSessionPhase_def update_session_def jsmap_simps)
qed

lemma stage_data:
  assumes "stage ms c r" and "co_helloReceived c"
    and "kind \<in> {DG1_KIND, DG2_KIND, SOD_KIND, LIVENESS_VIDEO_KIND}" and "has_room (co_transfer c) kind raw"
    and "isNfcDataKind kind \<Longrightarrow> isPhaseAtOrAfter (co_currentPhase c) ''nfc_reading''"
    and "isLivenessVideoDataKind kind \<Longrightarrow> isPhaseAtOrAfter (co_currentPhase c) ''liveness_capturing''"
  shows "stage (ms @ [say_data kind raw]) (c\<lparr>co_transfer :=
    fst (storeData ((co_transfer c)\<lparr>ts_received := ts_received (co_transfer c) + length raw\<rparr>) kind raw)\<rparr>) r"
proof -
  obtain c' outs where h: "handleDataMessage sample_env c (whole_artifact kind raw) = (c', outs)" by fastforce
  have "handleDecodedMessage sample_env sample_time ''e'' c (nt_db (run_net ms))
      (empty_message\<lparr>cm_data := Some (whole_artifact kind raw)\<rparr>) = (c', nt_db (run_net ms), outs, False)"
    using assms(2) h by (simp add: handleDecodedMessage_def empty_message_def)
  from stage_say [OF assms(1) this] assms(1) whole_artifact_frame [OF assms(3-6), of sample_env] h
  show ?thesis by (simp add: stage_def say_data_def)
qed

text \<open>The session as it stands before the device connects.\<close>

definition ready_row :: session_row where
  "ready_row = (created_row sample_time ''h'' (sample_input\<lparr>ci_shareFieldsJson := the sample_contract\<rparr>))
     \<lparr>vs_writeTokenSeed := Some ''seed'', vs_writeTokenHash := Some ''h'',
      vs_writeTokenIssuedAt := Some sample_time, vs_writeTokenExpiresAt := Some (sample_time + HANDOFF_TOKEN_TTL_MS),
      vs_writeTokenConsumedAt := None\<rparr>"

lemma ready_row_simps [simp]:
  "vs_status ready_row = St_created" "vs_expiresAt ready_row = sample_time + 3600000" "vs_org ready_row = ''o''"
  "vs_writeTokenHash ready_row = Some ''h''" "vs_writeTokenConsumedAt ready_row = None"
  "vs_writeTokenExpiresAt ready_row = Some (sample_time + HANDOFF_TOKEN_TTL_MS)"
  "vs_contractVersion ready_row = 1" "vs_shareFields ready_row = the sample_contract"
  "vs_completedAt ready_row = None" "vs_currentPhase ready_row = None" "vs_claimedBy ready_row = None"
  by (simp_all add: ready_row_def created_row_def sample_input_def)

lemma opened_row:
  "jm_get (db_sessions (nt_db (run_net (take 3 sample_opening)))) ''s'' = Some ready_row"
proof -
  let ?c = "created_row sample_time ''h'' (sample_input\<lparr>ci_shareFieldsJson := the sample_contract\<rparr>)"
  let ?k = "\<lparr>cn_biometric = True, cn_documentProcessing = True, cn_privacyNotice = True, cn_shareClaims = True, cn_terms = True\<rparr>"
  define db1 where "db1 = nt_db (run_net (take 1 sample_opening))"
  define db2 where "db2 = nt_db (run_net (take 2 sample_opening))"
  have c: "vs_status ?c = St_created" "vs_expiresAt ?c = sample_time + 3600000" "vs_writeTokenSeed ?c = None"
    "vs_writeTokenConsumedAt ?c = None"
    by (simp_all add: created_row_def)
  have h: "en_hmac sample_env = (\<lambda>s. ''h'')" by (simp add: sample_env_def)
  have r1: "jm_get (db_sessions db1) ''s'' = Some ?c"
    by (simp add: db1_def sample_opening_def run_net_def now_do_def insertVerificationSessionRow_def empty_net_def
        empty_db_def Let_def hashSessionCancelToken_def h sample_input_def jsmap_simps)
  have "db2 = fst (recordVerifySessionConsent False sample_time ''e'' db1 ?k ''s'')"
    by (simp add: db1_def db2_def sample_opening_def run_net_def now_do_def)
  then have r2: "jm_get (db_sessions db2) ''s'' = Some ?c" and k2: "jm_has (db_consents db2) ''s''"
    using r1 c by (simp_all add: recordVerifySessionConsent_def expireVerificationSessionIfNeeded_def
        isTerminalSessionStatus_def TERMINAL_SESSION_STATUSES_def Let_def jsmap_simps)
  have "nt_db (run_net (take 3 sample_opening)) =
      fst (issueHandoffPayload (en_hmac sample_env) (en_mac sample_env) False sample_time ''e'' ''seed'' db2 ''s'')"
    by (simp add: db2_def sample_opening_def run_net_def now_do_def)
  then show ?thesis using r2 k2 c
    by (simp add: issueHandoffPayload_def select_handoff_def can_reuse_token_def truthy_def
        expireVerificationSessionIfNeeded_def isTerminalSessionStatus_def TERMINAL_SESSION_STATUSES_def Let_def
        jsmap_simps h hashMobileWriteToken_def update_session_def ready_row_def)
qed

definition opened_conn :: conn where
  "opened_conn = createVerifySocketState ''c'' (session_of_row ''s'' ready_row) (the sample_contract)"

definition greeted_conn :: conn where
  "greeted_conn = (hello_claimed opened_conn ''s'' ready_row)
     \<lparr>co_session := (session_of_row ''s'' ready_row)\<lparr>sc_status := St_in_progress\<rparr>,
      co_currentPhase := Some ''mobile_connected''\<rparr>"

lemma greeted_simps [simp]:
  "co_helloReceived greeted_conn" "co_sessionId greeted_conn = Some ''s''"
  "co_currentPhase greeted_conn = Some ''mobile_connected''" "co_transfer greeted_conn = createTransferState"
  "co_shareManifest greeted_conn = None" "co_confirmedFaceScore greeted_conn = None"
  "co_shareFields greeted_conn = the sample_contract"
  "sc_id (co_session greeted_conn) = ''s''" "sc_org (co_session greeted_conn) = ''o''"
  "sc_contractVersion (co_session greeted_conn) = 1"
  by (simp_all add: greeted_conn_def hello_claimed_def opened_conn_def createVerifySocketState_def session_of_row_def)

lemma stage_opened: "stage (take 4 sample_opening) opened_conn ready_row"
proof -
  have t: "take 4 sample_opening = take 3 sample_opening @ [now_do (Net_open False ''c'' ''s'')]"
    by (simp add: sample_opening_def)
  have c: "nt_conns (run_net (take 3 sample_opening)) = (\<lambda>_. None)"
    by (simp add: sample_opening_def run_net_def now_do_def empty_net_def)
  show ?thesis unfolding stage_def t run_net_simps now_do_def
    using opened_row c
    by (simp add: loadActiveVerifySession_def expireVerificationSessionIfNeeded_def isTerminalSessionStatus_def
        TERMINAL_SESSION_STATUSES_def Let_def startVerifySocketSession_def opened_conn_def)
qed

lemma stage_greeted: "\<exists>r. stage sample_opening greeted_conn r \<and> is_active r \<and> vs_org r = ''o''"
proof -
  let ?db = "nt_db (run_net (take 4 sample_opening))"
  let ?m = "empty_message\<lparr>cm_hello := Some sample_hello\<rparr>"
  have row: "jm_get (db_sessions ?db) ''s'' = Some ready_row" using stage_opened by (simp add: stage_def)
  have eq: "constantTimeStringEqual ''h'' ''h''" by code_simp
  have trim: "js_trim ''s'' = ''s''" "js_trim ''h'' = ''h''" "js_trim ''d'' = ''d''"
    by (simp_all add: js_trim_def is_js_space_def)
  have chk: "check_hello sample_env sample_time opened_conn ?db sample_hello =
      Inr (\<lparr>ph_sessionId = ''s'', ph_mobileWriteToken = ''h'', ph_deviceId = ''d'', ph_appVersion = [],
            ph_attestKeyId = [], ph_helloAssertion = [], ph_runtimeIntegritySignal = 0\<rparr>, ready_row, Hello_consume ''h'', None)"
    using row trim eq
    by (simp add: check_hello_def parseHelloPayload_def sample_hello_def trim_or_empty_def Let_def opened_conn_def
        createVerifySocketState_def session_of_row_def isSessionMissingOrTerminal_def isTerminalSessionStatus_def
        TERMINAL_SESSION_STATUSES_def sample_env_def resolveHelloAuthState_def truthy_def hashMobileWriteToken_def
        hashMobileDeviceId_def HANDOFF_TOKEN_TTL_MS_def runHelloAttestationGate_def isAttestationGateEnabled_def)
  define row1 where "row1 = ready_row\<lparr>vs_claimedBy := Some ''c'', vs_claimedAt := Some sample_time\<rparr>"
  define db1 where "db1 = ?db\<lparr>db_sessions := jm_set ''s'' row1 (db_sessions ?db)\<rparr>"
  have cl: "claimSessionConnection sample_time ?db ''s'' ''c'' (Hello_consume ''h'' = Hello_resume) = (db1, Inr ())"
    using row by (simp add: claimSessionConnection_def update_session_def Let_def db1_def row1_def)
  have row1: "jm_get (db_sessions db1) ''s'' = Some row1" by (simp add: db1_def jsmap_simps)
  have act: "is_active row1" "vs_org row1 = ''o''" by (simp_all add: row1_def is_active_def ACTIVE_SESSION_STATUSES_def)
  obtain r db' where ph: "persistFirstHelloState sample_time db1 ''s'' ''h'' [] None = (db', True)"
    "jm_get (db_sessions db') ''s'' = Some r" "is_active r" "vs_org r = ''o''"
    using row1 act by (simp add: persistFirstHelloState_def update_session_def jsmap_simps is_active_def ACTIVE_SESSION_STATUSES_def)
  have opened: "sc_id (session_of_row ''s'' ready_row) = ''s''" "co_owner opened_conn = ''c''"
    "co_session opened_conn = session_of_row ''s'' ready_row" "\<not> en_firstHelloFails sample_env"
    by (simp_all add: opened_conn_def createVerifySocketState_def session_of_row_def sample_env_def)
  define outs where "outs = [Out_ack ''hello_ok'', sendActiveAuthChallenge sample_env ''s'']"
  have h: "handleHelloMessage sample_env sample_time opened_conn ?db sample_hello = (greeted_conn, db', outs, False)"
    "jm_get (db_sessions db') ''s'' = Some r" "is_active r" "vs_org r = ''o''"
    using cl ph by (simp_all add: handleHelloMessage_def chk Let_def opened greeted_conn_def hello_claimed_def outs_def)
  have "handleDecodedMessage sample_env sample_time ''e'' opened_conn ?db ?m = (greeted_conn, db', outs, False)"
    using h(1) by (simp add: handleDecodedMessage_def empty_message_def)
  from stage_say [OF stage_opened this h(2)] have "stage sample_opening greeted_conn r"
    by (simp add: sample_opening_def)
  with h(3,4) show ?thesis by blast
qed

definition read_transfer :: transfer_state where
  "read_transfer = createTransferState\<lparr>ts_received := 95, ts_dg1 := Some genuine_dg1, ts_dg2 := Some [1], ts_sod := Some [1]\<rparr>"

lemma phase_gates [simp]:
  "isPhaseAtOrAfter (Some ''nfc_reading'') ''nfc_reading''" "isPhaseAtOrAfter (Some ''liveness_capturing'') ''liveness_capturing''"
  by (simp_all add: isPhaseAtOrAfter_def truthy_def isTrackedSessionPhase_def phase_number_def PHASE_INDEX_def)

lemma stage_phase':
  assumes "stage ms c r" "is_active r" "vs_org r = ''o''"
    and "co_helloReceived c" "co_sessionId c = Some ''s''" "co_currentPhase c = Some cur"
    and "(cur, phase) \<in> {(''mobile_connected'', ''mrz_scanning''), (''mrz_scanning'', ''mrz_complete''),
                         (''mrz_complete'', ''nfc_reading'')}"
  shows "\<exists>r'. stage (ms @ [say_phase phase]) (c\<lparr>co_currentPhase := Some phase\<rparr>) r' \<and> is_active r' \<and> vs_org r' = ''o''"
  using stage_phase [OF assms(1,4-7)] assms(2,3) by (auto simp: is_active_def)

lemma stage_read:
  "\<exists>r. stage (sample_opening @ take 6 sample_checks)
     (greeted_conn\<lparr>co_currentPhase := Some ''nfc_reading'', co_transfer := read_transfer\<rparr>) r \<and> is_active r \<and> vs_org r = ''o''"
proof -
  note kinds = isNfcDataKind_def isLivenessVideoDataKind_def kind_defs
  note room = has_room_def createTransferState_def MAX_FRAME_BYTES_def MAX_TOTAL_TRANSFER_BYTES_def length_genuine
  note store = storeData_def MAX_KIND_BYTES_def kind_defs length_genuine
  let ?c = "greeted_conn\<lparr>co_currentPhase := Some ''nfc_reading''\<rparr>"
  obtain r0 where s0: "stage sample_opening greeted_conn r0" "is_active r0" "vs_org r0 = ''o''"
    using stage_greeted by blast
  obtain r1 where s1: "stage (sample_opening @ [say_phase ''mrz_scanning''])
      (greeted_conn\<lparr>co_currentPhase := Some ''mrz_scanning''\<rparr>) r1" "is_active r1" "vs_org r1 = ''o''"
    using stage_phase' [OF s0] by auto
  obtain r2 where s2: "stage (sample_opening @ [say_phase ''mrz_scanning'', say_phase ''mrz_complete''])
      (greeted_conn\<lparr>co_currentPhase := Some ''mrz_complete''\<rparr>) r2" "is_active r2" "vs_org r2 = ''o''"
    using stage_phase' [OF s1, of "''mrz_scanning''" "''mrz_complete''"] by auto
  obtain r3 where s3: "stage (sample_opening @ take 3 sample_checks) ?c r3" "is_active r3" "vs_org r3 = ''o''"
    using stage_phase' [OF s2, of "''mrz_complete''" "''nfc_reading''"] by (auto simp: sample_checks_def)
  have s4: "stage (sample_opening @ take 4 sample_checks)
      (?c\<lparr>co_transfer := createTransferState\<lparr>ts_received := 93, ts_dg1 := Some genuine_dg1\<rparr>\<rparr>) r3"
    using stage_data [OF s3(1), of DG1_KIND genuine_dg1]
    by (simp add: sample_checks_def kinds room store)
  have s5: "stage (sample_opening @ take 5 sample_checks)
      (?c\<lparr>co_transfer := createTransferState\<lparr>ts_received := 94, ts_dg1 := Some genuine_dg1, ts_dg2 := Some [1]\<rparr>\<rparr>) r3"
    using stage_data [OF s4, of DG2_KIND "[1]"]
    by (simp add: sample_checks_def kinds room store)
  have "stage (sample_opening @ take 6 sample_checks) (?c\<lparr>co_transfer := read_transfer\<rparr>) r3"
    using stage_data [OF s5, of SOD_KIND "[1]"]
    by (simp add: sample_checks_def kinds room store read_transfer_def)
  with s3(2,3) show ?thesis by auto
qed

lemma phase_names:
  "js_trim ''nfc_complete'' = ''nfc_complete''" "js_trim ''liveness_capturing'' = ''liveness_capturing''"
  "js_trim ''liveness_complete'' = ''liveness_complete''"
  by (simp_all add: js_trim_def is_js_space_def)

lemma phase_moves:
  "validateTrackedPhaseTransition (Some ''nfc_reading'') ''nfc_complete'' None = Inr (''nfc_complete'', True)"
  "validateTrackedPhaseTransition (Some ''nfc_complete'') ''liveness_capturing'' None = Inr (''liveness_capturing'', True)"
  "validateTrackedPhaseTransition (Some ''liveness_capturing'') ''liveness_complete'' None = Inr (''liveness_complete'', True)"
  "isTrackedSessionPhase ''nfc_complete''" "isTrackedSessionPhase ''liveness_capturing''"
  "isTrackedSessionPhase ''liveness_complete''"
  by (auto simp: isTrackedSessionPhase_def phase_tables validateTrackedPhaseTransition_def truthy_def
      phase_number_def Let_def)

lemma stage_announce:
  assumes "stage ms c r" and "co_helloReceived c" and "co_sessionId c = Some ''s''" and "js_trim phase = phase"
    and "isTrackedSessionPhase phase" and "buildMissingDataMessage (co_transfer c) phase = None"
    and "validateTrackedPhaseTransition (co_currentPhase c) phase None = Inr (phase, True)"
    and "phase_rest sample_env sample_time ''e'' c (nt_db (run_net ms)) ''s'' phase phase True = (c', db', outs, t)"
    and "jm_get (db_sessions db') ''s'' = Some r'"
  shows "stage (ms @ [say_phase phase]) c' r'"
  using stage_say [OF assms(1) _ assms(9),
      of "empty_message\<lparr>cm_phase := Some \<lparr>pp_phase = Some phase, pp_attestAssertion = None\<rparr>\<rparr>"] assms(2-8)
  by (simp add: handleDecodedMessage_def empty_message_def handlePhaseMessage_def trim_or_empty_def truthy_def
      keep_assertion_def Let_def say_phase_def)

definition reading_conn :: conn where
  "reading_conn = greeted_conn\<lparr>co_currentPhase := Some ''nfc_reading'', co_transfer := read_transfer\<rparr>"

lemma reading_simps [simp]:
  "co_helloReceived reading_conn" "co_sessionId reading_conn = Some ''s''"
  "co_currentPhase reading_conn = Some ''nfc_reading''" "co_transfer reading_conn = read_transfer"
  "co_session reading_conn = co_session greeted_conn"
  by (simp_all add: reading_conn_def)

lemma read_transfer_simps [simp]:
  "ts_dg1 read_transfer = Some genuine_dg1" "ts_dg2 read_transfer = Some [1]" "ts_sod read_transfer = Some [1]"
  "ts_video read_transfer = None" "ts_chunks read_transfer = []" "ts_received read_transfer = 95"
  by (simp_all add: read_transfer_def createTransferState_def)

lemma sample_gate: "\<not> isAttestationGateEnabled sample_env"
  by (simp add: isAttestationGateEnabled_def sample_env_def)

lemma sample_document: "runDocumentPhaseValidation sample_env sample_time ''e'' reading_conn db ''s'' = (reading_conn, db, [], None)"
proof -
  have "document_confirms sample_env reading_conn db ''s''"
    by (simp add: document_confirms_def sample_gate) (simp add: sample_env_def)
  then show ?thesis using document_result [of reading_conn] by simp
qed

definition checked_conn :: conn where
  "checked_conn = reading_conn\<lparr>co_currentPhase := Some ''nfc_complete''\<rparr>"

lemma update_phase_row:
  "jm_get (db_sessions db) ''s'' = Some r \<Longrightarrow>
   jm_get (db_sessions (persistTrackedSessionPhase sample_time db ''s'' phase)) ''s'' =
     Some (r\<lparr>vs_currentPhase := Some phase, vs_phaseUpdatedAt := Some sample_time\<rparr>)"
  by (simp add: persistTrackedSessionPhase_def update_session_def jsmap_simps)

lemma stage_checked:
  "\<exists>r. stage (sample_opening @ take 7 sample_checks) checked_conn r \<and> is_active r \<and> vs_org r = ''o''"
proof -
  let ?ms = "sample_opening @ take 6 sample_checks"
  let ?db = "nt_db (run_net ?ms)"
  obtain r where s: "stage ?ms reading_conn r" and a: "is_active r" "vs_org r = ''o''"
    using stage_read unfolding reading_conn_def by blast
  have m: "buildMissingDataMessage (co_transfer reading_conn) ''nfc_complete'' = None"
    by (simp add: buildMissingDataMessage_def getNfcTransferStatus_def getMissingNfcArtifacts_def
        getMissingTransferChunks_def Let_def)
  have p: "phase_rest sample_env sample_time ''e'' reading_conn ?db ''s'' ''nfc_complete'' ''nfc_complete'' True =
      (checked_conn, persistTrackedSessionPhase sample_time ?db ''s'' ''nfc_complete'', [Out_ack ''phase_ok''], False)"
    by (simp add: phase_rest_def phase_checks_def runPhaseValidation_def sample_document stops_phase_def
        enter_phase_def drop_stale_artifacts_def finish_phase_def checked_conn_def)
  have g: "jm_get (db_sessions ?db) ''s'' = Some r" using s by (simp add: stage_def)
  have "stage (?ms @ [say_phase ''nfc_complete'']) checked_conn
      (r\<lparr>vs_currentPhase := Some ''nfc_complete'', vs_phaseUpdatedAt := Some sample_time\<rparr>)"
    by (rule stage_announce [OF s _ _ phase_names(1) phase_moves(4) m _ p update_phase_row [OF g]])
      (simp_all add: phase_moves)
  then show ?thesis using a by (auto simp: sample_checks_def is_active_def)
qed

definition capturing_conn :: conn where
  "capturing_conn = checked_conn\<lparr>co_currentPhase := Some ''liveness_capturing'', co_nonce := Some [1, 2, 3, 4]\<rparr>"

lemma checked_simps [simp]:
  "co_helloReceived checked_conn" "co_sessionId checked_conn = Some ''s''"
  "co_currentPhase checked_conn = Some ''nfc_complete''" "co_transfer checked_conn = read_transfer"
  "co_session checked_conn = co_session greeted_conn"
  by (simp_all add: checked_conn_def)

lemma capturing_simps [simp]:
  "co_helloReceived capturing_conn" "co_sessionId capturing_conn = Some ''s''"
  "co_currentPhase capturing_conn = Some ''liveness_capturing''" "co_transfer capturing_conn = read_transfer"
  "co_session capturing_conn = co_session greeted_conn" "co_nonce capturing_conn = Some [1, 2, 3, 4]"
  by (simp_all add: capturing_conn_def)

lemma sample_nonce: "deriveLivenessChallenge sample_env ''s'' = (8000, [1, 2, 3, 4])"
  by (simp add: deriveLivenessChallenge_def DEFAULT_MAX_DURATION_MS_def CHALLENGE_NONCE_BYTES_def sample_env_def js_slice_def)

lemma stage_capturing:
  "\<exists>r. stage (sample_opening @ take 8 sample_checks) capturing_conn r \<and> is_active r \<and> vs_org r = ''o''"
proof -
  let ?ms = "sample_opening @ take 7 sample_checks"
  let ?db = "nt_db (run_net ?ms)"
  obtain r where s: "stage ?ms checked_conn r" and a: "is_active r" "vs_org r = ''o''"
    using stage_checked by blast
  have m: "buildMissingDataMessage (co_transfer checked_conn) ''liveness_capturing'' = None"
    by (simp add: buildMissingDataMessage_def)
  have k: "truthy (en_authSecret sample_env)" by (simp add: sample_env_def truthy_def)
  obtain outs where p: "phase_rest sample_env sample_time ''e'' checked_conn ?db ''s'' ''liveness_capturing'' ''liveness_capturing'' True =
      (capturing_conn, persistTrackedSessionPhase sample_time ?db ''s'' ''liveness_capturing'', outs, False)"
    by (simp add: phase_rest_def phase_checks_def stops_phase_def k sample_nonce
        enter_phase_def drop_stale_artifacts_def finish_phase_def capturing_conn_def Let_def)
  have g: "jm_get (db_sessions ?db) ''s'' = Some r" using s by (simp add: stage_def)
  have "stage (?ms @ [say_phase ''liveness_capturing'']) capturing_conn
      (r\<lparr>vs_currentPhase := Some ''liveness_capturing'', vs_phaseUpdatedAt := Some sample_time\<rparr>)"
    by (rule stage_announce [OF s _ _ phase_names(2) phase_moves(5) m _ p update_phase_row [OF g]])
      (simp_all add: phase_moves)
  then show ?thesis using a by (auto simp: sample_checks_def is_active_def)
qed

definition filmed_conn :: conn where
  "filmed_conn = capturing_conn\<lparr>co_transfer := read_transfer\<lparr>ts_received := 96, ts_video := Some [1]\<rparr>\<rparr>"

lemma filmed_simps [simp]:
  "co_helloReceived filmed_conn" "co_sessionId filmed_conn = Some ''s''"
  "co_currentPhase filmed_conn = Some ''liveness_capturing''"
  "co_transfer filmed_conn = read_transfer\<lparr>ts_received := 96, ts_video := Some [1]\<rparr>"
  "co_session filmed_conn = co_session greeted_conn" "co_nonce filmed_conn = Some [1, 2, 3, 4]"
  by (simp_all add: filmed_conn_def)

lemma stage_filmed:
  "\<exists>r. stage (sample_opening @ take 9 sample_checks) filmed_conn r \<and> is_active r \<and> vs_org r = ''o''"
proof -
  obtain r where s: "stage (sample_opening @ take 8 sample_checks) capturing_conn r" and a: "is_active r" "vs_org r = ''o''"
    using stage_capturing by blast
  have "stage (sample_opening @ take 9 sample_checks) filmed_conn r"
    using stage_data [OF s, of LIVENESS_VIDEO_KIND "[1]"]
    by (simp add: sample_checks_def isNfcDataKind_def isLivenessVideoDataKind_def kind_defs has_room_def
        MAX_FRAME_BYTES_def MAX_TOTAL_TRANSFER_BYTES_def storeData_def MAX_KIND_BYTES_def filmed_conn_def)
  with a show ?thesis by blast
qed

lemma sample_threshold: "\<exists>t. resolveFaceMatchThresholdFromDg1 genuine_dg1 sample_now = Inr t"
proof -
  let ?issue = "\<lparr>ud_year = 2022, ud_month = 4, ud_day = 15, ud_millis = 0\<rparr>"
  let ?expiry = "\<lparr>ud_year = 2032, ud_month = 4, ud_day = 15, ud_millis = 0\<rparr>"
  have "inferDocumentValidityYears ''1974-08-12'' ''2032-04-15'' = Inr (Some 10)"
    "shiftIsoDateByYears ''2032-04-15'' (- 10) = Inr ''2022-04-15''"
    "ageFromDateOfBirth ''1974-08-12'' sample_now = Inr 51" "ageFromDateOfBirth ''1974-08-12'' ?issue = Inr 47"
    "dateFromIsoDate ''2022-04-15'' = Inr ?issue" "dateFromIsoDate ''2032-04-15'' = Inr ?expiry"
    by code_simp+
  then have "\<exists>t. resolveFaceMatchThreshold ''1974-08-12'' ''2032-04-15'' sample_now = Inr t"
    by (simp add: resolveFaceMatchThreshold_def resolveDocumentAgeFraction_def Let_def)
  then show ?thesis
    by (auto simp: resolveFaceMatchThresholdFromDg1_def genuine_dg1_def sample_page_claims threshold_result_def)
qed

definition confirmed_conn :: conn where
  "confirmed_conn = filmed_conn\<lparr>co_confirmedFaceScore := Some (9/10), co_currentPhase := Some ''liveness_complete'',
     co_shareRequestSent := True\<rparr>"

lemma sample_liveness:
  "runLivenessPhaseValidation sample_env sample_time ''e'' filmed_conn db =
     ((filmed_conn\<lparr>co_confirmedFaceScore := Some (9/10)\<rparr>, db, [], Some confirmedCheckResult), False)"
proof -
  obtain t where t: "resolve_threshold filmed_conn (date_of sample_time) = Some t"
    using sample_threshold by (auto simp: resolve_threshold_def sample_date)
  have v: "en_liveness sample_env a b c d = \<lparr>lr_livenessPassed = True, lr_padPassed = True, lr_faceMatchPassed = True,
      lr_usedFallback = False, lr_faceMatchScore = Some (9/10)\<rparr>" for a b c d
    by (simp add: sample_env_def)
  show ?thesis
    by (simp add: runLivenessPhaseValidation_def t v resolveLivenessCheckResult_def shouldRejectSuccessfulFallbackMatch_def)
qed

lemma stage_confirmed:
  "\<exists>r. stage (sample_opening @ sample_checks) confirmed_conn r \<and> is_active r \<and> vs_org r = ''o''"
proof -
  let ?ms = "sample_opening @ take 9 sample_checks"
  let ?db = "nt_db (run_net ?ms)"
  obtain r where s: "stage ?ms filmed_conn r" and a: "is_active r" "vs_org r = ''o''"
    using stage_filmed by blast
  have m: "buildMissingDataMessage (co_transfer filmed_conn) ''liveness_complete'' = None"
    by (simp add: buildMissingDataMessage_def getNfcTransferStatus_def getMissingNfcArtifacts_def
        getLivenessTransferStatus_def getMissingTransferChunks_def Let_def)
  obtain outs where p: "phase_rest sample_env sample_time ''e'' filmed_conn ?db ''s'' ''liveness_complete'' ''liveness_complete'' True =
      (confirmed_conn, persistTrackedSessionPhase sample_time ?db ''s'' ''liveness_complete'', outs, False)"
    by (simp add: phase_rest_def phase_checks_def runPhaseValidation_def sample_liveness stops_phase_def confirmedCheckResult_def
        enter_phase_def drop_stale_artifacts_def finish_phase_def confirmed_conn_def Let_def)
  have g: "jm_get (db_sessions ?db) ''s'' = Some r" using s by (simp add: stage_def)
  have "stage (?ms @ [say_phase ''liveness_complete'']) confirmed_conn
      (r\<lparr>vs_currentPhase := Some ''liveness_complete'', vs_phaseUpdatedAt := Some sample_time\<rparr>)"
    by (rule stage_announce [OF s _ _ phase_names(3) phase_moves(6) m _ p update_phase_row [OF g]])
      (simp_all add: phase_moves)
  then show ?thesis using a by (auto simp: sample_checks_def is_active_def)
qed

section \<open>The selection\<close>

definition forged_page :: td3_page where
  "forged_page = sample_page\<lparr>pg_surname := ''MUSTERMANN''\<rparr>"

definition forged_dg1 :: bytes where
  "forged_dg1 = td3_dg1 forged_page"

lemma genuine_claims: "\<exists>cl. parseDg1Claims genuine_dg1 sample_now = Inr cl \<and> cl_surname cl = ''DE LA CRUZ''"
  by (simp add: genuine_dg1_def sample_page_claims)

lemma forged_claims: "\<exists>cl. parseDg1Claims forged_dg1 sample_now = Inr cl \<and> cl_surname cl = ''MUSTERMANN''"
proof -
  have "td3_page_ok forged_page" "date_in_range (pg_birth forged_page)" "date_in_range (pg_expiry forged_page)"
    "1000 \<le> ud_year sample_now" "ud_year sample_now < 9900"
    by code_simp+
  from td3_parse [OF this] have "\<exists>cl. parseTd3MrzClaims forged_dg1 sample_now = Inr cl \<and> cl_surname cl = pg_surname forged_page"
    by (simp add: forged_dg1_def)
  moreover have "pg_surname forged_page = ''MUSTERMANN''" by (simp add: forged_page_def)
  ultimately show ?thesis by (auto simp: parseTd3MrzClaims_def result_simps split: if_splits)
qed

lemma forged_not_genuine: "forged_dg1 \<noteq> genuine_dg1"
  using genuine_claims forged_claims by auto

lemma length_forged: "length forged_dg1 = 93"
proof -
  have "td3_page_ok forged_page" by code_simp
  from td3_lengths [OF this] show ?thesis by (simp add: forged_dg1_def td3_dg1_def)
qed

lemma sample_manifest:
  assumes "parseDg1Claims dg1 sample_now = Inr cl"
  shows "\<exists>m. validateAndBuildShareManifest h 1 dg1 sample_now ''o'' (sp_selectedFieldKeys sample_selection) ''s''
      (sp_sessionId sample_selection) (Some (the sample_contract)) = Inr (Inr (m, cl)) \<and>
    (''family_name'', Claim_text (cl_surname cl)) \<in> set (sm_claims m)"
proof -
  have t: "js_trim ''family_name'' = ''family_name''" "js_trim ''kayle_document_id'' = ''kayle_document_id''"
    "js_trim ''s'' = ''s''"
    by code_simp+
  have c: "Some (the sample_contract) = sample_contract" by (simp add: sample_contract_def)
  show ?thesis unfolding c using assms
    by (simp add: validateAndBuildShareManifest_def createShareRequestPayload_def sample_contract_fields
        normalizeSelectedFieldKeys_def t makeDefaultEntry_def buildShareClaimValue_def Let_def sample_selection_def
        result_simps)
qed

lemma confirmed_simps [simp]:
  "co_helloReceived confirmed_conn" "co_sessionId confirmed_conn = Some ''s''" "co_shareRequestSent confirmed_conn"
  "co_shareManifest confirmed_conn = None" "co_confirmedFaceScore confirmed_conn = Some (9/10)"
  "co_currentPhase confirmed_conn = Some ''liveness_complete''"
  "co_transfer confirmed_conn = read_transfer\<lparr>ts_received := 96, ts_video := Some [1]\<rparr>"
  "co_session confirmed_conn = co_session greeted_conn" "co_shareFields confirmed_conn = the sample_contract"
  by (simp_all add: confirmed_conn_def filmed_conn_def capturing_conn_def checked_conn_def reading_conn_def)

lemma sample_success:
  "\<exists>e. e \<in> set (db_events (nt_db (run_net sample_run))) \<and> er_type e = Ev_session_succeeded \<and> er_trigger e = ''s''"
proof -
  let ?ms = "sample_opening @ sample_checks"
  let ?db = "nt_db (run_net ?ms)"
  obtain r where s: "nt_conns (run_net ?ms) ''c'' = Some confirmed_conn" "jm_get (db_sessions ?db) ''s'' = Some r"
    and a: "owned_active (co_session greeted_conn) r"
    using stage_confirmed by (auto simp: stage_def owned_active_def)
  obtain cl m where m: "validateAndBuildShareManifest (en_hmac sample_env) 1 genuine_dg1 (date_of sample_time) ''o''
      (sp_selectedFieldKeys sample_selection) ''s'' (sp_sessionId sample_selection) (Some (the sample_contract)) = Inr (Inr (m, cl))"
    using genuine_claims sample_manifest unfolding sample_date by blast
  obtain db1 s1 where w: "markSessionSucceeded (en_deliveries sample_env) sample_time ''e'' ?db (co_session greeted_conn)
      (sm_selectedFieldKeys m) (Inl (Some (9/10))) = (db1, s1, Some ''e'', en_deliveries sample_env (last (db_webhooks db1)))"
    and e: "\<lparr>er_id = ''e'', er_org = ''o'', er_type = Ev_session_succeeded, er_trigger = ''s''\<rparr> \<in> set (db_events db1)"
    using s(2) a by (auto simp: markSessionSucceeded_def update_session_def Let_def insert_event_def record_audit_def call_webhook_def)
  obtain c2 outs where "handleDecodedMessage sample_env sample_time ''e'' confirmed_conn ?db
      (empty_message\<lparr>cm_share := Some sample_selection\<rparr>) = (c2, db1, outs, False)"
    using m w by (simp add: handleDecodedMessage_def empty_message_def handleShareSelectionMessage_def Let_def truthy_def)
  then have "nt_db (run_net sample_run) = db1"
    using s(1) run_net_simps(2) [of ?ms]
    by (simp add: sample_run_def say_def now_do_def receive_frame_def MAX_FRAME_BYTES_def flip: append_assoc)
  with e show ?thesis by (intro exI conjI) (auto simp: )
qed

end
