(* ===== verification/Socket_Guarantees.thy ===== *)
theory Socket_Guarantees
  imports Socket_Samples
begin

text \<open>
  What a single connection guarantees, and where the handlers fall short of it.
\<close>

section \<open>Where a success comes from\<close>

text \<open>
  C1. No success without the checks. Whatever happens in the service, over however many
  connections, reconnections and retries: every recorded success of a session comes from a share
  selection on a connection of that session holding a confirmed face score; that connection ran,
  earlier, a liveness check on its own video, portrait, nonce and threshold whose verdict gave
  that very score; and before it, on some connection of the session, a transfer passed the whole
  document check.
\<close>

theorem success_rests_on_checks:
  assumes "e \<in> set (db_events (nt_db (run_net ms)))" and "er_type e = Ev_session_succeeded"
  shows "happened (share_accepted (er_trigger e)) ms"
  using run_traced [of ms] assms by (simp add: traced_def wins_def)

lemma success_rests_on_checks_witness: "happened (share_accepted ''s'') sample_run"
proof -
  obtain e where "e \<in> set (db_events (nt_db (run_net sample_run)))" "er_type e = Ev_session_succeeded" "er_trigger e = ''s''"
    using sample_success by blast
  from success_rests_on_checks [OF this(1,2)] this(3) show ?thesis by simp
qed

section \<open>The document check\<close>



section \<open>The document that is shared\<close>

lemma late_after_reading: "late p \<Longrightarrow> isPhaseAtOrAfter p ''nfc_reading''"
  by (auto simp: late_def isPhaseAtOrAfter_def truthy_def isTrackedSessionPhase_def phase_number_def PHASE_INDEX_def)

text \<open>
  C6. The document that is shared need not be the document that was checked. On a connection that
  has passed every check and been asked for its selection, a frame with another data group 1 is
  stored like any other; the selection that follows builds the manifest from it, records the
  session's success and delivers the claims, although no passive authentication would accept that
  data group with any other artifacts.
\<close>

theorem replaced_document_is_shared:
  assumes "co_helloReceived c" and "truthy (co_sessionId c)" and "co_shareRequestSent c"
    and "co_shareManifest c = None" and "co_confirmedFaceScore c = Some score"
    and "ts_dg2 (co_transfer c) \<noteq> None" and "late (co_currentPhase c)"
    and "has_room (co_transfer c) DG1_KIND forged"
    and "validateAndBuildShareManifest (en_hmac env) (sc_contractVersion (co_session c)) forged (date_of now)
      (sc_org (co_session c)) (sp_selectedFieldKeys payload) (sc_id (co_session c)) (sp_sessionId payload)
      (Some (co_shareFields c)) = Inr (Inr (m, claims))"
    and "jm_get (db_sessions db) (sc_id (co_session c)) = Some r" and "owned_active (co_session c) r"
    and "\<forall>dg2 dg14 dg15 sod. en_authenticity env forged dg2 dg14 dg15 sod = None"
  shows "\<exists>c2 db2.
    handleShareSelectionMessage env now i
      (fst (handleDataMessage env c (whole_artifact DG1_KIND forged))) db payload =
      (c2, db2, [Out_manifest_webhook i m (sc_org (co_session c)),
                 Out_share_ready (sm_sessionId m) (sm_selectedFieldKeys m)], False) \<and>
    map_option vs_status (jm_get (db_sessions db2) (sc_id (co_session c))) = Some St_succeeded"
proof -
  let ?c1 = "fst (handleDataMessage env c (whole_artifact DG1_KIND forged))"
  have "length forged \<le> MAX_KIND_BYTES"
    using assms(8) by (simp add: has_room_def MAX_FRAME_BYTES_def MAX_KIND_BYTES_def)
  then have c1: "?c1 = c\<lparr>co_transfer := (co_transfer c)\<lparr>
      ts_received := ts_received (co_transfer c) + length forged, ts_dg1 := Some forged\<rparr>\<rparr>"
    using whole_artifact_frame [of DG1_KIND c forged env] assms(7,8) late_after_reading
    by (simp add: storeData_def isLivenessVideoDataKind_def kind_defs)
  obtain dg2 where "ts_dg2 (co_transfer c) = Some dg2" using assms(6) by auto
  then show ?thesis
    using assms(1-5,9-11)
    by (auto simp: c1 handleShareSelectionMessage_def markSessionSucceeded_def update_session_def Let_def jsmap_simps)
qed

lemma replaced_document_is_shared_witness:
  "\<exists>c2 db2 m. handleShareSelectionMessage sample_env sample_time ''e''
      (fst (handleDataMessage sample_env confirmed_conn (whole_artifact DG1_KIND forged_dg1)))
      (nt_db (run_net (sample_opening @ sample_checks))) sample_selection =
      (c2, db2, [Out_manifest_webhook ''e'' m ''o'', Out_share_ready (sm_sessionId m) (sm_selectedFieldKeys m)], False) \<and>
    (''family_name'', Claim_text ''MUSTERMANN'') \<in> set (sm_claims m)"
proof -
  obtain r where r: "jm_get (db_sessions (nt_db (run_net (sample_opening @ sample_checks)))) ''s'' = Some r"
    "owned_active (co_session confirmed_conn) r"
    using stage_confirmed by (auto simp: stage_def owned_active_def)
  obtain cl m where m: "validateAndBuildShareManifest (en_hmac sample_env) 1 forged_dg1 (date_of sample_time) ''o''
      (sp_selectedFieldKeys sample_selection) ''s'' (sp_sessionId sample_selection) (Some (the sample_contract)) = Inr (Inr (m, cl))"
    "(''family_name'', Claim_text ''MUSTERMANN'') \<in> set (sm_claims m)"
    using forged_claims sample_manifest unfolding sample_date by metis
  have "\<forall>dg2 dg14 dg15 sod. en_authenticity sample_env forged_dg1 dg2 dg14 dg15 sod = None"
    using forged_not_genuine by (simp add: sample_env_def)
  with replaced_document_is_shared [of confirmed_conn "9/10" forged_dg1 sample_env sample_time sample_selection m cl
      "nt_db (run_net (sample_opening @ sample_checks))" r "''e''"] r m
  show ?thesis
    by (auto simp: truthy_def has_room_def length_forged MAX_FRAME_BYTES_def MAX_TOTAL_TRANSFER_BYTES_def)
qed

section \<open>Connections\<close>

text \<open>
  C4. Whatever the service receives, every connection stays sound: it belongs to the owner it was
  opened for and is bound to no session but its own, after a hello; it asks for a selection only
  with a confirmed face comparison, so the handler of the selection never finds the score missing;
  it holds a manifest only for its session and only after asking; and its transfer keeps the
  bounds on stored and pending data.
\<close>

theorem connections_stay_sound:
  assumes "nt_conns (run_net ms) owner = Some c"
  shows "co_owner c = owner \<and>
    (co_sessionId c = None \<or> co_sessionId c = Some (sc_id (co_session c)) \<and> co_helloReceived c) \<and>
    (co_shareRequestSent c \<longrightarrow> co_sessionId c \<noteq> None \<and> co_confirmedFaceScore c \<noteq> None) \<and>
    (\<forall>m. co_shareManifest c = Some m \<longrightarrow> co_shareRequestSent c \<and> sm_sessionId m = sc_id (co_session c)) \<and>
    transfer_inv (co_transfer c)"
proof -
  from run_net_ok [of ms] assms have "conn_ok c" "co_owner c = owner" by (auto simp: net_ok_def)
  then show ?thesis by (cases "co_sessionId c") (auto simp: conn_ok_def)
qed

lemma connections_stay_sound_witness:
  "transfer_inv (read_transfer\<lparr>ts_received := 96, ts_video := Some [1]\<rparr>)"
proof -
  have "nt_conns (run_net (sample_opening @ sample_checks)) ''c'' = Some confirmed_conn"
    using stage_confirmed by (auto simp: stage_def)
  from connections_stay_sound [OF this] show ?thesis by simp
qed

text \<open>
  Before its hello is accepted a connection can do nothing: a frame of any other kind, however
  large or malformed, leaves the connection and the database as they are and is answered with an
  error.
\<close>

theorem inert_before_hello:
  assumes "\<not> co_helloReceived c" and "\<And>size message. frame = Frame_binary size (Some message) \<Longrightarrow> cm_hello message = None"
  shows "\<exists>outs code message rest. receive_frame env now i c db frame = (c, db, outs) \<and> outs = Out_error code message # rest"
  using assms
  by (cases frame) (auto simp: receive_frame_def handleDecodedMessage_def split: option.split)

lemma inert_before_hello_witness:
  "\<exists>outs code message rest.
     receive_frame sample_env sample_time ''e'' opened_conn empty_db
       (Frame_binary 100 (Some (empty_message\<lparr>cm_data := Some (whole_artifact DG1_KIND [1])\<rparr>))) =
       (opened_conn, empty_db, outs) \<and> outs = Out_error code message # rest"
  by (rule inert_before_hello) (auto simp: opened_conn_def createVerifySocketState_def empty_message_def)

definition hello_succeeds :: "env \<Rightarrow> int \<Rightarrow> conn \<Rightarrow> db \<Rightarrow> hello_payload \<Rightarrow> bool" where
  "hello_succeeds env now c db payload \<longleftrightarrow>
     (\<exists>parsed row auth key db1.
        check_hello env now c db payload = Inr (parsed, row, auth, key) \<and>
        claimSessionConnection now db (sc_id (co_session c)) (co_owner c) (auth = Hello_resume) = (db1, Inr ()) \<and>
        (\<forall>dev. auth = Hello_consume dev \<longrightarrow> \<not> en_firstHelloFails env \<and>
           snd (persistFirstHelloState now db1 (sc_id (co_session c)) dev (ph_appVersion parsed) key)))"


section \<open>After a failed check\<close>

text \<open>Announcing a check whose verdict is negative, at the attempt's own phase.\<close>

definition check_fails :: "env \<Rightarrow> int \<Rightarrow> string \<Rightarrow> conn \<Rightarrow> db \<Rightarrow> string \<Rightarrow> bool" where
  "check_fails env now evtId c db phase \<longleftrightarrow>
     (phase = ''nfc_complete'' \<and> co_currentPhase c = Some ''nfc_reading'' \<or>
      phase = ''liveness_complete'' \<and> co_currentPhase c = Some ''liveness_capturing'') \<and>
     truthy (co_sessionId c) \<and> buildMissingDataMessage (co_transfer c) phase = None \<and>
     (\<exists>c' db' outs k.
        phase_checks env now evtId c db (the (co_sessionId c)) phase = ((c', db', outs, Some k), False) \<and> \<not> km_confirmed k)"

lemma attempt_phases:
  assumes "phase = ''nfc_complete'' \<and> cur = ''nfc_reading'' \<or> phase = ''liveness_complete'' \<and> cur = ''liveness_capturing''"
  shows "validateTrackedPhaseTransition (Some cur) phase None = Inr (phase, True)"
    "validateTrackedPhaseTransition (Some cur) cur None = Inr (cur, False)"
    "isTrackedSessionPhase phase" "isTrackedSessionPhase cur" "js_trim phase = phase" "js_trim cur = cur"
  using assms
  by (auto simp: validateTrackedPhaseTransition_def isTrackedSessionPhase_def phase_tables truthy_def phase_number_def
      js_trim_def is_js_space_def Let_def)

text \<open>
  A failed check leaves the connection as it was: the phase does not advance, every artifact
  of the failed attempt stays in the transfer, and so do a score confirmed earlier and the leave
  to select that went with it. The announcement of the next attempt is then no change of phase:
  it is acknowledged and resets nothing, so the artifacts of the attempts mix (the comment in
  \<open>socket-phase.ts\<close> says a rewind drops them), and no new challenge is sent for the next video.
\<close>

theorem failed_check_resets_nothing:
  assumes "check_fails env now i c db phase" and "co_currentPhase c = Some cur"
  shows "\<exists>c' db' outs.
    handlePhaseMessage env now i c db \<lparr>pp_phase = Some phase, pp_attestAssertion = None\<rparr> = (c', db', outs, False) \<and>
    co_transfer c' = co_transfer c \<and> co_currentPhase c' = co_currentPhase c \<and>
    co_confirmedFaceScore c' = co_confirmedFaceScore c \<and> co_shareRequestSent c' = co_shareRequestSent c \<and>
    co_nonce c' = co_nonce c \<and>
    handlePhaseMessage env now i c' db' \<lparr>pp_phase = Some cur, pp_attestAssertion = None\<rparr> =
      (c', db', [Out_ack ''phase_ok''], False)"
proof -
  from assms obtain c1 db1 o1 k where
    p: "phase = ''nfc_complete'' \<and> cur = ''nfc_reading'' \<or> phase = ''liveness_complete'' \<and> cur = ''liveness_capturing''"
    and s: "truthy (co_sessionId c)" and m: "buildMissingDataMessage (co_transfer c) phase = None"
    and ch: "phase_checks env now i c db (the (co_sessionId c)) phase = ((c1, db1, o1, Some k), False)" "\<not> km_confirmed k"
    by (auto simp: check_fails_def)
  note ph = attempt_phases [OF p]
  have "check_ok c db (c1, db1, o1, Some k)"
    using ch by (cases rule: phase_checks_cases) (auto simp: confirmedCheckResult_def)
  then have l: "same_link c c1" by simp
  have first: "handlePhaseMessage env now i c db \<lparr>pp_phase = Some phase, pp_attestAssertion = None\<rparr> = (c1, db1, o1, False)"
    using s m ph assms(2) ch
    by (simp add: handlePhaseMessage_def trim_or_empty_def keep_assertion_def phase_rest_def stops_phase_def Let_def)
  have n: "cur \<noteq> ''nfc_complete''" "cur \<noteq> ''liveness_complete''" using p by auto
  then have m2: "buildMissingDataMessage t cur = None" for t by (simp add: buildMissingDataMessage_def)
  have "handlePhaseMessage env now i c1 db1 \<lparr>pp_phase = Some cur, pp_attestAssertion = None\<rparr> =
      (c1, db1, [Out_ack ''phase_ok''], False)"
    using s ph n m2 assms(2) same_link_fields [OF l]
    by (simp add: handlePhaseMessage_def trim_or_empty_def keep_assertion_def phase_rest_def phase_checks_def
        stops_phase_def finish_phase_def Let_def)
  with first same_link_fields [OF l] show ?thesis by auto
qed

text \<open>The sample run with a service that finds no live person.\<close>

definition spoofed_env :: env where
  "spoofed_env = sample_env\<lparr>en_liveness := (\<lambda>_ _ _ _. \<lparr>lr_livenessPassed = False, lr_padPassed = True,
     lr_faceMatchPassed = True, lr_usedFallback = False, lr_faceMatchScore = Some 1\<rparr>)\<rparr>"

lemma failed_check_resets_nothing_witness:
  "\<exists>c' db' outs.
     handlePhaseMessage spoofed_env sample_time ''e'' filmed_conn empty_db
       \<lparr>pp_phase = Some ''liveness_complete'', pp_attestAssertion = None\<rparr> = (c', db', outs, False) \<and>
     ts_video (co_transfer c') = Some [1] \<and> co_currentPhase c' = Some ''liveness_capturing''"
proof -
  obtain t where t: "resolve_threshold filmed_conn (date_of sample_time) = Some t"
    using sample_threshold by (auto simp: resolve_threshold_def sample_date)
  obtain c' db' outs k where f: "fail_check spoofed_env sample_time ''e'' filmed_conn empty_db liveness_failed 1 = (c', db', outs, Some k)"
    "\<not> km_confirmed k"
    using fail_check_Some by blast
  have "check_fails spoofed_env sample_time ''e'' filmed_conn empty_db ''liveness_complete''"
    using f by (simp add: check_fails_def truthy_def buildMissingDataMessage_def getNfcTransferStatus_def
        getMissingNfcArtifacts_def getLivenessTransferStatus_def getMissingTransferChunks_def Let_def phase_checks_def
        runPhaseValidation_def runLivenessPhaseValidation_def t resolveLivenessCheckResult_def)
      (simp add: spoofed_env_def)
  from failed_check_resets_nothing [OF this] show ?thesis by fastforce
qed

text \<open>
  C7. A document whose data cannot be read strands its connection. When data group 1 does not
  parse at the end of the liveness check, the failure rewinds the session's row to
  \<open>mrz_scanning\<close> and tells the device that a retry is allowed, but the connection stays at
  \<open>liveness_capturing\<close>, so the announcement of \<open>mrz_scanning\<close> is refused as out of order.
\<close>

theorem unreadable_document_strands:
  assumes "co_currentPhase c = Some ''liveness_capturing''" and "co_sessionId c = Some (sc_id (co_session c))"
    and "sc_id (co_session c) \<noteq> []" and "buildMissingDataMessage (co_transfer c) ''liveness_complete'' = None"
    and "ts_dg1 (co_transfer c) = Some dg1" and "resolveFaceMatchThresholdFromDg1 dg1 (date_of now) = Inl e"
    and "jm_get (db_sessions db) (sc_id (co_session c)) = Some r"
  shows "\<exists>c' db' k.
    handlePhaseMessage env now i c db \<lparr>pp_phase = Some ''liveness_complete'', pp_attestAssertion = None\<rparr> =
      (c', db', [Out_check_result k], False) \<and>
    km_reason k = Some document_data_invalid \<and> km_retryAllowed k \<and>
    map_option vs_currentPhase (jm_get (db_sessions db') (sc_id (co_session c))) = Some (Some ''mrz_scanning'') \<and>
    handlePhaseMessage env now i c' db' \<lparr>pp_phase = Some ''mrz_scanning'', pp_attestAssertion = None\<rparr> =
      (c', db', [send_code env PHASE_OUT_OF_ORDER], False)"
proof -
  let ?sid = "sc_id (co_session c)"
  note ph = attempt_phases [of "''liveness_complete''" "''liveness_capturing''", simplified]
  have art: "ts_dg2 (co_transfer c) \<noteq> None" "ts_video (co_transfer c) \<noteq> None"
    using assms(4) by (auto simp: buildMissingDataMessage_def getNfcTransferStatus_def getMissingNfcArtifacts_def
        getLivenessTransferStatus_def Let_def split: if_splits)
  obtain c1 db1 k where f: "fail_check env now i c db document_data_invalid 1 = (c1, db1, [Out_check_result k], Some k)"
    and k: "km_reason k = Some document_data_invalid" "km_retryAllowed k" "\<not> km_confirmed k"
    and row: "map_option vs_currentPhase (jm_get (db_sessions db1) ?sid) = Some (Some ''mrz_scanning'')"
    and l: "same_link c c1"
    using assms(7)
    by (auto simp: fail_check_def completeCheckWithNegativeSignal_def markCheckFailed_def isHardKillCode_def
        failedCheckForCode_def rewindUnlimitedMrzFailure_def update_session_def check_result_def Let_def
        sendCheckResultAndMaybeClose_def jsmap_simps same_link_def)
  have "runLivenessPhaseValidation env now i c db = (fail_check env now i c db document_data_invalid 1, False)"
    using art assms(5,6) by (auto simp: runLivenessPhaseValidation_def resolve_threshold_def split: option.splits)
  then have ch: "phase_checks env now i c db ?sid ''liveness_complete'' = ((c1, db1, [Out_check_result k], Some k), False)"
    by (simp add: phase_checks_def runPhaseValidation_def f)
  have first: "handlePhaseMessage env now i c db \<lparr>pp_phase = Some ''liveness_complete'', pp_attestAssertion = None\<rparr> =
      (c1, db1, [Out_check_result k], False)"
    using assms(1-4) ph ch k
    by (simp add: handlePhaseMessage_def trim_or_empty_def keep_assertion_def truthy_def phase_rest_def stops_phase_def Let_def)
  have v: "validateTrackedPhaseTransition (Some ''liveness_capturing'') ''mrz_scanning'' None = Inl PHASE_OUT_OF_ORDER"
    "isTrackedSessionPhase ''mrz_scanning''" "js_trim ''mrz_scanning'' = ''mrz_scanning''"
    by (auto simp: validateTrackedPhaseTransition_def isTrackedSessionPhase_def phase_tables truthy_def
        phase_number_def js_trim_def is_js_space_def Let_def)
  have "handlePhaseMessage env now i c1 db1 \<lparr>pp_phase = Some ''mrz_scanning'', pp_attestAssertion = None\<rparr> =
      (c1, db1, [send_code env PHASE_OUT_OF_ORDER], False)"
    using assms(1-3) v same_link_fields [OF l]
    by (simp add: handlePhaseMessage_def trim_or_empty_def keep_assertion_def truthy_def buildMissingDataMessage_def Let_def)
  with first k row show ?thesis by blast
qed

definition unreadable_conn :: conn where
  "unreadable_conn = filmed_conn\<lparr>co_transfer := (co_transfer filmed_conn)\<lparr>ts_dg1 := Some []\<rparr>\<rparr>"

lemma unreadable_document_strands_witness:
  "\<exists>c' db' k.
    handlePhaseMessage sample_env sample_time ''e'' unreadable_conn (nt_db (run_net sample_opening))
      \<lparr>pp_phase = Some ''liveness_complete'', pp_attestAssertion = None\<rparr> = (c', db', [Out_check_result k], False) \<and>
    km_retryAllowed k \<and>
    handlePhaseMessage sample_env sample_time ''e'' c' db' \<lparr>pp_phase = Some ''mrz_scanning'', pp_attestAssertion = None\<rparr> =
      (c', db', [send_code sample_env PHASE_OUT_OF_ORDER], False)"
proof -
  obtain r where r: "jm_get (db_sessions (nt_db (run_net sample_opening))) ''s'' = Some r"
    using stage_greeted by (auto simp: stage_def)
  have "\<exists>e. resolveFaceMatchThresholdFromDg1 [] (date_of sample_time) = Inl e"
  proof -
    have "case resolveFaceMatchThresholdFromDg1 [] sample_now of Inl _ \<Rightarrow> True | Inr _ \<Rightarrow> False" by code_simp
    then show ?thesis by (auto simp: sample_date split: sum.splits)
  qed
  then obtain e where e: "resolveFaceMatchThresholdFromDg1 [] (date_of sample_time) = Inl e" by blast
  have c: "co_currentPhase unreadable_conn = Some ''liveness_capturing''" "co_sessionId unreadable_conn = Some ''s''"
    "co_session unreadable_conn = co_session greeted_conn" "ts_dg1 (co_transfer unreadable_conn) = Some []"
    by (simp_all add: unreadable_conn_def)
  have m: "buildMissingDataMessage (co_transfer unreadable_conn) ''liveness_complete'' = None"
    by (simp add: unreadable_conn_def buildMissingDataMessage_def getNfcTransferStatus_def getMissingNfcArtifacts_def
        getLivenessTransferStatus_def getMissingTransferChunks_def Let_def)
  show ?thesis
    using unreadable_document_strands [OF c(1) _ _ m c(4) e, of "nt_db (run_net sample_opening)" r] c r by fastforce
qed

end
