(* ===== verification/Crypto_Bytes.thy ===== *)
theory Crypto_Bytes
  imports Js_Text Tlv
begin

unbundle bit_operations_syntax

text \<open>
  What the verifiers of a document share (\<open>sod-asn1-utils.ts\<close>, \<open>active-auth-hash.ts\<close>, the number
  helpers of \<open>active-auth-rsa.ts\<close> and \<open>chip-auth-transcript.ts\<close>): byte strings as numbers, modular
  powers, the tree an ASN.1 decoder returns, and the primitives of the platform and of the ASN.1
  libraries as a record of functions. Nothing is assumed of those functions here.
\<close>

section \<open>Text\<close>

text \<open>A string that comes from outside is the list of its code points; a literal is ASCII.\<close>

type_synonym text_points = "nat list"

definition code_points :: "string \<Rightarrow> text_points" where
  "code_points s = map of_char s"

lemma code_points_inj [simp]: "code_points s = code_points t \<longleftrightarrow> s = t"
  by (auto simp: code_points_def inj_map_eq_map inj_on_def intro!: injI)

lemma code_points_Nil [simp]: "code_points s = [] \<longleftrightarrow> s = []"
  by (simp add: code_points_def)

section \<open>Decoded ASN.1\<close>

text \<open>
  The nodes the code distinguishes with \<open>instanceof\<close>: an integer by its content bytes, an object
  identifier by its dotted text, an octet string by its content bytes or, when it is constructed,
  its parts, a sequence, a set, anything else.
\<close>

datatype asn1 =
  Asn1_Integer bytes
| Asn1_Oid string
| Asn1_Octets bytes
| Asn1_Octet_parts "asn1 list"
| Asn1_Sequence "asn1 list"
| Asn1_Set "asn1 list"
| Asn1_Other

definition sequenceChildren :: "asn1 \<Rightarrow> asn1 list" where
  "sequenceChildren node = (case node of Asn1_Sequence children \<Rightarrow> children | _ \<Rightarrow> [])"

text \<open>\<open>Inl\<close> stands for the thrown error, by its message.\<close>

fun octetStringBytes :: "asn1 \<Rightarrow> string + bytes" and octet_parts :: "asn1 list \<Rightarrow> string + bytes" where
  "octetStringBytes (Asn1_Octets bs) = Inr bs"
| "octetStringBytes (Asn1_Octet_parts parts) = octet_parts parts"
| "octetStringBytes _ = Inl ''invalid_octet_string_child''"
| "octet_parts [] = Inr []"
| "octet_parts (p # ps) = rbind (octetStringBytes p) (\<lambda>b. rbind (octet_parts ps) (\<lambda>bs. Inr (b @ bs)))"

section \<open>Primitives of the platform\<close>

datatype hash_algorithm = SHA_1 | SHA_224 | SHA_256 | SHA_384 | SHA_512

text \<open>\<open>HASH_LENGTHS\<close>\<close>

fun hash_length :: "hash_algorithm \<Rightarrow> nat" where
  "hash_length SHA_1 = 20"
| "hash_length SHA_224 = 28"
| "hash_length SHA_256 = 32"
| "hash_length SHA_384 = 48"
| "hash_length SHA_512 = 64"

definition SHA_1_OID :: string where "SHA_1_OID = ''1.3.14.3.2.26''"
definition SHA_256_OID :: string where "SHA_256_OID = ''2.16.840.1.101.3.4.2.1''"
definition SHA_384_OID :: string where "SHA_384_OID = ''2.16.840.1.101.3.4.2.2''"
definition SHA_512_OID :: string where "SHA_512_OID = ''2.16.840.1.101.3.4.2.3''"
definition ECDSA_PUBLIC_KEY_OID :: string where "ECDSA_PUBLIC_KEY_OID = ''1.2.840.10045.2.1''"
definition RSA_ENCRYPTION_OID :: string where "RSA_ENCRYPTION_OID = ''1.2.840.113549.1.1.1''"

definition subtleAlgorithmFromOid :: "string \<Rightarrow> hash_algorithm option" where
  "subtleAlgorithmFromOid oid =
     (if oid = SHA_1_OID then Some SHA_1
      else if oid = SHA_256_OID then Some SHA_256
      else if oid = SHA_384_OID then Some SHA_384
      else if oid = SHA_512_OID then Some SHA_512
      else None)"

text \<open>
  A subject public key info as the PKI library reads it: the identifier of the algorithm (\<open>None\<close>
  when it is not a string), the identifier in its parameters when these are one, the key's bytes.
\<close>

record public_key_info =
  pk_algorithmId :: "string option"
  pk_paramsOid :: "string option"
  pk_subjectPublicKey :: bytes

text \<open>
  \<open>pf_digest\<close> is \<open>crypto.subtle.digest\<close>, which rejects a hash the platform does not offer;
  \<open>pf_aes_cbc key iv block\<close> the ciphertext of an AES-CBC encryption; \<open>pf_ecdh curve d (x, y) (x', y')
  bits\<close> the import of a private and a public key in JWK form and the derivation of the shared bits;
  \<open>pf_ecdsa_key\<close> and \<open>pf_ecdsa_verify\<close> the import of a public key and a verification with it;
  \<open>pf_ber\<close> the decoder of ASN.1, \<open>None\<close> when it fails, \<open>pf_toBer\<close> and \<open>pf_oid_ber\<close> its encoder of
  a node and of an identifier; \<open>pf_public_key_info\<close> the reader of a key info; \<open>pf_decode_error\<close> and
  \<open>pf_division_error\<close> the messages with which the fatal text decoder and a division by zero throw.
\<close>

record platform =
  pf_digest :: "hash_algorithm \<Rightarrow> bytes \<Rightarrow> string + bytes"
  pf_aes_cbc :: "bytes \<Rightarrow> bytes \<Rightarrow> bytes \<Rightarrow> bytes"
  pf_ecdh :: "string \<Rightarrow> string \<Rightarrow> string \<times> string \<Rightarrow> string \<times> string \<Rightarrow> nat \<Rightarrow> string + bytes"
  pf_ecdsa_key :: "bytes \<Rightarrow> string \<Rightarrow> bytes option"
  pf_ecdsa_verify :: "hash_algorithm \<Rightarrow> bytes \<Rightarrow> bytes \<Rightarrow> bytes \<Rightarrow> string + bool"
  pf_ber :: "bytes \<Rightarrow> asn1 option"
  pf_toBer :: "asn1 \<Rightarrow> bytes"
  pf_oid_ber :: "string \<Rightarrow> bytes"
  pf_public_key_info :: "asn1 \<Rightarrow> public_key_info option"
  pf_decode_error :: string
  pf_division_error :: string

definition parseBer :: "platform \<Rightarrow> bytes \<Rightarrow> string \<Rightarrow> string + asn1" where
  "parseBer pf bs errorCode = (case pf_ber pf bs of None \<Rightarrow> Inl errorCode | Some node \<Rightarrow> Inr node)"

section \<open>Byte strings\<close>

text \<open>\<open>exactBytes\<close> and \<open>bufferBytes\<close> copy and are the identity here. \<open>bytesEqual\<close> is a loop.\<close>

fun bytes_loop :: "bytes \<Rightarrow> bytes \<Rightarrow> bool" where
  "bytes_loop (a # as) (b # bs) = (if a \<noteq> b then False else bytes_loop as bs)"
| "bytes_loop _ _ = True"

definition bytesEqual :: "bytes \<Rightarrow> bytes \<Rightarrow> bool" where
  "bytesEqual left right = (if length left \<noteq> length right then False else bytes_loop left right)"

lemma bytesEqual_iff [simp]: "bytesEqual left right \<longleftrightarrow> left = right"
proof -
  have "bytes_loop left right \<longleftrightarrow> left = right" if "length left = length right"
    using that by (induction left right rule: list_induct2) auto
  then show ?thesis by (auto simp: bytesEqual_def)
qed

text \<open>The comparison with a hash of the security object, when the caller passes one.\<close>

definition sod_hash_matches :: "platform \<Rightarrow> hash_algorithm option \<Rightarrow> bytes option \<Rightarrow> bytes \<Rightarrow> string + bool" where
  "sod_hash_matches pf sodAlgorithm sodHash bs =
     (case (sodAlgorithm, sodHash) of
        (Some h, Some expected) \<Rightarrow> rbind (pf_digest pf h bs) (\<lambda>d. Inr (bytesEqual d expected))
      | _ \<Rightarrow> Inr True)"

text \<open>\<open>(result << 8n) | BigInt(byte)\<close>, over all bytes: the big-endian value.\<close>

definition bytesToBigInt :: "bytes \<Rightarrow> nat" where
  "bytesToBigInt bs = foldl (\<lambda>result b. push_bit 8 result OR unat b) 0 bs"

lemma push_or_byte: "push_bit 8 n OR unat (b :: byte) = n * 256 + unat b"
proof -
  have "push_bit 8 n AND unat b = 0"
  proof (rule bit_eqI)
    fix i
    have "\<not> bit (unat b) i" if "8 \<le> i"
      using that bit_imp_le_length [of b i] by (auto simp: bit_unsigned_iff)
    then show "bit (push_bit 8 n AND unat b) i \<longleftrightarrow> bit (0 :: nat) i"
      by (auto simp: bit_and_iff bit_push_bit_iff)
  qed
  then show ?thesis by (simp flip: disjunctive_add_eq_or) (simp add: push_bit_eq_mult)
qed

lemma bytesToBigInt_be_nat: "bytesToBigInt bs = be_nat bs"
  by (simp add: bytesToBigInt_def be_nat_def push_or_byte)

text \<open>\<open>bigIntToBytes\<close>: the bytes from the last to the first, of a fixed length.\<close>

fun bigIntToBytes :: "nat \<Rightarrow> nat \<Rightarrow> bytes" where
  "bigIntToBytes remaining 0 = []"
| "bigIntToBytes remaining (Suc n) = bigIntToBytes (drop_bit 8 remaining) n @ [of_nat (remaining AND 255)]"

lemma and_255: "(n :: nat) AND 255 = n mod 256"
proof -
  have "n AND mask 8 = n mod 2 ^ 8" by (rule take_bit_eq_mask [symmetric, THEN trans]) (simp add: take_bit_eq_mod)
  then show ?thesis by (simp add: mask_eq_exp_minus_1)
qed

lemma length_bigIntToBytes [simp]: "length (bigIntToBytes v n) = n"
  by (induction v n rule: bigIntToBytes.induct) auto

lemma unat_of_nat_byte [simp]: "unat (of_nat n :: byte) = n mod 256"
  by (simp add: unat_of_nat)

lemma be_nat_bigIntToBytes: "be_nat (bigIntToBytes v n) = v mod 256 ^ n"
proof (induction v n rule: bigIntToBytes.induct)
  case (1 v)
  then show ?case by simp
next
  case (2 v n)
  have "v mod 256 ^ Suc n = (v div 256 mod 256 ^ n) * 256 + v mod 256"
    by (simp add: mod_mult2_eq)
  with 2 show ?case by (simp add: be_nat_snoc and_255 drop_bit_eq_div)
qed

lemma be_nat_inj: "be_nat as = be_nat bs \<Longrightarrow> length as = length bs \<Longrightarrow> as = bs"
proof (induction as arbitrary: bs rule: rev_induct)
  case Nil
  then show ?case by simp
next
  case (snoc a as)
  then obtain bs' b where bs: "bs = bs' @ [b]" by (metis append_Nil2 length_0_conv rev_exhaust snoc_eq_iff_butlast)
  from snoc.prems bs have eq: "be_nat as * 256 + unat a = be_nat bs' * 256 + unat b"
    by (simp add: be_nat_snoc)
  then have "(be_nat as * 256 + unat a) mod 256 = (be_nat bs' * 256 + unat b) mod 256" by simp
  then have "unat a = unat b" by simp
  with eq have "be_nat as = be_nat bs'" "a = b" by (auto simp: word_unat_eq_iff)
  with snoc bs show ?case by simp
qed

lemma bigIntToBytes_be_nat: "bigIntToBytes (be_nat bs) (length bs) = bs"
  by (rule be_nat_inj) (simp_all add: be_nat_bigIntToBytes be_nat_bound)

text \<open>\<open>trimLeadingZero\<close>: leading zeros dropped, the last byte kept.\<close>

fun trimLeadingZero :: "bytes \<Rightarrow> bytes" where
  "trimLeadingZero (b # c # bs) = (if b = 0 then trimLeadingZero (c # bs) else b # c # bs)"
| "trimLeadingZero bs = bs"

lemma be_nat_trim [simp]: "be_nat (trimLeadingZero bs) = be_nat bs"
  by (induction bs rule: trimLeadingZero.induct) (auto simp: be_nat_Cons)

lemma trim_nonzero: "b \<noteq> 0 \<Longrightarrow> trimLeadingZero (b # bs) = b # bs"
  by (cases bs) simp_all

lemma be_nat_less:
  assumes "unat a < unat b" and "length as = length bs"
  shows "be_nat (a # as) < be_nat (b # bs)"
proof -
  have "be_nat (a # as) < (unat a + 1) * 256 ^ length as"
    using be_nat_bound [of as] by (simp add: be_nat_Cons)
  also have "\<dots> \<le> unat b * 256 ^ length bs" using assms by (intro mult_le_mono) auto
  also have "\<dots> \<le> be_nat (b # bs)" by (simp add: be_nat_Cons)
  finally show ?thesis .
qed

lemma length_trim: "length (trimLeadingZero bs) \<le> length bs"
  by (induction bs rule: trimLeadingZero.induct) auto

section \<open>Modular powers\<close>

text \<open>
  The loop of \<open>modPow\<close>, on the exponent that is left. A zero modulus divides by zero, which throws.
\<close>

function modPow_loop :: "nat \<Rightarrow> nat \<Rightarrow> nat \<Rightarrow> nat \<Rightarrow> nat" where
  "modPow_loop result normalized e modulus =
     (if 0 < e then
        modPow_loop (if odd e then (result * normalized) mod modulus else result)
          ((normalized * normalized) mod modulus) (drop_bit 1 e) modulus
      else result)"
  by pat_completeness auto
termination
  by (relation "measure (\<lambda>(result, normalized, e, modulus). e)") (auto simp: drop_bit_eq_div)

declare modPow_loop.simps [simp del]

definition modPow :: "nat \<Rightarrow> nat \<Rightarrow> nat \<Rightarrow> nat option" where
  "modPow b e modulus = (if modulus = 0 then None else Some (modPow_loop 1 (b mod modulus) e modulus))"

lemma modPow_loop_mod: "modPow_loop r b e m mod m = r * b ^ e mod m"
proof (induction r b e m rule: modPow_loop.induct)
  case (1 r b e m)
  show ?case
  proof (cases "e = 0")
    case True
    then show ?thesis by (simp add: modPow_loop.simps [of _ _ 0])
  next
    case False
    let ?r = "if odd e then (r * b) mod m else r"
    have step: "modPow_loop r b e m = modPow_loop ?r ((b * b) mod m) (e div 2) m"
      using False by (simp add: modPow_loop.simps [of r b e] drop_bit_eq_div)
    have "modPow_loop r b e m mod m = ?r * ((b * b) mod m) ^ (e div 2) mod m"
      using "1" False by (simp add: step drop_bit_eq_div)
    also have "\<dots> = ?r * (b * b) ^ (e div 2) mod m"
      by (metis mod_mult_right_eq power_mod)
    also have "\<dots> = r * b ^ e mod m"
    proof (cases "odd e")
      case True
      then have "b ^ e = b * (b * b) ^ (e div 2)"
        by (metis odd_two_times_div_two_succ power2_eq_square power_Suc power_mult Suc_eq_plus1)
      with True show ?thesis by (simp add: mod_mult_left_eq mult.assoc)
    next
      case False
      then have "b ^ e = (b * b) ^ (e div 2)"
        by (metis dvd_mult_div_cancel power2_eq_square power_mult)
      with False show ?thesis by simp
    qed
    finally show ?thesis .
  qed
qed

lemma modPow_loop_less: "r < m \<Longrightarrow> modPow_loop r b e m < m"
proof (induction r b e m rule: modPow_loop.induct)
  case (1 r b e m)
  then show ?case
    by (cases "0 < e") (auto simp: modPow_loop.simps [of r b e m] modPow_loop.simps [of r b 0 m])
qed

text \<open>For a modulus above one the loop computes the remainder of the power.\<close>

lemma modPow_power: "1 < m \<Longrightarrow> modPow b e m = Some (b ^ e mod m)"
proof -
  assume m: "1 < m"
  have "modPow_loop 1 (b mod m) e m = modPow_loop 1 (b mod m) e m mod m"
    using modPow_loop_less [OF m] by simp
  also have "\<dots> = b ^ e mod m" by (simp add: modPow_loop_mod power_mod)
  finally show ?thesis using m by (simp add: modPow_def)
qed

lemma modPow_bound: "modPow b e m = Some v \<Longrightarrow> v \<le> max 1 (m - 1)"
proof (cases "1 < m")
  case True
  assume "modPow b e m = Some v"
  with True have "v < m" by (auto simp: modPow_def dest: modPow_loop_less)
  then show ?thesis by auto
next
  case False
  assume v: "modPow b e m = Some v"
  with False have m: "m = 1" by (auto simp: modPow_def split: if_splits)
  have "modPow_loop r b' e' 1 \<le> max r 1" for r b' e'
  proof (induction r b' e' "1 :: nat" rule: modPow_loop.induct)
    case (1 r b e)
    then show ?case by (cases "0 < e") (auto simp: modPow_loop.simps [of r b e] modPow_loop.simps [of r b 0] split: if_splits)
  qed
  from this [of 1 "b mod 1" e] v m show ?thesis by (simp add: modPow_def)
qed

section \<open>A platform to instantiate hypotheses with\<close>

text \<open>Digests and ciphers that return zeros, decoders that know nothing.\<close>

definition zero_platform :: platform where
  "zero_platform = \<lparr>pf_digest = (\<lambda>h bs. Inr (replicate (hash_length h) 0)),
     pf_aes_cbc = (\<lambda>key iv block. replicate 32 0), pf_ecdh = (\<lambda>curve d p q bits. Inr []),
     pf_ecdsa_key = (\<lambda>info curve. Some info), pf_ecdsa_verify = (\<lambda>h key signature challenge. Inr False),
     pf_ber = (\<lambda>bs. None), pf_toBer = (\<lambda>node. []), pf_oid_ber = (\<lambda>oid. []),
     pf_public_key_info = (\<lambda>node. None), pf_decode_error = [], pf_division_error = []\<rparr>"

end
