(* ===== verification/Aes_Cmac.thy ===== *)
theory Aes_Cmac
  imports Crypto_Bytes
begin

text \<open>
  AES-CMAC (\<open>aes-cmac.ts\<close>) over the platform's AES-CBC encryption of one block, and its
  equivalence with the construction of NIST SP 800-38B: the doubling in the field of \<open>2 ^ 128\<close>
  elements on numbers, the padding, and the chain of block encryptions.
\<close>

section \<open>The code\<close>

definition AES_BLOCK_BYTES :: nat where "AES_BLOCK_BYTES = 16"
definition RB :: byte where "RB = 0x87"
definition ZERO_IV :: bytes where "ZERO_IV = replicate AES_BLOCK_BYTES 0"

text \<open>\<open>Inl\<close> the message of the thrown error. The padding block of the ciphertext is cut off.\<close>

definition aesEncryptBlock :: "platform \<Rightarrow> bytes \<Rightarrow> bytes \<Rightarrow> string + bytes" where
  "aesEncryptBlock pf key block =
     (if length block \<noteq> AES_BLOCK_BYTES then Inl ''aes_block_size_invalid''
      else Inr (js_slice (pf_aes_cbc pf key ZERO_IV block) 0 AES_BLOCK_BYTES))"

text \<open>The loop runs from the last byte to the first; the carry comes from the bytes behind.\<close>

fun shift_loop :: "bytes \<Rightarrow> bytes \<times> byte" where
  "shift_loop [] = ([], 0)"
| "shift_loop (v # vs) =
     (let (output, carry) = shift_loop vs
      in ((push_bit 1 v OR carry) # output, drop_bit 7 (v AND 0x80)))"

definition leftShiftOneBit :: "bytes \<Rightarrow> bytes" where
  "leftShiftOneBit input = fst (shift_loop input)"

definition byte_at :: "bytes \<Rightarrow> nat \<Rightarrow> byte" where
  "byte_at bs i = (case at_opt bs i of None \<Rightarrow> 0 | Some b \<Rightarrow> b)"

definition xorBlocks :: "bytes \<Rightarrow> bytes \<Rightarrow> bytes" where
  "xorBlocks left right = map (\<lambda>i. byte_at left i XOR byte_at right i) [0..<AES_BLOCK_BYTES]"

definition subkey :: "bytes \<Rightarrow> bytes" where
  "subkey l =
     (let k = leftShiftOneBit l
      in if byte_at l 0 AND 0x80 \<noteq> 0
         then k[AES_BLOCK_BYTES - 1 := byte_at k (AES_BLOCK_BYTES - 1) XOR RB] else k)"

definition deriveSubkeys :: "platform \<Rightarrow> bytes \<Rightarrow> string + bytes \<times> bytes" where
  "deriveSubkeys pf key =
     rbind (aesEncryptBlock pf key (replicate AES_BLOCK_BYTES 0)) (\<lambda>l.
       let k1 = subkey l; k2 = subkey k1 in Inr (k1, k2))"

definition partitionMessage :: "bytes \<Rightarrow> bytes list \<times> bytes \<times> bool" where
  "partitionMessage message =
     (if length message = 0 then ([], 0x80 # replicate (AES_BLOCK_BYTES - 1) 0, False)
      else
        let blockCount = (length message + AES_BLOCK_BYTES - 1) div AES_BLOCK_BYTES;
            lastBlockOffset = (blockCount - 1) * AES_BLOCK_BYTES;
            lastBlockLength = length message - lastBlockOffset;
            lastIsComplete = (lastBlockLength = AES_BLOCK_BYTES);
            fullBlocks = map (\<lambda>i. js_slice message (i * AES_BLOCK_BYTES) (i * AES_BLOCK_BYTES + AES_BLOCK_BYTES))
              [0..<blockCount - 1]
        in (fullBlocks,
            (if lastIsComplete then js_slice message lastBlockOffset (lastBlockOffset + AES_BLOCK_BYTES)
             else drop lastBlockOffset message @ 0x80 # replicate (AES_BLOCK_BYTES - lastBlockLength - 1) 0),
            lastIsComplete))"

fun cmac_chain :: "platform \<Rightarrow> bytes \<Rightarrow> bytes \<Rightarrow> bytes list \<Rightarrow> string + bytes" where
  "cmac_chain pf key chain [] = Inr chain"
| "cmac_chain pf key chain (block # blocks) =
     rbind (aesEncryptBlock pf key (xorBlocks chain block)) (\<lambda>chain'. cmac_chain pf key chain' blocks)"

definition aesCmac :: "platform \<Rightarrow> bytes \<Rightarrow> bytes \<Rightarrow> string + bytes" where
  "aesCmac pf key message =
     (if length key \<noteq> 16 \<and> length key \<noteq> 24 \<and> length key \<noteq> 32 then Inl ''aes_cmac_key_length_invalid''
      else
        rbind (deriveSubkeys pf key) (\<lambda>(k1, k2).
          let (fullBlocks, lastBlock, lastIsComplete) = partitionMessage message;
              maskedLast = xorBlocks lastBlock (if lastIsComplete then k1 else k2)
          in rbind (cmac_chain pf key (replicate AES_BLOCK_BYTES 0) fullBlocks) (\<lambda>chain.
               aesEncryptBlock pf key (xorBlocks chain maskedLast))))"

definition AES_CMAC_TRUNCATED_TOKEN_BYTES :: nat where "AES_CMAC_TRUNCATED_TOKEN_BYTES = 8"

definition truncateMacToken :: "bytes \<Rightarrow> bytes" where
  "truncateMacToken mac = js_slice mac 0 AES_CMAC_TRUNCATED_TOKEN_BYTES"

section \<open>Blocks\<close>

text \<open>What is relied on of the cipher: a ciphertext has at least the length of one block.\<close>

definition cipher_ok :: "platform \<Rightarrow> bool" where
  "cipher_ok pf \<longleftrightarrow> (\<forall>key block. length block = AES_BLOCK_BYTES \<longrightarrow>
     AES_BLOCK_BYTES \<le> length (pf_aes_cbc pf key ZERO_IV block))"

definition encrypt_block :: "platform \<Rightarrow> bytes \<Rightarrow> bytes \<Rightarrow> bytes" where
  "encrypt_block pf key block = take AES_BLOCK_BYTES (pf_aes_cbc pf key ZERO_IV block)"

lemma aesEncryptBlock_block:
  "length block = AES_BLOCK_BYTES \<Longrightarrow> aesEncryptBlock pf key block = Inr (encrypt_block pf key block)"
  by (simp add: aesEncryptBlock_def encrypt_block_def js_slice_def)

lemma length_encrypt_block:
  "cipher_ok pf \<Longrightarrow> length block = AES_BLOCK_BYTES \<Longrightarrow> length (encrypt_block pf key block) = AES_BLOCK_BYTES"
  by (simp add: encrypt_block_def cipher_ok_def)

lemma length_xorBlocks [simp]: "length (xorBlocks a b) = AES_BLOCK_BYTES"
  by (simp add: xorBlocks_def)

lemma xorBlocks_map2:
  "length a = AES_BLOCK_BYTES \<Longrightarrow> length b = AES_BLOCK_BYTES \<Longrightarrow> xorBlocks a b = map2 (XOR) a b"
  by (intro nth_equalityI) (simp_all add: xorBlocks_def byte_at_def at_opt_def)

lemma length_shift [simp]: "length (fst (shift_loop bs)) = length bs"
  by (induction bs) (auto simp: case_prod_beta Let_def)

lemma length_leftShiftOneBit [simp]: "length (leftShiftOneBit bs) = length bs"
  by (simp add: leftShiftOneBit_def)

lemma length_subkey [simp]: "length (subkey bs) = length bs"
  by (simp add: subkey_def Let_def)

section \<open>Doubling\<close>

text \<open>The reference: twice the number, reduced by the polynomial when it leaves the field.\<close>

definition gf_double :: "nat \<Rightarrow> nat" where
  "gf_double x = (if x < 2 ^ 127 then 2 * x else (2 * x - 2 ^ 128) XOR 0x87)"

lemma bit_top [simp]: "bit (0x80 :: byte) = (\<lambda>k. k = 7)"
proof (rule ext)
  fix k
  have "(0x80 :: byte) = 2 ^ 7" by simp
  then show "bit (0x80 :: byte) k \<longleftrightarrow> k = 7" by (simp only: bit_exp_iff) (auto simp: possible_bit_def)
qed

lemma byte_bit_7: "bit (v :: byte) 7 \<longleftrightarrow> 128 \<le> unat v"
proof -
  have "bit v 7 \<longleftrightarrow> bit (unat v) 7" by (simp add: bit_unsigned_iff)
  also have "\<dots> \<longleftrightarrow> odd (unat v div 128)" by (simp add: bit_iff_odd)
  also have "\<dots> \<longleftrightarrow> 128 \<le> unat v"
  proof -
    have "unat v div 128 < 2" using unat_byte_lt [of v] by (simp add: less_mult_imp_div_less)
    then have "unat v div 128 = 0 \<or> unat v div 128 = 1" by auto
    then show ?thesis by (auto simp: div_eq_0_iff)
  qed
  finally show ?thesis .
qed

lemma top_bit_byte: "(v AND 0x80 \<noteq> 0) \<longleftrightarrow> 128 \<le> unat (v :: byte)"
proof -
  have "v AND 0x80 = (if bit v 7 then 0x80 else 0)"
    by (rule bit_word_eqI) (auto simp: bit_and_iff)
  then show ?thesis by (simp add: byte_bit_7)
qed

lemma carry_byte: "unat (drop_bit 7 (v AND 0x80) :: byte) = unat v div 128"
proof -
  have "drop_bit 7 (v AND 0x80) = (if bit v 7 then 1 else 0 :: byte)"
    by (rule bit_word_eqI) (auto simp: bit_drop_bit_eq bit_and_iff bit_1_iff intro: gr0I)
  moreover have "unat v div 128 = (if 128 \<le> unat v then 1 else 0)"
    using unat_byte_lt [of v] by (auto simp: div_eq_0_iff intro: div_nat_eqI)
  ultimately show ?thesis by (simp add: byte_bit_7)
qed

lemma shifted_byte:
  assumes "unat c < 2"
  shows "unat (push_bit 1 v OR c :: byte) = 2 * unat v mod 256 + unat c"
proof -
  have "push_bit 1 v AND c = 0"
  proof (rule bit_word_eqI)
    fix n
    have "\<not> bit c n" if "n \<noteq> 0"
    proof -
      have "unat c div 2 ^ n = 0" using assms that
        by (metis One_nat_def Suc_leI bot_nat_0.not_eq_extremum div_less less_le_trans power_increasing power_one_right one_le_numeral)
      then have "\<not> bit (unat c) n" by (simp add: bit_iff_odd)
      then show ?thesis using bit_imp_le_length [of c n] by (auto simp: bit_unsigned_iff)
    qed
    then show "bit (push_bit 1 v AND c) n \<longleftrightarrow> bit (0 :: byte) n"
      by (cases "n = 0") (simp_all add: bit_and_iff bit_push_bit_iff del: push_bit_Suc)
  qed
  then have "push_bit 1 v OR c = push_bit 1 v + c" by (simp add: disjunctive_add_eq_or)
  moreover have "unat (push_bit 1 v) = 2 * unat v mod 256"
    by (simp add: push_bit_eq_mult unat_word_ariths mult.commute)
  moreover have "2 * unat v mod 256 + unat c < 256"
  proof -
    have "2 * unat v mod 256 = 2 * (unat v mod 128)" using mult_mod_right [of 2 "unat v" 128] by simp
    moreover have "unat v mod 128 \<le> 127" by (simp flip: less_Suc_eq_le)
    ultimately have "2 * unat v mod 256 \<le> 254" by linarith
    with assms show ?thesis by simp
  qed
  ultimately show ?thesis by (simp add: unat_word_ariths)
qed

lemma shift_loop_value:
  "be_nat (fst (shift_loop bs)) = 2 * be_nat bs mod 256 ^ length bs \<and>
   unat (snd (shift_loop bs)) = 2 * be_nat bs div 256 ^ length bs"
proof (induction bs)
  case Nil
  then show ?case by simp
next
  case (Cons v vs)
  obtain out c where sh: "shift_loop vs = (out, c)" by fastforce
  let ?B = "256 ^ length vs :: nat"
  let ?n = "be_nat vs"
  from Cons sh have out: "be_nat out = 2 * ?n mod ?B" and c: "unat c = 2 * ?n div ?B" by simp_all
  have len: "length out = length vs" using sh length_shift [of vs] by simp
  have "2 * ?n < 2 * ?B" using be_nat_bound [of vs] by simp
  then have c2: "unat c < 2" using c by (simp add: less_mult_imp_div_less)
  have 1: "be_nat (fst (shift_loop (v # vs))) = (2 * unat v mod 256 + unat c) * ?B + 2 * ?n mod ?B"
    by (simp add: sh be_nat_Cons shifted_byte [OF c2] len out [symmetric] shifted_byte [OF c2, simplified])
  have val: "2 * be_nat (v # vs) = (2 * unat v) * ?B + unat c * ?B + 2 * ?n mod ?B"
    using c by (simp add: be_nat_Cons algebra_simps)
  have q: "2 * unat v = 2 * unat v div 256 * 256 + 2 * unat v mod 256"
    by (simp only: div_mult_mod_eq)
  have low: "(2 * unat v mod 256 + unat c) * ?B + 2 * ?n mod ?B < 256 * ?B"
  proof -
    have "2 * unat v mod 256 + unat c < 256"
      using unat_byte_lt [of "push_bit 1 v OR c"] unfolding shifted_byte [OF c2] .
    then have "2 * unat v mod 256 + unat c + 1 \<le> 256" by simp
    then have "(2 * unat v mod 256 + unat c + 1) * ?B \<le> 256 * ?B" by (rule mult_right_mono) simp
    then have "(2 * unat v mod 256 + unat c) * ?B + ?B \<le> 256 * ?B" by (simp only: add_mult_distrib mult_1)
    moreover have "2 * ?n mod ?B < ?B" by simp
    ultimately show ?thesis by linarith
  qed
  have split: "2 * be_nat (v # vs) = (2 * unat v div 256) * (256 * ?B)
      + ((2 * unat v mod 256 + unat c) * ?B + 2 * ?n mod ?B)"
    unfolding val by (subst q) (simp add: algebra_simps)
  have 2: "2 * be_nat (v # vs) mod (256 * ?B) = (2 * unat v mod 256 + unat c) * ?B + 2 * ?n mod ?B"
    unfolding split using low by simp
  have 3: "2 * be_nat (v # vs) div (256 * ?B) = 2 * unat v div 256"
    unfolding split using low by simp
  have "unat (snd (shift_loop (v # vs))) = unat v div 128"
    by (simp only: shift_loop.simps sh Let_def prod.case snd_conv carry_byte)
  with 1 2 3 show ?case by simp
qed

lemma be_nat_leftShift: "be_nat (leftShiftOneBit bs) = 2 * be_nat bs mod 256 ^ length bs"
  by (simp add: leftShiftOneBit_def shift_loop_value)

lemma top_bit_value:
  assumes "length bs = AES_BLOCK_BYTES"
  shows "byte_at bs 0 AND 0x80 \<noteq> 0 \<longleftrightarrow> 2 ^ 127 \<le> be_nat bs"
proof -
  obtain v vs where bs: "bs = v # vs" using assms by (cases bs) (auto simp: AES_BLOCK_BYTES_def)
  have n: "be_nat bs = unat v * 256 ^ 15 + be_nat vs" and r: "be_nat vs < 256 ^ 15"
    using assms be_nat_bound [of vs] by (simp_all add: bs be_nat_Cons AES_BLOCK_BYTES_def)
  have "128 \<le> unat v \<longleftrightarrow> 128 * 256 ^ 15 \<le> be_nat bs"
  proof
    assume "128 \<le> unat v"
    then have "128 * 256 ^ 15 \<le> unat v * (256 ^ 15 :: nat)" by (rule mult_right_mono) simp
    then show "128 * 256 ^ 15 \<le> be_nat bs" using n by simp
  next
    assume le: "128 * 256 ^ 15 \<le> be_nat bs"
    show "128 \<le> unat v"
    proof (rule ccontr)
      assume "\<not> 128 \<le> unat v"
      then have "(unat v + 1) * 256 ^ 15 \<le> 128 * (256 ^ 15 :: nat)" by (intro mult_right_mono) auto
      with le n r show False by simp
    qed
  qed
  moreover have "(128 * 256 ^ 15 :: nat) = 2 ^ 127" by simp
  ultimately show ?thesis by (simp add: bs byte_at_def at_opt_def top_bit_byte del: bit_top)
qed

lemma be_nat_xor_last:
  assumes "0 < length bs"
  shows "be_nat (bs[length bs - 1 := byte_at bs (length bs - 1) XOR b]) = be_nat bs XOR unat b"
proof -
  obtain as a where bs: "bs = as @ [a]" using assms by (metis length_greater_0_conv rev_exhaust)
  have "be_nat as * 256 + unat c = push_bit 8 (be_nat as) OR unat c" for c :: byte
    by (simp only: push_or_byte)
  moreover have "(push_bit 8 n OR unat a) XOR unat b = push_bit 8 n OR unat (a XOR b)" for n
  proof (rule bit_eqI)
    fix i
    show "bit ((push_bit 8 n OR unat a) XOR unat b) i \<longleftrightarrow> bit (push_bit 8 n OR unat (a XOR b)) i"
      using bit_imp_le_length [of a i] bit_imp_le_length [of b i]
      by (auto simp: bit_xor_iff bit_or_iff bit_push_bit_iff bit_unsigned_iff)
  qed
  ultimately show ?thesis by (simp add: bs be_nat_snoc byte_at_def at_opt_def)
qed

text \<open>The subkeys are the doubles, in the field, of the number before.\<close>

lemma subkey_double:
  assumes "length l = AES_BLOCK_BYTES"
  shows "be_nat (subkey l) = gf_double (be_nat l)"
proof -
  let ?k = "leftShiftOneBit l"
  have k: "be_nat ?k = 2 * be_nat l mod 2 ^ 128" using assms by (simp add: be_nat_leftShift AES_BLOCK_BYTES_def)
  have bound: "be_nat l < 2 ^ 128" using be_nat_bound [of l] assms by (simp add: AES_BLOCK_BYTES_def)
  show ?thesis
  proof (cases "2 ^ 127 \<le> be_nat l")
    case True
    have "be_nat (subkey l) = be_nat (?k[length ?k - 1 := byte_at ?k (length ?k - 1) XOR RB])"
      using True assms by (simp add: subkey_def Let_def top_bit_value)
    also have "\<dots> = be_nat ?k XOR 0x87"
      using be_nat_xor_last [of ?k RB] assms by (simp add: AES_BLOCK_BYTES_def RB_def)
    also have "be_nat ?k = 2 * be_nat l - 2 ^ 128" using True bound unfolding k by (subst mod_if) (auto intro!: mod_less)
    finally show ?thesis using True by (simp add: gf_double_def)
  next
    case False
    then show ?thesis using assms k by (simp add: subkey_def Let_def top_bit_value gf_double_def)
  qed
qed

section \<open>The reference construction\<close>

text \<open>
  Block by block: whole blocks are absorbed, the last one is masked with the first subkey when it
  is complete and, padded, with the second when it is not.
\<close>

function cmac_from :: "(bytes \<Rightarrow> bytes) \<Rightarrow> bytes \<Rightarrow> bytes \<Rightarrow> bytes \<Rightarrow> bytes \<Rightarrow> bytes" where
  "cmac_from E k1 k2 chain message =
     (if AES_BLOCK_BYTES < length message then
        cmac_from E k1 k2 (E (map2 (XOR) chain (take AES_BLOCK_BYTES message))) (drop AES_BLOCK_BYTES message)
      else if length message = AES_BLOCK_BYTES then E (map2 (XOR) chain (map2 (XOR) message k1))
      else E (map2 (XOR) chain
        (map2 (XOR) (message @ 0x80 # replicate (AES_BLOCK_BYTES - length message - 1) 0) k2)))"
  by pat_completeness auto
termination
  by (relation "measure (\<lambda>(E, k1, k2, chain, message). length message)") (auto simp: AES_BLOCK_BYTES_def)

declare cmac_from.simps [simp del]

definition cmac_reference :: "(bytes \<Rightarrow> bytes) \<Rightarrow> bytes \<Rightarrow> bytes" where
  "cmac_reference E message =
     (let zero = replicate AES_BLOCK_BYTES 0; l = be_nat (E zero);
          k1 = gf_double l; k2 = gf_double k1
      in cmac_from E (bigIntToBytes k1 AES_BLOCK_BYTES) (bigIntToBytes k2 AES_BLOCK_BYTES) zero message)"

lemma partition_count:
  assumes "(length message + AES_BLOCK_BYTES - 1) div AES_BLOCK_BYTES = Suc k"
  shows "partitionMessage message =
    (let off = k * AES_BLOCK_BYTES; len = length message - off in
      (map (\<lambda>i. js_slice message (i * AES_BLOCK_BYTES) (i * AES_BLOCK_BYTES + AES_BLOCK_BYTES)) [0..<k],
       if len = AES_BLOCK_BYTES then js_slice message off (off + AES_BLOCK_BYTES)
       else drop off message @ 0x80 # replicate (AES_BLOCK_BYTES - len - 1) 0,
       len = AES_BLOCK_BYTES))"
proof -
  have "length message \<noteq> 0" using assms by (auto simp: AES_BLOCK_BYTES_def)
  then show ?thesis unfolding partitionMessage_def assms by (simp add: Let_def)
qed

lemma partition_long:
  assumes "AES_BLOCK_BYTES < length message" and "partitionMessage (drop AES_BLOCK_BYTES message) = (full, lst, c)"
  shows "partitionMessage message = (take AES_BLOCK_BYTES message # full, lst, c)"
proof -
  let ?B = AES_BLOCK_BYTES
  let ?m = "drop ?B message"
  have B: "?B = 16" by (rule AES_BLOCK_BYTES_def)
  have "0 < (length ?m + ?B - 1) div ?B" using assms(1) by (simp add: B div_greater_zero_iff)
  then obtain k where k: "(length ?m + ?B - 1) div ?B = Suc k" by (cases "(length ?m + ?B - 1) div ?B") auto
  have "length message + ?B - 1 = (length ?m + ?B - 1) + ?B" using assms(1) by (simp add: B)
  then have k': "(length message + ?B - 1) div ?B = Suc (Suc k)" using k by (simp add: B)
  show ?thesis using assms(2) unfolding partition_count [OF k] partition_count [OF k']
    by (auto simp: Let_def map_upt_Suc js_slice_def add.commute simp del: upt_Suc)
qed

lemma partition_short:
  assumes "length message \<le> AES_BLOCK_BYTES"
  shows "partitionMessage message =
    ([], if length message = AES_BLOCK_BYTES then message
         else message @ 0x80 # replicate (AES_BLOCK_BYTES - length message - 1) 0,
     length message = AES_BLOCK_BYTES)"
proof (cases "message = []")
  case True
  then show ?thesis by (simp add: partitionMessage_def AES_BLOCK_BYTES_def)
next
  case False
  then have "(length message + AES_BLOCK_BYTES - 1) div AES_BLOCK_BYTES = 1"
    using assms by (intro div_nat_eqI) (auto simp: AES_BLOCK_BYTES_def Suc_le_eq)
  with False assms show ?thesis by (simp add: partitionMessage_def js_slice_def)
qed

lemma zero_block [simp]: "length (replicate AES_BLOCK_BYTES (0 :: byte)) = AES_BLOCK_BYTES"
  by simp

text \<open>The chain over the whole blocks, then the masked last block, is the reference.\<close>

lemma cmac_chain_reference:
  assumes "cipher_ok pf" and "length k1 = AES_BLOCK_BYTES" and "length k2 = AES_BLOCK_BYTES"
    and "length chain = AES_BLOCK_BYTES" and "partitionMessage message = (full, lst, c)"
  shows "rbind (cmac_chain pf key chain full) (\<lambda>x. aesEncryptBlock pf key (xorBlocks x (xorBlocks lst (if c then k1 else k2)))) =
    Inr (cmac_from (encrypt_block pf key) k1 k2 chain message)"
  using assms(4,5)
proof (induction message arbitrary: chain full lst c rule: measure_induct_rule [of length])
  case (less message)
  let ?E = "encrypt_block pf key"
  show ?case
  proof (cases "AES_BLOCK_BYTES < length message")
    case True
    let ?rest = "drop AES_BLOCK_BYTES message"
    let ?next = "?E (map2 (XOR) chain (take AES_BLOCK_BYTES message))"
    obtain f l d where p: "partitionMessage ?rest = (f, l, d)" by (cases "partitionMessage ?rest") auto
    from partition_long [OF True p] less.prems(2)
    have eq: "full = take AES_BLOCK_BYTES message # f" "lst = l" "c = d" by simp_all
    have xor: "xorBlocks chain (take AES_BLOCK_BYTES message) = map2 (XOR) chain (take AES_BLOCK_BYTES message)"
      using True less.prems(1) by (intro xorBlocks_map2) auto
    have len: "length ?next = AES_BLOCK_BYTES"
      using True less.prems(1) assms(1) by (intro length_encrypt_block) auto
    have "length ?rest < length message" using True by (simp add: AES_BLOCK_BYTES_def)
    from less.IH [OF this len p] True less.prems(1) show ?thesis
      by (simp add: eq xor [symmetric] aesEncryptBlock_block cmac_from.simps [of _ _ _ chain message])
  next
    case False
    then have le: "length message \<le> AES_BLOCK_BYTES" by simp
    from partition_short [OF le] less.prems(2) have eq: "full = []" "c = (length message = AES_BLOCK_BYTES)"
      "lst = (if length message = AES_BLOCK_BYTES then message
        else message @ 0x80 # replicate (AES_BLOCK_BYTES - length message - 1) 0)" by simp_all
    have "length lst = AES_BLOCK_BYTES" using le by (auto simp: eq(3))
    with less.prems(1) assms(2,3) have
      "xorBlocks chain (xorBlocks lst (if c then k1 else k2)) = map2 (XOR) chain (map2 (XOR) lst (if c then k1 else k2))"
      by (simp add: xorBlocks_map2)
    then show ?thesis using False
      by (simp add: eq aesEncryptBlock_block cmac_from.simps [of _ _ _ chain message] split: if_splits)
  qed
qed

lemma aesCmac_value:
  assumes "cipher_ok pf" and "length key \<in> {16, 24, 32}"
  shows "aesCmac pf key message = Inr (cmac_reference (encrypt_block pf key) message)"
proof -
  let ?zero = "replicate AES_BLOCK_BYTES (0 :: byte)"
  let ?l = "encrypt_block pf key ?zero"
  have l: "length ?l = AES_BLOCK_BYTES" using assms(1) by (simp add: length_encrypt_block)
  let ?k1 = "subkey ?l" and ?k2 = "subkey (subkey ?l)"
  have k: "bigIntToBytes (gf_double (be_nat ?l)) AES_BLOCK_BYTES = ?k1"
    "bigIntToBytes (gf_double (gf_double (be_nat ?l))) AES_BLOCK_BYTES = ?k2"
    using bigIntToBytes_be_nat [of ?k1] bigIntToBytes_be_nat [of ?k2] l by (simp_all add: subkey_double)
  obtain full lst c where p: "partitionMessage message = (full, lst, c)" by (cases "partitionMessage message") auto
  have "deriveSubkeys pf key = Inr (?k1, ?k2)"
    by (simp add: deriveSubkeys_def aesEncryptBlock_block Let_def)
  then have "aesCmac pf key message = rbind (cmac_chain pf key ?zero full)
      (\<lambda>x. aesEncryptBlock pf key (xorBlocks x (xorBlocks lst (if c then ?k1 else ?k2))))"
    using assms(2) by (auto simp: aesCmac_def p)
  also have "\<dots> = Inr (cmac_from (encrypt_block pf key) ?k1 ?k2 ?zero message)"
    by (rule cmac_chain_reference [OF assms(1) _ _ _ p]) (simp_all add: l)
  finally show ?thesis by (simp add: cmac_reference_def Let_def k)
qed

lemma length_cmac_from:
  assumes "cipher_ok pf" and "length k1 = AES_BLOCK_BYTES" and "length k2 = AES_BLOCK_BYTES"
    and "length chain = AES_BLOCK_BYTES"
  shows "length (cmac_from (encrypt_block pf key) k1 k2 chain message) = AES_BLOCK_BYTES"
  using assms(4)
proof (induction message arbitrary: chain rule: measure_induct_rule [of length])
  case (less message)
  show ?case
  proof (cases "AES_BLOCK_BYTES < length message")
    case True
    moreover from this have "length (drop AES_BLOCK_BYTES message) < length message"
      by (simp add: AES_BLOCK_BYTES_def)
    ultimately show ?thesis using less.prems assms(1)
      by (subst cmac_from.simps) (simp add: less.IH length_encrypt_block)
  next
    case False
    then show ?thesis using less.prems assms(1-3)
      by (subst cmac_from.simps) (simp add: length_encrypt_block)
  qed
qed

lemma length_cmac_reference:
  "cipher_ok pf \<Longrightarrow> length (cmac_reference (encrypt_block pf key) message) = AES_BLOCK_BYTES"
  by (simp add: cmac_reference_def Let_def length_cmac_from)

end
