(* ===== verification/Chip_Documents.thy ===== *)
theory Chip_Documents
  imports Crypto_Bytes
begin

unbundle bit_operations_syntax

text \<open>
  What chip authentication reads: the algorithm registry (\<open>chip-auth-oids.ts\<close>,
  \<open>chip-auth-public-key-oids.ts\<close>), data group 14 (\<open>dg14-parser.ts\<close>), the choice of an entry in it
  (\<open>chip-auth-selection.ts\<close>), and the transcript a device uploads (\<open>chip-auth-transcript.ts\<close>), which
  is written here as well and read back.
\<close>

section \<open>Algorithms\<close>

definition ID_PK_DH_OID :: string where "ID_PK_DH_OID = ''0.4.0.127.0.7.2.2.1.1''"
definition ID_PK_ECDH_OID :: string where "ID_PK_ECDH_OID = ''0.4.0.127.0.7.2.2.1.2''"

definition ID_CA_DH_3DES_CBC_CBC_OID :: string where "ID_CA_DH_3DES_CBC_CBC_OID = ''0.4.0.127.0.7.2.2.3.1.1''"
definition ID_CA_DH_AES_CBC_CMAC_128_OID :: string where "ID_CA_DH_AES_CBC_CMAC_128_OID = ''0.4.0.127.0.7.2.2.3.1.2''"
definition ID_CA_DH_AES_CBC_CMAC_192_OID :: string where "ID_CA_DH_AES_CBC_CMAC_192_OID = ''0.4.0.127.0.7.2.2.3.1.3''"
definition ID_CA_DH_AES_CBC_CMAC_256_OID :: string where "ID_CA_DH_AES_CBC_CMAC_256_OID = ''0.4.0.127.0.7.2.2.3.1.4''"
definition ID_CA_ECDH_3DES_CBC_CBC_OID :: string where "ID_CA_ECDH_3DES_CBC_CBC_OID = ''0.4.0.127.0.7.2.2.3.2.1''"
definition ID_CA_ECDH_AES_CBC_CMAC_128_OID :: string where "ID_CA_ECDH_AES_CBC_CMAC_128_OID = ''0.4.0.127.0.7.2.2.3.2.2''"
definition ID_CA_ECDH_AES_CBC_CMAC_192_OID :: string where "ID_CA_ECDH_AES_CBC_CMAC_192_OID = ''0.4.0.127.0.7.2.2.3.2.3''"
definition ID_CA_ECDH_AES_CBC_CMAC_256_OID :: string where "ID_CA_ECDH_AES_CBC_CMAC_256_OID = ''0.4.0.127.0.7.2.2.3.2.4''"

datatype key_agreement = KA_DH | KA_ECDH
datatype chip_cipher = Cipher_3DES | Cipher_AES_128 | Cipher_AES_192 | Cipher_AES_256
datatype chip_mac = DES_CBC_MAC | AES_CMAC

record chip_algorithm =
  ca_cipher :: chip_cipher
  ca_keyAgreement :: key_agreement
  ca_kdfHash :: hash_algorithm
  ca_keyLength :: nat
  ca_mac :: chip_mac
  ca_oid :: string
  ca_publicKeyOid :: string

definition chip_entry ::
  "string \<Rightarrow> chip_cipher \<Rightarrow> key_agreement \<Rightarrow> hash_algorithm \<Rightarrow> nat \<Rightarrow> chip_mac \<Rightarrow> string \<Rightarrow> string \<times> chip_algorithm" where
  "chip_entry oid cipher ka hash len mac pkOid =
     (oid, \<lparr>ca_cipher = cipher, ca_keyAgreement = ka, ca_kdfHash = hash, ca_keyLength = len, ca_mac = mac,
            ca_oid = oid, ca_publicKeyOid = pkOid\<rparr>)"

definition ALGORITHMS :: "(string \<times> chip_algorithm) list" where
  "ALGORITHMS =
    [chip_entry ID_CA_DH_3DES_CBC_CBC_OID Cipher_3DES KA_DH SHA_1 16 DES_CBC_MAC ID_PK_DH_OID,
     chip_entry ID_CA_DH_AES_CBC_CMAC_128_OID Cipher_AES_128 KA_DH SHA_1 16 AES_CMAC ID_PK_DH_OID,
     chip_entry ID_CA_DH_AES_CBC_CMAC_192_OID Cipher_AES_192 KA_DH SHA_256 24 AES_CMAC ID_PK_DH_OID,
     chip_entry ID_CA_DH_AES_CBC_CMAC_256_OID Cipher_AES_256 KA_DH SHA_256 32 AES_CMAC ID_PK_DH_OID,
     chip_entry ID_CA_ECDH_3DES_CBC_CBC_OID Cipher_3DES KA_ECDH SHA_1 16 DES_CBC_MAC ID_PK_ECDH_OID,
     chip_entry ID_CA_ECDH_AES_CBC_CMAC_128_OID Cipher_AES_128 KA_ECDH SHA_1 16 AES_CMAC ID_PK_ECDH_OID,
     chip_entry ID_CA_ECDH_AES_CBC_CMAC_192_OID Cipher_AES_192 KA_ECDH SHA_256 24 AES_CMAC ID_PK_ECDH_OID,
     chip_entry ID_CA_ECDH_AES_CBC_CMAC_256_OID Cipher_AES_256 KA_ECDH SHA_256 32 AES_CMAC ID_PK_ECDH_OID]"

text \<open>
  \<open>ALGORITHMS[oid] ?? null\<close>. The registry is an object literal, so that a name every object inherits
  is found as well; what it yields is no algorithm, but it is not null either. The identifiers in
  data group 14 are dotted numbers and never such a name; that of a transcript is any text.
\<close>

definition object_members :: "string list" where
  "object_members =
    [''constructor'', ''hasOwnProperty'', ''isPrototypeOf'', ''propertyIsEnumerable'', ''toLocaleString'',
     ''toString'', ''valueOf'', ''__proto__'', ''__defineGetter__'', ''__defineSetter__'',
     ''__lookupGetter__'', ''__lookupSetter__'']"

datatype registry_lookup = Reg_null | Reg_inherited | Reg_algorithm chip_algorithm

definition chipAuthAlgorithmFromOid :: "text_points \<Rightarrow> registry_lookup" where
  "chipAuthAlgorithmFromOid oid =
     (case map_of (map (\<lambda>(k, a). (code_points k, a)) ALGORITHMS) oid of
        Some a \<Rightarrow> Reg_algorithm a
      | None \<Rightarrow> if oid \<in> set (map code_points object_members) then Reg_inherited else Reg_null)"

definition chipAuthPublicKeyAlgorithmFromOid :: "string \<Rightarrow> key_agreement option" where
  "chipAuthPublicKeyAlgorithmFromOid oid =
     (if oid = ID_PK_DH_OID then Some KA_DH else if oid = ID_PK_ECDH_OID then Some KA_ECDH else None)"

section \<open>Data group 14\<close>

definition DG14_ROOT_TAG :: nat where "DG14_ROOT_TAG = 0x6e"
definition ID_AA_OID :: string where "ID_AA_OID = ''2.23.136.1.1.5''"

definition ecdsaPlainHashAlgorithmFromOid :: "string \<Rightarrow> hash_algorithm option" where
  "ecdsaPlainHashAlgorithmFromOid oid =
     (if oid = ''0.4.0.127.0.7.1.1.4.1.1'' then Some SHA_1
      else if oid = ''0.4.0.127.0.7.1.1.4.1.2'' then Some SHA_224
      else if oid = ''0.4.0.127.0.7.1.1.4.1.3'' then Some SHA_256
      else if oid = ''0.4.0.127.0.7.1.1.4.1.4'' then Some SHA_384
      else if oid = ''0.4.0.127.0.7.1.1.4.1.5'' then Some SHA_512
      else None)"

record chip_auth_info =
  ci_algorithm :: chip_algorithm
  ci_keyId :: "nat option"
  ci_version :: int

record chip_auth_key =
  ck_algorithm :: key_agreement
  ck_algorithmOid :: string
  ck_keyId :: "nat option"
  ck_keyInfo :: bytes

record parsed_dg14 =
  d14_aaHash :: "hash_algorithm option"
  d14_infos :: "chip_auth_info list"
  d14_keys :: "chip_auth_key list"

definition unwrapDg14Body :: "bytes \<Rightarrow> bytes" where
  "unwrapDg14Body dg14 =
     (case readTlv dg14 0 of
        Inl _ \<Rightarrow> dg14
      | Inr root \<Rightarrow>
          if tlv_tag root = DG14_ROOT_TAG \<and> tlv_next root = length dg14 then tlv_bytes root else dg14)"

definition readActiveAuthInfo :: "asn1 \<Rightarrow> hash_algorithm option" where
  "readActiveAuthInfo securityInfo =
     (case sequenceChildren securityInfo of
        Asn1_Oid oid # Asn1_Integer version # Asn1_Oid signatureAlgorithm # _ \<Rightarrow>
          if oid = ID_AA_OID then ecdsaPlainHashAlgorithmFromOid signatureAlgorithm else None
      | _ \<Rightarrow> None)"

definition readKeyId :: "asn1 option \<Rightarrow> nat option" where
  "readKeyId node =
     (case node of Some (Asn1_Integer bs) \<Rightarrow> Some (bytesToBigInt bs) | _ \<Rightarrow> None)"

text \<open>\<open>(version << 8) | byte\<close> is 32-bit signed arithmetic.\<close>

definition read_version :: "bytes \<Rightarrow> int" where
  "read_version bs = sint (foldl (\<lambda>v b. push_bit 8 v OR ucast b) (0 :: 32 word) bs)"

definition readChipAuthInfo :: "asn1 \<Rightarrow> chip_auth_info option" where
  "readChipAuthInfo securityInfo =
     (case sequenceChildren securityInfo of
        Asn1_Oid oid # Asn1_Integer version # rest \<Rightarrow>
          (case chipAuthAlgorithmFromOid (code_points oid) of
             Reg_algorithm a \<Rightarrow>
               Some \<lparr>ci_algorithm = a, ci_keyId = readKeyId (at_opt rest 0), ci_version = read_version version\<rparr>
           | _ \<Rightarrow> None)
      | _ \<Rightarrow> None)"

definition readChipAuthPublicKeyInfo :: "platform \<Rightarrow> asn1 \<Rightarrow> chip_auth_key option" where
  "readChipAuthPublicKeyInfo pf securityInfo =
     (case sequenceChildren securityInfo of
        Asn1_Oid oid # Asn1_Sequence keyInfo # rest \<Rightarrow>
          (case chipAuthPublicKeyAlgorithmFromOid oid of
             None \<Rightarrow> None
           | Some a \<Rightarrow>
               Some \<lparr>ck_algorithm = a, ck_algorithmOid = oid, ck_keyId = readKeyId (at_opt rest 0),
                     ck_keyInfo = pf_toBer pf (Asn1_Sequence keyInfo)\<rparr>)
      | _ \<Rightarrow> None)"

definition read_security_info :: "platform \<Rightarrow> parsed_dg14 \<Rightarrow> asn1 \<Rightarrow> parsed_dg14" where
  "read_security_info pf d child =
     (case child of
        Asn1_Sequence _ \<Rightarrow>
          (case (readActiveAuthInfo child, d14_aaHash d) of
             (Some h, None) \<Rightarrow> d\<lparr>d14_aaHash := Some h\<rparr>
           | _ \<Rightarrow>
               (case readChipAuthInfo child of
                  Some info \<Rightarrow> d\<lparr>d14_infos := d14_infos d @ [info]\<rparr>
                | None \<Rightarrow>
                    (case readChipAuthPublicKeyInfo pf child of
                       Some key \<Rightarrow> d\<lparr>d14_keys := d14_keys d @ [key]\<rparr>
                     | None \<Rightarrow> d)))
      | _ \<Rightarrow> d)"

definition empty_dg14 :: parsed_dg14 where
  "empty_dg14 = \<lparr>d14_aaHash = None, d14_infos = [], d14_keys = []\<rparr>"

definition parseDg14 :: "platform \<Rightarrow> bytes \<Rightarrow> string + parsed_dg14" where
  "parseDg14 pf dg14 =
     (if length dg14 = 0 then Inr empty_dg14
      else
        rbind (parseBer pf (unwrapDg14Body dg14) ''dg14_parse_failed'') (\<lambda>root.
          case root of
            Asn1_Set children \<Rightarrow> Inr (foldl (read_security_info pf) empty_dg14 children)
          | Asn1_Sequence children \<Rightarrow> Inr (foldl (read_security_info pf) empty_dg14 children)
          | _ \<Rightarrow> Inl ''dg14_parse_failed''))"

section \<open>Selection\<close>

text \<open>The rule both selections follow, on the entries whose identifier matches.\<close>

definition select_by_key_id :: "('a \<Rightarrow> nat option) \<Rightarrow> 'a list \<Rightarrow> nat option \<Rightarrow> 'a option" where
  "select_by_key_id key_of matches keyId =
     (if length matches = 0 then None
      else
        case keyId of
          Some k \<Rightarrow> find (\<lambda>e. key_of e = Some k) matches
        | None \<Rightarrow>
            if length matches = 1 then Some (hd matches) else find (\<lambda>e. key_of e = None) matches)"

text \<open>An inherited member has no \<open>oid\<close>: no entry matches it.\<close>

definition selectChipAuthInfo :: "chip_auth_info list \<Rightarrow> string \<Rightarrow> nat option \<Rightarrow> chip_auth_info option" where
  "selectChipAuthInfo infos oid keyId =
     select_by_key_id ci_keyId (filter (\<lambda>i. ca_oid (ci_algorithm i) = oid) infos) keyId"

definition selectChipAuthPublicKey ::
  "chip_auth_key list \<Rightarrow> chip_algorithm \<Rightarrow> nat option \<Rightarrow> chip_auth_key option" where
  "selectChipAuthPublicKey keys algorithm keyId =
     select_by_key_id ck_keyId (filter (\<lambda>e. ck_algorithmOid e = ca_publicKeyOid algorithm) keys) keyId"

lemma select_by_key_id_in:
  "select_by_key_id f xs k = Some x \<Longrightarrow> x \<in> set xs"
  by (auto simp: select_by_key_id_def find_Some_iff split: if_splits option.splits)

lemma select_by_key_id_matches:
  "select_by_key_id f xs (Some k) = Some x \<Longrightarrow> f x = Some k"
  by (auto simp: select_by_key_id_def find_Some_iff split: if_splits)

lemma selectChipAuthPublicKey_sound:
  assumes "selectChipAuthPublicKey keys a keyId = Some e"
  shows "e \<in> set keys" and "ck_algorithmOid e = ca_publicKeyOid a"
    and "keyId = Some k \<Longrightarrow> ck_keyId e = Some k"
  using select_by_key_id_in [OF assms [unfolded selectChipAuthPublicKey_def]]
    select_by_key_id_matches [of ck_keyId _ k e] assms
  by (auto simp: selectChipAuthPublicKey_def)

section \<open>Transcript\<close>

definition TRANSCRIPT_VERSION :: nat where "TRANSCRIPT_VERSION = 1"

record chip_transcript =
  tr_chipNonce :: bytes
  tr_chipToken :: bytes
  tr_keyId :: "nat option"
  tr_oid :: text_points
  tr_privateKey :: bytes
  tr_publicKey :: bytes

text \<open>The reader: its position in the data goes in and comes out.\<close>

definition tr_uint8 :: "bytes \<Rightarrow> nat \<Rightarrow> string + nat \<times> nat" where
  "tr_uint8 data offset =
     (if length data - offset < 1 then Inl ''chip_auth_transcript_truncated''
      else Inr (unat (data ! offset), offset + 1))"

definition tr_uint16 :: "bytes \<Rightarrow> nat \<Rightarrow> string + nat \<times> nat" where
  "tr_uint16 data offset =
     (if length data - offset < 2 then Inl ''chip_auth_transcript_truncated''
      else Inr (push_bit 8 (unat (data ! offset)) OR unat (data ! (offset + 1)), offset + 2))"

definition tr_bytes :: "bytes \<Rightarrow> nat \<Rightarrow> nat \<Rightarrow> string + bytes \<times> nat" where
  "tr_bytes data len offset =
     (if length data - offset < len then Inl ''chip_auth_transcript_truncated''
      else Inr (js_slice data offset (offset + len), offset + len))"

definition decode_oid :: "platform \<Rightarrow> bytes \<Rightarrow> string + text_points" where
  "decode_oid pf bs = (case utf8_decode_fatal bs of None \<Rightarrow> Inl (pf_decode_error pf) | Some t \<Rightarrow> Inr t)"

definition parseChipAuthTranscript :: "platform \<Rightarrow> bytes \<Rightarrow> string + chip_transcript" where
  "parseChipAuthTranscript pf data =
     rbind (tr_uint8 data 0) (\<lambda>(version, o1).
     if version \<noteq> TRANSCRIPT_VERSION then Inl ''chip_auth_transcript_version_unsupported''
     else
       rbind (tr_uint16 data o1) (\<lambda>(oidLen, o2).
       rbind (tr_bytes data oidLen o2) (\<lambda>(oidBytes, o3).
       rbind (decode_oid pf oidBytes) (\<lambda>oid.
       rbind (tr_uint8 data o3) (\<lambda>(keyIdLen, o4).
       rbind (tr_bytes data keyIdLen o4) (\<lambda>(keyIdBytes, o5).
       rbind (tr_uint16 data o5) (\<lambda>(skLen, o6).
       rbind (tr_bytes data skLen o6) (\<lambda>(terminalPrivateKey, o7).
       rbind (tr_uint16 data o7) (\<lambda>(pkLen, o8).
       rbind (tr_bytes data pkLen o8) (\<lambda>(terminalPublicKey, o9).
       rbind (tr_uint8 data o9) (\<lambda>(nonceLen, o10).
       rbind (tr_bytes data nonceLen o10) (\<lambda>(chipNonce, o11).
       rbind (tr_uint8 data o11) (\<lambda>(tokenLen, o12).
       rbind (tr_bytes data tokenLen o12) (\<lambda>(chipToken, o13).
         if o13 \<noteq> length data then Inl ''chip_auth_transcript_trailing_bytes''
         else if length oid = 0 \<or> length terminalPrivateKey = 0 \<or> length terminalPublicKey = 0
                 \<or> length chipNonce = 0 \<or> length chipToken = 0
           then Inl ''chip_auth_transcript_field_missing''
         else Inr \<lparr>tr_chipNonce = chipNonce, tr_chipToken = chipToken,
                    tr_keyId = (if keyIdLen = 0 then None else Some (bytesToBigInt keyIdBytes)),
                    tr_oid = oid, tr_privateKey = terminalPrivateKey, tr_publicKey = terminalPublicKey\<rparr>))))))))))))))"

section \<open>A transcript read back\<close>

text \<open>The layout in the comment of \<open>chip-auth-transcript.ts\<close>, written out; an absent key id is empty.\<close>

definition write_transcript :: "string \<Rightarrow> bytes \<Rightarrow> bytes \<Rightarrow> bytes \<Rightarrow> bytes \<Rightarrow> bytes \<Rightarrow> bytes" where
  "write_transcript oid keyIdBytes sk pk nonce token =
     of_nat TRANSCRIPT_VERSION # bigIntToBytes (length oid) 2 @ ascii_bytes oid
       @ bigIntToBytes (length keyIdBytes) 1 @ keyIdBytes
       @ bigIntToBytes (length sk) 2 @ sk @ bigIntToBytes (length pk) 2 @ pk
       @ bigIntToBytes (length nonce) 1 @ nonce @ bigIntToBytes (length token) 1 @ token"

definition ascii_text :: "string \<Rightarrow> bool" where
  "ascii_text s \<longleftrightarrow> (\<forall>c \<in> set s. (of_char c :: nat) < 128)"

text \<open>What remains of the data at the reader's position.\<close>

definition remains :: "bytes \<Rightarrow> nat \<Rightarrow> bytes \<Rightarrow> bool" where
  "remains data off rest \<longleftrightarrow> off \<le> length data \<and> drop off data = rest"

lemma remains_start: "remains data 0 data"
  by (simp add: remains_def)

lemma remains_end: "remains data off [] \<Longrightarrow> off = length data"
  by (simp add: remains_def)

lemma remains_split: "remains data off rest \<longleftrightarrow> (\<exists>pre. data = pre @ rest \<and> length pre = off)"
  by (auto simp: remains_def) (metis append_take_drop_id length_take min_absorb2)

lemma remains_append: "remains data off (ys @ rest) \<Longrightarrow> remains data (off + length ys) rest"
proof -
  assume "remains data off (ys @ rest)"
  then obtain pre where "data = pre @ ys @ rest" "length pre = off" by (auto simp: remains_split)
  then have "data = (pre @ ys) @ rest" "length (pre @ ys) = off + length ys" by simp_all
  then show ?thesis unfolding remains_split by blast
qed

lemma remains_nth: "remains data off (b # rest) \<Longrightarrow> off < length data \<and> data ! off = b"
  by (auto simp: remains_split)

lemma tr_uint8_remains:
  assumes "remains data off (bigIntToBytes n 1 @ rest)" and "n < 256"
  shows "tr_uint8 data off = Inr (n, off + 1)" and "remains data (off + 1) rest"
proof -
  have "bigIntToBytes n 1 = [of_nat n]" using assms(2) by (simp add: and_255)
  with assms remains_nth [of data off "of_nat n" rest] show "tr_uint8 data off = Inr (n, off + 1)"
    by (simp add: tr_uint8_def)
  show "remains data (off + 1) rest" using remains_append [OF assms(1)] by simp
qed

lemma tr_uint16_remains:
  assumes "remains data off (bigIntToBytes n 2 @ rest)" and "n < 65536"
  shows "tr_uint16 data off = Inr (n, off + 2)" and "remains data (off + 2) rest"
proof -
  obtain a b where ab: "bigIntToBytes n 2 = [a, b]"
    using length_bigIntToBytes [of n 2] by (cases "bigIntToBytes n 2" rule: remdups_adj.cases) auto
  have "be_nat [a, b] = n" using be_nat_bigIntToBytes [of n 2] assms(2) unfolding ab by simp
  then have n: "unat a * 256 + unat b = n" by (simp add: be_nat_Cons)
  have a: "remains data off ([a] @ b # rest)" using assms(1) by (simp add: ab)
  have "data ! off = a" "data ! (off + 1) = b" "off + 1 < length data"
    using remains_nth [of data off a "b # rest"] a remains_nth [OF remains_append [OF a]] by simp_all
  with n show "tr_uint16 data off = Inr (n, off + 2)"
    by (simp add: tr_uint16_def push_or_byte)
  show "remains data (off + 2) rest" using remains_append [OF assms(1)] by simp
qed

lemma tr_bytes_remains:
  assumes "remains data off (ys @ rest)" and "n = length ys"
  shows "tr_bytes data n off = Inr (ys, off + n)" and "remains data (off + n) rest"
proof -
  from assms(1) obtain pre where "data = pre @ ys @ rest" "length pre = off" by (auto simp: remains_split)
  with assms(2) show "tr_bytes data n off = Inr (ys, off + n)"
    by (simp add: tr_bytes_def js_slice_def)
  show "remains data (off + n) rest" using remains_append [OF assms(1)] assms(2) by simp
qed

lemma decode_oid_ascii:
  assumes "ascii_text oid"
  shows "decode_oid pf (ascii_bytes oid) = Inr (code_points oid)"
proof -
  have "\<forall>b \<in> set (ascii_bytes oid). unat b < 128"
    using assms by (auto simp: ascii_bytes_def ascii_text_def ascii_bytes_unat)
  then show ?thesis by (simp add: decode_oid_def utf8_decode_fatal_ascii code_points_def)
qed

definition transcript_fits :: "string \<Rightarrow> bytes \<Rightarrow> bytes \<Rightarrow> bytes \<Rightarrow> bytes \<Rightarrow> bytes \<Rightarrow> bool" where
  "transcript_fits oid keyIdBytes sk pk nonce token \<longleftrightarrow>
     ascii_text oid \<and> 0 < length oid \<and> length oid < 65536 \<and> length keyIdBytes < 256 \<and>
     0 < length sk \<and> length sk < 65536 \<and> 0 < length pk \<and> length pk < 65536 \<and>
     0 < length nonce \<and> length nonce < 256 \<and> 0 < length token \<and> length token < 256"

lemma transcript_reads_back:
  assumes "transcript_fits oid keyIdBytes sk pk nonce token"
  shows "parseChipAuthTranscript pf (write_transcript oid keyIdBytes sk pk nonce token) =
    Inr \<lparr>tr_chipNonce = nonce, tr_chipToken = token,
         tr_keyId = (if keyIdBytes = [] then None else Some (be_nat keyIdBytes)),
         tr_oid = code_points oid, tr_privateKey = sk, tr_publicKey = pk\<rparr>"
proof -
  let ?data = "write_transcript oid keyIdBytes sk pk nonce token"
  note fits = assms [unfolded transcript_fits_def]
  have r0: "remains ?data 0 (bigIntToBytes 1 1 @ bigIntToBytes (length oid) 2 @ ascii_bytes oid
       @ bigIntToBytes (length keyIdBytes) 1 @ keyIdBytes
       @ bigIntToBytes (length sk) 2 @ sk @ bigIntToBytes (length pk) 2 @ pk
       @ bigIntToBytes (length nonce) 1 @ nonce @ bigIntToBytes (length token) 1 @ token @ [])"
    using remains_start [of ?data] by (simp add: write_transcript_def TRANSCRIPT_VERSION_def)
  from fits have c: "(1 :: nat) < 256" "length oid < 65536" "length keyIdBytes < 256" "length sk < 65536"
    "length pk < 65536" "length nonce < 256" "length token < 256" "length oid = length (ascii_bytes oid)" by simp_all
  note s1 = tr_uint8_remains [OF r0 c(1)]
  note s2 = tr_uint16_remains [OF s1(2) c(2)]
  note s3 = tr_bytes_remains [OF s2(2) c(8)]
  note s4 = tr_uint8_remains [OF s3(2) c(3)]
  note s5 = tr_bytes_remains [OF s4(2) refl]
  note s6 = tr_uint16_remains [OF s5(2) c(4)]
  note s7 = tr_bytes_remains [OF s6(2) refl]
  note s8 = tr_uint16_remains [OF s7(2) c(5)]
  note s9 = tr_bytes_remains [OF s8(2) refl]
  note s10 = tr_uint8_remains [OF s9(2) c(6)]
  note s11 = tr_bytes_remains [OF s10(2) refl]
  note s12 = tr_uint8_remains [OF s11(2) c(7)]
  note s13 = tr_bytes_remains [OF s12(2) refl]
  note steps = s1(1) s2(1) s3(1) s4(1) s5(1) s6(1) s7(1) s8(1) s9(1) s10(1) s11(1) s12(1) s13(1)
  have "oid \<noteq> []" "sk \<noteq> []" "pk \<noteq> []" "nonce \<noteq> []" "token \<noteq> []" "ascii_text oid" using fits by auto
  then show ?thesis
    using remains_end [OF s13(2)] unfolding parseChipAuthTranscript_def steps rbind.simps prod.case TRANSCRIPT_VERSION_def
    by (simp add: decode_oid_ascii steps bytesToBigInt_be_nat)
qed

end
