(* ===== verification/Base64_Text.thy ===== *)
theory Base64_Text
  imports Js_Text Machines
begin

text \<open>
  Bytes as text: \<open>btoa\<close> and \<open>atob\<close> of the platform, which the services use for documents and
  secrets, and hexadecimal.
\<close>

section \<open>Hexadecimal\<close>

definition hex_digit :: "nat \<Rightarrow> char" where
  "hex_digit n = ''0123456789abcdef'' ! (n mod 16)"

definition hexBytes :: "bytes \<Rightarrow> string" where
  "hexBytes bs = concat (map (\<lambda>b. [hex_digit (unat b div 16), hex_digit (unat b mod 16)]) bs)"

section \<open>Coding and decoding\<close>

definition BASE64_ALPHABET :: string where
  "BASE64_ALPHABET = ''ABCDEFGHIJKLMNOPQRSTUVWXYZabcdefghijklmnopqrstuvwxyz0123456789+/''"

definition b64_char :: "nat \<Rightarrow> char" where
  "b64_char n = BASE64_ALPHABET ! (n mod 64)"

text \<open>\<open>btoa\<close>\<close>

fun btoa :: "bytes \<Rightarrow> string" where
  "btoa [] = []"
| "btoa [a] = [b64_char (unat a div 4), b64_char (unat a mod 4 * 16), CHR ''='', CHR ''='']"
| "btoa [a, b] =
     [b64_char (unat a div 4), b64_char (unat a mod 4 * 16 + unat b div 16), b64_char (unat b mod 16 * 4), CHR ''='']"
| "btoa (a # b # c # bs) =
     [b64_char (unat a div 4), b64_char (unat a mod 4 * 16 + unat b div 16),
      b64_char (unat b mod 16 * 4 + unat c div 64), b64_char (unat c)] @ btoa bs"

text \<open>The place of a character in the alphabet; the bytes of groups of four characters, the last one possibly short.\<close>

definition b64_value :: "char \<Rightarrow> nat" where
  "b64_value c = length (takeWhile (\<lambda>d. d \<noteq> c) BASE64_ALPHABET)"

fun b64_bytes :: "nat list \<Rightarrow> bytes" where
  "b64_bytes (a # b # c # d # vs) =
     of_nat (a * 4 + b div 16) # of_nat (b mod 16 * 16 + c div 4) # of_nat (c mod 4 * 64 + d) # b64_bytes vs"
| "b64_bytes [a, b, c] = [of_nat (a * 4 + b div 16), of_nat (b mod 16 * 16 + c div 4)]"
| "b64_bytes [a, b] = [of_nat (a * 4 + b div 16)]"
| "b64_bytes _ = []"

text \<open>
  \<open>atob\<close>: white space is dropped, up to two padding characters when the length is a multiple of
  four; it throws on a length that is one above such a multiple and on a foreign character.
\<close>

definition drop_padding :: "string \<Rightarrow> string" where
  "drop_padding s =
     (if length s mod 4 \<noteq> 0 then s
      else case rev s of
        c # d # r \<Rightarrow> if c = CHR ''='' then (if d = CHR ''='' then rev r else rev (d # r)) else s
      | _ \<Rightarrow> s)"

definition atob :: "string \<Rightarrow> bytes option" where
  "atob text =
     (let s = drop_padding (filter (\<lambda>c. c \<notin> set [CHR '' '', CHR 0x09, CHR 0x0A, CHR 0x0C, CHR 0x0D]) text)
      in if length s mod 4 = 1 \<or> \<not> list_all (\<lambda>c. c \<in> set BASE64_ALPHABET) s then None
         else Some (b64_bytes (map b64_value s)))"

section \<open>Round trip\<close>

text \<open>The groups of six bits of a text of bytes, and the number of padding characters after them.\<close>

fun b64_groups :: "bytes \<Rightarrow> nat list" where
  "b64_groups [] = []"
| "b64_groups [a] = [unat a div 4, unat a mod 4 * 16]"
| "b64_groups [a, b] = [unat a div 4, unat a mod 4 * 16 + unat b div 16, unat b mod 16 * 4]"
| "b64_groups (a # b # c # bs) =
     [unat a div 4, unat a mod 4 * 16 + unat b div 16, unat b mod 16 * 4 + unat c div 64, unat c mod 64] @ b64_groups bs"

lemma byte_parts [simp]:
  "unat (a :: byte) div 4 < 64" "unat a div 16 < 16" "unat a div 64 < 4"
proof -
  have "unat a < 256" by simp
  then show "unat a div 4 < 64" "unat a div 16 < 16" "unat a div 64 < 4" by linarith+
qed

lemma six_bits:
  "x < 16 \<Longrightarrow> m mod 4 * 16 + x < 64" "y < 4 \<Longrightarrow> m mod 16 * 4 + y < 64" "m mod 4 * 16 < (64 :: nat)" "m mod 16 * 4 < 64"
  "m mod 64 < 64" for m x y :: nat
  by linarith+

lemma b64_groups_less: "\<forall>v \<in> set (b64_groups bs). v < 64"
  by (induction bs rule: b64_groups.induct) (simp_all add: six_bits)

lemma b64_groups_length: "length (b64_groups bs) mod 4 \<noteq> 1"
  by (induction bs rule: b64_groups.induct) auto

lemma b64_char_mod [simp]: "b64_char (n mod 64) = b64_char n"
  by (simp add: b64_char_def)

lemma replicate_two: "replicate 2 x = [x, x]"
  by (simp add: numeral_2_eq_2)

lemma btoa_groups:
  "btoa bs = map b64_char (b64_groups bs) @ replicate ((4 - length (b64_groups bs) mod 4) mod 4) CHR ''=''"
proof (induction bs rule: btoa.induct)
  case (4 a b c bs)
  then show ?case by simp
qed (simp_all add: replicate_two)

lemma b64_bytes_groups: "b64_bytes (b64_groups bs) = bs"
proof (induction bs rule: b64_groups.induct)
  case (2 a)
  have "unat a div 4 * 4 + unat a mod 4 * 16 div 16 = unat a" by simp
  then show ?case by (simp del: of_nat_add of_nat_mult)
next
  case (3 a b)
  have b: "unat b div 16 < 16" by simp
  have "(unat a mod 4 * 16 + unat b div 16) div 16 = unat a mod 4" using b by linarith
  then have 1: "unat a div 4 * 4 + (unat a mod 4 * 16 + unat b div 16) div 16 = unat a" by simp
  have "(unat a mod 4 * 16 + unat b div 16) mod 16 = unat b div 16" using b by simp
  then have 2: "(unat a mod 4 * 16 + unat b div 16) mod 16 * 16 + unat b mod 16 * 4 div 4 = unat b" by simp
  show ?case using 1 2 by (simp del: of_nat_add of_nat_mult)
next
  case (4 a b c bs)
  have b: "unat b div 16 < 16" "unat c div 64 < 4" by simp_all
  have "(unat a mod 4 * 16 + unat b div 16) div 16 = unat a mod 4" using b by linarith
  then have 1: "unat a div 4 * 4 + (unat a mod 4 * 16 + unat b div 16) div 16 = unat a" by simp
  have "(unat a mod 4 * 16 + unat b div 16) mod 16 = unat b div 16"
    "(unat b mod 16 * 4 + unat c div 64) div 4 = unat b mod 16" using b by simp_all
  then have 2: "(unat a mod 4 * 16 + unat b div 16) mod 16 * 16 + (unat b mod 16 * 4 + unat c div 64) div 4 = unat b"
    by simp
  have "(unat b mod 16 * 4 + unat c div 64) mod 4 = unat c div 64" using b by simp
  then have 3: "(unat b mod 16 * 4 + unat c div 64) mod 4 * 64 + unat c mod 64 = unat c" by simp
  show ?case using 1 2 3 4 by (simp del: of_nat_add of_nat_mult)
qed simp

lemma takeWhile_nth: "distinct xs \<Longrightarrow> n < length xs \<Longrightarrow> length (takeWhile (\<lambda>d. d \<noteq> xs ! n) xs) = n"
proof (induction xs arbitrary: n)
  case (Cons x xs)
  then show ?case by (cases n) auto
qed simp

lemma alphabet_facts:
  shows alphabet_distinct: "distinct BASE64_ALPHABET" and alphabet_length [simp]: "length BASE64_ALPHABET = 64"
    and alphabet_foreign: "\<forall>c \<in> set BASE64_ALPHABET. c \<notin> {CHR ''='', CHR ''.'', CHR ''-'', CHR ''_'',
      CHR '' '', CHR 0x09, CHR 0x0A, CHR 0x0C, CHR 0x0D}"
  by (simp_all add: BASE64_ALPHABET_def)

lemma b64_value_char: "v < 64 \<Longrightarrow> b64_value (b64_char v) = v"
  by (simp add: b64_value_def b64_char_def takeWhile_nth alphabet_distinct)

lemma b64_char_in: "b64_char v \<in> set BASE64_ALPHABET"
  by (simp add: b64_char_def)

lemma drop_padding_pad:
  assumes "set s \<subseteq> set BASE64_ALPHABET" and "length s mod 4 \<noteq> 1"
  shows "drop_padding (s @ replicate ((4 - length s mod 4) mod 4) CHR ''='') = s"
proof -
  have l: "c \<noteq> CHR ''=''" if "c \<in> set s" for c using that assms(1) alphabet_foreign by blast
  have "length s mod 4 < 4" by simp
  with assms(2) consider "length s mod 4 = 0" | "length s mod 4 = 2" | "length s mod 4 = 3" by linarith
  then show ?thesis
  proof cases
    case 1
    then show ?thesis using l by (auto simp: drop_padding_def split: list.splits dest: arg_cong [of _ _ set])
  next
    case 2
    then have "(length s + 2) mod 4 = 0" by presburger
    with 2 show ?thesis by (simp add: drop_padding_def numeral_2_eq_2)
  next
    case 3
    then have m: "(length s + 1) mod 4 = 0" by presburger
    from 3 have "s \<noteq> []" by auto
    then obtain d r where r: "rev s = d # r" by (metis rev_is_Nil_conv neq_Nil_conv)
    then have "d \<in> set s" by (metis list.set_intros(1) set_rev)
    then have "d \<noteq> CHR ''=''" by (rule l)
    with 3 m r show ?thesis by (simp add: drop_padding_def)
  qed
qed

text \<open>Text of the alphabet, padded to a multiple of four, is read back as its groups.\<close>

lemma atob_groups:
  "atob (map b64_char (b64_groups bs) @ replicate ((4 - length (b64_groups bs) mod 4) mod 4) CHR ''='') = Some bs"
proof -
  let ?g = "b64_groups bs" and ?s = "map b64_char (b64_groups bs)"
  let ?p = "replicate ((4 - length ?g mod 4) mod 4) CHR ''=''"
  have s: "set ?s \<subseteq> set BASE64_ALPHABET" using b64_char_in by auto
  have "\<forall>c \<in> set (?s @ ?p). c \<notin> set [CHR '' '', CHR 0x09, CHR 0x0A, CHR 0x0C, CHR 0x0D]"
    using s alphabet_foreign by auto
  then have f: "filter (\<lambda>c. c \<notin> set [CHR '' '', CHR 0x09, CHR 0x0A, CHR 0x0C, CHR 0x0D]) (?s @ ?p) = ?s @ ?p"
    by (simp only: filter_id_conv)
  have d: "drop_padding (?s @ ?p) = ?s" using drop_padding_pad [OF s] b64_groups_length [of bs] by simp
  have v: "map b64_value ?s = ?g"
    using b64_groups_less by (simp add: map_idI b64_value_char)
  have "list_all (\<lambda>c. c \<in> set BASE64_ALPHABET) ?s" using s by (auto simp: list_all_iff)
  then show ?thesis
    using b64_groups_length [of bs] unfolding atob_def Let_def f d v by (simp add: b64_bytes_groups)
qed

lemma atob_btoa: "atob (btoa bs) = Some bs"
  by (simp add: btoa_groups atob_groups)

interpretation base64: codec btoa atob
  by unfold_locales (rule atob_btoa)

end
