(* ===== verification/Chip_Auth.thy ===== *)
theory Chip_Auth
  imports Aes_Cmac Chip_Documents Base64_Text
begin

unbundle bit_operations_syntax

text \<open>
  Chip authentication (\<open>chip-auth.ts\<close>, \<open>chip-auth-ecdh-validation.ts\<close>, \<open>chip-auth-ecdh.ts\<close>,
  \<open>chip-auth-kdf.ts\<close>, \<open>chip-auth-token.ts\<close>, \<open>chip-auth-public-key.ts\<close>): the server repeats the key
  agreement of the reader with the key the document carries and compares the chip's token. The
  theorems say exactly when it accepts, and that a device can write an accepted transcript itself.
  \<open>Inl\<close> is the message of an error nobody catches here; a verdict, good or bad, is on the right.
\<close>

section \<open>Key agreement\<close>

definition bytesToBase64Url :: "bytes \<Rightarrow> string" where
  "bytesToBase64Url bs =
     (let s = replace_char (CHR ''/'') ''_'' (replace_char (CHR ''+'') ''-'' (btoa bs))
      in rev (dropWhile (\<lambda>c. c = CHR ''='') (rev s)))"

definition deriveEcdhSharedSecret ::
  "platform \<Rightarrow> bytes \<Rightarrow> nat \<Rightarrow> string \<Rightarrow> bytes \<Rightarrow> bytes \<Rightarrow> string + bytes" where
  "deriveEcdhSharedSecret pf chipPoint curveCoordBytes curveName terminalPoint terminalScalar =
     (if length chipPoint \<noteq> 1 + 2 * curveCoordBytes then Inl ''chip_auth_chip_point_length_invalid''
      else if length terminalPoint \<noteq> 1 + 2 * curveCoordBytes then Inl ''chip_auth_terminal_point_length_invalid''
      else if length terminalScalar \<noteq> curveCoordBytes then Inl ''chip_auth_terminal_scalar_length_invalid''
      else
        let terminalX = js_slice terminalPoint 1 (1 + curveCoordBytes);
            terminalY = drop (1 + curveCoordBytes) terminalPoint;
            chipX = js_slice chipPoint 1 (1 + curveCoordBytes);
            chipY = drop (1 + curveCoordBytes) chipPoint
        in pf_ecdh pf curveName (bytesToBase64Url terminalScalar)
             (bytesToBase64Url terminalX, bytesToBase64Url terminalY)
             (bytesToBase64Url chipX, bytesToBase64Url chipY) (curveCoordBytes * 8))"

section \<open>Key derivation\<close>

definition KDF_COUNTER_KENC :: nat where "KDF_COUNTER_KENC = 1"
definition KDF_COUNTER_KMAC :: nat where "KDF_COUNTER_KMAC = 2"

definition counterBytes :: "nat \<Rightarrow> bytes" where
  "counterBytes value = map (\<lambda>k. of_nat (drop_bit k value AND 0xff)) [24, 16, 8, 0]"

definition kdf :: "platform \<Rightarrow> nat \<Rightarrow> hash_algorithm \<Rightarrow> nat \<Rightarrow> bytes \<Rightarrow> bytes \<Rightarrow> string + bytes" where
  "kdf pf counter hash keyLength nonce sharedSecret =
     rbind (pf_digest pf hash (sharedSecret @ nonce @ counterBytes counter)) (\<lambda>result.
       Inr (js_slice result 0 keyLength))"

definition deriveChipAuthKEnc :: "platform \<Rightarrow> hash_algorithm \<Rightarrow> nat \<Rightarrow> bytes \<Rightarrow> bytes \<Rightarrow> string + bytes" where
  "deriveChipAuthKEnc pf hash keyLength nonce sharedSecret =
     kdf pf KDF_COUNTER_KENC hash keyLength nonce sharedSecret"

definition deriveChipAuthKMac :: "platform \<Rightarrow> hash_algorithm \<Rightarrow> nat \<Rightarrow> bytes \<Rightarrow> bytes \<Rightarrow> string + bytes" where
  "deriveChipAuthKMac pf hash keyLength nonce sharedSecret =
     kdf pf KDF_COUNTER_KMAC hash keyLength nonce sharedSecret"

section \<open>Token\<close>

definition TR_03110_PUBLIC_KEY_TOKEN_TAG :: bytes where "TR_03110_PUBLIC_KEY_TOKEN_TAG = [0x7f, 0x49]"
definition CHIP_AUTH_DH_VALUE_TAG :: byte where "CHIP_AUTH_DH_VALUE_TAG = 0x84"
definition ECDH_POINT_TAG :: byte where "ECDH_POINT_TAG = 0x86"

fun length_bytes :: "nat \<Rightarrow> bytes" where
  "length_bytes remaining =
     (if remaining = 0 then [] else length_bytes (remaining div 0x100) @ [of_nat (remaining AND 0xff)])"

declare length_bytes.simps [simp del]

definition encodeBerLength :: "nat \<Rightarrow> bytes" where
  "encodeBerLength len =
     (if len < 0x80 then [of_nat len]
      else let bs = length_bytes len in of_nat (0x80 OR length bs) # bs)"

definition encodeAuthenticatedPublicKey :: "platform \<Rightarrow> string \<Rightarrow> byte \<Rightarrow> bytes \<Rightarrow> bytes" where
  "encodeAuthenticatedPublicKey pf algorithmOid innerTag innerValue =
     (let oidTlv = pf_oid_ber pf algorithmOid;
          innerTlv = [innerTag] @ encodeBerLength (length innerValue) @ innerValue;
          body = oidTlv @ innerTlv
      in TR_03110_PUBLIC_KEY_TOKEN_TAG @ encodeBerLength (length body) @ body)"

section \<open>The chip's key\<close>

definition UNCOMPRESSED_POINT_PREFIX :: byte where "UNCOMPRESSED_POINT_PREFIX = 0x04"

definition NAMED_CURVE_BY_OID :: "(string \<times> string \<times> nat) list" where
  "NAMED_CURVE_BY_OID =
     [(''1.2.840.10045.3.1.7'', ''P-256'', 32), (''1.3.132.0.34'', ''P-384'', 48), (''1.3.132.0.35'', ''P-521'', 66)]"

text \<open>\<open>None\<close> when it throws; the caller does not read the message.\<close>

definition parseChipPublicKeyInfo :: "platform \<Rightarrow> bytes \<Rightarrow> (public_key_info \<times> string option) option" where
  "parseChipPublicKeyInfo pf bs =
     (case parseBer pf bs ''chip_auth_public_key_parse_failed'' of
        Inl _ \<Rightarrow> None
      | Inr schema \<Rightarrow>
          (case pf_public_key_info pf schema of
             None \<Rightarrow> None
           | Some info \<Rightarrow>
               (case pk_algorithmId info of
                  None \<Rightarrow> None
                | Some algorithmId \<Rightarrow>
                    Some (info, if algorithmId = ECDSA_PUBLIC_KEY_OID then pk_paramsOid info else None))))"

definition namedCurveFromOid :: "string option \<Rightarrow> (string \<times> nat) option" where
  "namedCurveFromOid oid = (case oid of None \<Rightarrow> None | Some s \<Rightarrow> if s = [] then None else map_of NAMED_CURVE_BY_OID s)"

definition chipUncompressedPoint :: "public_key_info \<Rightarrow> bytes option" where
  "chipUncompressedPoint info =
     (let bs = pk_subjectPublicKey info
      in if length bs = 0 \<or> bs ! 0 \<noteq> UNCOMPRESSED_POINT_PREFIX then None else Some bs)"

section \<open>Verification\<close>

datatype chip_auth_failure =
  algorithm_unsupported | chip_curve_unsupported | chip_public_key_invalid | chip_public_key_not_found
| chip_token_mismatch | dg14_missing | dg14_parse_failed | dh_unsupported | info_not_found
| key_agreement_failed | mac_algorithm_unsupported | sod_dg14_hash_mismatch | terminal_public_key_invalid
| transcript_missing | transcript_parse_failed

datatype chip_auth_result =
  Chip_auth_ok string key_agreement
| Chip_auth_failed chip_auth_failure "text_points option"

definition verifyEcdhChipAuthentication ::
  "platform \<Rightarrow> chip_algorithm \<Rightarrow> chip_auth_key \<Rightarrow> chip_transcript \<Rightarrow> string + chip_auth_result" where
  "verifyEcdhChipAuthentication pf algorithm chipPublicKey transcript =
     (case parseChipPublicKeyInfo pf (ck_keyInfo chipPublicKey) of
        None \<Rightarrow> Inr (Chip_auth_failed chip_public_key_invalid None)
      | Some (info, namedCurveOid) \<Rightarrow>
          case namedCurveFromOid namedCurveOid of
            None \<Rightarrow> Inr (Chip_auth_failed chip_curve_unsupported None)
          | Some (curveName, coordBytes) \<Rightarrow>
              case chipUncompressedPoint info of
                None \<Rightarrow> Inr (Chip_auth_failed chip_public_key_invalid None)
              | Some chipPoint \<Rightarrow>
                  case deriveEcdhSharedSecret pf chipPoint coordBytes curveName (tr_publicKey transcript)
                         (tr_privateKey transcript) of
                    Inl message \<Rightarrow> Inr (Chip_auth_failed key_agreement_failed (Some (code_points message)))
                  | Inr sharedSecret \<Rightarrow>
                      rbind (deriveChipAuthKMac pf (ca_kdfHash algorithm) (ca_keyLength algorithm)
                               (tr_chipNonce transcript) sharedSecret) (\<lambda>kMac.
                      let tokenInput = encodeAuthenticatedPublicKey pf (ca_publicKeyOid algorithm) ECDH_POINT_TAG
                            (tr_publicKey transcript)
                      in if ca_mac algorithm \<noteq> AES_CMAC then Inr (Chip_auth_failed mac_algorithm_unsupported None)
                         else
                           rbind (aesCmac pf kMac tokenInput) (\<lambda>expectedFullMac.
                             if \<not> bytesEqual (truncateMacToken expectedFullMac) (tr_chipToken transcript)
                             then Inr (Chip_auth_failed chip_token_mismatch None)
                             else Inr (Chip_auth_ok (ca_oid algorithm) (ca_keyAgreement algorithm)))))"

definition validateChipAuthentication ::
  "platform \<Rightarrow> bytes \<Rightarrow> bytes \<Rightarrow> hash_algorithm option \<Rightarrow> bytes option \<Rightarrow> string + chip_auth_result" where
  "validateChipAuthentication pf chipAuthData dg14 sodAlgorithm sodDg14Hash =
     (if length dg14 = 0 then Inr (Chip_auth_failed dg14_missing None)
      else if length chipAuthData = 0 then Inr (Chip_auth_failed transcript_missing None)
      else
        rbind (sod_hash_matches pf sodAlgorithm sodDg14Hash dg14) (\<lambda>same.
        if \<not> same then Inr (Chip_auth_failed sod_dg14_hash_mismatch None)
        else
          case parseChipAuthTranscript pf chipAuthData of
            Inl message \<Rightarrow> Inr (Chip_auth_failed transcript_parse_failed (Some (code_points message)))
          | Inr transcript \<Rightarrow>
              case chipAuthAlgorithmFromOid (tr_oid transcript) of
                Reg_null \<Rightarrow> Inr (Chip_auth_failed algorithm_unsupported (Some (tr_oid transcript)))
              | found \<Rightarrow>
                  case parseDg14 pf dg14 of
                    Inl message \<Rightarrow> Inr (Chip_auth_failed dg14_parse_failed (Some (code_points message)))
                  | Inr parsed \<Rightarrow>
                      case found of
                        Reg_algorithm algorithm \<Rightarrow>
                          (case selectChipAuthInfo (d14_infos parsed) (ca_oid algorithm) (tr_keyId transcript) of
                             None \<Rightarrow> Inr (Chip_auth_failed info_not_found None)
                           | Some info \<Rightarrow>
                               (case selectChipAuthPublicKey (d14_keys parsed) algorithm (tr_keyId transcript) of
                                  None \<Rightarrow> Inr (Chip_auth_failed chip_public_key_not_found None)
                                | Some chipPublicKey \<Rightarrow>
                                    if ca_keyAgreement algorithm = KA_DH then Inr (Chip_auth_failed dh_unsupported None)
                                    else if at_opt (tr_publicKey transcript) 0 \<noteq> Some UNCOMPRESSED_POINT_PREFIX
                                      then Inr (Chip_auth_failed terminal_public_key_invalid None)
                                    else if ca_mac algorithm \<noteq> AES_CMAC
                                      then Inr (Chip_auth_failed mac_algorithm_unsupported None)
                                    else verifyEcdhChipAuthentication pf algorithm chipPublicKey transcript))
                      | _ \<Rightarrow> Inr (Chip_auth_failed info_not_found None)))"

section \<open>What is relied on of the platform\<close>

text \<open>
  Digests have the length of their algorithm, and the two hashes of the key derivation, which the
  Web Cryptography API prescribes, are there.
\<close>

definition digests_ok :: "platform \<Rightarrow> bool" where
  "digests_ok pf \<longleftrightarrow>
     (\<forall>h bs d. pf_digest pf h bs = Inr d \<longrightarrow> length d = hash_length h) \<and>
     (\<forall>h \<in> {SHA_1, SHA_256}. \<forall>bs. \<exists>d. pf_digest pf h bs = Inr d)"

definition digest_of :: "platform \<Rightarrow> hash_algorithm \<Rightarrow> bytes \<Rightarrow> bytes" where
  "digest_of pf h bs = (case pf_digest pf h bs of Inl _ \<Rightarrow> [] | Inr d \<Rightarrow> d)"

lemma digest_of_Inr:
  "digests_ok pf \<Longrightarrow> h \<in> {SHA_1, SHA_256} \<Longrightarrow> pf_digest pf h bs = Inr (digest_of pf h bs)"
  unfolding digests_ok_def digest_of_def by (metis sum.simps(6))

lemma length_digest_of:
  "digests_ok pf \<Longrightarrow> h \<in> {SHA_1, SHA_256} \<Longrightarrow> length (digest_of pf h bs) = hash_length h"
  using digest_of_Inr [of pf h bs] unfolding digests_ok_def by blast

section \<open>The token\<close>

text \<open>The token both sides compute: the start of the MAC, under the derived key, of the reader's public key.\<close>

definition expected_token :: "platform \<Rightarrow> chip_algorithm \<Rightarrow> bytes \<Rightarrow> bytes \<Rightarrow> bytes \<Rightarrow> bytes" where
  "expected_token pf a secret nonce pk =
     (let kMac = take (ca_keyLength a) (digest_of pf (ca_kdfHash a) (secret @ nonce @ [0, 0, 0, 2]))
      in take 8 (cmac_reference (encrypt_block pf kMac)
           (encodeAuthenticatedPublicKey pf (ca_publicKeyOid a) ECDH_POINT_TAG pk)))"

text \<open>The secret shared between the key of an entry of data group 14 and a key pair of the reader.\<close>

definition chip_key_agreement :: "platform \<Rightarrow> chip_auth_key \<Rightarrow> bytes \<Rightarrow> bytes \<Rightarrow> bytes option" where
  "chip_key_agreement pf e sk pk =
     (case parseChipPublicKeyInfo pf (ck_keyInfo e) of
        None \<Rightarrow> None
      | Some (info, curveOid) \<Rightarrow>
          (case (namedCurveFromOid curveOid, chipUncompressedPoint info) of
             (Some (curve, n), Some point) \<Rightarrow>
               (case deriveEcdhSharedSecret pf point n curve pk sk of Inl _ \<Rightarrow> None | Inr secret \<Rightarrow> Some secret)
           | _ \<Rightarrow> None))"

lemma registry_entry:
  assumes "chipAuthAlgorithmFromOid oid = Reg_algorithm a"
  shows "a \<in> snd ` set ALGORITHMS" and "oid = code_points (ca_oid a)"
proof -
  from assms have "map_of (map (\<lambda>(k, a). (code_points k, a)) ALGORITHMS) oid = Some a"
    by (auto simp: chipAuthAlgorithmFromOid_def split: option.splits if_splits)
  from map_of_SomeD [OF this] obtain k where k: "oid = code_points k" "(k, a) \<in> set ALGORITHMS"
    by auto
  then show "a \<in> snd ` set ALGORITHMS" by force
  from k show "oid = code_points (ca_oid a)" by (auto simp: ALGORITHMS_def chip_entry_def)
qed

lemma registry_lookup:
  assumes "a \<in> snd ` set ALGORITHMS"
  shows "chipAuthAlgorithmFromOid (code_points (ca_oid a)) = Reg_algorithm a"
proof -
  have keys: "distinct (map fst ALGORITHMS)" by code_simp
  have gen: "map_of (map (\<lambda>(k, a). (code_points k, a)) xs) (code_points k) = map_of xs k" for k and xs :: "(string \<times> chip_algorithm) list"
    by (induction xs) auto
  have "\<forall>x \<in> set ALGORITHMS. ca_oid (snd x) = fst x" by (simp add: ALGORITHMS_def chip_entry_def)
  moreover from assms obtain k where "(k, a) \<in> set ALGORITHMS" by auto
  ultimately have "(ca_oid a, a) \<in> set ALGORITHMS" by force
  with keys have "map_of ALGORITHMS (ca_oid a) = Some a" by simp
  then show ?thesis unfolding chipAuthAlgorithmFromOid_def gen by simp
qed

lemma registry_key_length:
  assumes "a \<in> snd ` set ALGORITHMS"
  shows "ca_keyLength a \<in> {16, 24, 32}" and "ca_keyLength a \<le> hash_length (ca_kdfHash a)"
    and "ca_kdfHash a \<in> {SHA_1, SHA_256}" and "ca_publicKeyOid a = (case ca_keyAgreement a of KA_DH \<Rightarrow> ID_PK_DH_OID | KA_ECDH \<Rightarrow> ID_PK_ECDH_OID)"
  using assms by (auto simp: ALGORITHMS_def chip_entry_def)

lemma registry_oid:
  assumes "a \<in> snd ` set ALGORITHMS"
  shows "ascii_text (ca_oid a)" and "0 < length (ca_oid a)" and "length (ca_oid a) < 65536"
proof -
  note oids = ID_CA_DH_3DES_CBC_CBC_OID_def ID_CA_DH_AES_CBC_CMAC_128_OID_def ID_CA_DH_AES_CBC_CMAC_192_OID_def
    ID_CA_DH_AES_CBC_CMAC_256_OID_def ID_CA_ECDH_3DES_CBC_CBC_OID_def ID_CA_ECDH_AES_CBC_CMAC_128_OID_def
    ID_CA_ECDH_AES_CBC_CMAC_192_OID_def ID_CA_ECDH_AES_CBC_CMAC_256_OID_def
  from assms have "ca_oid a \<in> set (map fst ALGORITHMS)" by (auto simp: ALGORITHMS_def chip_entry_def)
  then show "ascii_text (ca_oid a)" "0 < length (ca_oid a)" "length (ca_oid a) < 65536"
    by (auto simp: ALGORITHMS_def chip_entry_def oids ascii_text_def)
qed

lemma kmac_value:
  assumes "digests_ok pf" and "a \<in> snd ` set ALGORITHMS"
  shows "deriveChipAuthKMac pf (ca_kdfHash a) (ca_keyLength a) nonce secret =
    Inr (take (ca_keyLength a) (digest_of pf (ca_kdfHash a) (secret @ nonce @ [0, 0, 0, 2])))"
proof -
  have "counterBytes KDF_COUNTER_KMAC = [0, 0, 0, 2]"
    by (simp add: counterBytes_def KDF_COUNTER_KMAC_def and_255 drop_bit_eq_div)
  moreover note digest_of_Inr [OF assms(1) registry_key_length(3) [OF assms(2)]]
  ultimately show ?thesis
    unfolding deriveChipAuthKMac_def kdf_def by (simp add: js_slice_def)
qed

lemma token_value:
  assumes "cipher_ok pf" and "digests_ok pf" and "a \<in> snd ` set ALGORITHMS"
    and "kMac = take (ca_keyLength a) (digest_of pf (ca_kdfHash a) (secret @ nonce @ [0, 0, 0, 2]))"
  obtains mac where "aesCmac pf kMac (encodeAuthenticatedPublicKey pf (ca_publicKeyOid a) ECDH_POINT_TAG pk) = Inr mac"
    and "truncateMacToken mac = expected_token pf a secret nonce pk"
proof -
  note key = registry_key_length [OF assms(3)]
  let ?input = "encodeAuthenticatedPublicKey pf (ca_publicKeyOid a) ECDH_POINT_TAG pk"
  have "length kMac = ca_keyLength a"
    using length_digest_of [OF assms(2) key(3)] key(2) by (simp add: assms(4))
  then have "length kMac \<in> {16, 24, 32}" using key(1) by simp
  from that [OF aesCmac_value [OF assms(1) this]] show ?thesis
    by (simp add: expected_token_def Let_def truncateMacToken_def js_slice_def AES_CMAC_TRUNCATED_TOKEN_BYTES_def assms(4))
qed

lemma verify_ecdh_exact:
  assumes "cipher_ok pf" and "digests_ok pf" and "a \<in> snd ` set ALGORITHMS" and "ca_mac a = AES_CMAC"
  shows "verifyEcdhChipAuthentication pf a e t = Inr (Chip_auth_ok oid ka) \<longleftrightarrow>
    oid = ca_oid a \<and> ka = ca_keyAgreement a \<and>
    (\<exists>secret. chip_key_agreement pf e (tr_privateKey t) (tr_publicKey t) = Some secret \<and>
       tr_chipToken t = expected_token pf a secret (tr_chipNonce t) (tr_publicKey t))"
proof (cases "chip_key_agreement pf e (tr_privateKey t) (tr_publicKey t)")
  case None
  then show ?thesis
    by (auto simp: verifyEcdhChipAuthentication_def chip_key_agreement_def split: option.splits sum.splits prod.splits)
next
  case (Some secret)
  obtain mac where mac: "aesCmac pf (take (ca_keyLength a) (digest_of pf (ca_kdfHash a) (secret @ tr_chipNonce t @ [0, 0, 0, 2])))
      (encodeAuthenticatedPublicKey pf (ca_publicKeyOid a) ECDH_POINT_TAG (tr_publicKey t)) = Inr mac"
    "truncateMacToken mac = expected_token pf a secret (tr_chipNonce t) (tr_publicKey t)"
    using token_value [OF assms(1-3) refl] by metis
  from Some kmac_value [OF assms(2,3)] mac show ?thesis
    by (auto simp: verifyEcdhChipAuthentication_def chip_key_agreement_def assms(4)
        split: option.splits sum.splits prod.splits if_splits)
qed

section \<open>Guarantees\<close>

lemma chip_accepts_iff:
  assumes "cipher_ok pf" and "digests_ok pf"
  shows "validateChipAuthentication pf chipAuthData dg14 None None = Inr (Chip_auth_ok oid ka) \<longleftrightarrow>
    dg14 \<noteq> [] \<and> ka = KA_ECDH \<and>
    (\<exists>t a d i e secret.
       parseChipAuthTranscript pf chipAuthData = Inr t \<and> parseDg14 pf dg14 = Inr d \<and>
       a \<in> snd ` set ALGORITHMS \<and> ca_keyAgreement a = KA_ECDH \<and> ca_mac a = AES_CMAC \<and>
       oid = ca_oid a \<and> tr_oid t = code_points oid \<and>
       selectChipAuthInfo (d14_infos d) oid (tr_keyId t) = Some i \<and>
       selectChipAuthPublicKey (d14_keys d) a (tr_keyId t) = Some e \<and>
       at_opt (tr_publicKey t) 0 = Some UNCOMPRESSED_POINT_PREFIX \<and>
       chip_key_agreement pf e (tr_privateKey t) (tr_publicKey t) = Some secret \<and>
       tr_chipToken t = expected_token pf a secret (tr_chipNonce t) (tr_publicKey t))"
  (is "?lhs \<longleftrightarrow> ?rhs")
proof
  assume ok: ?lhs
  then obtain t where t: "parseChipAuthTranscript pf chipAuthData = Inr t" and ne: "dg14 \<noteq> []"
    by (auto simp: validateChipAuthentication_def sod_hash_matches_def split: if_splits sum.splits)
  from ok t obtain d a where d: "parseDg14 pf dg14 = Inr d" and a: "chipAuthAlgorithmFromOid (tr_oid t) = Reg_algorithm a"
    by (auto simp: validateChipAuthentication_def sod_hash_matches_def split: if_splits sum.splits registry_lookup.splits)
  note reg = registry_entry [OF a]
  from ok t d a ne obtain i e where sel: "selectChipAuthInfo (d14_infos d) (ca_oid a) (tr_keyId t) = Some i"
      "selectChipAuthPublicKey (d14_keys d) a (tr_keyId t) = Some e" "ca_keyAgreement a \<noteq> KA_DH"
      "at_opt (tr_publicKey t) 0 = Some UNCOMPRESSED_POINT_PREFIX" "ca_mac a = AES_CMAC"
      "verifyEcdhChipAuthentication pf a e t = Inr (Chip_auth_ok oid ka)"
    by (simp add: validateChipAuthentication_def sod_hash_matches_def split: if_splits option.splits)
  from sel(3) have ka: "ca_keyAgreement a = KA_ECDH" by (cases "ca_keyAgreement a") simp_all
  from verify_ecdh_exact [OF assms reg(1) sel(5)] sel(6) obtain secret where
    v: "oid = ca_oid a" "ka = ca_keyAgreement a" "chip_key_agreement pf e (tr_privateKey t) (tr_publicKey t) = Some secret"
      "tr_chipToken t = expected_token pf a secret (tr_chipNonce t) (tr_publicKey t)" by auto
  show ?rhs
    using ne ka t d reg sel v by (intro conjI exI) (assumption | simp)+
next
  assume ?rhs
  then obtain t a d i e secret where ne: "dg14 \<noteq> []" "ka = KA_ECDH"
    and t: "parseChipAuthTranscript pf chipAuthData = Inr t" and d: "parseDg14 pf dg14 = Inr d"
    and a: "a \<in> snd ` set ALGORITHMS" "ca_keyAgreement a = KA_ECDH" "ca_mac a = AES_CMAC"
    and oid: "oid = ca_oid a" "tr_oid t = code_points oid"
    and sel: "selectChipAuthInfo (d14_infos d) oid (tr_keyId t) = Some i"
      "selectChipAuthPublicKey (d14_keys d) a (tr_keyId t) = Some e"
      "at_opt (tr_publicKey t) 0 = Some UNCOMPRESSED_POINT_PREFIX"
    and tok: "chip_key_agreement pf e (tr_privateKey t) (tr_publicKey t) = Some secret"
      "tr_chipToken t = expected_token pf a secret (tr_chipNonce t) (tr_publicKey t)" by blast
  from t have "chipAuthData \<noteq> []" by (auto simp: parseChipAuthTranscript_def tr_uint8_def)
  moreover from registry_lookup [OF a(1)] oid have "chipAuthAlgorithmFromOid (tr_oid t) = Reg_algorithm a" by simp
  moreover from verify_ecdh_exact [OF assms a(1,3)] tok oid a(2) ne(2)
  have "verifyEcdhChipAuthentication pf a e t = Inr (Chip_auth_ok oid ka)" by simp
  ultimately show ?lhs using ne t d a(2,3) oid(1) sel
    by (simp add: validateChipAuthentication_def sod_hash_matches_def)
qed

text \<open>
  The transcript a device can write on its own: from the key the document publishes in data group
  14, a key pair and a nonce of the device's choice. No step uses the chip's private key.
\<close>

definition self_made_transcript ::
  "platform \<Rightarrow> chip_algorithm \<Rightarrow> chip_auth_key \<Rightarrow> bytes \<Rightarrow> bytes \<Rightarrow> bytes \<Rightarrow> bytes \<Rightarrow> bytes" where
  "self_made_transcript pf a e keyIdBytes sk pk nonce =
     (case chip_key_agreement pf e sk pk of
        None \<Rightarrow> []
      | Some secret \<Rightarrow>
          write_transcript (ca_oid a) keyIdBytes sk pk nonce (expected_token pf a secret nonce pk))"

lemma length_expected_token: "cipher_ok pf \<Longrightarrow> length (expected_token pf a secret nonce pk) = 8"
  by (simp add: expected_token_def Let_def length_cmac_reference AES_BLOCK_BYTES_def)

lemma self_made_accepted:
  assumes "cipher_ok pf" and "digests_ok pf" and "dg14 \<noteq> []" and "parseDg14 pf dg14 = Inr d"
    and "a \<in> snd ` set ALGORITHMS" and "ca_keyAgreement a = KA_ECDH" and "ca_mac a = AES_CMAC"
    and "keyId = (if keyIdBytes = [] then None else Some (be_nat keyIdBytes))"
    and "selectChipAuthInfo (d14_infos d) (ca_oid a) keyId = Some i"
    and "selectChipAuthPublicKey (d14_keys d) a keyId = Some e"
    and "chip_key_agreement pf e sk pk = Some secret" and "at_opt pk 0 = Some UNCOMPRESSED_POINT_PREFIX"
    and "length keyIdBytes < 256" and "0 < length sk" and "length sk < 65536" and "length pk < 65536"
    and "0 < length nonce" and "length nonce < 256"
  shows "validateChipAuthentication pf (self_made_transcript pf a e keyIdBytes sk pk nonce) dg14 None None =
    Inr (Chip_auth_ok (ca_oid a) KA_ECDH)"
proof -
  let ?token = "expected_token pf a secret nonce pk"
  have "0 < length pk" using assms(12) by auto
  then have "transcript_fits (ca_oid a) keyIdBytes sk pk nonce ?token"
    using assms registry_oid [OF assms(5)] length_expected_token [OF assms(1), of a secret nonce pk]
    by (simp add: transcript_fits_def)
  from transcript_reads_back [OF this, of pf] assms(8,11)
  have t: "parseChipAuthTranscript pf (self_made_transcript pf a e keyIdBytes sk pk nonce) =
    Inr \<lparr>tr_chipNonce = nonce, tr_chipToken = ?token, tr_keyId = keyId, tr_oid = code_points (ca_oid a),
         tr_privateKey = sk, tr_publicKey = pk\<rparr>" by (simp add: self_made_transcript_def)
  show ?thesis unfolding chip_accepts_iff [OF assms(1,2)]
    by (intro conjI exI; (rule t assms refl)?) (use assms in simp_all)
qed

section \<open>A document\<close>

text \<open>Data group 14 with one entry of each kind, on a platform that decodes it.\<close>

definition chip_platform :: platform where
  "chip_platform = zero_platform\<lparr>
     pf_ber := (\<lambda>bs. if bs = [1] then Some (Asn1_Set
         [Asn1_Sequence [Asn1_Oid ID_CA_ECDH_AES_CBC_CMAC_128_OID, Asn1_Integer [2], Asn1_Integer [5]],
          Asn1_Sequence [Asn1_Oid ID_PK_ECDH_OID, Asn1_Sequence [], Asn1_Integer [5]]])
       else Some (Asn1_Sequence [])),
     pf_toBer := (\<lambda>node. [0x30]),
     pf_public_key_info := (\<lambda>node. Some \<lparr>pk_algorithmId = Some ECDSA_PUBLIC_KEY_OID,
       pk_paramsOid = Some ''1.2.840.10045.3.1.7'', pk_subjectPublicKey = 4 # replicate 64 3\<rparr>)\<rparr>"

definition chip_algorithm_128 :: chip_algorithm where
  "chip_algorithm_128 = snd (chip_entry ID_CA_ECDH_AES_CBC_CMAC_128_OID Cipher_AES_128 KA_ECDH SHA_1 16 AES_CMAC ID_PK_ECDH_OID)"

definition chip_info_128 :: chip_auth_info where
  "chip_info_128 = \<lparr>ci_algorithm = chip_algorithm_128, ci_keyId = Some 5, ci_version = 2\<rparr>"

definition chip_key_128 :: chip_auth_key where
  "chip_key_128 = \<lparr>ck_algorithm = KA_ECDH, ck_algorithmOid = ID_PK_ECDH_OID, ck_keyId = Some 5, ck_keyInfo = [0x30]\<rparr>"

lemma chip_platform_ok: "cipher_ok chip_platform" "digests_ok chip_platform"
  by (simp_all add: cipher_ok_def digests_ok_def chip_platform_def zero_platform_def AES_BLOCK_BYTES_def)

lemma chip_algorithm_128_in: "chip_algorithm_128 \<in> snd ` set ALGORITHMS"
  by (simp add: chip_algorithm_128_def ALGORITHMS_def)

lemma chip_dg14: "parseDg14 chip_platform [1] = Inr \<lparr>d14_aaHash = None, d14_infos = [chip_info_128], d14_keys = [chip_key_128]\<rparr>"
proof -
  have a: "chipAuthAlgorithmFromOid (code_points ID_CA_ECDH_AES_CBC_CMAC_128_OID) = Reg_algorithm chip_algorithm_128"
    using registry_lookup [OF chip_algorithm_128_in] by (simp add: chip_algorithm_128_def chip_entry_def)
  have b: "readChipAuthInfo (Asn1_Sequence [Asn1_Oid ID_PK_ECDH_OID, Asn1_Sequence [], Asn1_Integer [5]]) = None"
    by (simp add: readChipAuthInfo_def sequenceChildren_def)
  have v: "read_version [2] = 2" by (simp add: read_version_def)
  have neq: "ID_CA_ECDH_AES_CBC_CMAC_128_OID \<noteq> ID_AA_OID" "ID_PK_ECDH_OID \<noteq> ID_PK_DH_OID"
    by (simp_all add: ID_CA_ECDH_AES_CBC_CMAC_128_OID_def ID_AA_OID_def ID_PK_ECDH_OID_def ID_PK_DH_OID_def)
  have u: "unwrapDg14Body [1] = [1]" by (simp add: unwrapDg14Body_def readTlv_def readTlvTag_def readTlvLength_def)
  have i: "readChipAuthInfo (Asn1_Sequence [Asn1_Oid ID_CA_ECDH_AES_CBC_CMAC_128_OID, Asn1_Integer [2], Asn1_Integer [5]]) = Some chip_info_128"
    by (simp add: readChipAuthInfo_def sequenceChildren_def a v readKeyId_def at_opt_def bytesToBigInt_be_nat be_nat_Cons chip_info_128_def)
  have k: "readChipAuthPublicKeyInfo chip_platform (Asn1_Sequence [Asn1_Oid ID_PK_ECDH_OID, Asn1_Sequence [], Asn1_Integer [5]]) = Some chip_key_128"
    by (simp add: readChipAuthPublicKeyInfo_def sequenceChildren_def chipAuthPublicKeyAlgorithmFromOid_def neq readKeyId_def
        at_opt_def bytesToBigInt_be_nat be_nat_Cons chip_key_128_def chip_platform_def)
  show ?thesis
    by (simp add: parseDg14_def u parseBer_def chip_platform_def)
      (simp add: read_security_info_def i b k [unfolded chip_platform_def] readActiveAuthInfo_def sequenceChildren_def neq empty_dg14_def)
qed

lemma chip_selects:
  "selectChipAuthInfo [chip_info_128] (ca_oid chip_algorithm_128) (Some 5) = Some chip_info_128"
  "selectChipAuthPublicKey [chip_key_128] chip_algorithm_128 (Some 5) = Some chip_key_128"
  by (simp_all add: selectChipAuthInfo_def selectChipAuthPublicKey_def select_by_key_id_def chip_info_128_def
      chip_key_128_def chip_algorithm_128_def chip_entry_def)

lemma chip_agreement: "chip_key_agreement chip_platform chip_key_128 (replicate 32 9) (4 # replicate 64 7) = Some []"
  by (simp add: chip_key_agreement_def parseChipPublicKeyInfo_def parseBer_def chip_platform_def zero_platform_def
      namedCurveFromOid_def NAMED_CURVE_BY_OID_def chipUncompressedPoint_def UNCOMPRESSED_POINT_PREFIX_def
      deriveEcdhSharedSecret_def chip_key_128_def)

lemma chip_sample_facts:
  "ca_keyAgreement chip_algorithm_128 = KA_ECDH" "ca_mac chip_algorithm_128 = AES_CMAC"
  "at_opt (4 # replicate 64 7 :: bytes) 0 = Some UNCOMPRESSED_POINT_PREFIX"
  "Some (5 :: nat) = (if [5 :: byte] = [] then None else Some (be_nat [5]))"
  by (simp_all add: chip_algorithm_128_def chip_entry_def UNCOMPRESSED_POINT_PREFIX_def be_nat_Cons)

definition chip_sample_transcript :: bytes where
  "chip_sample_transcript =
     self_made_transcript chip_platform chip_algorithm_128 chip_key_128 [5] (replicate 32 9) (4 # replicate 64 7) [1]"

lemma chip_sample_accepted:
  "validateChipAuthentication chip_platform chip_sample_transcript [1] None None =
     Inr (Chip_auth_ok (ca_oid chip_algorithm_128) KA_ECDH)"
  unfolding chip_sample_transcript_def
  by (rule self_made_accepted [OF chip_platform_ok _ chip_dg14 chip_algorithm_128_in chip_sample_facts(1,2,4) _ _ chip_agreement
        chip_sample_facts(3)]) (simp_all add: chip_selects)

section \<open>Properties\<close>

text \<open>
  C15. The MAC the code computes from the cipher, block by block with its subkeys, is AES-CMAC as
  NIST SP 800-38B defines it: doublings in the field of 128-bit numbers, the last block masked with
  the first subkey when complete and padded and masked with the second when not. For a key of one
  of the three lengths it never throws.
\<close>

theorem aes_cmac_reference:
  assumes "cipher_ok pf" and "length key \<in> {16, 24, 32}"
  shows "aesCmac pf key message = Inr (cmac_reference (encrypt_block pf key) message)"
  using assms by (rule aesCmac_value)

theorem aes_cmac_reference_witness:
  "aesCmac chip_platform (replicate 16 0) [1] = Inr (cmac_reference (encrypt_block chip_platform (replicate 16 0)) [1])"
  by (rule aes_cmac_reference [OF chip_platform_ok(1)]) simp

text \<open>
  C13. Chip authentication succeeds exactly when the transcript is well formed, names a registered
  key agreement on a curve with an AES-CMAC, data group 14 has an information entry and a public key
  for it and for the transcript's key id, the reader's point is uncompressed, the key agreement with
  the document's key gives a secret, and the transcript's token is the one computed from that secret,
  the chip's nonce and the reader's public key.
\<close>

theorem chip_authentication_exact:
  assumes "cipher_ok pf" and "digests_ok pf"
  shows "validateChipAuthentication pf chipAuthData dg14 None None = Inr (Chip_auth_ok oid ka) \<longleftrightarrow>
    dg14 \<noteq> [] \<and> ka = KA_ECDH \<and>
    (\<exists>t a d i e secret.
       parseChipAuthTranscript pf chipAuthData = Inr t \<and> parseDg14 pf dg14 = Inr d \<and>
       a \<in> snd ` set ALGORITHMS \<and> ca_keyAgreement a = KA_ECDH \<and> ca_mac a = AES_CMAC \<and>
       oid = ca_oid a \<and> tr_oid t = code_points oid \<and>
       selectChipAuthInfo (d14_infos d) oid (tr_keyId t) = Some i \<and>
       selectChipAuthPublicKey (d14_keys d) a (tr_keyId t) = Some e \<and>
       at_opt (tr_publicKey t) 0 = Some UNCOMPRESSED_POINT_PREFIX \<and>
       chip_key_agreement pf e (tr_privateKey t) (tr_publicKey t) = Some secret \<and>
       tr_chipToken t = expected_token pf a secret (tr_chipNonce t) (tr_publicKey t))"
  using assms by (rule chip_accepts_iff)

theorem chip_authentication_exact_witness:
  "\<exists>t. parseChipAuthTranscript chip_platform chip_sample_transcript = Inr t \<and>
     tr_oid t = code_points (ca_oid chip_algorithm_128)"
  using chip_sample_accepted unfolding chip_authentication_exact [OF chip_platform_ok] by blast

text \<open>
  C14. A device needs no chip to pass chip authentication: for every document whose data group 14 has
  a key for an algorithm the server accepts, every key pair of its own for which the agreement works
  and every nonce, the transcript it computes from the public key in the document is accepted. The
  server takes the reader's private key and the chip's nonce from the same message as the token.
\<close>

theorem chip_transcript_is_self_made:
  assumes "cipher_ok pf" and "digests_ok pf" and "dg14 \<noteq> []" and "parseDg14 pf dg14 = Inr d"
    and "a \<in> snd ` set ALGORITHMS" and "ca_keyAgreement a = KA_ECDH" and "ca_mac a = AES_CMAC"
    and "keyId = (if keyIdBytes = [] then None else Some (be_nat keyIdBytes))"
    and "selectChipAuthInfo (d14_infos d) (ca_oid a) keyId = Some i"
    and "selectChipAuthPublicKey (d14_keys d) a keyId = Some e"
    and "chip_key_agreement pf e sk pk = Some secret" and "at_opt pk 0 = Some UNCOMPRESSED_POINT_PREFIX"
    and "length keyIdBytes < 256" and "0 < length sk" and "length sk < 65536" and "length pk < 65536"
    and "0 < length nonce" and "length nonce < 256"
  shows "validateChipAuthentication pf (self_made_transcript pf a e keyIdBytes sk pk nonce) dg14 None None =
    Inr (Chip_auth_ok (ca_oid a) KA_ECDH)"
  using assms by (rule self_made_accepted)

theorem chip_transcript_is_self_made_witness:
  "validateChipAuthentication chip_platform
     (self_made_transcript chip_platform chip_algorithm_128 chip_key_128 [5] (replicate 32 9) (4 # replicate 64 7) [1])
     [1] None None = Inr (Chip_auth_ok (ca_oid chip_algorithm_128) KA_ECDH)"
  by (rule chip_transcript_is_self_made [OF chip_platform_ok _ chip_dg14 chip_algorithm_128_in chip_sample_facts(1,2,4) _ _
        chip_agreement chip_sample_facts(3)]) (simp_all add: chip_selects)

end
