(* ===== verification/Active_Auth.thy ===== *)
theory Active_Auth
  imports Chip_Documents
begin

unbundle bit_operations_syntax

text \<open>
  Active authentication (\<open>active-auth.ts\<close>, \<open>active-auth-rsa.ts\<close>, \<open>active-auth-ecdsa.ts\<close>,
  \<open>dg15-parser.ts\<close>): the chip signs the server's challenge with the key of data group 15, with RSA
  and message recovery (ISO 9796-2) or with ECDSA. The theorems say exactly when an RSA signature is
  accepted, that the trailers of the standard are read as other hashes, and that a wrong ECDSA
  signature may throw. \<open>Inl\<close> is the message of an error nobody catches here.
\<close>

section \<open>Data group 15\<close>

definition DG15_ROOT_TAG :: nat where "DG15_ROOT_TAG = 0x6f"

datatype dg15_key_type = Key_rsa | Key_ecdsa

record parsed_dg15 =
  d15_keyInfo :: public_key_info
  d15_keyType :: dg15_key_type
  d15_keyInfoBytes :: bytes

definition unwrapDg15Body :: "bytes \<Rightarrow> bytes" where
  "unwrapDg15Body dg15 =
     (case readTlv dg15 0 of
        Inl _ \<Rightarrow> dg15
      | Inr root \<Rightarrow>
          if tlv_tag root = DG15_ROOT_TAG \<and> tlv_next root = length dg15 then tlv_bytes root else dg15)"

definition publicKeyTypeFromOid :: "string \<Rightarrow> string + dg15_key_type" where
  "publicKeyTypeFromOid oid =
     (if oid = RSA_ENCRYPTION_OID then Inr Key_rsa
      else if oid = ECDSA_PUBLIC_KEY_OID then Inr Key_ecdsa
      else Inl ''dg15_public_key_algorithm_unsupported'')"

definition parseDg15 :: "platform \<Rightarrow> bytes \<Rightarrow> string + parsed_dg15" where
  "parseDg15 pf dg15 =
     (if length dg15 = 0 then Inl ''dg15_missing''
      else
        let keyInfoBytes = unwrapDg15Body dg15
        in rbind (parseBer pf keyInfoBytes ''dg15_parse_failed'') (\<lambda>schema.
             case schema of
               Asn1_Sequence _ \<Rightarrow>
                 (case pf_public_key_info pf schema of
                    None \<Rightarrow> Inl ''dg15_parse_failed''
                  | Some info \<Rightarrow>
                      (case pk_algorithmId info of
                         None \<Rightarrow> Inl ''dg15_parse_failed''
                       | Some algorithmId \<Rightarrow>
                           rbind (publicKeyTypeFromOid algorithmId) (\<lambda>keyType.
                             Inr \<lparr>d15_keyInfo = info, d15_keyType = keyType, d15_keyInfoBytes = keyInfoBytes\<rparr>)))
             | _ \<Rightarrow> Inl ''dg15_parse_failed''))"

section \<open>Results\<close>

datatype active_auth_failure =
  challenge_invalid_length | challenge_mismatch | aa_dg14_parse_failed | dg15_missing | dg15_parse_failed
| public_key_invalid | signature_format_invalid | signature_invalid | signature_invalid_encoding
| signature_missing | sod_dg15_hash_mismatch | sod_dg15_hash_missing

datatype active_auth_result =
  Active_auth_ok dg15_key_type hash_algorithm
| Active_auth_failed active_auth_failure "text_points option"

section \<open>RSA\<close>

definition ISO_9796_2_LEADING_BYTE :: byte where "ISO_9796_2_LEADING_BYTE = 0x6a"
definition ISO_9796_2_IMPLICIT_TRAILER :: byte where "ISO_9796_2_IMPLICIT_TRAILER = 0xbc"
definition ISO_9796_2_EXPLICIT_TRAILER :: byte where "ISO_9796_2_EXPLICIT_TRAILER = 0xcc"

definition ISO_9796_2_EXPLICIT_HASH_BY_ID :: "(byte \<times> hash_algorithm) list" where
  "ISO_9796_2_EXPLICIT_HASH_BY_ID = [(51, SHA_256), (52, SHA_384), (53, SHA_512), (56, SHA_224)]"

text \<open>Exponent, modulus and the modulus's length; \<open>None\<close> when it throws, which the caller catches.\<close>

definition rsaPublicKeyComponents :: "platform \<Rightarrow> parsed_dg15 \<Rightarrow> (nat \<times> nat \<times> nat) option" where
  "rsaPublicKeyComponents pf d =
     (case parseBer pf (pk_subjectPublicKey (d15_keyInfo d)) ''dg15_rsa_key_invalid'' of
        Inr (Asn1_Sequence (Asn1_Integer modulusBytes # Asn1_Integer exponentBytes # _)) \<Rightarrow>
          (let trimmed = trimLeadingZero modulusBytes
           in Some (bytesToBigInt (trimLeadingZero exponentBytes), bytesToBigInt trimmed, length trimmed))
      | _ \<Rightarrow> None)"

text \<open>The hash, the recovered part of the message and the signed hash.\<close>

definition recoveryStructure :: "bytes \<Rightarrow> (hash_algorithm \<times> bytes \<times> bytes) option" where
  "recoveryStructure recovered =
     (let len = int (length recovered) in
      if length recovered = 0 \<or> recovered ! 0 \<noteq> ISO_9796_2_LEADING_BYTE then None
      else if recovered ! (length recovered - 1) = ISO_9796_2_IMPLICIT_TRAILER then
        (let hashStart = len - 1 - int (hash_length SHA_1)
         in if hashStart < 1 then None
            else Some (SHA_1, js_slice recovered 1 (nat hashStart),
                       js_slice recovered (nat hashStart) (length recovered - 1)))
      else if recovered ! (length recovered - 1) \<noteq> ISO_9796_2_EXPLICIT_TRAILER \<or> len < 3 then None
      else
        case map_of ISO_9796_2_EXPLICIT_HASH_BY_ID (recovered ! (length recovered - 2)) of
          None \<Rightarrow> None
        | Some h \<Rightarrow>
            (let hashStart = len - 2 - int (hash_length h)
             in if hashStart < 1 then None
                else Some (h, js_slice recovered 1 (nat hashStart),
                           js_slice recovered (nat hashStart) (length recovered - 2))))"

definition verifyRsaActiveAuthentication ::
  "platform \<Rightarrow> bytes \<Rightarrow> parsed_dg15 \<Rightarrow> bytes \<Rightarrow> string + active_auth_result" where
  "verifyRsaActiveAuthentication pf challenge d signature =
     (case rsaPublicKeyComponents pf d of
        None \<Rightarrow> Inr (Active_auth_failed public_key_invalid None)
      | Some (exponent, modulus, modulusBytes) \<Rightarrow>
          if length signature \<noteq> modulusBytes then Inr (Active_auth_failed signature_invalid_encoding None)
          else
            case modPow (bytesToBigInt signature) exponent modulus of
              None \<Rightarrow> Inl (pf_division_error pf)
            | Some opened \<Rightarrow>
                case recoveryStructure (bigIntToBytes opened modulusBytes) of
                  None \<Rightarrow> Inr (Active_auth_failed signature_format_invalid None)
                | Some (h, m1, signedHash) \<Rightarrow>
                    rbind (pf_digest pf h (m1 @ challenge)) (\<lambda>expectedHash.
                      if \<not> bytesEqual expectedHash signedHash then Inr (Active_auth_failed signature_invalid None)
                      else Inr (Active_auth_ok Key_rsa h)))"

section \<open>ECDSA\<close>

definition ECDSA_HASH_FALLBACKS :: "hash_algorithm list" where
  "ECDSA_HASH_FALLBACKS = [SHA_256, SHA_1, SHA_512, SHA_384, SHA_224]"

text \<open>\<open>None\<close> when it throws.\<close>

definition ecdsaCurveSize :: "parsed_dg15 \<Rightarrow> nat option" where
  "ecdsaCurveSize d =
     (let trimmed = pk_subjectPublicKey (d15_keyInfo d)
      in if length trimmed = 0 \<or> trimmed ! 0 \<noteq> 0x04 then None
         else if odd (length trimmed - 1) then None
         else Some ((length trimmed - 1) div 2))"

definition ecNamedCurveFromCoordinateBytes :: "nat \<Rightarrow> string option" where
  "ecNamedCurveFromCoordinateBytes n =
     (if n = 32 then Some ''P-256'' else if n = 48 then Some ''P-384'' else if n = 66 then Some ''P-521'' else None)"

definition importEcdsaPublicKey :: "platform \<Rightarrow> parsed_dg15 \<Rightarrow> bytes option" where
  "importEcdsaPublicKey pf d =
     Option.bind (ecdsaCurveSize d) (\<lambda>n.
     Option.bind (ecNamedCurveFromCoordinateBytes n) (\<lambda>curve.
       pf_ecdsa_key pf (d15_keyInfoBytes d) curve))"

definition verifyEcdsaActiveAuthenticationWithHash ::
  "platform \<Rightarrow> bytes \<Rightarrow> hash_algorithm \<Rightarrow> parsed_dg15 \<Rightarrow> bytes \<Rightarrow> bytes \<Rightarrow> string + bool" where
  "verifyEcdsaActiveAuthenticationWithHash pf challenge h d publicKey signature =
     (case ecdsaCurveSize d of
        None \<Rightarrow> Inl ''dg15_ec_uncompressed_point_required''
      | Some n \<Rightarrow>
          if length signature \<noteq> 2 * n then Inr False
          else pf_ecdsa_verify pf h publicKey signature challenge)"

definition ecdsaHashCandidates :: "hash_algorithm option \<Rightarrow> hash_algorithm list" where
  "ecdsaHashCandidates dg14Hash = (case dg14Hash of Some h \<Rightarrow> [h] | None \<Rightarrow> ECDSA_HASH_FALLBACKS)"

fun try_hashes ::
  "platform \<Rightarrow> bytes \<Rightarrow> parsed_dg15 \<Rightarrow> bytes \<Rightarrow> bytes \<Rightarrow> hash_algorithm list \<Rightarrow> string + active_auth_result" where
  "try_hashes pf challenge d publicKey signature [] = Inr (Active_auth_failed signature_invalid None)"
| "try_hashes pf challenge d publicKey signature (h # hs) =
     rbind (verifyEcdsaActiveAuthenticationWithHash pf challenge h d publicKey signature) (\<lambda>verified.
       if verified then Inr (Active_auth_ok Key_ecdsa h) else try_hashes pf challenge d publicKey signature hs)"

definition verifyEcdsaActiveAuthentication ::
  "platform \<Rightarrow> bytes \<Rightarrow> hash_algorithm option \<Rightarrow> parsed_dg15 \<Rightarrow> bytes \<Rightarrow> string + active_auth_result" where
  "verifyEcdsaActiveAuthentication pf challenge dg14Hash d signature =
     (case importEcdsaPublicKey pf d of
        None \<Rightarrow> Inr (Active_auth_failed public_key_invalid None)
      | Some publicKey \<Rightarrow> try_hashes pf challenge d publicKey signature (ecdsaHashCandidates dg14Hash))"

section \<open>Validation\<close>

definition AA_CHALLENGE_BYTES :: nat where "AA_CHALLENGE_BYTES = 8"

definition dg14_hash :: "platform \<Rightarrow> bytes option \<Rightarrow> string + hash_algorithm option" where
  "dg14_hash pf dg14 =
     (case dg14 of
        None \<Rightarrow> Inr None
      | Some bs \<Rightarrow> if 0 < length bs then rbind (parseDg14 pf bs) (\<lambda>p. Inr (d14_aaHash p)) else Inr None)"

definition validateActiveAuthentication ::
  "platform \<Rightarrow> bytes \<Rightarrow> bytes option \<Rightarrow> bytes \<Rightarrow> bytes option \<Rightarrow> bytes \<Rightarrow>
     hash_algorithm option \<Rightarrow> bytes option \<Rightarrow> string + active_auth_result" where
  "validateActiveAuthentication pf challenge dg14 dg15 expectedChallenge signature sodAlgorithm sodDg15Hash =
     (if length challenge \<noteq> AA_CHALLENGE_BYTES then Inr (Active_auth_failed challenge_invalid_length None)
      else if (case expectedChallenge of None \<Rightarrow> False | Some c \<Rightarrow> \<not> bytesEqual challenge c)
        then Inr (Active_auth_failed challenge_mismatch None)
      else if length signature = 0 then Inr (Active_auth_failed signature_missing None)
      else if length dg15 = 0 then Inr (Active_auth_failed dg15_missing None)
      else
        rbind (sod_hash_matches pf sodAlgorithm sodDg15Hash dg15) (\<lambda>same.
        if \<not> same then Inr (Active_auth_failed sod_dg15_hash_mismatch None)
        else
          case parseDg15 pf dg15 of
            Inl message \<Rightarrow> Inr (Active_auth_failed dg15_parse_failed (Some (code_points message)))
          | Inr parsedDg15 \<Rightarrow>
              case dg14_hash pf dg14 of
                Inl message \<Rightarrow> Inr (Active_auth_failed aa_dg14_parse_failed (Some (code_points message)))
              | Inr dg14Hash \<Rightarrow>
                  if d15_keyType parsedDg15 = Key_rsa
                  then verifyRsaActiveAuthentication pf challenge parsedDg15 signature
                  else verifyEcdsaActiveAuthentication pf challenge dg14Hash parsedDg15 signature))"

section \<open>The recovered block\<close>

text \<open>The trailer with which the code recognises a hash, by its table.\<close>

fun aa_trailer :: "hash_algorithm \<Rightarrow> bytes" where
  "aa_trailer SHA_1 = [0xbc]"
| "aa_trailer SHA_256 = [51, 0xcc]"
| "aa_trailer SHA_384 = [52, 0xcc]"
| "aa_trailer SHA_512 = [53, 0xcc]"
| "aa_trailer SHA_224 = [56, 0xcc]"

lemma recovered_explicit:
  assumes "map_of ISO_9796_2_EXPLICIT_HASH_BY_ID x = Some h"
  shows "aa_trailer h = [x, 0xcc]"
  using assms by (auto simp: ISO_9796_2_EXPLICIT_HASH_BY_ID_def split: if_splits)

lemma explicit_hash: "h \<noteq> SHA_1 \<Longrightarrow> map_of ISO_9796_2_EXPLICIT_HASH_BY_ID (hd (aa_trailer h)) = Some h \<and> length (aa_trailer h) = 2"
  by (cases h) (simp_all add: ISO_9796_2_EXPLICIT_HASH_BY_ID_def)

lemma recoveryStructure_block:
  assumes "length hv = hash_length h"
  shows "recoveryStructure (0x6a # m1 @ hv @ aa_trailer h) = Some (h, m1, hv)"
proof (cases "h = SHA_1")
  case True
  let ?r = "0x6a # m1 @ hv @ [0xbc :: byte]"
  have last: "?r ! (length ?r - 1) = 0xbc" by (simp add: nth_append)
  have "js_slice ?r 1 (1 + length m1) = m1" "js_slice ?r (1 + length m1) (1 + length m1 + length hv) = hv"
    by (simp_all add: js_slice_def)
  with True assms last show ?thesis
    by (simp add: recoveryStructure_def ISO_9796_2_LEADING_BYTE_def ISO_9796_2_IMPLICIT_TRAILER_def Let_def nat_add_distrib nat_diff_distrib)
next
  case False
  obtain x where x: "aa_trailer h = [x, 0xcc]" by (cases h) (use False in simp_all)
  from explicit_hash [OF False] x have found: "map_of ISO_9796_2_EXPLICIT_HASH_BY_ID x = Some h" by simp
  let ?r = "0x6a # m1 @ hv @ [x, 0xcc :: byte]"
  have last: "?r ! (length ?r - 1) = 0xcc" "?r ! (length ?r - 2) = x" by (simp_all add: nth_append)
  have "js_slice ?r 1 (1 + length m1) = m1" "js_slice ?r (1 + length m1) (1 + length m1 + length hv) = hv"
    by (simp_all add: js_slice_def)
  with x assms last found show ?thesis
    by (simp add: recoveryStructure_def ISO_9796_2_LEADING_BYTE_def ISO_9796_2_IMPLICIT_TRAILER_def
        ISO_9796_2_EXPLICIT_TRAILER_def Let_def nat_add_distrib)
qed

lemma last_two: "2 \<le> length r \<Longrightarrow> drop (length r - 2) r = [r ! (length r - 2), r ! (length r - 1)]"
proof -
  assume le: "2 \<le> length r"
  then have "drop (length r - 2) r = r ! (length r - 2) # drop (Suc (length r - 2)) r"
    by (intro Cons_nth_drop_Suc [symmetric]) simp
  moreover have "drop (Suc (length r - 2)) r = [r ! (length r - 1)]"
  proof -
    have "Suc (length r - 2) = length r - 1" using le by arith
    then show ?thesis using le Cons_nth_drop_Suc [of "length r - 1" r] by simp
  qed
  ultimately show ?thesis by simp
qed

lemma recoveryStructure_Some:
  assumes "recoveryStructure r = Some (h, m1, hv)"
  shows "r = 0x6a # m1 @ hv @ aa_trailer h" and "length hv = hash_length h"
proof -
  have ne: "0 < length r" and first: "r ! 0 = 0x6a"
    using assms by (auto simp: recoveryStructure_def ISO_9796_2_LEADING_BYTE_def Let_def split: if_splits)
  obtain rs where r: "r = 0x6a # rs" using ne first by (cases r) auto
  have "r = 0x6a # m1 @ hv @ aa_trailer h \<and> length hv = hash_length h"
  proof (cases "r ! (length r - 1) = 0xbc")
    case True
    with assms ne first have h: "h = SHA_1" and len: "21 < length r"
      and m1: "m1 = js_slice r 1 (length r - 21)" and hv: "hv = js_slice r (length r - 21) (length r - 1)"
      by (auto simp: recoveryStructure_def ISO_9796_2_LEADING_BYTE_def ISO_9796_2_IMPLICIT_TRAILER_def Let_def
          nat_diff_distrib' split: if_splits)
    have "drop (length r - 1) r = [0xbc]" using True ne Cons_nth_drop_Suc [of "length r - 1" r] by simp
    moreover have "r = js_slice r 0 1 @ m1 @ hv @ drop (length r - 1) r"
    proof -
      have "js_slice r 0 1 @ m1 @ hv = js_slice r 0 (length r - 1)"
        using len by (simp add: m1 hv slice_slice_append)
      then have "js_slice r 0 1 @ m1 @ hv = take (length r - 1) r" by (simp add: js_slice_def)
      then show ?thesis by (metis append.assoc append_take_drop_id)
    qed
    moreover have "js_slice r 0 1 = [0x6a]" by (simp add: r js_slice_def)
    moreover have "length hv = 20" using len by (simp add: hv length_slice)
    ultimately show ?thesis using h by simp
  next
    case False
    with assms ne first have tr: "r ! (length r - 1) = 0xcc" and l3: "3 \<le> length r"
      and found: "map_of ISO_9796_2_EXPLICIT_HASH_BY_ID (r ! (length r - 2)) = Some h"
      and len: "hash_length h + 2 < length r"
      and m1: "m1 = js_slice r 1 (length r - 2 - hash_length h)"
      and hv: "hv = js_slice r (length r - 2 - hash_length h) (length r - 2)"
      by (auto simp: recoveryStructure_def ISO_9796_2_LEADING_BYTE_def ISO_9796_2_IMPLICIT_TRAILER_def
          ISO_9796_2_EXPLICIT_TRAILER_def Let_def nat_diff_distrib' split: if_splits option.splits)
    have "drop (length r - 2) r = aa_trailer h"
      using last_two [of r] l3 tr recovered_explicit [OF found] by simp
    moreover have "r = js_slice r 0 1 @ m1 @ hv @ drop (length r - 2) r"
    proof -
      have "js_slice r 0 1 @ m1 @ hv = js_slice r 0 (length r - 2)"
        using len by (simp add: m1 hv slice_slice_append)
      then have "js_slice r 0 1 @ m1 @ hv = take (length r - 2) r" by (simp add: js_slice_def)
      then show ?thesis by (metis append.assoc append_take_drop_id)
    qed
    moreover have "js_slice r 0 1 = [0x6a]" by (simp add: r js_slice_def)
    moreover have "length hv = hash_length h" using len by (simp add: hv length_slice)
    ultimately show ?thesis by simp
  qed
  then show "r = 0x6a # m1 @ hv @ aa_trailer h" "length hv = hash_length h" by simp_all
qed

section \<open>Guarantees\<close>

lemma length_trim_small: "be_nat bs \<le> 1 \<Longrightarrow> length (trimLeadingZero bs) \<le> 1"
proof (induction bs rule: trimLeadingZero.induct)
  case (1 b c bs)
  have "b = 0"
  proof (rule ccontr)
    assume "b \<noteq> 0"
    then have "1 \<le> unat b" by (simp add: unat_gt_0 Suc_leI)
    then have "1 * 256 \<le> unat b * 256 ^ length (c # bs)" by (rule mult_le_mono) simp
    then have "256 \<le> be_nat (b # c # bs)" unfolding be_nat_Cons [of b "c # bs"] by linarith
    with "1.prems" show False by simp
  qed
  with "1" show ?case by (simp add: be_nat_Cons [of 0])
qed simp_all

lemma rsa_modulus_length:
  assumes "rsaPublicKeyComponents pf d = Some (e, n, k)" and "n \<le> 1"
  shows "k \<le> 1"
  using assms length_trim_small
  by (auto simp: rsaPublicKeyComponents_def bytesToBigInt_be_nat Let_def split: sum.splits asn1.splits list.splits)

lemma block_length: "length hv = hash_length h \<Longrightarrow> 22 \<le> length (0x6a # m1 @ hv @ aa_trailer h)"
  by (cases h) simp_all

lemma verify_rsa_exact:
  assumes "rsaPublicKeyComponents pf d = Some (e, n, k)"
  shows "verifyRsaActiveAuthentication pf challenge d signature = Inr (Active_auth_ok ty h) \<longleftrightarrow>
    ty = Key_rsa \<and> length signature = k \<and>
    (\<exists>m1 hv. bigIntToBytes (be_nat signature ^ e mod n) k = 0x6a # m1 @ hv @ aa_trailer h \<and>
       length hv = hash_length h \<and> pf_digest pf h (m1 @ challenge) = Inr hv)"
proof (cases "1 < n")
  case True
  show ?thesis
  proof
    assume "verifyRsaActiveAuthentication pf challenge d signature = Inr (Active_auth_ok ty h)"
    with assms True obtain m1 hv where "length signature = k" "ty = Key_rsa"
      "recoveryStructure (bigIntToBytes (be_nat signature ^ e mod n) k) = Some (h, m1, hv)"
      "pf_digest pf h (m1 @ challenge) = Inr hv"
      by (auto simp: verifyRsaActiveAuthentication_def modPow_power bytesToBigInt_be_nat result_simps
          split: if_splits option.splits)
    with recoveryStructure_Some show "ty = Key_rsa \<and> length signature = k \<and>
      (\<exists>m1 hv. bigIntToBytes (be_nat signature ^ e mod n) k = 0x6a # m1 @ hv @ aa_trailer h \<and>
         length hv = hash_length h \<and> pf_digest pf h (m1 @ challenge) = Inr hv)" by blast
  next
    assume "ty = Key_rsa \<and> length signature = k \<and>
      (\<exists>m1 hv. bigIntToBytes (be_nat signature ^ e mod n) k = 0x6a # m1 @ hv @ aa_trailer h \<and>
         length hv = hash_length h \<and> pf_digest pf h (m1 @ challenge) = Inr hv)"
    then obtain m1 hv where "ty = Key_rsa" "length signature = k" "pf_digest pf h (m1 @ challenge) = Inr hv"
      "bigIntToBytes (be_nat signature ^ e mod n) k = 0x6a # m1 @ hv @ aa_trailer h" "length hv = hash_length h" by blast
    with assms True recoveryStructure_block [of hv h m1]
    show "verifyRsaActiveAuthentication pf challenge d signature = Inr (Active_auth_ok ty h)"
      by (simp add: verifyRsaActiveAuthentication_def modPow_power bytesToBigInt_be_nat)
  qed
next
  case False
  then have k: "k \<le> 1" using rsa_modulus_length [OF assms] by simp
  have short: "recoveryStructure (bigIntToBytes v k) = None" for v
  proof (rule ccontr)
    assume "recoveryStructure (bigIntToBytes v k) \<noteq> None"
    then obtain h m1 hv where "recoveryStructure (bigIntToBytes v k) = Some (h, m1, hv)" by auto
    from recoveryStructure_Some [OF this] block_length [of hv h m1] k length_bigIntToBytes [of v k] show False by simp
  qed
  have "bigIntToBytes v k \<noteq> 0x6a # m1 @ hv @ aa_trailer h" if "length hv = hash_length h" for v m1 hv
    using block_length [OF that, of m1] k length_bigIntToBytes [of v k] by fastforce
  with assms short show ?thesis by (auto simp: verifyRsaActiveAuthentication_def split: option.splits if_splits)
qed

text \<open>
  C16. Active authentication with RSA succeeds exactly when the challenge is the server's own, of eight
  bytes, a data group 14 that was sent can be read, data group 15 holds an RSA key, and the signature,
  of the modulus's length and raised to the public exponent modulo it, is a block of ISO 9796-2: the
  leading byte, a recovered part, the hash of that part and the challenge, and the hash's trailer.
\<close>

theorem rsa_active_authentication_exact:
  "validateActiveAuthentication pf challenge dg14 dg15 (Some expected) signature None None =
     Inr (Active_auth_ok Key_rsa h) \<longleftrightarrow>
   challenge = expected \<and> length expected = 8 \<and> signature \<noteq> [] \<and> (\<exists>dg14Hash. dg14_hash pf dg14 = Inr dg14Hash) \<and>
   (\<exists>d e n k m1 hv.
      parseDg15 pf dg15 = Inr d \<and> d15_keyType d = Key_rsa \<and> rsaPublicKeyComponents pf d = Some (e, n, k) \<and>
      length signature = k \<and>
      bigIntToBytes (be_nat signature ^ e mod n) k = 0x6a # m1 @ hv @ aa_trailer h \<and>
      length hv = hash_length h \<and> pf_digest pf h (m1 @ expected) = Inr hv)" (is "?lhs \<longleftrightarrow> ?rhs")
proof -
  have ecdsa: "try_hashes pf c d key s hs \<noteq> Inr (Active_auth_ok Key_rsa h)" for c d key s hs
    by (induction hs) (auto simp: result_simps)
  have pre: "challenge = expected \<and> length expected = 8 \<and> signature \<noteq> [] \<and>
    (\<exists>d dg14Hash. parseDg15 pf dg15 = Inr d \<and> dg14_hash pf dg14 = Inr dg14Hash \<and> d15_keyType d = Key_rsa \<and>
      (\<exists>x. rsaPublicKeyComponents pf d = Some x) \<and>
      verifyRsaActiveAuthentication pf expected d signature = Inr (Active_auth_ok Key_rsa h)) \<longleftrightarrow> ?lhs"
    (is "?mid \<longleftrightarrow> ?lhs")
  proof
    assume ?mid
    then obtain d dg14Hash where c: "challenge = expected" "length expected = 8" "signature \<noteq> []"
      "parseDg15 pf dg15 = Inr d" "dg14_hash pf dg14 = Inr dg14Hash" "d15_keyType d = Key_rsa"
      "verifyRsaActiveAuthentication pf expected d signature = Inr (Active_auth_ok Key_rsa h)" by blast
    then have "dg15 \<noteq> []" by (auto simp: parseDg15_def)
    with c show ?lhs by (simp add: validateActiveAuthentication_def AA_CHALLENGE_BYTES_def sod_hash_matches_def)
  next
    assume ?lhs
    then have c: "challenge = expected" "length expected = 8" "signature \<noteq> []"
      and r: "(case parseDg15 pf dg15 of
          Inl message \<Rightarrow> Inr (Active_auth_failed dg15_parse_failed (Some (code_points message)))
        | Inr d \<Rightarrow> (case dg14_hash pf dg14 of
            Inl message \<Rightarrow> Inr (Active_auth_failed aa_dg14_parse_failed (Some (code_points message)))
          | Inr dg14Hash \<Rightarrow> if d15_keyType d = Key_rsa then verifyRsaActiveAuthentication pf expected d signature
              else verifyEcdsaActiveAuthentication pf expected dg14Hash d signature)) = Inr (Active_auth_ok Key_rsa h)"
      by (auto simp: validateActiveAuthentication_def AA_CHALLENGE_BYTES_def sod_hash_matches_def split: if_splits)
    from r obtain d dg14Hash where d: "parseDg15 pf dg15 = Inr d" "dg14_hash pf dg14 = Inr dg14Hash"
      by (auto split: sum.splits)
    with r ecdsa have "d15_keyType d = Key_rsa"
      "verifyRsaActiveAuthentication pf expected d signature = Inr (Active_auth_ok Key_rsa h)"
      by (auto simp: verifyEcdsaActiveAuthentication_def split: if_splits option.splits)
    moreover from this have "\<exists>x. rsaPublicKeyComponents pf d = Some x"
      by (auto simp: verifyRsaActiveAuthentication_def split: option.splits)
    ultimately show ?mid using c d by blast
  qed
  also have "?mid \<longleftrightarrow> ?rhs" using verify_rsa_exact by (auto; metis)
  finally show ?thesis by (rule sym)
qed

section \<open>The trailers of the standard\<close>

text \<open>
  The identifiers that ISO/IEC 10118-3 gives the hash functions, which ISO 9796-2 puts before the
  explicit trailer byte, and the block a chip signs with them.
\<close>

fun iso_hash_id :: "hash_algorithm \<Rightarrow> byte" where
  "iso_hash_id SHA_1 = 0x33"
| "iso_hash_id SHA_256 = 0x34"
| "iso_hash_id SHA_512 = 0x35"
| "iso_hash_id SHA_384 = 0x36"
| "iso_hash_id SHA_224 = 0x38"

definition iso_block :: "hash_algorithm \<Rightarrow> bytes \<Rightarrow> bytes \<Rightarrow> bytes" where
  "iso_block h m1 hv = 0x6a # m1 @ hv @ [iso_hash_id h, 0xcc]"

lemma aa_trailer_explicit:
  assumes "m @ [x, 0xcc] = m' @ aa_trailer h"
  shows "aa_trailer h = [x, 0xcc]" and "m = m'"
proof -
  have "\<exists>y. aa_trailer h = [y, 0xcc]"
  proof (cases h)
    case SHA_1
    with assms have "last (m @ [x, 0xcc]) = (0xbc :: byte)" by simp
    then show ?thesis by simp
  qed simp_all
  then obtain y where y: "aa_trailer h = [y, 0xcc]" by blast
  with assms show "aa_trailer h = [x, 0xcc]" "m = m'" by simp_all
qed

text \<open>
  A genuine signature with the trailer that the standard prescribes for SHA-384 is never accepted,
  and one for SHA-256 is not either unless, by chance, its block also carries a SHA-384 hash: the
  code's table gives the identifiers 51 and 52 to SHA-256 and SHA-384, the standard 52 and 54.
\<close>

theorem standard_trailers_rejected:
  assumes "rsaPublicKeyComponents pf d = Some (e, n, k)" and "length signature = k"
    and "bigIntToBytes (be_nat signature ^ e mod n) k = iso_block h m1 hv"
    and "length hv = hash_length h" and "pf_digest pf h (m1 @ challenge) = Inr hv"
    and "h = SHA_384 \<or> h = SHA_256 \<and>
      pf_digest pf SHA_384 (take (length m1 - 16) m1 @ challenge) \<noteq> Inr (drop (length m1 - 16) m1 @ hv)"
  shows "verifyRsaActiveAuthentication pf challenge d signature \<noteq> Inr (Active_auth_ok ty h')"
proof
  assume "verifyRsaActiveAuthentication pf challenge d signature = Inr (Active_auth_ok ty h')"
  then obtain m hv' where "iso_block h m1 hv = 0x6a # m @ hv' @ aa_trailer h'" and hv': "length hv' = hash_length h'"
    and dig: "pf_digest pf h' (m @ challenge) = Inr hv'"
    unfolding verify_rsa_exact [OF assms(1)] assms(3) by auto
  then have eq: "(m1 @ hv) @ [iso_hash_id h, 0xcc] = (m @ hv') @ aa_trailer h'" by (simp add: iso_block_def)
  note tr = aa_trailer_explicit [OF eq]
  from assms(6) tr(1) have h: "h = SHA_256" "h' = SHA_384" by (cases h'; auto)+
  from tr(2) h hv' assms(4) have len: "length m1 + 32 = length m + 48"
    by (metis hash_length.simps(3,4) length_append)
  from tr(2) have "m = take (length m) (m1 @ hv)" "hv' = drop (length m) (m1 @ hv)" by simp_all
  then have "m = take (length m1 - 16) m1" "hv' = drop (length m1 - 16) m1 @ hv" using len by simp_all
  with dig h assms(6) show False by simp
qed

text \<open>
  A platform whose decoder reads the key that raises to the power of one: the signature is the block.
\<close>

definition plain_rsa_platform :: platform where
  "plain_rsa_platform = zero_platform\<lparr>pf_ber := (\<lambda>bs. Some (Asn1_Sequence
     [Asn1_Integer (255 # replicate 50 255), Asn1_Integer [1]]))\<rparr>"

definition plain_key :: parsed_dg15 where
  "plain_key = \<lparr>d15_keyInfo = \<lparr>pk_algorithmId = Some RSA_ENCRYPTION_OID, pk_paramsOid = None, pk_subjectPublicKey = [1]\<rparr>,
     d15_keyType = Key_rsa, d15_keyInfoBytes = [1]\<rparr>"

lemma plain_key_components:
  "rsaPublicKeyComponents plain_rsa_platform plain_key = Some (1, be_nat (255 # replicate 50 255), 51)"
  by (simp add: rsaPublicKeyComponents_def plain_rsa_platform_def plain_key_def parseBer_def bytesToBigInt_be_nat
      trim_nonzero be_nat_Cons [of 1 "[]"])

theorem standard_trailers_rejected_witness:
  "verifyRsaActiveAuthentication plain_rsa_platform (replicate 8 1) plain_key
     (iso_block SHA_384 [] (replicate 48 0)) \<noteq> Inr (Active_auth_ok Key_rsa SHA_384)"
proof (rule standard_trailers_rejected [where h = SHA_384 and ?m1.0 = "[]" and hv = "replicate 48 0", OF plain_key_components])
  let ?s = "iso_block SHA_384 [] (replicate 48 0)"
  show "length ?s = 51" by (simp add: iso_block_def)
  have "be_nat ?s < be_nat (255 # replicate 50 (255 :: byte))"
    unfolding iso_block_def by (rule be_nat_less) simp_all
  then show "bigIntToBytes (be_nat ?s ^ 1 mod be_nat (255 # replicate 50 255)) 51 = iso_block SHA_384 [] (replicate 48 0)"
    using bigIntToBytes_be_nat [of ?s] by (simp add: iso_block_def)
qed (simp_all add: plain_rsa_platform_def zero_platform_def)

section \<open>A wrong ECDSA signature\<close>

text \<open>
  A wrong ECDSA signature on a document that names no hash is not answered with a failed check on
  a platform whose verification rejects SHA-224: after the four other hashes the code tries that one,
  and the error it throws is what validation ends with.
\<close>

theorem ecdsa_fallback_throws:
  assumes "length challenge = 8" and "signature \<noteq> []" and "parseDg15 pf dg15 = Inr d" and "d15_keyType d = Key_ecdsa"
    and "dg14_hash pf dg14 = Inr None" and "importEcdsaPublicKey pf d = Some key" and "ecdsaCurveSize d = Some n"
    and "length signature = 2 * n"
    and "\<And>h. h \<noteq> SHA_224 \<Longrightarrow> pf_ecdsa_verify pf h key signature challenge = Inr False"
    and "pf_ecdsa_verify pf SHA_224 key signature challenge = Inl message"
  shows "validateActiveAuthentication pf challenge dg14 dg15 (Some challenge) signature None None = Inl message"
proof -
  have "dg15 \<noteq> []" using assms(3) by (auto simp: parseDg15_def)
  moreover have "0 < n" using assms(2,8) by (cases n) auto
  ultimately show ?thesis using assms
    by (simp add: validateActiveAuthentication_def AA_CHALLENGE_BYTES_def sod_hash_matches_def
        verifyEcdsaActiveAuthentication_def ecdsaHashCandidates_def ECDSA_HASH_FALLBACKS_def
        verifyEcdsaActiveAuthenticationWithHash_def)
qed

definition no_sha224_platform :: platform where
  "no_sha224_platform = zero_platform\<lparr>pf_ber := (\<lambda>bs. Some (Asn1_Sequence [])),
     pf_public_key_info := (\<lambda>node. Some \<lparr>pk_algorithmId = Some ECDSA_PUBLIC_KEY_OID, pk_paramsOid = None,
       pk_subjectPublicKey = 4 # replicate 64 1\<rparr>),
     pf_ecdsa_verify := (\<lambda>h key signature challenge. if h = SHA_224 then Inl ''NotSupportedError'' else Inr False)\<rparr>"

theorem ecdsa_fallback_throws_witness:
  "validateActiveAuthentication no_sha224_platform (replicate 8 7) None [1] (Some (replicate 8 7)) (replicate 64 9) None None =
     Inl ''NotSupportedError''"
proof (rule ecdsa_fallback_throws [where n = 32 and key = "[1]" and d = "\<lparr>d15_keyInfo = \<lparr>pk_algorithmId = Some ECDSA_PUBLIC_KEY_OID,
      pk_paramsOid = None, pk_subjectPublicKey = 4 # replicate 64 1\<rparr>, d15_keyType = Key_ecdsa, d15_keyInfoBytes = [1]\<rparr>"])
  show "parseDg15 no_sha224_platform [1] = Inr \<lparr>d15_keyInfo = \<lparr>pk_algorithmId = Some ECDSA_PUBLIC_KEY_OID,
      pk_paramsOid = None, pk_subjectPublicKey = 4 # replicate 64 1\<rparr>, d15_keyType = Key_ecdsa, d15_keyInfoBytes = [1]\<rparr>"
    by (simp add: parseDg15_def no_sha224_platform_def zero_platform_def parseBer_def unwrapDg15Body_def readTlv_def
        readTlvTag_def readTlvLength_def publicKeyTypeFromOid_def RSA_ENCRYPTION_OID_def ECDSA_PUBLIC_KEY_OID_def Let_def)
qed (simp_all add: dg14_hash_def importEcdsaPublicKey_def ecdsaCurveSize_def ecNamedCurveFromCoordinateBytes_def
    no_sha224_platform_def zero_platform_def)

end
