(* ===== verification/Cms_Signature.thy ===== *)
theory Cms_Signature
  imports Crypto_Bytes Base64_Text
begin

text \<open>
  Certificates and signed data as the code reads them, and the verification of their signatures
  (\<open>cms-signature*.ts\<close>, \<open>sod-ec-curves.ts\<close>, \<open>pkd-trust-utils.ts\<close>). The PKI library and the
  platform's keys are a second record of functions. \<open>Inl\<close> is the message of a thrown error. The
  diagnostic texts the code writes to its log are left out.
\<close>

section \<open>Certificates and signed data\<close>

record signature_algorithm =
  sa_id :: string
  sa_params :: "asn1 option"

text \<open>Names are kept as their DER encoding, extensions as identifier and content.\<close>

record certificate =
  ct_notBefore :: int
  ct_notAfter :: int
  ct_issuer :: bytes
  ct_subject :: bytes
  ct_serial :: bytes
  ct_extensions :: "(string \<times> bytes) list"
  ct_keyAlgorithm :: string
  ct_keyParams :: "asn1 option"
  ct_key :: bytes
  ct_signatureAlgorithm :: signature_algorithm
  ct_signature :: bytes
  ct_tbs :: bytes

text \<open>
  The identifier of a signer: issuer and serial number, an octet string, the tag of the context
  class with its nested nodes and its content (\<open>valueHexView\<close>, always there on an object of the
  library, so that the last branch of the code for \<open>valueHex\<close> is never taken), or anything else.
\<close>

datatype signer_id =
  Sid_issuer_serial bytes bytes
| Sid_octets asn1
| Sid_context "asn1 list" bytes
| Sid_other

record signer_info =
  si_sid :: signer_id
  si_digestAlgorithm :: string
  si_signatureAlgorithm :: signature_algorithm
  si_signature :: bytes
  si_signedAttrs :: "((string \<times> asn1 list) list \<times> bytes) option"

text \<open>The encapsulated content: its octet string, whether the tag is universal and four, its value, its encoding.\<close>

record econtent =
  ec_node :: asn1
  ec_isOctetString :: bool
  ec_value :: bytes
  ec_beforeDecode :: bytes

text \<open>An entry of the certificate set that is no certificate is \<open>None\<close>.\<close>

record signed_data =
  sg_signerInfos :: "signer_info list"
  sg_certificates :: "certificate option list option"
  sg_eContentType :: string
  sg_eContent :: "econtent option"

section \<open>The PKI library\<close>

datatype key_import =
  Import_pss bytes hash_algorithm
| Import_pkcs1 bytes hash_algorithm
| Import_ecdsa bytes string

record verification_key =
  vk_name :: string
  vk_namedCurve :: "string option"
  vk_handle :: bytes

datatype verify_params =
  Verify_pss hash_algorithm nat
| Verify_pkcs1 hash_algorithm
| Verify_ecdsa hash_algorithm

record named_curve =
  nc_name :: string
  nc_id :: string
  nc_size :: nat

text \<open>
  \<open>ck_hashName\<close> is \<open>getHashAlgorithm\<close>, \<open>ck_pss\<close> the reader of RSASSA-PSS parameters (hash name and salt
  length), \<open>ck_spki\<close> the encoded key info of a certificate, \<open>ck_curve\<close> the library's curve registry,
  \<open>ck_import\<close> and \<open>ck_verify\<close> the platform's key import and verification, \<open>ck_from_cms\<close> the conversion
  of an ECDSA signature, \<open>ck_clone\<close> encoding a certificate and decoding it again, \<open>ck_cms_verify\<close> the
  library's own verification of signed data with a signer's certificate, \<open>ck_cert_verify\<close> that of a
  certificate with its issuer's.
\<close>

record pki =
  ck_hashName :: "signature_algorithm \<Rightarrow> string"
  ck_pss :: "asn1 option \<Rightarrow> string + string \<times> nat option"
  ck_spki :: "certificate \<Rightarrow> bytes"
  ck_curve :: "string \<Rightarrow> named_curve option"
  ck_import :: "key_import \<Rightarrow> string + verification_key"
  ck_verify :: "verify_params \<Rightarrow> verification_key \<Rightarrow> bytes \<Rightarrow> bytes \<Rightarrow> string + bool"
  ck_from_cms :: "asn1 \<Rightarrow> nat \<Rightarrow> string + bytes"
  ck_clone :: "certificate \<Rightarrow> string + certificate"
  ck_cms_verify :: "signed_data \<Rightarrow> int \<Rightarrow> string + bool"
  ck_cert_verify :: "certificate \<Rightarrow> certificate \<Rightarrow> string + bool"

section \<open>Text of bytes and names\<close>

definition relativeDistinguishedNameKey :: "bytes \<Rightarrow> string" where
  "relativeDistinguishedNameKey name = hexBytes name"

text \<open>\<open>OID_PATTERN\<close>: at least two groups of digits, joined with dots.\<close>

definition oidString :: "string \<Rightarrow> string option" where
  "oidString value =
     (let parts = split_on CHR ''.'' value
      in if 2 \<le> length parts \<and> list_all (\<lambda>p. p \<noteq> [] \<and> list_all is_digit p) parts then Some value else None)"

definition integerHexValue :: "asn1 option \<Rightarrow> string option" where
  "integerHexValue node =
     (case node of Some (Asn1_Integer bs) \<Rightarrow> Some (hexBytes (trimLeadingZero bs)) | _ \<Rightarrow> None)"

text \<open>A constructed octet string has no content bytes of its own.\<close>

definition octetStringHexValue :: "asn1 option \<Rightarrow> string option" where
  "octetStringHexValue node =
     (case node of
        Some (Asn1_Octets bs) \<Rightarrow> Some (hexBytes bs)
      | Some (Asn1_Octet_parts _) \<Rightarrow> Some []
      | _ \<Rightarrow> None)"

definition directObjectIdentifierValue :: "asn1 option \<Rightarrow> string option" where
  "directObjectIdentifierValue node = (case node of Some (Asn1_Oid oid) \<Rightarrow> oidString oid | _ \<Rightarrow> None)"

section \<open>Explicit curves\<close>

record ec_curve =
  ev_a :: string
  ev_b :: string
  ev_cofactor :: "string option"
  ev_fieldType :: string
  ev_generator :: string
  ev_order :: string
  ev_prime :: string

definition EC_PRIME_FIELD_OID :: string where "EC_PRIME_FIELD_OID = ''1.2.840.10045.1.1''"

definition EXPLICIT_EC_CURVES :: "(string \<times> string \<times> ec_curve) list" where
  "EXPLICIT_EC_CURVES =
    [(''P-256'', ''1.2.840.10045.3.1.7'',
      \<lparr>ev_a = ''ffffffff00000001000000000000000000000000fffffffffffffffffffffffc'',
       ev_b = ''5ac635d8aa3a93e7b3ebbd55769886bc651d06b0cc53b0f63bce3c3e27d2604b'',
       ev_cofactor = Some ''01'', ev_fieldType = EC_PRIME_FIELD_OID,
       ev_generator = ''046b17d1f2e12c4247f8bce6e563a440f277037d812deb33a0f4a13945d898c2964fe342e2fe1a7f9b8ee7eb4a7c0f9e162bce33576b315ececbb6406837bf51f5'',
       ev_order = ''ffffffff00000000ffffffffffffffffbce6faada7179e84f3b9cac2fc632551'',
       ev_prime = ''ffffffff00000001000000000000000000000000ffffffffffffffffffffffff''\<rparr>),
     (''P-384'', ''1.3.132.0.34'',
      \<lparr>ev_a = ''fffffffffffffffffffffffffffffffffffffffffffffffffffffffffffffffeffffffff0000000000000000fffffffc'',
       ev_b = ''b3312fa7e23ee7e4988e056be3f82d19181d9c6efe8141120314088f5013875ac656398d8a2ed19d2a85c8edd3ec2aef'',
       ev_cofactor = Some ''01'', ev_fieldType = EC_PRIME_FIELD_OID,
       ev_generator = ''04aa87ca22be8b05378eb1c71ef320ad746e1d3b628ba79b9859f741e082542a385502f25dbf55296c3a545e3872760ab73617de4a96262c6f5d9e98bf9292dc29f8f41dbd289a147ce9da3113b5f0b8c00a60b1ce1d7e819d7a431d7c90ea0e5f'',
       ev_order = ''ffffffffffffffffffffffffffffffffffffffffffffffffc7634d81f4372ddf581a0db248b0a77aecec196accc52973'',
       ev_prime = ''fffffffffffffffffffffffffffffffffffffffffffffffffffffffffffffffeffffffff0000000000000000ffffffff''\<rparr>),
     (''P-521'', ''1.3.132.0.35'',
      \<lparr>ev_a = ''01fffffffffffffffffffffffffffffffffffffffffffffffffffffffffffffffffffffffffffffffffffffffffffffffffffffffffffffffffffffffffffffffffc'',
       ev_b = ''0051953eb9618e1c9a1f929a21a0b68540eea2da725b99b315f3b8b489918ef109e156193951ec7e937b1652c0bd3bb1bf073573df883d2c34f1ef451fd46b503f00'',
       ev_cofactor = Some ''01'', ev_fieldType = EC_PRIME_FIELD_OID,
       ev_generator = ''0400c6858e06b70404e9cd9e3ecb662395b4429c648139053fb521f828af606b4d3dbaa14b5e77efe75928fe1dc127a2ffa8de3348b3c1856a429bf97e7e31c2e5bd66011839296a789a3bc0045c8a5fb42c7d1bd998f54449579b446817afbd17273e662c97ee72995ef42640c550b9013fad0761353c7086a272c24088be94769fd16650'',
       ev_order = ''01fffffffffffffffffffffffffffffffffffffffffffffffffffffffffffffffffa51868783bf2f966b7fcc0148f709a5d03bb5c9b8899c47aebb6fb71e91386409'',
       ev_prime = ''01ffffffffffffffffffffffffffffffffffffffffffffffffffffffffffffffffffffffffffffffffffffffffffffffffffffffffffffffffffffffffffffffffff''\<rparr>)]"

definition nonempty :: "string option \<Rightarrow> bool" where
  "nonempty s \<longleftrightarrow> (case s of None \<Rightarrow> False | Some t \<Rightarrow> t \<noteq> [])"

definition explicitEcCurveParameters :: "asn1 option \<Rightarrow> ec_curve option" where
  "explicitEcCurveParameters params =
     (case params of
        Some (Asn1_Sequence (Asn1_Integer version # Asn1_Sequence field # Asn1_Sequence curve # generator
               # Asn1_Integer order # rest)) \<Rightarrow>
          (let fieldTypeOid = directObjectIdentifierValue (at_opt field 0);
               primeHex = integerHexValue (at_opt field 1);
               aHex = octetStringHexValue (at_opt curve 0);
               bHex = octetStringHexValue (at_opt curve 1);
               generatorHex = octetStringHexValue (Some generator);
               orderHex = integerHexValue (Some (Asn1_Integer order));
               cofactorHex = integerHexValue (at_opt rest 0)
           in if octetStringHexValue (Some generator) \<noteq> None \<and> list_all nonempty [fieldTypeOid, primeHex, aHex, bHex, generatorHex, orderHex]
              then Some \<lparr>ev_a = the aHex, ev_b = the bHex, ev_cofactor = cofactorHex, ev_fieldType = the fieldTypeOid,
                         ev_generator = the generatorHex, ev_order = the orderHex, ev_prime = the primeHex\<rparr>
              else None)
      | _ \<Rightarrow> None)"

text \<open>A candidate without a cofactor in the parameters is compared with its own.\<close>

definition same_curve :: "ec_curve \<Rightarrow> ec_curve \<Rightarrow> bool" where
  "same_curve candidate explicit \<longleftrightarrow>
     ev_fieldType candidate = ev_fieldType explicit \<and> ev_prime candidate = ev_prime explicit \<and>
     ev_a candidate = ev_a explicit \<and> ev_b candidate = ev_b explicit \<and>
     ev_generator candidate = ev_generator explicit \<and> ev_order candidate = ev_order explicit \<and>
     (case ev_cofactor explicit of None \<Rightarrow> True | Some c \<Rightarrow> ev_cofactor candidate = Some c)"

definition resolveEcNamedCurve :: "pki \<Rightarrow> asn1 option \<Rightarrow> (string \<times> string) option" where
  "resolveEcNamedCurve pk params =
     (case directObjectIdentifierValue params of
        Some oid \<Rightarrow> map_option (\<lambda>c. (nc_name c, nc_id c)) (ck_curve pk oid)
      | None \<Rightarrow>
          (case explicitEcCurveParameters params of
             None \<Rightarrow> None
           | Some explicit \<Rightarrow>
               map_option (\<lambda>(name, oid, c). (name, oid))
                 (find (\<lambda>(name, oid, c). same_curve c explicit) EXPLICIT_EC_CURVES)))"

definition normalizedEcCertificatePublicKeyAlgorithm :: "pki \<Rightarrow> certificate \<Rightarrow> string + certificate" where
  "normalizedEcCertificatePublicKeyAlgorithm pk cert =
     (if ct_keyAlgorithm cert \<noteq> ECDSA_PUBLIC_KEY_OID then Inr cert
      else
        case resolveEcNamedCurve pk (ct_keyParams cert) of
          None \<Rightarrow> Inr cert
        | Some (name, oid) \<Rightarrow>
            rbind (ck_clone pk cert) (\<lambda>normalized.
              if ct_keyParams normalized = Some (Asn1_Oid oid) then Inr normalized
              else Inr (normalized\<lparr>ct_keyParams := Some (Asn1_Oid oid)\<rparr>)))"

definition signerEcNamedCurve :: "pki \<Rightarrow> certificate \<Rightarrow> string + string" where
  "signerEcNamedCurve pk cert =
     (case resolveEcNamedCurve pk (ct_keyParams cert) of
        None \<Rightarrow> Inl ''cms_signature_curve_invalid''
      | Some (name, oid) \<Rightarrow> Inr name)"

definition curveSizeBytes :: "pki \<Rightarrow> string \<Rightarrow> string + nat" where
  "curveSizeBytes pk curve =
     (case ck_curve pk curve of None \<Rightarrow> Inl ''cms_signature_curve_invalid'' | Some c \<Rightarrow> Inr (nc_size c))"

definition ecdsaSignatureBytes :: "platform \<Rightarrow> pki \<Rightarrow> string \<Rightarrow> bytes \<Rightarrow> string + bytes" where
  "ecdsaSignatureBytes pf pk curve signature =
     rbind (parseBer pf signature ''cms_signature_invalid_encoding'') (\<lambda>node.
     rbind (curveSizeBytes pk curve) (\<lambda>size. ck_from_cms pk node size))"

section \<open>One signature\<close>

definition RSA_PSS_OID :: string where "RSA_PSS_OID = ''1.2.840.113549.1.1.10''"
definition SUPPORTED_NAMED_CURVES :: "string list" where "SUPPORTED_NAMED_CURVES = [''P-256'', ''P-384'', ''P-521'']"

definition parseSupportedHashAlgorithmName :: "string \<Rightarrow> hash_algorithm option" where
  "parseSupportedHashAlgorithmName name =
     (if name = ''SHA-1'' then Some SHA_1 else if name = ''SHA-256'' then Some SHA_256
      else if name = ''SHA-384'' then Some SHA_384 else if name = ''SHA-512'' then Some SHA_512 else None)"

definition signerDigestAlgorithm :: "signer_info \<Rightarrow> hash_algorithm option" where
  "signerDigestAlgorithm si = subtleAlgorithmFromOid (si_digestAlgorithm si)"

definition algorithmIdentifierHashAlgorithm :: "pki \<Rightarrow> signature_algorithm \<Rightarrow> hash_algorithm option" where
  "algorithmIdentifierHashAlgorithm pk sa = parseSupportedHashAlgorithmName (ck_hashName pk sa)"

definition signatureHashAlgorithm :: "pki \<Rightarrow> signer_info \<Rightarrow> hash_algorithm option" where
  "signatureHashAlgorithm pk si =
     (case parseSupportedHashAlgorithmName (ck_hashName pk (si_signatureAlgorithm si)) of
        Some h \<Rightarrow> Some h
      | None \<Rightarrow> signerDigestAlgorithm si)"

definition importSignerVerificationKey ::
  "pki \<Rightarrow> hash_algorithm \<Rightarrow> signature_algorithm \<Rightarrow> certificate \<Rightarrow> string + verification_key" where
  "importSignerVerificationKey pk h sa cert =
     (if sa_id sa = RSA_PSS_OID then ck_import pk (Import_pss (ck_spki pk cert) h)
      else if ct_keyAlgorithm cert = RSA_ENCRYPTION_OID then ck_import pk (Import_pkcs1 (ck_spki pk cert) h)
      else if ct_keyAlgorithm cert = ECDSA_PUBLIC_KEY_OID then
        rbind (signerEcNamedCurve pk cert) (\<lambda>curve.
        rbind (normalizedEcCertificatePublicKeyAlgorithm pk cert) (\<lambda>normalized.
          ck_import pk (Import_ecdsa (ck_spki pk normalized) curve)))
      else Inl ''cms_signature_algorithm_unsupported'')"

definition signatureVerificationParams ::
  "pki \<Rightarrow> hash_algorithm \<Rightarrow> signature_algorithm \<Rightarrow> certificate \<Rightarrow> string + verify_params" where
  "signatureVerificationParams pk h sa cert =
     (if sa_id sa = RSA_PSS_OID then
        rbind (ck_pss pk (sa_params sa)) (\<lambda>(hashName, saltLength).
          Inr (Verify_pss (case parseSupportedHashAlgorithmName hashName of Some h' \<Rightarrow> h' | None \<Rightarrow> h)
                 (case saltLength of Some n \<Rightarrow> n | None \<Rightarrow> 20)))
      else if ct_keyAlgorithm cert = RSA_ENCRYPTION_OID then Inr (Verify_pkcs1 h)
      else Inr (Verify_ecdsa h))"

definition namedCurveFromKeyAlgorithm :: "verification_key \<Rightarrow> string + string" where
  "namedCurveFromKeyAlgorithm key =
     (case vk_namedCurve key of
        None \<Rightarrow> Inl ''cms_signature_curve_invalid''
      | Some curve \<Rightarrow>
          if vk_name key \<noteq> ''ECDSA'' \<or> curve = [] \<or> curve \<notin> set SUPPORTED_NAMED_CURVES
          then Inl ''cms_signature_curve_invalid'' else Inr curve)"

definition verifySignatureBytesWithCertificate ::
  "platform \<Rightarrow> pki \<Rightarrow> bytes \<Rightarrow> hash_algorithm \<Rightarrow> certificate \<Rightarrow> signature_algorithm \<Rightarrow> bytes \<Rightarrow> string + bool" where
  "verifySignatureBytesWithCertificate pf pk data h cert sa signature =
     rbind (importSignerVerificationKey pk h sa cert) (\<lambda>key.
     rbind (signatureVerificationParams pk h sa cert) (\<lambda>params.
     rbind (if vk_name key = ''ECDSA''
            then rbind (namedCurveFromKeyAlgorithm key) (\<lambda>curve. ecdsaSignatureBytes pf pk curve signature)
            else Inr signature) (\<lambda>normalizedSignature.
       ck_verify pk params key normalizedSignature data)))"

definition verifySignatureWithCertificate ::
  "platform \<Rightarrow> pki \<Rightarrow> bytes \<Rightarrow> certificate \<Rightarrow> signature_algorithm \<Rightarrow> bytes \<Rightarrow> string + bool" where
  "verifySignatureWithCertificate pf pk data cert sa signature =
     (case algorithmIdentifierHashAlgorithm pk sa of
        None \<Rightarrow> Inl ''signature_digest_algorithm_invalid''
      | Some h \<Rightarrow> verifySignatureBytesWithCertificate pf pk data h cert sa signature)"

section \<open>Signed data\<close>

definition CONTENT_TYPE_ATTRIBUTE_OID :: string where "CONTENT_TYPE_ATTRIBUTE_OID = ''1.2.840.113549.1.9.3''"
definition MESSAGE_DIGEST_ATTRIBUTE_OID :: string where "MESSAGE_DIGEST_ATTRIBUTE_OID = ''1.2.840.113549.1.9.4''"

definition encapsulatedContentBytes :: "signed_data \<Rightarrow> string + bytes" where
  "encapsulatedContentBytes sg =
     (case sg_eContent sg of
        None \<Rightarrow> Inl ''cms_content_missing''
      | Some ec \<Rightarrow> Inr (if ec_isOctetString ec then ec_value ec else ec_beforeDecode ec))"

text \<open>The loop over the signed attributes: whether a content type was seen, the digest so far.\<close>

fun attribute_loop :: "(string \<times> asn1 list) list \<Rightarrow> bool \<Rightarrow> bytes option \<Rightarrow> string + bool \<times> bytes option" where
  "attribute_loop [] sawContentType digest = Inr (sawContentType, digest)"
| "attribute_loop ((ty, values) # attributes) sawContentType digest =
     (if ty = CONTENT_TYPE_ATTRIBUTE_OID then attribute_loop attributes True digest
      else if ty \<noteq> MESSAGE_DIGEST_ATTRIBUTE_OID then attribute_loop attributes sawContentType digest
      else
        case values of
          Asn1_Octets bs # _ \<Rightarrow> attribute_loop attributes sawContentType (Some bs)
        | Asn1_Octet_parts parts # _ \<Rightarrow>
            rbind (octetStringBytes (Asn1_Octet_parts parts)) (\<lambda>bs.
              attribute_loop attributes sawContentType (Some bs))
        | _ \<Rightarrow> Inl ''cms_signed_attributes_invalid'')"

definition signedAttributeMessageDigest :: "(string \<times> asn1 list) list \<Rightarrow> string + bytes" where
  "signedAttributeMessageDigest attributes =
     rbind (attribute_loop attributes False None) (\<lambda>(sawContentType, digest).
       case digest of
         Some bs \<Rightarrow> if sawContentType then Inr bs else Inl ''cms_signed_attributes_invalid''
       | None \<Rightarrow> Inl ''cms_signed_attributes_invalid'')"

text \<open>The implicit tag of the attributes becomes that of a set.\<close>

definition signedAttributesSignatureBytes :: "bytes \<Rightarrow> bytes" where
  "signedAttributesSignatureBytes encoded =
     (case encoded of [] \<Rightarrow> [] | b # bs \<Rightarrow> if b = 0xa0 then 0x31 # bs else b # bs)"

definition signedDataBytesForSignature :: "platform \<Rightarrow> signed_data \<Rightarrow> signer_info \<Rightarrow> string + bytes" where
  "signedDataBytesForSignature pf sg si =
     (case si_signedAttrs si of
        None \<Rightarrow> encapsulatedContentBytes sg
      | Some (attributes, encoded) \<Rightarrow>
          (case signerDigestAlgorithm si of
             None \<Rightarrow> Inl ''cms_signature_digest_algorithm_invalid''
           | Some h \<Rightarrow>
               rbind (signedAttributeMessageDigest attributes) (\<lambda>expected.
               rbind (encapsulatedContentBytes sg) (\<lambda>content.
               rbind (pf_digest pf h content) (\<lambda>actual.
                 if \<not> bytesEqual actual expected then Inl ''cms_signed_attributes_digest_mismatch''
                 else Inr (signedAttributesSignatureBytes encoded))))))"

definition signerInfosOrThrow :: "signed_data \<Rightarrow> string + signer_info list" where
  "signerInfosOrThrow sg =
     (if length (sg_signerInfos sg) = 0 then Inl ''missing_signer'' else Inr (sg_signerInfos sg))"

definition signerInfoOrThrow :: "signed_data \<Rightarrow> string + signer_info" where
  "signerInfoOrThrow sg = rbind (signerInfosOrThrow sg) (\<lambda>infos. Inr (hd infos))"

definition verifyCmsSignatureManually :: "platform \<Rightarrow> pki \<Rightarrow> signed_data \<Rightarrow> certificate \<Rightarrow> string + bool" where
  "verifyCmsSignatureManually pf pk sg cert =
     rbind (signerInfoOrThrow sg) (\<lambda>si.
       case signatureHashAlgorithm pk si of
         None \<Rightarrow> Inl ''cms_signature_digest_algorithm_invalid''
       | Some h \<Rightarrow>
           rbind (signedDataBytesForSignature pf sg si) (\<lambda>signedBytes.
             verifySignatureBytesWithCertificate pf pk signedBytes h cert (si_signatureAlgorithm si) (si_signature si)))"

definition signedDataCertificatesWithSigner :: "signed_data \<Rightarrow> certificate \<Rightarrow> certificate option list" where
  "signedDataCertificatesWithSigner sg cert =
     (let certificates = (case sg_certificates sg of None \<Rightarrow> [] | Some cs \<Rightarrow> cs)
      in if list_ex (\<lambda>e. case e of
              None \<Rightarrow> False
            | Some c \<Rightarrow>
                relativeDistinguishedNameKey (ct_subject c) = relativeDistinguishedNameKey (ct_subject cert) \<and>
                hexBytes (ct_serial c) = hexBytes (ct_serial cert)) certificates
         then certificates else certificates @ [Some cert])"

text \<open>
  The certificates are replaced for the call and put back after it; what the library throws is a
  failure.
\<close>

definition verifyCmsSignatureWithPkijs :: "pki \<Rightarrow> int \<Rightarrow> signed_data \<Rightarrow> certificate \<Rightarrow> string + bool" where
  "verifyCmsSignatureWithPkijs pk checkDate sg cert =
     rbind (signerInfoOrThrow sg) (\<lambda>si.
     rbind (normalizedEcCertificatePublicKeyAlgorithm pk cert) (\<lambda>normalized.
       case ck_cms_verify pk (sg\<lparr>sg_certificates := Some (signedDataCertificatesWithSigner sg normalized)\<rparr>) checkDate of
         Inl _ \<Rightarrow> Inr False
       | Inr verified \<Rightarrow> Inr verified))"

definition verifyCmsSignature :: "platform \<Rightarrow> pki \<Rightarrow> int \<Rightarrow> signed_data \<Rightarrow> certificate \<Rightarrow> string + bool" where
  "verifyCmsSignature pf pk checkDate sg cert =
     rbind (signerInfoOrThrow sg) (\<lambda>si.
       if si_signedAttrs si \<noteq> None then
         (case verifyCmsSignatureManually pf pk sg cert of
            Inr True \<Rightarrow> Inr True
          | _ \<Rightarrow> verifyCmsSignatureWithPkijs pk checkDate sg cert)
       else verifyCmsSignatureWithPkijs pk checkDate sg cert)"

end
