(* ===== verification/Passive_Auth.thy ===== *)
theory Passive_Auth
  imports Cms_Signature
begin

text \<open>
  Passive authentication (\<open>sod-parser.ts\<close>, \<open>sod-dg-hashes.ts\<close>, \<open>sod-signer-*.ts\<close>,
  \<open>cms-trusted-issuer.ts\<close>, \<open>cms-crl-status.ts\<close>, \<open>sod-authenticity.ts\<close>): the security object lists the
  hashes of the data groups and is signed by a document signer whose certificate a trusted country
  authority issued. \<open>Inl\<close> is the message of an error nobody catches here; a verdict, good or bad, is
  on the right. The diagnostic details the code logs with a failure are left out.
\<close>

section \<open>The security object\<close>

definition ICAO_LDS_SECURITY_OBJECT_OID :: string where "ICAO_LDS_SECURITY_OBJECT_OID = ''2.23.136.1.1.1''"
definition CMS_SIGNED_DATA_OID :: string where "CMS_SIGNED_DATA_OID = ''1.2.840.113549.1.7.2''"
definition SOD_ROOT_TAG :: nat where "SOD_ROOT_TAG = 0x77"

text \<open>
  The library's readers of the outer structures: a content info (type and content), signed data, an
  algorithm identifier, and the decimal value of an integer node.
\<close>

record cms_readers =
  rd_contentInfo :: "asn1 \<Rightarrow> (string \<times> asn1) option"
  rd_signedData :: "asn1 \<Rightarrow> signed_data option"
  rd_algorithmId :: "asn1 \<Rightarrow> string + string"
  rd_valueDec :: "bytes \<Rightarrow> int"

record parsed_sod =
  sod_algorithm :: hash_algorithm
  sod_dg1Hash :: bytes
  sod_dg2Hash :: bytes
  sod_dgHashes :: "(int, bytes) jsmap"
  sod_signedData :: signed_data

definition unwrapSodContentInfoBytes :: "bytes \<Rightarrow> bytes" where
  "unwrapSodContentInfoBytes sod =
     (case readTlv sod 0 of
        Inl _ \<Rightarrow> sod
      | Inr root \<Rightarrow> if tlv_tag root = SOD_ROOT_TAG \<and> tlv_next root = length sod then tlv_bytes root else sod)"

definition parseContentInfo :: "platform \<Rightarrow> cms_readers \<Rightarrow> bytes \<Rightarrow> string + string \<times> asn1" where
  "parseContentInfo pf rd sod =
     rbind (parseBer pf (unwrapSodContentInfoBytes sod) ''sod_parse_failed'') (\<lambda>schema.
       case rd_contentInfo rd schema of None \<Rightarrow> Inl ''sod_parse_failed'' | Some info \<Rightarrow> Inr info)"

definition parseSignedData :: "cms_readers \<Rightarrow> string \<times> asn1 \<Rightarrow> string + signed_data" where
  "parseSignedData rd contentInfo =
     (if fst contentInfo \<noteq> CMS_SIGNED_DATA_OID then Inl ''sod_content_type_invalid''
      else case rd_signedData rd (snd contentInfo) of None \<Rightarrow> Inl ''sod_parse_failed'' | Some sg \<Rightarrow> Inr sg)"

definition parseLdsSecurityObjectRoot :: "platform \<Rightarrow> signed_data \<Rightarrow> string + asn1 list" where
  "parseLdsSecurityObjectRoot pf sg =
     (if sg_eContentType sg \<noteq> ICAO_LDS_SECURITY_OBJECT_OID then Inl ''lds_security_object_missing''
      else
        case sg_eContent sg of
          None \<Rightarrow> Inl ''lds_security_object_missing''
        | Some ec \<Rightarrow>
            rbind (octetStringBytes (ec_node ec)) (\<lambda>bs.
            rbind (parseBer pf bs ''lds_security_object_parse_failed'') (\<lambda>node.
              case node of Asn1_Sequence children \<Rightarrow> Inr children | _ \<Rightarrow> Inl ''lds_security_object_invalid'')))"

definition parseLdsSecurityObjectNodes :: "asn1 list \<Rightarrow> string + asn1 list \<times> asn1 list" where
  "parseLdsSecurityObjectNodes root =
     (case root of
        Asn1_Integer version # Asn1_Sequence hashAlgorithm # Asn1_Sequence hashValues # _ \<Rightarrow> Inr (hashAlgorithm, hashValues)
      | _ \<Rightarrow> Inl ''lds_security_object_invalid'')"

definition parseDigestAlgorithm :: "cms_readers \<Rightarrow> asn1 list \<Rightarrow> string + hash_algorithm" where
  "parseDigestAlgorithm rd hashAlgorithm =
     rbind (rd_algorithmId rd (Asn1_Sequence hashAlgorithm)) (\<lambda>oid.
       case subtleAlgorithmFromOid oid of None \<Rightarrow> Inl ''unsupported_digest_algorithm'' | Some h \<Rightarrow> Inr h)"

definition parseDgHashEntry :: "cms_readers \<Rightarrow> asn1 \<Rightarrow> string + int \<times> bytes" where
  "parseDgHashEntry rd child =
     (case child of
        Asn1_Sequence (Asn1_Integer number # digest # _) \<Rightarrow>
          (case digest of
             Asn1_Octets _ \<Rightarrow> rbind (octetStringBytes digest) (\<lambda>bs. Inr (rd_valueDec rd number, bs))
           | Asn1_Octet_parts _ \<Rightarrow> rbind (octetStringBytes digest) (\<lambda>bs. Inr (rd_valueDec rd number, bs))
           | _ \<Rightarrow> Inl ''dg_hash_entry_invalid'')
      | _ \<Rightarrow> Inl ''dg_hash_entry_invalid'')"

fun dg_hash_loop :: "cms_readers \<Rightarrow> (int, bytes) jsmap \<Rightarrow> asn1 list \<Rightarrow> string + (int, bytes) jsmap" where
  "dg_hash_loop rd dgHashes [] = Inr dgHashes"
| "dg_hash_loop rd dgHashes (child # children) =
     rbind (parseDgHashEntry rd child) (\<lambda>(number, digest). dg_hash_loop rd (jm_set number digest dgHashes) children)"

definition parseRequiredDgHashes ::
  "cms_readers \<Rightarrow> asn1 list \<Rightarrow> string + bytes \<times> bytes \<times> (int, bytes) jsmap" where
  "parseRequiredDgHashes rd hashValues =
     rbind (dg_hash_loop rd [] hashValues) (\<lambda>dgHashes.
       case (jm_get dgHashes 1, jm_get dgHashes 2) of
         (Some dg1Hash, Some dg2Hash) \<Rightarrow> Inr (dg1Hash, dg2Hash, dgHashes)
       | _ \<Rightarrow> Inl ''required_dg_hash_missing'')"

definition parseSodSecurityObject :: "platform \<Rightarrow> cms_readers \<Rightarrow> bytes \<Rightarrow> string + parsed_sod" where
  "parseSodSecurityObject pf rd sod =
     rbind (parseContentInfo pf rd sod) (\<lambda>contentInfo.
     rbind (parseSignedData rd contentInfo) (\<lambda>sg.
     rbind (parseLdsSecurityObjectRoot pf sg) (\<lambda>root.
     rbind (parseLdsSecurityObjectNodes root) (\<lambda>(hashAlgorithm, hashValues).
     rbind (parseDigestAlgorithm rd hashAlgorithm) (\<lambda>algorithm.
     rbind (parseRequiredDgHashes rd hashValues) (\<lambda>(dg1Hash, dg2Hash, dgHashes).
       Inr \<lparr>sod_algorithm = algorithm, sod_dg1Hash = dg1Hash, sod_dg2Hash = dg2Hash,
            sod_dgHashes = dgHashes, sod_signedData = sg\<rparr>))))))"

section \<open>Results\<close>

datatype passive_failure =
  Pa_chain_untrusted | Pa_crl_revoked | Pa_cms_signature_invalid | Pa_dg_hash_mismatch
| Pa_missing_required_artifacts | Pa_missing_signer | Pa_missing_signer_certificate | Pa_parse_failure
| Pa_required_dg_hash_missing | Pa_signer_certificate_expired | Pa_signer_certificate_invalid
| Pa_signer_certificate_not_yet_valid | Pa_sod_declared_dg_missing | Pa_sod_undeclared_dg_supplied
| Pa_trust_bundle_unavailable | Pa_unsupported_digest_algorithm

datatype crl_status = Crl_not_checked | Crl_revoked | Crl_missing | Crl_stale | Crl_verified_not_revoked
datatype revocation_outcome = Rev_verified_not_revoked | Rev_unknown | Rev_revoked
datatype signer_source = Signer_bundle | Signer_sod

record authentic =
  au_crlStatus :: crl_status
  au_revocation :: revocation_outcome
  au_algorithm :: hash_algorithm
  au_signerSource :: signer_source
  au_declaresDg14 :: bool
  au_declaresDg15 :: bool

record passive_failed =
  pz_reason :: passive_failure
  pz_crlStatus :: crl_status
  pz_revocation :: "revocation_outcome option"
  pz_signerSource :: "signer_source option"

datatype authenticity_result = Authentic authentic | Not_authentic passive_failed

definition normalizeSodFailureReason :: "string \<Rightarrow> passive_failure" where
  "normalizeSodFailureReason reason =
     (if reason = ''required_dg_hash_missing'' then Pa_required_dg_hash_missing
      else if reason = ''unsupported_digest_algorithm'' then Pa_unsupported_digest_algorithm
      else Pa_parse_failure)"

definition passiveAuthFailureResult :: "passive_failure \<Rightarrow> passive_failed" where
  "passiveAuthFailureResult reason =
     \<lparr>pz_reason = reason, pz_crlStatus = Crl_not_checked, pz_revocation = None, pz_signerSource = None\<rparr>"

section \<open>Hashes of optional data groups\<close>

definition verifyDeclaredDgHash ::
  "platform \<Rightarrow> hash_algorithm \<Rightarrow> bytes option \<Rightarrow> bytes \<Rightarrow> string + passive_failure option" where
  "verifyDeclaredDgHash pf algorithm supplied expectedHash =
     (case supplied of
        None \<Rightarrow> Inr (Some Pa_sod_declared_dg_missing)
      | Some bs \<Rightarrow>
          if length bs = 0 then Inr (Some Pa_sod_declared_dg_missing)
          else rbind (pf_digest pf algorithm bs) (\<lambda>actualHash.
            if \<not> bytesEqual actualHash expectedHash then Inr (Some Pa_dg_hash_mismatch) else Inr None))"

definition assertUndeclaredDgAbsent :: "bytes option \<Rightarrow> passive_failure option" where
  "assertUndeclaredDgAbsent supplied =
     (case supplied of
        Some bs \<Rightarrow> if 0 < length bs then Some Pa_sod_undeclared_dg_supplied else None
      | None \<Rightarrow> None)"

definition checkOptionalDg ::
  "platform \<Rightarrow> hash_algorithm \<Rightarrow> bytes option \<Rightarrow> int \<Rightarrow> (int, bytes) jsmap \<Rightarrow> string + passive_failure option" where
  "checkOptionalDg pf algorithm supplied dataGroupNumber dgHashes =
     (case jm_get dgHashes dataGroupNumber of
        Some expectedHash \<Rightarrow> verifyDeclaredDgHash pf algorithm supplied expectedHash
      | None \<Rightarrow> Inr (assertUndeclaredDgAbsent supplied))"

section \<open>Trusted issuers\<close>

record trusted_certificate =
  tc_cert :: certificate
  tc_derBase64 :: string
  tc_skiHex :: "string option"
  tc_subjectKey :: string

record trusted_crl =
  cr_thisUpdate :: int
  cr_nextUpdate :: "int option"
  cr_tbs :: bytes
  cr_signatureAlgorithm :: signature_algorithm
  cr_signature :: bytes
  cr_derBase64 :: string

text \<open>
  The trust bundle by its indexes. The lookups of document signer certificates, which load and cache
  records behind the index, are its functions \<open>tb_dscBySerial\<close> and \<open>tb_dscsBySki\<close>. \<open>rl_*\<close> are the
  library's operations on a revocation list, the reader of an authority key identifier and the hash
  of a certificate's key.
\<close>

record trust_bundle =
  tb_cscasBySubjectKey :: "(string, trusted_certificate list) jsmap"
  tb_cscasBySkiHex :: "(string, trusted_certificate list) jsmap"
  tb_crlsByAkiHex :: "(string, trusted_crl list) jsmap"
  tb_crlsByIssuerKey :: "(string, trusted_crl list) jsmap"
  tb_dscBySerial :: "string \<Rightarrow> string \<Rightarrow> string + certificate option"
  tb_dscsBySki :: "string \<Rightarrow> string + certificate list"

record revocation =
  rl_verify :: "trusted_crl \<Rightarrow> certificate \<Rightarrow> string + bool"
  rl_isRevoked :: "trusted_crl \<Rightarrow> certificate \<Rightarrow> bool"
  rl_akiKey :: "asn1 \<Rightarrow> bytes option"
  rl_keyHash :: "certificate \<Rightarrow> string + bytes"

definition SUBJECT_KEY_IDENTIFIER_OID :: string where "SUBJECT_KEY_IDENTIFIER_OID = ''2.5.29.14''"
definition AUTHORITY_KEY_IDENTIFIER_OID :: string where "AUTHORITY_KEY_IDENTIFIER_OID = ''2.5.29.35''"

text \<open>\<open>Inr None\<close> is null.\<close>

definition parseOctetString :: "platform \<Rightarrow> bytes \<Rightarrow> string + bytes option" where
  "parseOctetString pf content =
     (case pf_ber pf content of
        Some (Asn1_Octets bs) \<Rightarrow> Inr (Some bs)
      | Some (Asn1_Octet_parts parts) \<Rightarrow> rbind (octetStringBytes (Asn1_Octet_parts parts)) (\<lambda>bs. Inr (Some bs))
      | _ \<Rightarrow> Inr None)"

definition subjectKeyIdentifierHex :: "platform \<Rightarrow> certificate \<Rightarrow> string + string option" where
  "subjectKeyIdentifierHex pf cert =
     (case find (\<lambda>e. fst e = SUBJECT_KEY_IDENTIFIER_OID) (ct_extensions cert) of
        None \<Rightarrow> Inr None
      | Some (oid, content) \<Rightarrow> rbind (parseOctetString pf content) (\<lambda>v. Inr (map_option hexBytes v)))"

definition subjectKeyIdentifierHexOrKeyHash :: "platform \<Rightarrow> revocation \<Rightarrow> certificate \<Rightarrow> string + string" where
  "subjectKeyIdentifierHexOrKeyHash pf rl cert =
     rbind (subjectKeyIdentifierHex pf cert) (\<lambda>ski.
       case ski of
         Some s \<Rightarrow> Inr s
       | None \<Rightarrow> rbind (rl_keyHash rl cert) (\<lambda>h. Inr (hexBytes h)))"

definition authorityKeyIdentifierHex :: "platform \<Rightarrow> revocation \<Rightarrow> certificate \<Rightarrow> string option" where
  "authorityKeyIdentifierHex pf rl cert =
     (case find (\<lambda>e. fst e = AUTHORITY_KEY_IDENTIFIER_OID) (ct_extensions cert) of
        None \<Rightarrow> None
      | Some (oid, content) \<Rightarrow>
          (case pf_ber pf content of
             None \<Rightarrow> None
           | Some node \<Rightarrow> map_option hexBytes (rl_akiKey rl node)))"

definition verifyCertificateIssuedBy ::
  "platform \<Rightarrow> pki \<Rightarrow> certificate \<Rightarrow> certificate \<Rightarrow> string + bool" where
  "verifyCertificateIssuedBy pf pk issuerCert cert =
     rbind (normalizedEcCertificatePublicKeyAlgorithm pk cert) (\<lambda>normalized.
     rbind (normalizedEcCertificatePublicKeyAlgorithm pk issuerCert) (\<lambda>normalizedIssuer.
       case ck_cert_verify pk normalized normalizedIssuer of
         Inr True \<Rightarrow> Inr True
       | _ \<Rightarrow>
           (case verifySignatureWithCertificate pf pk (ct_tbs normalized) normalizedIssuer
                   (ct_signatureAlgorithm normalized) (ct_signature normalized) of
              Inl _ \<Rightarrow> Inr False
            | Inr verified \<Rightarrow> Inr verified)))"

definition dedupe_by :: "('a \<Rightarrow> 'k) \<Rightarrow> 'a list \<Rightarrow> 'a list" where
  "dedupe_by key xs = map snd (foldl (\<lambda>m x. jm_set (key x) x m) [] xs)"

definition indexed :: "(string, 'a list) jsmap \<Rightarrow> string \<Rightarrow> 'a list" where
  "indexed index key = (case jm_get index key of None \<Rightarrow> [] | Some xs \<Rightarrow> xs)"

definition truthy_key :: "string option \<Rightarrow> bool" where
  "truthy_key key \<longleftrightarrow> (case key of None \<Rightarrow> False | Some s \<Rightarrow> s \<noteq> [])"

definition collectTrustedIssuerCandidates ::
  "platform \<Rightarrow> revocation \<Rightarrow> trust_bundle \<Rightarrow> certificate \<Rightarrow> trusted_certificate list" where
  "collectTrustedIssuerCandidates pf rl bundle signerCert =
     (let issuerKey = relativeDistinguishedNameKey (ct_issuer signerCert);
          signerAkiHex = authorityKeyIdentifierHex pf rl signerCert
      in dedupe_by tc_derBase64
           (indexed (tb_cscasBySubjectKey bundle) issuerKey
            @ (if truthy_key signerAkiHex then indexed (tb_cscasBySkiHex bundle) (the signerAkiHex) else [])))"

fun issuer_loop ::
  "platform \<Rightarrow> pki \<Rightarrow> certificate \<Rightarrow> trusted_certificate list \<Rightarrow> string + trusted_certificate option" where
  "issuer_loop pf pk signerCert [] = Inr None"
| "issuer_loop pf pk signerCert (candidate # candidates) =
     rbind (verifyCertificateIssuedBy pf pk (tc_cert candidate) signerCert) (\<lambda>verified.
       if verified then Inr (Some candidate) else issuer_loop pf pk signerCert candidates)"

text \<open>\<open>Inl\<close> of the verdict the reason, \<open>Inr\<close> the issuer.\<close>

definition verifyTrustedIssuer ::
  "platform \<Rightarrow> pki \<Rightarrow> revocation \<Rightarrow> trust_bundle \<Rightarrow> certificate \<Rightarrow> string + (passive_failure + trusted_certificate)" where
  "verifyTrustedIssuer pf pk rl bundle signerCert =
     (let candidates = collectTrustedIssuerCandidates pf rl bundle signerCert
      in if length candidates = 0 then Inr (Inl Pa_chain_untrusted)
         else rbind (issuer_loop pf pk signerCert candidates) (\<lambda>issuer.
           case issuer of None \<Rightarrow> Inr (Inl Pa_signer_certificate_invalid) | Some c \<Rightarrow> Inr (Inr c)))"

section \<open>Revocation\<close>

definition dedupeCrlEntries :: "trusted_crl list \<Rightarrow> trusted_crl list" where
  "dedupeCrlEntries entries = dedupe_by cr_derBase64 entries"

definition collectIssuerCrlCandidates ::
  "platform \<Rightarrow> revocation \<Rightarrow> trust_bundle \<Rightarrow> trusted_certificate \<Rightarrow> string + trusted_crl list" where
  "collectIssuerCrlCandidates pf rl bundle issuer =
     rbind (case tc_skiHex issuer of
              Some s \<Rightarrow> Inr s
            | None \<Rightarrow> subjectKeyIdentifierHexOrKeyHash pf rl (tc_cert issuer)) (\<lambda>issuerSkiHex.
       Inr (dedupeCrlEntries
         (indexed (tb_crlsByIssuerKey bundle) (tc_subjectKey issuer)
          @ (if issuerSkiHex \<noteq> [] then indexed (tb_crlsByAkiHex bundle) issuerSkiHex else []))))"

text \<open>A time of zero milliseconds is a date like any other; only an absent one is falsy.\<close>

definition crlIsStale :: "trusted_crl \<Rightarrow> int \<Rightarrow> bool" where
  "crlIsStale candidate checkDate \<longleftrightarrow>
     (case cr_nextUpdate candidate of None \<Rightarrow> False | Some t \<Rightarrow> t < checkDate)"

definition crlIsNotYetUsable :: "trusted_crl \<Rightarrow> int \<Rightarrow> bool" where
  "crlIsNotYetUsable candidate checkDate \<longleftrightarrow> checkDate < cr_thisUpdate candidate"

definition verifyCrlForIssuer ::
  "platform \<Rightarrow> pki \<Rightarrow> revocation \<Rightarrow> trusted_crl \<Rightarrow> trusted_certificate \<Rightarrow> string + bool" where
  "verifyCrlForIssuer pf pk rl candidate issuer =
     rbind (normalizedEcCertificatePublicKeyAlgorithm pk (tc_cert issuer)) (\<lambda>normalizedIssuer.
       case rl_verify rl candidate normalizedIssuer of
         Inr verified \<Rightarrow> Inr verified
       | Inl _ \<Rightarrow>
           (case verifySignatureWithCertificate pf pk (cr_tbs candidate) normalizedIssuer
                   (cr_signatureAlgorithm candidate) (cr_signature candidate) of
              Inl _ \<Rightarrow> Inr False
            | Inr verified \<Rightarrow> Inr verified))"

fun verified_crls ::
  "platform \<Rightarrow> pki \<Rightarrow> revocation \<Rightarrow> int \<Rightarrow> trusted_certificate \<Rightarrow> trusted_crl list \<Rightarrow> string + trusted_crl list" where
  "verified_crls pf pk rl checkDate issuer [] = Inr []"
| "verified_crls pf pk rl checkDate issuer (candidate # candidates) =
     (if crlIsNotYetUsable candidate checkDate then verified_crls pf pk rl checkDate issuer candidates
      else
        rbind (verifyCrlForIssuer pf pk rl candidate issuer) (\<lambda>verified.
        rbind (verified_crls pf pk rl checkDate issuer candidates) (\<lambda>rest.
          Inr (if verified then candidate # rest else rest))))"

text \<open>
  The code sorts the current lists before it asks each whether it revokes the certificate; the order
  does not change whether one of them does.
\<close>

definition evaluateCrlStatus ::
  "platform \<Rightarrow> pki \<Rightarrow> revocation \<Rightarrow> trust_bundle \<Rightarrow> int \<Rightarrow> trusted_certificate \<Rightarrow> certificate \<Rightarrow> string + crl_status" where
  "evaluateCrlStatus pf pk rl bundle checkDate issuer signerCert =
     rbind (collectIssuerCrlCandidates pf rl bundle issuer) (\<lambda>candidates.
       if length candidates = 0 then Inr Crl_missing
       else
         rbind (verified_crls pf pk rl checkDate issuer candidates) (\<lambda>verified.
           let current = filter (\<lambda>c. \<not> crlIsStale c checkDate) verified
           in if 0 < length current then
                (if list_ex (\<lambda>c. rl_isRevoked rl c signerCert) current then Inr Crl_revoked
                 else Inr Crl_verified_not_revoked)
              else if list_ex (\<lambda>c. crlIsStale c checkDate) verified then Inr Crl_stale
              else Inr Crl_missing))"

section \<open>Signers\<close>

definition issuerAndSerialFromSignerInfo :: "signer_info \<Rightarrow> (string \<times> string) option" where
  "issuerAndSerialFromSignerInfo si =
     (case si_sid si of
        Sid_issuer_serial issuer serial \<Rightarrow> Some (relativeDistinguishedNameKey issuer, hexBytes serial)
      | _ \<Rightarrow> None)"

definition subjectKeyIdentifierFromSignerInfo :: "signer_info \<Rightarrow> string + string option" where
  "subjectKeyIdentifierFromSignerInfo si =
     (case si_sid si of
        Sid_octets node \<Rightarrow> rbind (octetStringBytes node) (\<lambda>bs. Inr (Some (hexBytes bs)))
      | Sid_context nested content \<Rightarrow>
          (case nested of
             Asn1_Octets bs # _ \<Rightarrow> Inr (Some (hexBytes bs))
           | Asn1_Octet_parts parts # _ \<Rightarrow>
               rbind (octetStringBytes (Asn1_Octet_parts parts)) (\<lambda>bs. Inr (Some (hexBytes bs)))
           | _ \<Rightarrow> Inr (Some (hexBytes content)))
      | _ \<Rightarrow> Inr None)"

definition embeddedCertificates :: "signed_data \<Rightarrow> certificate list" where
  "embeddedCertificates sg =
     (case sg_certificates sg of None \<Rightarrow> [] | Some cs \<Rightarrow> map the (filter (\<lambda>e. e \<noteq> None) cs))"

definition certificateMatchesSigner :: "platform \<Rightarrow> certificate \<Rightarrow> signer_info \<Rightarrow> string + bool" where
  "certificateMatchesSigner pf cert si =
     (case issuerAndSerialFromSignerInfo si of
        Some (issuerKey, serialNumberHex) \<Rightarrow>
          Inr (relativeDistinguishedNameKey (ct_issuer cert) = issuerKey \<and> hexBytes (ct_serial cert) = serialNumberHex)
      | None \<Rightarrow>
          rbind (subjectKeyIdentifierFromSignerInfo si) (\<lambda>signerSkiHex.
            if \<not> truthy_key signerSkiHex then Inr False
            else rbind (subjectKeyIdentifierHex pf cert) (\<lambda>certSkiHex. Inr (certSkiHex = signerSkiHex))))"

type_synonym resolved_signer = "certificate \<times> signer_source"

definition certificateIssuerSerialKey :: "certificate \<Rightarrow> string" where
  "certificateIssuerSerialKey cert =
     relativeDistinguishedNameKey (ct_issuer cert) @ '':'' @ hexBytes (ct_serial cert)"

text \<open>The first candidate of a key stays.\<close>

definition dedupeResolvedSignerCertificates :: "resolved_signer list \<Rightarrow> resolved_signer list" where
  "dedupeResolvedSignerCertificates candidates =
     map snd (foldl (\<lambda>m c.
       let key = (snd c, certificateIssuerSerialKey (fst c)) in if jm_has m key then m else jm_set key c m) [] candidates)"

fun embedded_loop :: "platform \<Rightarrow> signer_info \<Rightarrow> certificate list \<Rightarrow> string + resolved_signer list" where
  "embedded_loop pf si [] = Inr []"
| "embedded_loop pf si (cert # certs) =
     rbind (certificateMatchesSigner pf cert si) (\<lambda>same.
     rbind (embedded_loop pf si certs) (\<lambda>rest. Inr (if same then (cert, Signer_sod) # rest else rest)))"

definition resolveSignerCertificates ::
  "platform \<Rightarrow> trust_bundle \<Rightarrow> signed_data \<Rightarrow> signer_info \<Rightarrow> string + resolved_signer list" where
  "resolveSignerCertificates pf bundle sg si =
     rbind (embedded_loop pf si (embeddedCertificates sg)) (\<lambda>embedded.
     rbind (subjectKeyIdentifierFromSignerInfo si) (\<lambda>subjectKeyIdentifier.
     rbind (case issuerAndSerialFromSignerInfo si of
              None \<Rightarrow> Inr []
            | Some (issuerKey, serialNumberHex) \<Rightarrow>
                rbind (tb_dscBySerial bundle issuerKey serialNumberHex) (\<lambda>dsc.
                  Inr (case dsc of None \<Rightarrow> [] | Some cert \<Rightarrow> [(cert, Signer_bundle)]))) (\<lambda>bySerial.
     rbind (if truthy_key subjectKeyIdentifier
            then rbind (tb_dscsBySki bundle (the subjectKeyIdentifier)) (\<lambda>certs. Inr (map (\<lambda>c. (c, Signer_bundle)) certs))
            else Inr []) (\<lambda>bySki.
       Inr (dedupeResolvedSignerCertificates (embedded @ bySerial @ bySki))))))"

definition signerValidityFailureReason :: "certificate \<Rightarrow> int \<Rightarrow> passive_failure option" where
  "signerValidityFailureReason cert checkDate =
     (if checkDate < ct_notBefore cert then Some Pa_signer_certificate_not_yet_valid
      else if ct_notAfter cert < checkDate then Some Pa_signer_certificate_expired
      else None)"

definition signer_failure :: "signer_source \<Rightarrow> passive_failure \<Rightarrow> passive_failed" where
  "signer_failure src reason = (passiveAuthFailureResult reason)\<lparr>pz_signerSource := Some src\<rparr>"

text \<open>\<open>Inl\<close> of the verdict the failure, \<open>Inr\<close> the status of the revocation lists and its outcome.\<close>

definition validateSignerCandidate ::
  "platform \<Rightarrow> pki \<Rightarrow> revocation \<Rightarrow> trust_bundle \<Rightarrow> int \<Rightarrow> signed_data \<Rightarrow> resolved_signer \<Rightarrow>
     string + (passive_failed + crl_status \<times> revocation_outcome)" where
  "validateSignerCandidate pf pk rl bundle checkDate sg signer =
     (case signer of
        (cert, src) \<Rightarrow>
          (case signerValidityFailureReason cert checkDate of
             Some reason \<Rightarrow> Inr (Inl (signer_failure src reason))
           | None \<Rightarrow>
               rbind (verifyCmsSignature pf pk checkDate sg cert) (\<lambda>cmsOk.
               if \<not> cmsOk then Inr (Inl (signer_failure src Pa_cms_signature_invalid))
               else
                 rbind (verifyTrustedIssuer pf pk rl bundle cert) (\<lambda>trusted.
                   case trusted of
                     Inl reason \<Rightarrow> Inr (Inl (signer_failure src reason))
                   | Inr issuer \<Rightarrow>
                       rbind (evaluateCrlStatus pf pk rl bundle checkDate issuer cert) (\<lambda>crlStatus.
                         if crlStatus = Crl_revoked then
                           Inr (Inl \<lparr>pz_reason = Pa_crl_revoked, pz_crlStatus = crlStatus,
                                     pz_revocation = Some Rev_revoked, pz_signerSource = Some src\<rparr>)
                         else if crlStatus = Crl_missing \<or> crlStatus = Crl_stale then Inr (Inr (crlStatus, Rev_unknown))
                         else Inr (Inr (crlStatus, Rev_verified_not_revoked)))))))"

section \<open>Authenticity\<close>

text \<open>The first candidate that passes decides; without one, the failure of the first.\<close>

fun candidate_loop ::
  "platform \<Rightarrow> pki \<Rightarrow> revocation \<Rightarrow> trust_bundle \<Rightarrow> int \<Rightarrow> parsed_sod \<Rightarrow> passive_failed option \<Rightarrow>
     resolved_signer list \<Rightarrow> string + authenticity_result" where
  "candidate_loop pf pk rl bundle checkDate sod failure [] =
     Inr (Not_authentic (case failure of None \<Rightarrow> passiveAuthFailureResult Pa_signer_certificate_invalid | Some f \<Rightarrow> f))"
| "candidate_loop pf pk rl bundle checkDate sod failure (signer # signers) =
     rbind (validateSignerCandidate pf pk rl bundle checkDate (sod_signedData sod) signer) (\<lambda>evaluation.
       case evaluation of
         Inl f \<Rightarrow>
           candidate_loop pf pk rl bundle checkDate sod (case failure of None \<Rightarrow> Some f | Some f0 \<Rightarrow> Some f0) signers
       | Inr (crlStatus, outcome) \<Rightarrow>
           Inr (Authentic \<lparr>au_crlStatus = crlStatus, au_revocation = outcome, au_algorithm = sod_algorithm sod,
             au_signerSource = snd signer, au_declaresDg14 = jm_has (sod_dgHashes sod) 14,
             au_declaresDg15 = jm_has (sod_dgHashes sod) 15\<rparr>))"

definition fails :: "passive_failure \<Rightarrow> string + authenticity_result" where
  "fails reason = Inr (Not_authentic (passiveAuthFailureResult reason))"

text \<open>\<open>bundle\<close> is what the loader of the trust bundle gives: nothing when there is none or it throws.\<close>

definition validateAuthenticity ::
  "platform \<Rightarrow> pki \<Rightarrow> revocation \<Rightarrow> cms_readers \<Rightarrow> trust_bundle option \<Rightarrow> int \<Rightarrow>
     bytes \<Rightarrow> bytes \<Rightarrow> bytes option \<Rightarrow> bytes option \<Rightarrow> bytes \<Rightarrow> string + authenticity_result" where
  "validateAuthenticity pf pk rl rd bundle checkDate dg1 dg2 dg14 dg15 sod =
     (if length dg1 = 0 \<or> length dg2 = 0 \<or> length sod = 0 then fails Pa_missing_required_artifacts
      else
        case parseSodSecurityObject pf rd sod of
          Inl message \<Rightarrow> fails (normalizeSodFailureReason message)
        | Inr parsed \<Rightarrow>
            case signerInfosOrThrow (sod_signedData parsed) of
              Inl _ \<Rightarrow> fails Pa_missing_signer
            | Inr signerInfos \<Rightarrow>
                rbind (pf_digest pf (sod_algorithm parsed) dg1) (\<lambda>dg1Digest.
                rbind (pf_digest pf (sod_algorithm parsed) dg2) (\<lambda>dg2Digest.
                if \<not> (bytesEqual dg1Digest (sod_dg1Hash parsed) \<and> bytesEqual dg2Digest (sod_dg2Hash parsed))
                then fails Pa_dg_hash_mismatch
                else
                  rbind (checkOptionalDg pf (sod_algorithm parsed) dg14 14 (sod_dgHashes parsed)) (\<lambda>dg14Check.
                  rbind (checkOptionalDg pf (sod_algorithm parsed) dg15 15 (sod_dgHashes parsed)) (\<lambda>dg15Check.
                  case dg14Check of
                    Some reason \<Rightarrow> fails reason
                  | None \<Rightarrow>
                      case dg15Check of
                        Some reason \<Rightarrow> fails reason
                      | None \<Rightarrow>
                          case bundle of
                            None \<Rightarrow> fails Pa_trust_bundle_unavailable
                          | Some trust \<Rightarrow>
                              case resolveSignerCertificates pf trust (sod_signedData parsed) (hd signerInfos) of
                                Inl _ \<Rightarrow> fails Pa_signer_certificate_invalid
                              | Inr candidates \<Rightarrow>
                                  if length candidates = 0 then fails Pa_missing_signer_certificate
                                  else candidate_loop pf pk rl trust checkDate parsed None candidates)))))"

end
