(* ===== verification/Passive_Guarantees.thy ===== *)
theory Passive_Guarantees
  imports Passive_Auth
begin

text \<open>
  What passive authentication promises: the data groups the verdict rests on, the signer that made
  it, the issuer and the revocation lists behind the signer, and the content a signature covers.
\<close>

section \<open>Hashes\<close>

text \<open>A data group agrees with the security object: listed and given with its hash, or neither.\<close>

definition group_agrees :: "platform \<Rightarrow> parsed_sod \<Rightarrow> int \<Rightarrow> bytes option \<Rightarrow> bool" where
  "group_agrees pf sod n supplied \<longleftrightarrow>
     (case jm_get (sod_dgHashes sod) n of
        Some expected \<Rightarrow> (\<exists>bs. supplied = Some bs \<and> bs \<noteq> [] \<and> pf_digest pf (sod_algorithm sod) bs = Inr expected)
      | None \<Rightarrow> supplied = None \<or> supplied = Some [])"

lemma checkOptionalDg_passes:
  "checkOptionalDg pf (sod_algorithm sod) supplied n (sod_dgHashes sod) = Inr None \<longleftrightarrow> group_agrees pf sod n supplied"
  by (auto simp: checkOptionalDg_def group_agrees_def verifyDeclaredDgHash_def assertUndeclaredDgAbsent_def result_simps
      split: option.splits if_splits)

lemma required_hashes:
  assumes "parseSodSecurityObject pf rd sod = Inr parsed"
  shows "jm_get (sod_dgHashes parsed) 1 = Some (sod_dg1Hash parsed)"
    and "jm_get (sod_dgHashes parsed) 2 = Some (sod_dg2Hash parsed)"
  using assms by (auto simp: parseSodSecurityObject_def parseRequiredDgHashes_def result_simps split: option.splits prod.splits)

section \<open>The issuer\<close>

lemma set_dedupe: "set (dedupe_by key xs) \<subseteq> set xs"
proof -
  have "set (map snd (foldl (\<lambda>m x. jm_set (key x) x m) m xs)) \<subseteq> set (map snd m) \<union> set xs" for m
  proof (induction xs arbitrary: m)
    case Nil
    then show ?case by simp
  next
    case (Cons x xs)
    have "set (map snd (jm_set (key x) x m)) \<subseteq> insert x (set (map snd m))"
      by (induction m) auto
    with Cons [of "jm_set (key x) x m"] show ?case by auto
  qed
  from this [of "[]"] show ?thesis by (simp add: dedupe_by_def)
qed

text \<open>An authority of the bundle that could have issued a certificate: by its name, or by its key identifier.\<close>

definition possible_issuer :: "platform \<Rightarrow> revocation \<Rightarrow> trust_bundle \<Rightarrow> certificate \<Rightarrow> trusted_certificate \<Rightarrow> bool" where
  "possible_issuer pf rl bundle cert issuer \<longleftrightarrow>
     issuer \<in> set (indexed (tb_cscasBySubjectKey bundle) (relativeDistinguishedNameKey (ct_issuer cert))) \<or>
     (\<exists>aki. authorityKeyIdentifierHex pf rl cert = Some aki \<and> aki \<noteq> [] \<and> issuer \<in> set (indexed (tb_cscasBySkiHex bundle) aki))"

lemma issuer_candidates: "set (collectTrustedIssuerCandidates pf rl bundle cert) \<subseteq> Collect (possible_issuer pf rl bundle cert)"
  unfolding collectTrustedIssuerCandidates_def Let_def
  by (rule subset_trans [OF set_dedupe]) (auto simp: possible_issuer_def truthy_key_def split: option.splits if_splits)

lemma issuer_loop_finds:
  "issuer_loop pf pk cert candidates = Inr (Some issuer) \<Longrightarrow>
     issuer \<in> set candidates \<and> verifyCertificateIssuedBy pf pk (tc_cert issuer) cert = Inr True"
  by (induction candidates) (auto simp: result_simps split: if_splits)

lemma trusted_issuer:
  assumes "verifyTrustedIssuer pf pk rl bundle cert = Inr (Inr issuer)"
  shows "possible_issuer pf rl bundle cert issuer" and "verifyCertificateIssuedBy pf pk (tc_cert issuer) cert = Inr True"
proof -
  from assms have "issuer_loop pf pk cert (collectTrustedIssuerCandidates pf rl bundle cert) = Inr (Some issuer)"
    by (auto simp: verifyTrustedIssuer_def result_simps Let_def split: if_splits option.splits)
  with issuer_loop_finds issuer_candidates
  show "possible_issuer pf rl bundle cert issuer" "verifyCertificateIssuedBy pf pk (tc_cert issuer) cert = Inr True" by blast+
qed

section \<open>Revocation lists\<close>

text \<open>A list counts when its time has come and its signature verifies with the issuer.\<close>

definition counts :: "platform \<Rightarrow> pki \<Rightarrow> revocation \<Rightarrow> int \<Rightarrow> trusted_certificate \<Rightarrow> trusted_crl \<Rightarrow> bool" where
  "counts pf pk rl now issuer c \<longleftrightarrow> cr_thisUpdate c \<le> now \<and> verifyCrlForIssuer pf pk rl c issuer = Inr True"

lemma verified_crls_filter:
  "verified_crls pf pk rl now issuer cs = Inr v \<Longrightarrow> v = filter (counts pf pk rl now issuer) cs"
  by (induction cs arbitrary: v) (auto simp: counts_def crlIsNotYetUsable_def result_simps split: if_splits)

lemma crl_status_value:
  assumes "evaluateCrlStatus pf pk rl bundle now issuer cert = Inr status"
    and "collectIssuerCrlCandidates pf rl bundle issuer = Inr candidates"
  shows "status =
    (let lists = filter (counts pf pk rl now issuer) candidates
     in if \<exists>c \<in> set lists. \<not> crlIsStale c now \<and> rl_isRevoked rl c cert then Crl_revoked
        else if \<exists>c \<in> set lists. \<not> crlIsStale c now then Crl_verified_not_revoked
        else if lists \<noteq> [] then Crl_stale else Crl_missing)"
proof (cases "candidates = []")
  case True
  with assms show ?thesis by (simp add: evaluateCrlStatus_def)
next
  case False
  with assms obtain v where v: "verified_crls pf pk rl now issuer candidates = Inr v"
    and s: "status = (let current = filter (\<lambda>c. \<not> crlIsStale c now) v
      in if 0 < length current then (if list_ex (\<lambda>c. rl_isRevoked rl c cert) current then Crl_revoked
           else Crl_verified_not_revoked)
         else if list_ex (\<lambda>c. crlIsStale c now) v then Crl_stale else Crl_missing)"
    by (auto simp: evaluateCrlStatus_def result_simps Let_def split: if_splits)
  show ?thesis unfolding s verified_crls_filter [OF v] Let_def
    by (auto simp: list_ex_iff filter_empty_conv neq_Nil_conv)
qed

lemma crl_candidates: "evaluateCrlStatus pf pk rl bundle now issuer cert = Inr status \<Longrightarrow>
  \<exists>candidates. collectIssuerCrlCandidates pf rl bundle issuer = Inr candidates"
  by (auto simp: evaluateCrlStatus_def result_simps)

lemma crl_status_checked:
  assumes "evaluateCrlStatus pf pk rl bundle now issuer cert = Inr status"
  shows "status \<noteq> Crl_not_checked"
proof -
  from crl_candidates [OF assms] obtain candidates where "collectIssuerCrlCandidates pf rl bundle issuer = Inr candidates" ..
  from crl_status_value [OF assms this] show ?thesis by (simp add: Let_def)
qed

section \<open>Signers\<close>

text \<open>What the outcome says of a status that lets the signer pass.\<close>

definition outcome_of :: "crl_status \<Rightarrow> revocation_outcome" where
  "outcome_of status = (if status \<in> {Crl_missing, Crl_stale} then Rev_unknown else Rev_verified_not_revoked)"

lemma signer_accepted:
  "validateSignerCandidate pf pk rl bundle now sg (cert, src) = Inr (Inr (status, outcome)) \<longleftrightarrow>
     ct_notBefore cert \<le> now \<and> now \<le> ct_notAfter cert \<and> verifyCmsSignature pf pk now sg cert = Inr True \<and>
     (\<exists>issuer. verifyTrustedIssuer pf pk rl bundle cert = Inr (Inr issuer) \<and>
        evaluateCrlStatus pf pk rl bundle now issuer cert = Inr status) \<and>
     status \<noteq> Crl_revoked \<and> outcome = outcome_of status"
proof -
  note defs = validateSignerCandidate_def signerValidityFailureReason_def outcome_of_def
  show ?thesis
  proof (cases "verifyCmsSignature pf pk now sg cert")
    case Inl
    then show ?thesis by (simp add: defs)
  next
    case cms: (Inr ok)
    show ?thesis
    proof (cases "verifyTrustedIssuer pf pk rl bundle cert")
      case Inl
      with cms show ?thesis by (simp add: defs)
    next
      case trust: (Inr t)
      show ?thesis
      proof (cases t)
        case Inl
        with cms trust show ?thesis by (simp add: defs)
      next
        case (Inr issuer)
        with cms trust show ?thesis by (cases "evaluateCrlStatus pf pk rl bundle now issuer cert") (auto simp: defs)
      qed
    qed
  qed
qed

text \<open>The first element with \<open>Q\<close>, after elements with \<open>P\<close> only.\<close>

lemma first_split_Cons:
  "(\<exists>before y after. x # xs = before @ y # after \<and> (\<forall>z \<in> set before. P z) \<and> Q y) \<longleftrightarrow>
     Q x \<or> P x \<and> (\<exists>before y after. xs = before @ y # after \<and> (\<forall>z \<in> set before. P z) \<and> Q y)"
  (is "?l \<longleftrightarrow> ?r")
proof
  assume ?l
  then obtain before y after where a: "x # xs = before @ y # after" "\<forall>z \<in> set before. P z" "Q y" by blast
  then show ?r by (cases before) auto
next
  assume ?r
  then show ?l
  proof
    assume "Q x"
    then show ?l by (intro exI [of _ "[]"]) auto
  next
    assume "P x \<and> (\<exists>before y after. xs = before @ y # after \<and> (\<forall>z \<in> set before. P z) \<and> Q y)"
    then obtain before y after where "P x" "xs = before @ y # after" "\<forall>z \<in> set before. P z" "Q y" by blast
    then show ?l by (intro exI [of _ "x # before"]) auto
  qed
qed

text \<open>The verdict on a document whose signer passed.\<close>

definition verdict_with :: "parsed_sod \<Rightarrow> signer_source \<Rightarrow> crl_status \<Rightarrow> authentic" where
  "verdict_with sod src status = \<lparr>au_crlStatus = status, au_revocation = outcome_of status, au_algorithm = sod_algorithm sod,
     au_signerSource = src, au_declaresDg14 = jm_has (sod_dgHashes sod) 14, au_declaresDg15 = jm_has (sod_dgHashes sod) 15\<rparr>"

lemma candidate_loop_accepts:
  fixes pf pk rl trust now sod
  defines "judge \<equiv> validateSignerCandidate pf pk rl trust now (sod_signedData sod)"
  shows "candidate_loop pf pk rl trust now sod failure signers = Inr (Authentic r) \<longleftrightarrow>
     (\<exists>before signer after. signers = before @ signer # after \<and> (\<forall>s \<in> set before. \<exists>f. judge s = Inr (Inl f)) \<and>
        (\<exists>status. judge signer = Inr (Inr (status, outcome_of status)) \<and> r = verdict_with sod (snd signer) status))"
proof (induction signers arbitrary: failure)
  case Nil
  then show ?case by simp
next
  case (Cons s signers)
  show ?case
  proof (cases "judge s")
    case (Inl message)
    then show ?thesis unfolding first_split_Cons by (simp add: judge_def)
  next
    case v: (Inr verdict)
    show ?thesis
    proof (cases verdict)
      case (Inl f)
      with v Cons show ?thesis unfolding first_split_Cons by (simp add: judge_def)
    next
      case (Inr ok)
      obtain cert src status outcome where s: "s = (cert, src)" "ok = (status, outcome)" by (cases s, cases ok)
      with v Inr have "outcome = outcome_of status" by (simp add: judge_def signer_accepted)
      with v Inr s show ?thesis unfolding first_split_Cons by (auto simp: judge_def verdict_with_def)
    qed
  qed
qed

section \<open>The document\<close>

text \<open>What the security object alone decides: the data groups agree with it.\<close>

definition document_agrees ::
  "platform \<Rightarrow> cms_readers \<Rightarrow> bytes \<Rightarrow> bytes \<Rightarrow> bytes option \<Rightarrow> bytes option \<Rightarrow> bytes \<Rightarrow> parsed_sod \<Rightarrow> bool" where
  "document_agrees pf rd dg1 dg2 dg14 dg15 sod parsed \<longleftrightarrow>
     dg1 \<noteq> [] \<and> dg2 \<noteq> [] \<and> sod \<noteq> [] \<and> parseSodSecurityObject pf rd sod = Inr parsed \<and>
     group_agrees pf parsed 1 (Some dg1) \<and> group_agrees pf parsed 2 (Some dg2) \<and>
     group_agrees pf parsed 14 dg14 \<and> group_agrees pf parsed 15 dg15"

lemma required_groups:
  assumes "parseSodSecurityObject pf rd sod = Inr parsed"
  shows "group_agrees pf parsed 1 (Some bs) \<longleftrightarrow> bs \<noteq> [] \<and> pf_digest pf (sod_algorithm parsed) bs = Inr (sod_dg1Hash parsed)"
    and "group_agrees pf parsed 2 (Some bs) \<longleftrightarrow> bs \<noteq> [] \<and> pf_digest pf (sod_algorithm parsed) bs = Inr (sod_dg2Hash parsed)"
  using required_hashes [OF assms] by (auto simp: group_agrees_def)

lemma fails_not_authentic [simp]: "fails reason \<noteq> Inr (Authentic r)"
  by (simp add: fails_def)

lemma authentic_iff:
  "validateAuthenticity pf pk rl rd trust now dg1 dg2 dg14 dg15 sod = Inr (Authentic r) \<longleftrightarrow>
     (\<exists>parsed si rest tb signers. document_agrees pf rd dg1 dg2 dg14 dg15 sod parsed \<and>
        sg_signerInfos (sod_signedData parsed) = si # rest \<and> trust = Some tb \<and>
        resolveSignerCertificates pf tb (sod_signedData parsed) si = Inr signers \<and>
        candidate_loop pf pk rl tb now parsed None signers = Inr (Authentic r))"
proof (cases "dg1 = [] \<or> dg2 = [] \<or> sod = []")
  case True
  then show ?thesis by (auto simp: validateAuthenticity_def document_agrees_def)
next
  case False
  then have ne: "dg1 \<noteq> []" "dg2 \<noteq> []" "sod \<noteq> []" by simp_all
  show ?thesis
  proof (cases "parseSodSecurityObject pf rd sod")
    case Inl
    with ne show ?thesis by (simp add: validateAuthenticity_def document_agrees_def)
  next
    case p: (Inr parsed)
    let ?h = "sod_algorithm parsed"
    note agree = document_agrees_def p required_groups [OF p] ne
    show ?thesis
    proof (cases "sg_signerInfos (sod_signedData parsed)")
      case Nil
      with ne p show ?thesis by (auto simp: validateAuthenticity_def signerInfosOrThrow_def agree)
    next
      case si: (Cons si rest)
      have start: "validateAuthenticity pf pk rl rd trust now dg1 dg2 dg14 dg15 sod = Inr (Authentic r) \<longleftrightarrow>
        pf_digest pf ?h dg1 = Inr (sod_dg1Hash parsed) \<and> pf_digest pf ?h dg2 = Inr (sod_dg2Hash parsed) \<and>
        checkOptionalDg pf ?h dg14 14 (sod_dgHashes parsed) = Inr None \<and>
        checkOptionalDg pf ?h dg15 15 (sod_dgHashes parsed) = Inr None \<and>
        (\<exists>tb. trust = Some tb \<and> (\<exists>signers. resolveSignerCertificates pf tb (sod_signedData parsed) si = Inr signers \<and>
           signers \<noteq> [] \<and> candidate_loop pf pk rl tb now parsed None signers = Inr (Authentic r)))"
        using ne p si unfolding validateAuthenticity_def
        by (auto simp: signerInfosOrThrow_def result_simps split: if_splits option.splits sum.splits)
      show ?thesis unfolding start checkOptionalDg_passes by (auto simp: agree si)
    qed
  qed
qed

section \<open>Signed content\<close>

lemma attribute_loop_content_type:
  "attribute_loop attributes saw d = Inr (True, e) \<Longrightarrow> saw \<or> CONTENT_TYPE_ATTRIBUTE_OID \<in> fst ` set attributes"
proof (induction attributes saw d rule: attribute_loop.induct)
  case (2 ty nodes attributes saw d)
  then show ?case by (auto simp: result_simps split: if_splits list.splits asn1.splits)
qed simp

lemma attribute_loop_digest:
  assumes "attribute_loop attributes saw d = Inr (saw', Some digest)"
  shows "d = Some digest \<or>
     (\<exists>node nodes. (MESSAGE_DIGEST_ATTRIBUTE_OID, node # nodes) \<in> set attributes \<and> octetStringBytes node = Inr digest)"
  using assms
proof (induction attributes saw d rule: attribute_loop.induct)
  case (1 saw d)
  then show ?case by simp
next
  case (2 ty nodes attributes saw d)
  show ?case
  proof (cases "ty = MESSAGE_DIGEST_ATTRIBUTE_OID \<and> ty \<noteq> CONTENT_TYPE_ATTRIBUTE_OID")
    case False
    with 2 show ?thesis by (auto split: if_splits)
  next
    case True
    with "2.prems" obtain node nodes' bs where n: "nodes = node # nodes'" "octetStringBytes node = Inr bs"
      "attribute_loop attributes saw (Some bs) = Inr (saw', Some digest)"
      by (auto simp: result_simps split: list.splits asn1.splits)
    with "2.IH"(3,4) True "2.prems"
    have "Some bs = Some digest \<or> (\<exists>node nodes. (MESSAGE_DIGEST_ATTRIBUTE_OID, node # nodes) \<in> set attributes \<and>
      octetStringBytes node = Inr digest)"
      by (cases node) (auto simp: result_simps)
    with n True show ?thesis by auto
  qed
qed

text \<open>The content that the attributes of a signer bind, with its hash.\<close>

definition attributes_bind :: "platform \<Rightarrow> signed_data \<Rightarrow> signer_info \<Rightarrow> (string \<times> asn1 list) list \<Rightarrow> bool" where
  "attributes_bind pf sg si attributes \<longleftrightarrow>
     CONTENT_TYPE_ATTRIBUTE_OID \<in> fst ` set attributes \<and>
     (\<exists>h content digest node nodes. signerDigestAlgorithm si = Some h \<and> encapsulatedContentBytes sg = Inr content \<and>
        pf_digest pf h content = Inr digest \<and> (MESSAGE_DIGEST_ATTRIBUTE_OID, node # nodes) \<in> set attributes \<and>
        octetStringBytes node = Inr digest)"

lemma signed_bytes:
  assumes "si_signedAttrs si = Some (attributes, encoded)" and "signedDataBytesForSignature pf sg si = Inr bs"
  shows "attributes_bind pf sg si attributes" and "bs = signedAttributesSignatureBytes encoded"
proof -
  from assms obtain h content digest where h: "signerDigestAlgorithm si = Some h" "encapsulatedContentBytes sg = Inr content"
    "pf_digest pf h content = Inr digest" "signedAttributeMessageDigest attributes = Inr digest"
    and b: "bs = signedAttributesSignatureBytes encoded"
    by (auto simp: signedDataBytesForSignature_def result_simps split: option.splits if_splits)
  from h(4) have l: "attribute_loop attributes False None = Inr (True, Some digest)"
    by (auto simp: signedAttributeMessageDigest_def result_simps split: option.splits if_splits)
  show "attributes_bind pf sg si attributes"
    unfolding attributes_bind_def using attribute_loop_digest [OF l] attribute_loop_content_type [OF l] h(1-3)
    by (simp; metis)
  show "bs = signedAttributesSignatureBytes encoded" by (rule b)
qed

lemma manual_signature:
  assumes "sg_signerInfos sg = si # rest" and "si_signedAttrs si = Some (attributes, encoded)"
    and "verifyCmsSignatureManually pf pk sg cert = Inr True"
  shows "attributes_bind pf sg si attributes" and "\<exists>h. signatureHashAlgorithm pk si = Some h \<and>
    verifySignatureBytesWithCertificate pf pk (signedAttributesSignatureBytes encoded) h cert (si_signatureAlgorithm si)
      (si_signature si) = Inr True"
proof -
  from assms obtain h bs where "signatureHashAlgorithm pk si = Some h" and b: "signedDataBytesForSignature pf sg si = Inr bs"
    and "verifySignatureBytesWithCertificate pf pk bs h cert (si_signatureAlgorithm si) (si_signature si) = Inr True"
    by (auto simp: verifyCmsSignatureManually_def signerInfoOrThrow_def signerInfosOrThrow_def result_simps split: option.splits)
  with signed_bytes [OF assms(2) b] show "attributes_bind pf sg si attributes" and "\<exists>h. signatureHashAlgorithm pk si = Some h \<and>
    verifySignatureBytesWithCertificate pf pk (signedAttributesSignatureBytes encoded) h cert (si_signatureAlgorithm si)
      (si_signature si) = Inr True" by auto
qed

section \<open>A document\<close>

text \<open>
  A security object with the hashes of the first two data groups, signed by a certificate of the
  bundle whose authority has published one revocation list, which lists it and is out of date.
\<close>

definition sod_platform :: platform where
  "sod_platform = zero_platform\<lparr>pf_ber := (\<lambda>bs. if bs = [2]
     then Some (Asn1_Sequence [Asn1_Integer [0], Asn1_Sequence [], Asn1_Sequence
       [Asn1_Sequence [Asn1_Integer [1], Asn1_Octets (replicate 32 0)],
        Asn1_Sequence [Asn1_Integer [2], Asn1_Octets (replicate 32 0)]]])
     else Some (Asn1_Sequence []))\<rparr>"

definition plain_algorithm :: signature_algorithm where
  "plain_algorithm = \<lparr>sa_id = RSA_ENCRYPTION_OID, sa_params = None\<rparr>"

definition sample_signer :: signer_info where
  "sample_signer = \<lparr>si_sid = Sid_issuer_serial [3] [4], si_digestAlgorithm = SHA_256_OID,
     si_signatureAlgorithm = plain_algorithm, si_signature = [9], si_signedAttrs = None\<rparr>"

definition sample_signed_data :: signed_data where
  "sample_signed_data = \<lparr>sg_signerInfos = [sample_signer], sg_certificates = None,
     sg_eContentType = ICAO_LDS_SECURITY_OBJECT_OID,
     sg_eContent = Some \<lparr>ec_node = Asn1_Octets [2], ec_isOctetString = True, ec_value = [2], ec_beforeDecode = [4, 1, 2]\<rparr>\<rparr>"

definition sample_certificate :: certificate where
  "sample_certificate = \<lparr>ct_notBefore = 0, ct_notAfter = 1000, ct_issuer = [3], ct_subject = [5], ct_serial = [4],
     ct_extensions = [], ct_keyAlgorithm = RSA_ENCRYPTION_OID, ct_keyParams = None, ct_key = [1],
     ct_signatureAlgorithm = plain_algorithm, ct_signature = [1], ct_tbs = [1]\<rparr>"

definition sample_authority :: trusted_certificate where
  "sample_authority = \<lparr>tc_cert = sample_certificate\<lparr>ct_subject := [3]\<rparr>, tc_derBase64 = ''authority'',
     tc_skiHex = Some [], tc_subjectKey = ''authority''\<rparr>"

definition sample_list :: trusted_crl where
  "sample_list = \<lparr>cr_thisUpdate = 10, cr_nextUpdate = Some 50, cr_tbs = [1], cr_signatureAlgorithm = plain_algorithm,
     cr_signature = [1], cr_derBase64 = ''list''\<rparr>"

definition sample_bundle :: trust_bundle where
  "sample_bundle = \<lparr>tb_cscasBySubjectKey = [(relativeDistinguishedNameKey [3], [sample_authority])], tb_cscasBySkiHex = [],
     tb_crlsByAkiHex = [], tb_crlsByIssuerKey = [(''authority'', [sample_list])],
     tb_dscBySerial = (\<lambda>issuer serial. Inr (Some sample_certificate)), tb_dscsBySki = (\<lambda>ski. Inr [])\<rparr>"

definition sample_readers :: cms_readers where
  "sample_readers = \<lparr>rd_contentInfo = (\<lambda>node. Some (CMS_SIGNED_DATA_OID, node)), rd_signedData = (\<lambda>node. Some sample_signed_data),
     rd_algorithmId = (\<lambda>node. Inr SHA_256_OID), rd_valueDec = (\<lambda>bs. int (be_nat bs))\<rparr>"

definition sample_pki :: pki where
  "sample_pki = \<lparr>ck_hashName = (\<lambda>sa. ''SHA-256''), ck_pss = (\<lambda>ps. Inl []), ck_spki = ct_key, ck_curve = (\<lambda>oid. None),
     ck_import = (\<lambda>k. Inr \<lparr>vk_name = ''RSASSA-PKCS1-v1_5'', vk_namedCurve = None, vk_handle = []\<rparr>),
     ck_verify = (\<lambda>ps k signature data. Inr (signature = [9])), ck_from_cms = (\<lambda>node n. Inl []), ck_clone = Inr,
     ck_cms_verify = (\<lambda>sg now. Inr True), ck_cert_verify = (\<lambda>c issuer. Inr True)\<rparr>"

definition sample_revocation :: revocation where
  "sample_revocation = \<lparr>rl_verify = (\<lambda>c issuer. Inr True), rl_isRevoked = (\<lambda>c cert. True), rl_akiKey = (\<lambda>node. None),
     rl_keyHash = (\<lambda>cert. Inr [])\<rparr>"

lemmas sample_defs = sod_platform_def zero_platform_def plain_algorithm_def sample_signer_def sample_signed_data_def
  sample_certificate_def sample_authority_def sample_list_def sample_bundle_def sample_readers_def sample_pki_def
  sample_revocation_def

definition sample_parsed :: parsed_sod where
  "sample_parsed = \<lparr>sod_algorithm = SHA_256, sod_dg1Hash = replicate 32 0, sod_dg2Hash = replicate 32 0,
     sod_dgHashes = [(1, replicate 32 0), (2, replicate 32 0)], sod_signedData = sample_signed_data\<rparr>"

lemma sample_parses: "parseSodSecurityObject sod_platform sample_readers [1] = Inr sample_parsed"
proof -
  have u: "unwrapSodContentInfoBytes [1] = [1]"
    by (simp add: unwrapSodContentInfoBytes_def readTlv_def readTlvTag_def readTlvLength_def)
  have h: "subtleAlgorithmFromOid SHA_256_OID = Some SHA_256"
    by (simp add: subtleAlgorithmFromOid_def SHA_1_OID_def SHA_256_OID_def)
  have steps: "parseContentInfo sod_platform sample_readers [1] = Inr (CMS_SIGNED_DATA_OID, Asn1_Sequence [])"
    "parseSignedData sample_readers (CMS_SIGNED_DATA_OID, Asn1_Sequence []) = Inr sample_signed_data"
    "parseDigestAlgorithm sample_readers [] = Inr SHA_256"
    by (simp_all add: parseContentInfo_def u parseBer_def parseSignedData_def parseDigestAlgorithm_def h sod_platform_def
        sample_readers_def)
  have root: "parseLdsSecurityObjectRoot sod_platform sample_signed_data = Inr [Asn1_Integer [0], Asn1_Sequence [], Asn1_Sequence
       [Asn1_Sequence [Asn1_Integer [1], Asn1_Octets (replicate 32 0)], Asn1_Sequence [Asn1_Integer [2], Asn1_Octets (replicate 32 0)]]]"
    by (simp add: parseLdsSecurityObjectRoot_def sample_signed_data_def sod_platform_def parseBer_def)
  have hashes: "parseRequiredDgHashes sample_readers [Asn1_Sequence [Asn1_Integer [1], Asn1_Octets (replicate 32 0)],
        Asn1_Sequence [Asn1_Integer [2], Asn1_Octets (replicate 32 0)]] =
      Inr (replicate 32 0, replicate 32 0, [(1, replicate 32 0), (2, replicate 32 0)])"
    by (simp add: parseRequiredDgHashes_def parseDgHashEntry_def sample_readers_def be_nat_Cons)
  show ?thesis
    unfolding parseSodSecurityObject_def steps rbind.simps root parseLdsSecurityObjectNodes_def list.case asn1.case prod.case hashes
    by (simp add: sample_parsed_def)
qed

lemma sample_signers: "resolveSignerCertificates sod_platform sample_bundle sample_signed_data sample_signer =
  Inr [(sample_certificate, Signer_bundle)]"
  by (simp add: resolveSignerCertificates_def embeddedCertificates_def sample_signed_data_def sample_signer_def
      subjectKeyIdentifierFromSignerInfo_def issuerAndSerialFromSignerInfo_def truthy_key_def sample_bundle_def
      dedupeResolvedSignerCertificates_def)

lemma sample_issuer: "verifyTrustedIssuer sod_platform sample_pki sample_revocation sample_bundle sample_certificate =
  Inr (Inr sample_authority)"
  by (simp add: verifyTrustedIssuer_def collectTrustedIssuerCandidates_def authorityKeyIdentifierHex_def indexed_def dedupe_by_def
      truthy_key_def sample_bundle_def sample_certificate_def verifyCertificateIssuedBy_def
      normalizedEcCertificatePublicKeyAlgorithm_def sample_authority_def sample_pki_def RSA_ENCRYPTION_OID_def ECDSA_PUBLIC_KEY_OID_def)

lemma sample_lists: "collectIssuerCrlCandidates sod_platform sample_revocation sample_bundle sample_authority = Inr [sample_list]"
  by (simp add: collectIssuerCrlCandidates_def sample_authority_def sample_bundle_def indexed_def dedupeCrlEntries_def dedupe_by_def)

lemma sample_status: "evaluateCrlStatus sod_platform sample_pki sample_revocation sample_bundle 100 sample_authority
  sample_certificate = Inr Crl_stale"
  unfolding evaluateCrlStatus_def sample_lists
  by (simp add: crlIsNotYetUsable_def crlIsStale_def verifyCrlForIssuer_def
      normalizedEcCertificatePublicKeyAlgorithm_def sample_list_def sample_revocation_def sample_authority_def
      sample_certificate_def RSA_ENCRYPTION_OID_def ECDSA_PUBLIC_KEY_OID_def)

lemma sample_cms: "verifyCmsSignature sod_platform sample_pki 100 sample_signed_data sample_certificate = Inr True"
  by (simp add: verifyCmsSignature_def signerInfoOrThrow_def signerInfosOrThrow_def sample_signed_data_def sample_signer_def
      verifyCmsSignatureWithPkijs_def normalizedEcCertificatePublicKeyAlgorithm_def sample_certificate_def sample_pki_def
      RSA_ENCRYPTION_OID_def ECDSA_PUBLIC_KEY_OID_def)

lemma sample_passes: "validateSignerCandidate sod_platform sample_pki sample_revocation sample_bundle 100 sample_signed_data
  (sample_certificate, Signer_bundle) = Inr (Inr (Crl_stale, Rev_unknown))"
  unfolding signer_accepted using sample_cms sample_issuer sample_status
  by (auto simp: sample_certificate_def outcome_of_def)

lemma sample_document_agrees: "document_agrees sod_platform sample_readers [1] [1] None None [1] sample_parsed"
  unfolding document_agrees_def required_groups [OF sample_parses]
  by (simp add: sample_parses group_agrees_def) (simp add: sample_parsed_def sod_platform_def zero_platform_def)

lemma sample_authentic: "validateAuthenticity sod_platform sample_pki sample_revocation sample_readers (Some sample_bundle) 100
  [1] [1] None None [1] = Inr (Authentic (verdict_with sample_parsed Signer_bundle Crl_stale))"
  unfolding authentic_iff
proof (intro exI conjI)
  show "resolveSignerCertificates sod_platform sample_bundle (sod_signedData sample_parsed) sample_signer =
    Inr [(sample_certificate, Signer_bundle)]" using sample_signers by (simp add: sample_parsed_def)
  show "sg_signerInfos (sod_signedData sample_parsed) = sample_signer # []"
    by (simp add: sample_parsed_def sample_signed_data_def)
  show "candidate_loop sod_platform sample_pki sample_revocation sample_bundle 100 sample_parsed None
    [(sample_certificate, Signer_bundle)] = Inr (Authentic (verdict_with sample_parsed Signer_bundle Crl_stale))"
    using sample_passes by (simp add: sample_parsed_def verdict_with_def outcome_of_def)
qed (rule sample_document_agrees refl)+

section \<open>Properties\<close>

text \<open>
  C11. A document is found authentic exactly when the first two data groups, the security object and
  a trust bundle are there, the hashes in the security object are those of data groups 1 and 2, data
  groups 14 and 15 are given if and only if the object lists them and then match too, it has a
  signer, and some certificate resolved for that signer passes after all before it were rejected
  without an error. The verdict repeats the state of that certificate's revocation lists.
\<close>

theorem passive_authenticity_exact:
  "validateAuthenticity pf pk rl rd trust now dg1 dg2 dg14 dg15 sod = Inr (Authentic r) \<longleftrightarrow>
     (\<exists>parsed si rest tb before signer after status.
        document_agrees pf rd dg1 dg2 dg14 dg15 sod parsed \<and>
        sg_signerInfos (sod_signedData parsed) = si # rest \<and> trust = Some tb \<and>
        resolveSignerCertificates pf tb (sod_signedData parsed) si = Inr (before @ signer # after) \<and>
        (\<forall>s \<in> set before. \<exists>f. validateSignerCandidate pf pk rl tb now (sod_signedData parsed) s = Inr (Inl f)) \<and>
        validateSignerCandidate pf pk rl tb now (sod_signedData parsed) signer = Inr (Inr (status, outcome_of status)) \<and>
        r = verdict_with parsed (snd signer) status)"
  unfolding authentic_iff candidate_loop_accepts by blast

theorem passive_authenticity_exact_witness:
  "validateAuthenticity sod_platform sample_pki sample_revocation sample_readers (Some sample_bundle) 100 [1] [1] None None [1] =
     Inr (Authentic (verdict_with sample_parsed Signer_bundle Crl_stale))"
  unfolding passive_authenticity_exact
proof (intro exI conjI)
  show "resolveSignerCertificates sod_platform sample_bundle (sod_signedData sample_parsed) sample_signer =
    Inr ([] @ (sample_certificate, Signer_bundle) # [])" using sample_signers by (simp add: sample_parsed_def)
  show "sg_signerInfos (sod_signedData sample_parsed) = sample_signer # []"
    by (simp add: sample_parsed_def sample_signed_data_def)
  show "validateSignerCandidate sod_platform sample_pki sample_revocation sample_bundle 100 (sod_signedData sample_parsed)
      (sample_certificate, Signer_bundle) = Inr (Inr (Crl_stale, outcome_of Crl_stale))"
    using sample_passes by (simp add: sample_parsed_def outcome_of_def)
qed (simp_all add: sample_document_agrees)

text \<open>
  C12. Behind every authentic document stands a certificate that was valid at the time of the check,
  whose signature on the security object verified, that an authority of the trust bundle with its
  issuer's name or key identifier signed, and that no current, verified revocation list of that
  authority lists.
\<close>

theorem authentic_signer_is_trusted:
  assumes "validateAuthenticity pf pk rl rd (Some tb) now dg1 dg2 dg14 dg15 sod = Inr (Authentic r)"
  shows "\<exists>parsed cert issuer crls. parseSodSecurityObject pf rd sod = Inr parsed \<and>
    ct_notBefore cert \<le> now \<and> now \<le> ct_notAfter cert \<and>
    verifyCmsSignature pf pk now (sod_signedData parsed) cert = Inr True \<and>
    possible_issuer pf rl tb cert issuer \<and> verifyCertificateIssuedBy pf pk (tc_cert issuer) cert = Inr True \<and>
    collectIssuerCrlCandidates pf rl tb issuer = Inr crls \<and>
    (\<forall>c \<in> set crls. counts pf pk rl now issuer c \<and> \<not> crlIsStale c now \<longrightarrow> \<not> rl_isRevoked rl c cert)"
proof -
  from assms obtain parsed cert src status where p: "document_agrees pf rd dg1 dg2 dg14 dg15 sod parsed"
    and v: "validateSignerCandidate pf pk rl tb now (sod_signedData parsed) (cert, src) = Inr (Inr (status, outcome_of status))"
    unfolding authentic_iff candidate_loop_accepts by auto
  from v obtain issuer where i: "ct_notBefore cert \<le> now" "now \<le> ct_notAfter cert"
    "verifyCmsSignature pf pk now (sod_signedData parsed) cert = Inr True"
    "verifyTrustedIssuer pf pk rl tb cert = Inr (Inr issuer)"
    "evaluateCrlStatus pf pk rl tb now issuer cert = Inr status" "status \<noteq> Crl_revoked"
    unfolding signer_accepted by blast
  from crl_candidates [OF i(5)] obtain crls where l: "collectIssuerCrlCandidates pf rl tb issuer = Inr crls" ..
  from crl_status_value [OF i(5) l] i(6)
  have "\<forall>c \<in> set crls. counts pf pk rl now issuer c \<and> \<not> crlIsStale c now \<longrightarrow> \<not> rl_isRevoked rl c cert"
    by (auto simp: Let_def split: if_splits)
  with p i l trusted_issuer [OF i(4)] show ?thesis unfolding document_agrees_def by blast
qed

theorem authentic_signer_is_trusted_witness:
  "\<exists>parsed. parseSodSecurityObject sod_platform sample_readers [1] = Inr parsed \<and>
     (\<exists>cert. verifyCmsSignature sod_platform sample_pki 100 (sod_signedData parsed) cert = Inr True)"
  using authentic_signer_is_trusted [OF sample_authentic] by blast

text \<open>
  A revocation list that has passed its next update is not consulted: when every list of the
  authority that verifies is out of date, or there is none, the signer passes with the outcome
  unknown, whatever certificates the lists name.
\<close>

theorem stale_lists_let_pass:
  assumes "ct_notBefore cert \<le> now" and "now \<le> ct_notAfter cert"
    and "verifyCmsSignature pf pk now sg cert = Inr True"
    and "verifyTrustedIssuer pf pk rl tb cert = Inr (Inr issuer)"
    and "evaluateCrlStatus pf pk rl tb now issuer cert = Inr status"
    and "collectIssuerCrlCandidates pf rl tb issuer = Inr crls"
    and "\<forall>c \<in> set crls. counts pf pk rl now issuer c \<longrightarrow> crlIsStale c now"
  shows "validateSignerCandidate pf pk rl tb now sg (cert, src) = Inr (Inr (status, Rev_unknown))"
proof -
  from crl_status_value [OF assms(5,6)] assms(7) have "status \<in> {Crl_stale, Crl_missing}"
    by (auto simp: Let_def split: if_splits)
  with assms show ?thesis unfolding signer_accepted by (auto simp: outcome_of_def)
qed

theorem stale_lists_let_pass_witness:
  "rl_isRevoked sample_revocation sample_list sample_certificate \<and>
   validateSignerCandidate sod_platform sample_pki sample_revocation sample_bundle 100 sample_signed_data
     (sample_certificate, Signer_sod) = Inr (Inr (Crl_stale, Rev_unknown))"
proof
  show "rl_isRevoked sample_revocation sample_list sample_certificate" by (simp add: sample_revocation_def)
  show "validateSignerCandidate sod_platform sample_pki sample_revocation sample_bundle 100 sample_signed_data
     (sample_certificate, Signer_sod) = Inr (Inr (Crl_stale, Rev_unknown))"
    by (rule stale_lists_let_pass [OF _ _ sample_cms sample_issuer sample_status sample_lists])
      (simp_all add: sample_certificate_def sample_list_def crlIsStale_def)
qed

text \<open>
  A signature with signed attributes that the code accepts without the library covers the
  attributes as a set, and among these are a content type and a message digest that is the hash, by
  the signer's digest algorithm, of the content: the content cannot be replaced under a signature.
\<close>

theorem signed_attributes_bind_content:
  assumes "sg_signerInfos sg = si # rest" and "si_signedAttrs si = Some (attributes, encoded)"
    and "verifyCmsSignature pf pk now sg cert = Inr True"
    and "verifyCmsSignatureWithPkijs pk now sg cert \<noteq> Inr True"
  shows "attributes_bind pf sg si attributes \<and> (\<exists>h. signatureHashAlgorithm pk si = Some h \<and>
    verifySignatureBytesWithCertificate pf pk (signedAttributesSignatureBytes encoded) h cert (si_signatureAlgorithm si)
      (si_signature si) = Inr True)"
proof -
  have "verifyCmsSignatureManually pf pk sg cert = Inr True"
    using assms by (auto simp: verifyCmsSignature_def signerInfoOrThrow_def signerInfosOrThrow_def split: sum.splits bool.splits)
  from manual_signature [OF assms(1,2) this] show ?thesis ..
qed

definition attributed_signer :: signer_info where
  "attributed_signer = sample_signer\<lparr>si_signedAttrs := Some ([(CONTENT_TYPE_ATTRIBUTE_OID, []),
     (MESSAGE_DIGEST_ATTRIBUTE_OID, [Asn1_Octets (replicate 32 0)])], [0xa0, 0])\<rparr>"

theorem signed_attributes_bind_content_witness:
  "attributes_bind sod_platform (sample_signed_data\<lparr>sg_signerInfos := [attributed_signer]\<rparr>) attributed_signer
     [(CONTENT_TYPE_ATTRIBUTE_OID, []), (MESSAGE_DIGEST_ATTRIBUTE_OID, [Asn1_Octets (replicate 32 0)])]"
proof -
  let ?sg = "sample_signed_data\<lparr>sg_signerInfos := [attributed_signer]\<rparr>"
  let ?pk = "sample_pki\<lparr>ck_cms_verify := \<lambda>sg now. Inr False\<rparr>"
  have oids: "MESSAGE_DIGEST_ATTRIBUTE_OID \<noteq> CONTENT_TYPE_ATTRIBUTE_OID" "RSA_ENCRYPTION_OID \<noteq> RSA_PSS_OID"
    "RSA_ENCRYPTION_OID \<noteq> ECDSA_PUBLIC_KEY_OID" "SHA_256_OID \<noteq> SHA_1_OID"
    by (simp_all add: MESSAGE_DIGEST_ATTRIBUTE_OID_def CONTENT_TYPE_ATTRIBUTE_OID_def RSA_ENCRYPTION_OID_def RSA_PSS_OID_def
        ECDSA_PUBLIC_KEY_OID_def SHA_256_OID_def SHA_1_OID_def)
  note defs = sample_signed_data_def attributed_signer_def sample_signer_def sample_pki_def signerInfoOrThrow_def
    signerInfosOrThrow_def sample_certificate_def plain_algorithm_def
  have bytes: "signedDataBytesForSignature sod_platform ?sg attributed_signer = Inr [0x31, 0]"
    by (simp add: signedDataBytesForSignature_def signerDigestAlgorithm_def subtleAlgorithmFromOid_def oids
        signedAttributeMessageDigest_def encapsulatedContentBytes_def signedAttributesSignatureBytes_def defs
        sod_platform_def zero_platform_def)
  have "signatureHashAlgorithm ?pk attributed_signer = Some SHA_256"
    by (simp add: signatureHashAlgorithm_def parseSupportedHashAlgorithmName_def defs)
  moreover have "verifySignatureBytesWithCertificate sod_platform ?pk [0x31, 0] SHA_256 sample_certificate
      (si_signatureAlgorithm attributed_signer) (si_signature attributed_signer) = Inr True"
    by (simp add: verifySignatureBytesWithCertificate_def importSignerVerificationKey_def signatureVerificationParams_def oids defs)
  moreover have "sg_signerInfos ?sg = [attributed_signer]" by simp
  ultimately have manual: "verifyCmsSignatureManually sod_platform ?pk ?sg sample_certificate = Inr True"
    using bytes by (simp add: verifyCmsSignatureManually_def signerInfoOrThrow_def signerInfosOrThrow_def)
  have attrs: "si_signedAttrs attributed_signer = Some ([(CONTENT_TYPE_ATTRIBUTE_OID, []),
     (MESSAGE_DIGEST_ATTRIBUTE_OID, [Asn1_Octets (replicate 32 0)])], [0xa0, 0])" by (simp add: attributed_signer_def)
  have "verifyCmsSignature sod_platform ?pk 100 ?sg sample_certificate = Inr True"
    using manual attrs by (simp add: verifyCmsSignature_def signerInfoOrThrow_def signerInfosOrThrow_def)
  moreover have "verifyCmsSignatureWithPkijs ?pk 100 ?sg sample_certificate = Inr False"
    by (simp add: verifyCmsSignatureWithPkijs_def signerInfoOrThrow_def signerInfosOrThrow_def
        normalizedEcCertificatePublicKeyAlgorithm_def sample_certificate_def oids)
  ultimately show ?thesis
    using signed_attributes_bind_content [where sg = ?sg and si = attributed_signer and rest = "[]" and pk = ?pk, OF _ attrs]
    by simp
qed

end
