(* ===== verification/Webhook_Store.thy ===== *)
theory Webhook_Store
  imports Session_Lifecycle Share_Manifest
begin

text \<open>
  Webhook deliveries: the tables (\<open>packages/database/src/schema/webhooks.ts\<close>), how an ending of a
  session becomes deliveries (\<open>webhooks/deliveries/creation-*.ts\<close>, \<open>payloads.ts\<close>), how they are
  requeued (\<open>retry.ts\<close>), and how their payloads are removed (\<open>privacy.ts\<close>, \<open>retention-sweep.ts\<close>).
  Every event of the event table has a session as its trigger. Times are milliseconds; the
  encryption of payloads and the generated identifiers are arguments. Logging is left out.
\<close>

section \<open>Tables\<close>

datatype delivery_status = Dl_pending | Dl_delivering | Dl_succeeded | Dl_failed

datatype retention_reason =
  Rt_pending_delivery | Rt_delivered | Rt_terminal_failure_retention | Rt_expired
| Rt_no_active_key | Rt_jwe_creation_failed | Rt_privacy_request

record delivery =
  wd_id :: string
  wd_eventId :: string
  wd_endpointId :: string
  wd_encryptionKeyId :: "string option"
  wd_status :: delivery_status
  wd_attemptCount :: nat
  wd_nextAttemptAt :: "int option"
  wd_lastStatusCode :: "nat option"
  wd_payload :: "string option"
  wd_payloadExpiresAt :: "int option"
  wd_payloadScrubbedAt :: "int option"
  wd_reason :: "retention_reason option"
  wd_lastAttemptAt :: "int option"

record endpoint =
  we_id :: string
  we_org :: string
  we_name :: "string option"
  we_labels :: json
  we_url :: string
  we_enabled :: bool
  we_subscribedEventTypes :: json
  we_retentionHours :: int
  we_signingSecret :: "string option"
  we_disabledAt :: "int option"

record encryption_key =
  wk_id :: string
  wk_endpointId :: string
  wk_keyId :: string
  wk_jwk :: json
  wk_isActive :: bool
  wk_disabledAt :: "int option"

record delivery_attempt =
  wa_deliveryId :: string
  wa_succeeded :: bool
  wa_statusCode :: "nat option"

record hooks =
  hk_endpoints :: "endpoint list"
  hk_keys :: "encryption_key list"
  hk_deliveries :: "(string, delivery) jsmap"
  hk_attempts :: "delivery_attempt list"

text \<open>\<open>UPDATE webhook_deliveries SET f WHERE id = i AND cond RETURNING *\<close>\<close>

definition update_delivery ::
  "hooks \<Rightarrow> string \<Rightarrow> (delivery \<Rightarrow> bool) \<Rightarrow> (delivery \<Rightarrow> delivery) \<Rightarrow> hooks \<times> delivery option" where
  "update_delivery hk i cond f =
     (case jm_get (hk_deliveries hk) i of
        None \<Rightarrow> (hk, None)
      | Some row \<Rightarrow>
          if cond row then (hk\<lparr>hk_deliveries := jm_set i (f row) (hk_deliveries hk)\<rparr>, Some (f row)) else (hk, None))"

text \<open>\<open>UPDATE webhook_deliveries SET f WHERE id IN ids\<close>\<close>

definition update_deliveries :: "hooks \<Rightarrow> string list \<Rightarrow> (delivery \<Rightarrow> delivery) \<Rightarrow> hooks" where
  "update_deliveries hk ids f =
     hk\<lparr>hk_deliveries := map (\<lambda>(i, row). (i, if i \<in> set ids then f row else row)) (hk_deliveries hk)\<rparr>"

definition getWebhookDeliveryById :: "hooks \<Rightarrow> string \<Rightarrow> delivery option" where
  "getWebhookDeliveryById hk i = jm_get (hk_deliveries hk) i"

definition insertAttempt :: "hooks \<Rightarrow> string \<Rightarrow> bool \<Rightarrow> nat option \<Rightarrow> hooks" where
  "insertAttempt hk i succeeded code =
     hk\<lparr>hk_attempts := hk_attempts hk @ [\<lparr>wa_deliveryId = i, wa_succeeded = succeeded, wa_statusCode = code\<rparr>]\<rparr>"

definition insert_delivery :: "hooks \<Rightarrow> delivery \<Rightarrow> hooks" where
  "insert_delivery hk row = hk\<lparr>hk_deliveries := jm_set (wd_id row) row (hk_deliveries hk)\<rparr>"

text \<open>A payload that is neither null nor the empty string.\<close>

definition has_payload :: "delivery \<Rightarrow> bool" where
  "has_payload row \<longleftrightarrow> (case wd_payload row of None \<Rightarrow> False | Some p \<Rightarrow> p \<noteq> [])"

definition find_event :: "db \<Rightarrow> string \<Rightarrow> event_row option" where
  "find_event db i = find (\<lambda>e. er_id e = i) (db_events db)"

definition find_endpoint :: "hooks \<Rightarrow> string \<Rightarrow> endpoint option" where
  "find_endpoint hk i = find (\<lambda>e. we_id e = i) (hk_endpoints hk)"

section \<open>Times\<close>

definition HOUR_MS :: int where "HOUR_MS = 60 * 60000"
definition MAX_UNDELIVERED_WEBHOOK_PAYLOAD_RETENTION_HOURS :: int where
  "MAX_UNDELIVERED_WEBHOOK_PAYLOAD_RETENTION_HOURS = 168"
definition WEBHOOK_PAYLOAD_RETENTION_HOUR_OPTIONS :: "int list" where
  "WEBHOOK_PAYLOAD_RETENTION_HOUR_OPTIONS = [0, 24, 72, 168]"
definition WEBHOOK_PAYLOAD_RETENTION_SWEEP_BATCH_SIZE :: nat where
  "WEBHOOK_PAYLOAD_RETENTION_SWEEP_BATCH_SIZE = 500"

text \<open>The durations the workflow runtime parses: five seconds, five minutes and so on.\<close>

definition WEBHOOK_DELIVERY_RETRY_SCHEDULE :: "int list" where
  "WEBHOOK_DELIVERY_RETRY_SCHEDULE =
     [5000, 5 * 60000, 30 * 60000, 2 * HOUR_MS, 5 * HOUR_MS, 10 * HOUR_MS, 10 * HOUR_MS]"

definition MAX_DELIVERY_ATTEMPTS :: nat where
  "MAX_DELIVERY_ATTEMPTS = 1 + length WEBHOOK_DELIVERY_RETRY_SCHEDULE"

definition WEBHOOK_AUTOMATIC_RETRY_WINDOW_MS :: int where
  "WEBHOOK_AUTOMATIC_RETRY_WINDOW_MS =
     5000 + 5 * 60000 + 30 * 60000 + 2 * 60 * 60000 + 5 * 60 * 60000 + 10 * 60 * 60000 + 10 * 60 * 60000"

definition addHours :: "int \<Rightarrow> int \<Rightarrow> int" where
  "addHours date hours = date + hours * HOUR_MS"

definition getPendingPayloadExpiry :: "int \<Rightarrow> int \<Rightarrow> int" where
  "getPendingPayloadExpiry retentionHours now =
     (let boundedRetentionHours = min (max retentionHours 0) MAX_UNDELIVERED_WEBHOOK_PAYLOAD_RETENTION_HOURS
      in now + WEBHOOK_AUTOMATIC_RETRY_WINDOW_MS + boundedRetentionHours * HOUR_MS)"

section \<open>Payloads\<close>

definition event_type_text :: "event_type \<Rightarrow> string" where
  "event_type_text ty =
     (case ty of
        Ev_session_succeeded \<Rightarrow> ''verification.session.succeeded''
      | Ev_session_failed \<Rightarrow> ''verification.session.failed''
      | Ev_session_expired \<Rightarrow> ''verification.session.expired''
      | Ev_session_cancelled \<Rightarrow> ''verification.session.cancelled'')"

definition session_metadata :: "int \<Rightarrow> string \<Rightarrow> string \<Rightarrow> string \<times> json" where
  "session_metadata contractVersion eventId sessionId =
     (''metadata'', JObj [(''contract_version'', JNum contractVersion), (''event_id'', JStr eventId),
                          (''verification_session_id'', JStr sessionId)])"

definition claim_json :: "claim_value \<Rightarrow> json" where
  "claim_json v = (case v of Claim_bool b \<Rightarrow> JBool b | Claim_text s \<Rightarrow> JStr s | Claim_null \<Rightarrow> JNull)"

definition buildVerificationSessionSucceededPayload :: "string \<Rightarrow> share_manifest \<Rightarrow> json" where
  "buildVerificationSessionSucceededPayload eventId manifest =
     JObj [(''data'', JObj [(''claims'', JObj (map (\<lambda>(key, v). (key, claim_json v)) (sm_claims manifest))),
                            (''selected_field_keys'', JArr (map JStr (sm_selectedFieldKeys manifest)))]),
           session_metadata (sm_contractVersion manifest) eventId (sm_sessionId manifest),
           (''type'', JStr (event_type_text Ev_session_succeeded))]"

definition failure_code_text :: "negative_failure_code \<Rightarrow> string" where
  "failure_code_text code =
     (case code of
        document_anti_cloning_attestation_failed \<Rightarrow> ''document_anti_cloning_attestation_failed''
      | document_authenticity_failed \<Rightarrow> ''document_authenticity_failed''
      | document_active_authentication_failed \<Rightarrow> ''document_active_authentication_failed''
      | document_chip_authentication_failed \<Rightarrow> ''document_chip_authentication_failed''
      | document_data_invalid \<Rightarrow> ''document_data_invalid''
      | liveness_failed \<Rightarrow> ''liveness_failed''
      | selfie_face_mismatch \<Rightarrow> ''selfie_face_mismatch'')"

definition buildVerificationSessionFailedPayload ::
  "int \<Rightarrow> string \<Rightarrow> negative_failure_code \<Rightarrow> nat \<Rightarrow> nat \<Rightarrow> string \<Rightarrow> json" where
  "buildVerificationSessionFailedPayload contractVersion eventId failureCode nfcTriesUsed livenessTriesUsed sessionId =
     JObj [(''data'', JObj [(''failure_code'', JStr (failure_code_text failureCode)),
                            (''nfc_tries_used'', JNum (int nfcTriesUsed)),
                            (''liveness_tries_used'', JNum (int livenessTriesUsed))]),
           session_metadata contractVersion eventId sessionId,
           (''type'', JStr (event_type_text Ev_session_failed))]"

definition buildVerificationSessionExpiredPayload :: "int \<Rightarrow> string \<Rightarrow> string \<Rightarrow> json" where
  "buildVerificationSessionExpiredPayload contractVersion eventId sessionId =
     JObj [(''data'', JObj []), session_metadata contractVersion eventId sessionId,
           (''type'', JStr (event_type_text Ev_session_expired))]"

definition cancelled_reason_text :: "cancelled_reason \<Rightarrow> string" where
  "cancelled_reason_text reason =
     (case reason of
        Rs_cancelled \<Rightarrow> ''cancelled''
      | Rs_cancelled_after_failed_check \<Rightarrow> ''cancelled_after_failed_check''
      | Rs_privacy_after_terminal_failure \<Rightarrow> ''privacy_cancelled_after_terminal_failure''
      | Rs_privacy_after_terminal_success \<Rightarrow> ''privacy_cancelled_after_terminal_success'')"

text \<open>The only outcome of a cancellation is \<open>not_verified\<close>.\<close>

definition buildVerificationSessionCancelledPayload ::
  "int \<Rightarrow> string \<Rightarrow> nat \<Rightarrow> nat \<Rightarrow> cancelled_reason \<Rightarrow> string \<Rightarrow> json" where
  "buildVerificationSessionCancelledPayload contractVersion eventId livenessTriesUsed nfcTriesUsed reason sessionId =
     JObj [(''data'', JObj [(''outcome'', JStr ''not_verified''), (''reason'', JStr (cancelled_reason_text reason)),
                            (''nfc_tries_used'', JNum (int nfcTriesUsed)),
                            (''liveness_tries_used'', JNum (int livenessTriesUsed))]),
           session_metadata contractVersion eventId sessionId,
           (''type'', JStr (event_type_text Ev_session_cancelled))]"

section \<open>Creation\<close>

definition isSubscribedToEventType :: "json \<Rightarrow> event_type \<Rightarrow> bool" where
  "isSubscribedToEventType subscribed ty =
     (case subscribed of JArr xs \<Rightarrow> JStr (event_type_text ty) \<in> set xs | _ \<Rightarrow> False)"

text \<open>
  \<open>indexBy\<close>: the last key of an endpoint stays. \<open>jwe plaintext key\<close> is \<open>createJWE\<close>, \<open>None\<close> when it
  throws; \<open>gen n\<close> is the identifier generated for the n-th endpoint.
\<close>

definition indexBy :: "encryption_key list \<Rightarrow> (string, encryption_key) jsmap" where
  "indexBy keys = foldl (\<lambda>m key. jm_set (wk_endpointId key) key m) [] keys"

definition failed_row :: "string \<Rightarrow> string \<Rightarrow> string \<Rightarrow> string option \<Rightarrow> retention_reason \<Rightarrow> int \<Rightarrow> delivery" where
  "failed_row i eventId endpointId key reason now =
     \<lparr>wd_id = i, wd_eventId = eventId, wd_endpointId = endpointId, wd_encryptionKeyId = key, wd_status = Dl_failed,
      wd_attemptCount = 1, wd_nextAttemptAt = None, wd_lastStatusCode = None, wd_payload = None,
      wd_payloadExpiresAt = None, wd_payloadScrubbedAt = Some now, wd_reason = Some reason, wd_lastAttemptAt = Some now\<rparr>"

definition pending_row :: "string \<Rightarrow> string \<Rightarrow> string \<Rightarrow> string \<Rightarrow> string \<Rightarrow> int \<Rightarrow> delivery" where
  "pending_row i eventId endpointId key payload expiresAt =
     \<lparr>wd_id = i, wd_eventId = eventId, wd_endpointId = endpointId, wd_encryptionKeyId = Some key, wd_status = Dl_pending,
      wd_attemptCount = 0, wd_nextAttemptAt = None, wd_lastStatusCode = None, wd_payload = Some payload,
      wd_payloadExpiresAt = Some expiresAt, wd_payloadScrubbedAt = None, wd_reason = Some Rt_pending_delivery,
      wd_lastAttemptAt = None\<rparr>"

definition create_delivery ::
  "(string \<Rightarrow> encryption_key \<Rightarrow> string option) \<Rightarrow> int \<Rightarrow> string \<Rightarrow> string \<Rightarrow> (string, encryption_key) jsmap \<Rightarrow>
     endpoint \<Rightarrow> string \<Rightarrow> hooks \<Rightarrow> hooks" where
  "create_delivery jwe now eventId serialized keysByEndpointId e i hk =
     (case jm_get keysByEndpointId (we_id e) of
        None \<Rightarrow>
          insertAttempt (insert_delivery hk (failed_row i eventId (we_id e) None Rt_no_active_key now)) i False None
      | Some key \<Rightarrow>
          (case jwe serialized key of
             Some encrypted \<Rightarrow>
               insert_delivery hk (pending_row i eventId (we_id e) (wk_id key) encrypted
                 (getPendingPayloadExpiry (we_retentionHours e) now))
           | None \<Rightarrow>
               insertAttempt (insert_delivery hk (failed_row i eventId (we_id e) (Some (wk_id key)) Rt_jwe_creation_failed now))
                 i False None))"

fun create_loop ::
  "(string \<Rightarrow> encryption_key \<Rightarrow> string option) \<Rightarrow> int \<Rightarrow> string \<Rightarrow> string \<Rightarrow> (string, encryption_key) jsmap \<Rightarrow>
     (nat \<Rightarrow> string) \<Rightarrow> nat \<Rightarrow> endpoint list \<Rightarrow> hooks \<Rightarrow> hooks \<times> string list" where
  "create_loop jwe now eventId serialized ks gen n [] hk = (hk, [])"
| "create_loop jwe now eventId serialized ks gen n (e # es) hk =
     (let (hk', ids) = create_loop jwe now eventId serialized ks gen (Suc n) es
            (create_delivery jwe now eventId serialized ks e (gen n) hk)
      in (hk', gen n # ids))"

definition subscribed_endpoints :: "hooks \<Rightarrow> string \<Rightarrow> event_type \<Rightarrow> string list option \<Rightarrow> endpoint list" where
  "subscribed_endpoints hk org ty targets =
     filter (\<lambda>e. isSubscribedToEventType (we_subscribedEventTypes e) ty)
       (filter (\<lambda>e. we_org e = org \<and> we_enabled e \<and>
          (case targets of None \<Rightarrow> True | Some ids \<Rightarrow> ids \<noteq> [] \<longrightarrow> we_id e \<in> set ids)) (hk_endpoints hk))"

definition createWebhookDeliveriesForEvent ::
  "(json \<Rightarrow> string) \<Rightarrow> (string \<Rightarrow> encryption_key \<Rightarrow> string option) \<Rightarrow> (nat \<Rightarrow> string) \<Rightarrow> int \<Rightarrow> hooks \<Rightarrow>
     string \<Rightarrow> event_type \<Rightarrow> string \<Rightarrow> json \<Rightarrow> string list option \<Rightarrow> hooks \<times> string list" where
  "createWebhookDeliveriesForEvent stringify jwe gen now hk eventId eventType org payload webhookEndpointIds =
     (let subscribed = subscribed_endpoints hk org eventType webhookEndpointIds
      in if length subscribed = 0 then (hk, [])
         else
           let encryptionKeys = filter (\<lambda>k. wk_isActive k \<and> wk_endpointId k \<in> we_id ` set subscribed) (hk_keys hk)
           in create_loop jwe now eventId (stringify payload) (indexBy encryptionKeys) gen 0 subscribed hk)"

definition getWebhookEndpointTargetIdsForSession :: "db \<Rightarrow> string \<Rightarrow> string list option" where
  "getWebhookEndpointTargetIdsForSession db sid =
     (case jm_get (db_sessions db) sid of
        None \<Rightarrow> None
      | Some row \<Rightarrow> (case vs_webhookEndpointIds row of Some (i # ids) \<Rightarrow> Some (i # ids) | _ \<Rightarrow> None))"

text \<open>The four callers, on the call that the session store records; a success is sent with its manifest later.\<close>

definition delivery_payload :: "webhook_call \<Rightarrow> json" where
  "delivery_payload call =
     (case wc_kind call of
        Wh_failed code nfc live \<Rightarrow>
          buildVerificationSessionFailedPayload (wc_version call) (wc_eventId call) code nfc live (wc_session call)
      | Wh_cancelled reason nfc live \<Rightarrow>
          buildVerificationSessionCancelledPayload (wc_version call) (wc_eventId call) live nfc reason (wc_session call)
      | _ \<Rightarrow> buildVerificationSessionExpiredPayload (wc_version call) (wc_eventId call) (wc_session call))"

definition createVerificationSessionWebhookDeliveries ::
  "(json \<Rightarrow> string) \<Rightarrow> (string \<Rightarrow> encryption_key \<Rightarrow> string option) \<Rightarrow> (nat \<Rightarrow> string) \<Rightarrow> int \<Rightarrow> db \<Rightarrow> hooks \<Rightarrow>
     webhook_call \<Rightarrow> hooks \<times> string list" where
  "createVerificationSessionWebhookDeliveries stringify jwe gen now db hk call =
     (case wc_kind call of
        Wh_succeeded \<Rightarrow> (hk, [])
      | kind \<Rightarrow>
          createWebhookDeliveriesForEvent stringify jwe gen now hk (wc_eventId call)
            (case kind of Wh_failed _ _ _ \<Rightarrow> Ev_session_failed | Wh_cancelled _ _ _ \<Rightarrow> Ev_session_cancelled
             | _ \<Rightarrow> Ev_session_expired)
            (wc_org call) (delivery_payload call) (getWebhookEndpointTargetIdsForSession db (wc_session call)))"

definition createWebhookDeliveriesForVerificationSessionSucceededWithManifest ::
  "(json \<Rightarrow> string) \<Rightarrow> (string \<Rightarrow> encryption_key \<Rightarrow> string option) \<Rightarrow> (nat \<Rightarrow> string) \<Rightarrow> int \<Rightarrow> db \<Rightarrow> hooks \<Rightarrow>
     string \<Rightarrow> share_manifest \<Rightarrow> string \<Rightarrow> hooks \<times> string list" where
  "createWebhookDeliveriesForVerificationSessionSucceededWithManifest stringify jwe gen now db hk eventId manifest org =
     (let session = jm_get (db_sessions db) (sm_sessionId manifest)
      in if (case session of None \<Rightarrow> False | Some r \<Rightarrow> vs_cancelTokenConsumedAt r \<noteq> None \<or> vs_status r = St_cancelled)
         then (hk, [])
         else
           createWebhookDeliveriesForEvent stringify jwe gen now hk eventId Ev_session_succeeded org
             (buildVerificationSessionSucceededPayload eventId manifest)
             (case session of None \<Rightarrow> None | Some r \<Rightarrow> vs_webhookEndpointIds r))"

section \<open>Requeuing\<close>

datatype retry_block = Blocked_delivering | Blocked_payload_expired | Blocked_payload_scrubbed

definition getWebhookDeliveryRetryBlockReason :: "delivery \<Rightarrow> int \<Rightarrow> retry_block option" where
  "getWebhookDeliveryRetryBlockReason row now =
     (if wd_status row = Dl_delivering then Some Blocked_delivering
      else if \<not> has_payload row then Some Blocked_payload_scrubbed
      else
        case wd_payloadExpiresAt row of
          None \<Rightarrow> Some Blocked_payload_expired
        | Some t \<Rightarrow> if t \<le> now then Some Blocked_payload_expired else None)"

text \<open>The guarded update of a requeue, and the whole of it.\<close>

definition requeued_row :: "delivery \<Rightarrow> delivery" where
  "requeued_row row =
     row\<lparr>wd_attemptCount := 0, wd_lastAttemptAt := None, wd_lastStatusCode := None, wd_nextAttemptAt := None,
         wd_status := Dl_pending\<rparr>"

definition requeue_write :: "hooks \<Rightarrow> string \<Rightarrow> hooks \<times> delivery option" where
  "requeue_write hk i = update_delivery hk i (\<lambda>r. wd_status r \<noteq> Dl_delivering \<and> wd_payload r \<noteq> None) requeued_row"

definition requeueWebhookDelivery :: "int \<Rightarrow> hooks \<Rightarrow> string \<Rightarrow> hooks \<times> delivery option" where
  "requeueWebhookDelivery now hk i =
     (case getWebhookDeliveryById hk i of
        None \<Rightarrow> (hk, None)
      | Some row \<Rightarrow> if getWebhookDeliveryRetryBlockReason row now \<noteq> None then (hk, None) else requeue_write hk i)"

fun requeue_loop :: "int \<Rightarrow> hooks \<Rightarrow> string list \<Rightarrow> hooks \<times> delivery list" where
  "requeue_loop now hk [] = (hk, [])"
| "requeue_loop now hk (i # ids) =
     (let (hk1, next_row) = requeueWebhookDelivery now hk i;
          (hk2, rest) = requeue_loop now hk1 ids
      in (hk2, case next_row of None \<Rightarrow> rest | Some row \<Rightarrow> row # rest))"

definition requeueWebhookDeliveriesForEvent :: "int \<Rightarrow> hooks \<Rightarrow> string \<Rightarrow> hooks \<times> delivery list" where
  "requeueWebhookDeliveriesForEvent now hk eventId =
     requeue_loop now hk (map fst (filter (\<lambda>(i, row). wd_eventId row = eventId) (hk_deliveries hk)))"

section \<open>Removal of payloads\<close>

definition withdrawn_row :: "int \<Rightarrow> delivery \<Rightarrow> delivery" where
  "withdrawn_row now row =
     row\<lparr>wd_nextAttemptAt := None, wd_payload := None, wd_payloadExpiresAt := None,
         wd_reason := Some Rt_privacy_request, wd_payloadScrubbedAt := Some now, wd_status := Dl_failed\<rparr>"

text \<open>The rows of the session's events, those of them to scrub, and the update of rows read before.\<close>

definition session_rows :: "db \<Rightarrow> hooks \<Rightarrow> string \<Rightarrow> string \<Rightarrow> (string \<times> delivery) list" where
  "session_rows db hk organizationId sessionId =
     (let eventIds = map er_id (filter (\<lambda>e. er_org e = organizationId \<and> er_trigger e = sessionId) (db_events db))
      in filter (\<lambda>(i, row). wd_eventId row \<in> set eventIds) (hk_deliveries hk))"

definition scrub_ids :: "(string \<times> delivery) list \<Rightarrow> string list" where
  "scrub_ids rows = map fst (filter (\<lambda>(i, row). wd_status row \<noteq> Dl_succeeded \<and> has_payload row) rows)"

definition scrub_write :: "int \<Rightarrow> hooks \<Rightarrow> string list \<Rightarrow> hooks" where
  "scrub_write now hk ids = (if 0 < length ids then update_deliveries hk ids (withdrawn_row now) else hk)"

definition scrubWebhookPayloadsForVerificationSessionPrivacyRequest ::
  "int \<Rightarrow> db \<Rightarrow> hooks \<Rightarrow> string \<Rightarrow> string \<Rightarrow> hooks \<times> scrub_result" where
  "scrubWebhookPayloadsForVerificationSessionPrivacyRequest now db hk organizationId sessionId =
     (let rows = session_rows db hk organizationId sessionId; scrubbed = scrub_ids rows
      in (scrub_write now hk scrubbed,
          \<lparr>su_delivered = length (filter (\<lambda>(i, row). wd_status row = Dl_succeeded) rows),
           su_scrubbed = length scrubbed, su_total = length rows\<rparr>))"

datatype age_bucket = Age_lt_1h | Age_lt_24h | Age_gte_24h

definition getWebhookPayloadSweepAgeBucket :: "int \<Rightarrow> int \<Rightarrow> age_bucket" where
  "getWebhookPayloadSweepAgeBucket expiresAt now =
     (let overdueMs = max (now - expiresAt) 0
      in if overdueMs < HOUR_MS then Age_lt_1h else if overdueMs < 24 * HOUR_MS then Age_lt_24h else Age_gte_24h)"

definition andExpiredPayload :: "int \<Rightarrow> delivery \<Rightarrow> bool" where
  "andExpiredPayload now row \<longleftrightarrow>
     wd_payload row \<noteq> None \<and> (case wd_payloadExpiresAt row of None \<Rightarrow> False | Some t \<Rightarrow> t \<le> now)"

definition expired_row :: "int \<Rightarrow> delivery \<Rightarrow> delivery" where
  "expired_row now row =
     row\<lparr>wd_payload := None, wd_payloadExpiresAt := None, wd_reason := Some Rt_expired, wd_payloadScrubbedAt := Some now\<rparr>"

text \<open>
  The rows of a sweep in the order of their expiry (a join drops a row whose event is gone), its
  update, and the number of organizations and of rows.
\<close>

definition sweep_rows :: "nat \<Rightarrow> int \<Rightarrow> db \<Rightarrow> hooks \<Rightarrow> (string \<times> delivery) list" where
  "sweep_rows batchSize now db hk =
     take batchSize
       (sort_key (\<lambda>(i, row). the (wd_payloadExpiresAt row))
          (filter (\<lambda>(i, row). andExpiredPayload now row \<and> find_event db (wd_eventId row) \<noteq> None) (hk_deliveries hk)))"

definition sweep_write :: "int \<Rightarrow> hooks \<Rightarrow> string list \<Rightarrow> hooks" where
  "sweep_write now hk ids = (if 0 < length ids then update_deliveries hk ids (expired_row now) else hk)"

definition runWebhookPayloadRetentionSweep :: "nat \<Rightarrow> int \<Rightarrow> db \<Rightarrow> hooks \<Rightarrow> hooks \<times> nat \<times> nat" where
  "runWebhookPayloadRetentionSweep batchSize now db hk =
     (let expired = sweep_rows batchSize now db hk;
          ids = map fst expired;
          orgs = remdups (map (\<lambda>(i, row). er_org (the (find_event db (wd_eventId row)))) expired)
      in (sweep_write now hk ids, length orgs, length ids))"

end
