(* ===== verification/Safe_Url.thy ===== *)
theory Safe_Url
  imports Js_Text
begin

text \<open>
  The check of every URL the service stores or calls (\<open>packages/config/src/safe-url.ts\<close>). The
  parser of URLs is the platform's: \<open>parse\<close> gives the parts the code reads, nothing when it throws.
\<close>

record url =
  u_protocol :: string
  u_hostname :: string
  u_username :: string
  u_password :: string
  u_href :: string

datatype safe_url_mode = Mode_redirect | Mode_webhook

datatype safe_url_reason =
  credentials_in_url | invalid_scheme | invalid_url | ipv4_literal_disallowed | ipv6_literal_disallowed
| loopback_not_allowed | reserved_hostname_disallowed | url_too_long

definition LOOPBACK_HOSTNAMES :: "string list" where
  "LOOPBACK_HOSTNAMES = [''localhost'', ''127.0.0.1'']"

definition RESERVED_WEBHOOK_HOSTNAME_SUFFIXES :: "string list" where
  "RESERVED_WEBHOOK_HOSTNAME_SUFFIXES =
     [''.home.arpa'', ''.internal'', ''.lan'', ''.local'', ''.localdomain'', ''.localhost'']"

definition SAFE_URL_MAX_LENGTH :: nat where "SAFE_URL_MAX_LENGTH = 2048"

text \<open>\<open>IPV4_LITERAL_REGEX\<close>: four groups of one to three digits.\<close>

definition ipv4_literal :: "string \<Rightarrow> bool" where
  "ipv4_literal s \<longleftrightarrow>
     (let parts = split_on CHR ''.'' s
      in length parts = 4 \<and> list_all (\<lambda>p. 1 \<le> length p \<and> length p \<le> 3 \<and> list_all is_digit p) parts)"

definition ends_with :: "string \<Rightarrow> string \<Rightarrow> bool" where
  "ends_with s sfx \<longleftrightarrow> length sfx \<le> length s \<and> drop (length s - length sfx) s = sfx"

text \<open>\<open>toLowerCase\<close> on ASCII, which a parsed hostname is.\<close>

definition lower_ascii :: "string \<Rightarrow> string" where
  "lower_ascii s = map (\<lambda>c. if 65 \<le> (of_char c :: nat) \<and> (of_char c :: nat) \<le> 90 then char_of (of_char c + 32 :: nat) else c) s"

definition normalizeHostname :: "string \<Rightarrow> string" where
  "normalizeHostname hostname = (if ends_with hostname ''.'' then butlast hostname else hostname)"

definition isLoopbackHostname :: "string \<Rightarrow> bool" where
  "isLoopbackHostname hostname \<longleftrightarrow> normalizeHostname hostname \<in> set LOOPBACK_HOSTNAMES"

definition hostnameLooksLikeIpv6 :: "string \<Rightarrow> bool" where
  "hostnameLooksLikeIpv6 hostname \<longleftrightarrow>
     (case hostname of [] \<Rightarrow> False | c # _ \<Rightarrow> c = CHR ''['') \<or> CHR '':'' \<in> set hostname"

definition isReservedWebhookHostname :: "string \<Rightarrow> bool" where
  "isReservedWebhookHostname hostname \<longleftrightarrow>
     (let normalizedHostname = lower_ascii (normalizeHostname hostname)
      in if CHR ''.'' \<notin> set normalizedHostname then True
         else list_ex (ends_with normalizedHostname) RESERVED_WEBHOOK_HOSTNAME_SUFFIXES)"

definition validateSafeUrlProtocol :: "url \<Rightarrow> bool \<Rightarrow> safe_url_reason option" where
  "validateSafeUrlProtocol u allowLoopback =
     (if u_protocol u = ''https:'' then None
      else if u_protocol u \<noteq> ''http:'' then Some invalid_scheme
      else if \<not> allowLoopback then Some invalid_scheme
      else if \<not> isLoopbackHostname (u_hostname u) then Some loopback_not_allowed
      else None)"

definition validateWebhookHostname :: "url \<Rightarrow> bool \<Rightarrow> safe_url_reason option" where
  "validateWebhookHostname u allowLoopback =
     (if isLoopbackHostname (u_hostname u) \<and> \<not> allowLoopback then Some loopback_not_allowed
      else
        let normalizedHostname = normalizeHostname (u_hostname u)
        in if ipv4_literal normalizedHostname \<and> normalizedHostname \<noteq> ''127.0.0.1'' then Some ipv4_literal_disallowed
           else if hostnameLooksLikeIpv6 (u_hostname u) then Some ipv6_literal_disallowed
           else if \<not> (allowLoopback \<and> isLoopbackHostname (u_hostname u)) \<and> isReservedWebhookHostname (u_hostname u)
             then Some reserved_hostname_disallowed
           else None)"

definition parseSafeUrl ::
  "(string \<Rightarrow> url option) \<Rightarrow> string \<Rightarrow> bool \<Rightarrow> safe_url_mode \<Rightarrow> safe_url_reason + url" where
  "parseSafeUrl parse input allowLoopback mode =
     (if SAFE_URL_MAX_LENGTH < length input then Inl url_too_long
      else
        case parse input of
          None \<Rightarrow> Inl invalid_url
        | Some u \<Rightarrow>
            if u_username u \<noteq> [] \<or> u_password u \<noteq> [] then Inl credentials_in_url
            else
              case validateSafeUrlProtocol u allowLoopback of
                Some reason \<Rightarrow> Inl reason
              | None \<Rightarrow>
                  if mode = Mode_webhook then
                    (case validateWebhookHostname u allowLoopback of Some reason \<Rightarrow> Inl reason | None \<Rightarrow> Inr u)
                  else Inr u)"

definition safeRedirectUrl :: "(string \<Rightarrow> url option) \<Rightarrow> bool \<Rightarrow> string \<Rightarrow> bool" where
  "safeRedirectUrl parse allowLoopback input \<longleftrightarrow>
     length input \<le> SAFE_URL_MAX_LENGTH \<and>
     (case parseSafeUrl parse input allowLoopback Mode_redirect of Inr _ \<Rightarrow> True | Inl _ \<Rightarrow> False)"

definition safeWebhookUrl :: "(string \<Rightarrow> url option) \<Rightarrow> bool \<Rightarrow> string \<Rightarrow> bool" where
  "safeWebhookUrl parse allowLoopback input \<longleftrightarrow>
     length input \<le> SAFE_URL_MAX_LENGTH \<and>
     (case parseSafeUrl parse input allowLoopback Mode_webhook of Inr _ \<Rightarrow> True | Inl _ \<Rightarrow> False)"

section \<open>Public targets\<close>

text \<open>What a URL called in production must be.\<close>

definition public_https :: "url \<Rightarrow> bool" where
  "public_https u \<longleftrightarrow>
     (let host = normalizeHostname (u_hostname u)
      in u_protocol u = ''https:'' \<and> u_username u = [] \<and> u_password u = [] \<and> \<not> ipv4_literal host \<and>
         CHR '':'' \<notin> set (u_hostname u) \<and> CHR ''.'' \<in> set (lower_ascii host) \<and>
         (\<forall>sfx \<in> set RESERVED_WEBHOOK_HOSTNAME_SUFFIXES. \<not> ends_with (lower_ascii host) sfx))"

lemma safe_webhook_public:
  assumes "parseSafeUrl parse input False Mode_webhook = Inr u"
  shows "parse input = Some u" and "public_https u"
proof -
  from assms have p: "parse input = Some u" "u_username u = []" "u_password u = []"
    "validateSafeUrlProtocol u False = None" "validateWebhookHostname u False = None"
    by (auto simp: parseSafeUrl_def split: if_splits option.splits)
  show "parse input = Some u" by (rule p)
  from p(5) have h: "\<not> isLoopbackHostname (u_hostname u)" "\<not> hostnameLooksLikeIpv6 (u_hostname u)"
    "\<not> isReservedWebhookHostname (u_hostname u)"
    and v: "ipv4_literal (normalizeHostname (u_hostname u)) \<Longrightarrow> normalizeHostname (u_hostname u) = ''127.0.0.1''"
    by (auto simp: validateWebhookHostname_def Let_def split: if_splits)
  from h(1) v have "\<not> ipv4_literal (normalizeHostname (u_hostname u))"
    by (auto simp: isLoopbackHostname_def LOOPBACK_HOSTNAMES_def)
  moreover from p(4) have "u_protocol u = ''https:''" by (auto simp: validateSafeUrlProtocol_def split: if_splits)
  ultimately show "public_https u" using p h
    by (auto simp: public_https_def Let_def hostnameLooksLikeIpv6_def isReservedWebhookHostname_def list_ex_iff split: if_splits)
qed

end
