(* ===== verification/Signing_Secret.thy ===== *)
theory Signing_Secret
  imports Base64_Text
begin

text \<open>
  The secret that signs an endpoint's deliveries (\<open>webhooks/signing-secret.ts\<close>, \<open>functions/hmac.ts\<close>):
  how it is stored encrypted under the server's secret, and the header it signs. SHA-256, AES-GCM,
  HMAC and the random initial vector are arguments. Text of the program is ASCII here.
\<close>

section \<open>Base64 for URLs\<close>

definition strip_equals :: "string \<Rightarrow> string" where
  "strip_equals s = rev (dropWhile (\<lambda>c. c = CHR ''='') (rev s))"

definition encodeBase64Url :: "bytes \<Rightarrow> string" where
  "encodeBase64Url bs = strip_equals (replace_char CHR ''/'' ''_'' (replace_char CHR ''+'' ''-'' (btoa bs)))"

definition decodeBase64Url :: "string \<Rightarrow> bytes option" where
  "decodeBase64Url text =
     (let normalized = replace_char CHR ''_'' ''/'' (replace_char CHR ''-'' ''+'' text);
          paddingLength = (4 - length normalized mod 4) mod 4
      in atob (normalized @ replicate paddingLength CHR ''=''))"

definition url_char :: "nat \<Rightarrow> char" where
  "url_char v = (if b64_char v = CHR ''+'' then CHR ''-'' else if b64_char v = CHR ''/'' then CHR ''_'' else b64_char v)"

lemma alphabet_outside:
  "b64_char v \<noteq> CHR ''=''" "b64_char v \<noteq> CHR ''.''" "b64_char v \<noteq> CHR ''-''" "b64_char v \<noteq> CHR ''_''"
  using b64_char_in [of v] alphabet_foreign by fastforce+

lemma url_char_outside: "url_char v \<noteq> CHR ''=''" "url_char v \<noteq> CHR ''.''"
  by (simp_all add: url_char_def alphabet_outside)

lemma encode_groups: "encodeBase64Url bs = map url_char (b64_groups bs)"
proof -
  let ?f = "\<lambda>x. if x = CHR ''/'' then CHR ''_'' else x" and ?g = "\<lambda>x. if x = CHR ''+'' then CHR ''-'' else x"
  have m: "map ?f (map ?g (map b64_char vs)) = map url_char vs" for vs
    by (auto simp: url_char_def)
  have strip: "strip_equals (map url_char vs @ replicate n CHR ''='') = map url_char vs" for vs n
  proof -
    have "dropWhile (\<lambda>c. c = CHR ''='') (map url_char us) = map url_char us" for us
      by (cases us) (simp_all add: url_char_outside)
    from this [of "rev vs"]
    have "dropWhile (\<lambda>c. c = CHR ''='') (rev (map url_char vs)) = rev (map url_char vs)" by (simp add: rev_map)
    moreover have "dropWhile (\<lambda>c. c = CHR ''='') (replicate n CHR ''='' @ xs) = dropWhile (\<lambda>c. c = CHR ''='') xs" for xs
      by (induction n) simp_all
    ultimately show ?thesis by (simp add: strip_equals_def)
  qed
  show ?thesis
    unfolding encodeBase64Url_def replace_char_map btoa_groups map_append m by (simp add: strip)
qed

lemma decode_encodeBase64Url: "decodeBase64Url (encodeBase64Url bs) = Some bs"
proof -
  let ?f = "\<lambda>x. if x = CHR ''_'' then CHR ''/'' else x" and ?g = "\<lambda>x. if x = CHR ''-'' then CHR ''+'' else x"
  have "?f (?g (url_char v)) = b64_char v" for v
    using alphabet_outside [of v] by (simp add: url_char_def)
  then have m: "map ?f (map ?g (map url_char vs)) = map b64_char vs" for vs by (simp only: map_map comp_def)
  show ?thesis
    unfolding decodeBase64Url_def encode_groups replace_char_map Let_def m by (simp add: atob_groups)
qed

interpretation base64url: codec encodeBase64Url decodeBase64Url
  by unfold_locales (rule decode_encodeBase64Url)

lemma encode_no_dot: "CHR ''.'' \<notin> set (encodeBase64Url bs)"
  using url_char_outside(2) by (fastforce simp: encode_groups)

lemma encode_empty: "encodeBase64Url bs = [] \<longleftrightarrow> bs = []"
  by (cases bs rule: b64_groups.cases) (simp_all add: encode_groups)

section \<open>The stored secret\<close>

text \<open>
  \<open>sha256\<close> is the digest; \<open>seal key iv\<close> and \<open>unseal key iv\<close> are AES-GCM, the latter \<open>None\<close> when it throws.
\<close>

definition deriveEncryptionKey :: "(bytes \<Rightarrow> bytes) \<Rightarrow> string \<Rightarrow> bytes" where
  "deriveEncryptionKey sha256 secret = sha256 (ascii_bytes secret)"

definition encryptWebhookSigningSecret ::
  "(bytes \<Rightarrow> bytes) \<Rightarrow> (bytes \<Rightarrow> bytes \<Rightarrow> bytes \<Rightarrow> bytes) \<Rightarrow> bytes \<Rightarrow> string \<Rightarrow> string \<Rightarrow> string" where
  "encryptWebhookSigningSecret sha256 seal iv plaintext secret =
     encodeBase64Url iv @ ''.'' @ encodeBase64Url (seal (deriveEncryptionKey sha256 secret) iv (ascii_bytes plaintext))"

text \<open>The plain text is the code points of the decoder.\<close>

definition decryptWebhookSigningSecret ::
  "(bytes \<Rightarrow> bytes) \<Rightarrow> (bytes \<Rightarrow> bytes \<Rightarrow> bytes \<Rightarrow> bytes option) \<Rightarrow> string \<Rightarrow> string \<Rightarrow> string + nat list" where
  "decryptWebhookSigningSecret sha256 unseal ciphertext secret =
     (let parts = split_on CHR ''.'' ciphertext;
          part = (\<lambda>n. if n < length parts \<and> parts ! n \<noteq> [] then Some (parts ! n) else None)
      in case (part 0, part 1) of
        (Some encodedIv, Some encodedCiphertext) \<Rightarrow>
          (case decodeBase64Url encodedIv of
             None \<Rightarrow> Inl ''InvalidCharacterError''
           | Some iv \<Rightarrow>
               (case decodeBase64Url encodedCiphertext of
                  None \<Rightarrow> Inl ''InvalidCharacterError''
                | Some encryptedBytes \<Rightarrow>
                    (case unseal (deriveEncryptionKey sha256 secret) iv encryptedBytes of
                       None \<Rightarrow> Inl ''OperationError''
                     | Some plaintext \<Rightarrow> Inr (utf8_decode plaintext))))
      | _ \<Rightarrow> Inl ''webhook_signing_secret_ciphertext_invalid'')"

lemma decrypt_encrypt:
  assumes "iv \<noteq> []" and "seal (deriveEncryptionKey sha256 secret) iv (ascii_bytes plaintext) \<noteq> []"
    and "unseal (deriveEncryptionKey sha256 secret) iv (seal (deriveEncryptionKey sha256 secret) iv (ascii_bytes plaintext)) =
           Some (ascii_bytes plaintext)"
    and "list_all (\<lambda>c. of_char c < (128 :: nat)) plaintext"
  shows "decryptWebhookSigningSecret sha256 unseal (encryptWebhookSigningSecret sha256 seal iv plaintext secret) secret =
    Inr (map of_char plaintext)"
proof -
  let ?ct = "seal (deriveEncryptionKey sha256 secret) iv (ascii_bytes plaintext)"
  have "split_on CHR ''.'' (encodeBase64Url iv @ CHR ''.'' # encodeBase64Url ?ct) =
      [encodeBase64Url iv, encodeBase64Url ?ct]"
    by (simp only: split_on_append [OF encode_no_dot] split_on_none [OF encode_no_dot])
  moreover have "utf8_decode (ascii_bytes plaintext) = map unat (ascii_bytes plaintext)"
    by (rule utf8_decode_ascii) (use assms(4) in \<open>auto simp: list_all_iff ascii_bytes_def ascii_bytes_unat\<close>)
  ultimately show ?thesis
    using assms(1-3) by (simp add: decryptWebhookSigningSecret_def encryptWebhookSigningSecret_def encode_empty base64url.decode_encode)
qed

section \<open>The signature\<close>

text \<open>\<open>hmac secret bytes\<close> is HMAC-SHA256.\<close>

definition createHMAC :: "(bytes \<Rightarrow> bytes \<Rightarrow> bytes) \<Rightarrow> string \<Rightarrow> string \<Rightarrow> string" where
  "createHMAC hmac payload secret = hexBytes (hmac (ascii_bytes secret) (ascii_bytes payload))"

definition createWebhookSignatureHeader :: "(bytes \<Rightarrow> bytes \<Rightarrow> bytes) \<Rightarrow> string \<Rightarrow> string \<Rightarrow> nat \<Rightarrow> string" where
  "createWebhookSignatureHeader hmac payload secret timestamp =
     (let signature = createHMAC hmac (show_nat timestamp @ ''.'' @ payload) secret
      in ''t='' @ show_nat timestamp @ '',v1='' @ signature)"

text \<open>What is signed fixes the time and the payload.\<close>

lemma signed_text_binds:
  assumes "show_nat t @ ''.'' @ payload = show_nat t' @ ''.'' @ payload'"
  shows "t = t' \<and> payload = payload'"
proof -
  have d: "CHR ''.'' \<notin> set (show_nat n)" for n
    using show_nat_digits [of n] digit_not_sep by blast
  have "show_nat t # split_on CHR ''.'' payload = show_nat t' # split_on CHR ''.'' payload'"
    using arg_cong [OF assms, of "split_on CHR ''.''"] by (simp add: split_on_append [OF d])
  with assms have "show_nat t = show_nat t' \<and> payload = payload'" by simp
  then show ?thesis by simp
qed

end
