(* ===== verification/Webhook_Endpoints.thy ===== *)
theory Webhook_Endpoints
  imports Webhook_Store Safe_Url Signing_Secret
begin

text \<open>
  The requests on webhook endpoints, their encryption keys and deliveries
  (\<open>webhooks/endpoints/*.ts\<close>, \<open>webhooks/keys/index.ts\<close>, \<open>webhooks/events/replay.ts\<close>,
  \<open>webhooks/deliveries/index.ts\<close>). The organization is that of the caller; generated identifiers,
  secrets and the clock are arguments. The audit log, the listings and the shape of the answers
  are left out.
\<close>

datatype http_error = Http_bad_request | Http_not_found | Http_conflict | Http_payload_expired | Http_internal

section \<open>Public keys\<close>

definition PRIVATE_RSA_JWK_FIELDS :: "string list" where
  "PRIVATE_RSA_JWK_FIELDS = [''d'', ''dp'', ''dq'', ''oth'', ''p'', ''q'', ''qi'']"

definition UNSAFE_KEY_OPS :: "string list" where
  "UNSAFE_KEY_OPS = [''decrypt'', ''deriveBits'', ''deriveKey'', ''sign'', ''unwrapKey'']"

definition MIN_RSA_MODULUS_BYTES :: nat where "MIN_RSA_MODULUS_BYTES = 2048 div 8"

type_synonym jwk_fields = "(string \<times> json) list"

definition hasPrivateRsaJwkMaterial :: "jwk_fields \<Rightarrow> bool" where
  "hasPrivateRsaJwkMaterial value = list_ex (\<lambda>field. jm_has value field) PRIVATE_RSA_JWK_FIELDS"

definition hasSafeKeyOperations :: "json option \<Rightarrow> bool" where
  "hasSafeKeyOperations value =
     (case value of
        None \<Rightarrow> True
      | Some (JArr ops) \<Rightarrow>
          JStr ''encrypt'' \<in> set ops \<and>
          list_all (\<lambda>v. case v of JStr operation \<Rightarrow> operation \<notin> set UNSAFE_KEY_OPS | _ \<Rightarrow> False) ops
      | Some _ \<Rightarrow> False)"

definition getBase64UrlByteLength :: "string \<Rightarrow> nat option" where
  "getBase64UrlByteLength value =
     (let paddingLength = (4 - length value mod 4) mod 4;
          base64 = replace_char CHR ''_'' ''/'' (replace_char CHR ''-'' ''+'' value) @ replicate paddingLength CHR ''=''
      in map_option length (atob base64))"

datatype jwk_rejection =
  key_type_invalid | rsa_parameters_invalid | rsa_modulus_too_small | algorithm_invalid | key_use_invalid
| private_key_rejected | key_ops_invalid | jwk_invalid

definition public_jwk :: "string \<Rightarrow> string \<Rightarrow> jwk_fields" where
  "public_jwk e n =
     [(''alg'', JStr ''RSA-OAEP-256''), (''e'', JStr e), (''key_ops'', JArr [JStr ''encrypt'']), (''kty'', JStr ''RSA''), (''n'', JStr n)]"

text \<open>\<open>imports jwk\<close> tells that the library imports the key without throwing.\<close>

definition string_not :: "json option \<Rightarrow> string \<Rightarrow> bool" where
  "string_not value allowed = (case value of Some (JStr s) \<Rightarrow> s \<noteq> allowed | _ \<Rightarrow> False)"

definition validateWebhookEncryptionPublicJwk :: "(jwk_fields \<Rightarrow> bool) \<Rightarrow> jwk_fields \<Rightarrow> jwk_rejection + jwk_fields" where
  "validateWebhookEncryptionPublicJwk imports_ok value =
     (if jm_get value ''kty'' \<noteq> Some (JStr ''RSA'') then Inl key_type_invalid
      else
        case (jm_get value ''n'', jm_get value ''e'') of
          (Some (JStr n), Some (JStr e)) \<Rightarrow>
            if js_trim n = [] \<or> js_trim e = [] then Inl rsa_parameters_invalid
            else if (case getBase64UrlByteLength n of None \<Rightarrow> True | Some len \<Rightarrow> len < MIN_RSA_MODULUS_BYTES)
              then Inl rsa_modulus_too_small
            else if string_not (jm_get value ''alg'') ''RSA-OAEP-256'' then Inl algorithm_invalid
            else if string_not (jm_get value ''use'') ''enc'' then Inl key_use_invalid
            else if hasPrivateRsaJwkMaterial value then Inl private_key_rejected
            else if \<not> hasSafeKeyOperations (jm_get value ''key_ops'') then Inl key_ops_invalid
            else if \<not> imports_ok (public_jwk e n) then Inl jwk_invalid
            else Inr (public_jwk e n)
        | _ \<Rightarrow> Inl rsa_parameters_invalid)"

lemma validated_jwk:
  assumes "validateWebhookEncryptionPublicJwk imports_ok value = Inr jwk"
  obtains e n bs where "jwk = public_jwk e n" and "jm_get value ''n'' = Some (JStr n)" and "jm_get value ''e'' = Some (JStr e)"
    and "decodeBase64Url n = Some bs" and "MIN_RSA_MODULUS_BYTES \<le> length bs" and "\<not> hasPrivateRsaJwkMaterial value"
proof -
  from assms obtain n e where v: "jm_get value ''n'' = Some (JStr n)" "jm_get value ''e'' = Some (JStr e)"
    and jwk: "jwk = public_jwk e n" "\<not> hasPrivateRsaJwkMaterial value"
    and len: "\<exists>len. getBase64UrlByteLength n = Some len \<and> MIN_RSA_MODULUS_BYTES \<le> len"
    by (auto simp: validateWebhookEncryptionPublicJwk_def split: if_splits option.splits json.splits)
  have "length (replace_char CHR ''_'' ''/'' (replace_char CHR ''-'' ''+'' n)) = length n"
    by (simp add: replace_char_map)
  then have "getBase64UrlByteLength n = map_option length (decodeBase64Url n)"
    by (simp add: getBase64UrlByteLength_def decodeBase64Url_def)
  with len obtain bs where "decodeBase64Url n = Some bs" "MIN_RSA_MODULUS_BYTES \<le> length bs" by auto
  with v jwk show ?thesis using that by blast
qed

section \<open>Keys of an endpoint\<close>

definition endpoint_of :: "hooks \<Rightarrow> string \<Rightarrow> string \<Rightarrow> endpoint option" where
  "endpoint_of hk org i = find (\<lambda>e. we_id e = i \<and> we_org e = org) (hk_endpoints hk)"

definition key_of :: "hooks \<Rightarrow> string \<Rightarrow> encryption_key option" where
  "key_of hk i = find (\<lambda>k. wk_id k = i) (hk_keys hk)"

definition update_keys :: "hooks \<Rightarrow> (encryption_key \<Rightarrow> bool) \<Rightarrow> (encryption_key \<Rightarrow> encryption_key) \<Rightarrow> hooks" where
  "update_keys hk cond f = hk\<lparr>hk_keys := map (\<lambda>k. if cond k then f k else k) (hk_keys hk)\<rparr>"

definition disabled_key :: "int \<Rightarrow> encryption_key \<Rightarrow> encryption_key" where
  "disabled_key now k = k\<lparr>wk_disabledAt := Some now, wk_isActive := False\<rparr>"

text \<open>The transaction that holds the lock of the endpoint is one step.\<close>

definition createWebhookEncryptionKey ::
  "(jwk_fields \<Rightarrow> bool) \<Rightarrow> string \<Rightarrow> int \<Rightarrow> string \<Rightarrow> hooks \<Rightarrow> string \<Rightarrow> string \<Rightarrow> jwk_fields \<Rightarrow>
     hooks \<times> (http_error + encryption_key)" where
  "createWebhookEncryptionKey imports_ok i now organizationId hk endpointId keyId jwk =
     (case endpoint_of hk organizationId endpointId of
        None \<Rightarrow> (hk, Inl Http_not_found)
      | Some e \<Rightarrow>
          (case validateWebhookEncryptionPublicJwk imports_ok jwk of
             Inl _ \<Rightarrow> (hk, Inl Http_bad_request)
           | Inr publicJwk \<Rightarrow>
               let hk1 = update_keys hk (\<lambda>k. wk_endpointId k = we_id e) (disabled_key now);
                   row = \<lparr>wk_id = i, wk_endpointId = we_id e, wk_keyId = keyId, wk_jwk = JObj publicJwk,
                          wk_isActive = True, wk_disabledAt = None\<rparr>
               in (hk1\<lparr>hk_keys := hk_keys hk1 @ [row]\<rparr>, Inr row)))"

definition findWebhookKeyByIdForOrganization :: "hooks \<Rightarrow> string \<Rightarrow> string \<Rightarrow> encryption_key option" where
  "findWebhookKeyByIdForOrganization hk keyId organizationId =
     find (\<lambda>k. wk_id k = keyId \<and> (case find_endpoint hk (wk_endpointId k) of None \<Rightarrow> False | Some e \<Rightarrow> we_org e = organizationId))
       (hk_keys hk)"

definition deactivateWebhookKey :: "int \<Rightarrow> hooks \<Rightarrow> string \<Rightarrow> hooks \<times> encryption_key option" where
  "deactivateWebhookKey now hk keyId =
     (let hk1 = update_keys hk (\<lambda>k. wk_id k = keyId) (disabled_key now) in (hk1, key_of hk1 keyId))"

definition reactivateWebhookKey :: "int \<Rightarrow> hooks \<Rightarrow> string \<Rightarrow> string \<Rightarrow> hooks \<times> encryption_key option" where
  "reactivateWebhookKey now hk keyId webhookEndpointId =
     (let hk1 = update_keys hk (\<lambda>k. wk_endpointId k = webhookEndpointId \<and> wk_isActive k) (disabled_key now);
          hk2 = update_keys hk1 (\<lambda>k. wk_id k = keyId) (\<lambda>k. k\<lparr>wk_disabledAt := None, wk_isActive := True\<rparr>)
      in (hk2, key_of hk2 keyId))"

definition answer_key :: "hooks \<times> encryption_key option \<Rightarrow> hooks \<times> (http_error + encryption_key)" where
  "answer_key r = (case r of (hk, None) \<Rightarrow> (hk, Inl Http_internal) | (hk, Some k) \<Rightarrow> (hk, Inr k))"

definition deactivateWebhookEncryptionKey :: "int \<Rightarrow> string \<Rightarrow> hooks \<Rightarrow> string \<Rightarrow> hooks \<times> (http_error + encryption_key)" where
  "deactivateWebhookEncryptionKey now organizationId hk keyId =
     (case findWebhookKeyByIdForOrganization hk keyId organizationId of
        None \<Rightarrow> (hk, Inl Http_not_found)
      | Some row \<Rightarrow> answer_key (deactivateWebhookKey now hk (wk_id row)))"

definition reactivateWebhookEncryptionKey :: "int \<Rightarrow> string \<Rightarrow> hooks \<Rightarrow> string \<Rightarrow> hooks \<times> (http_error + encryption_key)" where
  "reactivateWebhookEncryptionKey now organizationId hk keyId =
     (case findWebhookKeyByIdForOrganization hk keyId organizationId of
        None \<Rightarrow> (hk, Inl Http_not_found)
      | Some row \<Rightarrow> answer_key (reactivateWebhookKey now hk (wk_id row) (wk_endpointId row)))"

section \<open>Endpoints\<close>

text \<open>The bodies hold what their schemas let pass; an absent field is \<open>None\<close>, a name may be null.\<close>

record create_body =
  cb_name :: "string option option"
  cb_labels :: "json option"
  cb_url :: string
  cb_enabled :: "bool option"
  cb_subscribedEventTypes :: "event_type list option"
  cb_retentionHours :: int

record update_body =
  ub_name :: "string option option"
  ub_labels :: "json option"
  ub_url :: "string option"
  ub_enabled :: "bool option"
  ub_subscribedEventTypes :: "event_type list option"
  ub_retentionHours :: "int option"

definition valid_create_body :: "(string \<Rightarrow> url option) \<Rightarrow> bool \<Rightarrow> create_body \<Rightarrow> bool" where
  "valid_create_body parse allowLoopback body \<longleftrightarrow>
     safeWebhookUrl parse allowLoopback (cb_url body) \<and> cb_retentionHours body \<in> set WEBHOOK_PAYLOAD_RETENTION_HOUR_OPTIONS"

definition valid_update_body :: "(string \<Rightarrow> url option) \<Rightarrow> bool \<Rightarrow> update_body \<Rightarrow> bool" where
  "valid_update_body parse allowLoopback body \<longleftrightarrow>
     (case ub_url body of None \<Rightarrow> True | Some u \<Rightarrow> safeWebhookUrl parse allowLoopback u) \<and>
     (case ub_retentionHours body of None \<Rightarrow> True | Some h \<Rightarrow> h \<in> set WEBHOOK_PAYLOAD_RETENTION_HOUR_OPTIONS)"

definition SUPPORTED_WEBHOOK_EVENT_TYPES :: "event_type list" where
  "SUPPORTED_WEBHOOK_EVENT_TYPES = [Ev_session_succeeded, Ev_session_failed, Ev_session_expired, Ev_session_cancelled]"

definition event_types_json :: "event_type list \<Rightarrow> json" where
  "event_types_json tys = JArr (map (\<lambda>ty. JStr (event_type_text ty)) tys)"

text \<open>The endpoint and the plain secret, which is shown once. \<open>encrypt\<close> is the encryption under the server's secret.\<close>

definition createWebhookEndpoint ::
  "(string \<Rightarrow> string) \<Rightarrow> string \<Rightarrow> string \<Rightarrow> int \<Rightarrow> string \<Rightarrow> hooks \<Rightarrow> create_body \<Rightarrow> hooks \<times> endpoint \<times> string" where
  "createWebhookEndpoint encrypt i signingSecret now organizationId hk body =
     (let enabled = (case cb_enabled body of None \<Rightarrow> True | Some b \<Rightarrow> b);
          subscribed = (case cb_subscribedEventTypes body of None \<Rightarrow> SUPPORTED_WEBHOOK_EVENT_TYPES | Some tys \<Rightarrow> tys);
          row = \<lparr>we_id = i, we_org = organizationId,
                 we_name = (case cb_name body of Some (Some s) \<Rightarrow> Some (js_trim s) | _ \<Rightarrow> None),
                 we_labels = (case cb_labels body of None \<Rightarrow> JArr [] | Some labels \<Rightarrow> labels),
                 we_url = cb_url body, we_enabled = enabled, we_subscribedEventTypes = event_types_json subscribed,
                 we_retentionHours = cb_retentionHours body, we_signingSecret = Some (encrypt signingSecret),
                 we_disabledAt = (if enabled then None else Some now)\<rparr>
      in (hk\<lparr>hk_endpoints := hk_endpoints hk @ [row]\<rparr>, row, signingSecret))"

definition update_endpoint :: "hooks \<Rightarrow> string \<Rightarrow> (endpoint \<Rightarrow> endpoint) \<Rightarrow> hooks" where
  "update_endpoint hk i f = hk\<lparr>hk_endpoints := map (\<lambda>e. if we_id e = i then f e else e) (hk_endpoints hk)\<rparr>"

definition apply_updates :: "int \<Rightarrow> update_body \<Rightarrow> endpoint \<Rightarrow> endpoint" where
  "apply_updates now body e =
     (let e1 = (case ub_name body of None \<Rightarrow> e | Some v \<Rightarrow> e\<lparr>we_name := map_option js_trim v\<rparr>);
          e2 = (case ub_labels body of None \<Rightarrow> e1 | Some labels \<Rightarrow> e1\<lparr>we_labels := labels\<rparr>);
          e3 = (case ub_url body of None \<Rightarrow> e2 | Some u \<Rightarrow> e2\<lparr>we_url := u\<rparr>);
          e4 = (case ub_enabled body of None \<Rightarrow> e3
                | Some b \<Rightarrow> e3\<lparr>we_enabled := b, we_disabledAt := if b then None else Some now\<rparr>);
          e5 = (case ub_subscribedEventTypes body of None \<Rightarrow> e4
                | Some tys \<Rightarrow> e4\<lparr>we_subscribedEventTypes := event_types_json tys\<rparr>)
      in case ub_retentionHours body of None \<Rightarrow> e5 | Some h \<Rightarrow> e5\<lparr>we_retentionHours := h\<rparr>)"

definition no_updates :: "update_body \<Rightarrow> bool" where
  "no_updates body \<longleftrightarrow>
     ub_name body = None \<and> ub_labels body = None \<and> ub_url body = None \<and> ub_enabled body = None \<and>
     ub_subscribedEventTypes body = None \<and> ub_retentionHours body = None"

definition updateWebhookEndpoint :: "int \<Rightarrow> string \<Rightarrow> hooks \<Rightarrow> string \<Rightarrow> update_body \<Rightarrow> hooks \<times> (http_error + endpoint option)" where
  "updateWebhookEndpoint now organizationId hk i body =
     (case endpoint_of hk organizationId i of
        None \<Rightarrow> (hk, Inl Http_not_found)
      | Some row \<Rightarrow>
          if no_updates body then (hk, Inl Http_bad_request)
          else let hk1 = update_endpoint hk (we_id row) (apply_updates now body)
               in (hk1, Inr (find_endpoint hk1 (we_id row))))"

text \<open>
  The database removes the keys and the deliveries of the endpoint with it, or refuses
  (\<open>accepted = False\<close>) when its order of checks finds a delivery still using a key.
\<close>

definition deleteWebhookEndpoint :: "bool \<Rightarrow> string \<Rightarrow> hooks \<Rightarrow> string \<Rightarrow> hooks \<times> (http_error + unit)" where
  "deleteWebhookEndpoint accepted organizationId hk i =
     (case endpoint_of hk organizationId i of
        None \<Rightarrow> (hk, Inl Http_not_found)
      | Some e \<Rightarrow>
          if \<not> accepted then (hk, Inl Http_internal)
          else
            (hk\<lparr>hk_endpoints := filter (\<lambda>e. we_id e \<noteq> i) (hk_endpoints hk),
                hk_keys := filter (\<lambda>k. wk_endpointId k \<noteq> i) (hk_keys hk),
                hk_deliveries := filter (\<lambda>(_, row). wd_endpointId row \<noteq> i) (hk_deliveries hk)\<rparr>, Inr ()))"

definition rotateWebhookEndpointSigningSecret ::
  "(string \<Rightarrow> string) \<Rightarrow> string \<Rightarrow> string \<Rightarrow> hooks \<Rightarrow> string \<Rightarrow> hooks \<times> (http_error + string)" where
  "rotateWebhookEndpointSigningSecret encrypt signingSecret organizationId hk i =
     (case endpoint_of hk organizationId i of
        None \<Rightarrow> (hk, Inl Http_not_found)
      | Some e \<Rightarrow> (update_endpoint hk (we_id e) (\<lambda>e. e\<lparr>we_signingSecret := Some (encrypt signingSecret)\<rparr>), Inr signingSecret))"

definition has_secret :: "endpoint \<Rightarrow> string option" where
  "has_secret e = (case we_signingSecret e of Some [] \<Rightarrow> None | s \<Rightarrow> s)"

definition revealWebhookEndpointSigningSecret ::
  "(string \<Rightarrow> string + nat list) \<Rightarrow> string \<Rightarrow> hooks \<Rightarrow> string \<Rightarrow> http_error + nat list" where
  "revealWebhookEndpointSigningSecret decrypt organizationId hk i =
     (case endpoint_of hk organizationId i of
        None \<Rightarrow> Inl Http_not_found
      | Some e \<Rightarrow>
          (case has_secret e of
             None \<Rightarrow> Inl Http_internal
           | Some ciphertext \<Rightarrow> (case decrypt ciphertext of Inl _ \<Rightarrow> Inl Http_internal | Inr text \<Rightarrow> Inr text)))"

text \<open>\<open>resolveEndpointSigningSecret\<close> of a delivery: a secret that cannot be read counts as none.\<close>

definition resolveEndpointSigningSecret :: "(string \<Rightarrow> string + nat list) \<Rightarrow> endpoint \<Rightarrow> nat list option" where
  "resolveEndpointSigningSecret decrypt e =
     (case has_secret e of
        None \<Rightarrow> None
      | Some ciphertext \<Rightarrow> (case decrypt ciphertext of Inl _ \<Rightarrow> None | Inr text \<Rightarrow> Some text))"

section \<open>Retries on request\<close>

definition getWebhookDeliveryForOrganization :: "db \<Rightarrow> hooks \<Rightarrow> string \<Rightarrow> string \<Rightarrow> delivery option" where
  "getWebhookDeliveryForOrganization db hk deliveryId organizationId =
     (case getWebhookDeliveryById hk deliveryId of
        None \<Rightarrow> None
      | Some row \<Rightarrow>
          (case find_event db (wd_eventId row) of
             None \<Rightarrow> None
           | Some ev \<Rightarrow> if er_org ev = organizationId then Some row else None))"

text \<open>The deliveries whose workflow is started are the second part of the answer.\<close>

definition retryWebhookDelivery ::
  "int \<Rightarrow> string \<Rightarrow> db \<Rightarrow> hooks \<Rightarrow> string \<Rightarrow> hooks \<times> (http_error + string list)" where
  "retryWebhookDelivery now organizationId db hk deliveryId =
     (case getWebhookDeliveryForOrganization db hk deliveryId organizationId of
        None \<Rightarrow> (hk, Inl Http_not_found)
      | Some row \<Rightarrow>
          (case getWebhookDeliveryRetryBlockReason row now of
             Some Blocked_delivering \<Rightarrow> (hk, Inl Http_conflict)
           | Some Blocked_payload_expired \<Rightarrow> (hk, Inl Http_payload_expired)
           | Some Blocked_payload_scrubbed \<Rightarrow> (hk, Inl Http_payload_expired)
           | None \<Rightarrow>
               (case requeueWebhookDelivery now hk (wd_id row) of
                  (hk1, None) \<Rightarrow> (hk1, Inl Http_not_found)
                | (hk1, Some requeued) \<Rightarrow> (hk1, Inr [wd_id requeued]))))"

definition replayWebhookEvent ::
  "int \<Rightarrow> string \<Rightarrow> db \<Rightarrow> hooks \<Rightarrow> string \<Rightarrow> hooks \<times> (http_error + string list)" where
  "replayWebhookEvent now organizationId db hk eventId =
     (case find (\<lambda>e. er_id e = eventId \<and> er_org e = organizationId) (db_events db) of
        None \<Rightarrow> (hk, Inl Http_not_found)
      | Some ev \<Rightarrow>
          let (hk1, requeued) = requeueWebhookDeliveriesForEvent now hk (er_id ev)
          in if length requeued = 0 then
               let current = filter (\<lambda>row. wd_eventId row = er_id ev) (map snd (hk_deliveries hk1));
                   blocked = 0 < length current \<and>
                     list_all (\<lambda>row. getWebhookDeliveryRetryBlockReason row now
                       \<in> {Some Blocked_payload_expired, Some Blocked_payload_scrubbed}) current
               in (hk1, Inl (if blocked then Http_payload_expired else Http_conflict))
             else (hk1, Inr (map wd_id requeued)))"

end
