(* ===== verification/Webhook_Attempt.thy ===== *)
theory Webhook_Attempt
  imports Webhook_Endpoints Machines
begin

text \<open>
  One attempt of a delivery and the workflow of attempts (\<open>webhooks/deliveries/attempt-runner.ts\<close>,
  \<open>attempt-finalize.ts\<close>, \<open>request.ts\<close>, \<open>workflow.ts\<close>) as a program counter that makes one
  statement against the database, or one request, at each step: what others do between two
  statements is the state that the next step is given. The platform's parser of URLs, the
  decryption of secrets and the signature are in the environment; the reply of a request is an
  argument, \<open>None\<close> when the request throws. Logging is left out.
\<close>

record send_env =
  se_parse :: "string \<Rightarrow> url option"
  se_loopback :: bool
  se_decrypt :: "string \<Rightarrow> string + nat list"
  se_hmac :: "bytes \<Rightarrow> bytes \<Rightarrow> bytes"

record request =
  rq_url :: string
  rq_body :: string
  rq_delivery :: string
  rq_event :: event_type
  rq_signature :: string

definition response_ok :: "nat \<Rightarrow> bool" where
  "response_ok status \<longleftrightarrow> 200 \<le> status \<and> status \<le> 299"

text \<open>A URL that is not acceptable answers 400 without a request. The clock of the signature is in seconds.\<close>

definition WEBHOOK_FETCH_REJECTED_STATUS :: nat where "WEBHOOK_FETCH_REJECTED_STATUS = 400"

definition payload_text :: "delivery \<Rightarrow> string" where
  "payload_text row = (case wd_payload row of None \<Rightarrow> [] | Some p \<Rightarrow> p)"

definition sendWebhookDeliveryRequest ::
  "send_env \<Rightarrow> int \<Rightarrow> delivery \<Rightarrow> endpoint \<Rightarrow> event_type \<Rightarrow> nat list \<Rightarrow> nat + request" where
  "sendWebhookDeliveryRequest env now delivery e eventType signingSecret =
     (case parseSafeUrl (se_parse env) (we_url e) (se_loopback env) Mode_webhook of
        Inl _ \<Rightarrow> Inl WEBHOOK_FETCH_REJECTED_STATUS
      | Inr u \<Rightarrow>
          Inr \<lparr>rq_url = u_href u, rq_body = payload_text delivery, rq_delivery = wd_id delivery, rq_event = eventType,
               rq_signature = createWebhookSignatureHeader (se_hmac env) (payload_text delivery)
                 (map char_of signingSecret) (nat (now div 1000))\<rparr>)"

section \<open>The program counter\<close>

type_synonym attempt_context = "endpoint \<times> event_row"

datatype stage = Before_claim | After_claim | Before_send

datatype pc =
  Pc_start
| Pc_check attempt_context stage
| Pc_withdraw
| Pc_claim attempt_context
| Pc_unclaimed
| Pc_claimed attempt_context
| Pc_before_send attempt_context
| Pc_send attempt_context delivery int "nat list"
| Pc_insert delivery int nat
| Pc_record delivery int nat
| Pc_preflight
| Pc_preflight_insert nat
| Pc_preflight_write nat
| Pc_returned
| Pc_threw
| Pc_finalize
| Pc_finalize_write delivery int
| Pc_done

record worker =
  ww_delivery :: string
  ww_attempt :: nat
  ww_pc :: pc

definition getDeliveryAttemptContext :: "db \<Rightarrow> hooks \<Rightarrow> string \<Rightarrow> (delivery \<times> attempt_context) option" where
  "getDeliveryAttemptContext db hk i =
     (case getWebhookDeliveryById hk i of
        None \<Rightarrow> None
      | Some row \<Rightarrow>
          (case (find_event db (wd_eventId row), find_endpoint hk (wd_endpointId row)) of
             (Some ev, Some e) \<Rightarrow> Some (row, e, ev)
           | _ \<Rightarrow> None))"

text \<open>\<open>Boolean(session?.cancelTokenConsumedAt || session?.status === "cancelled")\<close>\<close>

definition is_withdrawn :: "db \<Rightarrow> event_row \<Rightarrow> bool" where
  "is_withdrawn db ev \<longleftrightarrow>
     (case jm_get (db_sessions db) (er_trigger ev) of
        None \<Rightarrow> False
      | Some s \<Rightarrow> vs_cancelTokenConsumedAt s \<noteq> None \<or> vs_status s = St_cancelled)"

fun after_check :: "attempt_context \<Rightarrow> stage \<Rightarrow> pc" where
  "after_check ctx Before_claim = Pc_claim ctx"
| "after_check ctx After_claim = Pc_claimed ctx"
| "after_check ctx Before_send = Pc_before_send ctx"

text \<open>The first half of \<open>cancelWebhookDeliveryAfterPrivacyWithdrawal\<close>; \<open>Pc_withdraw\<close> is its update.\<close>

definition check_withdrawal :: "db \<Rightarrow> attempt_context \<Rightarrow> stage \<Rightarrow> pc" where
  "check_withdrawal db ctx stage =
     (if er_type (snd ctx) = Ev_session_cancelled then after_check ctx stage
      else if is_withdrawn db (snd ctx) then Pc_withdraw
      else after_check ctx stage)"

definition withdraw_delivery :: "int \<Rightarrow> hooks \<Rightarrow> string \<Rightarrow> hooks" where
  "withdraw_delivery now hk i = fst (update_delivery hk i (\<lambda>r. wd_status r \<noteq> Dl_succeeded) (withdrawn_row now))"

definition claimPendingWebhookDelivery :: "hooks \<Rightarrow> string \<Rightarrow> hooks \<times> delivery option" where
  "claimPendingWebhookDelivery hk i =
     update_delivery hk i
       (\<lambda>r. wd_status r = Dl_pending \<and> wd_payload r \<noteq> None \<and> wd_reason r \<noteq> Some Rt_privacy_request)
       (\<lambda>r. r\<lparr>wd_status := Dl_delivering\<rparr>)"

text \<open>What an attempt that could not claim its delivery does with the row it reads next.\<close>

definition after_unclaimed :: "delivery option \<Rightarrow> pc" where
  "after_unclaimed current =
     (case current of
        None \<Rightarrow> Pc_returned
      | Some row \<Rightarrow>
          if \<not> has_payload row \<or> wd_reason row = Some Rt_privacy_request then Pc_returned
          else if wd_status row = Dl_pending \<or> wd_status row = Dl_delivering then Pc_threw
          else Pc_returned)"

definition still_claimed :: "delivery option \<Rightarrow> bool" where
  "still_claimed current \<longleftrightarrow>
     (case current of
        None \<Rightarrow> False
      | Some row \<Rightarrow> wd_status row = Dl_delivering \<and> has_payload row \<and> wd_reason row \<noteq> Some Rt_privacy_request)"

definition after_claimed :: "send_env \<Rightarrow> attempt_context \<Rightarrow> delivery option \<Rightarrow> pc" where
  "after_claimed env ctx current =
     (if \<not> still_claimed current then Pc_returned
      else if \<not> we_enabled (fst ctx) then Pc_preflight
      else case resolveEndpointSigningSecret (se_decrypt env) (fst ctx) of
        None \<Rightarrow> Pc_preflight
      | Some [] \<Rightarrow> Pc_preflight
      | Some secret \<Rightarrow> Pc_check ctx Before_send)"

definition after_before_send :: "send_env \<Rightarrow> int \<Rightarrow> attempt_context \<Rightarrow> delivery option \<Rightarrow> pc" where
  "after_before_send env now ctx current =
     (case current of
        None \<Rightarrow> Pc_returned
      | Some row \<Rightarrow>
          if still_claimed current then
            (case resolveEndpointSigningSecret (se_decrypt env) (fst ctx) of
               None \<Rightarrow> Pc_returned
             | Some secret \<Rightarrow> Pc_send ctx row now secret)
          else Pc_returned)"

text \<open>\<open>persistWebhookDeliveryAttemptResult\<close>: the update after the inserted attempt.\<close>

definition recorded_row :: "delivery \<Rightarrow> int \<Rightarrow> nat \<Rightarrow> delivery \<Rightarrow> delivery" where
  "recorded_row snapshot attemptedAt status row =
     (let ok = response_ok status
      in row\<lparr>wd_attemptCount := wd_attemptCount snapshot + 1, wd_lastAttemptAt := Some attemptedAt,
             wd_lastStatusCode := Some status, wd_nextAttemptAt := None,
             wd_payload := if ok then None else wd_payload snapshot,
             wd_payloadExpiresAt := if ok then None else wd_payloadExpiresAt snapshot,
             wd_reason := Some (if ok then Rt_delivered else Rt_pending_delivery),
             wd_payloadScrubbedAt := if ok then Some attemptedAt else wd_payloadScrubbedAt snapshot,
             wd_status := if ok then Dl_succeeded else Dl_pending\<rparr>)"

definition record_result :: "hooks \<Rightarrow> string \<Rightarrow> delivery \<Rightarrow> int \<Rightarrow> nat \<Rightarrow> hooks" where
  "record_result hk i snapshot attemptedAt status =
     fst (update_delivery hk i (\<lambda>r. wd_status r = Dl_delivering) (recorded_row snapshot attemptedAt status))"

text \<open>\<open>recordPreflightFailure\<close>\<close>

definition preflight_row :: "int \<Rightarrow> nat \<Rightarrow> delivery \<Rightarrow> delivery" where
  "preflight_row now attempts row =
     row\<lparr>wd_attemptCount := attempts, wd_lastAttemptAt := Some now, wd_lastStatusCode := None, wd_nextAttemptAt := None,
         wd_status := Dl_pending\<rparr>"

definition record_preflight :: "int \<Rightarrow> hooks \<Rightarrow> string \<Rightarrow> nat \<Rightarrow> hooks" where
  "record_preflight now hk i attempts =
     fst (update_delivery hk i (\<lambda>r. wd_status r = Dl_delivering) (preflight_row now attempts))"

text \<open>\<open>finalizeWebhookDeliveryFailure\<close>: what it reads, then its update, which no condition guards.\<close>

definition finalize_read :: "db \<Rightarrow> hooks \<Rightarrow> string \<Rightarrow> pc" where
  "finalize_read db hk i =
     (let context = getDeliveryAttemptContext db hk i;
          found = (case context of Some (row, _) \<Rightarrow> Some row | None \<Rightarrow> getWebhookDeliveryById hk i)
      in case found of
        None \<Rightarrow> Pc_done
      | Some row \<Rightarrow>
          if wd_status row = Dl_succeeded \<or> wd_status row = Dl_failed then Pc_done
          else Pc_finalize_write row
            (case context of Some (_, e, _) \<Rightarrow> we_retentionHours e | None \<Rightarrow> MAX_UNDELIVERED_WEBHOOK_PAYLOAD_RETENTION_HOURS))"

definition finalized_row :: "int \<Rightarrow> delivery \<Rightarrow> int \<Rightarrow> delivery \<Rightarrow> delivery" where
  "finalized_row terminalFailureAt snapshot retentionHours row =
     (let payloadExpiresAt = addHours terminalFailureAt retentionHours;
          shouldScrubImmediately = wd_payload snapshot = None \<or> retentionHours = 0
      in row\<lparr>wd_nextAttemptAt := None,
             wd_payload := if shouldScrubImmediately then None else wd_payload snapshot,
             wd_payloadExpiresAt := if shouldScrubImmediately then None else Some payloadExpiresAt,
             wd_reason := Some (if shouldScrubImmediately then Rt_expired else Rt_terminal_failure_retention),
             wd_payloadScrubbedAt := if shouldScrubImmediately then Some terminalFailureAt else None,
             wd_status := Dl_failed\<rparr>)"

definition finalize_write :: "int \<Rightarrow> hooks \<Rightarrow> string \<Rightarrow> delivery \<Rightarrow> int \<Rightarrow> hooks" where
  "finalize_write now hk i snapshot retentionHours =
     fst (update_delivery hk i (\<lambda>r. True) (finalized_row now snapshot retentionHours))"

section \<open>Steps\<close>

text \<open>
  The next statement of a worker: the tables, its counter and the requests sent. An attempt that
  threw is followed by the next of the schedule, the last one by the final failure.
\<close>

definition next_attempt :: "worker \<Rightarrow> worker" where
  "next_attempt w =
     (if ww_attempt w < MAX_DELIVERY_ATTEMPTS then w\<lparr>ww_attempt := ww_attempt w + 1, ww_pc := Pc_start\<rparr>
      else w\<lparr>ww_pc := Pc_finalize\<rparr>)"

definition worker_step ::
  "send_env \<Rightarrow> int \<Rightarrow> (request \<Rightarrow> nat option) \<Rightarrow> db \<Rightarrow> hooks \<Rightarrow> worker \<Rightarrow> hooks \<times> worker \<times> request list" where
  "worker_step env now reply db hk w =
     (let i = ww_delivery w; goto = (\<lambda>p. w\<lparr>ww_pc := p\<rparr>)
      in case ww_pc w of
        Pc_start \<Rightarrow>
          (hk, goto (case getDeliveryAttemptContext db hk i of None \<Rightarrow> Pc_returned
                     | Some (_, ctx) \<Rightarrow> Pc_check ctx Before_claim), [])
      | Pc_check ctx stage \<Rightarrow> (hk, goto (check_withdrawal db ctx stage), [])
      | Pc_withdraw \<Rightarrow> (withdraw_delivery now hk i, goto Pc_returned, [])
      | Pc_claim ctx \<Rightarrow>
          (case claimPendingWebhookDelivery hk i of
             (hk', None) \<Rightarrow> (hk', goto Pc_unclaimed, [])
           | (hk', Some _) \<Rightarrow> (hk', goto (Pc_check ctx After_claim), []))
      | Pc_unclaimed \<Rightarrow> (hk, goto (after_unclaimed (getWebhookDeliveryById hk i)), [])
      | Pc_claimed ctx \<Rightarrow> (hk, goto (after_claimed env ctx (getWebhookDeliveryById hk i)), [])
      | Pc_before_send ctx \<Rightarrow> (hk, goto (after_before_send env now ctx (getWebhookDeliveryById hk i)), [])
      | Pc_send ctx row attemptedAt secret \<Rightarrow>
          (case sendWebhookDeliveryRequest env now row (fst ctx) (er_type (snd ctx)) secret of
             Inl status \<Rightarrow> (hk, goto (Pc_insert row attemptedAt status), [])
           | Inr rq \<Rightarrow>
               (case reply rq of
                  None \<Rightarrow> (hk, goto Pc_preflight, [rq])
                | Some status \<Rightarrow> (hk, goto (Pc_insert row attemptedAt status), [rq])))
      | Pc_insert row attemptedAt status \<Rightarrow>
          (insertAttempt hk i (response_ok status) (Some status), goto (Pc_record row attemptedAt status), [])
      | Pc_record row attemptedAt status \<Rightarrow>
          (record_result hk i row attemptedAt status, goto (if response_ok status then Pc_returned else Pc_threw), [])
      | Pc_preflight \<Rightarrow>
          (hk, goto (case getWebhookDeliveryById hk i of None \<Rightarrow> Pc_threw
                     | Some row \<Rightarrow> if has_payload row then Pc_preflight_insert (wd_attemptCount row + 1) else Pc_threw), [])
      | Pc_preflight_insert attempts \<Rightarrow> (insertAttempt hk i False None, goto (Pc_preflight_write attempts), [])
      | Pc_preflight_write attempts \<Rightarrow> (record_preflight now hk i attempts, goto Pc_threw, [])
      | Pc_returned \<Rightarrow> (hk, goto Pc_done, [])
      | Pc_threw \<Rightarrow> (hk, next_attempt w, [])
      | Pc_finalize \<Rightarrow> (hk, goto (finalize_read db hk i), [])
      | Pc_finalize_write row hours \<Rightarrow> (finalize_write now hk i row hours, goto Pc_done, [])
      | Pc_done \<Rightarrow> (hk, w, []))"

text \<open>A workflow begins with the first attempt, or with the final failure when the server has no secret.\<close>

definition start_workflow :: "string option \<Rightarrow> string \<Rightarrow> worker" where
  "start_workflow authSecret i =
     \<lparr>ww_delivery = i, ww_attempt = 1,
      ww_pc = (case authSecret of Some (_ # _) \<Rightarrow> Pc_start | _ \<Rightarrow> Pc_finalize)\<rparr>"

section \<open>Ending\<close>

text \<open>A bound on the statements that are left, whatever the others do.\<close>

fun pc_rank :: "pc \<Rightarrow> nat" where
  "pc_rank Pc_start = 15"
| "pc_rank (Pc_check _ Before_claim) = 14"
| "pc_rank (Pc_claim _) = 13"
| "pc_rank (Pc_check _ After_claim) = 12"
| "pc_rank (Pc_claimed _) = 11"
| "pc_rank (Pc_check _ Before_send) = 10"
| "pc_rank (Pc_before_send _) = 9"
| "pc_rank (Pc_send _ _ _ _) = 8"
| "pc_rank Pc_preflight = 7"
| "pc_rank (Pc_preflight_insert _) = 6"
| "pc_rank (Pc_preflight_write _) = 5"
| "pc_rank (Pc_insert _ _ _) = 5"
| "pc_rank (Pc_record _ _ _) = 4"
| "pc_rank Pc_withdraw = 5"
| "pc_rank Pc_unclaimed = 5"
| "pc_rank Pc_returned = 3"
| "pc_rank Pc_threw = 3"
| "pc_rank Pc_finalize = 2"
| "pc_rank (Pc_finalize_write _ _) = 1"
| "pc_rank Pc_done = 0"

fun finalizing :: "pc \<Rightarrow> bool" where
  "finalizing Pc_finalize = True"
| "finalizing (Pc_finalize_write _ _) = True"
| "finalizing Pc_done = True"
| "finalizing _ = False"

definition worker_rank :: "worker \<Rightarrow> nat" where
  "worker_rank w =
     (if finalizing (ww_pc w) then pc_rank (ww_pc w)
      else 13 * (MAX_DELIVERY_ATTEMPTS - ww_attempt w) + pc_rank (ww_pc w))"

lemma check_withdrawal_cases: "check_withdrawal db ctx stage \<in> {Pc_withdraw, after_check ctx stage}"
  by (simp add: check_withdrawal_def)

lemma after_claimed_cases: "after_claimed env ctx current \<in> {Pc_returned, Pc_preflight, Pc_check ctx Before_send}"
  by (auto simp: after_claimed_def split: option.split list.split)

lemma after_unclaimed_cases: "after_unclaimed current \<in> {Pc_returned, Pc_threw}"
  by (auto simp: after_unclaimed_def split: option.split)

lemma finalize_read_cases: "finalize_read db hk i = Pc_done \<or> (\<exists>row h. finalize_read db hk i = Pc_finalize_write row h)"
  by (auto simp: finalize_read_def Let_def split: option.split)

lemma after_check_rank:
  "pc_rank (after_check ctx stage) < pc_rank (Pc_check ctx stage)" "pc_rank Pc_withdraw < pc_rank (Pc_check ctx stage)"
  by (cases stage; simp)+

lemma next_attempt_rank: "ww_pc w = Pc_threw \<Longrightarrow> worker_rank (next_attempt w) < worker_rank w"
  by (auto simp: worker_rank_def next_attempt_def)

definition worker_after :: "hooks \<times> worker \<times> request list \<Rightarrow> worker" where
  "worker_after r = fst (snd r)"

lemma worker_step_rank:
  assumes "ww_pc w \<noteq> Pc_done"
  shows "worker_rank (worker_after (worker_step env now reply db hk w)) < worker_rank w"
proof -
  have goto: "worker_rank (w\<lparr>ww_pc := p\<rparr>) < worker_rank w"
    if "pc_rank p < pc_rank (ww_pc w)" "finalizing (ww_pc w) \<Longrightarrow> finalizing p" for p
    using that by (cases "finalizing p") (auto simp: worker_rank_def)
  show ?thesis
  proof (cases "ww_pc w")
    case (Pc_check ctx stage)
    then have "pc_rank (check_withdrawal db ctx stage) < pc_rank (ww_pc w)"
      using check_withdrawal_cases [of db ctx stage] after_check_rank [of ctx stage] by auto
    with Pc_check show ?thesis by (auto simp: worker_step_def worker_after_def Let_def intro!: goto)
  next
    case (Pc_claimed ctx)
    have "pc_rank (after_claimed env ctx (getWebhookDeliveryById hk (ww_delivery w))) < 11"
      using after_claimed_cases [of env ctx "getWebhookDeliveryById hk (ww_delivery w)"] by auto
    with Pc_claimed show ?thesis by (auto simp: worker_step_def worker_after_def Let_def intro!: goto)
  next
    case Pc_unclaimed
    have "pc_rank (after_unclaimed (getWebhookDeliveryById hk (ww_delivery w))) < 5"
      using after_unclaimed_cases [of "getWebhookDeliveryById hk (ww_delivery w)"] by auto
    with Pc_unclaimed show ?thesis by (auto simp: worker_step_def worker_after_def Let_def intro!: goto)
  next
    case (Pc_before_send ctx)
    have "pc_rank (after_before_send env now ctx (getWebhookDeliveryById hk (ww_delivery w))) < 9"
      by (auto simp: after_before_send_def split: option.split)
    with Pc_before_send show ?thesis by (auto simp: worker_step_def worker_after_def Let_def intro!: goto)
  next
    case Pc_finalize
    have "pc_rank (finalize_read db hk (ww_delivery w)) < 2 \<and> finalizing (finalize_read db hk (ww_delivery w))"
      using finalize_read_cases [of db hk "ww_delivery w"] by auto
    with Pc_finalize show ?thesis by (auto simp: worker_step_def worker_after_def Let_def intro!: goto)
  next
    case Pc_threw
    then show ?thesis by (simp add: worker_step_def worker_after_def Let_def next_attempt_rank)
  qed (use assms in \<open>auto simp: worker_step_def worker_after_def Let_def intro!: goto split: option.split prod.split sum.split\<close>)
qed

lemma worker_rank_zero: "worker_rank w = 0 \<longleftrightarrow> ww_pc w = Pc_done"
proof (cases "ww_pc w")
  case (Pc_check ctx stage)
  then show ?thesis by (cases stage) (simp_all add: worker_rank_def)
qed (simp_all add: worker_rank_def)

text \<open>A worker under any states the others leave it: what it sees at each of its statements.\<close>

definition drive_step ::
  "send_env \<Rightarrow> worker \<Rightarrow> int \<times> (request \<Rightarrow> nat option) \<times> db \<times> hooks \<Rightarrow> worker" where
  "drive_step env w seen = (case seen of (now, reply, db, hk) \<Rightarrow> worker_after (worker_step env now reply db hk w))"

interpretation driven: descending_machine "drive_step env" worker_rank for env
proof
  fix w :: worker and seen :: "int \<times> (request \<Rightarrow> nat option) \<times> db \<times> hooks"
  show "worker_rank (drive_step env w seen) < worker_rank w" if "worker_rank w \<noteq> 0"
    using that by (auto simp: drive_step_def worker_rank_zero worker_step_rank split: prod.split)
  show "drive_step env w seen = w" if "worker_rank w = 0"
    using that by (auto simp: drive_step_def worker_rank_zero worker_step_def worker_after_def Let_def split: prod.split)
qed

lemma start_rank: "worker_rank (start_workflow authSecret i) \<le> 106"
  by (auto simp: worker_rank_def start_workflow_def MAX_DELIVERY_ATTEMPTS_def WEBHOOK_DELIVERY_RETRY_SCHEDULE_def
      split: option.split list.split)

end
