(* ===== verification/Webhook_Machine.thy ===== *)
theory Webhook_Machine
  imports Webhook_Attempt
begin

text \<open>
  Everything that touches the webhook tables, interleaved statement by statement: the workers of the
  workflows, the creation of deliveries, requests to retry, the removal of payloads (a read, then
  an update of the rows read), the requests on endpoints and keys, the clock, and any change of the
  sessions and events. \<open>ws_created\<close> records the payloads encrypted for each delivery; \<open>ws_sent\<close> the
  requests made.
\<close>

section \<open>Requests on endpoints and keys\<close>

datatype admin_request =
  Create_endpoint string string create_body
| Update_endpoint string update_body
| Delete_endpoint bool string
| Rotate_secret string string
| Create_key string string string jwk_fields
| Deactivate_key string
| Reactivate_key string

record admin_env =
  ae_imports :: "jwk_fields \<Rightarrow> bool"
  ae_encrypt :: "string \<Rightarrow> string"

text \<open>What the schemas of the bodies let through; generated identifiers are new.\<close>

definition admissible :: "send_env \<Rightarrow> hooks \<Rightarrow> admin_request \<Rightarrow> bool" where
  "admissible env hk rq \<longleftrightarrow>
     (case rq of
        Create_endpoint i _ body \<Rightarrow>
          i \<notin> we_id ` set (hk_endpoints hk) \<and> valid_create_body (se_parse env) (se_loopback env) body
      | Update_endpoint _ body \<Rightarrow> valid_update_body (se_parse env) (se_loopback env) body
      | Create_key i _ _ _ \<Rightarrow> i \<notin> wk_id ` set (hk_keys hk)
      | _ \<Rightarrow> True)"

definition handle_admin :: "admin_env \<Rightarrow> int \<Rightarrow> string \<Rightarrow> hooks \<Rightarrow> admin_request \<Rightarrow> hooks" where
  "handle_admin ae now org hk rq =
     (case rq of
        Create_endpoint i secret body \<Rightarrow> fst (createWebhookEndpoint (ae_encrypt ae) i secret now org hk body)
      | Update_endpoint i body \<Rightarrow> fst (updateWebhookEndpoint now org hk i body)
      | Delete_endpoint accepted i \<Rightarrow> fst (deleteWebhookEndpoint accepted org hk i)
      | Rotate_secret i secret \<Rightarrow> fst (rotateWebhookEndpointSigningSecret (ae_encrypt ae) secret org hk i)
      | Create_key i e keyId jwk \<Rightarrow> fst (createWebhookEncryptionKey (ae_imports ae) i now org hk e keyId jwk)
      | Deactivate_key i \<Rightarrow> fst (deactivateWebhookEncryptionKey now org hk i)
      | Reactivate_key i \<Rightarrow> fst (reactivateWebhookEncryptionKey now org hk i))"

section \<open>States and steps\<close>

datatype pending_write = Scrub_rows "string list" | Sweep_rows "string list"

definition apply_write :: "int \<Rightarrow> hooks \<Rightarrow> pending_write \<Rightarrow> hooks" where
  "apply_write now hk wr = (case wr of Scrub_rows ids \<Rightarrow> scrub_write now hk ids | Sweep_rows ids \<Rightarrow> sweep_write now hk ids)"

record webhooks_state =
  ws_now :: int
  ws_db :: db
  ws_hooks :: hooks
  ws_workers :: "worker list"
  ws_writes :: "pending_write list"
  ws_sent :: "request list"
  ws_created :: "(string \<times> string) list"

definition new_payloads :: "hooks \<Rightarrow> string list \<Rightarrow> (string \<times> string) list" where
  "new_payloads hk ids =
     List.map_filter (\<lambda>(i, row). if i \<in> set ids then map_option (Pair i) (wd_payload row) else None) (hk_deliveries hk)"

definition add_deliveries :: "webhooks_state \<Rightarrow> hooks \<times> string list \<Rightarrow> webhooks_state" where
  "add_deliveries s r = s\<lparr>ws_hooks := fst r, ws_created := ws_created s @ new_payloads (fst r) (snd r)\<rparr>"

definition run_worker ::
  "send_env \<Rightarrow> (request \<Rightarrow> nat option) \<Rightarrow> nat \<Rightarrow> webhooks_state \<Rightarrow> webhooks_state" where
  "run_worker env reply k s =
     (let (hk, w, rqs) = worker_step env (ws_now s) reply (ws_db s) (ws_hooks s) (ws_workers s ! k)
      in s\<lparr>ws_hooks := hk, ws_workers := (ws_workers s)[k := w], ws_sent := ws_sent s @ rqs\<rparr>)"

definition fresh_ids :: "(nat \<Rightarrow> string) \<Rightarrow> hooks \<Rightarrow> bool" where
  "fresh_ids gen hk \<longleftrightarrow> inj gen \<and> (\<forall>n. gen n \<notin> fst ` set (hk_deliveries hk))"

inductive hook_step :: "send_env \<Rightarrow> admin_env \<Rightarrow> webhooks_state \<Rightarrow> webhooks_state \<Rightarrow> bool"
  for env :: send_env and ae :: admin_env where
  Tick: "ws_now s \<le> t \<Longrightarrow> hook_step env ae s (s\<lparr>ws_now := t\<rparr>)"
| Sessions: "hook_step env ae s (s\<lparr>ws_db := db\<rparr>)"
| Ended: "fresh_ids gen (ws_hooks s) \<Longrightarrow>
    hook_step env ae s
      (add_deliveries s (createVerificationSessionWebhookDeliveries stringify jwe gen (ws_now s) (ws_db s) (ws_hooks s) call))"
| Succeeded: "fresh_ids gen (ws_hooks s) \<Longrightarrow>
    hook_step env ae s
      (add_deliveries s (createWebhookDeliveriesForVerificationSessionSucceededWithManifest stringify jwe gen (ws_now s)
         (ws_db s) (ws_hooks s) eventId manifest org))"
| Start: "hook_step env ae s (s\<lparr>ws_workers := ws_workers s @ [start_workflow authSecret i]\<rparr>)"
| Work: "k < length (ws_workers s) \<Longrightarrow> hook_step env ae s (run_worker env reply k s)"
| Requeue: "hook_step env ae s (s\<lparr>ws_hooks := fst (requeue_write (ws_hooks s) i)\<rparr>)"
| Scrub: "hook_step env ae s
    (s\<lparr>ws_writes := ws_writes s @ [Scrub_rows (scrub_ids (session_rows (ws_db s) (ws_hooks s) org sid))]\<rparr>)"
| Sweep: "hook_step env ae s
    (s\<lparr>ws_writes := ws_writes s @ [Sweep_rows (map fst (sweep_rows batch (ws_now s) (ws_db s) (ws_hooks s)))]\<rparr>)"
| Write: "wr \<in> set (ws_writes s) \<Longrightarrow> t \<le> ws_now s \<Longrightarrow> hook_step env ae s (s\<lparr>ws_hooks := apply_write t (ws_hooks s) wr\<rparr>)"
| Admin: "admissible env (ws_hooks s) rq \<Longrightarrow>
    hook_step env ae s (s\<lparr>ws_hooks := handle_admin ae (ws_now s) org (ws_hooks s) rq\<rparr>)"

definition no_hooks :: hooks where
  "no_hooks = \<lparr>hk_endpoints = [], hk_keys = [], hk_deliveries = [], hk_attempts = []\<rparr>"

definition initial_webhooks :: "int \<Rightarrow> db \<Rightarrow> webhooks_state" where
  "initial_webhooks now db =
     \<lparr>ws_now = now, ws_db = db, ws_hooks = no_hooks, ws_workers = [], ws_writes = [], ws_sent = [], ws_created = []\<rparr>"

inductive hook_reachable :: "send_env \<Rightarrow> admin_env \<Rightarrow> webhooks_state \<Rightarrow> bool" for env :: send_env and ae :: admin_env where
  Initially: "hook_reachable env ae (initial_webhooks now db)"
| Next: "hook_reachable env ae s \<Longrightarrow> hook_step env ae s s' \<Longrightarrow> hook_reachable env ae s'"

section \<open>Endpoints and keys\<close>

definition endpoint_ok :: "send_env \<Rightarrow> endpoint \<Rightarrow> bool" where
  "endpoint_ok env e \<longleftrightarrow>
     safeWebhookUrl (se_parse env) (se_loopback env) (we_url e) \<and>
     we_retentionHours e \<in> set WEBHOOK_PAYLOAD_RETENTION_HOUR_OPTIONS \<and>
     (\<exists>tys. we_subscribedEventTypes e = event_types_json tys)"

definition active_keys :: "encryption_key list \<Rightarrow> string \<Rightarrow> encryption_key list" where
  "active_keys ks e = filter (\<lambda>k. wk_isActive k \<and> wk_endpointId k = e) ks"

definition key_ok :: "encryption_key \<Rightarrow> bool" where
  "key_ok k \<longleftrightarrow> (\<exists>e n bs. wk_jwk k = JObj (public_jwk e n) \<and> decodeBase64Url n = Some bs \<and> MIN_RSA_MODULUS_BYTES \<le> length bs)"

definition keys_ok :: "encryption_key list \<Rightarrow> bool" where
  "keys_ok ks \<longleftrightarrow> distinct (map wk_id ks) \<and> (\<forall>e. length (active_keys ks e) \<le> 1) \<and> (\<forall>k \<in> set ks. key_ok k)"

text \<open>Keys that keep their name, endpoint and content, and are active only where they were.\<close>

definition weaker_key :: "(encryption_key \<Rightarrow> encryption_key) \<Rightarrow> bool" where
  "weaker_key f \<longleftrightarrow>
     (\<forall>k. wk_id (f k) = wk_id k \<and> wk_endpointId (f k) = wk_endpointId k \<and> wk_jwk (f k) = wk_jwk k \<and>
          (wk_isActive (f k) \<longrightarrow> wk_isActive k))"

lemma weaker_disabled: "weaker_key (\<lambda>k. if cond k then disabled_key now k else k)"
  by (simp add: weaker_key_def disabled_key_def)

lemma keys_ok_map:
  assumes "keys_ok ks" and "weaker_key f"
  shows "keys_ok (map f ks)"
proof -
  have "length (active_keys (map f ks) e) \<le> length (active_keys ks e)" for e
    using assms(2) by (induction ks) (auto simp: active_keys_def weaker_key_def)
  with assms(1) have "\<forall>e. length (active_keys (map f ks) e) \<le> 1" by (meson keys_ok_def le_trans)
  moreover have "map wk_id (map f ks) = map wk_id ks" using assms(2) by (simp add: weaker_key_def)
  then have "distinct (map wk_id (map f ks))" using assms(1) by (metis keys_ok_def)
  moreover have "key_ok (f k) = key_ok k" for k using assms(2) by (simp add: key_ok_def weaker_key_def)
  then have "\<forall>k \<in> set (map f ks). key_ok k" using assms(1) by (auto simp: keys_ok_def)
  ultimately show ?thesis unfolding keys_ok_def by blast
qed

lemma keys_ok_append:
  assumes "keys_ok ks" and "wk_id row \<notin> wk_id ` set ks" and "active_keys ks (wk_endpointId row) = []" and "key_ok row"
  shows "keys_ok (ks @ [row])"
proof -
  have "length (active_keys (ks @ [row]) e) \<le> 1" for e
    using assms(1,3) by (cases "e = wk_endpointId row") (auto simp: keys_ok_def active_keys_def)
  then show ?thesis using assms by (auto simp: keys_ok_def)
qed

lemma active_after_disable:
  assumes "\<And>k. wk_isActive k \<Longrightarrow> wk_endpointId k = e \<Longrightarrow> cond k"
  shows "active_keys (map (\<lambda>k. if cond k then disabled_key now k else k) ks) e = []"
  using assms by (induction ks) (auto simp: active_keys_def disabled_key_def)

lemma active_keys_elsewhere:
  assumes "\<forall>k \<in> set ks. wk_id k = i \<longrightarrow> wk_endpointId k = e" and "e' \<noteq> e"
  shows "active_keys (map (\<lambda>k. if wk_id k = i then k\<lparr>wk_disabledAt := None, wk_isActive := True\<rparr> else k) ks) e' =
    active_keys ks e'"
  using assms(1)
proof (induction ks)
  case (Cons k ks)
  with assms(2) show ?case by (cases "wk_id k = i") (simp_all add: active_keys_def)
qed (simp add: active_keys_def)

lemma keys_ok_activate:
  assumes "keys_ok ks" and "active_keys ks e = []" and "\<And>k. k \<in> set ks \<Longrightarrow> wk_id k = i \<Longrightarrow> wk_endpointId k = e"
  shows "keys_ok (map (\<lambda>k. if wk_id k = i then k\<lparr>wk_disabledAt := None, wk_isActive := True\<rparr> else k) ks)"
    (is "keys_ok (map ?f ks)")
proof -
  have ids: "map wk_id (map ?f ks) = map wk_id ks" by (simp add: comp_def)
  have other: "active_keys (map ?f ks) e' = active_keys ks e'" if "e' \<noteq> e" for e'
    using assms(3) that by (intro active_keys_elsewhere) auto
  have none: "\<forall>k \<in> set ks. wk_isActive k \<longrightarrow> wk_endpointId k \<noteq> e"
    using assms(2) by (auto simp: active_keys_def filter_empty_conv)
  have d: "distinct (map wk_id ks)" using assms(1) by (simp add: keys_ok_def)
  have "length (active_keys (map ?f ks) e) \<le> length (filter (\<lambda>k. wk_id k = i) ks)"
    using none by (induction ks) (auto simp: active_keys_def)
  also have "\<dots> \<le> 1"
    using d by (induction ks) (auto simp: filter_empty_conv image_iff)
  finally have "length (active_keys (map ?f ks) e') \<le> 1" for e'
    using other assms(1) by (cases "e' = e") (simp_all add: keys_ok_def)
  moreover have "key_ok (?f k) = key_ok k" for k by (simp add: key_ok_def)
  then have "\<forall>k \<in> set (map ?f ks). key_ok k" using assms(1) unfolding set_map keys_ok_def by blast
  moreover have "distinct (map wk_id (map ?f ks))" using d by (simp only: ids)
  ultimately show ?thesis unfolding keys_ok_def by blast
qed

definition directory_ok :: "send_env \<Rightarrow> hooks \<Rightarrow> bool" where
  "directory_ok env hk \<longleftrightarrow> (\<forall>e \<in> set (hk_endpoints hk). endpoint_ok env e) \<and> keys_ok (hk_keys hk)"

lemma endpoint_ok_updates:
  assumes "endpoint_ok env e" and "valid_update_body (se_parse env) (se_loopback env) body"
  shows "endpoint_ok env (apply_updates now body e)"
  using assms by (auto simp: endpoint_ok_def apply_updates_def valid_update_body_def Let_def split: option.splits)

lemma key_requests_keep:
  assumes "keys_ok (hk_keys hk)"
  shows "i \<notin> wk_id ` set (hk_keys hk) \<Longrightarrow>
      keys_ok (hk_keys (fst (createWebhookEncryptionKey imports_ok i now org hk e keyId jwk)))"
    and "keys_ok (hk_keys (fst (deactivateWebhookEncryptionKey now org hk j)))"
    and "keys_ok (hk_keys (fst (reactivateWebhookEncryptionKey now org hk j)))"
proof -
  show "keys_ok (hk_keys (fst (createWebhookEncryptionKey imports_ok i now org hk e keyId jwk)))"
    if new: "i \<notin> wk_id ` set (hk_keys hk)"
  proof (cases "endpoint_of hk org e")
    case None
    with assms show ?thesis by (simp add: createWebhookEncryptionKey_def)
  next
    case (Some ep)
    show ?thesis
    proof (cases "validateWebhookEncryptionPublicJwk imports_ok jwk")
      case (Inl r)
      with Some assms show ?thesis by (simp add: createWebhookEncryptionKey_def)
    next
      case (Inr publicJwk)
      let ?f = "\<lambda>k. if wk_endpointId k = we_id ep then disabled_key now k else k"
      let ?row = "\<lparr>wk_id = i, wk_endpointId = we_id ep, wk_keyId = keyId, wk_jwk = JObj publicJwk,
                   wk_isActive = True, wk_disabledAt = None\<rparr>"
      obtain e' n bs where "publicJwk = public_jwk e' n" "decodeBase64Url n = Some bs" "MIN_RSA_MODULUS_BYTES \<le> length bs"
        by (rule validated_jwk [OF Inr])
      then have "key_ok ?row" by (auto simp: key_ok_def)
      have "active_keys (map ?f (hk_keys hk)) (we_id ep) = []"
        by (rule active_after_disable)
      moreover have "i \<notin> wk_id ` set (map ?f (hk_keys hk))"
        using new by (auto simp: disabled_key_def)
      ultimately have "keys_ok (map ?f (hk_keys hk) @ [?row])"
        by (intro keys_ok_append keys_ok_map [OF assms weaker_disabled] \<open>key_ok ?row\<close>) simp_all
      with Some Inr show ?thesis by (simp add: createWebhookEncryptionKey_def update_keys_def Let_def)
    qed
  qed
  have snd_answer: "fst (answer_key r) = fst r" for r by (cases r; cases "snd r") (auto simp: answer_key_def)
  show "keys_ok (hk_keys (fst (deactivateWebhookEncryptionKey now org hk j)))"
    using assms keys_ok_map [OF assms weaker_disabled]
    by (auto simp: deactivateWebhookEncryptionKey_def deactivateWebhookKey_def update_keys_def Let_def snd_answer split: option.split)
  show "keys_ok (hk_keys (fst (reactivateWebhookEncryptionKey now org hk j)))"
  proof (cases "findWebhookKeyByIdForOrganization hk j org")
    case None
    with assms show ?thesis by (simp add: reactivateWebhookEncryptionKey_def)
  next
    case (Some row)
    let ?f = "\<lambda>k. if wk_endpointId k = wk_endpointId row \<and> wk_isActive k then disabled_key now k else k"
    from Some have row: "row \<in> set (hk_keys hk)" by (auto simp: findWebhookKeyByIdForOrganization_def find_Some_iff)
    have same: "wk_endpointId k = wk_endpointId row" if "k \<in> set (map ?f (hk_keys hk))" "wk_id k = wk_id row" for k
    proof -
      from that(1) obtain k0 where k0: "k0 \<in> set (hk_keys hk)" "k = ?f k0" by auto
      with that(2) have "wk_id k0 = wk_id row" by (auto simp: disabled_key_def split: if_splits)
      with k0 row assms have "k0 = row" by (auto simp: keys_ok_def distinct_map inj_on_def)
      with k0 show ?thesis by (auto simp: disabled_key_def)
    qed
    have "keys_ok (map (\<lambda>k. if wk_id k = wk_id row then k\<lparr>wk_disabledAt := None, wk_isActive := True\<rparr> else k)
        (map ?f (hk_keys hk)))"
      by (rule keys_ok_activate [OF keys_ok_map [OF assms weaker_disabled] active_after_disable]) (auto intro: same)
    with Some show ?thesis
      by (simp add: reactivateWebhookEncryptionKey_def reactivateWebhookKey_def update_keys_def Let_def snd_answer)
  qed
qed

end
