(* ===== verification/Webhook_Invariants.thy ===== *)
theory Webhook_Invariants
  imports Webhook_Machine
begin

text \<open>
  What holds of the webhook tables in every reachable state: of the rows of deliveries, of the
  copies of rows that workers hold between statements, of the requests sent, of endpoints and keys.
\<close>

section \<open>Rows\<close>

text \<open>The longest a payload is kept: the whole schedule of attempts and the longest retention.\<close>

definition RETENTION_LIMIT :: int where
  "RETENTION_LIMIT = WEBHOOK_AUTOMATIC_RETRY_WINDOW_MS + MAX_UNDELIVERED_WEBHOOK_PAYLOAD_RETENTION_HOURS * HOUR_MS"

lemma limit_values [simp]: "RETENTION_LIMIT = 704105000" "WEBHOOK_AUTOMATIC_RETRY_WINDOW_MS = 99305000" "HOUR_MS = 3600000"
  "MAX_UNDELIVERED_WEBHOOK_PAYLOAD_RETENTION_HOURS = 168"
  by (simp_all add: RETENTION_LIMIT_def WEBHOOK_AUTOMATIC_RETRY_WINDOW_MS_def HOUR_MS_def
      MAX_UNDELIVERED_WEBHOOK_PAYLOAD_RETENTION_HOURS_def)

definition payload_ok :: "int \<Rightarrow> (string \<times> string) list \<Rightarrow> string \<Rightarrow> delivery \<Rightarrow> bool" where
  "payload_ok now created i row \<longleftrightarrow>
     wd_id row = i \<and>
     (case wd_payload row of
        None \<Rightarrow> wd_payloadExpiresAt row = None
      | Some p \<Rightarrow> (i, p) \<in> set created \<and> (\<exists>t. wd_payloadExpiresAt row = Some t \<and> t \<le> now + RETENTION_LIMIT))"

definition row_ok :: "int \<Rightarrow> (string \<times> string) list \<Rightarrow> string \<Rightarrow> delivery \<Rightarrow> bool" where
  "row_ok now created i row \<longleftrightarrow>
     payload_ok now created i row \<and>
     (wd_status row = Dl_succeeded \<longrightarrow> wd_payload row = None) \<and>
     (wd_reason row = Some Rt_privacy_request \<longrightarrow> wd_payload row = None \<and> wd_status row = Dl_failed)"

definition rows_ok :: "int \<Rightarrow> (string \<times> string) list \<Rightarrow> hooks \<Rightarrow> bool" where
  "rows_ok now created hk \<longleftrightarrow> (\<forall>(i, row) \<in> set (hk_deliveries hk). row_ok now created i row)"

lemma payload_ok_mono:
  assumes "payload_ok now created i row" and "now \<le> now'" and "set created \<subseteq> set created'"
  shows "payload_ok now' created' i row"
  using assms by (fastforce simp: payload_ok_def split: option.splits)

lemma rows_ok_mono:
  assumes "rows_ok now created hk" and "now \<le> now'" and "set created \<subseteq> set created'"
  shows "rows_ok now' created' hk"
  using assms payload_ok_mono [OF _ assms(2,3)] by (fastforce simp: rows_ok_def row_ok_def)

lemma rows_ok_get: "rows_ok now created hk \<Longrightarrow> jm_get (hk_deliveries hk) i = Some row \<Longrightarrow> row_ok now created i row"
  by (auto simp: rows_ok_def dest: map_of_SomeD)

lemma rows_ok_put:
  assumes "rows_ok now created hk" and "row_ok now created i row"
  shows "rows_ok now created (hk\<lparr>hk_deliveries := jm_set i row (hk_deliveries hk)\<rparr>)"
  using assms set_jm_set [of i row "hk_deliveries hk"] by (fastforce simp: rows_ok_def)

lemma rows_ok_update:
  assumes "rows_ok now created hk"
    and "\<And>row. row_ok now created i row \<Longrightarrow> cond row \<Longrightarrow> row_ok now created i (f row)"
  shows "rows_ok now created (fst (update_delivery hk i cond f))"
  using assms rows_ok_get [OF assms(1)] by (auto simp: update_delivery_def rows_ok_put split: option.split)

lemma rows_ok_updates:
  assumes "rows_ok now created hk" and "\<And>i row. row_ok now created i row \<Longrightarrow> row_ok now created i (f row)"
  shows "rows_ok now created (update_deliveries hk ids f)"
  using assms by (fastforce simp: update_deliveries_def rows_ok_def)

lemma rows_ok_deliveries: "hk_deliveries hk' = hk_deliveries hk \<Longrightarrow> rows_ok now created hk' = rows_ok now created hk"
  by (simp add: rows_ok_def)

lemma insertAttempt_deliveries [simp]: "hk_deliveries (insertAttempt hk i ok code) = hk_deliveries hk"
  by (simp add: insertAttempt_def)

section \<open>The updates of a row\<close>

lemma withdrawn_ok: "row_ok now created i row \<Longrightarrow> row_ok now created i (withdrawn_row t row)"
  by (simp add: row_ok_def payload_ok_def withdrawn_row_def)

lemma expired_ok: "row_ok now created i row \<Longrightarrow> row_ok now created i (expired_row t row)"
  by (simp add: row_ok_def payload_ok_def expired_row_def)

lemma requeued_ok:
  "row_ok now created i row \<Longrightarrow> wd_payload row \<noteq> None \<Longrightarrow> row_ok now created i (requeued_row row)"
  by (auto simp: row_ok_def payload_ok_def requeued_row_def split: option.splits)

lemma claimed_ok:
  "row_ok now created i row \<Longrightarrow> wd_reason row \<noteq> Some Rt_privacy_request \<Longrightarrow>
     row_ok now created i (row\<lparr>wd_status := Dl_delivering\<rparr>)"
  by (auto simp: row_ok_def payload_ok_def split: option.splits)

lemma preflight_ok:
  "row_ok now created i row \<Longrightarrow> wd_status row = Dl_delivering \<Longrightarrow> row_ok now created i (preflight_row t n row)"
  by (auto simp: row_ok_def payload_ok_def preflight_row_def split: option.splits)

lemma recorded_ok:
  "row_ok now created i row \<Longrightarrow> payload_ok now created i snapshot \<Longrightarrow>
     row_ok now created i (recorded_row snapshot t status row)"
  by (auto simp: row_ok_def payload_ok_def recorded_row_def Let_def split: option.splits)

lemma finalized_ok:
  "row_ok now created i row \<Longrightarrow> payload_ok now created i snapshot \<Longrightarrow> hours \<le> 168 \<Longrightarrow>
     row_ok now created i (finalized_row now snapshot hours row)"
  by (auto simp: row_ok_def payload_ok_def finalized_row_def addHours_def Let_def split: option.splits)

section \<open>Workers\<close>

fun pc_ok :: "int \<Rightarrow> (string \<times> string) list \<Rightarrow> string \<Rightarrow> pc \<Rightarrow> bool" where
  "pc_ok now created i (Pc_send _ row _ _) \<longleftrightarrow> payload_ok now created i row \<and> wd_payload row \<noteq> None"
| "pc_ok now created i (Pc_insert row _ _) \<longleftrightarrow> payload_ok now created i row"
| "pc_ok now created i (Pc_record row _ _) \<longleftrightarrow> payload_ok now created i row"
| "pc_ok now created i (Pc_finalize_write row hours) \<longleftrightarrow> payload_ok now created i row \<and> hours \<le> 168"
| "pc_ok _ _ _ _ \<longleftrightarrow> True"

definition worker_ok :: "int \<Rightarrow> (string \<times> string) list \<Rightarrow> worker \<Rightarrow> bool" where
  "worker_ok now created w \<longleftrightarrow> pc_ok now created (ww_delivery w) (ww_pc w)"

definition sent_ok :: "send_env \<Rightarrow> (string \<times> string) list \<Rightarrow> request \<Rightarrow> bool" where
  "sent_ok env created rq \<longleftrightarrow>
     (rq_delivery rq, rq_body rq) \<in> set created \<and>
     (\<exists>text u. parseSafeUrl (se_parse env) text (se_loopback env) Mode_webhook = Inr u \<and> rq_url rq = u_href u)"

lemma worker_ok_mono:
  assumes "worker_ok now created w" and "now \<le> now'" and "set created \<subseteq> set created'"
  shows "worker_ok now' created' w"
  using assms(1) payload_ok_mono [OF _ assms(2,3)] unfolding worker_ok_def by (cases "ww_pc w") auto

lemma plain_pc [simp]:
  "pc_ok now created i (after_check ctx stage)"
  "pc_ok now created i (check_withdrawal db ctx stage)"
  "pc_ok now created i (after_claimed env ctx current)"
  "pc_ok now created i (after_unclaimed current)"
proof -
  show 1: "pc_ok now created i (after_check ctx stage)" by (cases stage) simp_all
  show "pc_ok now created i (check_withdrawal db ctx stage)"
    using check_withdrawal_cases [of db ctx stage] 1 by auto
  show "pc_ok now created i (after_claimed env ctx current)"
    using after_claimed_cases [of env ctx current] by auto
  show "pc_ok now created i (after_unclaimed current)"
    using after_unclaimed_cases [of current] by auto
qed

lemma next_attempt_ok: "worker_ok now created (next_attempt w)"
  by (simp add: worker_ok_def next_attempt_def)

lemma before_send_ok:
  assumes "rows_ok now created hk"
  shows "pc_ok now created i (after_before_send env t ctx (getWebhookDeliveryById hk i))"
  using rows_ok_get [OF assms, of i]
  by (auto simp: after_before_send_def getWebhookDeliveryById_def row_ok_def still_claimed_def has_payload_def
      split: option.splits)

lemma found_endpoint: "find_endpoint hk i = Some e \<Longrightarrow> e \<in> set (hk_endpoints hk)"
  by (auto simp: find_endpoint_def find_Some_iff)

lemma finalize_read_ok:
  assumes "rows_ok now created hk" and "\<forall>e \<in> set (hk_endpoints hk). we_retentionHours e \<le> 168"
  shows "pc_ok now created i (finalize_read db hk i)"
  using rows_ok_get [OF assms(1), of i] assms(2) found_endpoint
  by (fastforce simp: finalize_read_def Let_def row_ok_def getDeliveryAttemptContext_def getWebhookDeliveryById_def
      split: option.splits)

lemma send_ok:
  assumes "payload_ok now created i row" and "wd_payload row \<noteq> None"
    and "sendWebhookDeliveryRequest env t row e ty secret = Inr rq"
  shows "sent_ok env created rq"
proof -
  from assms(3) obtain u where u: "parseSafeUrl (se_parse env) (we_url e) (se_loopback env) Mode_webhook = Inr u"
    and rq: "rq_url rq = u_href u" "rq_body rq = payload_text row" "rq_delivery rq = wd_id row"
    by (auto simp: sendWebhookDeliveryRequest_def split: sum.splits)
  from assms(1,2) rq have "(rq_delivery rq, rq_body rq) \<in> set created"
    by (auto simp: payload_ok_def payload_text_def)
  with u rq(1) show ?thesis by (auto simp: sent_ok_def)
qed

definition directory_limits :: "hooks \<Rightarrow> bool" where
  "directory_limits hk \<longleftrightarrow> (\<forall>e \<in> set (hk_endpoints hk). we_retentionHours e \<le> 168)"

lemma update_delivery_frame [simp]:
  "hk_endpoints (fst (update_delivery hk i cond f)) = hk_endpoints hk"
  "hk_keys (fst (update_delivery hk i cond f)) = hk_keys hk"
  by (simp_all add: update_delivery_def split: option.split)

lemma insertAttempt_keeps:
  assumes "rows_ok now created hk"
  shows "rows_ok now created (insertAttempt hk i ok code)"
    and "hk_endpoints (insertAttempt hk i ok code) = hk_endpoints hk"
    and "hk_keys (insertAttempt hk i ok code) = hk_keys hk"
  using assms by (simp_all add: rows_ok_def insertAttempt_def)

definition step_result_ok ::
  "send_env \<Rightarrow> int \<Rightarrow> (string \<times> string) list \<Rightarrow> hooks \<Rightarrow> hooks \<times> worker \<times> request list \<Rightarrow> bool" where
  "step_result_ok env now created hk r \<longleftrightarrow>
     rows_ok now created (fst r) \<and> worker_ok now created (fst (snd r)) \<and>
     (\<forall>rq \<in> set (snd (snd r)). sent_ok env created rq) \<and>
     hk_endpoints (fst r) = hk_endpoints hk \<and> hk_keys (fst r) = hk_keys hk"

lemma worker_step_keeps:
  assumes "rows_ok now created hk" and "worker_ok now created w" and "directory_limits hk"
  shows "step_result_ok env now created hk (worker_step env now reply db hk w)"
proof -
  have h: "\<forall>e \<in> set (hk_endpoints hk). we_retentionHours e \<le> 168"
    using assms(3) by (simp add: directory_limits_def)
  note defs = worker_step_def step_result_ok_def Let_def worker_ok_def
  show ?thesis
  proof (cases "ww_pc w")
    case Pc_withdraw
    have "rows_ok now created (withdraw_delivery now hk i)" for i
      unfolding withdraw_delivery_def by (rule rows_ok_update [OF assms(1)]) (simp add: withdrawn_ok)
    with Pc_withdraw show ?thesis by (simp add: defs withdraw_delivery_def)
  next
    case (Pc_claim ctx)
    let ?r = "claimPendingWebhookDelivery hk (ww_delivery w)"
    have "rows_ok now created (fst ?r)"
      unfolding claimPendingWebhookDelivery_def by (rule rows_ok_update [OF assms(1)]) (simp add: claimed_ok)
    moreover have "hk_endpoints (fst ?r) = hk_endpoints hk" "hk_keys (fst ?r) = hk_keys hk"
      by (simp_all add: claimPendingWebhookDelivery_def)
    ultimately show ?thesis using Pc_claim by (cases ?r; cases "snd ?r") (simp_all add: defs)
  next
    case (Pc_send ctx row t secret)
    with assms(2) have p: "payload_ok now created (ww_delivery w) row" "wd_payload row \<noteq> None" by (simp_all add: worker_ok_def)
    show ?thesis
    proof (cases "sendWebhookDeliveryRequest env now row (fst ctx) (er_type (snd ctx)) secret")
      case (Inl status)
      with Pc_send p assms(1) show ?thesis by (simp add: defs)
    next
      case (Inr rq)
      with Pc_send p assms(1) send_ok [OF p Inr] show ?thesis by (cases "reply rq") (simp_all add: defs)
    qed
  next
    case (Pc_record row t status)
    with assms(2) have p: "payload_ok now created (ww_delivery w) row" by (simp add: worker_ok_def)
    have "rows_ok now created (record_result hk (ww_delivery w) row t status)"
      unfolding record_result_def by (rule rows_ok_update [OF assms(1)]) (simp add: recorded_ok p)
    with Pc_record show ?thesis by (simp add: defs record_result_def)
  next
    case (Pc_preflight_write n)
    have "rows_ok now created (record_preflight now hk (ww_delivery w) n)"
      unfolding record_preflight_def by (rule rows_ok_update [OF assms(1)]) (simp add: preflight_ok)
    with Pc_preflight_write show ?thesis by (simp add: defs record_preflight_def)
  next
    case (Pc_finalize_write row hours)
    with assms(2) have p: "payload_ok now created (ww_delivery w) row" "hours \<le> 168" by (simp_all add: worker_ok_def)
    have "rows_ok now created (finalize_write now hk (ww_delivery w) row hours)"
      unfolding finalize_write_def by (rule rows_ok_update [OF assms(1)]) (simp add: finalized_ok p)
    with Pc_finalize_write show ?thesis by (simp add: defs finalize_write_def)
  next
    case Pc_threw
    with assms(1) next_attempt_ok [of now created w] show ?thesis by (simp add: defs)
  next
    case Pc_start
    with assms(1) show ?thesis by (simp add: defs split: option.split prod.split)
  next
    case Pc_preflight
    with assms(1) show ?thesis by (simp add: defs split: option.split)
  qed (use assms(1,2) in \<open>simp_all add: defs insertAttempt_keeps before_send_ok finalize_read_ok [OF assms(1) h]\<close>)
qed

section \<open>New deliveries\<close>

text \<open>What creation puts in a row: no payload, or a pending one that expires in time.\<close>

definition new_row_ok :: "int \<Rightarrow> string \<Rightarrow> delivery \<Rightarrow> bool" where
  "new_row_ok now i row \<longleftrightarrow>
     wd_id row = i \<and> wd_status row \<noteq> Dl_succeeded \<and> wd_reason row \<noteq> Some Rt_privacy_request \<and>
     (case wd_payload row of
        None \<Rightarrow> wd_payloadExpiresAt row = None
      | Some p \<Rightarrow> \<exists>t. wd_payloadExpiresAt row = Some t \<and> t \<le> now + RETENTION_LIMIT)"

definition adds_rows :: "int \<Rightarrow> hooks \<Rightarrow> hooks \<times> string list \<Rightarrow> bool" where
  "adds_rows now hk r \<longleftrightarrow>
     (\<forall>(i, row) \<in> set (hk_deliveries (fst r)). (i, row) \<in> set (hk_deliveries hk) \<or> i \<in> set (snd r) \<and> new_row_ok now i row) \<and>
     hk_endpoints (fst r) = hk_endpoints hk \<and> hk_keys (fst r) = hk_keys hk"

lemma adds_rows_refl [simp]: "adds_rows now hk (hk, [])"
  by (auto simp: adds_rows_def)

lemma expiry_in_time: "getPendingPayloadExpiry hours now \<le> now + RETENTION_LIMIT"
  by (simp add: getPendingPayloadExpiry_def Let_def)

lemma failed_row_ok: "reason \<noteq> Rt_privacy_request \<Longrightarrow> new_row_ok now i (failed_row i ev e key reason t)"
  by (simp add: new_row_ok_def failed_row_def)

lemma pending_row_ok: "t \<le> now + RETENTION_LIMIT \<Longrightarrow> new_row_ok now i (pending_row i ev e key p t)"
  by (simp add: new_row_ok_def pending_row_def)

lemma insert_adds:
  assumes "new_row_ok now i row"
  shows "adds_rows now hk (insert_delivery hk row, [i])"
proof -
  from assms have "wd_id row = i" by (simp add: new_row_ok_def)
  with assms set_jm_set [of i row "hk_deliveries hk"] show ?thesis by (auto simp: adds_rows_def insert_delivery_def)
qed

lemma adds_attempt: "adds_rows now hk (hk', ids) \<Longrightarrow> adds_rows now hk (insertAttempt hk' i ok code, ids)"
  by (simp add: adds_rows_def insertAttempt_def)

lemma create_delivery_adds: "adds_rows now hk (create_delivery jwe now ev text ks e i hk, [i])"
  by (auto simp: create_delivery_def split: option.split
      intro!: adds_attempt insert_adds failed_row_ok pending_row_ok expiry_in_time)

lemma adds_trans: "adds_rows now hk (hk1, ids1) \<Longrightarrow> adds_rows now hk1 (hk2, ids2) \<Longrightarrow> adds_rows now hk (hk2, ids1 @ ids2)"
  by (fastforce simp: adds_rows_def)

lemma create_loop_adds: "adds_rows now hk (create_loop jwe now ev text ks gen n es hk)"
proof (induction es arbitrary: n hk)
  case (Cons e es)
  let ?hk = "create_delivery jwe now ev text ks e (gen n) hk"
  obtain hk' ids where r: "create_loop jwe now ev text ks gen (Suc n) es ?hk = (hk', ids)"
    by (cases "create_loop jwe now ev text ks gen (Suc n) es ?hk")
  from Cons [of ?hk "Suc n"] r have "adds_rows now ?hk (hk', ids)" by simp
  from adds_trans [OF create_delivery_adds this] r show ?case by simp
qed simp

lemma create_for_event_adds: "adds_rows now hk (createWebhookDeliveriesForEvent stringify jwe gen now hk ev ty org payload targets)"
  by (simp add: createWebhookDeliveriesForEvent_def Let_def create_loop_adds)

lemma creation_adds:
  "adds_rows now hk (createVerificationSessionWebhookDeliveries stringify jwe gen now db hk call)"
  "adds_rows now hk (createWebhookDeliveriesForVerificationSessionSucceededWithManifest stringify jwe gen now db hk ev manifest org)"
  by (auto simp: createVerificationSessionWebhookDeliveries_def create_for_event_adds
      createWebhookDeliveriesForVerificationSessionSucceededWithManifest_def Let_def split: webhook_kind.split)

lemma add_deliveries_rows:
  assumes "rows_ok now created hk" and "adds_rows now hk r"
  shows "rows_ok now (created @ new_payloads (fst r) (snd r)) (fst r)"
proof -
  have "row_ok now (created @ new_payloads (fst r) (snd r)) i row" if m: "(i, row) \<in> set (hk_deliveries (fst r))" for i row
  proof (cases "(i, row) \<in> set (hk_deliveries hk)")
    case True
    with assms(1) have "row_ok now created i row" by (auto simp: rows_ok_def)
    then show ?thesis using payload_ok_mono [of now created i row now] by (auto simp: row_ok_def)
  next
    case False
    with assms(2) m have n: "i \<in> set (snd r)" "new_row_ok now i row" by (auto simp: adds_rows_def)
    have "(i, p) \<in> set (new_payloads (fst r) (snd r))" if "wd_payload row = Some p" for p
      using m n(1) that by (force simp: new_payloads_def List.map_filter_def image_iff split: option.splits if_splits)
    with n(2) show ?thesis by (auto simp: row_ok_def payload_ok_def new_row_ok_def split: option.splits)
  qed
  then show ?thesis by (auto simp: rows_ok_def)
qed

section \<open>Requests on endpoints\<close>

lemma answer_key_fst: "fst (answer_key r) = fst r"
  by (cases r; cases "snd r") (auto simp: answer_key_def)

lemma admin_rows:
  assumes "rows_ok now created hk"
  shows "rows_ok now created (handle_admin ae t org hk rq)"
proof -
  have same: "hk_deliveries hk' = hk_deliveries hk \<Longrightarrow> rows_ok now created hk'" for hk'
    using assms by (simp add: rows_ok_def)
  show ?thesis
  proof (cases rq)
    case (Delete_endpoint accepted i)
    with assms show ?thesis
      by (auto simp: handle_admin_def deleteWebhookEndpoint_def rows_ok_def split: option.split)
  qed (auto intro!: same simp: handle_admin_def createWebhookEndpoint_def updateWebhookEndpoint_def update_endpoint_def
      rotateWebhookEndpointSigningSecret_def createWebhookEncryptionKey_def update_keys_def deactivateWebhookEncryptionKey_def
      deactivateWebhookKey_def reactivateWebhookEncryptionKey_def reactivateWebhookKey_def answer_key_fst Let_def
      split: option.split sum.split)
qed

lemma create_endpoint_ok:
  assumes "valid_create_body (se_parse env) (se_loopback env) body"
  shows "endpoint_ok env (fst (snd (createWebhookEndpoint encrypt i secret now org hk body)))"
  using assms by (auto simp: createWebhookEndpoint_def endpoint_ok_def valid_create_body_def Let_def)

lemma admin_directory:
  assumes "directory_ok env hk" and "admissible env hk rq"
  shows "directory_ok env (handle_admin ae now org hk rq)"
proof -
  have e: "\<forall>e \<in> set (hk_endpoints hk). endpoint_ok env e" and k: "keys_ok (hk_keys hk)"
    using assms(1) by (simp_all add: directory_ok_def)
  show ?thesis
  proof (cases rq)
    case (Create_endpoint i secret body)
    with assms(2) have "valid_create_body (se_parse env) (se_loopback env) body" by (simp add: admissible_def)
    from create_endpoint_ok [OF this, of "ae_encrypt ae" i secret now org hk] Create_endpoint e k show ?thesis
      by (auto simp: handle_admin_def directory_ok_def createWebhookEndpoint_def Let_def)
  next
    case (Update_endpoint i body)
    with assms(2) have v: "valid_update_body (se_parse env) (se_loopback env) body" by (simp add: admissible_def)
    from Update_endpoint e k show ?thesis
      by (auto simp: handle_admin_def directory_ok_def updateWebhookEndpoint_def update_endpoint_def Let_def
          endpoint_ok_updates [OF _ v] split: option.split)
  next
    case (Delete_endpoint accepted i)
    have "keys_ok (filter (\<lambda>k. wk_endpointId k \<noteq> i) (hk_keys hk))"
    proof -
      have "length (active_keys (filter (\<lambda>k. wk_endpointId k \<noteq> i) ks) e) \<le> length (active_keys ks e)" for ks e
        by (induction ks) (auto simp: active_keys_def)
      then show ?thesis using k by (auto simp: keys_ok_def distinct_map_filter intro: le_trans)
    qed
    with Delete_endpoint e k show ?thesis
      by (auto simp: handle_admin_def directory_ok_def deleteWebhookEndpoint_def split: option.split)
  next
    case (Rotate_secret i secret)
    with e k show ?thesis
      by (auto simp: handle_admin_def directory_ok_def rotateWebhookEndpointSigningSecret_def update_endpoint_def endpoint_ok_def
          split: option.split)
  next
    case (Create_key i ep keyId jwk)
    with assms(2) have "i \<notin> wk_id ` set (hk_keys hk)" by (simp add: admissible_def)
    from key_requests_keep(1) [OF k this] have "keys_ok (hk_keys (handle_admin ae now org hk rq))"
      by (simp add: Create_key handle_admin_def)
    moreover have "hk_endpoints (handle_admin ae now org hk rq) = hk_endpoints hk"
      by (simp add: Create_key handle_admin_def createWebhookEncryptionKey_def update_keys_def Let_def split: option.split sum.split)
    ultimately show ?thesis using e by (simp add: directory_ok_def)
  next
    case (Deactivate_key i)
    with key_requests_keep(2) [OF k, of now org i] e show ?thesis
      by (simp add: handle_admin_def directory_ok_def deactivateWebhookEncryptionKey_def deactivateWebhookKey_def update_keys_def
          answer_key_fst Let_def split: option.split)
  next
    case (Reactivate_key i)
    with key_requests_keep(3) [OF k, of now org i] e show ?thesis
      by (simp add: handle_admin_def directory_ok_def reactivateWebhookEncryptionKey_def reactivateWebhookKey_def update_keys_def
          answer_key_fst Let_def split: option.split)
  qed
qed

section \<open>Reachable states\<close>

definition webhooks_ok :: "send_env \<Rightarrow> webhooks_state \<Rightarrow> bool" where
  "webhooks_ok env s \<longleftrightarrow>
     rows_ok (ws_now s) (ws_created s) (ws_hooks s) \<and> (\<forall>w \<in> set (ws_workers s). worker_ok (ws_now s) (ws_created s) w) \<and>
     (\<forall>rq \<in> set (ws_sent s). sent_ok env (ws_created s) rq) \<and> directory_ok env (ws_hooks s)"

lemma sent_ok_mono: "sent_ok env created rq \<Longrightarrow> set created \<subseteq> set created' \<Longrightarrow> sent_ok env created' rq"
  by (auto simp: sent_ok_def)

lemma directory_in_limits: "directory_ok env hk \<Longrightarrow> directory_limits hk"
  by (auto simp: directory_ok_def directory_limits_def endpoint_ok_def WEBHOOK_PAYLOAD_RETENTION_HOUR_OPTIONS_def)

lemma directory_same:
  "directory_ok env hk \<Longrightarrow> hk_endpoints hk' = hk_endpoints hk \<Longrightarrow> hk_keys hk' = hk_keys hk \<Longrightarrow> directory_ok env hk'"
  by (simp add: directory_ok_def)

lemma added_ok:
  assumes "webhooks_ok env s" and "adds_rows (ws_now s) (ws_hooks s) r"
  shows "webhooks_ok env (add_deliveries s r)"
proof -
  have "directory_ok env (fst r)"
    by (rule directory_same [of env "ws_hooks s"]) (use assms in \<open>auto simp: webhooks_ok_def adds_rows_def\<close>)
  moreover have "rows_ok (ws_now s) (ws_created s @ new_payloads (fst r) (snd r)) (fst r)"
    by (rule add_deliveries_rows [OF _ assms(2)]) (use assms(1) in \<open>simp add: webhooks_ok_def\<close>)
  ultimately show ?thesis
    using assms(1) by (auto simp: webhooks_ok_def add_deliveries_def intro: worker_ok_mono sent_ok_mono)
qed

lemma step_keeps_ok:
  assumes "hook_step env ae s s'" and "webhooks_ok env s"
  shows "webhooks_ok env s'"
  using assms
proof (cases rule: hook_step.cases)
  case (Tick t)
  with assms(2) show ?thesis
    by (auto simp: webhooks_ok_def intro: rows_ok_mono worker_ok_mono)
next
  case (Sessions db)
  with assms(2) show ?thesis by (simp add: webhooks_ok_def)
next
  case (Ended gen stringify jwe call)
  with assms(2) show ?thesis by (simp add: added_ok creation_adds)
next
  case (Succeeded gen stringify jwe eventId manifest org)
  with assms(2) show ?thesis by (simp add: added_ok creation_adds)
next
  case (Start authSecret i)
  have "worker_ok now created (start_workflow authSecret i)" for now created
    by (auto simp: start_workflow_def worker_ok_def split: option.split list.split)
  with Start assms(2) show ?thesis by (auto simp: webhooks_ok_def)
next
  case (Work k reply)
  let ?r = "worker_step env (ws_now s) reply (ws_db s) (ws_hooks s) (ws_workers s ! k)"
  obtain hk w rqs where r: "?r = (hk, w, rqs)" by (cases ?r)
  from assms(2) Work(2) have "step_result_ok env (ws_now s) (ws_created s) (ws_hooks s) ?r"
    by (intro worker_step_keeps) (auto simp: webhooks_ok_def directory_in_limits)
  with r assms(2) Work(1) directory_same [of env "ws_hooks s" hk] show ?thesis
    by (auto simp: webhooks_ok_def run_worker_def step_result_ok_def dest!: set_update_subset_insert [THEN subsetD])
next
  case (Requeue i)
  have "rows_ok (ws_now s) (ws_created s) (fst (requeue_write (ws_hooks s) i))"
    unfolding requeue_write_def
    by (rule rows_ok_update) (use assms(2) in \<open>auto simp: webhooks_ok_def requeued_ok\<close>)
  with Requeue assms(2) show ?thesis
    by (auto simp: webhooks_ok_def requeue_write_def elim: directory_same)
next
  case (Scrub org sid)
  with assms(2) show ?thesis by (simp add: webhooks_ok_def)
next
  case (Sweep batch)
  with assms(2) show ?thesis by (simp add: webhooks_ok_def)
next
  case (Write wr t)
  have "rows_ok (ws_now s) (ws_created s) (apply_write t (ws_hooks s) wr)"
    using assms(2)
    by (auto simp: webhooks_ok_def apply_write_def scrub_write_def sweep_write_def withdrawn_ok expired_ok
        intro: rows_ok_updates split: pending_write.split)
  moreover have "directory_ok env (apply_write t (ws_hooks s) wr)"
    by (rule directory_same [of env "ws_hooks s"])
      (use assms(2) in \<open>auto simp: webhooks_ok_def apply_write_def scrub_write_def sweep_write_def update_deliveries_def
        split: pending_write.split\<close>)
  ultimately show ?thesis using Write assms(2) by (simp add: webhooks_ok_def)
next
  case (Admin rq org)
  with assms(2) show ?thesis by (simp add: webhooks_ok_def admin_rows admin_directory)
qed

lemma reachable_ok: "hook_reachable env ae s \<Longrightarrow> webhooks_ok env s"
proof (induction rule: hook_reachable.induct)
  case (Initially now db)
  then show ?case
    by (simp add: webhooks_ok_def initial_webhooks_def no_hooks_def rows_ok_def directory_ok_def keys_ok_def active_keys_def)
next
  case (Next s s')
  then show ?case by (blast intro: step_keeps_ok)
qed

end
