(* ===== verification/Webhook_Runs.thy ===== *)
theory Webhook_Runs
  imports Webhook_Invariants
begin

text \<open>
  A workflow that nobody disturbs: each attempt takes eleven statements, the workflow at most 106.
  The clock and the reply depend on the number of the attempt.
\<close>

fun run_workflow ::
  "send_env \<Rightarrow> (nat \<Rightarrow> int) \<Rightarrow> (nat \<Rightarrow> request \<Rightarrow> nat option) \<Rightarrow> db \<Rightarrow> nat \<Rightarrow> hooks \<Rightarrow> worker \<Rightarrow>
     hooks \<times> worker \<times> request list" where
  "run_workflow env clock reply db 0 hk w = (hk, w, [])"
| "run_workflow env clock reply db (Suc n) hk w =
     (let (hk1, w1, sent1) = worker_step env (clock (ww_attempt w)) (reply (ww_attempt w)) db hk w;
          (hk2, w2, sent2) = run_workflow env clock reply db n hk1 w1
      in (hk2, w2, sent1 @ sent2))"

lemma run_workflow_add:
  "run_workflow env clock reply db (m + n) hk w =
     (let (hk1, w1, sent1) = run_workflow env clock reply db m hk w;
          (hk2, w2, sent2) = run_workflow env clock reply db n hk1 w1
      in (hk2, w2, sent1 @ sent2))"
proof (induction m arbitrary: hk w)
  case (Suc m)
  obtain hk1 w1 sent1 where s: "worker_step env (clock (ww_attempt w)) (reply (ww_attempt w)) db hk w = (hk1, w1, sent1)"
    by (cases "worker_step env (clock (ww_attempt w)) (reply (ww_attempt w)) db hk w")
  obtain hk2 w2 sent2 where r: "run_workflow env clock reply db m hk1 w1 = (hk2, w2, sent2)"
    by (cases "run_workflow env clock reply db m hk1 w1")
  show ?case using Suc [of hk1 w1] by (simp add: s r split: prod.split)
qed simp

lemma run_done: "ww_pc w = Pc_done \<Longrightarrow> run_workflow env clock reply db n hk w = (hk, w, [])"
  by (induction n) (simp_all add: worker_step_def)

section \<open>One attempt\<close>

text \<open>A delivery that can be attempted: \<open>e\<close>, \<open>ev\<close>, \<open>secret\<close> and \<open>u\<close> are what the attempt finds.\<close>

definition deliverable ::
  "send_env \<Rightarrow> db \<Rightarrow> hooks \<Rightarrow> string \<Rightarrow> delivery \<Rightarrow> endpoint \<Rightarrow> event_row \<Rightarrow> nat list \<Rightarrow> url \<Rightarrow> bool" where
  "deliverable env db hk i row e ev secret u \<longleftrightarrow>
     jm_get (hk_deliveries hk) i = Some row \<and> wd_status row = Dl_pending \<and> has_payload row \<and>
     wd_reason row \<noteq> Some Rt_privacy_request \<and>
     find_event db (wd_eventId row) = Some ev \<and> find_endpoint hk (wd_endpointId row) = Some e \<and> we_enabled e \<and>
     resolveEndpointSigningSecret (se_decrypt env) e = Some secret \<and> secret \<noteq> [] \<and>
     (er_type ev = Ev_session_cancelled \<or> \<not> is_withdrawn db ev) \<and>
     parseSafeUrl (se_parse env) (we_url e) (se_loopback env) Mode_webhook = Inr u"

definition put_row :: "hooks \<Rightarrow> string \<Rightarrow> delivery \<Rightarrow> hooks" where
  "put_row hk i row = hk\<lparr>hk_deliveries := jm_set i row (hk_deliveries hk)\<rparr>"

lemma put_row_simps [simp]:
  "jm_get (hk_deliveries (put_row hk i row)) i = Some row" "hk_endpoints (put_row hk i row) = hk_endpoints hk"
  "find_endpoint (put_row hk i row) e = find_endpoint hk e"
  "hk_deliveries (put_row hk i row) = jm_set i row (hk_deliveries hk)"
  by (simp_all add: put_row_def jsmap_simps find_endpoint_def)

lemma insertAttempt_simps [simp]:
  "find_endpoint (insertAttempt hk i ok code) e = find_endpoint hk e"
  by (simp add: insertAttempt_def find_endpoint_def)

text \<open>The attempt's row between claim and record, and its request.\<close>

definition claimed_row :: "delivery \<Rightarrow> delivery" where
  "claimed_row row = row\<lparr>wd_status := Dl_delivering\<rparr>"

lemma claimed_row_simps [simp]:
  "has_payload (claimed_row row) = has_payload row" "wd_payload (claimed_row row) = wd_payload row"
  "wd_status (claimed_row row) = Dl_delivering" "wd_reason (claimed_row row) = wd_reason row"
  "wd_eventId (claimed_row row) = wd_eventId row" "wd_endpointId (claimed_row row) = wd_endpointId row"
  "wd_id (claimed_row row) = wd_id row" "payload_text (claimed_row row) = payload_text row"
  "wd_attemptCount (claimed_row row) = wd_attemptCount row"
  by (simp_all add: claimed_row_def has_payload_def payload_text_def)

definition attempt_request :: "send_env \<Rightarrow> int \<Rightarrow> delivery \<Rightarrow> event_row \<Rightarrow> nat list \<Rightarrow> url \<Rightarrow> request" where
  "attempt_request env now row ev secret u =
     \<lparr>rq_url = u_href u, rq_body = payload_text row, rq_delivery = wd_id row, rq_event = er_type ev,
      rq_signature = createWebhookSignatureHeader (se_hmac env) (payload_text row) (map char_of secret) (nat (now div 1000))\<rparr>"

definition attempted_hooks :: "hooks \<Rightarrow> string \<Rightarrow> delivery \<Rightarrow> int \<Rightarrow> nat \<Rightarrow> hooks" where
  "attempted_hooks hk i row now status =
     put_row (insertAttempt (put_row hk i (claimed_row row)) i (response_ok status) (Some status)) i
       (recorded_row (claimed_row row) now status (claimed_row row))"

lemma check_passes:
  "er_type ev = Ev_session_cancelled \<or> \<not> is_withdrawn db ev \<Longrightarrow> check_withdrawal db (e, ev) stage = after_check (e, ev) stage"
  by (auto simp: check_withdrawal_def)

lemma attempt_runs:
  assumes d: "deliverable env db hk i row e ev secret u"
    and w: "ww_delivery w = i" "ww_pc w = Pc_start"
    and reply: "reply (ww_attempt w) (attempt_request env (clock (ww_attempt w)) row ev secret u) = Some status"
  shows "run_workflow env clock reply db 10 hk w =
    (attempted_hooks hk i row (clock (ww_attempt w)) status,
     w\<lparr>ww_pc := if response_ok status then Pc_returned else Pc_threw\<rparr>,
     [attempt_request env (clock (ww_attempt w)) row ev secret u])"
proof -
  let ?now = "clock (ww_attempt w)" and ?hk = "put_row hk i (claimed_row row)"
  have g: "jm_get (hk_deliveries hk) i = Some row" "wd_status row = Dl_pending" "has_payload row"
      "wd_reason row \<noteq> Some Rt_privacy_request" "find_event db (wd_eventId row) = Some ev"
      "find_endpoint hk (wd_endpointId row) = Some e" "we_enabled e"
      "resolveEndpointSigningSecret (se_decrypt env) e = Some secret" "secret \<noteq> []"
      "er_type ev = Ev_session_cancelled \<or> \<not> is_withdrawn db ev"
      "parseSafeUrl (se_parse env) (we_url e) (se_loopback env) Mode_webhook = Inr u"
    using d by (simp_all add: deliverable_def)
  from g(3) have p: "wd_payload row \<noteq> None" by (auto simp: has_payload_def split: option.splits)
  have ctx: "getDeliveryAttemptContext db hk i = Some (row, e, ev)"
    by (simp add: getDeliveryAttemptContext_def getWebhookDeliveryById_def g)
  have claim: "claimPendingWebhookDelivery hk i = (?hk, Some (claimed_row row))"
    using p by (simp add: claimPendingWebhookDelivery_def update_delivery_def g put_row_def claimed_row_def)
  have found: "getWebhookDeliveryById ?hk i = Some (claimed_row row)"
    by (simp add: getWebhookDeliveryById_def put_row_def jsmap_simps)
  have claimed: "still_claimed (Some (claimed_row row))" by (simp add: still_claimed_def g)
  obtain c cs where secret: "secret = c # cs" using g(9) by (cases secret) auto
  have "after_claimed env (e, ev) (Some (claimed_row row)) = Pc_check (e, ev) Before_send"
    using claimed g(7,8) by (simp add: after_claimed_def secret)
  moreover have "after_before_send env ?now (e, ev) (Some (claimed_row row)) = Pc_send (e, ev) (claimed_row row) ?now secret"
    using claimed g(8) by (simp add: after_before_send_def)
  moreover have "sendWebhookDeliveryRequest env ?now (claimed_row row) e (er_type ev) secret =
      Inr (attempt_request env ?now row ev secret u)"
    by (simp add: sendWebhookDeliveryRequest_def attempt_request_def g(11))
  moreover have "record_result (insertAttempt ?hk i (response_ok status) (Some status)) i (claimed_row row) ?now status =
      attempted_hooks hk i row ?now status"
    by (simp add: record_result_def update_delivery_def attempted_hooks_def put_row_def insertAttempt_def jsmap_simps)
  ultimately show ?thesis
    using reply ctx claim found check_passes [OF g(10)]
    by (simp add: numeral_eq_Suc worker_step_def w Let_def)
qed

section \<open>The workflow\<close>

lemma failed_attempt_deliverable:
  assumes "deliverable env db hk i row e ev secret u" and "\<not> response_ok status"
  shows "deliverable env db (attempted_hooks hk i row now status) i
    (recorded_row (claimed_row row) now status (claimed_row row)) e ev secret u"
  using assms
  by (simp add: deliverable_def attempted_hooks_def recorded_row_def has_payload_def jsmap_simps Let_def)

text \<open>What the workflow leaves: the first good reply of the attempts, or the final failure.\<close>

definition outcome_row ::
  "(nat \<Rightarrow> int) \<Rightarrow> (nat \<Rightarrow> nat) \<Rightarrow> int \<Rightarrow> nat \<Rightarrow> delivery \<Rightarrow> delivery \<Rightarrow> nat \<Rightarrow> bool" where
  "outcome_row clock status hours n row row' sent \<longleftrightarrow>
     (case find (\<lambda>k. response_ok (status k)) [n..<Suc MAX_DELIVERY_ATTEMPTS] of
        Some k \<Rightarrow>
          sent = Suc k - n \<and> wd_status row' = Dl_succeeded \<and> wd_payload row' = None \<and> wd_payloadExpiresAt row' = None \<and>
          wd_attemptCount row' = wd_attemptCount row + (Suc k - n) \<and> wd_lastStatusCode row' = Some (status k)
      | None \<Rightarrow>
          sent = Suc MAX_DELIVERY_ATTEMPTS - n \<and> wd_status row' = Dl_failed \<and>
          wd_attemptCount row' = wd_attemptCount row + (Suc MAX_DELIVERY_ATTEMPTS - n) \<and>
          wd_payload row' = (if hours = 0 then None else wd_payload row) \<and>
          wd_payloadExpiresAt row' = (if hours = 0 then None else Some (addHours (clock MAX_DELIVERY_ATTEMPTS) hours)))"

lemma attempts_8 [simp]: "MAX_DELIVERY_ATTEMPTS = 8"
  by (simp add: MAX_DELIVERY_ATTEMPTS_def WEBHOOK_DELIVERY_RETRY_SCHEDULE_def)

lemma finalize_runs:
  assumes "deliverable env db hk i row e ev secret u" and "ww_delivery w = i" and "ww_pc w = Pc_finalize"
  shows "run_workflow env clock reply db (2 + f) hk w =
    (put_row hk i (finalized_row (clock (ww_attempt w)) row (we_retentionHours e) row), w\<lparr>ww_pc := Pc_done\<rparr>, [])"
proof -
  have "finalize_read db hk i = Pc_finalize_write row (we_retentionHours e)"
    using assms(1) by (simp add: finalize_read_def deliverable_def getDeliveryAttemptContext_def getWebhookDeliveryById_def)
  moreover have "finalize_write t hk i row h = put_row hk i (finalized_row t row h row)" for t h
    using assms(1) by (simp add: finalize_write_def deliverable_def update_delivery_def put_row_def)
  ultimately show ?thesis
    using assms(2,3) run_done [of "w\<lparr>ww_pc := Pc_done\<rparr>"] by (simp add: worker_step_def Let_def)
qed

definition workflow_ends ::
  "send_env \<Rightarrow> (nat \<Rightarrow> int) \<Rightarrow> (nat \<Rightarrow> nat) \<Rightarrow> string \<Rightarrow> delivery \<Rightarrow> endpoint \<Rightarrow> url \<Rightarrow> nat \<Rightarrow>
     hooks \<times> worker \<times> request list \<Rightarrow> bool" where
  "workflow_ends env clock status i row e u n r \<longleftrightarrow>
     (case r of (hk, w, rqs) \<Rightarrow>
        ww_pc w = Pc_done \<and> (\<forall>rq \<in> set rqs. rq_body rq = payload_text row \<and> rq_url rq = u_href u) \<and>
        (\<exists>row'. jm_get (hk_deliveries hk) i = Some row' \<and>
                outcome_row clock status (we_retentionHours e) n row row' (length rqs)))"

lemma recorded_fields:
  "payload_text (recorded_row (claimed_row row) t st r) = (if response_ok st then [] else payload_text row)"
  "\<not> response_ok st \<Longrightarrow> wd_payload (recorded_row (claimed_row row) t st r) = wd_payload row"
  "wd_attemptCount (recorded_row (claimed_row row) t st r) = Suc (wd_attemptCount row)"
  by (simp_all add: recorded_row_def payload_text_def Let_def)

lemma workflow_runs:
  assumes "deliverable env db hk i row e ev secret u" and "\<And>n rq. reply n rq = Some (status n)"
    and "ww_delivery w = i" and "ww_pc w = Pc_start" and "ww_attempt w + m = 8" and "11 * m + 13 \<le> f"
  shows "workflow_ends env clock status i row e u (ww_attempt w) (run_workflow env clock reply db f hk w)"
  using assms
proof (induction m arbitrary: hk row w f)
  case 0
  let ?n = "ww_attempt w" let ?st = "status ?n" let ?hk = "attempted_hooks hk i row (clock ?n) ?st"
  let ?row = "recorded_row (claimed_row row) (clock ?n) ?st (claimed_row row)"
  from 0 have n: "?n = 8" by simp
  obtain g where f: "f = 10 + (1 + (2 + g))" by (rule that [of "f - 13"]) (use 0(6) in auto)
  note run = attempt_runs [OF 0(1) 0(3) 0(4) 0(2)]
  show ?case
  proof (cases "response_ok ?st")
    case True
    then show ?thesis unfolding f run_workflow_add [of env clock reply db 10] run
      by (simp add: worker_step_def run_done workflow_ends_def outcome_row_def n attempted_hooks_def jsmap_simps
          recorded_row_def attempt_request_def Let_def)
  next
    case False
    have "deliverable env db ?hk i ?row e ev secret u" by (rule failed_attempt_deliverable [OF 0(1) False])
    from finalize_runs [OF this, of "w\<lparr>ww_pc := Pc_finalize\<rparr>" clock reply g] 0(3)
    have fin: "run_workflow env clock reply db (2 + g) ?hk (w\<lparr>ww_pc := Pc_finalize\<rparr>) =
        (put_row ?hk i (finalized_row (clock ?n) ?row (we_retentionHours e) ?row), w\<lparr>ww_pc := Pc_done\<rparr>, [])" by simp
    have "next_attempt (w\<lparr>ww_pc := Pc_threw\<rparr>) = w\<lparr>ww_pc := Pc_finalize\<rparr>" by (simp add: next_attempt_def n)
    then have "run_workflow env clock reply db (1 + (2 + g)) ?hk (w\<lparr>ww_pc := Pc_threw\<rparr>) =
        run_workflow env clock reply db (2 + g) ?hk (w\<lparr>ww_pc := Pc_finalize\<rparr>)"
      by (simp add: worker_step_def split: prod.split)
    with False fin 0(1) show ?thesis unfolding f run_workflow_add [of env clock reply db 10] run
      by (auto simp: workflow_ends_def outcome_row_def n finalized_row_def recorded_fields attempt_request_def
          deliverable_def has_payload_def Let_def jsmap_simps split: option.splits)
  qed
next
  case (Suc m)
  let ?n = "ww_attempt w" let ?st = "status ?n" let ?hk = "attempted_hooks hk i row (clock ?n) ?st"
  let ?row = "recorded_row (claimed_row row) (clock ?n) ?st (claimed_row row)"
  from Suc.prems have n: "?n < 8" by simp
  obtain g where f: "f = 10 + Suc g" and g: "11 * m + 13 \<le> g"
    by (rule that [of "f - 11"]) (use Suc.prems in auto)
  note run = attempt_runs [OF Suc.prems(1,3,4,2)]
  have upt: "[?n..<9] = ?n # [Suc ?n..<9]" using n by (simp add: upt_conv_Cons)
  show ?case
  proof (cases "response_ok ?st")
    case True
    then show ?thesis unfolding f run_workflow_add [of env clock reply db 10] run
      by (simp add: worker_step_def run_done workflow_ends_def outcome_row_def upt attempted_hooks_def jsmap_simps
          recorded_row_def attempt_request_def Let_def)
  next
    case False
    let ?w = "w\<lparr>ww_attempt := Suc ?n, ww_pc := Pc_start\<rparr>"
    obtain hk' w' rqs where r: "run_workflow env clock reply db g ?hk ?w = (hk', w', rqs)"
      by (cases "run_workflow env clock reply db g ?hk ?w")
    have "workflow_ends env clock status i ?row e u (ww_attempt ?w) (run_workflow env clock reply db g ?hk ?w)"
      by (rule Suc.IH [OF failed_attempt_deliverable [OF Suc.prems(1) False] Suc.prems(2)]) (use Suc.prems g in auto)
    then have ih: "workflow_ends env clock status i ?row e u (Suc ?n) (hk', w', rqs)" by (simp add: r)
    have "next_attempt (w\<lparr>ww_pc := Pc_threw\<rparr>) = ?w" using n by (simp add: next_attempt_def)
    then have next_run: "run_workflow env clock reply db (Suc g) ?hk (w\<lparr>ww_pc := Pc_threw\<rparr>) = (hk', w', rqs)"
      by (simp add: worker_step_def r)
    have "find (\<lambda>k. response_ok (status k)) [?n..<9] = find (\<lambda>k. response_ok (status k)) [Suc ?n..<9]"
      using False by (simp add: upt)
    moreover have "Suc ?n \<le> k" if "find (\<lambda>k. response_ok (status k)) [Suc ?n..<9] = Some k" for k
      using that by (auto simp: find_Some_iff)
    ultimately show ?thesis using False ih n unfolding f run_workflow_add [of env clock reply db 10] run
      by (auto simp: next_run workflow_ends_def outcome_row_def recorded_fields attempt_request_def simp del: run_workflow.simps
          split: option.splits)
  qed
qed

end
