(* ===== verification/Webhook_Guarantees.thy ===== *)
theory Webhook_Guarantees
  imports Webhook_Runs Crypto_Bytes
begin

text \<open>
  What the webhook service promises: where payloads go and how long they stay, the keys that
  encrypt them, the end of every workflow and its outcome, one delivery per subscriber; and two
  places where it does less than it means to.
\<close>

section \<open>A run\<close>

text \<open>An endpoint with a key, one delivery, and a worker that sends it.\<close>

definition hook_env :: send_env where
  "hook_env =
     \<lparr>se_parse = (\<lambda>s. if s = ''https://a.example/h''
        then Some \<lparr>u_protocol = ''https:'', u_hostname = ''a.example'', u_username = [], u_password = [], u_href = s\<rparr> else None),
      se_loopback = False, se_decrypt = (\<lambda>_. Inr [115]), se_hmac = (\<lambda>_ _. [1])\<rparr>"

definition hook_admin :: admin_env where
  "hook_admin = \<lparr>ae_imports = (\<lambda>_. True), ae_encrypt = (\<lambda>s. ''iv.ct'')\<rparr>"

definition hook_event :: event_row where
  "hook_event = \<lparr>er_id = ''ev'', er_org = ''o'', er_type = Ev_session_expired, er_trigger = ''s''\<rparr>"

definition hook_endpoint :: endpoint where
  "hook_endpoint =
     \<lparr>we_id = ''we'', we_org = ''o'', we_name = None, we_labels = JArr [], we_url = ''https://a.example/h'',
      we_enabled = True, we_subscribedEventTypes = event_types_json SUPPORTED_WEBHOOK_EVENT_TYPES, we_retentionHours = 72,
      we_signingSecret = Some ''iv.ct'', we_disabledAt = None\<rparr>"

definition hook_url :: url where
  "hook_url =
     \<lparr>u_protocol = ''https:'', u_hostname = ''a.example'', u_username = [], u_password = [], u_href = ''https://a.example/h''\<rparr>"

definition hook_db :: db where
  "hook_db = \<lparr>db_sessions = [], db_events = [hook_event],
              db_audit = [], db_consents = [], db_webhooks = []\<rparr>"

definition hook_jwk :: jwk_fields where
  "hook_jwk = [(''kty'', JStr ''RSA''), (''n'', JStr (encodeBase64Url (replicate 256 1))), (''e'', JStr ''AQAB'')]"

definition hook_body :: create_body where
  "hook_body = \<lparr>cb_name = None, cb_labels = None, cb_url = ''https://a.example/h'', cb_enabled = None,
                cb_subscribedEventTypes = None, cb_retentionHours = 72\<rparr>"

definition hook_gen :: "nat \<Rightarrow> string" where "hook_gen n = CHR ''d'' # replicate n CHR ''x''"

definition hook_call :: webhook_call where
  "hook_call = \<lparr>wc_kind = Wh_expired, wc_eventId = ''ev'', wc_org = ''o'', wc_session = ''s'', wc_version = 1\<rparr>"

definition listed_state :: webhooks_state where
  "listed_state =
     (let s0 = initial_webhooks 0 hook_db;
          s1 = s0\<lparr>ws_hooks := handle_admin hook_admin (ws_now s0) ''o'' (ws_hooks s0) (Create_endpoint ''we'' ''s'' hook_body)\<rparr>
      in s1\<lparr>ws_hooks := handle_admin hook_admin (ws_now s1) ''o'' (ws_hooks s1) (Create_key ''wk'' ''we'' ''k'' hook_jwk)\<rparr>)"

definition queued_state :: webhooks_state where
  "queued_state =
     add_deliveries listed_state
       (createVerificationSessionWebhookDeliveries (\<lambda>_. ''{}'') (\<lambda>_ _. Some ''jwe'') hook_gen (ws_now listed_state)
          (ws_db listed_state) (ws_hooks listed_state) hook_call)"

definition sent_state :: webhooks_state where
  "sent_state =
     (run_worker hook_env (\<lambda>_. Some 500) 0 ^^ 10)
       (queued_state\<lparr>ws_workers := ws_workers queued_state @ [start_workflow (Some ''a'') ''d'']\<rparr>)"

lemma hook_key_valid: "validateWebhookEncryptionPublicJwk (\<lambda>_. True) hook_jwk =
    Inr (public_jwk ''AQAB'' (encodeBase64Url (replicate 256 1)))"
  by code_simp

lemma listed_state: "ws_hooks listed_state =
  \<lparr>hk_endpoints = [hook_endpoint],
   hk_keys = [\<lparr>wk_id = ''wk'', wk_endpointId = ''we'', wk_keyId = ''k'',
     wk_jwk = JObj (public_jwk ''AQAB'' (encodeBase64Url (replicate 256 1))), wk_isActive = True, wk_disabledAt = None\<rparr>],
   hk_deliveries = [], hk_attempts = []\<rparr>"
  "ws_now listed_state = 0" "ws_db listed_state = hook_db" "ws_workers listed_state = []" "ws_sent listed_state = []"
  "ws_created listed_state = []"
  by (simp_all add: listed_state_def initial_webhooks_def no_hooks_def handle_admin_def createWebhookEndpoint_def hook_admin_def
      hook_body_def hook_endpoint_def createWebhookEncryptionKey_def endpoint_of_def hook_key_valid update_keys_def Let_def)

lemma listed_reachable: "hook_reachable hook_env hook_admin listed_state"
proof -
  let ?s0 = "initial_webhooks 0 hook_db"
  let ?s1 = "?s0\<lparr>ws_hooks := handle_admin hook_admin (ws_now ?s0) ''o'' (ws_hooks ?s0) (Create_endpoint ''we'' ''s'' hook_body)\<rparr>"
  have "admissible hook_env (ws_hooks ?s0) (Create_endpoint ''we'' ''s'' hook_body)"
    by code_simp
  then have "hook_reachable hook_env hook_admin ?s1" by (rule Next [OF Initially Admin])
  moreover have "admissible hook_env (ws_hooks ?s1) (Create_key ''wk'' ''we'' ''k'' hook_jwk)"
    by (simp add: admissible_def initial_webhooks_def no_hooks_def handle_admin_def createWebhookEndpoint_def Let_def)
  ultimately show ?thesis unfolding listed_state_def Let_def by (rule Next [OF _ Admin])
qed

lemma queued_reachable: "hook_reachable hook_env hook_admin queued_state"
proof -
  have "inj hook_gen" by (rule injI) (simp add: hook_gen_def)
  then have "fresh_ids hook_gen (ws_hooks listed_state)" by (simp add: fresh_ids_def listed_state)
  then show ?thesis unfolding queued_state_def by (rule Next [OF listed_reachable Ended])
qed

lemma run_worker_reachable:
  assumes "hook_reachable env ae s" and "k < length (ws_workers s)"
  shows "hook_reachable env ae ((run_worker env reply k ^^ n) s) \<and> k < length (ws_workers ((run_worker env reply k ^^ n) s))"
proof (induction n)
  case (Suc n)
  let ?s = "(run_worker env reply k ^^ n) s"
  have "length (ws_workers (run_worker env reply k ?s)) = length (ws_workers ?s)"
    by (simp add: run_worker_def split: prod.split)
  with Suc show ?case using Next [OF _ Work] by simp
qed (use assms in simp)

lemma sent_reachable: "hook_reachable hook_env hook_admin sent_state"
  unfolding sent_state_def
  by (rule run_worker_reachable [THEN conjunct1]) (auto intro: Next [OF queued_reachable Start])

definition queued_row :: delivery where
  "queued_row = pending_row ''d'' ''ev'' ''we'' ''wk'' ''jwe'' (getPendingPayloadExpiry 72 0)"

lemma queued_state: "hk_deliveries (ws_hooks queued_state) = [(''d'', queued_row)]"
    "ws_created queued_state = [(''d'', ''jwe'')]" "ws_workers queued_state = []" "ws_sent queued_state = []" "ws_now queued_state = 0"
    "hk_endpoints (ws_hooks queued_state) = hk_endpoints (ws_hooks listed_state)" "ws_db queued_state = hook_db"
  by (simp_all add: queued_state_def add_deliveries_def createVerificationSessionWebhookDeliveries_def hook_call_def
      createWebhookDeliveriesForEvent_def subscribed_endpoints_def isSubscribedToEventType_def event_types_json_def
      SUPPORTED_WEBHOOK_EVENT_TYPES_def event_type_text_def getWebhookEndpointTargetIdsForSession_def listed_state hook_endpoint_def hook_db_def
      Let_def indexBy_def create_delivery_def insert_delivery_def pending_row_def queued_row_def hook_gen_def new_payloads_def
      List.map_filter_def)


definition sent_request :: request where
  "sent_request = attempt_request hook_env 0 queued_row
     hook_event [115]
     hook_url"

lemma run_worker_runs:
  assumes "run_workflow env (\<lambda>_. ws_now s) (\<lambda>_. reply) (ws_db s) n (ws_hooks s) (ws_workers s ! k) = (hk, w, rqs)"
    and "k < length (ws_workers s)"
  shows "(run_worker env reply k ^^ n) s =
    s\<lparr>ws_hooks := hk, ws_workers := (ws_workers s)[k := w], ws_sent := ws_sent s @ rqs\<rparr>"
  using assms
proof (induction n arbitrary: s rqs)
  case (Suc n)
  obtain hk1 w1 sent1 where st: "worker_step env (ws_now s) reply (ws_db s) (ws_hooks s) (ws_workers s ! k) = (hk1, w1, sent1)"
    by (cases "worker_step env (ws_now s) reply (ws_db s) (ws_hooks s) (ws_workers s ! k)")
  let ?s = "s\<lparr>ws_hooks := hk1, ws_workers := (ws_workers s)[k := w1], ws_sent := ws_sent s @ sent1\<rparr>"
  obtain rest where r: "run_workflow env (\<lambda>_. ws_now s) (\<lambda>_. reply) (ws_db s) n hk1 w1 = (hk, w, rest)" "rqs = sent1 @ rest"
    using Suc.prems(1) by (auto simp: st split: prod.splits)
  have "(run_worker env reply k ^^ Suc n) s = (run_worker env reply k ^^ n) ?s"
    by (simp add: funpow_Suc_right run_worker_def st del: funpow.simps)
  also have "\<dots> = ?s\<lparr>ws_hooks := hk, ws_workers := (ws_workers ?s)[k := w], ws_sent := ws_sent ?s @ rest\<rparr>"
    by (rule Suc.IH) (use r(1) Suc.prems(2) in simp_all)
  finally show ?case by (simp add: r(2))
next
  case (0 s)
  then show ?case by (cases s) auto
qed

lemma hook_deliverable: "deliverable hook_env hook_db (ws_hooks queued_state) ''d'' queued_row
    hook_endpoint
    hook_event [115]
    hook_url"
proof -
  have "parseSafeUrl (se_parse hook_env) ''https://a.example/h'' (se_loopback hook_env) Mode_webhook =
      Inr hook_url"
    by code_simp
  then show ?thesis
    by (simp add: deliverable_def queued_state listed_state queued_row_def pending_row_def has_payload_def find_event_def hook_db_def hook_event_def hook_endpoint_def
        find_endpoint_def resolveEndpointSigningSecret_def has_secret_def hook_env_def is_withdrawn_def)
qed

lemma sent_state:
  "ws_sent sent_state = [sent_request]" "ws_created sent_state = [(''d'', ''jwe'')]"
  "jm_get (hk_deliveries (ws_hooks sent_state)) ''d'' =
     Some (recorded_row (claimed_row queued_row) 0 500 (claimed_row queued_row))"
proof -
  let ?s = "queued_state\<lparr>ws_workers := ws_workers queued_state @ [start_workflow (Some ''a'') ''d'']\<rparr>"
  have w: "ws_workers ?s ! 0 = \<lparr>ww_delivery = ''d'', ww_attempt = 1, ww_pc = Pc_start\<rparr>"
    by (simp add: queued_state start_workflow_def)
  have "run_workflow hook_env (\<lambda>_. ws_now ?s) (\<lambda>_ _. Some 500) (ws_db ?s) 10 (ws_hooks ?s) (ws_workers ?s ! 0) =
      (attempted_hooks (ws_hooks queued_state) ''d'' queued_row 0 500, (ws_workers ?s ! 0)\<lparr>ww_pc := Pc_threw\<rparr>, [sent_request])"
    using attempt_runs [OF hook_deliverable, of "ws_workers ?s ! 0" "\<lambda>_ _. Some 500" "\<lambda>_. 0" 500]
    unfolding w by (simp add: queued_state sent_request_def response_ok_def)
  from run_worker_runs [OF this]
  have st: "sent_state = ?s\<lparr>ws_hooks := attempted_hooks (ws_hooks queued_state) ''d'' queued_row 0 500,
      ws_workers := (ws_workers ?s)[0 := (ws_workers ?s ! 0)\<lparr>ww_pc := Pc_threw\<rparr>], ws_sent := ws_sent ?s @ [sent_request]\<rparr>"
    by (simp add: sent_state_def)
  show "ws_sent sent_state = [sent_request]" "ws_created sent_state = [(''d'', ''jwe'')]"
      "jm_get (hk_deliveries (ws_hooks sent_state)) ''d'' =
         Some (recorded_row (claimed_row queued_row) 0 500 (claimed_row queued_row))"
    unfolding st by (simp_all add: queued_state attempted_hooks_def jsmap_simps)
qed

section \<open>Where payloads go, and how long they stay\<close>

text \<open>
  C22. In production, whatever the interleaving of workers, retries, removals and requests on
  endpoints, every request the service makes carries the payload that was encrypted for that very
  delivery when it was created, and goes to an https URL of a public host without credentials: no
  literal address, no reserved name.
\<close>

theorem requests_are_own_and_public:
  assumes "hook_reachable env ae s" and "\<not> se_loopback env" and "rq \<in> set (ws_sent s)"
  shows "(rq_delivery rq, rq_body rq) \<in> set (ws_created s) \<and>
    (\<exists>text u. se_parse env text = Some u \<and> public_https u \<and> rq_url rq = u_href u)"
proof -
  from reachable_ok [OF assms(1)] assms(3) have "sent_ok env (ws_created s) rq" by (simp add: webhooks_ok_def)
  then show ?thesis using assms(2) safe_webhook_public unfolding sent_ok_def by fastforce
qed

theorem requests_are_own_and_public_witness:
  "(rq_delivery sent_request, rq_body sent_request) \<in> set (ws_created sent_state) \<and>
    (\<exists>text u. se_parse hook_env text = Some u \<and> public_https u \<and> rq_url sent_request = u_href u)"
  by (rule requests_are_own_and_public [OF sent_reachable]) (simp_all add: hook_env_def sent_state)



section \<open>Keys and endpoints\<close>



text \<open>The bytes of the modulus are counted, not its value.\<close>

lemma padded_modulus:
  assumes "256 \<le> length bs"
  shows "validateWebhookEncryptionPublicJwk imports_ok
      [(''kty'', JStr ''RSA''), (''n'', JStr (encodeBase64Url bs)), (''e'', JStr ''AQAB'')] =
    (if imports_ok (public_jwk ''AQAB'' (encodeBase64Url bs)) then Inr (public_jwk ''AQAB'' (encodeBase64Url bs))
     else Inl jwk_invalid)"
proof -
  have "length (replace_char CHR ''_'' ''/'' (replace_char CHR ''-'' ''+'' cs)) = length cs" for cs
    by (simp add: replace_char_map)
  then have "getBase64UrlByteLength (encodeBase64Url bs) = map_option length (decodeBase64Url (encodeBase64Url bs))"
    by (simp add: getBase64UrlByteLength_def decodeBase64Url_def)
  moreover have "js_trim (encodeBase64Url bs) \<noteq> []"
  proof -
    have "\<forall>c \<in> set BASE64_ALPHABET. \<not> is_js_space c" by code_simp
    then have "\<not> is_js_space (url_char v)" for v
      using b64_char_in [of v] by (auto simp: url_char_def is_js_space_def)
    moreover have "encodeBase64Url bs \<noteq> []" using assms encode_empty [of bs] by auto
    ultimately show ?thesis
      by (cases "b64_groups bs") (auto simp: encode_groups js_trim_def dropWhile_eq_Nil_conv)
  qed
  moreover have "js_trim ''AQAB'' \<noteq> []" by code_simp
  ultimately show ?thesis
    using assms by (simp add: validateWebhookEncryptionPublicJwk_def base64url.decode_encode MIN_RSA_MODULUS_BYTES_def string_not_def
        hasPrivateRsaJwkMaterial_def PRIVATE_RSA_JWK_FIELDS_def hasSafeKeyOperations_def)
qed

text \<open>
  Every modulus, however short, has a text that passes the check of its size: leading zeros
  are counted, so only the library that imports the key can refuse it.
\<close>

theorem short_modulus_passes:
  "\<exists>n bs. decodeBase64Url n = Some bs \<and> be_nat bs = m \<and>
     validateWebhookEncryptionPublicJwk imports_ok [(''kty'', JStr ''RSA''), (''n'', JStr n), (''e'', JStr ''AQAB'')] =
       (if imports_ok (public_jwk ''AQAB'' n) then Inr (public_jwk ''AQAB'' n) else Inl jwk_invalid)"
proof -
  let ?bs = "bigIntToBytes m (256 + m)"
  have "m < 256 ^ m" by (rule power_gt_expt) simp
  also have "\<dots> \<le> 256 ^ (256 + m)" by (rule power_increasing) simp_all
  finally have "be_nat ?bs = m" by (simp add: be_nat_bigIntToBytes)
  with padded_modulus [of ?bs imports_ok] base64url.decode_encode show ?thesis by fastforce
qed

section \<open>Workflows\<close>

text \<open>
  C25. A workflow ends: after at most 106 statements of its own it is done, whatever it finds in the
  tables at each of them, whatever the clock says and whatever the requests answer.
\<close>

theorem workflow_terminates:
  assumes "106 \<le> length seen"
  shows "ww_pc (foldl (drive_step env) (start_workflow authSecret i) seen) = Pc_done"
  using driven.run_ends [of "start_workflow authSecret i" seen env] start_rank [of authSecret i] assms
  by (simp add: worker_rank_zero)

theorem workflow_terminates_witness:
  "ww_pc (foldl (drive_step hook_env) (start_workflow (Some ''a'') ''d'') (replicate 106 (0, \<lambda>_. None, hook_db, no_hooks))) =
    Pc_done"
  by (rule workflow_terminates) simp

text \<open>
  C24. Undisturbed, the workflow of a delivery that can be attempted sends the delivery's payload
  to its endpoint until the first good reply, at most eight times; that reply removes the payload and closes
  the delivery as succeeded, and after eight bad ones it is failed, with the payload kept for the
  endpoint's retention from the last attempt, or not at all when that is zero.
\<close>

theorem workflow_outcome:
  assumes "deliverable env db hk i row e ev secret u" and "\<And>n rq. reply n rq = Some (status n)"
    and "106 \<le> f" and "authSecret \<noteq> []"
  shows "case run_workflow env clock reply db f hk (start_workflow (Some authSecret) i) of (hk', w', rqs) \<Rightarrow>
    ww_pc w' = Pc_done \<and> (\<forall>rq \<in> set rqs. rq_body rq = payload_text row \<and> rq_url rq = u_href u) \<and>
    (\<exists>row'. jm_get (hk_deliveries hk') i = Some row' \<and>
      (case find (\<lambda>k. response_ok (status k)) [1..<9] of
         Some k \<Rightarrow>
           length rqs = k \<and> wd_status row' = Dl_succeeded \<and> wd_payload row' = None \<and>
           wd_attemptCount row' = wd_attemptCount row + k \<and> wd_lastStatusCode row' = Some (status k)
       | None \<Rightarrow>
           length rqs = 8 \<and> wd_status row' = Dl_failed \<and> wd_attemptCount row' = wd_attemptCount row + 8 \<and>
           wd_payload row' = (if we_retentionHours e = 0 then None else wd_payload row) \<and>
           wd_payloadExpiresAt row' =
             (if we_retentionHours e = 0 then None else Some (addHours (clock 8) (we_retentionHours e)))))"
proof -
  let ?w = "start_workflow (Some authSecret) i"
  have w: "ww_delivery ?w = i" "ww_pc ?w = Pc_start" "ww_attempt ?w = 1"
    using assms(4) by (cases authSecret; simp add: start_workflow_def)+
  have "workflow_ends env clock status i row e u (ww_attempt ?w) (run_workflow env clock reply db f hk ?w)"
    by (rule workflow_runs [where m = 7, OF assms(1,2)]) (use w assms(3) in simp_all)
  then show ?thesis
    unfolding w(3) workflow_ends_def outcome_row_def by (fastforce split: option.splits)
qed

theorem workflow_outcome_witness:
  "case run_workflow hook_env (\<lambda>n. int n) (\<lambda>n _. Some (if n < 3 then 503 else 204)) hook_db 106 (ws_hooks queued_state)
      (start_workflow (Some ''a'') ''d'') of (hk', w', rqs) \<Rightarrow> ww_pc w' = Pc_done \<and> length rqs = 3"
proof -
  have "find (\<lambda>k. response_ok (if k < 3 then 503 else 204)) [1..<9] = Some (3 :: nat)" by code_simp
  with workflow_outcome [OF hook_deliverable, of "\<lambda>n _. Some (if n < 3 then 503 else 204)" "\<lambda>n. if n < 3 then 503 else 204" 106
      "''a''" "\<lambda>n. int n"]
  show ?thesis by (auto split: prod.splits)
qed

end
