(* ===== verification/Webhook_Retention.thy ===== *)
theory Webhook_Retention
  imports Webhook_Guarantees
begin

text \<open>
  Creation, removal and recovery of payloads, and of signing secrets: one delivery per subscriber,
  a sweep that removes what expired, the secret that is shown again; and the two orders of steps
  after which a payload is not removed, or a delivery is not closed, as it should be.
\<close>

section \<open>Creation\<close>

definition created_row ::
  "(string \<Rightarrow> encryption_key \<Rightarrow> string option) \<Rightarrow> string \<Rightarrow> string \<Rightarrow> encryption_key list \<Rightarrow> endpoint \<Rightarrow> delivery \<Rightarrow> bool" where
  "created_row jwe plaintext eventId active e row \<longleftrightarrow>
     wd_eventId row = eventId \<and> wd_endpointId row = we_id e \<and>
     (case wd_payload row of
        None \<Rightarrow> wd_status row = Dl_failed
      | Some p \<Rightarrow> wd_status row = Dl_pending \<and> (\<exists>key \<in> set active. wk_endpointId key = we_id e \<and> jwe plaintext key = Some p))"

lemma indexBy_fold:
  "jm_get (foldl (\<lambda>m key. jm_set (wk_endpointId key) key m) m keys) e = Some key \<Longrightarrow>
     jm_get m e = Some key \<or> key \<in> set keys \<and> wk_endpointId key = e"
proof (induction keys arbitrary: m)
  case (Cons k keys)
  from Cons.IH [of "jm_set (wk_endpointId k) k m"] Cons.prems show ?case
    by (auto simp: jsmap_simps split: if_splits)
qed simp

lemma indexBy_get: "jm_get (indexBy keys) e = Some key \<Longrightarrow> key \<in> set keys \<and> wk_endpointId key = e"
  using indexBy_fold [where m = "[]" and keys = keys and e = e and key = key] by (simp add: indexBy_def)

lemma insert_delivery_get:
  "jm_get (hk_deliveries (insert_delivery hk row)) j = (if j = wd_id row then Some row else jm_get (hk_deliveries hk) j)"
  by (simp add: insert_delivery_def jsmap_simps)

lemma create_delivery_row:
  "\<exists>row. jm_get (hk_deliveries (create_delivery jwe now ev plaintext (indexBy active) e i hk)) i = Some row \<and>
     created_row jwe plaintext ev active e row"
  by (auto simp: create_delivery_def created_row_def failed_row_def pending_row_def insert_delivery_get
      split: option.split dest: indexBy_get)

lemma create_delivery_other:
  "j \<noteq> i \<Longrightarrow> jm_get (hk_deliveries (create_delivery jwe now ev plaintext ks e i hk)) j = jm_get (hk_deliveries hk) j"
  by (auto simp: create_delivery_def failed_row_def pending_row_def insert_delivery_get split: option.split)

lemma create_loop_Cons:
  "create_loop jwe now ev plaintext ks gen n (e # es) hk =
     (let r = create_loop jwe now ev plaintext ks gen (Suc n) es (create_delivery jwe now ev plaintext ks e (gen n) hk)
      in (fst r, gen n # snd r))"
  by (simp add: case_prod_beta Let_def)

lemma create_loop_other:
  "\<forall>m \<ge> n. gen m \<noteq> j \<Longrightarrow>
     jm_get (hk_deliveries (fst (create_loop jwe now ev plaintext ks gen n es hk))) j = jm_get (hk_deliveries hk) j"
proof (induction es arbitrary: n hk)
  case (Cons e es)
  let ?hk = "create_delivery jwe now ev plaintext ks e (gen n) hk"
  have "jm_get (hk_deliveries (fst (create_loop jwe now ev plaintext ks gen (Suc n) es ?hk))) j = jm_get (hk_deliveries ?hk) j"
    by (rule Cons.IH) (use Cons.prems in auto)
  also have "\<dots> = jm_get (hk_deliveries hk) j" by (rule create_delivery_other) (use Cons.prems in auto)
  finally show ?case by (simp add: create_loop_Cons Let_def del: create_loop.simps)
qed simp

lemma create_loop_rows:
  assumes "inj gen"
  shows "snd (create_loop jwe now ev plaintext (indexBy active) gen n es hk) = map gen [n..<n + length es] \<and>
    (\<forall>k < length es. \<exists>row.
       jm_get (hk_deliveries (fst (create_loop jwe now ev plaintext (indexBy active) gen n es hk))) (gen (n + k)) = Some row \<and>
       created_row jwe plaintext ev active (es ! k) row)"
proof (induction es arbitrary: n hk)
  case (Cons e es)
  let ?hk = "create_delivery jwe now ev plaintext (indexBy active) e (gen n) hk"
  let ?r = "create_loop jwe now ev plaintext (indexBy active) gen (Suc n) es ?hk"
  have r: "create_loop jwe now ev plaintext (indexBy active) gen n (e # es) hk = (fst ?r, gen n # snd ?r)"
    by (simp add: create_loop_Cons Let_def del: create_loop.simps)
  have "gen m \<noteq> gen n" if "Suc n \<le> m" for m using injD [OF assms, of m n] that by auto
  then have keep: "jm_get (hk_deliveries (fst ?r)) (gen n) = jm_get (hk_deliveries ?hk) (gen n)"
    by (intro create_loop_other) auto
  have "\<exists>row. jm_get (hk_deliveries (fst ?r)) (gen (n + k)) = Some row \<and> created_row jwe plaintext ev active ((e # es) ! k) row"
    if "k < length (e # es)" for k
  proof (cases k)
    case 0
    with keep create_delivery_row [of jwe now ev plaintext active e "gen n" hk] show ?thesis by simp
  next
    case (Suc k')
    with that Cons [of "Suc n" ?hk] show ?thesis by auto
  qed
  moreover have "gen n # snd ?r = map gen [n..<n + length (e # es)]"
    using Cons [of "Suc n" ?hk] by (simp add: upt_conv_Cons del: upt_Suc)
  ultimately show ?case unfolding r by simp
qed simp

text \<open>
  An event creates one delivery for each enabled endpoint of the organization that subscribes to
  its type (of the session's own endpoints, when it names some), in their order: pending with the
  payload encrypted for an active key of that endpoint, or failed without a payload. The plain text
  is never stored.
\<close>

theorem one_delivery_per_subscriber:
  assumes "inj gen"
  shows "case createWebhookDeliveriesForEvent stringify jwe gen now hk eventId eventType org payload targets of (hk', ids) \<Rightarrow>
    ids = map gen [0..<length (subscribed_endpoints hk org eventType targets)] \<and>
    (\<forall>k < length ids. \<exists>row. jm_get (hk_deliveries hk') (ids ! k) = Some row \<and>
       wd_eventId row = eventId \<and> wd_endpointId row = we_id (subscribed_endpoints hk org eventType targets ! k) \<and>
       (case wd_payload row of
          None \<Rightarrow> wd_status row = Dl_failed
        | Some p \<Rightarrow> wd_status row = Dl_pending \<and>
            (\<exists>key \<in> set (hk_keys hk). wk_isActive key \<and> wk_endpointId key = wd_endpointId row \<and>
               jwe (stringify payload) key = Some p)))"
proof -
  let ?subs = "subscribed_endpoints hk org eventType targets"
  let ?active = "filter (\<lambda>k. wk_isActive k \<and> wk_endpointId k \<in> we_id ` set ?subs) (hk_keys hk)"
  let ?r = "create_loop jwe now eventId (stringify payload) (indexBy ?active) gen 0 ?subs hk"
  show ?thesis
  proof (cases "length ?subs = 0")
    case True
    then show ?thesis by (simp add: createWebhookDeliveriesForEvent_def)
  next
    case False
    then have r: "createWebhookDeliveriesForEvent stringify jwe gen now hk eventId eventType org payload targets = ?r"
      by (simp add: createWebhookDeliveriesForEvent_def Let_def)
    from create_loop_rows [OF assms, of jwe now eventId "stringify payload" ?active 0 ?subs hk]
    show ?thesis unfolding r by (fastforce simp: created_row_def split: option.splits prod.splits)
  qed
qed

theorem one_delivery_per_subscriber_witness:
  "snd (createWebhookDeliveriesForEvent (\<lambda>_. ''{}'') (\<lambda>_ _. Some ''jwe'') hook_gen 0 (ws_hooks listed_state)
     ''ev'' Ev_session_failed ''o'' JNull None) = [''d'']"
proof -
  have "inj hook_gen" by (rule injI) (simp add: hook_gen_def)
  from one_delivery_per_subscriber [OF this, where hk = "ws_hooks listed_state" and stringify = "\<lambda>_. ''{}''" and
      jwe = "\<lambda>_ _. Some ''jwe''" and now = 0 and eventId = "''ev''" and eventType = Ev_session_failed and org = "''o''" and
      payload = JNull and targets = None]
  show ?thesis
    by (auto simp: subscribed_endpoints_def listed_state hook_endpoint_def isSubscribedToEventType_def event_types_json_def hook_gen_def
        SUPPORTED_WEBHOOK_EVENT_TYPES_def event_type_text_def split: prod.splits)
qed

section \<open>Removal\<close>

lemma update_deliveries_get:
  "jm_get (hk_deliveries (update_deliveries hk ids f)) i =
     map_option (\<lambda>row. if i \<in> set ids then f row else row) (jm_get (hk_deliveries hk) i)"
proof -
  have "map_of (map (\<lambda>(i, row). (i, g i row)) m) i = map_option (g i) (map_of m i)" for g :: "string \<Rightarrow> delivery \<Rightarrow> delivery" and m
    by (induction m) auto
  from this [of "\<lambda>i row. if i \<in> set ids then f row else row"] show ?thesis by (simp add: update_deliveries_def)
qed

text \<open>
  A sweep that is not cut short by its batch size removes every expired payload of a delivery
  whose event is known, and touches no other delivery.
\<close>

theorem sweep_removes_expired:
  assumes "jm_wf (hk_deliveries hk)" and "length (hk_deliveries hk) \<le> batchSize"
  shows "jm_get (hk_deliveries (fst (runWebhookPayloadRetentionSweep batchSize now db hk))) i =
    map_option (\<lambda>row. if andExpiredPayload now row \<and> find_event db (wd_eventId row) \<noteq> None then expired_row now row else row)
      (jm_get (hk_deliveries hk) i)"
proof -
  let ?due = "\<lambda>(i, row). andExpiredPayload now row \<and> find_event db (wd_eventId row) \<noteq> None"
  let ?key = "\<lambda>(i :: string, row). the (wd_payloadExpiresAt row)"
  have "length (filter ?due (hk_deliveries hk)) \<le> batchSize"
    using length_filter_le [of ?due "hk_deliveries hk"] assms(2) by linarith
  then have "set (sweep_rows batchSize now db hk) = {x \<in> set (hk_deliveries hk). ?due x}"
    by (simp add: sweep_rows_def)
  then have "i \<in> set (map fst (sweep_rows batchSize now db hk)) \<longleftrightarrow> (\<exists>row. (i, row) \<in> set (hk_deliveries hk) \<and> ?due (i, row))"
    by (auto simp: image_iff Bex_def)
  then have ids: "i \<in> set (map fst (sweep_rows batchSize now db hk)) \<longleftrightarrow>
      (\<exists>row. jm_get (hk_deliveries hk) i = Some row \<and> ?due (i, row))"
    by (simp only: jm_in_set_iff [OF assms(1)])
  then show ?thesis
    by (cases "jm_get (hk_deliveries hk) i")
      (auto simp: runWebhookPayloadRetentionSweep_def sweep_write_def Let_def update_deliveries_get)
qed

theorem sweep_removes_expired_witness:
  "jm_get (hk_deliveries (fst (runWebhookPayloadRetentionSweep 500 (358505000 :: int) hook_db (ws_hooks queued_state)))) ''d'' =
    Some (expired_row 358505000 queued_row)"
proof -
  have "andExpiredPayload 358505000 queued_row"
    by (simp add: andExpiredPayload_def queued_row_def pending_row_def getPendingPayloadExpiry_def)
  moreover have "find_event hook_db (wd_eventId queued_row) \<noteq> None"
    by (simp add: find_event_def hook_db_def hook_event_def queued_row_def pending_row_def)
  ultimately show ?thesis
    using sweep_removes_expired [of "ws_hooks queued_state" 500 358505000 hook_db "''d''"] by (simp add: queued_state jm_wf_def)
qed

section \<open>A withdrawal and a final failure\<close>

text \<open>
  C27. The final failure of a workflow undoes a privacy request that comes between its read and its
  update: the payload the request removed is stored again, for the endpoint's retention, and the
  delivery no longer records the request.
\<close>

theorem late_failure_restores_withdrawn_payload:
  assumes "jm_wf (hk_deliveries hk)" and "jm_get (hk_deliveries hk) i = Some row" and "has_payload row" and "wd_status row = Dl_pending"
    and "find_event db (wd_eventId row) = Some ev" and "find_endpoint hk (wd_endpointId row) = Some e"
    and "we_retentionHours e \<noteq> 0"
  shows "finalize_read db hk i = Pc_finalize_write row (we_retentionHours e) \<and>
    (let hk1 = fst (scrubWebhookPayloadsForVerificationSessionPrivacyRequest now db hk (er_org ev) (er_trigger ev));
         hk2 = finalize_write now' hk1 i row (we_retentionHours e)
     in jm_get (hk_deliveries hk1) i = Some (withdrawn_row now row) \<and>
        map_option wd_payload (jm_get (hk_deliveries hk2) i) = Some (wd_payload row) \<and>
        map_option wd_reason (jm_get (hk_deliveries hk2) i) = Some (Some Rt_terminal_failure_retention))"
proof -
  have read: "finalize_read db hk i = Pc_finalize_write row (we_retentionHours e)"
    using assms by (simp add: finalize_read_def getDeliveryAttemptContext_def getWebhookDeliveryById_def)
  from assms(5) have ev: "ev \<in> set (db_events db)" "er_id ev = wd_eventId row"
    by (auto simp: find_event_def find_Some_iff)
  from assms(1,2) have "(i, row) \<in> set (hk_deliveries hk)" by (simp add: jm_in_set_iff)
  with ev assms(3,4) have "i \<in> set (scrub_ids (session_rows db hk (er_org ev) (er_trigger ev)))"
    by (force simp: scrub_ids_def session_rows_def Let_def)
  then have hk1: "jm_get (hk_deliveries (fst (scrubWebhookPayloadsForVerificationSessionPrivacyRequest now db hk (er_org ev) (er_trigger ev)))) i =
      Some (withdrawn_row now row)"
    by (auto simp: scrubWebhookPayloadsForVerificationSessionPrivacyRequest_def scrub_write_def Let_def update_deliveries_get assms(2))
  have p: "wd_payload row \<noteq> None" using assms(3) by (auto simp: has_payload_def split: option.splits)
  show ?thesis
    using read hk1 p assms(7)
    by (simp add: Let_def finalize_write_def update_delivery_def finalized_row_def jsmap_simps)
qed

theorem late_failure_restores_withdrawn_payload_witness:
  "let hk1 = fst (scrubWebhookPayloadsForVerificationSessionPrivacyRequest 5 hook_db (ws_hooks queued_state) ''o'' ''s'')
   in jm_get (hk_deliveries hk1) ''d'' = Some (withdrawn_row 5 queued_row) \<and>
      map_option wd_payload (jm_get (hk_deliveries (finalize_write 6 hk1 ''d'' queued_row 72)) ''d'') = Some (Some ''jwe'')"
proof -
  have d: "jm_wf (hk_deliveries (ws_hooks queued_state))" "jm_get (hk_deliveries (ws_hooks queued_state)) ''d'' = Some queued_row"
    by (simp_all add: queued_state jm_wf_def)
  note facts = hook_deliverable [unfolded deliverable_def]
  show ?thesis
    using late_failure_restores_withdrawn_payload [OF d, of hook_db hook_event hook_endpoint 5 6] facts
    by (simp add: Let_def hook_event_def hook_endpoint_def queued_row_def pending_row_def)
qed

section \<open>A retry that expires\<close>

lemma expired_attempt:
  assumes "jm_get (hk_deliveries hk) i = Some row" and "wd_payload row = None" and "wd_status row = Dl_pending"
    and "find_event db (wd_eventId row) = Some ev" and "find_endpoint hk (wd_endpointId row) = Some e"
    and "er_type ev = Ev_session_cancelled \<or> \<not> is_withdrawn db ev"
    and "ww_delivery w = i" and "ww_pc w = Pc_start"
  shows "run_workflow env clock reply db 5 hk w = (hk, w\<lparr>ww_pc := Pc_done\<rparr>, [])"
proof -
  have "getDeliveryAttemptContext db hk i = Some (row, e, ev)"
    by (simp add: getDeliveryAttemptContext_def getWebhookDeliveryById_def assms)
  moreover have "claimPendingWebhookDelivery hk i = (hk, None)"
    by (simp add: claimPendingWebhookDelivery_def update_delivery_def assms)
  moreover have "after_unclaimed (getWebhookDeliveryById hk i) = Pc_returned"
    by (simp add: after_unclaimed_def getWebhookDeliveryById_def assms has_payload_def)
  ultimately show ?thesis
    by (simp add: numeral_eq_Suc worker_step_def Let_def assms(7,8) check_passes [OF assms(6)])
qed

text \<open>
  A failed delivery whose payload expires soon can be retried; when the sweep removes the
  payload before the attempt claims it, the delivery stays pending for good: every workflow started
  for it returns without a request and without closing it, and it cannot be retried again.
\<close>

theorem expired_retry_stays_pending:
  assumes "jm_get (hk_deliveries hk) i = Some row" and "wd_status row = Dl_failed" and "has_payload row"
    and "wd_payloadExpiresAt row = Some t" and "now < t"
    and "find_event db (wd_eventId row) = Some ev" and "find_endpoint hk (wd_endpointId row) = Some e"
    and "\<not> is_withdrawn db ev" and "authSecret \<noteq> []" and "5 \<le> f"
  shows "case requeueWebhookDelivery now hk i of (hk1, requeued) \<Rightarrow>
    let hk2 = sweep_write t hk1 [i]
    in requeued \<noteq> None \<and>
       run_workflow env clock reply db f hk2 (start_workflow (Some authSecret) i) =
         (hk2, (start_workflow (Some authSecret) i)\<lparr>ww_pc := Pc_done\<rparr>, []) \<and>
       map_option wd_status (jm_get (hk_deliveries hk2) i) = Some Dl_pending \<and>
       requeueWebhookDelivery later hk2 i = (hk2, None)"
proof -
  let ?hk1 = "put_row hk i (requeued_row row)" and ?hk2 = "sweep_write t (put_row hk i (requeued_row row)) [i]"
  have p: "wd_payload row \<noteq> None" using assms(3) by (auto simp: has_payload_def split: option.splits)
  have q: "requeueWebhookDelivery now hk i = (?hk1, Some (requeued_row row))"
    using assms(1-5) p
    by (simp add: requeueWebhookDelivery_def getWebhookDeliveryById_def getWebhookDeliveryRetryBlockReason_def requeue_write_def
        update_delivery_def put_row_def)
  have row2: "jm_get (hk_deliveries ?hk2) i = Some (expired_row t (requeued_row row))"
    by (simp add: sweep_write_def update_deliveries_get jsmap_simps)
  have same: "find_endpoint ?hk2 j = find_endpoint hk j" for j
    by (simp add: sweep_write_def update_deliveries_def find_endpoint_def put_row_def)
  have stranded: "wd_payload (expired_row t (requeued_row row)) = None" "wd_status (expired_row t (requeued_row row)) = Dl_pending"
    "wd_eventId (expired_row t (requeued_row row)) = wd_eventId row"
    "wd_endpointId (expired_row t (requeued_row row)) = wd_endpointId row"
    by (simp_all add: expired_row_def requeued_row_def)
  let ?w = "start_workflow (Some authSecret) i"
  have w: "ww_delivery ?w = i" "ww_pc ?w = Pc_start" using assms(9) by (cases authSecret; simp add: start_workflow_def)+
  have "run_workflow env clock reply db 5 ?hk2 ?w = (?hk2, ?w\<lparr>ww_pc := Pc_done\<rparr>, [])"
    by (rule expired_attempt [OF row2 _ _ _ _ disjI2 [OF assms(8)]]) (use assms(6,7) same w in \<open>simp_all add: stranded\<close>)
  moreover obtain g where "f = 5 + g" using assms(10) le_Suc_ex by blast
  ultimately have run: "run_workflow env clock reply db f ?hk2 ?w = (?hk2, ?w\<lparr>ww_pc := Pc_done\<rparr>, [])"
    by (simp only: run_workflow_add) (simp add: run_done)
  have "requeueWebhookDelivery later ?hk2 i = (?hk2, None)"
    using row2 by (simp add: requeueWebhookDelivery_def getWebhookDeliveryById_def getWebhookDeliveryRetryBlockReason_def
        expired_row_def requeued_row_def has_payload_def)
  with run row2 q show ?thesis by (simp add: Let_def expired_row_def requeued_row_def)
qed

theorem expired_retry_stays_pending_witness:
  "case requeueWebhookDelivery 0 (put_row (ws_hooks queued_state) ''d'' (finalized_row 0 queued_row 72 queued_row)) ''d'' of
    (hk1, requeued) \<Rightarrow>
      let hk2 = sweep_write 259200000 hk1 [''d'']
      in run_workflow hook_env (\<lambda>_. 0) (\<lambda>_ _. Some 204) hook_db 106 hk2 (start_workflow (Some ''a'') ''d'') =
           (hk2, (start_workflow (Some ''a'') ''d'')\<lparr>ww_pc := Pc_done\<rparr>, []) \<and>
         map_option wd_status (jm_get (hk_deliveries hk2) ''d'') = Some Dl_pending"
proof -
  let ?row = "finalized_row 0 queued_row 72 queued_row" and ?hk = "put_row (ws_hooks queued_state) ''d'' (finalized_row 0 queued_row 72 queued_row)"
  have r: "wd_status ?row = Dl_failed" "has_payload ?row" "wd_payloadExpiresAt ?row = Some 259200000"
    "find_event hook_db (wd_eventId ?row) = Some hook_event" "wd_endpointId ?row = ''we''"
    by (simp_all add: finalized_row_def queued_row_def pending_row_def has_payload_def addHours_def find_event_def hook_db_def
        hook_event_def Let_def)
  have e: "find_endpoint ?hk (wd_endpointId ?row) = Some hook_endpoint"
    by (simp add: r find_endpoint_def queued_state listed_state hook_endpoint_def)
  have "jm_get (hk_deliveries ?hk) ''d'' = Some ?row" "\<not> is_withdrawn hook_db hook_event"
    by (simp_all add: put_row_def jsmap_simps is_withdrawn_def hook_db_def)
  from expired_retry_stays_pending [OF this(1) r(1-3) _ r(4) e this(2), of 0 "''a''" 106 hook_env "\<lambda>_. 0" "\<lambda>_ _. Some 204" 0]
  show ?thesis by (simp add: Let_def split: prod.splits)
qed

section \<open>The secret of an endpoint\<close>

text \<open>
  After a rotation the secret that is revealed, and with which deliveries are signed, is the one the
  rotation answered; \<open>unseal\<close> inverts \<open>seal\<close> under the same key and initial vector, as AES-GCM does.
\<close>

theorem rotated_secret_is_revealed:
  assumes "\<And>key iv m. unseal key iv (seal key iv m) = Some m" and "iv \<noteq> []" and "\<And>key iv m. seal key iv m \<noteq> []"
    and "list_all (\<lambda>c. of_char c < (128 :: nat)) newSecret" and "endpoint_of hk org i \<noteq> None"
  shows "let encrypt = (\<lambda>s. encryptWebhookSigningSecret digest seal iv s secret);
             decrypt = (\<lambda>c. decryptWebhookSigningSecret digest unseal c secret);
             hk' = fst (rotateWebhookEndpointSigningSecret encrypt newSecret org hk i)
         in snd (rotateWebhookEndpointSigningSecret encrypt newSecret org hk i) = Inr newSecret \<and>
            revealWebhookEndpointSigningSecret decrypt org hk' i = Inr (map of_char newSecret) \<and>
            (\<forall>e. endpoint_of hk' org i = Some e \<longrightarrow> resolveEndpointSigningSecret decrypt e = Some (map of_char newSecret))"
proof -
  let ?c = "encryptWebhookSigningSecret digest seal iv newSecret secret"
  have c: "?c \<noteq> []" by (simp add: encryptWebhookSigningSecret_def)
  have dec: "decryptWebhookSigningSecret digest unseal ?c secret = Inr (map of_char newSecret)"
    by (rule decrypt_encrypt) (use assms in simp_all)
  obtain e where e: "endpoint_of hk org i = Some e" using assms(5) by auto
  then have id: "we_id e = i" by (auto simp: endpoint_of_def find_Some_iff)
  have map_find: "find (\<lambda>e. we_id e = i \<and> we_org e = org) (map (\<lambda>e. if we_id e = i then e\<lparr>we_signingSecret := Some ?c\<rparr> else e) es) =
      map_option (\<lambda>e. e\<lparr>we_signingSecret := Some ?c\<rparr>) (find (\<lambda>e. we_id e = i \<and> we_org e = org) es)" for es :: "endpoint list"
    by (induction es) auto
  let ?hk = "update_endpoint hk i (\<lambda>e. e\<lparr>we_signingSecret := Some ?c\<rparr>)"
  have found: "endpoint_of ?hk org i = Some (e\<lparr>we_signingSecret := Some ?c\<rparr>)"
    using e map_find by (simp add: endpoint_of_def update_endpoint_def)
  have "has_secret (e\<lparr>we_signingSecret := Some ?c\<rparr>) = Some ?c" using c by (cases ?c) (simp_all add: has_secret_def)
  with found dec e id show ?thesis
    by (simp add: rotateWebhookEndpointSigningSecret_def revealWebhookEndpointSigningSecret_def resolveEndpointSigningSecret_def Let_def)
qed

theorem rotated_secret_is_revealed_witness:
  "snd (rotateWebhookEndpointSigningSecret (\<lambda>s. encryptWebhookSigningSecret (\<lambda>b. b) (\<lambda>k iv m. 0 # m) [1] s ''a'') ''whsec_x'' ''o''
     (ws_hooks listed_state) ''we'') = Inr ''whsec_x''"
proof -
  have e: "endpoint_of (ws_hooks listed_state) ''o'' ''we'' \<noteq> None"
    by (simp add: endpoint_of_def listed_state hook_endpoint_def)
  have a: "list_all (\<lambda>c. of_char c < (128 :: nat)) ''whsec_x''" by code_simp
  show ?thesis
    using rotated_secret_is_revealed [where unseal = "\<lambda>k iv m. Some (tl m)" and seal = "\<lambda>k iv m. 0 # m" and iv = "[1]" and
        digest = "\<lambda>b. b" and secret = "''a''", OF _ _ _ a e]
    by (simp add: Let_def)
qed

end
