(* ===== verification/Domain_Names.thy ===== *)
theory Domain_Names
  imports Safe_Url
begin

text \<open>
  Host names and the domains organizations own (\<open>packages/auth/src/domain-verification/apex.ts\<close>):
  normalization with its four errors, the registrable domain of a host (its "apex"), and the test
  that a host lies under an apex. The lemmas show that the test and the extraction agree: the
  extracted apexes partition the normalized hosts.
\<close>

datatype apex_error = INVALID_HOSTNAME | MIXED_SCRIPT_LABEL | TOO_FEW_LABELS | PUBLIC_SUFFIX_ONLY

definition MULTI_LABEL_PUBLIC_SUFFIXES :: "string list" where
  "MULTI_LABEL_PUBLIC_SUFFIXES =
     [''co.uk'', ''org.uk'', ''ac.uk'', ''gov.uk'', ''ltd.uk'', ''plc.uk'', ''me.uk'', ''net.uk'', ''sch.uk'',
      ''com.au'', ''net.au'', ''org.au'', ''edu.au'', ''gov.au'', ''id.au'',
      ''co.nz'', ''net.nz'', ''org.nz'', ''govt.nz'',
      ''com.br'', ''net.br'', ''org.br'', ''gov.br'',
      ''co.za'', ''org.za'', ''gov.za'',
      ''co.jp'', ''ne.jp'', ''or.jp'', ''ac.jp'', ''go.jp'', ''ed.jp'',
      ''co.in'', ''net.in'', ''org.in'', ''gov.in'', ''ac.in'', ''edu.in'',
      ''com.mx'', ''gob.mx'',
      ''com.sg'', ''edu.sg'', ''gov.sg'',
      ''com.hk'', ''edu.hk'', ''gov.hk'', ''org.hk'',
      ''co.il'', ''ac.il'', ''gov.il'', ''org.il'',
      ''co.kr'', ''or.kr'', ''go.kr'',
      ''com.tw'', ''org.tw'', ''gov.tw'',
      ''com.ar'', ''gov.ar'', ''edu.ar'',
      ''com.tr'', ''edu.tr'', ''gov.tr'', ''org.tr'']"

text \<open>\<open>ASCII_HOSTNAME_PATTERN\<close> and \<open>LABEL_PATTERN\<close>.\<close>

definition is_lower :: "char \<Rightarrow> bool" where
  "is_lower c \<longleftrightarrow> 97 \<le> (of_char c :: nat) \<and> (of_char c :: nat) \<le> 122"

definition label_char :: "char \<Rightarrow> bool" where
  "label_char c \<longleftrightarrow> is_lower c \<or> is_digit c"

definition ascii_hostname :: "string \<Rightarrow> bool" where
  "ascii_hostname s \<longleftrightarrow> s \<noteq> [] \<and> list_all (\<lambda>c. label_char c \<or> c = CHR ''.'' \<or> c = CHR ''-'') s"

definition valid_label :: "string \<Rightarrow> bool" where
  "valid_label l \<longleftrightarrow>
     l \<noteq> [] \<and> length l \<le> 63 \<and> label_char (hd l) \<and> label_char (last l) \<and>
     list_all (\<lambda>c. label_char c \<or> c = CHR ''-'') l"

definition starts_with :: "string \<Rightarrow> string \<Rightarrow> bool" where
  "starts_with s p \<longleftrightarrow> take (length p) s = p"

text \<open>The loop over the labels: the first label that is rejected decides.\<close>

fun check_labels :: "string list \<Rightarrow> apex_error option" where
  "check_labels [] = None"
| "check_labels (l # ls) =
     (if \<not> valid_label l then Some INVALID_HOSTNAME
      else if starts_with l ''xn--'' then Some MIXED_SCRIPT_LABEL
      else check_labels ls)"

definition apex_normalizeHostname :: "string \<Rightarrow> apex_error + string" where
  "apex_normalizeHostname rawHost =
     (let trimmed = lower_ascii (js_trim rawHost)
      in if trimmed = [] then Inl INVALID_HOSTNAME
         else
           let stripped = (if ends_with trimmed ''.'' then butlast trimmed else trimmed)
           in if \<not> ascii_hostname stripped then Inl INVALID_HOSTNAME
              else
                let labels = split_on CHR ''.'' stripped
                in if length labels < 2 then Inl TOO_FEW_LABELS
                   else (case check_labels labels of Some e \<Rightarrow> Inl e | None \<Rightarrow> Inr stripped))"

text \<open>\<open>slice(-n)\<close>.\<close>

definition last_n :: "nat \<Rightarrow> 'a list \<Rightarrow> 'a list" where
  "last_n n xs = drop (length xs - n) xs"

definition extractApexDomain :: "string \<Rightarrow> apex_error + string" where
  "extractApexDomain normalizedHost =
     (let labels = split_on CHR ''.'' normalizedHost
      in if 3 \<le> length labels \<and> join_with ''.'' (last_n 2 labels) \<in> set MULTI_LABEL_PUBLIC_SUFFIXES
         then Inr (join_with ''.'' (last_n 3 labels))
         else if normalizedHost \<in> set MULTI_LABEL_PUBLIC_SUFFIXES then Inl PUBLIC_SUFFIX_ONLY
         else Inr (join_with ''.'' (last_n 2 labels)))"

definition hostnameToApex :: "string \<Rightarrow> apex_error + string" where
  "hostnameToApex rawHost = rbind (apex_normalizeHostname rawHost) extractApexDomain"

definition isHostUnderApex :: "string \<Rightarrow> string \<Rightarrow> bool" where
  "isHostUnderApex host apex \<longleftrightarrow> host = apex \<or> ends_with host (CHR ''.'' # apex)"

section \<open>Hosts as lists of labels\<close>

abbreviation labels_of :: "string \<Rightarrow> string list" where
  "labels_of \<equiv> split_on CHR ''.''"

lemma split_on_app: "split_on c (a @ c # b) = split_on c a @ split_on c b"
proof (induction a)
  case Nil
  then show ?case by simp
next
  case (Cons x a)
  obtain p ps where "split_on c a = p # ps" by (cases "split_on c a") auto
  with Cons show ?case by simp
qed

lemma split_on_pieces: "p \<in> set (split_on c s) \<Longrightarrow> c \<notin> set p"
proof (induction s arbitrary: p)
  case Nil
  then show ?case by simp
next
  case (Cons x s)
  obtain q qs where "split_on c s = q # qs" by (cases "split_on c s") auto
  with Cons show ?case by (auto split: if_splits)
qed

lemma split_join: "ls \<noteq> [] \<Longrightarrow> \<forall>l \<in> set ls. c \<notin> set l \<Longrightarrow> split_on c (join_with [c] ls) = ls"
  by (induction "[c]" ls rule: join_with.induct) (auto simp: split_on_none split_on_append)

lemma join_with_app: "xs \<noteq> [] \<Longrightarrow> ys \<noteq> [] \<Longrightarrow> join_with sep (xs @ ys) = join_with sep xs @ sep @ join_with sep ys"
  by (induction sep xs rule: join_with.induct) (auto simp: neq_Nil_conv)

lemma ends_with_iff: "ends_with s t \<longleftrightarrow> (\<exists>x. s = x @ t)"
  by (auto simp: ends_with_def) (metis append_take_drop_id)

lemma last_n_append [simp]: "n \<le> length ys \<Longrightarrow> last_n n (xs @ ys) = last_n n ys"
  by (simp add: last_n_def)

lemma last_n_all [simp]: "length xs \<le> n \<Longrightarrow> last_n n xs = xs"
  by (simp add: last_n_def)

lemma last_n_split: "\<exists>ys. xs = ys @ last_n n xs"
  by (metis append_take_drop_id last_n_def)

lemma length_last_n [simp]: "length (last_n n xs) = min n (length xs)"
  by (simp add: last_n_def)

lemma labels_join_last:
  assumes "0 < n" shows "labels_of (join_with ''.'' (last_n n (labels_of s))) = last_n n (labels_of s)"
proof (rule split_join)
  have "length (labels_of s) \<noteq> 0" by simp
  with assms show "last_n n (labels_of s) \<noteq> []" by (metis length_last_n length_0_conv min_def not_gr_zero)
  show "\<forall>l \<in> set (last_n n (labels_of s)). CHR ''.'' \<notin> set l"
    by (metis last_n_def in_set_dropD split_on_pieces)
qed

lemma under_apex_labels: "isHostUnderApex host apex \<longleftrightarrow> (\<exists>xs. labels_of host = xs @ labels_of apex)"
proof
  assume "isHostUnderApex host apex"
  then show "\<exists>xs. labels_of host = xs @ labels_of apex"
    by (auto simp: isHostUnderApex_def ends_with_iff split_on_app)
next
  assume "\<exists>xs. labels_of host = xs @ labels_of apex"
  then obtain xs where xs: "labels_of host = xs @ labels_of apex" ..
  have "host = join_with ''.'' (xs @ labels_of apex)" by (metis join_split xs)
  then show "isHostUnderApex host apex"
    by (cases "xs = []") (auto simp: isHostUnderApex_def ends_with_iff join_split join_with_app)
qed

lemma suffix_labels: "s \<in> set MULTI_LABEL_PUBLIC_SUFFIXES \<Longrightarrow> length (labels_of s) = 2"
proof -
  have "list_all (\<lambda>s. length (labels_of s) = 2) MULTI_LABEL_PUBLIC_SUFFIXES" by code_simp
  then show "s \<in> set MULTI_LABEL_PUBLIC_SUFFIXES \<Longrightarrow> ?thesis" by (simp add: list_all_iff)
qed

text \<open>An apex is two labels that are no public suffix, or three of which the last two are.\<close>

definition apex_shape :: "string \<Rightarrow> bool" where
  "apex_shape apex \<longleftrightarrow>
     length (labels_of apex) = 2 \<and> apex \<notin> set MULTI_LABEL_PUBLIC_SUFFIXES \<or>
     length (labels_of apex) = 3 \<and> join_with ''.'' (last_n 2 (labels_of apex)) \<in> set MULTI_LABEL_PUBLIC_SUFFIXES"

lemma extracted_labels:
  assumes "extractApexDomain host = Inr apex" "2 \<le> length (labels_of host)"
  shows "apex_shape apex" and "labels_of apex = last_n (length (labels_of apex)) (labels_of host)"
proof -
  let ?L = "labels_of host"
  have J: "labels_of (join_with ''.'' (last_n 2 ?L)) = last_n 2 ?L" "labels_of (join_with ''.'' (last_n 3 ?L)) = last_n 3 ?L"
    by (simp_all add: labels_join_last)
  have h: "length ?L = 2 \<Longrightarrow> join_with ''.'' (last_n 2 ?L) = host" by (simp add: join_split)
  have n: "last_n 2 (last_n 3 ?L) = last_n 2 ?L" if "3 \<le> length ?L" using that by (simp add: last_n_def Suc_diff_le [symmetric])
  show "apex_shape apex"
  proof (cases "3 \<le> length ?L \<and> join_with ''.'' (last_n 2 ?L) \<in> set MULTI_LABEL_PUBLIC_SUFFIXES")
    case True
    with assms(1) J n show ?thesis by (auto simp: extractApexDomain_def apex_shape_def Let_def)
  next
    case False
    with assms J h show ?thesis
      by (cases "length ?L = 2") (auto simp: extractApexDomain_def apex_shape_def Let_def split: if_splits)
  qed
  show "labels_of apex = last_n (length (labels_of apex)) ?L"
    using assms J by (auto simp: extractApexDomain_def Let_def split: if_splits)
qed

lemma under_apex_extracts:
  assumes "apex_shape apex" "isHostUnderApex host apex"
  shows "extractApexDomain host = Inr apex"
proof -
  from assms(2) obtain xs where xs: "labels_of host = xs @ labels_of apex" by (auto simp: under_apex_labels)
  from assms(1) consider (two) "length (labels_of apex) = 2" "apex \<notin> set MULTI_LABEL_PUBLIC_SUFFIXES"
    | (three) "length (labels_of apex) = 3" "join_with ''.'' (last_n 2 (labels_of apex)) \<in> set MULTI_LABEL_PUBLIC_SUFFIXES"
    by (auto simp: apex_shape_def)
  then show ?thesis
  proof cases
    case two
    have "host \<notin> set MULTI_LABEL_PUBLIC_SUFFIXES"
    proof
      assume m: "host \<in> set MULTI_LABEL_PUBLIC_SUFFIXES"
      then have "xs = []" using suffix_labels [OF m] xs two(1) by simp
      then have "host = apex" by (metis append_Nil join_split xs)
      with m two(2) show False by simp
    qed
    with two xs show ?thesis by (simp add: extractApexDomain_def Let_def join_split)
  next
    case three
    with xs show ?thesis by (simp add: extractApexDomain_def Let_def join_split)
  qed
qed

lemma normalized_labels:
  assumes "apex_normalizeHostname raw = Inr host"
  shows "2 \<le> length (labels_of host)" and "list_all valid_label (labels_of host)"
    and "list_all (\<lambda>l. \<not> starts_with l ''xn--'') (labels_of host)"
proof -
  have "check_labels ls = None \<longleftrightarrow> list_all (\<lambda>l. valid_label l \<and> \<not> starts_with l ''xn--'') ls" for ls
    by (induction ls) auto
  with assms show "2 \<le> length (labels_of host)" "list_all valid_label (labels_of host)"
    "list_all (\<lambda>l. \<not> starts_with l ''xn--'') (labels_of host)"
    by (auto simp: apex_normalizeHostname_def Let_def list_all_iff split: if_splits option.splits)
qed

lemma hostname_apex_shape: "hostnameToApex raw = Inr apex \<Longrightarrow> apex_shape apex"
  by (auto simp: hostnameToApex_def result_simps intro: extracted_labels(1) normalized_labels(1))

lemma under_apex_iff_extracted:
  assumes "apex_shape apex" "2 \<le> length (labels_of host)"
  shows "isHostUnderApex host apex \<longleftrightarrow> extractApexDomain host = Inr apex"
  using assms under_apex_extracts extracted_labels(2)
  by (metis last_n_split under_apex_labels)

lemma one_apex_per_host:
  assumes "apex_shape a" "apex_shape b" "isHostUnderApex host a" "isHostUnderApex host b"
  shows "a = b"
  using under_apex_extracts [OF assms(1,3)] under_apex_extracts [OF assms(2,4)] by simp

end
