(* ===== verification/Organization_Roles.thy ===== *)
theory Organization_Roles
  imports Domain_Names
begin

text \<open>
  Roles of members and scopes of API keys (\<open>packages/auth/src/permissions.ts\<close>), and the conditions
  the database evaluates on the same text (\<open>organization-role-sql.ts\<close>). A role is text, a list of
  role names separated by commas. The lemmas say how far the two readings agree.
\<close>

section \<open>Role sets\<close>

datatype org_role = Owner | Admin | Member

definition ORG_ROLES :: "(string \<times> org_role) list" where
  "ORG_ROLES = [(''owner'', Owner), (''admin'', Admin), (''member'', Member)]"

fun ORG_ROLE_RANK :: "org_role \<Rightarrow> nat" where
  "ORG_ROLE_RANK Owner = 2"
| "ORG_ROLE_RANK Admin = 1"
| "ORG_ROLE_RANK Member = 0"

definition isOrgRole :: "string \<Rightarrow> bool" where
  "isOrgRole val \<longleftrightarrow> jm_has ORG_ROLES val"

text \<open>The loop of \<open>parseOrgRoles\<close>: any segment that is no role, or is there twice, empties the result.\<close>

fun parse_roles :: "string list \<Rightarrow> org_role list \<Rightarrow> org_role list" where
  "parse_roles [] parsed = parsed"
| "parse_roles (role # roles) parsed =
     (if role = [] \<or> role \<noteq> js_trim role \<or> \<not> isOrgRole role then []
      else
        let r = the (jm_get ORG_ROLES role)
        in if r \<in> set parsed then [] else parse_roles roles (parsed @ [r]))"

definition parseOrgRoles :: "string \<Rightarrow> org_role list" where
  "parseOrgRoles val = parse_roles (split_on CHR '','' val) []"

definition hasOrgRole :: "string \<Rightarrow> org_role \<Rightarrow> bool" where
  "hasOrgRole actual required =
     list_ex (\<lambda>role. ORG_ROLE_RANK required \<le> ORG_ROLE_RANK role) (parseOrgRoles actual)"

section \<open>The conditions of the database\<close>

text \<open>\<open>ORG_ROLE_SET_PATTERN_SOURCE\<close>, and the two patterns that look for a segment.\<close>

definition role_set_pattern :: "string \<Rightarrow> bool" where
  "role_set_pattern role = list_all isOrgRole (split_on CHR '','' role)"

definition owner_segment :: "string \<Rightarrow> bool" where
  "owner_segment role \<longleftrightarrow> ''owner'' \<in> set (split_on CHR '','' role)"

definition admin_segment :: "string \<Rightarrow> bool" where
  "admin_segment role \<longleftrightarrow> ''admin'' \<in> set (split_on CHR '','' role)"

definition memberHasOwnerRoleSql :: "string \<Rightarrow> bool" where
  "memberHasOwnerRoleSql role \<longleftrightarrow> role_set_pattern role \<and> owner_segment role"

definition memberHasAdminOrOwnerRoleSql :: "string \<Rightarrow> bool" where
  "memberHasAdminOrOwnerRoleSql role \<longleftrightarrow> role_set_pattern role \<and> (admin_segment role \<or> owner_segment role)"

section \<open>Scopes\<close>

definition CUSTOMER_API_KEY_SCOPES :: "string list" where
  "CUSTOMER_API_KEY_SCOPES =
     [''webhooks:read'', ''webhooks:write'', ''sessions:read'', ''sessions:write'', ''analytics:read'']"

definition isApiKeyScope :: "string \<Rightarrow> bool" where
  "isApiKeyScope val \<longleftrightarrow> val \<in> set CUSTOMER_API_KEY_SCOPES"

definition SCOPE_REQUIRED_ROLE :: "(string \<times> org_role) list" where
  "SCOPE_REQUIRED_ROLE =
     [(''webhooks:read'', Member), (''webhooks:write'', Admin), (''sessions:read'', Member),
      (''sessions:write'', Admin), (''analytics:read'', Member)]"

section \<open>How the readings agree\<close>

lemma org_role_names:
  "jm_get ORG_ROLES r = Some Owner \<longleftrightarrow> r = ''owner''"
  "jm_get ORG_ROLES r = Some Admin \<longleftrightarrow> r = ''admin''"
  "jm_get ORG_ROLES r = Some Member \<longleftrightarrow> r = ''member''"
  by (auto simp: ORG_ROLES_def)

lemma org_role_cases: "isOrgRole r \<longleftrightarrow> r \<in> {''owner'', ''admin'', ''member''}"
  by (auto simp: isOrgRole_def ORG_ROLES_def)

lemma org_role_solid: "isOrgRole r \<Longrightarrow> r \<noteq> [] \<and> js_trim r = r"
  by (auto simp: org_role_cases js_trim_def is_js_space_def)

lemma org_role_inj: "isOrgRole r \<Longrightarrow> isOrgRole s \<Longrightarrow> the (jm_get ORG_ROLES r) = the (jm_get ORG_ROLES s) \<longleftrightarrow> r = s"
  by (auto simp: org_role_cases ORG_ROLES_def)

text \<open>What the loop returns: the roles, when all segments are roles and none is repeated.\<close>

lemma parse_roles_eq:
  "parse_roles roles parsed =
     (if list_all isOrgRole roles \<and> distinct (map (\<lambda>r. the (jm_get ORG_ROLES r)) roles) \<and>
         set (map (\<lambda>r. the (jm_get ORG_ROLES r)) roles) \<inter> set parsed = {}
      then parsed @ map (\<lambda>r. the (jm_get ORG_ROLES r)) roles else [])"
proof (induction roles parsed rule: parse_roles.induct)
  case (1 parsed)
  show ?case by simp
next
  case (2 role roles parsed)
  let ?r = "the (jm_get ORG_ROLES role)"
  show ?case
  proof (cases "isOrgRole role \<and> ?r \<notin> set parsed")
    case True
    then have "parse_roles (role # roles) parsed = parse_roles roles (parsed @ [?r])"
      using org_role_solid [of role] by (simp add: Let_def)
    with 2 [of ?r] True org_role_solid [of role] show ?thesis
      by (simp add: Int_commute [of _ "set parsed"] Int_insert_left insert_disjoint)
  next
    case False
    then show ?thesis using org_role_solid [of role] by (auto simp: Let_def)
  qed
qed

lemma parseOrgRoles_eq:
  "parseOrgRoles val =
     (if role_set_pattern val \<and> distinct (split_on CHR '','' val)
      then map (\<lambda>r. the (jm_get ORG_ROLES r)) (split_on CHR '','' val) else [])"
proof -
  have "distinct (map (\<lambda>r. the (jm_get ORG_ROLES r)) rs) \<longleftrightarrow> distinct rs" if "list_all isOrgRole rs" for rs
    using that by (auto simp: distinct_map inj_on_def list_all_iff org_role_inj)
  then show ?thesis by (auto simp: parseOrgRoles_def parse_roles_eq role_set_pattern_def)
qed

lemma hasOrgRole_owner:
  "hasOrgRole val Owner \<longleftrightarrow> memberHasOwnerRoleSql val \<and> distinct (split_on CHR '','' val)"
proof -
  have "list_ex (\<lambda>r. 2 \<le> ORG_ROLE_RANK (the (jm_get ORG_ROLES r))) rs \<longleftrightarrow> ''owner'' \<in> set rs"
    if "list_all isOrgRole rs" for rs
    using that by (induction rs) (auto simp: org_role_cases ORG_ROLES_def)
  then show ?thesis
    by (auto simp: hasOrgRole_def parseOrgRoles_eq memberHasOwnerRoleSql_def owner_segment_def role_set_pattern_def list_ex_iff)
qed

lemma hasOrgRole_admin:
  "hasOrgRole val Admin \<longleftrightarrow> memberHasAdminOrOwnerRoleSql val \<and> distinct (split_on CHR '','' val)"
proof -
  have "list_ex (\<lambda>r. 1 \<le> ORG_ROLE_RANK (the (jm_get ORG_ROLES r))) rs \<longleftrightarrow> ''owner'' \<in> set rs \<or> ''admin'' \<in> set rs"
    if "list_all isOrgRole rs" for rs
    using that by (induction rs) (auto simp: org_role_cases ORG_ROLES_def)
  then show ?thesis
    by (auto simp: hasOrgRole_def parseOrgRoles_eq memberHasAdminOrOwnerRoleSql_def owner_segment_def
        admin_segment_def role_set_pattern_def list_ex_iff)
qed

text \<open>The database counts a member as an owner whose role names it twice; the code counts no one there.\<close>

lemma repeated_role: "memberHasOwnerRoleSql ''owner,owner'' \<and> \<not> hasOrgRole ''owner,owner'' Member"
  by code_simp

end
