(* ===== verification/Organization_Store.thy ===== *)
theory Organization_Store
  imports Organization_Roles Hello_Auth
begin

text \<open>
  Organizations, their members and their deletion: the tables, the operations on members
  (\<open>api/src/auth/organizations/members/service.ts\<close>), the request, confirmation and cancellation of a
  deletion and the job that carries it out (\<open>packages/auth/src/organization-deletion.ts\<close>), and the
  organizations an account owns alone (\<open>owned-organizations.ts\<close>). Generated identifiers, codes and
  the clock are arguments. The transactions on members take no lock, so each is a read and a write.
\<close>

section \<open>Tables\<close>

record user =
  us_id :: string
  us_email :: string

record member =
  om_id :: string
  om_org :: string
  om_user :: string
  om_role :: string
  om_suspendedAt :: "int option"
  om_suspendedBy :: "string option"

record organization =
  og_id :: string
  og_name :: string
  og_pendingAt :: "int option"
  og_requestedAt :: "int option"
  og_requestedBy :: "string option"

record confirmation =
  cf_id :: string
  cf_identifier :: string
  cf_value :: string
  cf_expiresAt :: int

datatype verification_method = dns_txt

record verified_domain =
  vd_id :: string
  vd_org :: string
  vd_apex :: string
  vd_verifiedAt :: int
  vd_verifiedVia :: verification_method
  vd_verifiedBy :: string
  vd_recheckToken :: "string option"
  vd_lastCheckedAt :: "int option"
  vd_failures :: int
  vd_downgradedAt :: "int option"

record domain_challenge =
  dc_id :: string
  dc_org :: string
  dc_apex :: string
  dc_method :: verification_method
  dc_token :: string
  dc_expiresAt :: int
  dc_createdBy :: string

record redirect_uri =
  ru_id :: string
  ru_org :: string
  ru_domain :: string
  ru_pattern :: string
  ru_createdBy :: string

record tenants =
  tn_users :: "user list"
  tn_orgs :: "organization list"
  tn_members :: "member list"
  tn_confirmations :: "confirmation list"
  tn_domains :: "verified_domain list"
  tn_challenges :: "domain_challenge list"
  tn_uris :: "redirect_uri list"

section \<open>Members\<close>

definition active_membership :: "tenants \<Rightarrow> string \<Rightarrow> string \<Rightarrow> member option" where
  "active_membership t org userId =
     find (\<lambda>m. om_org m = org \<and> om_user m = userId \<and> om_suspendedAt m = None) (tn_members t)"

definition getActiveMembershipById :: "tenants \<Rightarrow> string \<Rightarrow> string \<Rightarrow> member option" where
  "getActiveMembershipById t org memberId =
     find (\<lambda>m. om_id m = memberId \<and> om_org m = org \<and> om_suspendedAt m = None) (tn_members t)"

definition other_active_owners :: "tenants \<Rightarrow> string \<Rightarrow> string \<Rightarrow> member list" where
  "other_active_owners t org excludingMemberId =
     filter (\<lambda>m. om_org m = org \<and> om_id m \<noteq> excludingMemberId \<and> om_suspendedAt m = None \<and> owner_segment (om_role m))
       (tn_members t)"

definition countOtherActiveOwners :: "tenants \<Rightarrow> string \<Rightarrow> string \<Rightarrow> nat" where
  "countOtherActiveOwners t org excludingMemberId = length (other_active_owners t org excludingMemberId)"

definition canManageMembers :: "tenants \<Rightarrow> string \<Rightarrow> string \<Rightarrow> bool" where
  "canManageMembers t org userId =
     (case active_membership t org userId of None \<Rightarrow> False | Some m \<Rightarrow> hasOrgRole (om_role m) Admin)"

datatype member_error =
  Member_forbidden | Member_not_found | Member_last_owner | Member_not_suspended | Member_active_conflict | Member_frozen

text \<open>The read half of \<open>suspendMember\<close> and \<open>leaveOrganization\<close> gives the row the write half suspends.\<close>

definition last_owner_guard :: "tenants \<Rightarrow> string \<Rightarrow> member \<Rightarrow> member_error + string" where
  "last_owner_guard t org m =
     (if hasOrgRole (om_role m) Owner \<and> countOtherActiveOwners t org (om_id m) = 0 then Inl Member_last_owner
      else Inr (om_id m))"

definition suspend_read :: "tenants \<Rightarrow> string \<Rightarrow> string \<Rightarrow> member_error + string" where
  "suspend_read t org memberId =
     (case getActiveMembershipById t org memberId of
        None \<Rightarrow> Inl Member_not_found
      | Some m \<Rightarrow> last_owner_guard t org m)"

definition leave_read :: "tenants \<Rightarrow> string \<Rightarrow> string \<Rightarrow> member_error + string" where
  "leave_read t org userId =
     (case active_membership t org userId of
        None \<Rightarrow> Inl Member_not_found
      | Some m \<Rightarrow> last_owner_guard t org m)"

definition update_members :: "tenants \<Rightarrow> (member \<Rightarrow> bool) \<Rightarrow> (member \<Rightarrow> member) \<Rightarrow> tenants" where
  "update_members t cond f = t\<lparr>tn_members := map (\<lambda>m. if cond m then f m else m) (tn_members t)\<rparr>"

definition suspend_write :: "int \<Rightarrow> string \<Rightarrow> tenants \<Rightarrow> string \<Rightarrow> tenants" where
  "suspend_write now userId t memberId =
     update_members t (\<lambda>m. om_id m = memberId)
       (\<lambda>m. m\<lparr>om_suspendedAt := Some now, om_suspendedBy := Some userId\<rparr>)"

definition suspendMember :: "int \<Rightarrow> tenants \<Rightarrow> string \<Rightarrow> string \<Rightarrow> string \<Rightarrow> tenants \<times> (member_error + string)" where
  "suspendMember now t org userId memberId =
     (case suspend_read t org memberId of
        Inl e \<Rightarrow> (t, Inl e)
      | Inr i \<Rightarrow> (suspend_write now userId t i, Inr i))"

definition leaveOrganization :: "int \<Rightarrow> tenants \<Rightarrow> string \<Rightarrow> string \<Rightarrow> tenants \<times> (member_error + string)" where
  "leaveOrganization now t org userId =
     (case leave_read t org userId of
        Inl e \<Rightarrow> (t, Inl e)
      | Inr i \<Rightarrow> (suspend_write now userId t i, Inr i))"

text \<open>At most one active membership of a user: the partial unique index on members.\<close>

definition memberships_unique :: "member list \<Rightarrow> bool" where
  "memberships_unique ms \<longleftrightarrow>
     distinct (map (\<lambda>m. (om_org m, om_user m)) (filter (\<lambda>m. om_suspendedAt m = None) ms))"

definition reinstateMember :: "tenants \<Rightarrow> string \<Rightarrow> string \<Rightarrow> tenants \<times> (member_error + string)" where
  "reinstateMember t org memberId =
     (case find (\<lambda>m. om_id m = memberId \<and> om_org m = org) (tn_members t) of
        None \<Rightarrow> (t, Inl Member_not_found)
      | Some target \<Rightarrow>
          if om_suspendedAt target = None then (t, Inl Member_not_suspended)
          else
            let t1 = update_members t (\<lambda>m. om_id m = memberId) (\<lambda>m. m\<lparr>om_suspendedAt := None, om_suspendedBy := None\<rparr>)
            in if memberships_unique (tn_members t1) then (t1, Inr (om_id target)) else (t, Inl Member_active_conflict))"

section \<open>Deletion\<close>

datatype org_error =
  NOT_A_MEMBER | ORG_FORBIDDEN | ORG_NOT_FOUND | ORG_FROZEN | ALREADY_SCHEDULED | USER_NOT_FOUND
| INVALID_CODE | CODE_EXPIRED | NOT_SCHEDULED | Mail_throws

definition CONFIRMATION_CODE_TTL_MS :: int where "CONFIRMATION_CODE_TTL_MS = 24 * 60 * 60 * 1000"

definition GRACE_WINDOW_MS :: int where "GRACE_WINDOW_MS = 48 * 60 * 60 * 1000"

definition verificationIdentifier :: "string \<Rightarrow> string \<Rightarrow> string" where
  "verificationIdentifier orgId userId = ''org-delete-confirm:'' @ orgId @ '':'' @ userId"

definition getOrgRoleOrThrow :: "tenants \<Rightarrow> string \<Rightarrow> string \<Rightarrow> org_error + string" where
  "getOrgRoleOrThrow t orgId userId =
     (case active_membership t orgId userId of None \<Rightarrow> Inl NOT_A_MEMBER | Some m \<Rightarrow> Inr (om_role m))"

definition find_org :: "tenants \<Rightarrow> string \<Rightarrow> organization option" where
  "find_org t orgId = find (\<lambda>g. og_id g = orgId) (tn_orgs t)"

definition getOrgRowOrThrow :: "tenants \<Rightarrow> string \<Rightarrow> org_error + organization" where
  "getOrgRowOrThrow t orgId = (case find_org t orgId of None \<Rightarrow> Inl ORG_NOT_FOUND | Some g \<Rightarrow> Inr g)"

definition isOrgFrozen :: "organization \<Rightarrow> bool" where
  "isOrgFrozen g \<longleftrightarrow> og_pendingAt g \<noteq> None"

definition assertOrgNotFrozen :: "tenants \<Rightarrow> string \<Rightarrow> org_error + unit" where
  "assertOrgNotFrozen t orgId =
     (case find_org t orgId of None \<Rightarrow> Inr () | Some g \<Rightarrow> if isOrgFrozen g then Inl ORG_FROZEN else Inr ())"

text \<open>\<open>toUpperCase\<close> on ASCII.\<close>

definition upper_ascii :: "string \<Rightarrow> string" where
  "upper_ascii s = map (\<lambda>c. if is_lower c then char_of (of_char c - 32 :: nat) else c) s"

text \<open>\<open>mailed\<close> tells that the message with the code, if one is sent, does not throw.\<close>

definition requestOrgDeletion ::
  "bool \<Rightarrow> string \<Rightarrow> string \<Rightarrow> int \<Rightarrow> tenants \<Rightarrow> string \<Rightarrow> string \<Rightarrow> tenants \<times> (org_error + string)" where
  "requestOrgDeletion mailed i random now t organizationId userId =
     (case getOrgRoleOrThrow t organizationId userId of
        Inl e \<Rightarrow> (t, Inl e)
      | Inr role \<Rightarrow>
          if \<not> hasOrgRole role Owner then (t, Inl ORG_FORBIDDEN)
          else
            case getOrgRowOrThrow t organizationId of
              Inl e \<Rightarrow> (t, Inl e)
            | Inr org \<Rightarrow>
                if isOrgFrozen org then (t, Inl ALREADY_SCHEDULED)
                else
                  case find (\<lambda>u. us_id u = userId) (tn_users t) of
                    None \<Rightarrow> (t, Inl USER_NOT_FOUND)
                  | Some requester \<Rightarrow>
                      let code = upper_ascii random;
                          identifier = verificationIdentifier organizationId userId;
                          row = \<lparr>cf_id = i, cf_identifier = identifier, cf_value = code,
                                 cf_expiresAt = now + CONFIRMATION_CODE_TTL_MS\<rparr>;
                          t1 = t\<lparr>tn_confirmations :=
                                 filter (\<lambda>c. cf_identifier c \<noteq> identifier) (tn_confirmations t) @ [row]\<rparr>
                      in (t1, if mailed then Inr (us_email requester) else Inl Mail_throws))"

definition update_orgs :: "tenants \<Rightarrow> (organization \<Rightarrow> bool) \<Rightarrow> (organization \<Rightarrow> organization) \<Rightarrow> tenants" where
  "update_orgs t cond f = t\<lparr>tn_orgs := map (\<lambda>g. if cond g then f g else g) (tn_orgs t)\<rparr>"

text \<open>The condition on the acting member that the updates of an organization carry.\<close>

definition has_member_with :: "tenants \<Rightarrow> (string \<Rightarrow> bool) \<Rightarrow> string \<Rightarrow> string \<Rightarrow> bool" where
  "has_member_with t cond orgId userId \<longleftrightarrow>
     list_ex (\<lambda>m. om_org m = orgId \<and> om_user m = userId \<and> om_suspendedAt m = None \<and> cond (om_role m)) (tn_members t)"

text \<open>The transaction of \<open>confirmOrgDeletion\<close>, one step.\<close>

definition confirm_transaction ::
  "int \<Rightarrow> tenants \<Rightarrow> string \<Rightarrow> string \<Rightarrow> string \<Rightarrow> tenants \<times> (org_error + int)" where
  "confirm_transaction now t organizationId userId submittedCode =
     (let pendingDeletionAt = now + GRACE_WINDOW_MS
      in case find (\<lambda>c. cf_identifier c = verificationIdentifier organizationId userId) (tn_confirmations t) of
        None \<Rightarrow> (t, Inl INVALID_CODE)
      | Some verification \<Rightarrow>
          if cf_expiresAt verification < now then (t, Inl CODE_EXPIRED)
          else if \<not> constantTimeStringEqual (cf_value verification) submittedCode then (t, Inl INVALID_CODE)
          else
            case find_org t organizationId of
              None \<Rightarrow> (t, Inl ORG_NOT_FOUND)
            | Some latestOrg \<Rightarrow>
                if isOrgFrozen latestOrg then (t, Inl ALREADY_SCHEDULED)
                else if \<not> has_member_with t memberHasOwnerRoleSql organizationId userId then (t, Inl ORG_FORBIDDEN)
                else
                  let t1 = update_orgs t (\<lambda>g. og_id g = organizationId)
                             (\<lambda>g. g\<lparr>og_pendingAt := Some pendingDeletionAt, og_requestedAt := Some now,
                                    og_requestedBy := Some userId\<rparr>)
                  in (t1\<lparr>tn_confirmations := filter (\<lambda>c. cf_id c \<noteq> cf_id verification) (tn_confirmations t1)\<rparr>,
                      Inr pendingDeletionAt))"

definition confirmOrgDeletion ::
  "int \<Rightarrow> tenants \<Rightarrow> string \<Rightarrow> string \<Rightarrow> string \<Rightarrow> tenants \<times> (org_error + int)" where
  "confirmOrgDeletion now t organizationId userId code =
     (case getOrgRoleOrThrow t organizationId userId of
        Inl e \<Rightarrow> (t, Inl e)
      | Inr role \<Rightarrow>
          if \<not> hasOrgRole role Owner then (t, Inl ORG_FORBIDDEN)
          else
            case getOrgRowOrThrow t organizationId of
              Inl e \<Rightarrow> (t, Inl e)
            | Inr org \<Rightarrow>
                if isOrgFrozen org then (t, Inl ALREADY_SCHEDULED)
                else confirm_transaction now t organizationId userId (upper_ascii (js_trim code)))"

definition cancelOrgDeletion :: "tenants \<Rightarrow> string \<Rightarrow> string \<Rightarrow> tenants \<times> (org_error + unit)" where
  "cancelOrgDeletion t organizationId actingUserId =
     (case getOrgRoleOrThrow t organizationId actingUserId of
        Inl e \<Rightarrow> (t, Inl e)
      | Inr role \<Rightarrow>
          if \<not> hasOrgRole role Admin then (t, Inl ORG_FORBIDDEN)
          else
            case getOrgRowOrThrow t organizationId of
              Inl e \<Rightarrow> (t, Inl e)
            | Inr org \<Rightarrow>
                if \<not> isOrgFrozen org then (t, Inl NOT_SCHEDULED)
                else if \<not> has_member_with t memberHasAdminOrOwnerRoleSql organizationId actingUserId
                  then (t, Inl ORG_FORBIDDEN)
                else
                  (update_orgs t (\<lambda>g. og_id g = organizationId)
                     (\<lambda>g. g\<lparr>og_pendingAt := None, og_requestedAt := None, og_requestedBy := None\<rparr>), Inr ()))"

text \<open>Deleting organizations, with the rows that refer to them.\<close>

definition hardDeleteOrganizations :: "tenants \<Rightarrow> string list \<Rightarrow> tenants" where
  "hardDeleteOrganizations t orgIds =
     t\<lparr>tn_orgs := filter (\<lambda>g. og_id g \<notin> set orgIds) (tn_orgs t),
       tn_members := filter (\<lambda>m. om_org m \<notin> set orgIds) (tn_members t),
       tn_domains := filter (\<lambda>d. vd_org d \<notin> set orgIds) (tn_domains t),
       tn_challenges := filter (\<lambda>c. dc_org c \<notin> set orgIds) (tn_challenges t),
       tn_uris := filter (\<lambda>u. ru_org u \<notin> set orgIds) (tn_uris t)\<rparr>"

text \<open>The select of the job; the delete that follows names the rows by their identifiers alone.\<close>

definition due_organizations :: "int \<Rightarrow> nat \<Rightarrow> tenants \<Rightarrow> string list" where
  "due_organizations now n t =
     take n (map og_id (filter (\<lambda>g. case og_pendingAt g of None \<Rightarrow> False | Some pendingAt \<Rightarrow> pendingAt \<le> now) (tn_orgs t)))"

definition processDueOrganizationDeletions :: "int \<Rightarrow> nat \<Rightarrow> tenants \<Rightarrow> tenants \<times> string list" where
  "processDueOrganizationDeletions now n t =
     (let due = due_organizations now n t in (hardDeleteOrganizations t due, due))"

definition findSoleOwnedOrganizations :: "tenants \<Rightarrow> string \<Rightarrow> organization list" where
  "findSoleOwnedOrganizations t userId =
     filter (\<lambda>g.
       has_member_with t memberHasOwnerRoleSql (og_id g) userId \<and>
       \<not> list_ex (\<lambda>m. om_org m = og_id g \<and> om_user m \<noteq> userId \<and> om_suspendedAt m = None \<and> memberHasOwnerRoleSql (om_role m))
           (tn_members t)) (tn_orgs t)"

end
