(* ===== verification/Txt_Lookup.thy ===== *)
theory Txt_Lookup
  imports Share_Contract
begin

text \<open>
  The lookup of TXT records over HTTPS (\<open>packages/auth/src/domain-verification/doh.ts\<close>) and the format
  of a record (\<open>tokens.ts\<close>). \<open>fetch\<close> gives what the request of a URL answers; a request that throws
  includes the one the timer aborts.
\<close>

section \<open>Records\<close>

definition DNS_TOKEN_PREFIX :: string where "DNS_TOKEN_PREFIX = ''kayle-id-verification=''"

definition RECORD_NAME_PREFIX :: string where "RECORD_NAME_PREFIX = ''_kayle-id-verification.''"

definition formatDnsRecordValue :: "string \<Rightarrow> string" where
  "formatDnsRecordValue token = DNS_TOKEN_PREFIX @ token"

definition dnsRecordNameForApex :: "string \<Rightarrow> string" where
  "dnsRecordNameForApex apexDomain = RECORD_NAME_PREFIX @ apexDomain"

section \<open>Values of a record\<close>

text \<open>\<open>includes('" "')\<close>.\<close>

fun has_quoted_gap :: "string \<Rightarrow> bool" where
  "has_quoted_gap (a # b # c # cs) \<longleftrightarrow>
     a = CHR 0x22 \<and> b = CHR '' '' \<and> c = CHR 0x22 \<or> has_quoted_gap (b # c # cs)"
| "has_quoted_gap _ \<longleftrightarrow> False"

lemma dropWhile_rest [termination_simp]: "dropWhile P cs = d # rest \<Longrightarrow> length rest < Suc (length cs)"
  by (metis length_Cons length_dropWhile_le less_Suc_eq_le Suc_leD)

text \<open>\<open>replace(/"\s+"/gu, "")\<close>, from left to right.\<close>

fun drop_quoted_gaps :: "string \<Rightarrow> string" where
  "drop_quoted_gaps [] = []"
| "drop_quoted_gaps (c # cs) =
     (if c = CHR 0x22
      then
        (case dropWhile is_js_space cs of
           [] \<Rightarrow> c # drop_quoted_gaps cs
         | d # rest \<Rightarrow>
             if d = CHR 0x22 \<and> is_js_space (hd cs) then drop_quoted_gaps rest else c # drop_quoted_gaps cs)
      else c # drop_quoted_gaps cs)"

definition stripTxtQuoting :: "string \<Rightarrow> string" where
  "stripTxtQuoting raw =
     (let trimmed = js_trim raw;
          joined = (if has_quoted_gap trimmed then drop_quoted_gaps trimmed else trimmed)
      in if joined \<noteq> [] \<and> hd joined = CHR 0x22 \<and> last joined = CHR 0x22 then butlast (tl joined) else joined)"

section \<open>Queries\<close>

definition PRIMARY_DOH_URL :: string where "PRIMARY_DOH_URL = ''https://cloudflare-dns.com/dns-query''"

definition FALLBACK_DOH_URL :: string where "FALLBACK_DOH_URL = ''https://dns.google/resolve''"

datatype doh_reason = no_record | network_error | invalid_response

text \<open>What a request gives: it throws, or a response with its \<open>ok\<close> and the value of its JSON, if it is any.\<close>

datatype doh_reply = Fetch_throws | Response bool "json option"

text \<open>A query fails with a reason, throws (\<open>None\<close>), or has values.\<close>

type_synonym doh_outcome = "doh_reason + string list"

definition json_field :: "json \<Rightarrow> string \<Rightarrow> json option" where
  "json_field v key = (case v of JObj entries \<Rightarrow> jm_get entries key | _ \<Rightarrow> None)"

definition txt_values :: "json list \<Rightarrow> string list" where
  "txt_values answers =
     concat (map (\<lambda>a.
       if json_field a ''type'' = Some (JNum 16)
       then (case json_field a ''data'' of Some (JStr d) \<Rightarrow> [stripTxtQuoting d] | _ \<Rightarrow> [])
       else []) answers)"

text \<open>\<open>encodeURIComponent\<close>, which leaves the names of records as they are.\<close>

definition uri_unreserved :: "char \<Rightarrow> bool" where
  "uri_unreserved c \<longleftrightarrow>
     (let n = (of_char c :: nat)
      in 48 \<le> n \<and> n \<le> 57 \<or> 65 \<le> n \<and> n \<le> 90 \<or> 97 \<le> n \<and> n \<le> 122 \<or> n \<in> {33, 39, 40, 41, 42, 45, 46, 95, 126})"

definition hex_upper :: "nat \<Rightarrow> char" where
  "hex_upper n = (if n < 10 then char_of (48 + n) else char_of (55 + n))"

definition percent :: "nat \<Rightarrow> string" where
  "percent b = [CHR ''%'', hex_upper (b div 16), hex_upper (b mod 16)]"

definition encodeURIComponent :: "string \<Rightarrow> string" where
  "encodeURIComponent s =
     concat (map (\<lambda>c.
       let n = (of_char c :: nat)
       in if uri_unreserved c then [c]
          else if n < 128 then percent n
          else percent (192 + n div 64) @ percent (128 + n mod 64)) s)"

definition query_url :: "string \<Rightarrow> string \<Rightarrow> string" where
  "query_url url recordName = url @ ''?name='' @ encodeURIComponent recordName @ ''&type=TXT''"

definition queryDoh :: "(string \<Rightarrow> doh_reply) \<Rightarrow> string \<Rightarrow> string \<Rightarrow> doh_outcome option" where
  "queryDoh fetch recordName url =
     (case fetch (query_url url recordName) of
        Fetch_throws \<Rightarrow> Some (Inl network_error)
      | Response resp_ok body \<Rightarrow>
          if \<not> resp_ok then Some (Inl network_error)
          else
            case body of
              None \<Rightarrow> Some (Inl invalid_response)
            | Some JNull \<Rightarrow> None
            | Some v \<Rightarrow>
                let failed = (case json_field v ''Status'' of Some (JNum n) \<Rightarrow> n \<noteq> 0 | _ \<Rightarrow> False);
                    vals = txt_values (case json_field v ''Answer'' of Some (JArr answers) \<Rightarrow> answers | _ \<Rightarrow> [])
                in if failed \<or> vals = [] then Some (Inl no_record) else Some (Inr vals))"

definition lookupTxt :: "(string \<Rightarrow> doh_reply) \<Rightarrow> string \<Rightarrow> doh_outcome option" where
  "lookupTxt fetch recordName =
     (let primary = queryDoh fetch recordName PRIMARY_DOH_URL
      in if primary = Some (Inl network_error) then queryDoh fetch recordName FALLBACK_DOH_URL else primary)"

section \<open>Reading a record back\<close>

text \<open>How a resolver prints a record: its chunks in quotes, with spaces between.\<close>

definition quoted :: "string \<Rightarrow> string" where
  "quoted chunk = CHR 0x22 # chunk @ [CHR 0x22]"

definition print_txt :: "string list \<Rightarrow> string" where
  "print_txt chunks = join_with '' '' (map quoted chunks)"

definition plain_chunk :: "string \<Rightarrow> bool" where
  "plain_chunk chunk \<longleftrightarrow> list_all (\<lambda>c. c \<noteq> CHR 0x22 \<and> \<not> is_js_space c) chunk"

lemma quote_not_space [simp]: "\<not> is_js_space CHR 0x22" "is_js_space CHR '' ''"
  by (simp_all add: is_js_space_def)

lemma drop_gaps_chunk:
  assumes "plain_chunk chunk"
  shows "drop_quoted_gaps (chunk @ r) = chunk @ drop_quoted_gaps r"
  using assms by (induction chunk) (auto simp: plain_chunk_def)

text \<open>The opening quote of a chunk is never taken for the closing one of a gap.\<close>

lemma drop_gaps_open:
  assumes "plain_chunk chunk"
  shows "drop_quoted_gaps (CHR 0x22 # chunk @ CHR 0x22 # r) = CHR 0x22 # drop_quoted_gaps (chunk @ CHR 0x22 # r)"
  using assms by (cases chunk) (auto simp: plain_chunk_def)

definition printed_tail :: "string list \<Rightarrow> string" where
  "printed_tail chunks = tl (print_txt chunks)"

lemma print_txt_Cons: "print_txt (x # xs) = CHR 0x22 # printed_tail (x # xs)"
  by (cases xs) (auto simp: print_txt_def quoted_def printed_tail_def)

lemma printed_tail_one: "printed_tail [x] = x @ [CHR 0x22]"
  by (simp add: print_txt_def quoted_def printed_tail_def)

lemma printed_tail_more: "printed_tail (x # y # ys) = x @ CHR 0x22 # CHR '' '' # CHR 0x22 # printed_tail (y # ys)"
  by (cases ys) (auto simp: print_txt_def quoted_def printed_tail_def)

lemma drop_gaps_tail:
  "list_all plain_chunk (x # xs) \<Longrightarrow> drop_quoted_gaps (printed_tail (x # xs)) = x @ concat xs @ [CHR 0x22]"
proof (induction xs arbitrary: x)
  case Nil
  then show ?case by (simp add: printed_tail_one drop_gaps_chunk)
next
  case (Cons y ys)
  then show ?case by (simp add: printed_tail_more drop_gaps_chunk)
qed

lemma printed_tail_open: "\<exists>r. printed_tail (x # xs) = x @ CHR 0x22 # r"
  by (cases xs) (auto simp: printed_tail_one printed_tail_more)

lemma drop_gaps_printed:
  assumes "list_all plain_chunk (x # xs)"
  shows "drop_quoted_gaps (print_txt (x # xs)) = quoted (x @ concat xs)"
proof -
  obtain r where r: "printed_tail (x # xs) = x @ CHR 0x22 # r" using printed_tail_open by blast
  from assms have "plain_chunk x" by simp
  from drop_gaps_open [OF this, of r] drop_gaps_tail [OF assms] r show ?thesis
    by (simp add: print_txt_Cons quoted_def)
qed

lemma has_gap_append: "has_quoted_gap (a @ CHR 0x22 # CHR '' '' # CHR 0x22 # r)"
proof (induction a)
  case Nil
  then show ?case by simp
next
  case (Cons c a)
  then show ?case by (cases a; cases "tl a") auto
qed

lemma no_gap_plain: "plain_chunk x \<Longrightarrow> \<not> has_quoted_gap (x @ [CHR 0x22])"
proof (induction x)
  case Nil
  then show ?case by simp
next
  case (Cons c x)
  then show ?case by (cases x; cases "tl x") (auto simp: plain_chunk_def)
qed

lemma strip_print_txt:
  assumes "list_all plain_chunk (x # xs)"
  shows "stripTxtQuoting (print_txt (x # xs)) = concat (x # xs)"
proof -
  have q: "hd (quoted y) = CHR 0x22" "last (quoted y) = CHR 0x22" "butlast (tl (quoted y)) = y" "quoted y \<noteq> []" for y
    by (simp_all add: quoted_def)
  have l: "last (printed_tail (y # ys)) = CHR 0x22" for y ys
    by (induction ys arbitrary: y) (auto simp: printed_tail_one printed_tail_more)
  have "solid_ends (print_txt (x # xs))"
    using l [of x xs] printed_tail_open [of x xs] by (auto simp: solid_ends_def print_txt_Cons)
  then have t: "js_trim (print_txt (x # xs)) = print_txt (x # xs)" by (rule solid_ends_trim)
  show ?thesis
  proof (cases xs)
    case Nil
    have "\<not> has_quoted_gap (CHR 0x22 # x @ [CHR 0x22])"
      using assms no_gap_plain [of x] by (cases x; cases "tl x") (auto simp: plain_chunk_def)
    then have "\<not> has_quoted_gap (print_txt (x # xs))" by (simp add: Nil print_txt_Cons printed_tail_one)
    with t Nil show ?thesis by (simp add: stripTxtQuoting_def print_txt_Cons printed_tail_one)
  next
    case (Cons y ys)
    have "has_quoted_gap (print_txt (x # xs))"
      using has_gap_append [of "CHR 0x22 # x" "printed_tail (y # ys)"]
      by (simp add: Cons print_txt_Cons printed_tail_more)
    with t drop_gaps_printed [OF assms] show ?thesis by (simp add: stripTxtQuoting_def Let_def q)
  qed
qed

text \<open>The value of a token is one such chunk.\<close>

lemma plain_record_value: "plain_chunk token \<Longrightarrow> plain_chunk (formatDnsRecordValue token)"
  by (simp add: formatDnsRecordValue_def DNS_TOKEN_PREFIX_def plain_chunk_def is_js_space_def)

lemma format_value_inj: "formatDnsRecordValue s = formatDnsRecordValue t \<longleftrightarrow> s = t"
  by (simp add: formatDnsRecordValue_def)

end
