(* ===== verification/Domain_Service.thy ===== *)
theory Domain_Service
  imports Organization_Store Txt_Lookup
begin

text \<open>
  The ownership of domains (\<open>packages/auth/src/domain-verification/service.ts\<close>): challenges, their
  verification, the domains an organization holds, the redirect URIs registered on them and the
  periodic recheck. A verification reads, asks the resolver and then writes in a transaction; a
  recheck selects rows, asks and then writes by the row's identifier. The parts are separate
  definitions, so that other requests can come between. The two unique indexes of the table of
  domains are part of the model: a write that breaks one throws and changes nothing.
\<close>

datatype domain_error =
  APEX_INVALID | APEX_TAKEOVER_REQUIRED string | CHALLENGE_EXPIRED | CHALLENGE_NOT_FOUND | DNS_NOT_PROPAGATED
| DNS_LOOKUP_FAILED | DOMAIN_NOT_FOUND | DOMAIN_FORBIDDEN | Domain_throws

definition DNS_CHALLENGE_TTL_MS :: int where "DNS_CHALLENGE_TTL_MS = 7 * 24 * 60 * 60 * 1000"

section \<open>Reads\<close>

definition vd_active :: "verified_domain \<Rightarrow> bool" where
  "vd_active d \<longleftrightarrow> vd_downgradedAt d = None"

definition findConflictingActiveOwner :: "tenants \<Rightarrow> string \<Rightarrow> string \<Rightarrow> organization option" where
  "findConflictingActiveOwner t apexDomain excludingOrganizationId =
     (case filter (\<lambda>d. vd_apex d = apexDomain \<and> vd_active d \<and> vd_org d \<noteq> excludingOrganizationId \<and>
                       find_org t (vd_org d) \<noteq> None) (tn_domains t) of
        [] \<Rightarrow> None
      | d # _ \<Rightarrow> find_org t (vd_org d))"

definition assertOwner :: "tenants \<Rightarrow> string \<Rightarrow> string \<Rightarrow> domain_error + unit" where
  "assertOwner t organizationId userId =
     (case active_membership t organizationId userId of
        None \<Rightarrow> Inl DOMAIN_FORBIDDEN
      | Some m \<Rightarrow> if hasOrgRole (om_role m) Owner then Inr () else Inl DOMAIN_FORBIDDEN)"

definition normalizeApexOrThrow :: "string \<Rightarrow> domain_error + string" where
  "normalizeApexOrThrow rawApex = (case hostnameToApex rawApex of Inl _ \<Rightarrow> Inl APEX_INVALID | Inr apex \<Rightarrow> Inr apex)"

section \<open>Challenges\<close>

definition start_transaction :: "tenants \<Rightarrow> domain_challenge \<Rightarrow> tenants" where
  "start_transaction t row =
     t\<lparr>tn_challenges :=
         filter (\<lambda>c. \<not> (dc_org c = dc_org row \<and> dc_apex c = dc_apex row \<and> dc_method c = dns_txt)) (tn_challenges t) @ [row]\<rparr>"

record challenge_result =
  cr_challengeId :: string
  cr_conflict :: "string option"
  cr_recordName :: string
  cr_recordValue :: string
  cr_expiresAt :: int

definition startDnsChallenge ::
  "string \<Rightarrow> string \<Rightarrow> int \<Rightarrow> tenants \<Rightarrow> string \<Rightarrow> string \<Rightarrow> string \<Rightarrow> tenants \<times> (domain_error + challenge_result)" where
  "startDnsChallenge i token now t organizationId userId rawApex =
     (case assertOwner t organizationId userId of
        Inl e \<Rightarrow> (t, Inl e)
      | Inr _ \<Rightarrow>
          case normalizeApexOrThrow rawApex of
            Inl e \<Rightarrow> (t, Inl e)
          | Inr apexDomain \<Rightarrow>
              let expiresAt = now + DNS_CHALLENGE_TTL_MS;
                  row = \<lparr>dc_id = i, dc_org = organizationId, dc_apex = apexDomain, dc_method = dns_txt, dc_token = token,
                         dc_expiresAt = expiresAt, dc_createdBy = userId\<rparr>
              in (start_transaction t row,
                  Inr \<lparr>cr_challengeId = i,
                       cr_conflict = map_option og_name (findConflictingActiveOwner t apexDomain organizationId),
                       cr_recordName = dnsRecordNameForApex apexDomain,
                       cr_recordValue = formatDnsRecordValue token,
                       cr_expiresAt = expiresAt\<rparr>))"

section \<open>Verification\<close>

text \<open>What a verification carries from its reads to its writes.\<close>

record pending_verify =
  pv_user :: string
  pv_challenge :: domain_challenge
  pv_conflict :: "organization option"

definition verify_read ::
  "int \<Rightarrow> tenants \<Rightarrow> string \<Rightarrow> string \<Rightarrow> string \<Rightarrow> bool \<Rightarrow> domain_error + pending_verify" where
  "verify_read now t organizationId userId challengeId acknowledgeTakeover =
     rbind (assertOwner t organizationId userId) (\<lambda>_.
       case find (\<lambda>c. dc_id c = challengeId \<and> dc_org c = organizationId \<and> dc_method c = dns_txt) (tn_challenges t) of
         None \<Rightarrow> Inl CHALLENGE_NOT_FOUND
       | Some challenge \<Rightarrow>
           if dc_expiresAt challenge < now then Inl CHALLENGE_EXPIRED
           else
             let conflictingOwner = findConflictingActiveOwner t (dc_apex challenge) organizationId
             in case conflictingOwner of
                  Some owner \<Rightarrow>
                    if acknowledgeTakeover
                    then Inr \<lparr>pv_user = userId, pv_challenge = challenge, pv_conflict = Some owner\<rparr>
                    else Inl (APEX_TAKEOVER_REQUIRED (og_name owner))
                | None \<Rightarrow> Inr \<lparr>pv_user = userId, pv_challenge = challenge, pv_conflict = None\<rparr>)"

definition expected_value :: "string \<Rightarrow> doh_outcome option \<Rightarrow> domain_error + unit" where
  "expected_value token lookup =
     (case lookup of
        None \<Rightarrow> Inl Domain_throws
      | Some (Inl reason) \<Rightarrow> Inl (if reason = no_record then DNS_NOT_PROPAGATED else DNS_LOOKUP_FAILED)
      | Some (Inr vals) \<Rightarrow>
          if list_ex (\<lambda>v. v = formatDnsRecordValue token) vals then Inr () else Inl DNS_NOT_PROPAGATED)"

definition verify_lookup :: "(string \<Rightarrow> doh_reply) \<Rightarrow> pending_verify \<Rightarrow> domain_error + unit" where
  "verify_lookup fetch pv =
     expected_value (dc_token (pv_challenge pv)) (lookupTxt fetch (dnsRecordNameForApex (dc_apex (pv_challenge pv))))"

definition update_domains :: "tenants \<Rightarrow> (verified_domain \<Rightarrow> bool) \<Rightarrow> (verified_domain \<Rightarrow> verified_domain) \<Rightarrow> tenants" where
  "update_domains t cond f = t\<lparr>tn_domains := map (\<lambda>d. if cond d then f d else d) (tn_domains t)\<rparr>"

text \<open>\<open>auth_org_verified_domains_active_apex_uidx\<close>.\<close>

definition active_apexes_unique :: "tenants \<Rightarrow> bool" where
  "active_apexes_unique t \<longleftrightarrow> distinct (map vd_apex (filter vd_active (tn_domains t)))"

text \<open>The insert with its update on a conflict on organization and apex; the identifier of the row.\<close>

definition upsert_domain :: "string \<Rightarrow> string \<Rightarrow> int \<Rightarrow> tenants \<Rightarrow> domain_challenge \<Rightarrow> tenants \<times> string" where
  "upsert_domain i userId now t challenge =
     (let same = (\<lambda>d. vd_org d = dc_org challenge \<and> vd_apex d = dc_apex challenge)
      in case find same (tn_domains t) of
           Some existing \<Rightarrow>
             (update_domains t same
                (\<lambda>d. d\<lparr>vd_verifiedAt := now, vd_verifiedVia := dns_txt, vd_verifiedBy := userId,
                       vd_recheckToken := Some (dc_token challenge), vd_lastCheckedAt := Some now,
                       vd_failures := 0, vd_downgradedAt := None\<rparr>),
              vd_id existing)
         | None \<Rightarrow>
             (t\<lparr>tn_domains := tn_domains t @
                 [\<lparr>vd_id = i, vd_org = dc_org challenge, vd_apex = dc_apex challenge, vd_verifiedAt = now,
                   vd_verifiedVia = dns_txt, vd_verifiedBy = userId, vd_recheckToken = Some (dc_token challenge),
                   vd_lastCheckedAt = Some now, vd_failures = 0, vd_downgradedAt = None\<rparr>]\<rparr>,
              i))"

definition downgrade_conflict :: "int \<Rightarrow> tenants \<Rightarrow> pending_verify \<Rightarrow> tenants" where
  "downgrade_conflict now t pv =
     (case pv_conflict pv of
        None \<Rightarrow> t
      | Some owner \<Rightarrow>
          update_domains t
            (\<lambda>d. vd_org d = og_id owner \<and> vd_apex d = dc_apex (pv_challenge pv) \<and> vd_active d)
            (\<lambda>d. d\<lparr>vd_downgradedAt := Some now\<rparr>))"

definition verify_commit :: "string \<Rightarrow> int \<Rightarrow> tenants \<Rightarrow> pending_verify \<Rightarrow> tenants \<times> (domain_error + string)" where
  "verify_commit i now t pv =
     (let challenge = pv_challenge pv;
          r = upsert_domain i (pv_user pv) now (downgrade_conflict now t pv) challenge
      in if find_org t (dc_org challenge) = None \<or> \<not> active_apexes_unique (fst r) then (t, Inl Domain_throws)
         else ((fst r)\<lparr>tn_challenges := filter (\<lambda>c. dc_id c \<noteq> dc_id challenge) (tn_challenges (fst r))\<rparr>, Inr (snd r)))"

definition verifyDnsChallenge ::
  "(string \<Rightarrow> doh_reply) \<Rightarrow> string \<Rightarrow> int \<Rightarrow> tenants \<Rightarrow> string \<Rightarrow> string \<Rightarrow> string \<Rightarrow> bool \<Rightarrow>
     tenants \<times> (domain_error + string)" where
  "verifyDnsChallenge fetch i now t organizationId userId challengeId acknowledgeTakeover =
     (case verify_read now t organizationId userId challengeId acknowledgeTakeover of
        Inl e \<Rightarrow> (t, Inl e)
      | Inr pv \<Rightarrow> (case verify_lookup fetch pv of Inl e \<Rightarrow> (t, Inl e) | Inr _ \<Rightarrow> verify_commit i now t pv))"

section \<open>Removal and redirect URIs\<close>

text \<open>The redirect URIs of a domain go with it.\<close>

definition removeVerifiedDomain :: "tenants \<Rightarrow> string \<Rightarrow> string \<Rightarrow> string \<Rightarrow> tenants \<times> (domain_error + unit)" where
  "removeVerifiedDomain t organizationId userId domainId =
     (case assertOwner t organizationId userId of
        Inl e \<Rightarrow> (t, Inl e)
      | Inr _ \<Rightarrow>
          if list_ex (\<lambda>d. vd_id d = domainId \<and> vd_org d = organizationId) (tn_domains t)
          then (t\<lparr>tn_domains := filter (\<lambda>d. \<not> (vd_id d = domainId \<and> vd_org d = organizationId)) (tn_domains t),
                  tn_uris := filter (\<lambda>u. ru_domain u \<noteq> domainId) (tn_uris t)\<rparr>, Inr ())
          else (t, Inl DOMAIN_NOT_FOUND))"

definition addRedirectUri ::
  "string \<Rightarrow> tenants \<Rightarrow> string \<Rightarrow> string \<Rightarrow> string \<Rightarrow> string \<Rightarrow> tenants \<times> (domain_error + (string \<times> string))" where
  "addRedirectUri i t organizationId userId pattern matchingApexDomain =
     (case assertOwner t organizationId userId of
        Inl e \<Rightarrow> (t, Inl e)
      | Inr _ \<Rightarrow>
          case find (\<lambda>d. vd_org d = organizationId \<and> vd_apex d = matchingApexDomain \<and> vd_active d) (tn_domains t) of
            None \<Rightarrow> (t, Inl DOMAIN_NOT_FOUND)
          | Some domain \<Rightarrow>
              case find (\<lambda>u. ru_domain u = vd_id domain \<and> ru_pattern u = pattern) (tn_uris t) of
                Some existing \<Rightarrow> (t, Inr (ru_id existing, vd_id domain))
              | None \<Rightarrow>
                  (t\<lparr>tn_uris := tn_uris t @
                      [\<lparr>ru_id = i, ru_org = organizationId, ru_domain = vd_id domain, ru_pattern = pattern,
                        ru_createdBy = userId\<rparr>]\<rparr>,
                   Inr (i, vd_id domain)))"

definition removeRedirectUri :: "tenants \<Rightarrow> string \<Rightarrow> string \<Rightarrow> string \<Rightarrow> tenants \<times> (domain_error + unit)" where
  "removeRedirectUri t organizationId userId redirectUriId =
     (case assertOwner t organizationId userId of
        Inl e \<Rightarrow> (t, Inl e)
      | Inr _ \<Rightarrow>
          if list_ex (\<lambda>u. ru_id u = redirectUriId \<and> ru_org u = organizationId) (tn_uris t)
          then (t\<lparr>tn_uris := filter (\<lambda>u. \<not> (ru_id u = redirectUriId \<and> ru_org u = organizationId)) (tn_uris t)\<rparr>, Inr ())
          else (t, Inl DOMAIN_NOT_FOUND))"

section \<open>Which URLs an organization may use\<close>

definition listActiveVerifiedDomainsForOrg :: "tenants \<Rightarrow> string \<Rightarrow> verified_domain list" where
  "listActiveVerifiedDomainsForOrg t organizationId =
     filter (\<lambda>d. vd_org d = organizationId \<and> vd_active d) (tn_domains t)"

text \<open>The row verified last; of two verified at once the first.\<close>

definition getActiveApexForOrg :: "tenants \<Rightarrow> string \<Rightarrow> string option" where
  "getActiveApexForOrg t organizationId =
     (case sort_key (\<lambda>d. - vd_verifiedAt d) (listActiveVerifiedDomainsForOrg t organizationId) of
        [] \<Rightarrow> None
      | d # _ \<Rightarrow> Some (vd_apex d))"

datatype url_decision = Url_permitted string | Pattern_mismatch | Domain_unverified

fun first_domain_decision :: "tenants \<Rightarrow> string \<Rightarrow> string \<Rightarrow> verified_domain list \<Rightarrow> url_decision" where
  "first_domain_decision t host fullUrl [] = Domain_unverified"
| "first_domain_decision t host fullUrl (row # rows) =
     (if isHostUnderApex host (vd_apex row)
      then
        (let patterns = map ru_pattern (filter (\<lambda>u. ru_domain u = vd_id row) (tn_uris t))
         in if patterns = [] then Url_permitted (vd_id row)
            else if list_ex (starts_with fullUrl) patterns then Url_permitted (vd_id row)
            else Pattern_mismatch)
      else first_domain_decision t host fullUrl rows)"

definition isUrlPermittedForOrg :: "tenants \<Rightarrow> string \<Rightarrow> string \<Rightarrow> string \<Rightarrow> url_decision" where
  "isUrlPermittedForOrg t organizationId host fullUrl =
     first_domain_decision t host fullUrl (listActiveVerifiedDomainsForOrg t organizationId)"

section \<open>The recheck\<close>

definition due_domains :: "int \<Rightarrow> nat \<Rightarrow> int \<Rightarrow> tenants \<Rightarrow> verified_domain list" where
  "due_domains now batchSize staleAfterMs t =
     (let cutoff = now - staleAfterMs;
          due = filter (\<lambda>d. vd_verifiedVia d = dns_txt \<and> vd_active d \<and>
                            (case vd_lastCheckedAt d of None \<Rightarrow> True | Some c \<Rightarrow> c < cutoff)) (tn_domains t)
      in take batchSize
           (sort_key (\<lambda>d. the (vd_lastCheckedAt d)) (filter (\<lambda>d. vd_lastCheckedAt d \<noteq> None) due) @
            filter (\<lambda>d. vd_lastCheckedAt d = None) due))"

datatype row_outcome = Row_ok | Row_miss | Row_downgraded | Row_errored

text \<open>The outcome follows from the row as it was selected and from the answer; the write names the row by its identifier.\<close>

definition missed_outcome :: "int \<Rightarrow> verified_domain \<Rightarrow> row_outcome" where
  "missed_outcome downgradeAfterFailures row =
     (if downgradeAfterFailures \<le> vd_failures row + 1 then Row_downgraded else Row_miss)"

definition row_outcome_of :: "(string \<Rightarrow> doh_reply) \<Rightarrow> int \<Rightarrow> verified_domain \<Rightarrow> row_outcome" where
  "row_outcome_of fetch downgradeAfterFailures row =
     (case vd_recheckToken row of
        None \<Rightarrow> Row_errored
      | Some token \<Rightarrow>
          if token = [] then Row_errored
          else
            case lookupTxt fetch (dnsRecordNameForApex (vd_apex row)) of
              None \<Rightarrow> Row_errored
            | Some (Inl reason) \<Rightarrow> if reason \<noteq> no_record then Row_errored else missed_outcome downgradeAfterFailures row
            | Some (Inr vals) \<Rightarrow>
                if list_ex (\<lambda>v. v = formatDnsRecordValue token) vals then Row_ok
                else missed_outcome downgradeAfterFailures row)"

definition recheck_write :: "int \<Rightarrow> tenants \<Rightarrow> verified_domain \<Rightarrow> row_outcome \<Rightarrow> tenants" where
  "recheck_write now t row outcome =
     (case outcome of
        Row_errored \<Rightarrow> t
      | Row_ok \<Rightarrow>
          update_domains t (\<lambda>d. vd_id d = vd_id row) (\<lambda>d. d\<lparr>vd_failures := 0, vd_lastCheckedAt := Some now\<rparr>)
      | Row_downgraded \<Rightarrow>
          update_domains t (\<lambda>d. vd_id d = vd_id row)
            (\<lambda>d. d\<lparr>vd_failures := vd_failures row + 1, vd_lastCheckedAt := Some now, vd_downgradedAt := Some now\<rparr>)
      | Row_miss \<Rightarrow>
          update_domains t (\<lambda>d. vd_id d = vd_id row)
            (\<lambda>d. d\<lparr>vd_failures := vd_failures row + 1, vd_lastCheckedAt := Some now\<rparr>))"

definition processDueRow ::
  "(string \<Rightarrow> doh_reply) \<Rightarrow> int \<Rightarrow> int \<Rightarrow> tenants \<Rightarrow> verified_domain \<Rightarrow> tenants \<times> row_outcome" where
  "processDueRow fetch now downgradeAfterFailures t row =
     (let outcome = row_outcome_of fetch downgradeAfterFailures row in (recheck_write now t row outcome, outcome))"

record recheck_stats =
  rs_checked :: nat
  rs_downgraded :: "(string \<times> string \<times> string) list"
  rs_errored :: nat
  rs_missed :: nat
  rs_ok :: nat

definition count_outcome :: "verified_domain \<Rightarrow> row_outcome \<Rightarrow> recheck_stats \<Rightarrow> recheck_stats" where
  "count_outcome row outcome stats0 =
     (let stats = stats0\<lparr>rs_checked := rs_checked stats0 + 1\<rparr>
      in case outcome of
           Row_ok \<Rightarrow> stats\<lparr>rs_ok := rs_ok stats + 1\<rparr>
         | Row_miss \<Rightarrow> stats\<lparr>rs_missed := rs_missed stats + 1\<rparr>
         | Row_downgraded \<Rightarrow>
             stats\<lparr>rs_missed := rs_missed stats + 1,
                   rs_downgraded := rs_downgraded stats @ [(vd_id row, vd_org row, vd_apex row)]\<rparr>
         | Row_errored \<Rightarrow> stats\<lparr>rs_errored := rs_errored stats + 1\<rparr>)"

text \<open>
  A whole run. The rows of a chunk are handled side by side in the code; each touches its own row,
  so the order they are listed in stands for any.
\<close>

definition runDomainReverification ::
  "(string \<Rightarrow> doh_reply) \<Rightarrow> int \<Rightarrow> nat \<Rightarrow> int \<Rightarrow> int \<Rightarrow> tenants \<Rightarrow> tenants \<times> recheck_stats" where
  "runDomainReverification fetch now batchSize staleAfterMs downgradeAfterFailures t =
     foldl (\<lambda>(t, stats) row.
         let r = processDueRow fetch now downgradeAfterFailures t row in (fst r, count_outcome row (snd r) stats))
       (t, \<lparr>rs_checked = 0, rs_downgraded = [], rs_errored = 0, rs_missed = 0, rs_ok = 0\<rparr>)
       (due_domains now batchSize staleAfterMs t)"

definition DEFAULT_BATCH_SIZE :: nat where "DEFAULT_BATCH_SIZE = 500"
definition DEFAULT_STALE_AFTER_MS :: int where "DEFAULT_STALE_AFTER_MS = 23 * 60 * 60 * 1000"
definition DEFAULT_DOWNGRADE_AFTER_FAILURES :: int where "DEFAULT_DOWNGRADE_AFTER_FAILURES = 3"

definition listOrgOwnerEmails :: "tenants \<Rightarrow> string \<Rightarrow> string list" where
  "listOrgOwnerEmails t organizationId =
     concat (map (\<lambda>m.
       if om_org m = organizationId \<and> om_suspendedAt m = None \<and> hasOrgRole (om_role m) Owner
       then map us_email (filter (\<lambda>u. us_id u = om_user m) (tn_users t)) else []) (tn_members t))"

end
