(* ===== verification/Redirect_Rules.thy ===== *)
theory Redirect_Rules
  imports Domain_Service
begin

text \<open>
  Where a verification may lead back to: the check of a session's redirect URL when the session is
  created (\<open>sessions/redirect-uri-validator.ts\<close>), the check before the browser is sent there
  (\<open>verify/redirect-permitted.ts\<close>) and the request that registers a pattern
  (\<open>auth/organizations/redirect-uris/add.ts\<close>). \<open>parse\<close> is the platform's parser of URLs.
\<close>

section \<open>At creation\<close>

datatype redirect_outcome =
  Redirect_ok "string option"
| INVALID_REDIRECT_URL
| REDIRECT_URL_DOMAIN_NOT_VERIFIED
| REDIRECT_URL_PATTERN_NOT_REGISTERED

definition loopback_host :: "string \<Rightarrow> bool" where
  "loopback_host host \<longleftrightarrow> host = ''localhost'' \<or> host = ''127.0.0.1''"

definition validateRedirectUrlForOrg ::
  "(string \<Rightarrow> url option) \<Rightarrow> bool \<Rightarrow> tenants \<Rightarrow> string \<Rightarrow> string option \<Rightarrow> redirect_outcome" where
  "validateRedirectUrlForOrg parse allowLoopback t organizationId raw =
     (case raw of
        None \<Rightarrow> Redirect_ok None
      | Some r \<Rightarrow>
          if r = [] then Redirect_ok None
          else
            case parseSafeUrl parse r allowLoopback Mode_redirect of
              Inl _ \<Rightarrow> INVALID_REDIRECT_URL
            | Inr parsed \<Rightarrow>
                case parse (u_href parsed) of
                  None \<Rightarrow> INVALID_REDIRECT_URL
                | Some again \<Rightarrow>
                    let host = lower_ascii (u_hostname again)
                    in if loopback_host host then Redirect_ok (Some (u_href parsed))
                       else
                         case hostnameToApex host of
                           Inl _ \<Rightarrow> INVALID_REDIRECT_URL
                         | Inr _ \<Rightarrow>
                             (case isUrlPermittedForOrg t organizationId host (u_href parsed) of
                                Url_permitted _ \<Rightarrow> Redirect_ok (Some (u_href parsed))
                              | Pattern_mismatch \<Rightarrow> REDIRECT_URL_PATTERN_NOT_REGISTERED
                              | Domain_unverified \<Rightarrow> REDIRECT_URL_DOMAIN_NOT_VERIFIED))"

section \<open>At the handoff\<close>

datatype redirect_permitted =
  Redirect_session_not_found | Redirect_not_set | Redirect_permitted string | Redirect_denied string | Redirect_throws

definition isPublicVerifySessionHidden :: "tenants \<Rightarrow> string \<Rightarrow> bool" where
  "isPublicVerifySessionHidden t organizationId \<longleftrightarrow>
     (case find_org t organizationId of None \<Rightarrow> False | Some g \<Rightarrow> isOrgFrozen g)"

definition checkRedirectPermitted ::
  "(string \<Rightarrow> url option) \<Rightarrow> tenants \<Rightarrow> db \<Rightarrow> string \<Rightarrow> redirect_permitted" where
  "checkRedirectPermitted parse t d sessionId =
     (case jm_get (db_sessions d) sessionId of
        None \<Rightarrow> Redirect_session_not_found
      | Some row \<Rightarrow>
          if isPublicVerifySessionHidden t (vs_org row) then Redirect_session_not_found
          else
            case vs_redirectUrl row of
              None \<Rightarrow> Redirect_not_set
            | Some redirectUrl \<Rightarrow>
                if redirectUrl = [] then Redirect_not_set
                else
                  case parse redirectUrl of
                    None \<Rightarrow> Redirect_throws
                  | Some u \<Rightarrow>
                      let host = lower_ascii (u_hostname u)
                      in if loopback_host host then Redirect_permitted redirectUrl
                         else
                           case hostnameToApex host of
                             Inl _ \<Rightarrow> Redirect_denied redirectUrl
                           | Inr _ \<Rightarrow>
                               (case isUrlPermittedForOrg t (vs_org row) host redirectUrl of
                                  Url_permitted _ \<Rightarrow> Redirect_permitted redirectUrl
                                | _ \<Rightarrow> Redirect_denied redirectUrl))"

section \<open>Registering a pattern\<close>

definition valid_pattern :: "(string \<Rightarrow> url option) \<Rightarrow> bool \<Rightarrow> string \<Rightarrow> bool" where
  "valid_pattern parse allowLoopback pattern \<longleftrightarrow>
     safeRedirectUrl parse allowLoopback pattern \<and> \<not> (CHR ''?'' \<in> set pattern \<or> CHR ''#'' \<in> set pattern)"

datatype redirect_request_error = Org_frozen_error | INVALID_PATTERN | Service_error domain_error

definition addRedirectUriHandler ::
  "(string \<Rightarrow> url option) \<Rightarrow> bool \<Rightarrow> string \<Rightarrow> tenants \<Rightarrow> string \<Rightarrow> string \<Rightarrow> string \<Rightarrow>
     tenants \<times> (redirect_request_error + (string \<times> string))" where
  "addRedirectUriHandler parse allowLoopback i t organizationId userId pattern =
     (case assertOrgNotFrozen t organizationId of
        Inl _ \<Rightarrow> (t, Inl Org_frozen_error)
      | Inr _ \<Rightarrow>
          if \<not> valid_pattern parse allowLoopback pattern then (t, Inl INVALID_PATTERN)
          else
            case parse pattern of
              None \<Rightarrow> (t, Inl INVALID_PATTERN)
            | Some u \<Rightarrow>
                case hostnameToApex (lower_ascii (u_hostname u)) of
                  Inl _ \<Rightarrow> (t, Inl INVALID_PATTERN)
                | Inr apex \<Rightarrow>
                    (case addRedirectUri i t organizationId userId pattern apex of
                       (t1, Inl e) \<Rightarrow> (t1, Inl (Service_error e))
                     | (t1, Inr r) \<Rightarrow> (t1, Inr r)))"

section \<open>What a permitted URL is\<close>

text \<open>Patterns, where there are any, must have one that the URL begins with.\<close>

definition patterns_allow :: "tenants \<Rightarrow> string \<Rightarrow> string \<Rightarrow> bool" where
  "patterns_allow t domainId fullUrl \<longleftrightarrow>
     (let patterns = map ru_pattern (filter (\<lambda>u. ru_domain u = domainId) (tn_uris t))
      in patterns = [] \<or> list_ex (starts_with fullUrl) patterns)"

text \<open>An organization's active domains: real apexes, no two the same.\<close>

definition apexes_ok :: "tenants \<Rightarrow> bool" where
  "apexes_ok t \<longleftrightarrow> active_apexes_unique t \<and> list_all (\<lambda>d. apex_shape (vd_apex d)) (tn_domains t)"

lemma first_decision_at:
  assumes "list_all (\<lambda>d. apex_shape (vd_apex d)) rows" "distinct (map vd_apex rows)"
    and "row \<in> set rows" "isHostUnderApex host (vd_apex row)"
  shows "first_domain_decision t host fullUrl rows =
     (if patterns_allow t (vd_id row) fullUrl then Url_permitted (vd_id row) else Pattern_mismatch)"
  using assms
proof (induction rows)
  case Nil
  then show ?case by simp
next
  case (Cons r rows)
  show ?case
  proof (cases "isHostUnderApex host (vd_apex r)")
    case True
    have "vd_apex r = vd_apex row"
      using Cons.prems True by (intro one_apex_per_host [of _ _ host]) (auto simp: list_all_iff)
    with Cons.prems have "r = row" by (auto simp: image_iff)
    with True show ?thesis by (auto simp: patterns_allow_def Let_def)
  next
    case False
    with Cons show ?thesis by auto
  qed
qed

lemma first_decision_none:
  "(\<forall>row \<in> set rows. \<not> isHostUnderApex host (vd_apex row)) \<Longrightarrow> first_domain_decision t host fullUrl rows = Domain_unverified"
  by (induction rows) auto

lemma distinct_map_filter_imp: "distinct (map f (filter P xs)) \<Longrightarrow> distinct (map f (filter (\<lambda>x. Q x \<and> P x) xs))"
  by (induction xs) (auto split: if_splits)

lemma permitted_iff:
  assumes "apexes_ok t"
  shows "isUrlPermittedForOrg t org host fullUrl = Url_permitted i \<longleftrightarrow>
    (\<exists>row \<in> set (tn_domains t). vd_id row = i \<and> vd_org row = org \<and> vd_active row \<and>
       isHostUnderApex host (vd_apex row) \<and> patterns_allow t i fullUrl)"
proof -
  let ?rows = "listActiveVerifiedDomainsForOrg t org"
  have ok: "list_all (\<lambda>d. apex_shape (vd_apex d)) ?rows" "distinct (map vd_apex ?rows)"
    using assms distinct_map_filter_imp [of vd_apex vd_active "tn_domains t" "\<lambda>d. vd_org d = org"]
    by (auto simp: apexes_ok_def listActiveVerifiedDomainsForOrg_def active_apexes_unique_def list_all_iff)
  show ?thesis
  proof (cases "\<exists>row \<in> set ?rows. isHostUnderApex host (vd_apex row)")
    case True
    then obtain row where row: "row \<in> set ?rows" "isHostUnderApex host (vd_apex row)" by blast
    have one: "r = row" if "r \<in> set ?rows" "isHostUnderApex host (vd_apex r)" for r
    proof -
      have "vd_apex r = vd_apex row"
        using that row ok(1) by (intro one_apex_per_host [of _ _ host]) (auto simp: list_all_iff)
      with that(1) row(1) ok(2) show ?thesis by (auto simp: distinct_map dest: inj_onD)
    qed
    have "isUrlPermittedForOrg t org host fullUrl =
        (if patterns_allow t (vd_id row) fullUrl then Url_permitted (vd_id row) else Pattern_mismatch)"
      using ok row by (simp add: isUrlPermittedForOrg_def first_decision_at)
    moreover have "(\<exists>r \<in> set (tn_domains t). vd_id r = i \<and> vd_org r = org \<and> vd_active r \<and>
        isHostUnderApex host (vd_apex r) \<and> patterns_allow t i fullUrl) \<longleftrightarrow> vd_id row = i \<and> patterns_allow t i fullUrl" (is "?l \<longleftrightarrow> ?r")
    proof
      assume ?l
      then obtain r where "r \<in> set ?rows" "vd_id r = i" "isHostUnderApex host (vd_apex r)" "patterns_allow t i fullUrl"
        by (auto simp: listActiveVerifiedDomainsForOrg_def)
      with one [of r] show ?r by simp
    next
      assume ?r
      with row show ?l by (auto simp: listActiveVerifiedDomainsForOrg_def)
    qed
    ultimately show ?thesis by auto
  next
    case False
    then have "isUrlPermittedForOrg t org host fullUrl = Domain_unverified"
      by (simp add: isUrlPermittedForOrg_def first_decision_none)
    with False show ?thesis by (auto simp: listActiveVerifiedDomainsForOrg_def)
  qed
qed

text \<open>No host is permitted to two organizations.\<close>

lemma permitted_to_one:
  assumes "apexes_ok t" "isUrlPermittedForOrg t a host u = Url_permitted i" "isUrlPermittedForOrg t b host v = Url_permitted j"
  shows "a = b"
proof -
  from assms(2,3) obtain r s where r: "r \<in> set (tn_domains t)" "vd_org r = a" "vd_active r" "isHostUnderApex host (vd_apex r)"
    and s: "s \<in> set (tn_domains t)" "vd_org s = b" "vd_active s" "isHostUnderApex host (vd_apex s)"
    unfolding permitted_iff [OF assms(1)] by blast
  from assms(1) r s have "vd_apex r = vd_apex s"
    by (intro one_apex_per_host [of _ _ host]) (auto simp: apexes_ok_def list_all_iff)
  with assms(1) r s have "r = s" by (auto simp: apexes_ok_def active_apexes_unique_def distinct_map inj_on_def)
  with r s show ?thesis by simp
qed

end
