(* ===== verification/Organization_Machine.thy ===== *)
theory Organization_Machine
  imports Redirect_Rules Machines
begin

text \<open>
  Everything that touches the tables of organizations, interleaved: the requests on domains,
  redirect URIs, members and deletions with the guards of their routes
  (\<open>api/src/auth/organizations/*\<close>), and the jobs. A verification, a recheck, a suspension and a
  deletion by the job are split where the code waits. Four lists record history: the challenges
  issued, the answers of the resolver that were used, the deletions confirmed, and nothing else
  reads them.
\<close>

section \<open>Requests\<close>

definition unless_frozen :: "tenants \<Rightarrow> string \<Rightarrow> 'e \<Rightarrow> tenants \<times> ('e + 'a) \<Rightarrow> tenants \<times> ('e + 'a)" where
  "unless_frozen t organizationId frozen r =
     (case assertOrgNotFrozen t organizationId of Inl _ \<Rightarrow> (t, Inl frozen) | Inr _ \<Rightarrow> r)"

datatype domain_request_error = Domain_org_frozen | Domain_service domain_error

definition as_domain_request :: "tenants \<times> (domain_error + 'a) \<Rightarrow> tenants \<times> (domain_request_error + 'a)" where
  "as_domain_request r = (case r of (t, Inl e) \<Rightarrow> (t, Inl (Domain_service e)) | (t, Inr x) \<Rightarrow> (t, Inr x))"

definition startDnsChallengeHandler ::
  "string \<Rightarrow> string \<Rightarrow> int \<Rightarrow> tenants \<Rightarrow> string \<Rightarrow> string \<Rightarrow> string \<Rightarrow>
     tenants \<times> (domain_request_error + challenge_result)" where
  "startDnsChallengeHandler i token now t organizationId userId apex_domain =
     unless_frozen t organizationId Domain_org_frozen
       (as_domain_request (startDnsChallenge i token now t organizationId userId apex_domain))"

definition removeDomainHandler :: "tenants \<Rightarrow> string \<Rightarrow> string \<Rightarrow> string \<Rightarrow> tenants \<times> (domain_request_error + unit)" where
  "removeDomainHandler t organizationId userId i =
     unless_frozen t organizationId Domain_org_frozen (as_domain_request (removeVerifiedDomain t organizationId userId i))"

definition removeRedirectUriHandler :: "tenants \<Rightarrow> string \<Rightarrow> string \<Rightarrow> string \<Rightarrow> tenants \<times> (domain_request_error + unit)" where
  "removeRedirectUriHandler t organizationId userId i =
     unless_frozen t organizationId Domain_org_frozen (as_domain_request (removeRedirectUri t organizationId userId i))"

text \<open>The part of \<open>verifyDnsChallengeHandler\<close> before the resolver is asked.\<close>

definition verify_begin ::
  "int \<Rightarrow> tenants \<Rightarrow> string \<Rightarrow> string \<Rightarrow> string \<Rightarrow> bool \<Rightarrow> domain_request_error + pending_verify" where
  "verify_begin now t organizationId userId challengeId acknowledgeTakeover =
     (case assertOrgNotFrozen t organizationId of
        Inl _ \<Rightarrow> Inl Domain_org_frozen
      | Inr _ \<Rightarrow>
          (case verify_read now t organizationId userId challengeId acknowledgeTakeover of
             Inl e \<Rightarrow> Inl (Domain_service e)
           | Inr pv \<Rightarrow> Inr pv))"

text \<open>The parts of the requests on members before the write: who is suspended, and by whom.\<close>

definition suspendMemberHandler_read :: "tenants \<Rightarrow> string \<Rightarrow> string \<Rightarrow> string \<Rightarrow> member_error + string" where
  "suspendMemberHandler_read t organizationId userId memberId =
     (case assertOrgNotFrozen t organizationId of
        Inl _ \<Rightarrow> Inl Member_frozen
      | Inr _ \<Rightarrow>
          if \<not> canManageMembers t organizationId userId then Inl Member_forbidden
          else suspend_read t organizationId memberId)"

definition leaveOrganizationHandler_read :: "tenants \<Rightarrow> string \<Rightarrow> string \<Rightarrow> member_error + string" where
  "leaveOrganizationHandler_read t organizationId userId =
     (case assertOrgNotFrozen t organizationId of
        Inl _ \<Rightarrow> Inl Member_frozen
      | Inr _ \<Rightarrow> leave_read t organizationId userId)"

definition reinstateMemberHandler :: "tenants \<Rightarrow> string \<Rightarrow> string \<Rightarrow> string \<Rightarrow> tenants \<times> (member_error + string)" where
  "reinstateMemberHandler t organizationId userId memberId =
     unless_frozen t organizationId Member_frozen
       (if \<not> canManageMembers t organizationId userId then (t, Inl Member_forbidden)
        else reinstateMember t organizationId memberId)"

section \<open>States and steps\<close>

record tenant_state =
  to_now :: int
  to_tables :: tenants
  to_verifies :: "pending_verify list"
  to_proven :: "pending_verify list"
  to_rechecks :: "verified_domain list"
  to_suspends :: "(string \<times> string) list"
  to_deletes :: "string list list"
  to_issued :: "(string \<times> string \<times> string) list"
  to_answers :: "(string \<times> string list) list"
  to_confirmed :: "(string \<times> string \<times> int) list"

definition empty_tenants :: tenants where
  "empty_tenants = \<lparr>tn_users = [], tn_orgs = [], tn_members = [], tn_confirmations = [], tn_domains = [],
     tn_challenges = [], tn_uris = []\<rparr>"

definition initial_tenants :: "int \<Rightarrow> tenant_state" where
  "initial_tenants now = \<lparr>to_now = now, to_tables = empty_tenants, to_verifies = [], to_proven = [], to_rechecks = [],
     to_suspends = [], to_deletes = [], to_issued = [], to_answers = [], to_confirmed = []\<rparr>"

definition set_tables :: "tenant_state \<Rightarrow> tenants \<Rightarrow> tenant_state" where
  "set_tables s t = s\<lparr>to_tables := t\<rparr>"

definition start_step :: "tenant_state \<Rightarrow> string \<Rightarrow> string \<Rightarrow> string \<Rightarrow> string \<Rightarrow> string \<Rightarrow> tenant_state" where
  "start_step s i token org userId raw =
     (case startDnsChallengeHandler i token (to_now s) (to_tables s) org userId raw of
        (t, Inl _) \<Rightarrow> set_tables s t
      | (t, Inr _) \<Rightarrow>
          (set_tables s t)\<lparr>to_issued :=
             to_issued s @ [(org, (case hostnameToApex raw of Inr apex \<Rightarrow> apex | Inl _ \<Rightarrow> []), token)]\<rparr>)"

definition lookup_step :: "tenant_state \<Rightarrow> (string \<Rightarrow> doh_reply) \<Rightarrow> pending_verify \<Rightarrow> tenant_state" where
  "lookup_step s fetch pv =
     (let name = dnsRecordNameForApex (dc_apex (pv_challenge pv))
      in case (verify_lookup fetch pv, lookupTxt fetch name) of
           (Inr _, Some (Inr vals)) \<Rightarrow> s\<lparr>to_proven := to_proven s @ [pv], to_answers := to_answers s @ [(name, vals)]\<rparr>
         | _ \<Rightarrow> s)"

definition confirm_step :: "tenant_state \<Rightarrow> string \<Rightarrow> string \<Rightarrow> string \<Rightarrow> tenant_state" where
  "confirm_step s org userId code =
     (case confirmOrgDeletion (to_now s) (to_tables s) org userId code of
        (t, Inl _) \<Rightarrow> set_tables s t
      | (t, Inr _) \<Rightarrow> (set_tables s t)\<lparr>to_confirmed := to_confirmed s @ [(org, userId, to_now s)]\<rparr>)"

inductive tenant_step :: "tenant_state \<Rightarrow> tenant_state \<Rightarrow> bool" where
  Tick: "to_now s \<le> now \<Longrightarrow> tenant_step s (s\<lparr>to_now := now\<rparr>)"
| Accounts: "tenant_step s (set_tables s ((to_tables s)\<lparr>tn_users := us\<rparr>))"
| Memberships: "memberships_unique ms \<Longrightarrow> tenant_step s (set_tables s ((to_tables s)\<lparr>tn_members := ms\<rparr>))"
| New_org: "og_id g \<notin> og_id ` set (tn_orgs (to_tables s)) \<Longrightarrow> og_pendingAt g = None \<Longrightarrow>
    tenant_step s (set_tables s ((to_tables s)\<lparr>tn_orgs := tn_orgs (to_tables s) @ [g]\<rparr>))"
| Start: "i \<notin> dc_id ` set (tn_challenges (to_tables s)) \<Longrightarrow> tenant_step s (start_step s i token org userId raw)"
| Verify: "verify_begin (to_now s) (to_tables s) org userId cid ack = Inr pv \<Longrightarrow>
    tenant_step s (s\<lparr>to_verifies := to_verifies s @ [pv]\<rparr>)"
| Lookup: "pv \<in> set (to_verifies s) \<Longrightarrow> tenant_step s (lookup_step s fetch pv)"
| Commit: "pv \<in> set (to_proven s) \<Longrightarrow> i \<notin> vd_id ` set (tn_domains (to_tables s)) \<Longrightarrow>
    tenant_step s (set_tables s (fst (verify_commit i (to_now s) (to_tables s) pv)))"
| Remove_domain: "tenant_step s (set_tables s (fst (removeDomainHandler (to_tables s) org userId i)))"
| Add_uri: "i \<notin> ru_id ` set (tn_uris (to_tables s)) \<Longrightarrow>
    tenant_step s (set_tables s (fst (addRedirectUriHandler parse loop i (to_tables s) org userId pattern)))"
| Remove_uri: "tenant_step s (set_tables s (fst (removeRedirectUriHandler (to_tables s) org userId i)))"
| Recheck: "d \<in> set (due_domains (to_now s) DEFAULT_BATCH_SIZE DEFAULT_STALE_AFTER_MS (to_tables s)) \<Longrightarrow>
    tenant_step s (s\<lparr>to_rechecks := to_rechecks s @ [d]\<rparr>)"
| Recheck_write: "d \<in> set (to_rechecks s) \<Longrightarrow>
    tenant_step s (set_tables s (fst (processDueRow fetch (to_now s) DEFAULT_DOWNGRADE_AFTER_FAILURES (to_tables s) d)))"
| Suspend: "suspendMemberHandler_read (to_tables s) org userId memberId = Inr m \<Longrightarrow>
    tenant_step s (s\<lparr>to_suspends := to_suspends s @ [(userId, m)]\<rparr>)"
| Leave: "leaveOrganizationHandler_read (to_tables s) org userId = Inr m \<Longrightarrow>
    tenant_step s (s\<lparr>to_suspends := to_suspends s @ [(userId, m)]\<rparr>)"
| Suspend_write: "(userId, m) \<in> set (to_suspends s) \<Longrightarrow>
    tenant_step s (set_tables s (suspend_write (to_now s) userId (to_tables s) m))"
| Reinstate: "tenant_step s (set_tables s (fst (reinstateMemberHandler (to_tables s) org userId memberId)))"
| Request_deletion: "tenant_step s (set_tables s (fst (requestOrgDeletion mailed i random (to_now s) (to_tables s) org userId)))"
| Confirm_deletion: "tenant_step s (confirm_step s org userId code)"
| Cancel_deletion: "tenant_step s (set_tables s (fst (cancelOrgDeletion (to_tables s) org userId)))"
| Select_due: "tenant_step s (s\<lparr>to_deletes := to_deletes s @ [due_organizations (to_now s) n (to_tables s)]\<rparr>)"
| Delete_due: "ids \<in> set (to_deletes s) \<Longrightarrow> tenant_step s (set_tables s (hardDeleteOrganizations (to_tables s) ids))"

inductive tenant_reachable :: "tenant_state \<Rightarrow> bool" where
  Initial: "tenant_reachable (initial_tenants now)"
| Next: "tenant_reachable s \<Longrightarrow> tenant_step s s' \<Longrightarrow> tenant_reachable s'"

end
