(* ===== verification/Organization_Invariants.thy ===== *)
theory Organization_Invariants
  imports Organization_Machine
begin

text \<open>
  The invariant of the tables of organizations under every interleaving: domains are proved and
  their active apexes unique, challenges were issued, redirect URIs belong to the domain of their
  organization, a scheduled deletion was confirmed, and what the job is about to delete was due.
\<close>

section \<open>Per row\<close>

definition issued_ok :: "(string \<times> string \<times> string) list \<Rightarrow> domain_challenge \<Rightarrow> bool" where
  "issued_ok issued c \<longleftrightarrow> (dc_org c, dc_apex c, dc_token c) \<in> set issued \<and> apex_shape (dc_apex c)"

definition answered :: "(string \<times> string list) list \<Rightarrow> string \<Rightarrow> string \<Rightarrow> bool" where
  "answered answers apex token \<longleftrightarrow>
     (\<exists>vals. (dnsRecordNameForApex apex, vals) \<in> set answers \<and> formatDnsRecordValue token \<in> set vals)"

definition proved_ok :: "(string \<times> string \<times> string) list \<Rightarrow> (string \<times> string list) list \<Rightarrow> verified_domain \<Rightarrow> bool" where
  "proved_ok issued answers d \<longleftrightarrow>
     apex_shape (vd_apex d) \<and>
     (\<exists>token. vd_recheckToken d = Some token \<and> (vd_org d, vd_apex d, token) \<in> set issued \<and> answered answers (vd_apex d) token)"

definition uri_ok :: "tenants \<Rightarrow> redirect_uri \<Rightarrow> bool" where
  "uri_ok t u \<longleftrightarrow> (\<exists>d \<in> set (tn_domains t). vd_id d = ru_domain u \<and> vd_org d = ru_org u)"

definition confirmed_before :: "(string \<times> string \<times> int) list \<Rightarrow> int \<Rightarrow> string \<Rightarrow> bool" where
  "confirmed_before confirmed now org \<longleftrightarrow> (\<exists>userId at0. (org, userId, at0) \<in> set confirmed \<and> at0 + GRACE_WINDOW_MS \<le> now)"

definition schedule_ok :: "(string \<times> string \<times> int) list \<Rightarrow> organization \<Rightarrow> bool" where
  "schedule_ok confirmed g \<longleftrightarrow>
     (\<forall>p. og_pendingAt g = Some p \<longrightarrow>
        (\<exists>userId at0. (og_id g, userId, at0) \<in> set confirmed \<and> p = at0 + GRACE_WINDOW_MS))"

section \<open>The tables\<close>

definition domains_ok :: "tenant_state \<Rightarrow> tenants \<Rightarrow> bool" where
  "domains_ok s t \<longleftrightarrow>
     active_apexes_unique t \<and> distinct (map vd_id (tn_domains t)) \<and>
     (\<forall>d \<in> set (tn_domains t). proved_ok (to_issued s) (to_answers s) d) \<and>
     (\<forall>u \<in> set (tn_uris t). uri_ok t u)"

definition tables_ok :: "tenant_state \<Rightarrow> tenants \<Rightarrow> bool" where
  "tables_ok s t \<longleftrightarrow>
     domains_ok s t \<and> (\<forall>c \<in> set (tn_challenges t). issued_ok (to_issued s) c) \<and>
     memberships_unique (tn_members t) \<and> (\<forall>g \<in> set (tn_orgs t). schedule_ok (to_confirmed s) g)"

definition tenant_ok :: "tenant_state \<Rightarrow> bool" where
  "tenant_ok s \<longleftrightarrow>
     tables_ok s (to_tables s) \<and>
     (\<forall>pv \<in> set (to_verifies s). issued_ok (to_issued s) (pv_challenge pv)) \<and>
     (\<forall>pv \<in> set (to_proven s). issued_ok (to_issued s) (pv_challenge pv) \<and>
        answered (to_answers s) (dc_apex (pv_challenge pv)) (dc_token (pv_challenge pv))) \<and>
     (\<forall>ids \<in> set (to_deletes s). \<forall>i \<in> set ids. confirmed_before (to_confirmed s) (to_now s) i)"

text \<open>The tables the steps leave alone.\<close>

lemma tables_ok_domains:
  assumes "tables_ok s t" "domains_ok s t'" "tn_challenges t' = tn_challenges t" "tn_members t' = tn_members t"
    "tn_orgs t' = tn_orgs t"
  shows "tables_ok s t'"
  using assms by (simp add: tables_ok_def)

lemma domains_ok_same:
  assumes "domains_ok s t" "tn_domains t' = tn_domains t" "set (tn_uris t') \<subseteq> set (tn_uris t)"
  shows "domains_ok s t'"
  using assms by (auto simp: domains_ok_def active_apexes_unique_def uri_ok_def)

lemma tenant_ok_tables:
  assumes "tenant_ok s" "tables_ok s t"
  shows "tenant_ok (set_tables s t)"
  using assms by (auto simp: tenant_ok_def set_tables_def tables_ok_def domains_ok_def)

section \<open>Domains\<close>

text \<open>An update that moves no row to another identifier, organization, apex or token.\<close>

definition keeps_identity :: "(verified_domain \<Rightarrow> verified_domain) \<Rightarrow> bool" where
  "keeps_identity f \<longleftrightarrow>
     (\<forall>d. vd_id (f d) = vd_id d \<and> vd_org (f d) = vd_org d \<and> vd_apex (f d) = vd_apex d \<and>
          vd_recheckToken (f d) = vd_recheckToken d)"

lemma update_domains_sel [simp]:
  "tn_domains (update_domains t cond f) = map (\<lambda>d. if cond d then f d else d) (tn_domains t)"
  "tn_uris (update_domains t cond f) = tn_uris t" "tn_orgs (update_domains t cond f) = tn_orgs t"
  "tn_members (update_domains t cond f) = tn_members t" "tn_challenges (update_domains t cond f) = tn_challenges t"
  by (simp_all add: update_domains_def)

lemma map_if_ids: "keeps_identity f \<Longrightarrow> map vd_id (map (\<lambda>d. if cond d then f d else d) ds) = map vd_id ds"
  by (simp add: keeps_identity_def)

lemma deactivating_unique:
  assumes "distinct (map vd_apex (filter vd_active ds))" "\<And>d. vd_apex (f d) = vd_apex d" "\<And>d. vd_active (f d) \<Longrightarrow> vd_active d"
  shows "distinct (map vd_apex (filter vd_active (map f ds)))"
proof -
  have "set (map vd_apex (filter vd_active (map f ds))) \<subseteq> set (map vd_apex (filter vd_active ds))" for ds
    using assms(2,3) by auto
  with assms show ?thesis by (induction ds) (auto split: if_splits)
qed

lemma uri_ok_update:
  assumes "uri_ok t u" "\<And>d. vd_id (f d) = vd_id d" "\<And>d. vd_org (f d) = vd_org d"
  shows "uri_ok (update_domains t cond f) u"
proof -
  from assms(1) obtain d where d: "d \<in> set (tn_domains t)" "vd_id d = ru_domain u" "vd_org d = ru_org u"
    by (auto simp: uri_ok_def)
  let ?d = "if cond d then f d else d"
  from d(1) have "?d \<in> set (tn_domains (update_domains t cond f))" by auto
  with d(2,3) assms(2,3) show ?thesis unfolding uri_ok_def by (intro bexI [of _ ?d]) auto
qed

lemma domains_ok_update:
  assumes "domains_ok s t" "keeps_identity f" "\<And>d. vd_active (f d) \<Longrightarrow> vd_active d"
  shows "domains_ok s (update_domains t cond f)"
proof -
  have "distinct (map vd_apex (filter vd_active (map (\<lambda>d. if cond d then f d else d) (tn_domains t))))"
    using assms by (intro deactivating_unique) (auto simp: domains_ok_def active_apexes_unique_def keeps_identity_def split: if_splits)
  moreover have "\<forall>u \<in> set (tn_uris t). uri_ok (update_domains t cond f) u"
    using assms by (auto simp: domains_ok_def keeps_identity_def intro: uri_ok_update)
  moreover have "\<forall>d \<in> set (tn_domains (update_domains t cond f)). proved_ok (to_issued s) (to_answers s) d"
    using assms by (auto simp: domains_ok_def proved_ok_def keeps_identity_def)
  moreover have "distinct (map vd_id (tn_domains (update_domains t cond f)))"
    using assms map_if_ids [OF assms(2), of cond "tn_domains t"] by (simp add: domains_ok_def del: map_map)
  ultimately show ?thesis by (simp add: domains_ok_def active_apexes_unique_def)
qed

lemma downgrade_conflict_ok: "domains_ok s t \<Longrightarrow> domains_ok s (downgrade_conflict now t pv)"
  by (auto simp: downgrade_conflict_def keeps_identity_def vd_active_def intro: domains_ok_update split: option.split)

text \<open>The row of a verification takes the place of the organization's own row for the apex, or is new.\<close>

lemma upsert_ok:
  assumes "domains_ok s t" "i \<notin> vd_id ` set (tn_domains t)" "issued_ok (to_issued s) c"
    "answered (to_answers s) (dc_apex c) (dc_token c)" "active_apexes_unique (fst (upsert_domain i userId now t c))"
  shows "domains_ok s (fst (upsert_domain i userId now t c))"
proof (cases "find (\<lambda>d. vd_org d = dc_org c \<and> vd_apex d = dc_apex c) (tn_domains t)")
  case None
  with assms show ?thesis
    by (auto simp: upsert_domain_def domains_ok_def proved_ok_def issued_ok_def uri_ok_def)
next
  case (Some r)
  let ?f = "\<lambda>d. d\<lparr>vd_verifiedAt := now, vd_verifiedVia := dns_txt, vd_verifiedBy := userId,
      vd_recheckToken := Some (dc_token c), vd_lastCheckedAt := Some now, vd_failures := 0, vd_downgradedAt := None\<rparr>"
  let ?same = "\<lambda>d. vd_org d = dc_org c \<and> vd_apex d = dc_apex c"
  have up: "fst (upsert_domain i userId now t c) = update_domains t ?same ?f"
    by (simp add: upsert_domain_def Some)
  have ids: "map vd_id (map (\<lambda>d. if ?same d then ?f d else d) ds) = map vd_id ds" for ds by simp
  have "proved_ok (to_issued s) (to_answers s) (if ?same d then ?f d else d)" if "d \<in> set (tn_domains t)" for d
    using that assms by (auto simp: domains_ok_def proved_ok_def issued_ok_def)
  then have "\<forall>d \<in> set (tn_domains (update_domains t ?same ?f)). proved_ok (to_issued s) (to_answers s) d"
    by (simp only: update_domains_sel set_map ball_simps) blast
  moreover have "uri_ok (update_domains t ?same ?f) u" if "u \<in> set (tn_uris t)" for u
    using that assms(1) by (intro uri_ok_update) (auto simp: domains_ok_def)
  ultimately show ?thesis
    using assms(1,5) ids [of "tn_domains t"] unfolding up by (simp add: domains_ok_def del: map_map set_map)
qed

lemma upsert_sel [simp]:
  "tn_orgs (fst (upsert_domain i userId now t c)) = tn_orgs t"
  "tn_members (fst (upsert_domain i userId now t c)) = tn_members t"
  "tn_challenges (fst (upsert_domain i userId now t c)) = tn_challenges t"
  by (simp_all add: upsert_domain_def Let_def split: option.split)

lemma downgrade_conflict_sel [simp]:
  "tn_orgs (downgrade_conflict now t pv) = tn_orgs t"
  "tn_members (downgrade_conflict now t pv) = tn_members t"
  "tn_challenges (downgrade_conflict now t pv) = tn_challenges t"
  by (auto simp: downgrade_conflict_def split: option.split)

lemma downgrade_conflict_ids [simp]:
  "vd_id ` set (tn_domains (downgrade_conflict now t pv)) = vd_id ` set (tn_domains t)"
proof -
  have "map vd_id (tn_domains (downgrade_conflict now t pv)) = map vd_id (tn_domains t)"
    by (auto simp: downgrade_conflict_def split: option.split)
  from arg_cong [OF this, of set] show ?thesis by simp
qed

lemma commit_ok:
  assumes "tables_ok s t" "i \<notin> vd_id ` set (tn_domains t)" "issued_ok (to_issued s) (pv_challenge pv)"
    "answered (to_answers s) (dc_apex (pv_challenge pv)) (dc_token (pv_challenge pv))"
  shows "tables_ok s (fst (verify_commit i now t pv))"
proof -
  let ?r = "upsert_domain i (pv_user pv) now (downgrade_conflict now t pv) (pv_challenge pv)"
  show ?thesis
  proof (cases "find_org t (dc_org (pv_challenge pv)) = None \<or> \<not> active_apexes_unique (fst ?r)")
    case True
    with assms(1) show ?thesis by (auto simp: verify_commit_def Let_def)
  next
    case False
    have "domains_ok s (fst ?r)"
      using False assms by (intro upsert_ok downgrade_conflict_ok) (auto simp: tables_ok_def)
    then have "domains_ok s ((fst ?r)\<lparr>tn_challenges := cs\<rparr>)" for cs
      by (rule domains_ok_same) simp_all
    with False assms(1) show ?thesis by (auto simp: verify_commit_def Let_def tables_ok_def)
  qed
qed

lemma distinct_map_filter_sub: "distinct (map f xs) \<Longrightarrow> distinct (map f (filter P xs))"
  by (simp add: distinct_map_filter)

text \<open>Taking rows away, with the redirect URIs that stood on them.\<close>

lemma domains_ok_filter:
  assumes "domains_ok s t" "tn_domains t' = filter P (tn_domains t)" "set (tn_uris t') \<subseteq> set (tn_uris t)"
    "\<And>u d. u \<in> set (tn_uris t') \<Longrightarrow> d \<in> set (tn_domains t) \<Longrightarrow> vd_id d = ru_domain u \<Longrightarrow> vd_org d = ru_org u \<Longrightarrow> P d"
  shows "domains_ok s t'"
proof -
  have "distinct (map vd_apex (filter vd_active (filter P ds)))" if "distinct (map vd_apex (filter vd_active ds))" for ds
    using that by (induction ds) (auto split: if_splits)
  with assms(1,2) have "active_apexes_unique t'" "distinct (map vd_id (tn_domains t'))"
    by (auto simp: domains_ok_def active_apexes_unique_def distinct_map_filter_sub)
  moreover have "uri_ok t' u" if "u \<in> set (tn_uris t')" for u
    using that assms by (fastforce simp: domains_ok_def uri_ok_def)
  ultimately show ?thesis using assms(1,2) by (auto simp: domains_ok_def)
qed

lemma remove_domain_ok: "tables_ok s t \<Longrightarrow> tables_ok s (fst (removeVerifiedDomain t org userId i))"
  by (auto simp: removeVerifiedDomain_def tables_ok_def intro!: domains_ok_filter [of s t] split: sum.split)

lemma add_uri_ok:
  assumes "tables_ok s t"
  shows "tables_ok s (fst (addRedirectUri i t org userId pattern apex))"
proof -
  have "domains_ok s (t\<lparr>tn_uris := tn_uris t @
      [\<lparr>ru_id = i, ru_org = org, ru_domain = vd_id d, ru_pattern = pattern, ru_createdBy = userId\<rparr>]\<rparr>)"
    if "find (\<lambda>d. vd_org d = org \<and> vd_apex d = apex \<and> vd_active d) (tn_domains t) = Some d" for d
    using that assms
    by (auto simp: tables_ok_def domains_ok_def active_apexes_unique_def uri_ok_def find_Some_iff)
  with assms show ?thesis
    by (auto simp: addRedirectUri_def tables_ok_def split: sum.split option.split)
qed

lemma remove_uri_ok: "tables_ok s t \<Longrightarrow> tables_ok s (fst (removeRedirectUri t org userId i))"
  by (auto simp: removeRedirectUri_def tables_ok_def intro: domains_ok_same [of s t] split: sum.split)

lemma recheck_ok:
  assumes "tables_ok s t"
  shows "tables_ok s (recheck_write now t row outcome)"
proof (rule tables_ok_domains [OF assms])
  show "domains_ok s (recheck_write now t row outcome)"
    using assms
    by (auto simp: recheck_write_def tables_ok_def keeps_identity_def vd_active_def intro!: domains_ok_update split: row_outcome.split)
qed (simp_all add: recheck_write_def split: row_outcome.split)

section \<open>Members and deletions\<close>

lemma tables_ok_members:
  assumes "tables_ok s t" "memberships_unique ms"
  shows "tables_ok s (t\<lparr>tn_members := ms\<rparr>)"
  using assms by (auto simp: tables_ok_def intro: domains_ok_same [of s t])

lemma suspending_unique:
  assumes "memberships_unique ms"
  shows "memberships_unique (map (\<lambda>m. if om_id m = i then m\<lparr>om_suspendedAt := Some now, om_suspendedBy := b\<rparr> else m) ms)"
  using assms unfolding memberships_unique_def
  by (induction ms) (auto simp: image_iff split: if_splits)

lemma suspend_write_ok: "tables_ok s t \<Longrightarrow> tables_ok s (suspend_write now userId t i)"
  unfolding suspend_write_def update_members_def
  by (rule tables_ok_members) (auto simp: tables_ok_def intro: suspending_unique)

lemma reinstate_ok: "tables_ok s t \<Longrightarrow> tables_ok s (fst (reinstateMember t org i))"
  by (auto simp: reinstateMember_def update_members_def Let_def intro: tables_ok_members split: option.split)

lemma tables_ok_confirmations: "tables_ok s t \<Longrightarrow> tables_ok s (t\<lparr>tn_confirmations := cs\<rparr>)"
  by (auto simp: tables_ok_def intro: domains_ok_same [of s t])

lemma request_deletion_ok: "tables_ok s t \<Longrightarrow> tables_ok s (fst (requestOrgDeletion mailed i random now t org userId))"
  by (auto simp: requestOrgDeletion_def Let_def intro: tables_ok_confirmations split: sum.split option.split)

lemma tables_ok_orgs:
  assumes "tables_ok s t" "\<forall>g \<in> set gs. schedule_ok (to_confirmed s) g"
  shows "tables_ok s (t\<lparr>tn_orgs := gs\<rparr>)"
  using assms by (auto simp: tables_ok_def intro: domains_ok_same [of s t])

lemma update_orgs_ok:
  assumes "tables_ok s t" "\<And>g. g \<in> set (tn_orgs t) \<Longrightarrow> cond g \<Longrightarrow> schedule_ok (to_confirmed s) (f g)"
  shows "tables_ok s (update_orgs t cond f)"
  using assms unfolding update_orgs_def by (intro tables_ok_orgs) (auto simp: tables_ok_def)

lemma cancel_ok:
  assumes "tables_ok s t"
  shows "tables_ok s (fst (cancelOrgDeletion t org userId))"
proof -
  have "tables_ok s (update_orgs t (\<lambda>g. og_id g = org)
      (\<lambda>g. g\<lparr>og_pendingAt := None, og_requestedAt := None, og_requestedBy := None\<rparr>))"
    by (rule update_orgs_ok [OF assms]) (simp add: schedule_ok_def)
  with assms show ?thesis by (simp add: cancelOrgDeletion_def split: sum.split)
qed

text \<open>The only write that schedules a deletion.\<close>

lemma confirm_result:
  "confirmOrgDeletion now t org userId code = (t', r) \<Longrightarrow>
     (\<exists>e. r = Inl e \<and> t' = t) \<or>
     r = Inr (now + GRACE_WINDOW_MS) \<and>
     (\<exists>cs. t' = (update_orgs t (\<lambda>g. og_id g = org)
        (\<lambda>g. g\<lparr>og_pendingAt := Some (now + GRACE_WINDOW_MS), og_requestedAt := Some now, og_requestedBy := Some userId\<rparr>))
        \<lparr>tn_confirmations := cs\<rparr>)"
  by (auto simp: confirmOrgDeletion_def confirm_transaction_def Let_def split: sum.splits option.splits if_splits)

lemma confirm_ok:
  assumes "tables_ok s t" "confirmOrgDeletion now t org userId code = (t', r)"
    "\<And>x. r = Inr x \<Longrightarrow> (org, userId, now) \<in> set (to_confirmed s)"
  shows "tables_ok s t'"
  using confirm_result [OF assms(2)]
proof (elim disjE conjE exE)
  fix cs
  assume r: "r = Inr (now + GRACE_WINDOW_MS)"
  assume t': "t' = (update_orgs t (\<lambda>g. og_id g = org)
        (\<lambda>g. g\<lparr>og_pendingAt := Some (now + GRACE_WINDOW_MS), og_requestedAt := Some now, og_requestedBy := Some userId\<rparr>))
        \<lparr>tn_confirmations := cs\<rparr>"
  from r assms(3) have "(org, userId, now) \<in> set (to_confirmed s)" by simp
  then have "schedule_ok (to_confirmed s)
      (g\<lparr>og_pendingAt := Some (now + GRACE_WINDOW_MS), og_requestedAt := Some now, og_requestedBy := Some userId\<rparr>)"
    if "og_id g = org" for g
    using that unfolding schedule_ok_def by (intro allI impI exI [of _ userId] exI [of _ now]) simp
  with assms(1) show ?thesis unfolding t' by (intro tables_ok_confirmations update_orgs_ok)
qed (use assms(1) in simp)

lemma memberships_filter: "memberships_unique ms \<Longrightarrow> memberships_unique (filter P ms)"
  unfolding memberships_unique_def by (induction ms) auto

lemma hard_delete_ok:
  assumes "tables_ok s t"
  shows "tables_ok s (hardDeleteOrganizations t ids)"
proof -
  have sel: "tn_domains (hardDeleteOrganizations t ids) = filter (\<lambda>d. vd_org d \<notin> set ids) (tn_domains t)"
    "tn_uris (hardDeleteOrganizations t ids) = filter (\<lambda>u. ru_org u \<notin> set ids) (tn_uris t)"
    by (simp_all add: hardDeleteOrganizations_def)
  have "domains_ok s (hardDeleteOrganizations t ids)"
  proof (rule domains_ok_filter [OF _ sel(1)])
    show "domains_ok s t" using assms by (simp add: tables_ok_def)
  qed (simp_all add: sel)
  with assms memberships_filter show ?thesis
    by (simp add: tables_ok_def) (simp add: hardDeleteOrganizations_def)
qed

section \<open>Steps\<close>

lemma fst_unless_frozen: "P t \<Longrightarrow> P (fst r) \<Longrightarrow> P (fst (unless_frozen t org e r))"
  by (auto simp: unless_frozen_def split: sum.split)

lemma fst_as_domain_request [simp]: "fst (as_domain_request r) = fst r"
  by (auto simp: as_domain_request_def split: prod.split sum.split)

lemma add_uri_handler_ok:
  assumes "tables_ok s t"
  shows "tables_ok s (fst (addRedirectUriHandler parse loop i t org userId pattern))"
proof -
  have "tables_ok s t1" if "addRedirectUri i t org userId pattern apex = (t1, r)" for apex t1 r
    using add_uri_ok [OF assms, of i org userId pattern apex] that by simp
  with assms show ?thesis
    by (auto simp: addRedirectUriHandler_def split: sum.split option.split prod.split)
qed

text \<open>The history only grows.\<close>

lemma tables_ok_grows:
  assumes "tables_ok s t" "set (to_issued s) \<subseteq> set (to_issued s')" "set (to_answers s) \<subseteq> set (to_answers s')"
    "set (to_confirmed s) \<subseteq> set (to_confirmed s')"
  shows "tables_ok s' t"
  using assms unfolding tables_ok_def domains_ok_def proved_ok_def answered_def issued_ok_def schedule_ok_def
  by (meson subsetD)

lemma tenant_ok_grows:
  assumes "tenant_ok s" "set (to_issued s) \<subseteq> set (to_issued s')" "set (to_answers s) \<subseteq> set (to_answers s')"
    "set (to_confirmed s) \<subseteq> set (to_confirmed s')" "to_now s \<le> to_now s'"
    "to_verifies s' = to_verifies s" "to_proven s' = to_proven s" "to_deletes s' = to_deletes s" "tables_ok s' (to_tables s')"
  shows "tenant_ok s'"
proof -
  have "answered (to_answers s') a b" if "answered (to_answers s) a b" for a b
    using that assms(3) by (auto simp: answered_def)
  moreover have "issued_ok (to_issued s') c" if "issued_ok (to_issued s) c" for c
    using that assms(2) by (auto simp: issued_ok_def)
  moreover have "confirmed_before (to_confirmed s') (to_now s') i" if "confirmed_before (to_confirmed s) (to_now s) i" for i
    using that assms(4,5) by (fastforce simp: confirmed_before_def)
  ultimately show ?thesis using assms(1,6-9) by (auto simp: tenant_ok_def)
qed

lemma start_result:
  "startDnsChallengeHandler i token now t org userId raw = (t', r) \<Longrightarrow>
     (\<exists>e. r = Inl e \<and> t' = t) \<or>
     (\<exists>apex x. r = Inr x \<and> hostnameToApex raw = Inr apex \<and>
        t' = start_transaction t \<lparr>dc_id = i, dc_org = org, dc_apex = apex, dc_method = dns_txt, dc_token = token,
                         dc_expiresAt = now + DNS_CHALLENGE_TTL_MS, dc_createdBy = userId\<rparr>)"
  by (auto simp: startDnsChallengeHandler_def unless_frozen_def as_domain_request_def startDnsChallenge_def Let_def
      normalizeApexOrThrow_def split: sum.splits)

lemma start_transaction_ok:
  assumes "tables_ok s t" "issued_ok (to_issued s) row"
  shows "tables_ok s (start_transaction t row)"
proof -
  from assms(1) have "domains_ok s t" by (simp add: tables_ok_def)
  then have "domains_ok s (start_transaction t row)"
    by (rule domains_ok_same) (simp_all add: start_transaction_def)
  with assms show ?thesis by (auto simp: tables_ok_def start_transaction_def)
qed

lemma start_ok:
  assumes "tenant_ok s"
  shows "tenant_ok (start_step s i token org userId raw)"
proof -
  obtain t' r where h: "startDnsChallengeHandler i token (to_now s) (to_tables s) org userId raw = (t', r)" by fastforce
  from start_result [OF h] show ?thesis
  proof (elim disjE exE conjE)
    fix e assume "r = Inl e" "t' = to_tables s"
    with h assms show ?thesis by (simp add: start_step_def set_tables_def)
  next
    fix apex x
    assume r: "r = Inr x" and apex: "hostnameToApex raw = Inr apex"
      and t': "t' = start_transaction (to_tables s) \<lparr>dc_id = i, dc_org = org, dc_apex = apex, dc_method = dns_txt,
                 dc_token = token, dc_expiresAt = to_now s + DNS_CHALLENGE_TTL_MS, dc_createdBy = userId\<rparr>"
    let ?s = "(set_tables s t')\<lparr>to_issued := to_issued s @ [(org, apex, token)]\<rparr>"
    from assms have "tables_ok s (to_tables s)" by (simp add: tenant_ok_def)
    then have "tables_ok ?s (to_tables s)" by (rule tables_ok_grows) (auto simp: set_tables_def)
    then have "tables_ok ?s t'"
      unfolding t' by (rule start_transaction_ok) (simp add: issued_ok_def hostname_apex_shape [OF apex])
    then have "tables_ok ?s (to_tables ?s)" by (simp add: set_tables_def)
    with assms have "tenant_ok ?s" by (elim tenant_ok_grows) (auto simp: set_tables_def)
    with h r apex show ?thesis by (simp add: start_step_def)
  qed
qed

lemma confirm_step_ok:
  assumes "tenant_ok s"
  shows "tenant_ok (confirm_step s org userId code)"
proof -
  obtain t' r where h: "confirmOrgDeletion (to_now s) (to_tables s) org userId code = (t', r)" by fastforce
  from assms have t: "tables_ok s (to_tables s)" by (simp add: tenant_ok_def)
  show ?thesis
  proof (cases r)
    case (Inl e)
    with confirm_ok [OF t h] assms h show ?thesis by (simp add: confirm_step_def tenant_ok_tables)
  next
    case (Inr x)
    let ?s = "(set_tables s t')\<lparr>to_confirmed := to_confirmed s @ [(org, userId, to_now s)]\<rparr>"
    from t have "tables_ok ?s (to_tables s)" by (rule tables_ok_grows) (auto simp: set_tables_def)
    then have "tables_ok ?s t'" by (rule confirm_ok [OF _ h]) simp
    then have "tables_ok ?s (to_tables ?s)" by (simp add: set_tables_def)
    with assms have "tenant_ok ?s" by (elim tenant_ok_grows) (auto simp: set_tables_def)
    with h Inr show ?thesis by (simp add: confirm_step_def)
  qed
qed

lemma verify_begin_challenge:
  "verify_begin now t org userId cid ack = Inr pv \<Longrightarrow> pv_challenge pv \<in> set (tn_challenges t)"
  by (auto simp: verify_begin_def verify_read_def Let_def result_simps find_Some_iff split: sum.splits option.splits if_splits)

lemma lookup_step_ok:
  assumes "tenant_ok s" "pv \<in> set (to_verifies s)"
  shows "tenant_ok (lookup_step s fetch pv)"
proof -
  let ?c = "pv_challenge pv" and ?name = "dnsRecordNameForApex (dc_apex (pv_challenge pv))"
  show ?thesis
  proof (cases "\<exists>vals. verify_lookup fetch pv = Inr () \<and> lookupTxt fetch ?name = Some (Inr vals)")
    case True
    then obtain vals where v: "verify_lookup fetch pv = Inr ()" "lookupTxt fetch ?name = Some (Inr vals)" by blast
    let ?s = "s\<lparr>to_answers := to_answers s @ [(?name, vals)]\<rparr>"
    from assms(1) have "tables_ok s (to_tables s)" by (simp add: tenant_ok_def)
    then have "tables_ok ?s (to_tables ?s)" by (simp, elim tables_ok_grows) auto
    with assms(1) have ok: "tenant_ok ?s" by (elim tenant_ok_grows) auto
    from v have "answered (to_answers ?s) (dc_apex ?c) (dc_token ?c)"
      by (auto simp: verify_lookup_def expected_value_def answered_def list_ex_iff split: if_splits)
    moreover from assms have "issued_ok (to_issued s) ?c" by (auto simp: tenant_ok_def)
    ultimately have "tenant_ok (s\<lparr>to_proven := to_proven s @ [pv], to_answers := to_answers s @ [(?name, vals)]\<rparr>)"
      using ok unfolding tenant_ok_def tables_ok_def domains_ok_def by auto
    with v show ?thesis by (simp add: lookup_step_def Let_def)
  next
    case False
    then have "lookup_step s fetch pv = s" by (auto simp: lookup_step_def Let_def split: sum.split option.split)
    with assms show ?thesis by simp
  qed
qed

lemma due_confirmed:
  assumes "tenant_ok s" "i \<in> set (due_organizations (to_now s) n (to_tables s))"
  shows "confirmed_before (to_confirmed s) (to_now s) i"
proof -
  from assms(2) obtain g p where g: "g \<in> set (tn_orgs (to_tables s))" "og_id g = i" "og_pendingAt g = Some p" "p \<le> to_now s"
    by (auto simp: due_organizations_def dest!: in_set_takeD split: option.splits)
  with assms(1) have "schedule_ok (to_confirmed s) g" by (auto simp: tenant_ok_def tables_ok_def)
  with g show ?thesis by (auto simp: schedule_ok_def confirmed_before_def)
qed

lemma tenant_ok_pending:
  assumes "tenant_ok s"
  shows "issued_ok (to_issued s) (pv_challenge pv) \<Longrightarrow> tenant_ok (s\<lparr>to_verifies := to_verifies s @ [pv]\<rparr>)"
    and "tenant_ok (s\<lparr>to_rechecks := ds\<rparr>)" and "tenant_ok (s\<lparr>to_suspends := us\<rparr>)"
    and "\<forall>i \<in> set ids. confirmed_before (to_confirmed s) (to_now s) i \<Longrightarrow> tenant_ok (s\<lparr>to_deletes := to_deletes s @ [ids]\<rparr>)"
  using assms unfolding tenant_ok_def tables_ok_def domains_ok_def by auto

lemma tenant_ok_base: "tenant_ok s \<Longrightarrow> tables_ok s (to_tables s)"
  by (simp add: tenant_ok_def)

lemma tenant_step_ok:
  assumes "tenant_step s s'" "tenant_ok s"
  shows "tenant_ok s'"
  using assms
proof cases
  case (Tick now)
  from assms(2) have "tables_ok s (to_tables s)" by (simp add: tenant_ok_def)
  then have "tables_ok s' (to_tables s')" using Tick by (simp, elim tables_ok_grows) auto
  with assms(2) Tick show ?thesis by (elim tenant_ok_grows) auto
next
  case (Accounts us)
  from assms(2) have "tables_ok s ((to_tables s)\<lparr>tn_users := us\<rparr>)"
    by (auto simp: tenant_ok_def tables_ok_def intro: domains_ok_same [of s "to_tables s"])
  with Accounts assms(2) show ?thesis by (simp add: tenant_ok_tables)
next
  case (New_org g)
  from assms(2) have "tables_ok s (to_tables s)" by (simp add: tenant_ok_def)
  then have "tables_ok s ((to_tables s)\<lparr>tn_orgs := tn_orgs (to_tables s) @ [g]\<rparr>)"
    using New_org by (intro tables_ok_orgs) (auto simp: tables_ok_def schedule_ok_def)
  with New_org assms(2) show ?thesis by (simp add: tenant_ok_tables)
next
  case (Start i token org userId raw)
  with assms(2) show ?thesis by (simp add: start_ok)
next
  case (Verify org userId cid ack pv)
  with assms(2) verify_begin_challenge have "issued_ok (to_issued s) (pv_challenge pv)"
    by (auto simp: tenant_ok_def tables_ok_def)
  with Verify assms(2) show ?thesis by (simp add: tenant_ok_pending)
next
  case (Lookup pv fetch)
  with assms(2) show ?thesis by (simp add: lookup_step_ok)
next
  case (Confirm_deletion org userId code)
  with assms(2) show ?thesis by (simp add: confirm_step_ok)
next
  case (Select_due n)
  with assms(2) due_confirmed show ?thesis by (auto intro!: tenant_ok_pending)
next
  case (Memberships ms)
  with assms(2) show ?thesis by (simp add: tenant_ok_tables tables_ok_members tenant_ok_base)
next
  case (Commit pv i)
  with assms(2) have "tables_ok s (fst (verify_commit i (to_now s) (to_tables s) pv))"
    by (intro commit_ok) (auto simp: tenant_ok_def)
  with Commit assms(2) show ?thesis by (simp add: tenant_ok_tables)
next
  case (Remove_domain org userId i)
  with assms(2) show ?thesis
    by (simp add: tenant_ok_tables removeDomainHandler_def fst_unless_frozen remove_domain_ok tenant_ok_base)
next
  case (Add_uri i parse loop org userId pattern)
  with assms(2) show ?thesis by (simp add: tenant_ok_tables add_uri_handler_ok tenant_ok_base)
next
  case (Remove_uri org userId i)
  with assms(2) show ?thesis
    by (simp add: tenant_ok_tables removeRedirectUriHandler_def fst_unless_frozen remove_uri_ok tenant_ok_base)
next
  case (Recheck d)
  with assms(2) show ?thesis by (simp add: tenant_ok_pending)
next
  case (Recheck_write d fetch)
  with assms(2) show ?thesis by (simp add: tenant_ok_tables processDueRow_def Let_def recheck_ok tenant_ok_base)
next
  case (Suspend org userId memberId m)
  with assms(2) show ?thesis by (simp add: tenant_ok_pending)
next
  case (Leave org userId m)
  with assms(2) show ?thesis by (simp add: tenant_ok_pending)
next
  case (Suspend_write userId m)
  with assms(2) show ?thesis by (simp add: tenant_ok_tables suspend_write_ok tenant_ok_base)
next
  case (Reinstate org userId memberId)
  have "tables_ok s (fst (if \<not> canManageMembers t org userId then (t, Inl Member_forbidden) else reinstateMember t org memberId))"
    if "tables_ok s t" for t
    using that by (simp add: reinstate_ok)
  with Reinstate assms(2) show ?thesis
    by (simp only: tenant_ok_tables reinstateMemberHandler_def fst_unless_frozen tenant_ok_base)
next
  case (Request_deletion mailed i random org userId)
  with assms(2) show ?thesis by (simp add: tenant_ok_tables request_deletion_ok tenant_ok_base)
next
  case (Cancel_deletion org userId)
  with assms(2) show ?thesis by (simp add: tenant_ok_tables cancel_ok tenant_ok_base)
next
  case (Delete_due ids)
  with assms(2) show ?thesis by (simp add: tenant_ok_tables hard_delete_ok tenant_ok_base)
qed

lemma initial_ok: "tenant_ok (initial_tenants now)"
  by (simp add: tenant_ok_def initial_tenants_def empty_tenants_def tables_ok_def domains_ok_def active_apexes_unique_def
      memberships_unique_def)

lemma reachable_tenant_ok: "tenant_reachable s \<Longrightarrow> tenant_ok s"
  by (induction rule: tenant_reachable.induct) (auto intro: initial_ok tenant_step_ok)

end
