(* ===== verification/Organization_Runs.thy ===== *)
theory Organization_Runs
  imports Organization_Invariants
begin

text \<open>
  Runs of the tables of organizations, written down as lists of events and evaluated: what the
  witnesses and the theorems about interleavings use. Every run is reachable.
\<close>

section \<open>A run\<close>

text \<open>Two organizations; the first, with two owners, verifies its domain.\<close>

definition demo_member :: "string \<Rightarrow> string \<Rightarrow> string \<Rightarrow> string \<Rightarrow> member" where
  "demo_member i org userId role =
     \<lparr>om_id = i, om_org = org, om_user = userId, om_role = role, om_suspendedAt = None, om_suspendedBy = None\<rparr>"

definition demo_org :: "string \<Rightarrow> organization" where
  "demo_org i = \<lparr>og_id = i, og_name = i, og_pendingAt = None, og_requestedAt = None, og_requestedBy = None\<rparr>"

definition demo_members :: "member list" where
  "demo_members =
     [demo_member ''m1'' ''o'' ''u'' ''owner'', demo_member ''m2'' ''o'' ''v'' ''owner'', demo_member ''m3'' ''p'' ''w'' ''owner'']"

definition demo_tables :: tenants where
  "demo_tables = empty_tenants\<lparr>tn_users := [\<lparr>us_id = ''u'', us_email = ''u@acme.co''\<rparr>],
     tn_orgs := [demo_org ''o'', demo_org ''p''], tn_members := demo_members\<rparr>"

definition demo_start :: tenant_state where
  "demo_start = set_tables (initial_tenants 0) demo_tables"

definition demo_fetch :: "string \<Rightarrow> string \<Rightarrow> doh_reply" where
  "demo_fetch token url =
     Response True (Some (JObj [(''Status'', JNum 0),
       (''Answer'', JArr [JObj [(''type'', JNum 16), (''data'', JStr (quoted (formatDnsRecordValue token)))]])]))"

definition silent_fetch :: "string \<Rightarrow> doh_reply" where
  "silent_fetch url = Response True (Some (JObj [(''Status'', JNum 3)]))"

lemma demo_start_reachable: "tenant_reachable demo_start"
proof -
  let ?s0 = "initial_tenants 0"
  let ?t1 = "(to_tables ?s0)\<lparr>tn_users := [\<lparr>us_id = ''u'', us_email = ''u@acme.co''\<rparr>]\<rparr>"
  let ?s1 = "set_tables ?s0 ?t1"
  let ?s2 = "set_tables ?s1 ((to_tables ?s1)\<lparr>tn_orgs := tn_orgs (to_tables ?s1) @ [demo_org ''o'']\<rparr>)"
  let ?s3 = "set_tables ?s2 ((to_tables ?s2)\<lparr>tn_orgs := tn_orgs (to_tables ?s2) @ [demo_org ''p'']\<rparr>)"
  have "tenant_reachable ?s1" by (rule tenant_reachable.Next [OF tenant_reachable.Initial Accounts])
  then have "tenant_reachable ?s2"
    by (rule tenant_reachable.Next) (rule New_org; simp add: set_tables_def initial_tenants_def empty_tenants_def demo_org_def)
  then have "tenant_reachable ?s3"
    by (rule tenant_reachable.Next) (rule New_org; simp add: set_tables_def initial_tenants_def empty_tenants_def demo_org_def)
  then have "tenant_reachable (set_tables ?s3 ((to_tables ?s3)\<lparr>tn_members := demo_members\<rparr>))"
    by (rule tenant_reachable.Next) (rule Memberships, simp add: memberships_unique_def demo_members_def demo_member_def)
  also have "set_tables ?s3 ((to_tables ?s3)\<lparr>tn_members := demo_members\<rparr>) = demo_start"
    by (simp add: demo_start_def demo_tables_def set_tables_def initial_tenants_def empty_tenants_def)
  finally show ?thesis .
qed

text \<open>Events, by which runs are written down and evaluated; an event whose guard fails does nothing.\<close>

datatype tenant_event =
  Ev_tick int
| Ev_start string string string string string
| Ev_verify string string string bool
| Ev_lookup "string \<Rightarrow> doh_reply" nat
| Ev_commit nat string
| Ev_recheck
| Ev_recheck_write nat "string \<Rightarrow> doh_reply"
| Ev_leave string string
| Ev_suspend_write nat
| Ev_request string string string string
| Ev_confirm string string string
| Ev_cancel string string
| Ev_select_due
| Ev_delete_due nat

definition play_event :: "tenant_state \<Rightarrow> tenant_event \<Rightarrow> tenant_state" where
  "play_event s e =
     (case e of
        Ev_tick now \<Rightarrow> if to_now s \<le> now then s\<lparr>to_now := now\<rparr> else s
      | Ev_start i token org userId raw \<Rightarrow>
          if list_all (\<lambda>c. dc_id c \<noteq> i) (tn_challenges (to_tables s)) then start_step s i token org userId raw else s
      | Ev_verify org userId cid ack \<Rightarrow>
          (case verify_begin (to_now s) (to_tables s) org userId cid ack of
             Inl _ \<Rightarrow> s
           | Inr pv \<Rightarrow> s\<lparr>to_verifies := to_verifies s @ [pv]\<rparr>)
      | Ev_lookup fetch k \<Rightarrow> if k < length (to_verifies s) then lookup_step s fetch (to_verifies s ! k) else s
      | Ev_commit k i \<Rightarrow>
          if k < length (to_proven s) \<and> list_all (\<lambda>d. vd_id d \<noteq> i) (tn_domains (to_tables s))
          then set_tables s (fst (verify_commit i (to_now s) (to_tables s) (to_proven s ! k))) else s
      | Ev_recheck \<Rightarrow>
          (case due_domains (to_now s) DEFAULT_BATCH_SIZE DEFAULT_STALE_AFTER_MS (to_tables s) of
             [] \<Rightarrow> s
           | d # _ \<Rightarrow> s\<lparr>to_rechecks := to_rechecks s @ [d]\<rparr>)
      | Ev_recheck_write k fetch \<Rightarrow>
          if k < length (to_rechecks s)
          then set_tables s (fst (processDueRow fetch (to_now s) DEFAULT_DOWNGRADE_AFTER_FAILURES (to_tables s) (to_rechecks s ! k)))
          else s
      | Ev_leave org userId \<Rightarrow>
          (case leaveOrganizationHandler_read (to_tables s) org userId of
             Inl _ \<Rightarrow> s
           | Inr m \<Rightarrow> s\<lparr>to_suspends := to_suspends s @ [(userId, m)]\<rparr>)
      | Ev_suspend_write k \<Rightarrow>
          if k < length (to_suspends s)
          then set_tables s (suspend_write (to_now s) (fst (to_suspends s ! k)) (to_tables s) (snd (to_suspends s ! k))) else s
      | Ev_request i random org userId \<Rightarrow>
          set_tables s (fst (requestOrgDeletion True i random (to_now s) (to_tables s) org userId))
      | Ev_confirm org userId code \<Rightarrow> confirm_step s org userId code
      | Ev_cancel org userId \<Rightarrow> set_tables s (fst (cancelOrgDeletion (to_tables s) org userId))
      | Ev_select_due \<Rightarrow> s\<lparr>to_deletes := to_deletes s @ [due_organizations (to_now s) 20 (to_tables s)]\<rparr>
      | Ev_delete_due k \<Rightarrow>
          if k < length (to_deletes s) then set_tables s (hardDeleteOrganizations (to_tables s) (to_deletes s ! k)) else s)"

definition play :: "tenant_state \<Rightarrow> tenant_event list \<Rightarrow> tenant_state" where
  "play s events = foldl play_event s events"

lemma play_event_step: "tenant_step s (play_event s e) \<or> play_event s e = s"
proof (cases e)
  case (Ev_commit k i)
  then show ?thesis by (auto simp: play_event_def list_all_iff intro!: Commit)
next
  case (Ev_recheck_write k fetch)
  then show ?thesis by (auto simp: play_event_def intro!: Recheck_write)
next
  case (Ev_suspend_write k)
  then show ?thesis by (auto simp: play_event_def intro!: Suspend_write)
qed (auto simp: play_event_def list_all_iff intro: tenant_step.intros split: sum.split list.split)

lemma play_reachable: "tenant_reachable s \<Longrightarrow> tenant_reachable (play s events)"
  unfolding play_def
  by (induction events arbitrary: s) (use play_event_step tenant_reachable.Next in fastforce)+

definition demo_verified :: tenant_state where
  "demo_verified = play demo_start
     [Ev_start ''c'' ''abc'' ''o'' ''u'' ''acme.co'', Ev_verify ''o'' ''u'' ''c'' False,
      Ev_lookup (demo_fetch ''abc'') 0, Ev_commit 0 ''d'']"

definition demo_domain :: "int \<Rightarrow> string \<Rightarrow> verified_domain" where
  "demo_domain now token = \<lparr>vd_id = ''d'', vd_org = ''o'', vd_apex = ''acme.co'', vd_verifiedAt = now, vd_verifiedVia = dns_txt,
     vd_verifiedBy = ''u'', vd_recheckToken = Some token, vd_lastCheckedAt = Some now, vd_failures = 0,
     vd_downgradedAt = None\<rparr>"

lemma demo_verified_reachable: "tenant_reachable demo_verified"
  unfolding demo_verified_def by (rule play_reachable [OF demo_start_reachable])

lemma demo_verified_tables:
  "tn_domains (to_tables demo_verified) = [demo_domain 0 ''abc'']" "tn_uris (to_tables demo_verified) = []"
  "to_issued demo_verified = [(''o'', ''acme.co'', ''abc'')]"
  by code_simp+

definition day :: int where "day = 24 * 60 * 60 * 1000"

lemma set_tables_sel [simp]: "to_tables (set_tables s t) = t"
  by (simp add: set_tables_def)

end
