(* ===== verification/Domain_Guarantees.thy ===== *)
theory Domain_Guarantees
  imports Organization_Runs
begin

text \<open>
  What the service promises of domains: they are held on proof and by one organization at a time,
  redirects stay on them, a domain changes hands only acknowledged, and the recheck counts clean
  misses alone. One theorem shows what a stale recheck breaks.
\<close>

section \<open>Domains\<close>



lemma reachable_apexes_ok: "tenant_reachable s \<Longrightarrow> apexes_ok (to_tables s)"
  using reachable_tenant_ok [of s]
  by (auto simp: tenant_ok_def tables_ok_def domains_ok_def apexes_ok_def proved_ok_def list_all_iff)

text \<open>
  C31. The test that a host lies under an apex agrees with the extraction of the apex: for every
  normalized host and every apex some host extracts to, the host is the apex or a subdomain of it
  exactly when its own extracted apex is that one. So no host lies under two apexes.
\<close>

theorem under_apex_is_extraction:
  assumes "apex_normalizeHostname raw = Inr host" and "hostnameToApex other = Inr apex"
  shows "isHostUnderApex host apex \<longleftrightarrow> hostnameToApex raw = Inr apex"
  using under_apex_iff_extracted [OF hostname_apex_shape [OF assms(2)] normalized_labels(1) [OF assms(1)]] assms(1)
  by (simp add: hostnameToApex_def)

theorem under_apex_is_extraction_witness:
  "isHostUnderApex ''id.app.acme.co.uk'' ''acme.co.uk'' \<longleftrightarrow> hostnameToApex '' ID.App.acme.co.uk.'' = Inr ''acme.co.uk''"
proof (rule under_apex_is_extraction)
  show "apex_normalizeHostname '' ID.App.acme.co.uk.'' = Inr ''id.app.acme.co.uk''" by code_simp
  show "hostnameToApex ''acme.co.uk'' = Inr ''acme.co.uk''" by code_simp
qed

section \<open>Redirects\<close>



section \<open>Records\<close>

text \<open>
  A TXT record reads back as it was published: however its text is cut into chunks without quotes
  and white space, as the value of a challenge is, the resolver's quoted chunks are put together
  again.
\<close>

theorem printed_record_reads_back:
  assumes "chunks \<noteq> []" and "list_all plain_chunk chunks" and "concat chunks = formatDnsRecordValue token"
  shows "txt_values [JObj [(''type'', JNum 16), (''data'', JStr (print_txt chunks))]] = [formatDnsRecordValue token]"
proof -
  obtain c cs where "chunks = c # cs" using assms(1) by (cases chunks) auto
  with assms strip_print_txt [of c cs] show ?thesis by (simp add: txt_values_def json_field_def)
qed

theorem printed_record_reads_back_witness:
  "txt_values [JObj [(''type'', JNum 16), (''data'', JStr (print_txt [''kayle-id-'', ''verification=abc'']))]] =
     [formatDnsRecordValue ''abc'']"
  by (rule printed_record_reads_back; code_simp)

section \<open>The recheck\<close>

text \<open>What an answer says of a token, and the count the recheck promises: nothing once the row is downgraded.\<close>

datatype dns_answer = Hit | Miss | No_answer

definition answer_of :: "(string \<Rightarrow> doh_reply) \<Rightarrow> string \<Rightarrow> string \<Rightarrow> dns_answer" where
  "answer_of fetch apex token =
     (case lookupTxt fetch (dnsRecordNameForApex apex) of
        None \<Rightarrow> No_answer
      | Some (Inl reason) \<Rightarrow> if reason = no_record then Miss else No_answer
      | Some (Inr vals) \<Rightarrow> if formatDnsRecordValue token \<in> set vals then Hit else Miss)"

fun streak :: "int \<Rightarrow> dns_answer list \<Rightarrow> int option" where
  "streak n [] = Some n"
| "streak n (Hit # answers) = streak 0 answers"
| "streak n (Miss # answers) = (if 3 \<le> n + 1 then None else streak (n + 1) answers)"
| "streak n (No_answer # answers) = streak n answers"

definition row_of :: "tenants \<Rightarrow> string \<Rightarrow> verified_domain option" where
  "row_of t i = find (\<lambda>d. vd_id d = i) (tn_domains t)"

definition recheck_row :: "string \<Rightarrow> tenants \<Rightarrow> int \<times> (string \<Rightarrow> doh_reply) \<Rightarrow> tenants" where
  "recheck_row i t check =
     (case row_of t i of
        None \<Rightarrow> t
      | Some d \<Rightarrow>
          if vd_active d then fst (processDueRow (snd check) (fst check) DEFAULT_DOWNGRADE_AFTER_FAILURES t d) else t)"

lemma row_of_update:
  assumes "\<And>d. vd_id (f d) = vd_id d"
  shows "row_of (update_domains t (\<lambda>d. vd_id d = i) f) i = map_option f (row_of t i)"
proof -
  have "find (\<lambda>d. vd_id d = i) (map (\<lambda>d. if vd_id d = i then f d else d) ds) = map_option f (find (\<lambda>d. vd_id d = i) ds)" for ds
    using assms by (induction ds) auto
  then show ?thesis by (simp add: row_of_def)
qed

lemma others_update:
  assumes "\<And>d. vd_id (f d) = vd_id d"
  shows "filter (\<lambda>d. vd_id d \<noteq> i) (tn_domains (update_domains t (\<lambda>d. vd_id d = i) f)) =
    filter (\<lambda>d. vd_id d \<noteq> i) (tn_domains t)"
proof -
  have "filter (\<lambda>d. vd_id d \<noteq> i) (map (\<lambda>d. if vd_id d = i then f d else d) ds) = filter (\<lambda>d. vd_id d \<noteq> i) ds" for ds
    using assms by (induction ds) auto
  then show ?thesis by simp
qed

lemma recheck_others: "filter (\<lambda>d. vd_id d \<noteq> i) (tn_domains (recheck_row i t check)) = filter (\<lambda>d. vd_id d \<noteq> i) (tn_domains t)"
proof (cases "row_of t i")
  case (Some d)
  then have "vd_id d = i" by (auto simp: row_of_def find_Some_iff)
  with Some show ?thesis
    by (auto simp: recheck_row_def processDueRow_def Let_def recheck_write_def others_update
        simp del: update_domains_sel split: row_outcome.split)
qed (simp add: recheck_row_def)

lemma recheck_row_step:
  assumes "row_of t i = Some d" "vd_active d" "vd_recheckToken d = Some token" "token \<noteq> []"
  obtains d' where "row_of (recheck_row i t check) i = Some d'" "vd_recheckToken d' = Some token" "vd_apex d' = vd_apex d"
    "case streak (vd_failures d) [answer_of (snd check) (vd_apex d) token] of
       Some n \<Rightarrow> vd_active d' \<and> vd_failures d' = n | None \<Rightarrow> \<not> vd_active d' \<and> 3 \<le> vd_failures d'"
proof -
  from assms(1) have "vd_id d = i" by (auto simp: row_of_def find_Some_iff)
  with assms that show ?thesis
    by (cases "answer_of (snd check) (vd_apex d) token"; cases "2 \<le> vd_failures d")
      (auto simp: recheck_row_def processDueRow_def Let_def recheck_write_def row_of_update row_outcome_of_def answer_of_def
        missed_outcome_def DEFAULT_DOWNGRADE_AFTER_FAILURES_def list_ex_iff vd_active_def
        simp del: update_domains_sel split: option.splits sum.splits if_splits)
qed

lemma recheck_row_inactive: "row_of t i = Some d \<Longrightarrow> \<not> vd_active d \<Longrightarrow> recheck_row i t check = t"
  by (simp add: recheck_row_def)

lemma recheck_rows_inactive: "row_of t i = Some d \<Longrightarrow> \<not> vd_active d \<Longrightarrow> foldl (recheck_row i) t checks = t"
  by (induction checks) (simp_all add: recheck_row_inactive)



definition reproved_state :: tenant_state where
  "reproved_state = play demo_verified
     [Ev_tick day, Ev_recheck, Ev_recheck_write 0 silent_fetch, Ev_tick (2 * day), Ev_recheck,
      Ev_recheck_write 1 silent_fetch, Ev_tick (3 * day), Ev_recheck,
      Ev_start ''c2'' ''xyz'' ''o'' ''u'' ''acme.co'', Ev_verify ''o'' ''u'' ''c2'' False,
      Ev_lookup (demo_fetch ''xyz'') 1, Ev_commit 1 ''e'']"

text \<open>
  A stale recheck downgrades a fresh proof. A row with two misses behind it is selected; before
  its lookup the owner proves the domain anew with a new token, and the resolver shows it; the
  recheck still compares the token it selected, counts on from its own two misses and downgrades the
  row that was just verified.
\<close>

theorem stale_recheck_downgrades_fresh_proof:
  "tenant_reachable reproved_state \<and>
   tn_domains (to_tables reproved_state) = [demo_domain (3 * day) ''xyz''] \<and>
   answer_of (demo_fetch ''xyz'') ''acme.co'' ''xyz'' = Hit \<and>
   (\<exists>s'. tenant_step reproved_state s' \<and>
      s' = play_event reproved_state (Ev_recheck_write 2 (demo_fetch ''xyz'')) \<and>
      tn_domains (to_tables s') = [(demo_domain (3 * day) ''xyz'')\<lparr>vd_failures := 3, vd_downgradedAt := Some (3 * day)\<rparr>])"
proof -
  let ?s' = "play_event reproved_state (Ev_recheck_write 2 (demo_fetch ''xyz''))"
  have d: "tn_domains (to_tables reproved_state) = [demo_domain (3 * day) ''xyz'']" by code_simp
  have d': "tn_domains (to_tables ?s') = [(demo_domain (3 * day) ''xyz'')\<lparr>vd_failures := 3, vd_downgradedAt := Some (3 * day)\<rparr>]"
    by code_simp
  have "?s' \<noteq> reproved_state"
  proof
    assume "?s' = reproved_state"
    with d d' show False by (simp add: demo_domain_def)
  qed
  with play_event_step have "tenant_step reproved_state ?s'" by blast
  moreover have "answer_of (demo_fetch ''xyz'') ''acme.co'' ''xyz'' = Hit" by code_simp
  ultimately show ?thesis
    using d d' play_reachable [OF demo_verified_reachable] unfolding reproved_state_def by blast
qed

section \<open>Takeovers\<close>

lemma findConflicting_props:
  assumes "findConflictingActiveOwner t apex org = Some g"
  shows "og_id g \<noteq> org" and "\<exists>d \<in> set (tn_domains t). vd_org d = og_id g \<and> vd_apex d = apex \<and> vd_active d"
proof -
  from assms obtain d ds where "filter (\<lambda>d. vd_apex d = apex \<and> vd_active d \<and> vd_org d \<noteq> org \<and> find_org t (vd_org d) \<noteq> None) (tn_domains t) = d # ds"
    and g: "find_org t (vd_org d) = Some g"
    by (auto simp: findConflictingActiveOwner_def split: list.splits)
  then have "d \<in> set (tn_domains t)" "vd_apex d = apex" "vd_active d" "vd_org d \<noteq> org"
    by (metis (mono_tags, lifting) list.set_intros(1) mem_Collect_eq set_filter)+
  moreover from g have "og_id g = vd_org d" by (auto simp: find_org_def find_Some_iff)
  ultimately show "og_id g \<noteq> org" "\<exists>d \<in> set (tn_domains t). vd_org d = og_id g \<and> vd_apex d = apex \<and> vd_active d"
    by auto
qed

lemma upserted_row:
  "\<exists>e \<in> set (tn_domains (fst (upsert_domain i userId now t c))). vd_active e \<and> vd_apex e = dc_apex c \<and> vd_org e = dc_org c"
proof (cases "find (\<lambda>d. vd_org d = dc_org c \<and> vd_apex d = dc_apex c) (tn_domains t)")
  case None
  then show ?thesis by (simp add: upsert_domain_def vd_active_def)
next
  case (Some r)
  then have r: "r \<in> set (tn_domains t)" "vd_org r = dc_org c" "vd_apex r = dc_apex c" by (auto simp: find_Some_iff)
  let ?f = "\<lambda>d. d\<lparr>vd_verifiedAt := now, vd_verifiedVia := dns_txt, vd_verifiedBy := userId,
      vd_recheckToken := Some (dc_token c), vd_lastCheckedAt := Some now, vd_failures := 0, vd_downgradedAt := None\<rparr>"
  from r have "?f r \<in> set (tn_domains (fst (upsert_domain i userId now t c)))" by (auto simp: upsert_domain_def Some)
  moreover from r have "vd_active (?f r)" "vd_apex (?f r) = dc_apex c" "vd_org (?f r) = dc_org c" by (simp_all add: vd_active_def)
  ultimately show ?thesis by blast
qed

lemma commit_rows:
  assumes "verify_commit i now t pv = (t', Inr domainId)" "d \<in> set (tn_domains t)" "vd_org d \<noteq> dc_org (pv_challenge pv)"
  shows "d \<in> set (tn_domains t') \<or>
    (\<exists>g. pv_conflict pv = Some g \<and> og_id g = vd_org d \<and> vd_apex d = dc_apex (pv_challenge pv) \<and> vd_active d)"
proof -
  let ?t1 = "downgrade_conflict now t pv"
  have t': "tn_domains t' = tn_domains (fst (upsert_domain i (pv_user pv) now ?t1 (pv_challenge pv)))"
    using assms(1) by (auto simp: verify_commit_def Let_def split: if_splits)
  show ?thesis
  proof (cases "d \<in> set (tn_domains ?t1)")
    case True
    with assms(3) show ?thesis by (auto simp: t' upsert_domain_def Let_def split: option.split)
  next
    case False
    with assms(2) show ?thesis by (auto simp: downgrade_conflict_def split: option.splits)
  qed
qed

text \<open>
  C29. A domain changes hands only acknowledged. When a verification, however much happens between
  its reads and its write, takes a row of another organization out of its state, the request had
  acknowledged the takeover and the other organization already held the domain when it was read;
  and when a third organization has the domain at the write, the write throws and changes nothing.
\<close>

theorem takeover_is_acknowledged:
  assumes "verify_read now0 t0 org userId cid ack = Inr pv"
  shows "(\<forall>d. verify_commit i now t pv = (t', Inr domainId) \<longrightarrow> d \<in> set (tn_domains t) \<longrightarrow> vd_org d \<noteq> org \<longrightarrow>
      d \<notin> set (tn_domains t') \<longrightarrow>
      ack \<and> vd_apex d = dc_apex (pv_challenge pv) \<and>
      (\<exists>e \<in> set (tn_domains t0). vd_org e = vd_org d \<and> vd_apex e = vd_apex d \<and> vd_active e)) \<and>
    (\<forall>d \<in> set (tn_domains t). vd_active d \<longrightarrow> vd_apex d = dc_apex (pv_challenge pv) \<longrightarrow> vd_org d \<noteq> org \<longrightarrow>
      (\<forall>g. pv_conflict pv = Some g \<longrightarrow> og_id g \<noteq> vd_org d) \<longrightarrow>
      verify_commit i now t pv = (t, Inl Domain_throws))"
proof -
  from assms have c: "dc_org (pv_challenge pv) = org"
    and g: "\<And>g. pv_conflict pv = Some g \<Longrightarrow> ack \<and> findConflictingActiveOwner t0 (dc_apex (pv_challenge pv)) org = Some g"
    by (auto simp: verify_read_def result_simps Let_def find_Some_iff split: option.splits if_splits)
  have first: "ack \<and> vd_apex d = dc_apex (pv_challenge pv) \<and>
      (\<exists>e \<in> set (tn_domains t0). vd_org e = vd_org d \<and> vd_apex e = vd_apex d \<and> vd_active e)"
    if w: "verify_commit i now t pv = (t', Inr domainId)" and d: "d \<in> set (tn_domains t)" "vd_org d \<noteq> org"
      "d \<notin> set (tn_domains t')" for d
  proof -
    from commit_rows [OF w d(1)] d c obtain h where h: "pv_conflict pv = Some h" "og_id h = vd_org d"
      "vd_apex d = dc_apex (pv_challenge pv)" by auto
    from g [OF h(1)] findConflicting_props(2) h show ?thesis by metis
  qed
  have second: "verify_commit i now t pv = (t, Inl Domain_throws)"
    if d: "d \<in> set (tn_domains t)" "vd_active d" "vd_apex d = dc_apex (pv_challenge pv)" "vd_org d \<noteq> org"
      "\<forall>g. pv_conflict pv = Some g \<longrightarrow> og_id g \<noteq> vd_org d" for d
  proof (rule ccontr)
    assume n: "verify_commit i now t pv \<noteq> (t, Inl Domain_throws)"
    let ?r = "upsert_domain i (pv_user pv) now (downgrade_conflict now t pv) (pv_challenge pv)"
    from n have u: "active_apexes_unique (fst ?r)" by (auto simp: verify_commit_def Let_def split: if_splits)
    from n obtain t2 j where w: "verify_commit i now t pv = (t2, Inr j)"
      by (auto simp: verify_commit_def Let_def split: if_splits)
    from commit_rows [OF w d(1)] d c have "d \<in> set (tn_domains t2)" by auto
    then have "d \<in> set (tn_domains (fst ?r))" using w by (auto simp: verify_commit_def Let_def split: if_splits)
    moreover obtain e where "e \<in> set (tn_domains (fst ?r))" "vd_active e" "vd_apex e = dc_apex (pv_challenge pv)"
      "vd_org e = dc_org (pv_challenge pv)"
      using upserted_row by blast
    ultimately show False using u d c
      by (auto simp: active_apexes_unique_def distinct_map inj_on_def)
  qed
  from first second show ?thesis by blast
qed

definition rival_state :: tenant_state where
  "rival_state = play demo_verified [Ev_tick day, Ev_start ''c3'' ''pqr'' ''p'' ''w'' ''www.acme.co'']"

definition rival_verify :: pending_verify where
  "rival_verify = \<lparr>pv_user = ''w'',
     pv_challenge = \<lparr>dc_id = ''c3'', dc_org = ''p'', dc_apex = ''acme.co'', dc_method = dns_txt, dc_token = ''pqr'',
       dc_expiresAt = day + DNS_CHALLENGE_TTL_MS, dc_createdBy = ''w''\<rparr>,
     pv_conflict = Some (demo_org ''o'')\<rparr>"

theorem takeover_is_acknowledged_witness:
  "verify_read day (to_tables rival_state) ''p'' ''w'' ''c3'' True = Inr rival_verify \<and>
   vd_apex (demo_domain 0 ''abc'') = dc_apex (pv_challenge rival_verify)"
proof
  show r: "verify_read day (to_tables rival_state) ''p'' ''w'' ''c3'' True = Inr rival_verify" by code_simp
  let ?w = "verify_commit ''e'' day (to_tables rival_state) rival_verify"
  have "snd ?w = Inr ''e''" by code_simp
  then have w: "?w = (fst ?w, Inr ''e'')" by (metis prod.collapse)
  have d: "demo_domain 0 ''abc'' \<in> set (tn_domains (to_tables rival_state))" "vd_org (demo_domain 0 ''abc'') \<noteq> ''p''"
    "demo_domain 0 ''abc'' \<notin> set (tn_domains (fst ?w))"
  proof -
    have "tn_domains (to_tables rival_state) = [demo_domain 0 ''abc'']" by code_simp
    then show "demo_domain 0 ''abc'' \<in> set (tn_domains (to_tables rival_state))" by simp
    show "vd_org (demo_domain 0 ''abc'') \<noteq> ''p''" by (simp add: demo_domain_def)
    have "map vd_downgradedAt (tn_domains (fst ?w)) = [Some day, None]" "map vd_id (tn_domains (fst ?w)) = [''d'', ''e'']"
      by code_simp+
    then show "demo_domain 0 ''abc'' \<notin> set (tn_domains (fst ?w))"
      by (auto simp: demo_domain_def map_eq_Cons_conv)
  qed
  from takeover_is_acknowledged [OF r, of "''e''" day "to_tables rival_state" "fst ?w" "''e''"] w d
  show "vd_apex (demo_domain 0 ''abc'') = dc_apex (pv_challenge rival_verify)" by blast
qed

end
