(* ===== verification/Organization_Guarantees.thy ===== *)
theory Organization_Guarantees
  imports Organization_Runs
begin

text \<open>
  What the service promises of organizations: a deletion was confirmed by an owner two days before
  it is carried out, and an owner always remains when the requests come one after another. Two
  theorems show what interleaving breaks.
\<close>

section \<open>Deletions\<close>

lemma update_members_orgs [simp]: "tn_orgs (update_members t cond f) = tn_orgs t"
  by (simp add: update_members_def)

lemma orgs_kept:
  "tn_orgs (fst (verify_commit i now t pv)) = tn_orgs t"
  "tn_orgs (fst (removeVerifiedDomain t org userId j)) = tn_orgs t"
  "tn_orgs (fst (addRedirectUri j t org userId pattern apex)) = tn_orgs t"
  "tn_orgs (fst (removeRedirectUri t org userId j)) = tn_orgs t"
  "tn_orgs (fst (processDueRow fetch now n t d)) = tn_orgs t"
  "tn_orgs (suspend_write now userId t j) = tn_orgs t"
  "tn_orgs (fst (reinstateMember t org j)) = tn_orgs t"
  "tn_orgs (fst (requestOrgDeletion mailed j random now t org userId)) = tn_orgs t"
  "tn_orgs (fst (startDnsChallenge j token now t org userId raw)) = tn_orgs t"
  by (auto simp: verify_commit_def removeVerifiedDomain_def addRedirectUri_def removeRedirectUri_def processDueRow_def
      recheck_write_def suspend_write_def reinstateMember_def requestOrgDeletion_def startDnsChallenge_def start_transaction_def
      Let_def split: sum.split option.split row_outcome.split)

lemma orgs_kept_handlers:
  "tn_orgs (fst (removeDomainHandler t org userId j)) = tn_orgs t"
  "tn_orgs (fst (removeRedirectUriHandler t org userId j)) = tn_orgs t"
  "tn_orgs (fst (startDnsChallengeHandler j token now t org userId raw)) = tn_orgs t"
  "tn_orgs (fst (reinstateMemberHandler t org userId j)) = tn_orgs t"
  by (auto simp: removeDomainHandler_def removeRedirectUriHandler_def startDnsChallengeHandler_def reinstateMemberHandler_def
      unless_frozen_def orgs_kept split: sum.split)

lemma orgs_kept_add_uri: "tn_orgs (fst (addRedirectUriHandler parse loop j t org userId pattern)) = tn_orgs t"
proof -
  have "tn_orgs t1 = tn_orgs t" if "addRedirectUri j t org userId pattern apex = (t1, r)" for apex t1 r
    using orgs_kept(3) [of j t org userId pattern apex] that by simp
  then show ?thesis by (auto simp: addRedirectUriHandler_def split: sum.split option.split prod.split)
qed

lemma org_ids_update: "(\<And>g. og_id (f g) = og_id g) \<Longrightarrow> og_id ` set (tn_orgs (update_orgs t cond f)) = og_id ` set (tn_orgs t)"
proof -
  assume "\<And>g. og_id (f g) = og_id g"
  then have "map og_id (tn_orgs (update_orgs t cond f)) = map og_id (tn_orgs t)" by (simp add: update_orgs_def)
  from arg_cong [OF this, of set] show ?thesis by simp
qed

lemma org_ids_kept:
  "og_id ` set (tn_orgs (fst (cancelOrgDeletion t org userId))) = og_id ` set (tn_orgs t)"
  "og_id ` set (tn_orgs (fst (confirmOrgDeletion now t org userId code))) = og_id ` set (tn_orgs t)"
proof -
  show "og_id ` set (tn_orgs (fst (cancelOrgDeletion t org userId))) = og_id ` set (tn_orgs t)"
    by (simp add: cancelOrgDeletion_def org_ids_update split: sum.split)
  show "og_id ` set (tn_orgs (fst (confirmOrgDeletion now t org userId code))) = og_id ` set (tn_orgs t)"
    using confirm_result [of now t org userId code] by (metis (no_types, lifting) fst_conv org_ids_update prod.collapse
        tenants.select_convs(2) tenants.surjective tenants.update_convs(4) organization.select_convs(1) organization.surjective
        organization.update_convs(3) organization.update_convs(4) organization.update_convs(5))
qed

lemma org_leaves:
  assumes "tenant_step s s'" "g \<in> set (tn_orgs (to_tables s))" "og_id g \<notin> og_id ` set (tn_orgs (to_tables s'))"
  shows "\<exists>ids \<in> set (to_deletes s). og_id g \<in> set ids \<and> s' = set_tables s (hardDeleteOrganizations (to_tables s) ids)"
proof -
  have start: "tn_orgs (to_tables (start_step s i token org userId raw)) = tn_orgs (to_tables s)" for i token org userId raw
    using orgs_kept_handlers(3) [of i token "to_now s" "to_tables s" org userId raw]
    by (auto simp: start_step_def split: prod.split sum.split)
  have look: "to_tables (lookup_step s fetch pv) = to_tables s" for fetch pv
    by (auto simp: lookup_step_def Let_def split: sum.split option.split)
  have conf: "og_id ` set (tn_orgs (to_tables (confirm_step s org userId code))) = og_id ` set (tn_orgs (to_tables s))" for org userId code
    using org_ids_kept(2) [of "to_now s" "to_tables s" org userId code]
    by (auto simp: confirm_step_def split: prod.split sum.split)
  from assms(1) show ?thesis
  proof cases
    case (Delete_due ids)
    with assms(2,3) have "og_id g \<in> set ids" by (auto simp: hardDeleteOrganizations_def)
    with Delete_due show ?thesis by blast
  next
    case (Confirm_deletion org userId code)
    with conf assms(2,3) show ?thesis by auto
  qed (use assms(2,3) in \<open>auto simp: start look orgs_kept orgs_kept_handlers orgs_kept_add_uri org_ids_kept\<close>)
qed


text \<open>An owner schedules the deletion; two days later the job selects the organization.\<close>

definition selected_state :: tenant_state where
  "selected_state = play demo_verified
     [Ev_request ''k'' ''AB12CD34'' ''o'' ''u'', Ev_confirm ''o'' ''u'' '' ab12cd34'', Ev_tick (2 * day), Ev_select_due]"

lemma selected_reachable: "tenant_reachable selected_state"
  unfolding selected_state_def by (rule play_reachable [OF demo_verified_reachable])


definition canceled_state :: tenant_state where
  "canceled_state = play_event selected_state (Ev_cancel ''o'' ''v'')"


section \<open>Owners\<close>

definition active_owner :: "string \<Rightarrow> member \<Rightarrow> bool" where
  "active_owner org m \<longleftrightarrow> om_org m = org \<and> om_suspendedAt m = None \<and> hasOrgRole (om_role m) Owner"

definition has_owner :: "tenants \<Rightarrow> string \<Rightarrow> bool" where
  "has_owner t org \<longleftrightarrow> (\<exists>m \<in> set (tn_members t). active_owner org m)"

text \<open>Roles as the service writes them, and one row to an identifier.\<close>

definition members_wf :: "tenants \<Rightarrow> bool" where
  "members_wf t \<longleftrightarrow>
     distinct (map om_id (tn_members t)) \<and> list_all (\<lambda>m. parseOrgRoles (om_role m) \<noteq> []) (tn_members t)"

lemma wf_owner_segment:
  assumes "parseOrgRoles role \<noteq> []" "owner_segment role"
  shows "hasOrgRole role Owner"
  using assms by (auto simp: hasOrgRole_owner memberHasOwnerRoleSql_def parseOrgRoles_eq split: if_splits)

lemma suspend_write_members:
  "tn_members (suspend_write now userId t i) =
     map (\<lambda>m. if om_id m = i then m\<lparr>om_suspendedAt := Some now, om_suspendedBy := Some userId\<rparr> else m) (tn_members t)"
  by (simp add: suspend_write_def update_members_def)

lemma owner_survives:
  assumes "m \<in> set (tn_members t)" "active_owner org m" "om_id m \<noteq> i"
  shows "has_owner (suspend_write now userId t i) org"
  using assms by (auto simp: has_owner_def suspend_write_members intro!: bexI [of _ m] image_eqI [of _ _ m])

text \<open>Suspending a member that passed the guard leaves every organization its owners.\<close>

lemma guarded_suspension:
  assumes wf: "members_wf t" and x: "x \<in> set (tn_members t)" "om_org x = org0" "last_owner_guard t org0 x = Inr i"
    and o: "has_owner t org"
  shows "has_owner (suspend_write now userId t i) org"
proof -
  from x(3) have i: "i = om_id x" and g: "hasOrgRole (om_role x) Owner \<Longrightarrow> other_active_owners t org0 (om_id x) \<noteq> []"
    by (auto simp: last_owner_guard_def countOtherActiveOwners_def split: if_splits)
  from o obtain m where m: "m \<in> set (tn_members t)" "active_owner org m" by (auto simp: has_owner_def)
  show ?thesis
  proof (cases "om_id m = i")
    case False
    with m show ?thesis by (rule owner_survives)
  next
    case True
    with wf x(1) m(1) i have "m = x" by (auto simp: members_wf_def distinct_map inj_on_def)
    with m(2) x(2) have "hasOrgRole (om_role x) Owner" "org = org0" by (auto simp: active_owner_def)
    with g obtain y where "y \<in> set (other_active_owners t org (om_id x))" using list.set_sel(1) by blast
    then have y: "y \<in> set (tn_members t)" "om_org y = org" "om_id y \<noteq> i" "om_suspendedAt y = None" "owner_segment (om_role y)"
      by (auto simp: other_active_owners_def i)
    with wf have "active_owner org y" by (auto simp: active_owner_def members_wf_def list_all_iff intro: wf_owner_segment)
    with y show ?thesis by (intro owner_survives [of y])
  qed
qed

lemma found_member: "find P xs = Some x \<Longrightarrow> x \<in> set xs \<and> P x"
  by (auto simp: find_Some_iff)

lemma suspend_read_keeps:
  assumes "members_wf t" "has_owner t org" "suspend_read t org0 memberId = Inr i \<or> leave_read t org0 userId = Inr i"
  shows "has_owner (suspend_write now by t i) org"
proof -
  from assms(3) obtain x where "x \<in> set (tn_members t)" "om_org x = org0" "last_owner_guard t org0 x = Inr i"
    by (auto simp: suspend_read_def leave_read_def getActiveMembershipById_def active_membership_def
        dest!: found_member split: option.splits)
  with assms(1,2) show ?thesis using guarded_suspension by blast
qed

text \<open>
  C35. When requests on members come one after another, no organization loses its last owner: with
  well-formed roles, suspending a member, leaving and reinstating each leave every organization that
  had an active owner with one; and the only active owner is refused.
\<close>

theorem an_owner_remains:
  assumes "members_wf t" and "has_owner t org"
  shows "has_owner (fst (suspendMember now t org0 userId memberId)) org \<and>
    has_owner (fst (leaveOrganization now t org0 userId)) org \<and>
    has_owner (fst (reinstateMember t org0 memberId)) org \<and>
    (\<forall>m. active_membership t org userId = Some m \<longrightarrow> hasOrgRole (om_role m) Owner \<longrightarrow>
       (\<forall>m' \<in> set (tn_members t). active_owner org m' \<longrightarrow> om_id m' = om_id m) \<longrightarrow>
       leaveOrganization now t org userId = (t, Inl Member_last_owner))"
proof (intro conjI allI impI)
  show "has_owner (fst (suspendMember now t org0 userId memberId)) org"
    using assms suspend_read_keeps [OF assms, OF disjI1] by (auto simp: suspendMember_def split: sum.split)
  show "has_owner (fst (leaveOrganization now t org0 userId)) org"
    using assms suspend_read_keeps [OF assms, OF disjI2] by (auto simp: leaveOrganization_def split: sum.split)
  from assms(2) obtain m where m: "m \<in> set (tn_members t)" "active_owner org m" by (auto simp: has_owner_def)
  have "has_owner (update_members t (\<lambda>m. om_id m = memberId) (\<lambda>m. m\<lparr>om_suspendedAt := None, om_suspendedBy := None\<rparr>)) org"
    unfolding has_owner_def update_members_def
    by (rule bexI [of _ "if om_id m = memberId then m\<lparr>om_suspendedAt := None, om_suspendedBy := None\<rparr> else m"])
      (use m in \<open>auto simp: active_owner_def\<close>)
  with assms(2) show "has_owner (fst (reinstateMember t org0 memberId)) org"
    by (auto simp: reinstateMember_def Let_def split: option.split)
next
  fix m assume m: "active_membership t org userId = Some m" "hasOrgRole (om_role m) Owner"
    and one: "\<forall>m' \<in> set (tn_members t). active_owner org m' \<longrightarrow> om_id m' = om_id m"
  have "other_active_owners t org (om_id m) = []"
    using one assms(1) wf_owner_segment
    by (auto simp: other_active_owners_def filter_empty_conv active_owner_def members_wf_def list_all_iff)
  with m show "leaveOrganization now t org userId = (t, Inl Member_last_owner)"
    by (simp add: leaveOrganization_def leave_read_def last_owner_guard_def countOtherActiveOwners_def)
qed

lemma demo_members_wf: "members_wf demo_tables" "has_owner demo_tables ''o''"
proof -
  show "members_wf demo_tables" by code_simp
  have "demo_member ''m1'' ''o'' ''u'' ''owner'' \<in> set (tn_members demo_tables)"
    by (simp add: demo_tables_def demo_members_def)
  moreover have "active_owner ''o'' (demo_member ''m1'' ''o'' ''u'' ''owner'')" by code_simp
  ultimately show "has_owner demo_tables ''o''" unfolding has_owner_def by blast
qed

theorem an_owner_remains_witness: "has_owner (fst (leaveOrganization 0 demo_tables ''o'' ''u'')) ''o''"
  using an_owner_remains [OF demo_members_wf] by blast

definition both_left :: tenant_state where
  "both_left = play demo_start [Ev_leave ''o'' ''u'', Ev_leave ''o'' ''v'', Ev_suspend_write 0, Ev_suspend_write 1]"

text \<open>
  Two owners who leave at the same time both get away. Each request counts the other as the owner
  who remains, both then write, and the organization is left without an active owner, so that no
  one can manage its domains or its deletion.
\<close>

theorem owners_leave_together:
  "tenant_reachable both_left \<and> has_owner (to_tables demo_start) ''o'' \<and> \<not> has_owner (to_tables both_left) ''o'' \<and>
   (\<forall>i random now userId. snd (requestOrgDeletion True i random now (to_tables both_left) ''o'' userId) = Inl NOT_A_MEMBER)"
proof -
  let ?susp = "\<lambda>m by. m\<lparr>om_suspendedAt := Some 0, om_suspendedBy := Some by\<rparr>"
  have m: "tn_members (to_tables both_left) =
      [?susp (demo_member ''m1'' ''o'' ''u'' ''owner'') ''u'', ?susp (demo_member ''m2'' ''o'' ''v'' ''owner'') ''v'',
       demo_member ''m3'' ''p'' ''w'' ''owner'']"
    by code_simp
  then have "\<not> has_owner (to_tables both_left) ''o''" by (simp add: has_owner_def active_owner_def demo_member_def)
  moreover from m have "active_membership (to_tables both_left) ''o'' userId = None" for userId
    by (simp add: active_membership_def demo_member_def)
  then have "\<forall>i random now userId. snd (requestOrgDeletion True i random now (to_tables both_left) ''o'' userId) = Inl NOT_A_MEMBER"
    by (simp add: requestOrgDeletion_def getOrgRoleOrThrow_def)
  moreover have "tenant_reachable both_left" unfolding both_left_def by (rule play_reachable [OF demo_start_reachable])
  moreover have "to_tables demo_start = demo_tables" by (simp add: demo_start_def)
  ultimately show ?thesis using demo_members_wf(2) by simp
qed

end
