(* ===== verification/Cbor.thy ===== *)
theory Cbor
  imports Js_Text Machines
begin

text \<open>
  The CBOR decoder of \<open>app-attest-cbor.ts\<close>, which reads the attestations and assertions of a
  device. The value, the items of an array and the pairs of a map are three mutually recursive
  functions; an item starts where the one before it ended, so the recursion is nested, and it ends
  because a decoded value is never empty. The limit of the engine's stack is left out: the code
  answers an overflow as it answers any other decoding error.
\<close>

section \<open>Values\<close>

datatype cbor =
  CNum int
| CText "nat list"
| CBytes bytes
| CArr "cbor list"
| CMap "(cbor \<times> cbor) list"

datatype cbor_error =
  Cbor_truncated | Cbor_truncated_arg | Cbor_unsupported_argument nat | Cbor_byte_string_truncated
| Cbor_text_string_truncated | Cbor_text_invalid | Cbor_unsupported_major nat

text \<open>
  Keys of a \<open>Map\<close>: numbers and texts are the same when they are equal, every array, map or byte
  string is an object of its own.
\<close>

fun same_key :: "cbor \<Rightarrow> cbor \<Rightarrow> bool" where
  "same_key (CNum a) (CNum b) \<longleftrightarrow> a = b"
| "same_key (CText a) (CText b) \<longleftrightarrow> a = b"
| "same_key _ _ \<longleftrightarrow> False"

fun map_set :: "cbor \<Rightarrow> cbor \<Rightarrow> (cbor \<times> cbor) list \<Rightarrow> (cbor \<times> cbor) list" where
  "map_set k v [] = [(k, v)]"
| "map_set k v ((k', v') # ps) = (if same_key k' k then (k', v) # ps else (k', v') # map_set k v ps)"

section \<open>The decoder\<close>

definition readArgument :: "bytes \<Rightarrow> nat \<Rightarrow> nat \<Rightarrow> cbor_error + nat \<times> nat" where
  "readArgument bs offset additional =
     (if additional < 24 then Inr (additional, offset)
      else if additional = 24 then
        (if length bs \<le> offset then Inl Cbor_truncated_arg else Inr (unat (bs ! offset), offset + 1))
      else if additional = 25 then
        (if length bs \<le> offset + 1 then Inl Cbor_truncated_arg
         else Inr (unat (bs ! offset) * 256 + unat (bs ! (offset + 1)), offset + 2))
      else if additional = 26 then
        (if length bs \<le> offset + 3 then Inl Cbor_truncated_arg
         else
           let high = unat (bs ! offset) * 256 + unat (bs ! (offset + 1));
               low = unat (bs ! (offset + 2)) * 256 + unat (bs ! (offset + 3))
           in Inr (high * 65536 + low, offset + 4))
      else Inl (Cbor_unsupported_argument additional))"

function (sequential) decodeCbor :: "bytes \<Rightarrow> nat \<Rightarrow> cbor_error + cbor \<times> nat" and
  decode_items :: "bytes \<Rightarrow> nat \<Rightarrow> nat \<Rightarrow> cbor_error + cbor list \<times> nat" and
  decode_pairs :: "bytes \<Rightarrow> nat \<Rightarrow> nat \<Rightarrow> (cbor \<times> cbor) list \<Rightarrow> cbor_error + (cbor \<times> cbor) list \<times> nat"
where
  "decodeCbor bs offset =
     (if length bs \<le> offset then Inl Cbor_truncated
      else
        let initial = unat (bs ! offset);
            major = initial div 32;
            additional = initial mod 32
        in rbind (readArgument bs (offset + 1) additional) (\<lambda>(len, lenNext).
             if major = 0 then Inr (CNum (int len), lenNext)
             else if major = 1 then Inr (CNum (- 1 - int len), lenNext)
             else if major = 2 then
               (if length bs < lenNext + len then Inl Cbor_byte_string_truncated
                else Inr (CBytes (js_slice bs lenNext (lenNext + len)), lenNext + len))
             else if major = 3 then
               (if length bs < lenNext + len then Inl Cbor_text_string_truncated
                else
                  case utf8_decode_fatal (js_slice bs lenNext (lenNext + len)) of
                    None \<Rightarrow> Inl Cbor_text_invalid
                  | Some t \<Rightarrow> Inr (CText t, lenNext + len))
             else if major = 4 then rbind (decode_items bs lenNext len) (\<lambda>(items, cursor). Inr (CArr items, cursor))
             else if major = 5 then rbind (decode_pairs bs lenNext len []) (\<lambda>(ps, cursor). Inr (CMap ps, cursor))
             else Inl (Cbor_unsupported_major major)))"
| "decode_items bs cursor 0 = Inr ([], cursor)"
| "decode_items bs cursor (Suc n) =
     rbind (decodeCbor bs cursor) (\<lambda>(v, next).
       rbind (decode_items bs next n) (\<lambda>(vs, c). Inr (v # vs, c)))"
| "decode_pairs bs cursor 0 ps = Inr (ps, cursor)"
| "decode_pairs bs cursor (Suc n) ps =
     rbind (decodeCbor bs cursor) (\<lambda>(k, keyNext).
       rbind (decodeCbor bs keyNext) (\<lambda>(v, valNext). decode_pairs bs valNext n (map_set k v ps)))"
  by pat_completeness auto

text \<open>A value takes at least one byte and ends inside the input: what the nested calls need.\<close>

lemma readArgument_progress:
  "readArgument bs off a = Inr (len, n) \<Longrightarrow> off \<le> n \<and> (off \<le> length bs \<longrightarrow> n \<le> length bs) \<and> len < 2 ^ 32"
proof -
  have b: "unat (bs ! i) \<le> 255" for i using unat_byte_lt [of "bs ! i"] by linarith
  assume "readArgument bs off a = Inr (len, n)"
  then show ?thesis
    using b [of off] b [of "off + 1"] b [of "off + 2"] b [of "off + 3"]
    by (auto simp: readArgument_def Let_def split: if_splits)
qed

lemma decode_progress_dom:
  "decodeCbor_decode_items_decode_pairs_dom (Inl (bs, off)) \<Longrightarrow>
     decodeCbor bs off = Inr (v, n) \<Longrightarrow> off < n \<and> n \<le> length bs"
  "decodeCbor_decode_items_decode_pairs_dom (Inr (Inl (bs, c, k))) \<Longrightarrow>
     decode_items bs c k = Inr (vs, m) \<Longrightarrow> c \<le> length bs \<Longrightarrow> c \<le> m \<and> m \<le> length bs"
  "decodeCbor_decode_items_decode_pairs_dom (Inr (Inr (bs, c, k, ps))) \<Longrightarrow>
     decode_pairs bs c k ps = Inr (qs, m) \<Longrightarrow> c \<le> length bs \<Longrightarrow> c \<le> m \<and> m \<le> length bs"
proof (induction bs off and bs c k and bs c k ps arbitrary: v n and vs m and qs m
    rule: decodeCbor_decode_items_decode_pairs.pinduct)
  case (1 bs offset)
  from "1.prems" have l: "offset < length bs" and len: "\<not> length bs \<le> offset"
    by (auto simp: decodeCbor.psimps [OF "1.hyps"] split: if_splits)
  from "1.prems" l obtain len n1 where a: "readArgument bs (offset + 1) (unat (bs ! offset) mod 32) = Inr (len, n1)"
    by (auto simp: decodeCbor.psimps [OF "1.hyps"] Let_def result_simps split: if_splits)
  from readArgument_progress [OF a] l have n1: "offset < n1" "n1 \<le> length bs" by auto
  note ih = "1.IH"(1) [OF len refl refl refl a, simplified] "1.IH"(2) [OF len refl refl refl a, simplified]
  show ?case
    using "1.prems" l n1 a ih
    by (fastforce simp: decodeCbor.psimps [OF "1.hyps"] Let_def result_simps split: if_splits option.splits)
next
  case (3 bs cursor n)
  then show ?case by (fastforce simp: decode_items.psimps result_simps)
next
  case (5 bs cursor n ps)
  then show ?case by (fastforce simp: decode_pairs.psimps result_simps)
qed (auto simp: decode_items.psimps decode_pairs.psimps)

lemma decode_dom: "All decodeCbor_decode_items_decode_pairs_dom"
proof (relation "measures
    [\<lambda>x. case x of Inl (bs, off) \<Rightarrow> length bs - off | Inr (Inl (bs, c, k)) \<Rightarrow> length bs - c
         | Inr (Inr (bs, c, k, ps)) \<Rightarrow> length bs - c,
     \<lambda>x. case x of Inl _ \<Rightarrow> 0 | Inr (Inl (bs, c, k)) \<Rightarrow> k | Inr (Inr (bs, c, k, ps)) \<Rightarrow> k]", goal_cases)
  case 1
  then show ?case by simp
next
  case (2 bs offset initial major additional x len lenNext)
  then show ?case by (auto dest!: readArgument_progress)
next
  case (3 bs offset initial major additional x len lenNext)
  then show ?case by (auto dest!: readArgument_progress)
qed (auto dest!: decode_progress_dom(1))

termination decodeCbor
  by (rule decode_dom)

declare decodeCbor.simps [simp del]

lemma decode_progress:
  assumes "decodeCbor bs off = Inr r"
  shows "off < snd r" and "snd r \<le> length bs"
proof -
  obtain v n where "r = (v, n)" by (cases r)
  moreover have "decodeCbor_decode_items_decode_pairs_dom (Inl (bs, off))"
    using decode_dom by blast
  ultimately show "off < snd r" "snd r \<le> length bs" using assms decode_progress_dom(1) by auto
qed

interpretation cborr: forward_reader decodeCbor snd
  by unfold_locales (rule decode_progress; assumption)+

section \<open>Encoded values read back\<close>

text \<open>The shortest head of a major type with its argument, as the platform writes it.\<close>

definition cbor_head :: "nat \<Rightarrow> nat \<Rightarrow> bytes" where
  "cbor_head major n =
     (if n < 24 then [of_nat (major * 32 + n)]
      else if n < 256 then [of_nat (major * 32 + 24), of_nat n]
      else if n < 65536 then [of_nat (major * 32 + 25), of_nat (n div 256), of_nat (n mod 256)]
      else [of_nat (major * 32 + 26), of_nat (n div 16777216), of_nat (n div 65536 mod 256), of_nat (n div 256 mod 256),
            of_nat (n mod 256)])"

fun encodeCbor :: "cbor \<Rightarrow> bytes" where
  "encodeCbor (CNum i) = (if 0 \<le> i then cbor_head 0 (nat i) else cbor_head 1 (nat (- 1 - i)))"
| "encodeCbor (CBytes bs) = cbor_head 2 (length bs) @ bs"
| "encodeCbor (CText t) = cbor_head 3 (length t) @ map of_nat t"
| "encodeCbor (CArr vs) = cbor_head 4 (length vs) @ concat (map encodeCbor vs)"
| "encodeCbor (CMap ps) = cbor_head 5 (length ps) @ concat (map (\<lambda>(k, v). encodeCbor k @ encodeCbor v) ps)"

text \<open>Values the format of the attestation uses: 32-bit arguments, ASCII text, keys that differ.\<close>

definition distinct_keys :: "(cbor \<times> cbor) list \<Rightarrow> bool" where
  "distinct_keys ps \<longleftrightarrow> sorted_wrt (\<lambda>p q. \<not> same_key (fst p) (fst q)) ps"

fun cbor_ok :: "cbor \<Rightarrow> bool" where
  "cbor_ok (CNum i) \<longleftrightarrow> - (2 ^ 32) \<le> i \<and> i < 2 ^ 32"
| "cbor_ok (CBytes bs) \<longleftrightarrow> length bs < 2 ^ 32"
| "cbor_ok (CText t) \<longleftrightarrow> length t < 2 ^ 32 \<and> list_all (\<lambda>c. c < 128) t"
| "cbor_ok (CArr vs) \<longleftrightarrow> length vs < 2 ^ 32 \<and> (\<forall>v \<in> set vs. cbor_ok v)"
| "cbor_ok (CMap ps) \<longleftrightarrow>
     length ps < 2 ^ 32 \<and> distinct_keys ps \<and> (\<forall>(k, v) \<in> set ps. cbor_ok k \<and> cbor_ok v)"

lemma unat_small [simp]: "n < 256 \<Longrightarrow> unat (of_nat n :: byte) = n"
  by (simp add: unat_of_nat)

lemma head_byte [simp]:
  "major < 8 \<Longrightarrow> a < 32 \<Longrightarrow> unat (word_of_nat major * 32 + word_of_nat a :: byte) = major * 32 + a"
  "major < 8 \<Longrightarrow> unat (word_of_nat major * 32 + 24 :: byte) = major * 32 + 24"
  "major < 8 \<Longrightarrow> unat (word_of_nat major * 32 + 25 :: byte) = major * 32 + 25"
  "major < 8 \<Longrightarrow> unat (word_of_nat major * 32 + 26 :: byte) = major * 32 + 26"
  using unat_small [of "major * 32 + a"] unat_small [of "major * 32 + 24"] unat_small [of "major * 32 + 25"]
    unat_small [of "major * 32 + 26"]
  by simp_all

lemma length_cbor_head: "0 < length (cbor_head major n)"
  by (simp add: cbor_head_def)

text \<open>The head reads back: its first byte names the major type, the rest is the argument.\<close>

lemma head_reads_back:
  assumes "n < 2 ^ 32" and "major < 8"
  shows "unat ((pre @ cbor_head major n @ post) ! length pre) div 32 = major"
    and "readArgument (pre @ cbor_head major n @ post) (length pre + 1)
      (unat ((pre @ cbor_head major n @ post) ! length pre) mod 32) = Inr (n, length pre + length (cbor_head major n))"
proof -
  have d: "n div 16777216 < 256" using assms(1) by auto
  have low: "n div 16777216 * 256 + n div 65536 mod 256 = n div 65536"
    "n div 256 mod 256 * 256 + n mod 256 = n mod 65536"
  proof -
    have "n div 65536 div 256 = n div 16777216" by (simp add: div_mult2_eq [symmetric])
    then show "n div 16777216 * 256 + n div 65536 mod 256 = n div 65536" by (metis div_mult_mod_eq)
    have "n mod (256 * 256) = 256 * (n div 256 mod 256) + n mod 256" by (rule mod_mult2_eq)
    then show "n div 256 mod 256 * 256 + n mod 256 = n mod 65536" by simp
  qed
  have whole: "n div 65536 * 65536 + n mod 65536 = n" by simp
  consider "n < 24" | "24 \<le> n" "n < 256" | "256 \<le> n" "n < 65536" | "65536 \<le> n" by linarith
  note cs = this
  from cs assms(2) show "unat ((pre @ cbor_head major n @ post) ! length pre) div 32 = major"
    by cases (simp_all add: cbor_head_def nth_append)
  from cs assms(2) show "readArgument (pre @ cbor_head major n @ post) (length pre + 1)
      (unat ((pre @ cbor_head major n @ post) ! length pre) mod 32) = Inr (n, length pre + length (cbor_head major n))"
  proof cases
    case 4
    with assms(2) d low whole show ?thesis by (simp add: cbor_head_def nth_append readArgument_def Let_def)
  qed (simp_all add: cbor_head_def nth_append readArgument_def)
qed

text \<open>A decoding that starts at a head goes on after it.\<close>

lemma decode_head:
  fixes pre post :: bytes
  assumes "n < 2 ^ 32" and "major < 8"
  defines "bs \<equiv> pre @ cbor_head major n @ post"
    and "next0 \<equiv> length pre + length (cbor_head major n)"
  shows "decodeCbor bs (length pre) =
    (if major = 0 then Inr (CNum (int n), next0)
     else if major = 1 then Inr (CNum (- 1 - int n), next0)
     else if major = 2 then
       (if length bs < next0 + n then Inl Cbor_byte_string_truncated
        else Inr (CBytes (js_slice bs next0 (next0 + n)), next0 + n))
     else if major = 3 then
       (if length bs < next0 + n then Inl Cbor_text_string_truncated
        else
          case utf8_decode_fatal (js_slice bs next0 (next0 + n)) of
            None \<Rightarrow> Inl Cbor_text_invalid
          | Some t \<Rightarrow> Inr (CText t, next0 + n))
     else if major = 4 then rbind (decode_items bs next0 n) (\<lambda>(items, cursor). Inr (CArr items, cursor))
     else if major = 5 then rbind (decode_pairs bs next0 n []) (\<lambda>(ps, cursor). Inr (CMap ps, cursor))
     else Inl (Cbor_unsupported_major major))"
  using head_reads_back [OF assms(1,2), of pre post] length_cbor_head [of major n]
  by (simp add: decodeCbor.simps Let_def bs_def next0_def split: option.split)

definition reads_back :: "cbor \<Rightarrow> bool" where
  "reads_back v \<longleftrightarrow>
     (\<forall>pre post. decodeCbor (pre @ encodeCbor v @ post) (length pre) = Inr (v, length pre + length (encodeCbor v)))"

lemma reads_back_app:
  "reads_back v \<Longrightarrow> bs = pre @ encodeCbor v @ post \<Longrightarrow> decodeCbor bs (length pre) = Inr (v, length pre + length (encodeCbor v))"
  by (simp add: reads_back_def)

lemma items_read_back:
  assumes "\<forall>v \<in> set vs. reads_back v"
  shows "decode_items (pre @ concat (map encodeCbor vs) @ post) (length pre) (length vs) =
    Inr (vs, length pre + length (concat (map encodeCbor vs)))"
  using assms
proof (induction vs arbitrary: pre)
  case (Cons v vs)
  let ?bs = "pre @ concat (map encodeCbor (v # vs)) @ post"
  have "decodeCbor ?bs (length pre) = Inr (v, length pre + length (encodeCbor v))"
    using Cons.prems by (intro reads_back_app [where post = "concat (map encodeCbor vs) @ post"]) simp_all
  moreover have "decode_items ?bs (length (pre @ encodeCbor v)) (length vs) =
      Inr (vs, length (pre @ encodeCbor v) + length (concat (map encodeCbor vs)))"
    using Cons.IH [of "pre @ encodeCbor v"] Cons.prems by simp
  ultimately show ?case by simp
qed simp

lemma map_set_fresh: "\<forall>p \<in> set ps. \<not> same_key (fst p) k \<Longrightarrow> map_set k v ps = ps @ [(k, v)]"
  by (induction ps) auto

lemma pairs_read_back:
  assumes "\<forall>(k, v) \<in> set ps. reads_back k \<and> reads_back v" and "distinct_keys (qs @ ps)"
  shows "decode_pairs (pre @ concat (map (\<lambda>(k, v). encodeCbor k @ encodeCbor v) ps) @ post) (length pre) (length ps) qs =
    Inr (qs @ ps, length pre + length (concat (map (\<lambda>(k, v). encodeCbor k @ encodeCbor v) ps)))"
  using assms
proof (induction ps arbitrary: pre qs)
  case (Cons p ps)
  obtain k v where p: "p = (k, v)" by (cases p)
  let ?rest = "concat (map (\<lambda>(k, v). encodeCbor k @ encodeCbor v) ps)"
  let ?bs = "pre @ concat (map (\<lambda>(k, v). encodeCbor k @ encodeCbor v) (p # ps)) @ post"
  have bs: "?bs = pre @ encodeCbor k @ encodeCbor v @ ?rest @ post" by (simp add: p)
  have k: "decodeCbor ?bs (length pre) = Inr (k, length pre + length (encodeCbor k))"
    using Cons.prems(1) p by (intro reads_back_app [where post = "encodeCbor v @ ?rest @ post"]) simp_all
  have v: "decodeCbor ?bs (length (pre @ encodeCbor k)) = Inr (v, length (pre @ encodeCbor k) + length (encodeCbor v))"
    using Cons.prems(1) p by (intro reads_back_app [where post = "?rest @ post"]) simp_all
  have fresh: "map_set k v qs = qs @ [p]"
    using Cons.prems(2) p by (intro map_set_fresh [of qs k v, folded p]) (auto simp: distinct_keys_def sorted_wrt_append)
  have "decode_pairs ?bs (length (pre @ encodeCbor k @ encodeCbor v)) (length ps) (qs @ [p]) =
      Inr ((qs @ [p]) @ ps, length (pre @ encodeCbor k @ encodeCbor v) + length ?rest)"
    using Cons.IH [of "qs @ [p]" "pre @ encodeCbor k @ encodeCbor v"] Cons.prems by (simp add: p)
  with k v fresh show ?case by (simp add: p add.assoc)
qed simp

lemma slice_after: "js_slice (pre @ head @ xs @ post) (length pre + length head) (length pre + length head + length xs) = xs"
  by (simp add: js_slice_def)

lemma ascii_reads_back:
  "list_all (\<lambda>c. c < 128) t \<Longrightarrow> utf8_decode_fatal (map of_nat t) = Some t"
proof -
  assume a: "list_all (\<lambda>c. c < 128) t"
  then have "\<forall>b \<in> set (map of_nat t :: bytes). unat b < 128" by (auto simp: list_all_iff)
  moreover from a have "map unat (map of_nat t :: bytes) = t"
    by (intro nth_equalityI) (auto simp: list_all_length intro!: unat_small)
  ultimately show ?thesis by (simp only: utf8_decode_fatal_ascii)
qed

text \<open>Every value of the format reads back, wherever it stands in the input, and nothing after it is touched.\<close>

lemma encoded_reads_back: "cbor_ok v \<Longrightarrow> reads_back v"
proof (induction v rule: encodeCbor.induct)
  case (1 i)
  show ?case
  proof (cases "0 \<le> i")
    case True
    with 1 have "nat i < 2 ^ 32" by simp
    from decode_head [OF this, of 0] True show ?thesis by (simp add: reads_back_def)
  next
    case False
    with 1 have "nat (- 1 - i) < 2 ^ 32" by simp
    from decode_head [OF this, of 1] False show ?thesis by (simp add: reads_back_def)
  qed
next
  case (2 bs)
  then have "length bs < 2 ^ 32" by simp
  from decode_head [OF this, of 2] show ?case by (simp add: reads_back_def slice_after)
next
  case (3 t)
  then have n: "length t < 2 ^ 32" and t: "list_all (\<lambda>c. c < 128) t" by simp_all
  show ?case unfolding reads_back_def
  proof (intro allI)
    fix pre post
    have "js_slice (pre @ cbor_head 3 (length t) @ map of_nat t @ post) (length pre + length (cbor_head 3 (length t)))
        (length pre + length (cbor_head 3 (length t)) + length t) = map of_nat t"
      using slice_after [of pre "cbor_head 3 (length t)" "map of_nat t"] by simp
    with decode_head [OF n, of 3 pre "map of_nat t @ post"] ascii_reads_back [OF t]
    show "decodeCbor (pre @ encodeCbor (CText t) @ post) (length pre) = Inr (CText t, length pre + length (encodeCbor (CText t)))"
      by simp
  qed
next
  case (4 vs)
  then have n: "length vs < 2 ^ 32" and r: "\<forall>v \<in> set vs. reads_back v" by simp_all
  show ?case unfolding reads_back_def
  proof (intro allI)
    fix pre post
    have "decode_items (pre @ cbor_head 4 (length vs) @ concat (map encodeCbor vs) @ post)
        (length pre + length (cbor_head 4 (length vs))) (length vs) =
        Inr (vs, length pre + length (cbor_head 4 (length vs)) + length (concat (map encodeCbor vs)))"
      using items_read_back [OF r, of "pre @ cbor_head 4 (length vs)" post] by simp
    with decode_head [OF n, of 4 pre "concat (map encodeCbor vs) @ post"]
    show "decodeCbor (pre @ encodeCbor (CArr vs) @ post) (length pre) = Inr (CArr vs, length pre + length (encodeCbor (CArr vs)))"
      by simp
  qed
next
  case (5 ps)
  then have n: "length ps < 2 ^ 32" and d: "distinct_keys ([] @ ps)" and r: "\<forall>(k, v) \<in> set ps. reads_back k \<and> reads_back v"
    by fastforce+
  show ?case unfolding reads_back_def
  proof (intro allI)
    fix pre post
    let ?enc = "\<lambda>(k, v). encodeCbor k @ encodeCbor v"
    have "decode_pairs (pre @ cbor_head 5 (length ps) @ concat (map ?enc ps) @ post)
        (length pre + length (cbor_head 5 (length ps))) (length ps) [] =
        Inr (ps, length pre + length (cbor_head 5 (length ps)) + length (concat (map ?enc ps)))"
      using pairs_read_back [OF r d, of "pre @ cbor_head 5 (length ps)" post] by simp
    with decode_head [OF n, of 5 pre "concat (map ?enc ps) @ post"]
    show "decodeCbor (pre @ encodeCbor (CMap ps) @ post) (length pre) = Inr (CMap ps, length pre + length (encodeCbor (CMap ps)))"
      by simp
  qed
qed

end
