(* ===== verification/App_Attest.thy ===== *)
theory App_Attest
  imports Cbor Crypto_Bytes Signing_Secret
begin

text \<open>
  The formats of Apple's App Attest (\<open>app-attest-*.ts\<close>): attestations of a key, which carry a chain
  of certificates and authenticator data, and assertions, which are signed with the key. The hash,
  the reader of certificates, the check of the chain and the verification of a signature are
  functions of the platform.
\<close>

section \<open>Shapes\<close>

record attestation_cbor =
  ac_fmt :: "nat list"
  ac_x5c :: "bytes list"
  ac_receipt :: bytes
  ac_authData :: bytes

record assertion_cbor =
  as_signature :: bytes
  as_authenticatorData :: bytes

datatype shape_error =
  Cbor_failed cbor_error
| Attestation_root_not_map | Assertion_root_not_map | Cbor_map_missing_key string | Fmt_not_text | AttStmt_not_map
| AuthData_not_bytes | X5c_not_array | X5c_entry_not_bytes | Receipt_not_bytes | Signature_not_bytes
| AuthenticatorData_not_bytes

definition text_of :: "string \<Rightarrow> nat list" where
  "text_of s = map of_char s"

definition mapGet :: "(cbor \<times> cbor) list \<Rightarrow> string \<Rightarrow> shape_error + cbor" where
  "mapGet m key =
     (case find (\<lambda>p. fst p = CText (text_of key)) m of
        None \<Rightarrow> Inl (Cbor_map_missing_key key)
      | Some p \<Rightarrow> Inr (snd p))"

definition decode_root :: "shape_error \<Rightarrow> bytes \<Rightarrow> shape_error + (cbor \<times> cbor) list" where
  "decode_root e bs =
     (case decodeCbor bs 0 of
        Inl c \<Rightarrow> Inl (Cbor_failed c)
      | Inr (CMap m, _) \<Rightarrow> Inr m
      | Inr _ \<Rightarrow> Inl e)"

fun as_bytes :: "shape_error \<Rightarrow> cbor \<Rightarrow> shape_error + bytes" where
  "as_bytes e (CBytes bs) = Inr bs"
| "as_bytes e _ = Inl e"

fun as_text :: "shape_error \<Rightarrow> cbor \<Rightarrow> shape_error + nat list" where
  "as_text e (CText t) = Inr t"
| "as_text e _ = Inl e"

fun as_map :: "shape_error \<Rightarrow> cbor \<Rightarrow> shape_error + (cbor \<times> cbor) list" where
  "as_map e (CMap m) = Inr m"
| "as_map e _ = Inl e"

fun as_array :: "shape_error \<Rightarrow> cbor \<Rightarrow> shape_error + cbor list" where
  "as_array e (CArr vs) = Inr vs"
| "as_array e _ = Inl e"

fun x5c_loop :: "cbor list \<Rightarrow> shape_error + bytes list" where
  "x5c_loop [] = Inr []"
| "x5c_loop (item # items) =
     rbind (as_bytes X5c_entry_not_bytes item) (\<lambda>b. rbind (x5c_loop items) (\<lambda>bs. Inr (b # bs)))"

definition decodeAttestationCbor :: "bytes \<Rightarrow> shape_error + attestation_cbor" where
  "decodeAttestationCbor bs =
     rbind (decode_root Attestation_root_not_map bs) (\<lambda>value.
     rbind (mapGet value ''fmt'') (\<lambda>fmt_value.
     rbind (mapGet value ''attStmt'') (\<lambda>attStmtRaw.
     rbind (mapGet value ''authData'') (\<lambda>authData_value.
     rbind (as_text Fmt_not_text fmt_value) (\<lambda>fmt.
     rbind (as_map AttStmt_not_map attStmtRaw) (\<lambda>attStmt.
     rbind (as_bytes AuthData_not_bytes authData_value) (\<lambda>authData.
     rbind (mapGet attStmt ''x5c'') (\<lambda>x5c_value.
     rbind (mapGet attStmt ''receipt'') (\<lambda>receipt_value.
     rbind (as_array X5c_not_array x5c_value) (\<lambda>x5c.
     rbind (x5c_loop x5c) (\<lambda>x5cBytes.
     rbind (as_bytes Receipt_not_bytes receipt_value) (\<lambda>receipt.
       Inr \<lparr>ac_fmt = fmt, ac_x5c = x5cBytes, ac_receipt = receipt, ac_authData = authData\<rparr>))))))))))))"

definition decodeAssertionCbor :: "bytes \<Rightarrow> shape_error + assertion_cbor" where
  "decodeAssertionCbor bs =
     rbind (decode_root Assertion_root_not_map bs) (\<lambda>value.
     rbind (mapGet value ''signature'') (\<lambda>signature_value.
     rbind (mapGet value ''authenticatorData'') (\<lambda>data_value.
     rbind (as_bytes Signature_not_bytes signature_value) (\<lambda>signature.
     rbind (as_bytes AuthenticatorData_not_bytes data_value) (\<lambda>authenticatorData.
       Inr \<lparr>as_signature = signature, as_authenticatorData = authenticatorData\<rparr>)))))"

section \<open>Bytes\<close>

definition utf8FixedLength :: "string \<Rightarrow> nat \<Rightarrow> bytes" where
  "utf8FixedLength s n = (let encoded = take n (ascii_bytes s) in encoded @ replicate (n - length encoded) 0)"

definition readUint32BE :: "bytes \<Rightarrow> nat \<Rightarrow> nat" where
  "readUint32BE bs offset =
     unat (bs ! offset) * 16777216 +
     (unat (bs ! (offset + 1)) * 65536 + unat (bs ! (offset + 2)) * 256 + unat (bs ! (offset + 3)))"

definition bytesToBase64 :: "bytes \<Rightarrow> string" where
  "bytesToBase64 bs = btoa bs"

definition attest_bytesToBase64Url :: "bytes \<Rightarrow> string" where
  "attest_bytesToBase64Url bs = strip_equals (replace_char CHR ''/'' ''_'' (replace_char CHR ''+'' ''-'' (bytesToBase64 bs)))"

definition base64ToBytes :: "string \<Rightarrow> bytes option" where
  "base64ToBytes input = atob input"

definition base64UrlToBytes :: "string \<Rightarrow> bytes option" where
  "base64UrlToBytes input =
     (let padded = replace_char CHR ''_'' ''/'' (replace_char CHR ''-'' ''+'' input);
          padLength = (4 - length padded mod 4) mod 4
      in base64ToBytes (padded @ replicate padLength CHR ''=''))"

lemma url_bytes_read_back: "base64UrlToBytes (attest_bytesToBase64Url bs) = Some bs"
  using decode_encodeBase64Url [of bs]
  by (simp add: base64UrlToBytes_def attest_bytesToBase64Url_def base64ToBytes_def bytesToBase64_def decodeBase64Url_def
      encodeBase64Url_def)

section \<open>Authenticator data\<close>

datatype app_attest_environment = Env_production | Env_development

definition APP_ATTEST_FMT :: string where "APP_ATTEST_FMT = ''apple-appattest''"
definition APP_ATTEST_RP_ID :: string where "APP_ATTEST_RP_ID = ''K667TL7H29.kayle.id''"
definition AAGUID_PRODUCTION :: bytes where "AAGUID_PRODUCTION = utf8FixedLength ''appattest'' 16"
definition AAGUID_DEVELOPMENT :: bytes where "AAGUID_DEVELOPMENT = utf8FixedLength ''appattestdevelop'' 16"
definition AUTH_DATA_RP_ID_HASH_OFFSET :: nat where "AUTH_DATA_RP_ID_HASH_OFFSET = 0"
definition AUTH_DATA_FLAGS_OFFSET :: nat where "AUTH_DATA_FLAGS_OFFSET = 32"
definition AUTH_DATA_COUNTER_OFFSET :: nat where "AUTH_DATA_COUNTER_OFFSET = 33"
definition AUTH_DATA_AAGUID_OFFSET :: nat where "AUTH_DATA_AAGUID_OFFSET = 37"
definition AUTH_DATA_CRED_ID_LEN_OFFSET :: nat where "AUTH_DATA_CRED_ID_LEN_OFFSET = 53"
definition AUTH_DATA_CRED_ID_OFFSET :: nat where "AUTH_DATA_CRED_ID_OFFSET = 55"

definition expectedAaguidForEnvironment :: "app_attest_environment \<Rightarrow> bytes" where
  "expectedAaguidForEnvironment environment =
     (if environment = Env_production then AAGUID_PRODUCTION else AAGUID_DEVELOPMENT)"

definition readAuthDataCounter :: "bytes \<Rightarrow> nat" where
  "readAuthDataCounter authData = readUint32BE authData AUTH_DATA_COUNTER_OFFSET"

text \<open>The identifier of the credential and the offset after it.\<close>

definition readAuthDataCredentialId :: "bytes \<Rightarrow> (bytes \<times> nat) option" where
  "readAuthDataCredentialId authData =
     (let byte = (\<lambda>i. case at_opt authData i of None \<Rightarrow> 0 | Some b \<Rightarrow> unat b);
          credIdLen = byte AUTH_DATA_CRED_ID_LEN_OFFSET * 256 + byte (AUTH_DATA_CRED_ID_LEN_OFFSET + 1);
          endOffset = AUTH_DATA_CRED_ID_OFFSET + credIdLen
      in if length authData < endOffset then None
         else Some (js_slice authData AUTH_DATA_CRED_ID_OFFSET endOffset, endOffset))"

section \<open>Keys and signatures\<close>

datatype cose_error =
  Cose_cbor cbor_error | Cose_key_not_map | Cose_key_missing int | Cose_kty_not_ec2 | Cose_alg_not_es256
| Cose_crv_not_p256 | Cose_x_invalid | Cose_y_invalid

definition COSE_EC2_KTY :: int where "COSE_EC2_KTY = 2"
definition COSE_ALG_ES256 :: int where "COSE_ALG_ES256 = - 7"
definition COSE_CRV_P256 :: int where "COSE_CRV_P256 = 1"

definition coseGet :: "(cbor \<times> cbor) list \<Rightarrow> int \<Rightarrow> cose_error + cbor" where
  "coseGet m key =
     (case find (\<lambda>p. fst p = CNum key) m of None \<Rightarrow> Inl (Cose_key_missing key) | Some p \<Rightarrow> Inr (snd p))"

fun coordinate :: "cose_error \<Rightarrow> cbor \<Rightarrow> cose_error + bytes" where
  "coordinate e (CBytes bs) = (if length bs \<noteq> 32 then Inl e else Inr bs)"
| "coordinate e _ = Inl e"

definition cose_root :: "bytes \<Rightarrow> cose_error + (cbor \<times> cbor) list" where
  "cose_root bs =
     (case decodeCbor bs 0 of
        Inl c \<Rightarrow> Inl (Cose_cbor c)
      | Inr (CMap m, _) \<Rightarrow> Inr m
      | Inr _ \<Rightarrow> Inl Cose_key_not_map)"

definition parseCoseEc2Key :: "bytes \<Rightarrow> cose_error + bytes \<times> bytes" where
  "parseCoseEc2Key bs =
     rbind (cose_root bs) (\<lambda>value.
     rbind (coseGet value 1) (\<lambda>kty.
     rbind (coseGet value 3) (\<lambda>alg.
     rbind (coseGet value (- 1)) (\<lambda>crv.
     rbind (coseGet value (- 2)) (\<lambda>x_value.
     rbind (coseGet value (- 3)) (\<lambda>y_value.
     rbind (guard_err (kty = CNum COSE_EC2_KTY) Cose_kty_not_ec2) (\<lambda>_.
     rbind (guard_err (alg = CNum COSE_ALG_ES256) Cose_alg_not_es256) (\<lambda>_.
     rbind (guard_err (crv = CNum COSE_CRV_P256) Cose_crv_not_p256) (\<lambda>_.
     rbind (coordinate Cose_x_invalid x_value) (\<lambda>x.
     rbind (coordinate Cose_y_invalid y_value) (\<lambda>y. Inr (x, y))))))))))))"

datatype ecdsa_error =
  Ecdsa_der_not_sequence | Ecdsa_der_r_not_integer | Ecdsa_der_s_not_integer | Ecdsa_integer_too_long

definition leftPadOrTrim :: "bytes \<Rightarrow> nat \<Rightarrow> ecdsa_error + bytes" where
  "leftPadOrTrim bs targetLength =
     (if length bs = targetLength then Inr bs
      else if length bs = targetLength + 1 \<and> hd bs = 0 then Inr (tl bs)
      else if length bs < targetLength then Inr (replicate (targetLength - length bs) 0 @ bs)
      else Inl Ecdsa_integer_too_long)"

text \<open>
  A length byte past the end is \<open>undefined\<close>: for \<open>r\<close> every later offset is not a number and the
  next test fails, for \<open>s\<close> the slice is empty.
\<close>

definition derEcdsaToRaw :: "bytes \<Rightarrow> nat \<Rightarrow> ecdsa_error + bytes" where
  "derEcdsaToRaw der coordBytes =
     (if length der < 8 \<or> der ! 0 \<noteq> 0x30 then Inl Ecdsa_der_not_sequence
      else
        let offset = (if 128 \<le> unat (der ! 1) then 2 + unat (der ! 1) mod 128 else 2)
        in if at_opt der offset \<noteq> Some 2 then Inl Ecdsa_der_r_not_integer
           else
             case at_opt der (offset + 1) of
               None \<Rightarrow> Inl Ecdsa_der_s_not_integer
             | Some rLen \<Rightarrow>
                 let rStart = offset + 2;
                     r = js_slice der rStart (rStart + unat rLen);
                     sOffset = rStart + unat rLen
                 in if at_opt der sOffset \<noteq> Some 2 then Inl Ecdsa_der_s_not_integer
                    else
                      let sStart = sOffset + 2;
                          s = (case at_opt der (sOffset + 1) of
                                 None \<Rightarrow> []
                               | Some sLen \<Rightarrow> js_slice der sStart (sStart + unat sLen))
                      in rbind (leftPadOrTrim r coordBytes) (\<lambda>r'.
                         rbind (leftPadOrTrim s coordBytes) (\<lambda>s'. Inr (r' @ s'))))"

section \<open>Certificates\<close>

text \<open>What the code reads of a certificate: its extensions and the bits of its public key.\<close>

record x5c_certificate =
  xc_extensions :: "(string \<times> bytes) list"
  xc_subjectPublicKey :: bytes

text \<open>
  The platform: SHA-256, \<open>Certificate.fromBER\<close>, which may throw, the validation of a chain against
  trusted certificates, and ECDSA on P-256 with the coordinates of the key, which throws on a key
  that cannot be imported.
\<close>

record attest_platform =
  ap_sha256 :: "bytes \<Rightarrow> bytes"
  ap_certificate :: "bytes \<Rightarrow> x5c_certificate option"
  ap_chain_valid :: "x5c_certificate list \<Rightarrow> x5c_certificate list \<Rightarrow> bool"
  ap_p256_verify :: "string \<Rightarrow> string \<Rightarrow> bytes \<Rightarrow> bytes \<Rightarrow> bool option"

definition APPLE_NONCE_EXTENSION_OID :: string where
  "APPLE_NONCE_EXTENSION_OID = ''1.2.840.113635.100.8.2''"

fun findInnerOctetString :: "bytes \<Rightarrow> nat \<Rightarrow> bytes option" where
  "findInnerOctetString (a # b # bs) expectedLength =
     (if a = 4 \<and> unat b = expectedLength \<and> expectedLength \<le> length bs then Some (take expectedLength bs)
      else findInnerOctetString (b # bs) expectedLength)"
| "findInnerOctetString _ expectedLength = None"

definition extractAppleNonceExtension :: "x5c_certificate \<Rightarrow> bytes option" where
  "extractAppleNonceExtension cert =
     (case find (\<lambda>e. fst e = APPLE_NONCE_EXTENSION_OID) (xc_extensions cert) of
        None \<Rightarrow> None
      | Some e \<Rightarrow> findInnerOctetString (snd e) 32)"

definition exportSubjectPublicKey :: "x5c_certificate \<Rightarrow> bytes" where
  "exportSubjectPublicKey cert = xc_subjectPublicKey cert"

definition PEM_LINES :: "string list" where
  "PEM_LINES =
    [''-----BEGIN CERTIFICATE-----'',
     ''MIICITCCAaegAwIBAgIQC/O+DvHN0uD7jG5yH2IXmDAKBggqhkjOPQQDAzBSMSYw'',
     ''JAYDVQQDDB1BcHBsZSBBcHAgQXR0ZXN0YXRpb24gUm9vdCBDQTETMBEGA1UECgwK'',
     ''QXBwbGUgSW5jLjETMBEGA1UECAwKQ2FsaWZvcm5pYTAeFw0yMDAzMTgxODMyNTNa'',
     ''Fw00NTAzMTUwMDAwMDBaMFIxJjAkBgNVBAMMHUFwcGxlIEFwcCBBdHRlc3RhdGlv'',
     ''biBSb290IENBMRMwEQYDVQQKDApBcHBsZSBJbmMuMRMwEQYDVQQIDApDYWxpZm9y'',
     ''bmlhMHYwEAYHKoZIzj0CAQYFK4EEACIDYgAERTHhmLW07ATaFQIEVwTtT4dyctdh'',
     ''NbJhFs/Ii2FdCgAHGbpphY3+d8qjuDngIN3WVhQUBHAoMeQ/cLiP1sOUtgjqK9au'',
     ''Yen1mMEvRq9Sk3Jm5X8U62H+xTD3FE9TgS41o0IwQDAPBgNVHRMBAf8EBTADAQH/'',
     ''MB0GA1UdDgQWBBSskRBTM72+aEH/pwyp5frq5eWKoTAOBgNVHQ8BAf8EBAMCAQYw'',
     ''CgYIKoZIzj0EAwMDaAAwZQIwQgFGnByvsiVbpTKwSga0kP0e8EeDS4+sQmTvb7vn'',
     ''53O5+FRXgeLhpJ06ysC5PrOyAjEAp5U4xDgEgllF7En3VcE3iexZZtKeYnpqtijV'',
     ''oyFraWVIyd/dganmrduC1bmTBGwD'',
     ''-----END CERTIFICATE-----'']"

definition APPLE_APP_ATTEST_ROOT_CA_PEM :: string where
  "APPLE_APP_ATTEST_ROOT_CA_PEM = concat (map (\<lambda>l. l @ [CHR 0x0A]) PEM_LINES)"

text \<open>\<open>.replace(/needle/, "")\<close>: the first occurrence.\<close>

fun drop_first :: "string \<Rightarrow> string \<Rightarrow> string" where
  "drop_first needle [] = []"
| "drop_first needle (c # cs) =
     (if take (length needle) (c # cs) = needle then drop (length needle) (c # cs) else c # drop_first needle cs)"

definition parseRootCertFromPem :: "attest_platform \<Rightarrow> string \<Rightarrow> x5c_certificate option" where
  "parseRootCertFromPem ap pem =
     (let stripped = filter (\<lambda>c. \<not> is_js_space c)
            (drop_first ''-----END CERTIFICATE-----'' (drop_first ''-----BEGIN CERTIFICATE-----'' pem))
      in Option.bind (base64ToBytes stripped) (ap_certificate ap))"

section \<open>Attestations\<close>

datatype attestation_failure =
  Att_cbor_decode_failed shape_error | Att_fmt_unexpected | Att_x5c_missing | Att_receipt_missing | Att_cert_parse_failed
| Att_cert_chain_invalid | Att_auth_data_truncated | Att_rp_id_hash_mismatch | Att_counter_not_zero nat
| Att_aaguid_mismatch | Att_credential_id_mismatch | Att_key_id_mismatch | Att_nonce_extension_missing
| Att_nonce_mismatch | Att_cose_public_key_invalid cose_error

record attested =
  at_publicKeyCose :: bytes
  at_receipt :: bytes
  at_counter :: nat

datatype attestation_result = Attested attested | Not_attested attestation_failure | Attestation_throws

fun all_certificates :: "attest_platform \<Rightarrow> bytes list \<Rightarrow> x5c_certificate list option" where
  "all_certificates ap [] = Some []"
| "all_certificates ap (der # ders) =
     (case ap_certificate ap der of
        None \<Rightarrow> None
      | Some cert \<Rightarrow> map_option ((#) cert) (all_certificates ap ders))"

definition computeAppAttestRpIdHash :: "attest_platform \<Rightarrow> bytes" where
  "computeAppAttestRpIdHash ap = ap_sha256 ap (ascii_bytes APP_ATTEST_RP_ID)"

text \<open>The checks on the authenticator data of an attestation whose chain holds, from \<open>auth_data_truncated\<close> on.\<close>

definition verify_auth_data ::
  "attest_platform \<Rightarrow> app_attest_environment \<Rightarrow> bytes \<Rightarrow> bytes \<Rightarrow> x5c_certificate \<Rightarrow> attestation_cbor \<Rightarrow>
     attestation_failure + attested" where
  "verify_auth_data ap environment keyId clientDataHash credCert decoded =
     (let authData = ac_authData decoded
      in if length authData < AUTH_DATA_CRED_ID_OFFSET then Inl Att_auth_data_truncated
         else if \<not> bytesEqual (js_slice authData AUTH_DATA_RP_ID_HASH_OFFSET AUTH_DATA_FLAGS_OFFSET)
                   (computeAppAttestRpIdHash ap) then Inl Att_rp_id_hash_mismatch
         else if readAuthDataCounter authData \<noteq> 0 then Inl (Att_counter_not_zero (readAuthDataCounter authData))
         else if \<not> bytesEqual (js_slice authData AUTH_DATA_AAGUID_OFFSET AUTH_DATA_CRED_ID_LEN_OFFSET)
                   (expectedAaguidForEnvironment environment) then Inl Att_aaguid_mismatch
         else
           case readAuthDataCredentialId authData of
             None \<Rightarrow> Inl Att_auth_data_truncated
           | Some (credentialId, endOffset) \<Rightarrow>
               let credCertPubKeyHash = ap_sha256 ap (exportSubjectPublicKey credCert)
               in if \<not> bytesEqual credentialId credCertPubKeyHash then Inl Att_credential_id_mismatch
                  else if \<not> bytesEqual keyId credCertPubKeyHash then Inl Att_key_id_mismatch
                  else
                    let expectedNonce = ap_sha256 ap (authData @ clientDataHash)
                    in case extractAppleNonceExtension credCert of
                         None \<Rightarrow> Inl Att_nonce_extension_missing
                       | Some credCertNonce \<Rightarrow>
                           if \<not> bytesEqual credCertNonce expectedNonce then Inl Att_nonce_mismatch
                           else
                             let cosePublicKey = drop endOffset authData
                             in case parseCoseEc2Key cosePublicKey of
                                  Inl e \<Rightarrow> Inl (Att_cose_public_key_invalid e)
                                | Inr _ \<Rightarrow>
                                    Inr \<lparr>at_publicKeyCose = cosePublicKey, at_receipt = ac_receipt decoded,
                                         at_counter = readAuthDataCounter authData\<rparr>)"

definition verifyAttestation ::
  "attest_platform \<Rightarrow> app_attest_environment \<Rightarrow> bytes \<Rightarrow> bytes \<Rightarrow> bytes \<Rightarrow> attestation_result" where
  "verifyAttestation ap environment keyId attestationCbor clientDataHash =
     (case decodeAttestationCbor attestationCbor of
        Inl e \<Rightarrow> Not_attested (Att_cbor_decode_failed e)
      | Inr decoded \<Rightarrow>
          if ac_fmt decoded \<noteq> text_of APP_ATTEST_FMT then Not_attested Att_fmt_unexpected
          else if ac_x5c decoded = [] then Not_attested Att_x5c_missing
          else if ac_receipt decoded = [] then Not_attested Att_receipt_missing
          else
            case all_certificates ap (ac_x5c decoded) of
              None \<Rightarrow> Not_attested Att_cert_parse_failed
            | Some chain \<Rightarrow>
                (case parseRootCertFromPem ap APPLE_APP_ATTEST_ROOT_CA_PEM of
                   None \<Rightarrow> Attestation_throws
                 | Some rootCert \<Rightarrow>
                     if \<not> ap_chain_valid ap chain [rootCert] then Not_attested Att_cert_chain_invalid
                     else
                       case verify_auth_data ap environment keyId clientDataHash (hd chain) decoded of
                         Inl e \<Rightarrow> Not_attested e
                       | Inr a \<Rightarrow> Attested a))"

section \<open>Assertions\<close>

datatype assertion_failure =
  Ass_cbor_decode_failed shape_error | Ass_auth_data_truncated | Ass_rp_id_hash_mismatch | Ass_counter_regressed nat int
| Ass_public_key_invalid cose_error | Ass_signature_decode_failed ecdsa_error | Ass_signature_invalid

datatype assertion_result = Asserted nat | Not_asserted assertion_failure | Assertion_throws

definition verifyAssertion ::
  "attest_platform \<Rightarrow> bytes \<Rightarrow> bytes \<Rightarrow> bytes \<Rightarrow> bytes \<Rightarrow> int \<Rightarrow> assertion_result" where
  "verifyAssertion ap assertionCbor publicKeyCose clientDataHash expectedRpIdHash lastCounter =
     (case decodeAssertionCbor assertionCbor of
        Inl e \<Rightarrow> Not_asserted (Ass_cbor_decode_failed e)
      | Inr decoded \<Rightarrow>
          let authData = as_authenticatorData decoded
          in if length authData < AUTH_DATA_AAGUID_OFFSET then Not_asserted Ass_auth_data_truncated
             else if \<not> bytesEqual (js_slice authData AUTH_DATA_RP_ID_HASH_OFFSET AUTH_DATA_FLAGS_OFFSET) expectedRpIdHash
               then Not_asserted Ass_rp_id_hash_mismatch
             else
               let counter = readAuthDataCounter authData
               in if int counter \<le> lastCounter then Not_asserted (Ass_counter_regressed counter lastCounter)
                  else
                    case parseCoseEc2Key publicKeyCose of
                      Inl e \<Rightarrow> Not_asserted (Ass_public_key_invalid e)
                    | Inr (x, y) \<Rightarrow>
                        (case derEcdsaToRaw (as_signature decoded) 32 of
                           Inl e \<Rightarrow> Not_asserted (Ass_signature_decode_failed e)
                         | Inr signatureRaw \<Rightarrow>
                             let nonce = ap_sha256 ap (authData @ clientDataHash)
                             in case ap_p256_verify ap (attest_bytesToBase64Url x) (attest_bytesToBase64Url y) signatureRaw nonce of
                                  None \<Rightarrow> Assertion_throws
                                | Some ok \<Rightarrow> if \<not> ok then Not_asserted Ass_signature_invalid else Asserted counter))"

section \<open>Laws\<close>

text \<open>A list of known length is taken apart at fixed offsets.\<close>

lemma js_slice_between: "length a = i \<Longrightarrow> length b = j - i \<Longrightarrow> js_slice (a @ b @ c) i j = b"
  by (simp add: js_slice_def)

lemma counter_bytes:
  assumes "37 \<le> length bs"
  shows "readAuthDataCounter bs = be_nat (js_slice bs 33 37)"
proof -
  from assms have "js_slice bs 33 37 = [bs ! 33, bs ! 34, bs ! 35, bs ! 36]"
    by (intro nth_equalityI) (auto simp: slice_simps less_Suc_eq numeral_eq_Suc)
  then show ?thesis
    by (simp add: readAuthDataCounter_def readUint32BE_def AUTH_DATA_COUNTER_OFFSET_def be_nat_Cons)
qed

text \<open>Authenticator data: the hash of the relying party, flags, the counter, and what an attestation adds.\<close>

definition auth_data :: "bytes \<Rightarrow> byte \<Rightarrow> bytes \<Rightarrow> bytes \<Rightarrow> bytes" where
  "auth_data rpIdHash flags counter rest = rpIdHash @ flags # counter @ rest"

lemma auth_data_iff:
  "37 \<le> length bs \<longleftrightarrow>
     (\<exists>rpIdHash flags counter rest. length rpIdHash = 32 \<and> length counter = 4 \<and> bs = auth_data rpIdHash flags counter rest)"
proof
  assume l: "37 \<le> length bs"
  have "bs = take 32 bs @ bs ! 32 # drop 33 bs" using l id_take_nth_drop [of 32 bs] by simp
  also have "drop 33 bs = take 4 (drop 33 bs) @ drop 37 bs"
    using append_take_drop_id [of 4 "drop 33 bs"] by simp
  finally show "\<exists>rpIdHash flags counter rest. length rpIdHash = 32 \<and> length counter = 4 \<and>
      bs = auth_data rpIdHash flags counter rest"
    using l by (intro exI [of _ "take 32 bs"] exI [of _ "bs ! 32"] exI [of _ "take 4 (drop 33 bs)"] exI [of _ "drop 37 bs"])
      (simp add: auth_data_def)
qed (auto simp: auth_data_def)

lemma auth_data_parts:
  assumes "length rpIdHash = 32" "length counter = 4"
  shows "js_slice (auth_data rpIdHash flags counter rest) 0 32 = rpIdHash"
    and "readAuthDataCounter (auth_data rpIdHash flags counter rest) = be_nat counter"
    and "37 \<le> length (auth_data rpIdHash flags counter rest)"
proof -
  show "js_slice (auth_data rpIdHash flags counter rest) 0 32 = rpIdHash"
    using assms by (simp add: auth_data_def js_slice_def)
  show l: "37 \<le> length (auth_data rpIdHash flags counter rest)" using assms by (simp add: auth_data_def)
  have "js_slice ((rpIdHash @ [flags]) @ counter @ rest) 33 37 = counter"
    by (rule js_slice_between) (simp_all add: assms)
  with counter_bytes [OF l] show "readAuthDataCounter (auth_data rpIdHash flags counter rest) = be_nat counter"
    by (simp add: auth_data_def)
qed

end
