(* ===== verification/Attest_Gate.thy ===== *)
theory Attest_Gate
  imports App_Attest Hello_Auth Data_Payload
begin

text \<open>
  The keys of devices: the challenge a registration answers, the table of registered keys, the two
  gates that take an assertion, at the hello and after the chip was read, and the refresh of
  receipts (\<open>attest-*.ts\<close>). A gate reads the key, verifies, and then writes the counter where it is
  still the one it read; the two halves are operations of their own.
\<close>

section \<open>Keys\<close>

datatype attest_provider = ios_app_attest | android_play_integrity

record attest_key =
  ak_keyId :: string
  ak_provider :: attest_provider
  ak_publicKeyCose :: "string option"
  ak_counter :: int
  ak_receipt :: "string option"
  ak_receiptRefreshedAt :: "int option"
  ak_riskMetric :: "int option"
  ak_lastUsedAt :: int

definition find_key :: "attest_key list \<Rightarrow> string \<Rightarrow> attest_key option" where
  "find_key keys keyId = find (\<lambda>k. ak_keyId k = keyId \<and> ak_provider k = ios_app_attest) keys"

datatype key_load = Key_unknown | Key_loaded int bytes | Key_throws

definition loadAttestKey :: "attest_key list \<Rightarrow> string \<Rightarrow> key_load" where
  "loadAttestKey keys keyId =
     (case find_key keys keyId of
        None \<Rightarrow> Key_unknown
      | Some row \<Rightarrow>
          (case ak_publicKeyCose row of
             None \<Rightarrow> Key_unknown
           | Some t \<Rightarrow>
               if t = [] then Key_unknown
               else case base64ToBytes t of None \<Rightarrow> Key_throws | Some bs \<Rightarrow> Key_loaded (ak_counter row) bs))"

definition update_attest_keys :: "attest_key list \<Rightarrow> (attest_key \<Rightarrow> bool) \<Rightarrow> (attest_key \<Rightarrow> attest_key) \<Rightarrow> attest_key list" where
  "update_attest_keys keys cond f = map (\<lambda>k. if cond k then f k else k) keys"

text \<open>The column is a signed 32-bit integer: the statement fails on a larger counter.\<close>

definition MAX_INT4 :: int where "MAX_INT4 = 2147483647"

definition persistCounterIfHigher ::
  "int \<Rightarrow> attest_key list \<Rightarrow> string \<Rightarrow> nat \<Rightarrow> int \<Rightarrow> attest_key list \<times> bool option" where
  "persistCounterIfHigher now keys keyId newCounter previousCounter =
     (if MAX_INT4 < int newCounter then (keys, None)
      else
        let hit = (\<lambda>k. ak_keyId k = keyId \<and> ak_counter k = previousCounter)
        in (update_attest_keys keys hit (\<lambda>k. k\<lparr>ak_counter := int newCounter, ak_lastUsedAt := now\<rparr>),
            Some (length (filter hit keys) = 1)))"

section \<open>The gates\<close>

datatype gate_code = Gate_HELLO_ATTEST_KEY_UNKNOWN | Gate_HELLO_ATTEST_INVALID | Gate_anti_cloning_attestation_failed

datatype gate_detail =
  No_detail | Assertion_missing | Key_unknown_detail | Assertion_reason assertion_failure | Counter_regressed_atomic

datatype gate_outcome = Gate_passed nat | Gate_refused gate_code gate_detail | Gate_throws

text \<open>What a gate carries from its reads to its write.\<close>

record pending_gate =
  pg_keyId :: string
  pg_assertion :: bytes
  pg_counter :: nat
  pg_previous :: int

definition check_assertion ::
  "attest_platform \<Rightarrow> gate_code \<Rightarrow> string \<Rightarrow> int \<Rightarrow> bytes \<Rightarrow> bytes \<Rightarrow> bytes \<Rightarrow> gate_outcome + pending_gate" where
  "check_assertion ap code attestKeyId storedCounter publicKeyCose clientDataHash assertion =
     (case verifyAssertion ap assertion publicKeyCose clientDataHash (computeAppAttestRpIdHash ap) storedCounter of
        Assertion_throws \<Rightarrow> Inl Gate_throws
      | Not_asserted reason \<Rightarrow> Inl (Gate_refused code (Assertion_reason reason))
      | Asserted counter \<Rightarrow>
          Inr \<lparr>pg_keyId = attestKeyId, pg_assertion = assertion, pg_counter = counter, pg_previous = storedCounter\<rparr>)"

definition hello_client_data :: "attest_platform \<Rightarrow> (string \<Rightarrow> bytes) \<Rightarrow> string \<Rightarrow> string \<Rightarrow> string \<Rightarrow> bytes" where
  "hello_client_data ap mac sessionId deviceId appVersion =
     ap_sha256 ap
       (concat [ascii_bytes ''attest:hello:'', ascii_bytes sessionId, ascii_bytes deviceId, ascii_bytes appVersion,
                deriveAttestHelloChallenge mac sessionId])"

definition hello_read ::
  "attest_platform \<Rightarrow> (string \<Rightarrow> bytes) \<Rightarrow> attest_key list \<Rightarrow> string \<Rightarrow> string \<Rightarrow> string \<Rightarrow> string \<Rightarrow> bytes \<Rightarrow>
     gate_outcome + pending_gate" where
  "hello_read ap mac keys sessionId deviceId appVersion attestKeyId helloAssertion =
     (case loadAttestKey keys attestKeyId of
        Key_unknown \<Rightarrow> Inl (Gate_refused Gate_HELLO_ATTEST_KEY_UNKNOWN No_detail)
      | Key_throws \<Rightarrow> Inl Gate_throws
      | Key_loaded counter publicKeyCose \<Rightarrow>
          check_assertion ap Gate_HELLO_ATTEST_INVALID attestKeyId counter publicKeyCose
            (hello_client_data ap mac sessionId deviceId appVersion) helloAssertion)"

definition buildNfcClientDataHash :: "attest_platform \<Rightarrow> string \<Rightarrow> bytes \<Rightarrow> transfer_state \<Rightarrow> bytes" where
  "buildNfcClientDataHash ap sessionId challenge transfer =
     (let hashed = (\<lambda>a. ap_sha256 ap (case a of None \<Rightarrow> [] | Some bs \<Rightarrow> bs))
      in ap_sha256 ap
           (concat [ascii_bytes ''attest:nfc:'', ascii_bytes sessionId, hashed (ts_dg1 transfer), hashed (ts_dg2 transfer),
                    hashed (ts_dg14 transfer), hashed (ts_dg15 transfer), hashed (ts_sod transfer),
                    hashed (ts_ca_transcript transfer), hashed (ts_aa_signature transfer), challenge]))"

definition nfc_read ::
  "attest_platform \<Rightarrow> (string \<Rightarrow> bytes) \<Rightarrow> attest_key list \<Rightarrow> string \<Rightarrow> string \<Rightarrow> transfer_state \<Rightarrow>
     gate_outcome + pending_gate" where
  "nfc_read ap mac keys sessionId attestKeyId transfer =
     (let assertion = (case ts_attest transfer of None \<Rightarrow> [] | Some a \<Rightarrow> a)
      in if assertion = [] then Inl (Gate_refused Gate_anti_cloning_attestation_failed Assertion_missing)
         else
           case loadAttestKey keys attestKeyId of
             Key_unknown \<Rightarrow> Inl (Gate_refused Gate_anti_cloning_attestation_failed Key_unknown_detail)
           | Key_throws \<Rightarrow> Inl Gate_throws
           | Key_loaded counter publicKeyCose \<Rightarrow>
               check_assertion ap Gate_anti_cloning_attestation_failed attestKeyId counter publicKeyCose
                 (buildNfcClientDataHash ap sessionId (deriveAttestNfcChallenge mac sessionId) transfer) assertion)"

definition gate_write :: "int \<Rightarrow> gate_code \<Rightarrow> attest_key list \<Rightarrow> pending_gate \<Rightarrow> attest_key list \<times> gate_outcome" where
  "gate_write now code keys pg =
     (case persistCounterIfHigher now keys (pg_keyId pg) (pg_counter pg) (pg_previous pg) of
        (keys1, None) \<Rightarrow> (keys1, Gate_throws)
      | (keys1, Some persisted) \<Rightarrow>
          (keys1, if \<not> persisted then Gate_refused code Counter_regressed_atomic else Gate_passed (pg_counter pg)))"

definition finish_gate ::
  "int \<Rightarrow> gate_code \<Rightarrow> attest_key list \<Rightarrow> gate_outcome + pending_gate \<Rightarrow> attest_key list \<times> gate_outcome" where
  "finish_gate now code keys r = (case r of Inl outcome \<Rightarrow> (keys, outcome) | Inr pg \<Rightarrow> gate_write now code keys pg)"

definition verifyHelloAttestation_gate ::
  "attest_platform \<Rightarrow> (string \<Rightarrow> bytes) \<Rightarrow> int \<Rightarrow> attest_key list \<Rightarrow> string \<Rightarrow> string \<Rightarrow> string \<Rightarrow> string \<Rightarrow> bytes \<Rightarrow>
     attest_key list \<times> gate_outcome" where
  "verifyHelloAttestation_gate ap mac now keys sessionId deviceId appVersion attestKeyId helloAssertion =
     finish_gate now Gate_HELLO_ATTEST_INVALID keys
       (hello_read ap mac keys sessionId deviceId appVersion attestKeyId helloAssertion)"

definition verifyNfcAttestation_gate ::
  "attest_platform \<Rightarrow> (string \<Rightarrow> bytes) \<Rightarrow> int \<Rightarrow> attest_key list \<Rightarrow> string \<Rightarrow> string \<Rightarrow> transfer_state \<Rightarrow>
     attest_key list \<times> gate_outcome" where
  "verifyNfcAttestation_gate ap mac now keys sessionId attestKeyId transfer =
     finish_gate now Gate_anti_cloning_attestation_failed keys (nfc_read ap mac keys sessionId attestKeyId transfer)"

section \<open>Challenges and registration\<close>

definition ATTEST_CHALLENGE_BASE64URL_LENGTH :: nat where "ATTEST_CHALLENGE_BASE64URL_LENGTH = 43"
definition ATTEST_CHALLENGE_TTL_SECONDS :: int where "ATTEST_CHALLENGE_TTL_SECONDS = 5 * 60"
definition ATTEST_CHALLENGE_REDIS_PREFIX :: string where "ATTEST_CHALLENGE_REDIS_PREFIX = ''attest:register_challenge:''"
definition MAX_ATTESTATION_BASE64_LENGTH :: nat where "MAX_ATTESTATION_BASE64_LENGTH = (64 * 1024 + 2) div 3 * 4 + 4"

text \<open>The store of challenges: keys with the time they expire. \<open>nx\<close> leaves a live key alone.\<close>

type_synonym challenge_store = "(string \<times> int) list"

definition live :: "int \<Rightarrow> challenge_store \<Rightarrow> string \<Rightarrow> bool" where
  "live now store key \<longleftrightarrow> list_ex (\<lambda>(k, expires). k = key \<and> now < expires) store"

definition issue_challenge :: "int \<Rightarrow> challenge_store \<Rightarrow> bytes \<Rightarrow> challenge_store \<times> string" where
  "issue_challenge now store challengeBytes =
     (let challenge = attest_bytesToBase64Url challengeBytes;
          key = ATTEST_CHALLENGE_REDIS_PREFIX @ challenge
      in (if live now store key then store
          else filter (\<lambda>(k, _). k \<noteq> key) store @ [(key, now + ATTEST_CHALLENGE_TTL_SECONDS * 1000)],
          challenge))"

text \<open>
  Counters of requests by identity, with the time they expire, if any. \<open>incr\<close> starts an expired or
  absent counter at one, without an expiry; a counter that has none stays for ever.
\<close>

type_synonym rate_store = "string \<rightharpoonup> nat \<times> int option"

definition ATTEST_CHALLENGE_RATE_LIMIT_PREFIX :: string where
  "ATTEST_CHALLENGE_RATE_LIMIT_PREFIX = ''attest:challenge_rate:''"
definition ATTEST_CHALLENGE_RATE_LIMIT_WINDOW_SECONDS :: int where "ATTEST_CHALLENGE_RATE_LIMIT_WINDOW_SECONDS = 60"
definition ATTEST_CHALLENGE_RATE_LIMIT_MAX :: nat where "ATTEST_CHALLENGE_RATE_LIMIT_MAX = 20"

definition rate_incr :: "int \<Rightarrow> rate_store \<Rightarrow> string \<Rightarrow> rate_store \<times> nat \<times> int option" where
  "rate_incr now rates key =
     (let v = (case rates key of
                 Some (n, None) \<Rightarrow> (n + 1, None)
               | Some (n, Some expires) \<Rightarrow> if now < expires then (n + 1, Some expires) else (1, None)
               | None \<Rightarrow> (1, None))
      in (rates(key \<mapsto> v), v))"

text \<open>The result is \<open>None\<close> for a request that may go on, and else the seconds to wait.\<close>

definition checkAttestChallengeRateLimit ::
  "(string \<Rightarrow> string) \<Rightarrow> int \<Rightarrow> rate_store \<Rightarrow> string \<Rightarrow> rate_store \<times> int option" where
  "checkAttestChallengeRateLimit hmac now rates identity =
     (let key = ATTEST_CHALLENGE_RATE_LIMIT_PREFIX @ hmac identity;
          (rates1, count1, expiry) = rate_incr now rates key;
          fresh = now + ATTEST_CHALLENGE_RATE_LIMIT_WINDOW_SECONDS * 1000;
          rates2 = (if count1 = 1 then rates1(key \<mapsto> (count1, Some fresh)) else rates1)
      in if count1 \<le> ATTEST_CHALLENGE_RATE_LIMIT_MAX then (rates2, None)
         else
           let ttl = (case expiry of None \<Rightarrow> - 1 | Some expires \<Rightarrow> (expires - now) div 1000)
           in (rates2, Some (if 0 < ttl then ttl else ATTEST_CHALLENGE_RATE_LIMIT_WINDOW_SECONDS)))"

datatype challenge_response = Challenge_issued string | ATTEST_CHALLENGE_RATE_LIMITED int

definition handleAttestChallenge ::
  "(string \<Rightarrow> string) \<Rightarrow> int \<Rightarrow> rate_store \<times> challenge_store \<Rightarrow> string \<Rightarrow> bytes \<Rightarrow>
     (rate_store \<times> challenge_store) \<times> challenge_response" where
  "handleAttestChallenge hmac now s identity challengeBytes =
     (case checkAttestChallengeRateLimit hmac now (fst s) identity of
        (rates, Some retryAfter) \<Rightarrow> ((rates, snd s), ATTEST_CHALLENGE_RATE_LIMITED retryAfter)
      | (rates, None) \<Rightarrow>
          (case issue_challenge now (snd s) challengeBytes of
             (store, challenge) \<Rightarrow> ((rates, store), Challenge_issued challenge)))"

definition consumeRedisKey :: "int \<Rightarrow> challenge_store \<Rightarrow> string \<Rightarrow> challenge_store \<times> bool" where
  "consumeRedisKey now store key = (filter (\<lambda>(k, _). k \<noteq> key) store, live now store key)"

record register_body =
  rb_key_id :: string
  rb_attestation :: string
  rb_challenge :: string

definition base64url_char :: "char \<Rightarrow> bool" where
  "base64url_char c \<longleftrightarrow> c \<in> set (take 62 BASE64_ALPHABET) \<or> c = CHR ''_'' \<or> c = CHR ''-''"

definition registerBodySchema :: "register_body \<Rightarrow> bool" where
  "registerBodySchema body \<longleftrightarrow>
     1 \<le> length (rb_key_id body) \<and> length (rb_key_id body) \<le> 512 \<and>
     1 \<le> length (rb_attestation body) \<and> length (rb_attestation body) \<le> MAX_ATTESTATION_BASE64_LENGTH \<and>
     length (rb_challenge body) = ATTEST_CHALLENGE_BASE64URL_LENGTH \<and> list_all base64url_char (rb_challenge body)"

datatype register_outcome = Registered_ok | Register_INVALID_REQUEST | Register_HELLO_ATTEST_INVALID | Register_throws

text \<open>What a registration carries from the challenge it consumed to the row it writes.\<close>

record pending_registration =
  pr_challenge :: string
  pr_keyId :: string
  pr_attested :: attested

definition register_bytes :: "register_body \<Rightarrow> (bytes \<times> bytes \<times> bytes) option" where
  "register_bytes body =
     Option.bind (base64ToBytes (rb_attestation body)) (\<lambda>attestationBytes.
     Option.bind (base64UrlToBytes (rb_challenge body)) (\<lambda>challengeBytes.
     Option.bind (base64UrlToBytes (rb_key_id body)) (\<lambda>keyIdBytes.
       Some (attestationBytes, challengeBytes, keyIdBytes))))"

definition register_verify ::
  "attest_platform \<Rightarrow> app_attest_environment \<Rightarrow> register_body \<Rightarrow> register_outcome + pending_registration" where
  "register_verify ap environment body =
     (case register_bytes body of
        None \<Rightarrow> Inl Register_INVALID_REQUEST
      | Some (attestationBytes, challengeBytes, keyIdBytes) \<Rightarrow>
          (case verifyAttestation ap environment keyIdBytes attestationBytes (ap_sha256 ap challengeBytes) of
             Attestation_throws \<Rightarrow> Inl Register_throws
           | Not_attested _ \<Rightarrow> Inl Register_HELLO_ATTEST_INVALID
           | Attested a \<Rightarrow> Inr \<lparr>pr_challenge = rb_challenge body, pr_keyId = rb_key_id body, pr_attested = a\<rparr>))"

definition register_begin ::
  "attest_platform \<Rightarrow> app_attest_environment \<Rightarrow> int \<Rightarrow> challenge_store \<Rightarrow> register_body \<Rightarrow>
     challenge_store \<times> (register_outcome + pending_registration)" where
  "register_begin ap environment now store body =
     (if \<not> registerBodySchema body then (store, Inl Register_INVALID_REQUEST)
      else
        case consumeRedisKey now store (ATTEST_CHALLENGE_REDIS_PREFIX @ rb_challenge body) of
          (store1, consumed) \<Rightarrow>
            (store1, if \<not> consumed then Inl Register_HELLO_ATTEST_INVALID else register_verify ap environment body))"

definition persistMobileAttestKey :: "int \<Rightarrow> attest_key list \<Rightarrow> string \<Rightarrow> attested \<Rightarrow> attest_key list" where
  "persistMobileAttestKey now keys keyId a =
     (let publicKeyCoseBase64 = bytesToBase64 (at_publicKeyCose a);
          receiptBase64 = bytesToBase64 (at_receipt a)
      in if list_ex (\<lambda>k. ak_keyId k = keyId) keys
         then update_attest_keys keys (\<lambda>k. ak_keyId k = keyId)
                (\<lambda>k. k\<lparr>ak_publicKeyCose := Some publicKeyCoseBase64, ak_counter := int (at_counter a),
                       ak_receipt := Some receiptBase64, ak_receiptRefreshedAt := None, ak_riskMetric := None,
                       ak_lastUsedAt := now\<rparr>)
         else keys @ [\<lparr>ak_keyId = keyId, ak_provider = ios_app_attest, ak_publicKeyCose = Some publicKeyCoseBase64,
                       ak_counter = int (at_counter a), ak_receipt = Some receiptBase64, ak_receiptRefreshedAt = None,
                       ak_riskMetric = None, ak_lastUsedAt = now\<rparr>])"

definition handleAttestRegister ::
  "attest_platform \<Rightarrow> app_attest_environment \<Rightarrow> int \<Rightarrow> challenge_store \<times> attest_key list \<Rightarrow> register_body \<Rightarrow>
     (challenge_store \<times> attest_key list) \<times> register_outcome" where
  "handleAttestRegister ap environment now s body =
     (case register_begin ap environment now (fst s) body of
        (store, Inl outcome) \<Rightarrow> ((store, snd s), outcome)
      | (store, Inr p) \<Rightarrow> ((store, persistMobileAttestKey now (snd s) (pr_keyId p) (pr_attested p)), Registered_ok))"

section \<open>Receipts\<close>

definition REFRESH_INTERVAL_HOURS :: int where "REFRESH_INTERVAL_HOURS = 24"
definition REFRESH_BATCH_SIZE :: nat where "REFRESH_BATCH_SIZE = 100"

definition refresh_due :: "int \<Rightarrow> attest_key list \<Rightarrow> attest_key list" where
  "refresh_due now keys =
     (let cutoff = now - REFRESH_INTERVAL_HOURS * 60 * 60 * 1000
      in take REFRESH_BATCH_SIZE
           (filter (\<lambda>k. ak_provider k = ios_app_attest \<and>
                        (case ak_receiptRefreshedAt k of None \<Rightarrow> True | Some refreshed \<Rightarrow> refreshed < cutoff)) keys))"

record refresh_stats =
  rf_refreshed :: nat
  rf_skipped :: nat
  rf_failed :: nat

text \<open>
  One row: what Apple's endpoint answers to its receipt, \<open>None\<close> when signing the request, sending it
  or writing its result fails. The row is written by its identifier.
\<close>

definition refresh_row ::
  "(string \<Rightarrow> (string \<times> int) option) \<Rightarrow> int \<Rightarrow> attest_key list \<times> refresh_stats \<Rightarrow> attest_key \<Rightarrow>
     attest_key list \<times> refresh_stats" where
  "refresh_row post now s row =
     (let (keys, stats) = s
      in case ak_receipt row of
           None \<Rightarrow> (keys, stats\<lparr>rf_skipped := rf_skipped stats + 1\<rparr>)
         | Some receipt \<Rightarrow>
             if receipt = [] then (keys, stats\<lparr>rf_skipped := rf_skipped stats + 1\<rparr>)
             else
               case post receipt of
                 Some (fresh, riskMetric) \<Rightarrow>
                   (update_attest_keys keys (\<lambda>k. ak_keyId k = ak_keyId row)
                      (\<lambda>k. k\<lparr>ak_receipt := Some fresh, ak_receiptRefreshedAt := Some now, ak_riskMetric := Some riskMetric\<rparr>),
                    stats\<lparr>rf_refreshed := rf_refreshed stats + 1\<rparr>)
               | None \<Rightarrow>
                   (update_attest_keys keys (\<lambda>k. ak_keyId k = ak_keyId row) (\<lambda>k. k\<lparr>ak_receiptRefreshedAt := Some now\<rparr>),
                    stats\<lparr>rf_failed := rf_failed stats + 1\<rparr>))"

text \<open>Nothing happens without the signing key; the job throws when rows are due and the key cannot be imported.\<close>

definition refreshAppAttestReceipts ::
  "(string \<Rightarrow> (string \<times> int) option) \<Rightarrow> bool \<Rightarrow> bool \<Rightarrow> int \<Rightarrow> attest_key list \<Rightarrow>
     attest_key list \<times> refresh_stats option" where
  "refreshAppAttestReceipts post configured importable now keys =
     (let stats = \<lparr>rf_refreshed = 0, rf_skipped = 0, rf_failed = 0\<rparr>;
          dueRows = refresh_due now keys
      in if \<not> configured \<or> dueRows = [] then (keys, Some stats)
         else if \<not> importable then (keys, None)
         else let r = foldl (refresh_row post now) (keys, stats) dueRows in (fst r, Some (snd r)))"

definition shouldRunReceiptRefresh :: "int \<Rightarrow> bool" where
  "shouldRunReceiptRefresh scheduledMs \<longleftrightarrow> scheduledMs div 60000 mod 60 = 7"

section \<open>The rate limit\<close>

text \<open>How many of the requests of one identity, at the given times, may go on.\<close>

fun admitted :: "(string \<Rightarrow> string) \<Rightarrow> string \<Rightarrow> rate_store \<Rightarrow> int list \<Rightarrow> nat" where
  "admitted hmac identity rates [] = 0"
| "admitted hmac identity rates (now # nows) =
     (case checkAttestChallengeRateLimit hmac now rates identity of
        (rates1, r) \<Rightarrow> (if r = None then 1 else 0) + admitted hmac identity rates1 nows)"

lemma admitted_counted:
  assumes "rates (ATTEST_CHALLENGE_RATE_LIMIT_PREFIX @ hmac identity) = Some (n, Some expires)" "0 < n"
    and "\<forall>now \<in> set nows. now < expires"
  shows "admitted hmac identity rates nows \<le> ATTEST_CHALLENGE_RATE_LIMIT_MAX - n"
  using assms
proof (induction nows arbitrary: rates n)
  case (Cons now nows)
  let ?key = "ATTEST_CHALLENGE_RATE_LIMIT_PREFIX @ hmac identity"
  have "admitted hmac identity (rates(?key \<mapsto> (n + 1, Some expires))) nows \<le> ATTEST_CHALLENGE_RATE_LIMIT_MAX - (n + 1)"
    using Cons.prems by (intro Cons.IH) simp_all
  with Cons.prems show ?case
    by (simp add: checkAttestChallengeRateLimit_def rate_incr_def Let_def) linarith
qed simp

text \<open>In the sixty seconds after the first request an identity gets twenty challenges at most.\<close>

lemma admitted_in_window:
  assumes "rates (ATTEST_CHALLENGE_RATE_LIMIT_PREFIX @ hmac identity) = None"
    and "\<forall>now \<in> set nows. now < first_request + ATTEST_CHALLENGE_RATE_LIMIT_WINDOW_SECONDS * 1000"
  shows "admitted hmac identity rates (first_request # nows) \<le> ATTEST_CHALLENGE_RATE_LIMIT_MAX"
proof -
  let ?key = "ATTEST_CHALLENGE_RATE_LIMIT_PREFIX @ hmac identity"
  let ?rates = "rates(?key \<mapsto> (1, Some (first_request + ATTEST_CHALLENGE_RATE_LIMIT_WINDOW_SECONDS * 1000)))"
  have "admitted hmac identity ?rates nows \<le> ATTEST_CHALLENGE_RATE_LIMIT_MAX - 1"
    by (rule admitted_counted) (use assms(2) in simp_all)
  then show ?thesis
    using assms(1)
    by (simp add: checkAttestChallengeRateLimit_def rate_incr_def Let_def ATTEST_CHALLENGE_RATE_LIMIT_MAX_def)
qed

section \<open>What a hello is bound to\<close>

text \<open>The parts are hashed without separators: the device and the version can be cut elsewhere.\<close>

lemma hello_parts_unseparated:
  "hello_client_data ap mac sessionId (deviceId @ part) appVersion = hello_client_data ap mac sessionId deviceId (part @ appVersion)"
  by (simp add: hello_client_data_def ascii_bytes_def)

end
