(* ===== verification/Attest_Machine.thy ===== *)
theory Attest_Machine
  imports Attest_Gate
begin

text \<open>
  Registrations and gates interleaved: any number of devices, each operation split where the code
  waits, with the refresh of receipts and the removal of old keys beside them. The log records
  registrations with the challenge and the key they stored, and accepted assertions. The bytes of a
  challenge are taken to be new whenever one is issued.
\<close>

section \<open>States and steps\<close>

datatype attest_event = Registration string string bytes | Acceptance string bytes nat

record attest_state =
  am_now :: int
  am_store :: challenge_store
  am_keys :: "attest_key list"
  am_registrations :: "pending_registration list"
  am_gates :: "pending_gate list"
  am_issued :: "string list"
  am_log :: "attest_event list"

definition initial_attest :: "int \<Rightarrow> attest_state" where
  "initial_attest now = \<lparr>am_now = now, am_store = [], am_keys = [], am_registrations = [], am_gates = [],
     am_issued = [], am_log = []\<rparr>"

definition issue_step :: "attest_state \<Rightarrow> bytes \<Rightarrow> attest_state" where
  "issue_step s challengeBytes =
     (case issue_challenge (am_now s) (am_store s) challengeBytes of
        (store, challenge) \<Rightarrow> s\<lparr>am_store := store, am_issued := am_issued s @ [challenge]\<rparr>)"

definition begin_step :: "attest_platform \<Rightarrow> app_attest_environment \<Rightarrow> attest_state \<Rightarrow> register_body \<Rightarrow> attest_state" where
  "begin_step ap environment s body =
     (case register_begin ap environment (am_now s) (am_store s) body of
        (store, Inl _) \<Rightarrow> s\<lparr>am_store := store\<rparr>
      | (store, Inr p) \<Rightarrow> s\<lparr>am_store := store, am_registrations := am_registrations s @ [p]\<rparr>)"

definition persist_step :: "attest_state \<Rightarrow> pending_registration \<Rightarrow> attest_state" where
  "persist_step s p =
     s\<lparr>am_keys := persistMobileAttestKey (am_now s) (am_keys s) (pr_keyId p) (pr_attested p),
       am_registrations := remove1 p (am_registrations s),
       am_log := am_log s @ [Registration (pr_challenge p) (pr_keyId p) (at_publicKeyCose (pr_attested p))]\<rparr>"

definition gate_step :: "attest_state \<Rightarrow> gate_code \<Rightarrow> pending_gate \<Rightarrow> attest_state" where
  "gate_step s code pg =
     (case gate_write (am_now s) code (am_keys s) pg of
        (keys, outcome) \<Rightarrow>
          s\<lparr>am_keys := keys, am_gates := remove1 pg (am_gates s),
            am_log := am_log s @
              (case outcome of
                 Gate_passed counter \<Rightarrow> [Acceptance (pg_keyId pg) (pg_assertion pg) counter]
               | _ \<Rightarrow> [])\<rparr>)"

inductive attest_step ::
  "attest_platform \<Rightarrow> (string \<Rightarrow> bytes) \<Rightarrow> app_attest_environment \<Rightarrow> attest_state \<Rightarrow> attest_state \<Rightarrow> bool"
  for ap mac environment where
  Clock: "am_now s \<le> now \<Longrightarrow> attest_step ap mac environment s (s\<lparr>am_now := now\<rparr>)"
| Issue: "length challengeBytes = 32 \<Longrightarrow> attest_bytesToBase64Url challengeBytes \<notin> set (am_issued s) \<Longrightarrow>
    attest_step ap mac environment s (issue_step s challengeBytes)"
| Begin: "attest_step ap mac environment s (begin_step ap environment s body)"
| Persist: "p \<in> set (am_registrations s) \<Longrightarrow> attest_step ap mac environment s (persist_step s p)"
| Hello: "hello_read ap mac (am_keys s) sid deviceId appVersion keyId assertion = Inr pg \<Longrightarrow>
    attest_step ap mac environment s (s\<lparr>am_gates := am_gates s @ [pg]\<rparr>)"
| Nfc: "nfc_read ap mac (am_keys s) sid keyId transfer = Inr pg \<Longrightarrow>
    attest_step ap mac environment s (s\<lparr>am_gates := am_gates s @ [pg]\<rparr>)"
| Gate: "pg \<in> set (am_gates s) \<Longrightarrow> attest_step ap mac environment s (gate_step s code pg)"
| Refresh: "attest_step ap mac environment s (s\<lparr>am_keys := fst (refresh_row post (am_now s) (am_keys s, stats) row)\<rparr>)"
| Forget: "attest_step ap mac environment s (s\<lparr>am_keys := filter P (am_keys s)\<rparr>)"

inductive attest_reachable :: "attest_platform \<Rightarrow> (string \<Rightarrow> bytes) \<Rightarrow> app_attest_environment \<Rightarrow> attest_state \<Rightarrow> bool"
  for ap mac environment where
  Start: "attest_reachable ap mac environment (initial_attest now)"
| Step: "attest_reachable ap mac environment s \<Longrightarrow> attest_step ap mac environment s s' \<Longrightarrow>
    attest_reachable ap mac environment s'"

section \<open>What the log says\<close>

text \<open>The assertions accepted under a key since its last registration, with their counters.\<close>

fun uses_of :: "string \<Rightarrow> attest_event list \<Rightarrow> (bytes \<times> nat) list \<Rightarrow> (bytes \<times> nat) list" where
  "uses_of keyId [] acc = acc"
| "uses_of keyId (Registration ch k cose # es) acc = uses_of keyId es (if k = keyId then [] else acc)"
| "uses_of keyId (Acceptance k a c # es) acc = uses_of keyId es (if k = keyId then acc @ [(a, c)] else acc)"

definition uses :: "string \<Rightarrow> attest_event list \<Rightarrow> (bytes \<times> nat) list" where
  "uses keyId es = uses_of keyId es []"

fun challenges_used :: "attest_event list \<Rightarrow> string list" where
  "challenges_used [] = []"
| "challenges_used (Registration ch k cose # es) = ch # challenges_used es"
| "challenges_used (Acceptance k a c # es) = challenges_used es"

lemma uses_of_append: "uses_of keyId (es @ fs) acc = uses_of keyId fs (uses_of keyId es acc)"
  by (induction keyId es acc rule: uses_of.induct) simp_all

lemma uses_snoc [simp]:
  "uses keyId [] = []"
  "uses keyId (es @ [Registration ch k cose]) = (if k = keyId then [] else uses keyId es)"
  "uses keyId (es @ [Acceptance k a c]) = (if k = keyId then uses keyId es @ [(a, c)] else uses keyId es)"
  by (simp_all add: uses_def uses_of_append)

lemma challenges_used_append [simp]: "challenges_used (es @ fs) = challenges_used es @ challenges_used fs"
  by (induction es rule: challenges_used.induct) simp_all

section \<open>What stays true\<close>

text \<open>An attestation was accepted for the challenge and the key; the key was registered with it.\<close>

definition attested_for :: "attest_platform \<Rightarrow> app_attest_environment \<Rightarrow> string \<Rightarrow> string \<Rightarrow> bytes \<Rightarrow> bool" where
  "attested_for ap environment challenge keyId publicKeyCose \<longleftrightarrow>
     (\<exists>attestation challengeBytes keyIdBytes a.
        base64UrlToBytes challenge = Some challengeBytes \<and> base64UrlToBytes keyId = Some keyIdBytes \<and>
        verifyAttestation ap environment keyIdBytes attestation (ap_sha256 ap challengeBytes) = Attested a \<and>
        publicKeyCose = at_publicKeyCose a)"

definition registered :: "attest_event list \<Rightarrow> string \<Rightarrow> bytes \<Rightarrow> bool" where
  "registered es keyId publicKeyCose \<longleftrightarrow> (\<exists>challenge. Registration challenge keyId publicKeyCose \<in> set es)"

text \<open>An assertion with its counter, verified under a registered key.\<close>

definition asserted_for :: "attest_platform \<Rightarrow> attest_event list \<Rightarrow> string \<Rightarrow> bytes \<Rightarrow> nat \<Rightarrow> bool" where
  "asserted_for ap es keyId assertion counter \<longleftrightarrow>
     (\<exists>publicKeyCose clientDataHash previous. registered es keyId publicKeyCose \<and>
        verifyAssertion ap assertion publicKeyCose clientDataHash (computeAppAttestRpIdHash ap) previous = Asserted counter)"

definition attest_row_ok :: "attest_event list \<Rightarrow> attest_key \<Rightarrow> bool" where
  "attest_row_ok es k \<longleftrightarrow>
     (\<forall>(a, c) \<in> set (uses (ak_keyId k) es). int c \<le> ak_counter k) \<and>
     (\<exists>publicKeyCose. ak_publicKeyCose k = Some (bytesToBase64 publicKeyCose) \<and> registered es (ak_keyId k) publicKeyCose)"

definition gate_ok :: "attest_platform \<Rightarrow> attest_event list \<Rightarrow> pending_gate \<Rightarrow> bool" where
  "gate_ok ap es pg \<longleftrightarrow>
     pg_previous pg < int (pg_counter pg) \<and> asserted_for ap es (pg_keyId pg) (pg_assertion pg) (pg_counter pg)"

definition event_ok :: "attest_platform \<Rightarrow> app_attest_environment \<Rightarrow> attest_event list \<Rightarrow> attest_event \<Rightarrow> bool" where
  "event_ok ap environment es e \<longleftrightarrow>
     (case e of
        Registration challenge keyId publicKeyCose \<Rightarrow> attested_for ap environment challenge keyId publicKeyCose
      | Acceptance keyId assertion counter \<Rightarrow> asserted_for ap es keyId assertion counter)"

text \<open>A challenge is in the store, or pending, or used; once each, and all of them were issued.\<close>

definition challenges_ok :: "attest_state \<Rightarrow> bool" where
  "challenges_ok s \<longleftrightarrow>
     (let open_keys = map fst (am_store s);
          taken = map pr_challenge (am_registrations s) @ challenges_used (am_log s)
      in distinct open_keys \<and> distinct taken \<and> set taken \<subseteq> set (am_issued s) \<and>
         (\<forall>key \<in> set open_keys. \<exists>challenge. key = ATTEST_CHALLENGE_REDIS_PREFIX @ challenge \<and>
            challenge \<in> set (am_issued s) \<and> challenge \<notin> set taken))"

definition attest_ok :: "attest_platform \<Rightarrow> app_attest_environment \<Rightarrow> attest_state \<Rightarrow> bool" where
  "attest_ok ap environment s \<longleftrightarrow>
     challenges_ok s \<and> distinct (map ak_keyId (am_keys s)) \<and>
     (\<forall>k \<in> set (am_keys s). attest_row_ok (am_log s) k) \<and>
     (\<forall>p \<in> set (am_registrations s).
        attested_for ap environment (pr_challenge p) (pr_keyId p) (at_publicKeyCose (pr_attested p))) \<and>
     (\<forall>pg \<in> set (am_gates s). gate_ok ap (am_log s) pg) \<and>
     (\<forall>e \<in> set (am_log s). event_ok ap environment (am_log s) e) \<and>
     (\<forall>keyId. sorted_wrt (<) (map snd (uses keyId (am_log s))))"

end
