(* ===== verification/Attest_Invariants.thy ===== *)
theory Attest_Invariants
  imports Attest_Machine
begin

text \<open>
  The invariant of the keys of devices is kept by every step: keys and challenges once each, stored
  keys attested, counters that only grow between two registrations of a key.
\<close>

section \<open>The log grows\<close>

lemma registered_mono: "registered es k c \<Longrightarrow> registered (es @ fs) k c"
  by (auto simp: registered_def)

lemma asserted_mono: "asserted_for ap es k a c \<Longrightarrow> asserted_for ap (es @ fs) k a c"
  using registered_mono by (fastforce simp: asserted_for_def)

lemma gate_ok_mono: "gate_ok ap es pg \<Longrightarrow> gate_ok ap (es @ fs) pg"
  by (simp add: gate_ok_def asserted_mono)

lemma event_ok_mono: "event_ok ap environment es e \<Longrightarrow> event_ok ap environment (es @ fs) e"
  by (auto simp: event_ok_def asserted_mono split: attest_event.splits)

section \<open>Rows\<close>

lemma update_attest_keys_ids [simp]:
  "(\<And>k. ak_keyId (f k) = ak_keyId k) \<Longrightarrow> map ak_keyId (update_attest_keys keys cond f) = map ak_keyId keys"
  by (simp add: update_attest_keys_def)

lemma in_update_attest_keys: "k \<in> set (update_attest_keys keys cond f) \<longleftrightarrow> (\<exists>k0 \<in> set keys. k = (if cond k0 then f k0 else k0))"
  by (auto simp: update_attest_keys_def)

text \<open>A row that keeps its identifier, its public key and its counter stays as it should be.\<close>

lemma attest_row_ok_same:
  "attest_row_ok es k \<Longrightarrow> ak_keyId k' = ak_keyId k \<Longrightarrow> ak_publicKeyCose k' = ak_publicKeyCose k \<Longrightarrow> ak_counter k' = ak_counter k \<Longrightarrow>
     attest_row_ok es k'"
  by (simp add: attest_row_ok_def)

lemma attest_row_ok_other:
  "attest_row_ok es k \<Longrightarrow> uses (ak_keyId k) (es @ fs) = uses (ak_keyId k) es \<Longrightarrow> attest_row_ok (es @ fs) k"
  by (auto simp: attest_row_ok_def intro: registered_mono)

text \<open>Steps that keep the log: what they must show of the keys, the gates and the challenges.\<close>

lemma attest_ok_keys:
  assumes "attest_ok ap environment s" "distinct (map ak_keyId keys)" "\<forall>k \<in> set keys. attest_row_ok (am_log s) k"
  shows "attest_ok ap environment (s\<lparr>am_keys := keys\<rparr>)"
  using assms by (simp add: attest_ok_def challenges_ok_def)

lemma attest_ok_gate:
  assumes "attest_ok ap environment s" "gate_ok ap (am_log s) pg"
  shows "attest_ok ap environment (s\<lparr>am_gates := am_gates s @ [pg]\<rparr>)"
  using assms by (auto simp: attest_ok_def challenges_ok_def)

section \<open>Gates\<close>

lemma loaded_key:
  assumes "attest_ok ap environment s" "loadAttestKey (am_keys s) keyId = Key_loaded counter cose"
  shows "registered (am_log s) keyId cose"
proof -
  from assms(2) obtain k t where k: "find_key (am_keys s) keyId = Some k" "ak_publicKeyCose k = Some t"
      "base64ToBytes t = Some cose"
    by (auto simp: loadAttestKey_def split: option.splits if_splits)
  then have "k \<in> set (am_keys s)" "ak_keyId k = keyId" by (auto simp: find_key_def find_Some_iff)
  with assms(1) obtain c where "ak_publicKeyCose k = Some (bytesToBase64 c)" "registered (am_log s) keyId c"
    by (fastforce simp: attest_ok_def attest_row_ok_def)
  with k atob_btoa [of c] show ?thesis by (auto simp: base64ToBytes_def bytesToBase64_def)
qed

lemma asserted_above:
  assumes "verifyAssertion ap assertion cose cdh rp previous = Asserted counter"
  shows "previous < int counter"
  using assms by (auto simp: verifyAssertion_def Let_def split: sum.splits if_splits option.splits prod.splits)

lemma checked_gate:
  assumes "attest_ok ap environment s" "loadAttestKey (am_keys s) keyId = Key_loaded counter cose"
    and "check_assertion ap code keyId counter cose cdh assertion = Inr pg"
  shows "gate_ok ap (am_log s) pg"
proof -
  from assms(3) obtain n where n: "verifyAssertion ap assertion cose cdh (computeAppAttestRpIdHash ap) counter = Asserted n"
    and pg: "pg = \<lparr>pg_keyId = keyId, pg_assertion = assertion, pg_counter = n, pg_previous = counter\<rparr>"
    by (auto simp: check_assertion_def split: assertion_result.splits)
  from loaded_key [OF assms(1,2)] n asserted_above [OF n] show ?thesis
    by (auto simp: gate_ok_def asserted_for_def pg)
qed

lemma hello_gate:
  assumes "attest_ok ap environment s" "hello_read ap mac (am_keys s) sid deviceId appVersion keyId assertion = Inr pg"
  shows "gate_ok ap (am_log s) pg"
  using assms(2) checked_gate [OF assms(1)] by (auto simp: hello_read_def split: key_load.splits)

lemma nfc_gate:
  assumes "attest_ok ap environment s" "nfc_read ap mac (am_keys s) sid keyId transfer = Inr pg"
  shows "gate_ok ap (am_log s) pg"
  using assms(2) checked_gate [OF assms(1)] by (auto simp: nfc_read_def Let_def split: key_load.splits if_splits)

text \<open>A gate that passes raises the counter of its key; one that does not leaves every row alone.\<close>

lemma gate_write_cases:
  assumes "gate_write now code keys pg = (keys', outcome)"
  obtains
    (passes) "outcome = Gate_passed (pg_counter pg)"
      "keys' = update_attest_keys keys (\<lambda>k. ak_keyId k = pg_keyId pg \<and> ak_counter k = pg_previous pg)
         (\<lambda>k. k\<lparr>ak_counter := int (pg_counter pg), ak_lastUsedAt := now\<rparr>)"
      "\<exists>k \<in> set keys. ak_keyId k = pg_keyId pg \<and> ak_counter k = pg_previous pg"
  | (stays) "\<forall>n. outcome \<noteq> Gate_passed n"
      "distinct (map ak_keyId keys) \<Longrightarrow> keys' = keys"
proof (cases "MAX_INT4 < int (pg_counter pg)")
  case True
  with assms stays show ?thesis by (simp add: gate_write_def persistCounterIfHigher_def)
next
  case False
  let ?hit = "\<lambda>k. ak_keyId k = pg_keyId pg \<and> ak_counter k = pg_previous pg"
  show ?thesis
  proof (cases "length (filter ?hit keys) = 1")
    case True
    then have "filter ?hit keys \<noteq> []" by auto
    then have "\<exists>k \<in> set keys. ?hit k" by (auto simp: filter_empty_conv)
    with True False assms passes show ?thesis by (auto simp: gate_write_def persistCounterIfHigher_def)
  next
    case one: False
    have "update_attest_keys keys ?hit f = keys" if "distinct (map ak_keyId keys)" for f
    proof -
      have "length (filter ?hit keys) \<le> 1"
        using that
      proof (induction keys)
        case (Cons k keys)
        then have "?hit k \<Longrightarrow> filter ?hit keys = []" by (auto simp: filter_empty_conv image_iff)
        with Cons show ?case by auto
      qed simp
      with one have "filter ?hit keys = []" by (simp add: le_Suc_eq)
      then show ?thesis unfolding update_attest_keys_def by (intro map_idI) (auto simp: filter_empty_conv)
    qed
    with one False assms stays show ?thesis by (auto simp: gate_write_def persistCounterIfHigher_def)
  qed
qed

lemma key_of_id:
  "distinct (map ak_keyId keys) \<Longrightarrow> k \<in> set keys \<Longrightarrow> k' \<in> set keys \<Longrightarrow> ak_keyId k = ak_keyId k' \<Longrightarrow> k = k'"
  by (simp add: distinct_map inj_on_def)

lemma gate_step_ok:
  assumes ok: "attest_ok ap environment s" and pg: "pg \<in> set (am_gates s)"
  shows "attest_ok ap environment (gate_step s code pg)"
proof -
  obtain keys' outcome where w: "gate_write (am_now s) code (am_keys s) pg = (keys', outcome)" by fastforce
  from ok have d: "distinct (map ak_keyId (am_keys s))" and rows: "\<forall>k \<in> set (am_keys s). attest_row_ok (am_log s) k"
    and g: "\<forall>pg \<in> set (am_gates s). gate_ok ap (am_log s) pg"
    by (simp_all add: attest_ok_def)
  from g pg have gp: "pg_previous pg < int (pg_counter pg)"
      "asserted_for ap (am_log s) (pg_keyId pg) (pg_assertion pg) (pg_counter pg)"
    by (auto simp: gate_ok_def)
  from w show ?thesis
  proof (cases rule: gate_write_cases)
    case passes
    then obtain k0 where k0: "k0 \<in> set (am_keys s)" "ak_keyId k0 = pg_keyId pg" "ak_counter k0 = pg_previous pg" by blast
    let ?e = "Acceptance (pg_keyId pg) (pg_assertion pg) (pg_counter pg)"
    let ?log = "am_log s @ [?e]"
    have below: "\<forall>(a, c) \<in> set (uses (pg_keyId pg) (am_log s)). c < pg_counter pg"
      using rows k0 gp(1) by (fastforce simp: attest_row_ok_def)
    have "attest_row_ok ?log k" if "k \<in> set keys'" for k
    proof -
      have hit: "ak_keyId k1 = pg_keyId pg \<and> ak_counter k1 = pg_previous pg \<longleftrightarrow> k1 = k0" if "k1 \<in> set (am_keys s)" for k1
        using key_of_id [OF d that k0(1)] k0 by auto
      from that passes(2) obtain k1 where k1: "k1 \<in> set (am_keys s)" "k = (if k1 = k0
          then k1\<lparr>ak_counter := int (pg_counter pg), ak_lastUsedAt := am_now s\<rparr> else k1)"
        unfolding passes(2) in_update_attest_keys using hit by metis
      show ?thesis
      proof (cases "k1 = k0")
        case True
        then have "ak_keyId k = pg_keyId pg" "ak_counter k = int (pg_counter pg)" "ak_publicKeyCose k = ak_publicKeyCose k0"
          using k1 k0 by auto
        with below rows k0 show ?thesis by (fastforce simp: attest_row_ok_def intro: registered_mono)
      next
        case False
        then have "ak_keyId k1 \<noteq> pg_keyId pg" using key_of_id [OF d k1(1) k0(1)] k0 by auto
        with False k1 rows show ?thesis by (auto intro!: attest_row_ok_other)
      qed
    qed
    moreover have "sorted_wrt (<) (map snd (uses keyId ?log))" for keyId
      using ok below by (auto simp: attest_ok_def sorted_wrt_append)
    moreover have "event_ok ap environment ?log ?e" using gp(2) by (simp add: event_ok_def asserted_mono)
    ultimately show ?thesis
      using ok d passes w
      by (auto simp: gate_step_def attest_ok_def challenges_ok_def intro: gate_ok_mono event_ok_mono dest: set_remove1_subset [THEN subsetD])
  next
    case stays
    with d w ok show ?thesis
      by (auto simp: gate_step_def attest_ok_def challenges_ok_def split: gate_outcome.splits dest: set_remove1_subset [THEN subsetD])
  qed
qed

section \<open>Challenges and registrations\<close>

lemma consumed_store: "fst (consumeRedisKey now store key) = filter (\<lambda>(k, _). k \<noteq> key) store"
  by (simp add: consumeRedisKey_def)

lemma filter_store: "set (map fst (filter P store)) \<subseteq> set (map fst store)"
  "distinct (map fst store) \<Longrightarrow> distinct (map fst (filter P store))"
  by (auto simp: distinct_map_filter)

lemma issue_step_ok:
  assumes ok: "attest_ok ap environment s" and new: "attest_bytesToBase64Url bs \<notin> set (am_issued s)"
  shows "attest_ok ap environment (issue_step s bs)"
proof -
  let ?key = "ATTEST_CHALLENGE_REDIS_PREFIX @ attest_bytesToBase64Url bs"
  from ok have c: "challenges_ok s" by (simp add: attest_ok_def)
  from c new have n: "?key \<notin> set (map fst (am_store s))" by (auto simp: challenges_ok_def Let_def)
  then have "\<not> live (am_now s) (am_store s) ?key" by (auto simp: live_def list_ex_iff image_iff)
  moreover from n have "filter (\<lambda>(k, _). k \<noteq> ?key) (am_store s) = am_store s" by (intro filter_True) force
  ultimately have i: "issue_step s bs = s\<lparr>am_store := am_store s @ [(?key, am_now s + ATTEST_CHALLENGE_TTL_SECONDS * 1000)],
      am_issued := am_issued s @ [attest_bytesToBase64Url bs]\<rparr>"
    by (simp add: issue_step_def issue_challenge_def Let_def)
  have "challenges_ok (issue_step s bs)"
    using c n new unfolding i challenges_ok_def Let_def by auto
  with ok show ?thesis unfolding i by (auto simp: attest_ok_def)
qed

text \<open>A registration that goes on has consumed a challenge that was open, and its attestation was accepted.\<close>

lemma register_begins:
  assumes "register_begin ap environment now store body = (store', Inr p)"
  shows "store' = filter (\<lambda>(k, _). k \<noteq> ATTEST_CHALLENGE_REDIS_PREFIX @ pr_challenge p) store"
    and "ATTEST_CHALLENGE_REDIS_PREFIX @ pr_challenge p \<in> set (map fst store)"
    and "attested_for ap environment (pr_challenge p) (pr_keyId p) (at_publicKeyCose (pr_attested p))"
proof -
  from assms have c: "consumeRedisKey now store (ATTEST_CHALLENGE_REDIS_PREFIX @ rb_challenge body) = (store', True)"
    and v: "register_verify ap environment body = Inr p"
    by (auto simp: register_begin_def split: if_splits prod.splits)
  from v obtain att ch kid a where b: "register_bytes body = Some (att, ch, kid)"
      "verifyAttestation ap environment kid att (ap_sha256 ap ch) = Attested a"
      "p = \<lparr>pr_challenge = rb_challenge body, pr_keyId = rb_key_id body, pr_attested = a\<rparr>"
    by (auto simp: register_verify_def split: option.splits attestation_result.splits)
  from c b show "store' = filter (\<lambda>(k, _). k \<noteq> ATTEST_CHALLENGE_REDIS_PREFIX @ pr_challenge p) store"
    by (simp add: consumeRedisKey_def)
  from c b show "ATTEST_CHALLENGE_REDIS_PREFIX @ pr_challenge p \<in> set (map fst store)"
    by (force simp: consumeRedisKey_def live_def list_ex_iff)
  from b show "attested_for ap environment (pr_challenge p) (pr_keyId p) (at_publicKeyCose (pr_attested p))"
    by (auto simp: attested_for_def register_bytes_def bind_eq_Some_conv)
qed

lemma register_store:
  "\<exists>P. fst (register_begin ap environment now store body) = filter P store"
  by (auto simp: register_begin_def consumeRedisKey_def intro: exI [of _ "\<lambda>_. True"])

lemma challenges_fewer:
  assumes "challenges_ok s" "set (map fst store) \<subseteq> set (map fst (am_store s))" "distinct (map fst store)"
  shows "challenges_ok (s\<lparr>am_store := store\<rparr>)"
  using assms unfolding challenges_ok_def Let_def by (auto dest!: subsetD)

lemma begin_step_ok:
  assumes ok: "attest_ok ap environment s"
  shows "attest_ok ap environment (begin_step ap environment s body)"
proof -
  from ok have c: "challenges_ok s" by (simp add: attest_ok_def)
  obtain store r where r: "register_begin ap environment (am_now s) (am_store s) body = (store, r)" by fastforce
  show ?thesis
  proof (cases r)
    case (Inl e)
    from register_store [of ap environment "am_now s" "am_store s" body] r obtain P where "store = filter P (am_store s)"
      by auto
    moreover from c have "distinct (map fst (am_store s))" by (simp add: challenges_ok_def Let_def)
    ultimately have "challenges_ok (s\<lparr>am_store := store\<rparr>)"
      using filter_store(1) [of P "am_store s"] filter_store(2) [of "am_store s" P] by (intro challenges_fewer [OF c]) simp_all
    with ok r Inl show ?thesis by (auto simp: begin_step_def attest_ok_def)
  next
    case (Inr p)
    note b = register_begins [OF r [unfolded Inr]]
    from c b(2) have i: "pr_challenge p \<in> set (am_issued s)"
        "pr_challenge p \<notin> set (map pr_challenge (am_registrations s) @ challenges_used (am_log s))"
      unfolding challenges_ok_def Let_def by auto
    have "distinct (map fst store)"
      using c unfolding b(1) by (intro filter_store(2)) (simp add: challenges_ok_def Let_def)
    moreover have "\<exists>challenge. key = ATTEST_CHALLENGE_REDIS_PREFIX @ challenge \<and> challenge \<in> set (am_issued s) \<and>
        challenge \<notin> set (map pr_challenge (am_registrations s @ [p]) @ challenges_used (am_log s))"
      if "key \<in> set (map fst store)" for key
    proof -
      from that have "key \<in> set (map fst (am_store s))" "key \<noteq> ATTEST_CHALLENGE_REDIS_PREFIX @ pr_challenge p"
        unfolding b(1) by auto
      moreover from c this(1) obtain challenge where "key = ATTEST_CHALLENGE_REDIS_PREFIX @ challenge"
          "challenge \<in> set (am_issued s)"
          "challenge \<notin> set (map pr_challenge (am_registrations s) @ challenges_used (am_log s))"
        unfolding challenges_ok_def Let_def by blast
      ultimately show ?thesis by auto
    qed
    ultimately have "challenges_ok (s\<lparr>am_store := store, am_registrations := am_registrations s @ [p]\<rparr>)"
      using c i unfolding challenges_ok_def Let_def by simp
    with ok r Inr b(3) show ?thesis by (auto simp: begin_step_def attest_ok_def)
  qed
qed

text \<open>A challenge that moves from the pending ones to the used ones changes nothing.\<close>

lemma challenges_cong:
  assumes "am_store s' = am_store s" "am_issued s' = am_issued s"
    and "set (map pr_challenge (am_registrations s') @ challenges_used (am_log s')) =
         set (map pr_challenge (am_registrations s) @ challenges_used (am_log s))"
    and "distinct (map pr_challenge (am_registrations s') @ challenges_used (am_log s')) \<longleftrightarrow>
         distinct (map pr_challenge (am_registrations s) @ challenges_used (am_log s))"
  shows "challenges_ok s' \<longleftrightarrow> challenges_ok s"
  by (simp only: challenges_ok_def Let_def assms)

lemma persisted_rows:
  "map ak_keyId (persistMobileAttestKey now keys keyId a) =
     (if keyId \<in> ak_keyId ` set keys then map ak_keyId keys else map ak_keyId keys @ [keyId])"
  "k \<in> set (persistMobileAttestKey now keys keyId a) \<Longrightarrow>
     (k \<in> set keys \<and> ak_keyId k \<noteq> keyId) \<or>
     (ak_keyId k = keyId \<and> ak_publicKeyCose k = Some (bytesToBase64 (at_publicKeyCose a)) \<and> ak_counter k = int (at_counter a))"
proof -
  show "map ak_keyId (persistMobileAttestKey now keys keyId a) =
     (if keyId \<in> ak_keyId ` set keys then map ak_keyId keys else map ak_keyId keys @ [keyId])"
    by (auto simp: persistMobileAttestKey_def Let_def list_ex_iff)
  assume k: "k \<in> set (persistMobileAttestKey now keys keyId a)"
  show "(k \<in> set keys \<and> ak_keyId k \<noteq> keyId) \<or>
     (ak_keyId k = keyId \<and> ak_publicKeyCose k = Some (bytesToBase64 (at_publicKeyCose a)) \<and> ak_counter k = int (at_counter a))"
  proof (cases "list_ex (\<lambda>k. ak_keyId k = keyId) keys")
    case True
    with k obtain k0 where "k0 \<in> set keys" "k = (if ak_keyId k0 = keyId
        then k0\<lparr>ak_publicKeyCose := Some (bytesToBase64 (at_publicKeyCose a)), ak_counter := int (at_counter a),
                ak_receipt := Some (bytesToBase64 (at_receipt a)), ak_receiptRefreshedAt := None, ak_riskMetric := None,
                ak_lastUsedAt := now\<rparr> else k0)"
      by (auto simp: persistMobileAttestKey_def Let_def in_update_attest_keys)
    then show ?thesis by (cases "ak_keyId k0 = keyId") simp_all
  qed (use k in \<open>auto simp: persistMobileAttestKey_def Let_def list_ex_iff\<close>)
qed

lemma persist_step_ok:
  assumes ok: "attest_ok ap environment s" and p: "p \<in> set (am_registrations s)"
  shows "attest_ok ap environment (persist_step s p)"
proof -
  let ?e = "Registration (pr_challenge p) (pr_keyId p) (at_publicKeyCose (pr_attested p))"
  let ?keys = "persistMobileAttestKey (am_now s) (am_keys s) (pr_keyId p) (pr_attested p)"
  from p obtain ps qs where l: "am_registrations s = ps @ p # qs" "p \<notin> set ps" by (meson split_list_first)
  from ok have c: "challenges_ok s" by (simp add: attest_ok_def)
  have "challenges_ok (persist_step s p) \<longleftrightarrow> challenges_ok s"
    by (rule challenges_cong) (auto simp: persist_step_def l remove1_append)
  with c have "challenges_ok (persist_step s p)" by blast
  moreover have "distinct (map ak_keyId ?keys)" using ok by (auto simp: persisted_rows attest_ok_def)
  moreover have "attest_row_ok (am_log s @ [?e]) k" if "k \<in> set ?keys" for k
    using persisted_rows(2) [OF that] ok
    by (auto simp: attest_ok_def attest_row_ok_def registered_def split: if_splits)
  moreover have "event_ok ap environment (am_log s @ [?e]) ?e" using ok p by (simp add: attest_ok_def event_ok_def)
  ultimately show ?thesis
    using ok
    by (auto simp: persist_step_def attest_ok_def intro: gate_ok_mono event_ok_mono dest: set_remove1_subset [THEN subsetD])
qed

section \<open>Every step\<close>

lemma refresh_row_keys:
  "\<exists>f. (\<forall>k. ak_keyId (f k) = ak_keyId k \<and> ak_publicKeyCose (f k) = ak_publicKeyCose k \<and> ak_counter (f k) = ak_counter k) \<and>
     fst (refresh_row post now (keys, stats) row) = map f keys"
proof -
  have k: "\<exists>f. (\<forall>k. ak_keyId (f k) = ak_keyId k \<and> ak_publicKeyCose (f k) = ak_publicKeyCose k \<and> ak_counter (f k) = ak_counter k) \<and>
      update_attest_keys keys cond g = map f keys"
    if "\<And>k. ak_keyId (g k) = ak_keyId k \<and> ak_publicKeyCose (g k) = ak_publicKeyCose k \<and> ak_counter (g k) = ak_counter k" for cond g
    using that unfolding update_attest_keys_def by (intro exI [of _ "\<lambda>k. if cond k then g k else k"]) simp
  have "\<exists>f. (\<forall>k. ak_keyId (f k) = ak_keyId k \<and> ak_publicKeyCose (f k) = ak_publicKeyCose k \<and> ak_counter (f k) = ak_counter k) \<and>
      keys = map f keys"
    by (intro exI [of _ id]) simp
  then show ?thesis
    by (auto simp: refresh_row_def intro!: k split: option.split)
qed

lemma attest_step_ok: "attest_step ap mac environment s s' \<Longrightarrow> attest_ok ap environment s \<Longrightarrow> attest_ok ap environment s'"
proof (induction rule: attest_step.induct)
  case (Clock s now)
  then show ?case by (simp add: attest_ok_def challenges_ok_def)
next
  case (Refresh s post stats row)
  obtain f where f: "\<forall>k. ak_keyId (f k) = ak_keyId k \<and> ak_publicKeyCose (f k) = ak_publicKeyCose k \<and> ak_counter (f k) = ak_counter k"
    and r: "fst (refresh_row post (am_now s) (am_keys s, stats) row) = map f (am_keys s)"
    using refresh_row_keys by meson
  from f have "map ak_keyId (map f (am_keys s)) = map ak_keyId (am_keys s)" by simp
  then have "distinct (map ak_keyId (map f (am_keys s)))" using Refresh by (simp only: attest_ok_def)
  with Refresh f r show ?case
    by (intro attest_ok_keys) (auto simp: attest_ok_def intro: attest_row_ok_same)
next
  case (Forget s P)
  then show ?case by (intro attest_ok_keys) (auto simp: attest_ok_def distinct_map_filter)
qed (simp_all add: issue_step_ok begin_step_ok persist_step_ok gate_step_ok attest_ok_gate hello_gate nfc_gate)

lemma initial_attest_ok: "attest_ok ap environment (initial_attest now)"
  by (simp add: attest_ok_def initial_attest_def challenges_ok_def)

lemma reachable_attest_ok: "attest_reachable ap mac environment s \<Longrightarrow> attest_ok ap environment s"
  by (induction rule: attest_reachable.induct) (auto intro: initial_attest_ok attest_step_ok)

end
