(* ===== verification/Attest_Laws.thy ===== *)
theory Attest_Laws
  imports App_Attest
begin

text \<open>
  Laws of the formats of App Attest: the layout of the authenticator data that the checks of an
  attestation describe, DER signatures and Apple's extension with the nonce.
\<close>

section \<open>Authenticator data of an attestation\<close>

lemma attest_offsets:
  "AUTH_DATA_RP_ID_HASH_OFFSET = 0" "AUTH_DATA_FLAGS_OFFSET = 32" "AUTH_DATA_COUNTER_OFFSET = 33"
  "AUTH_DATA_AAGUID_OFFSET = 37" "AUTH_DATA_CRED_ID_LEN_OFFSET = 53" "AUTH_DATA_CRED_ID_OFFSET = 55"
  by (simp_all add: AUTH_DATA_RP_ID_HASH_OFFSET_def AUTH_DATA_FLAGS_OFFSET_def AUTH_DATA_COUNTER_OFFSET_def
      AUTH_DATA_AAGUID_OFFSET_def AUTH_DATA_CRED_ID_LEN_OFFSET_def AUTH_DATA_CRED_ID_OFFSET_def)

text \<open>What an attestation adds to the authenticator data: the environment, the identifier and the key.\<close>

definition attested_data :: "bytes \<Rightarrow> bytes \<Rightarrow> bytes \<Rightarrow> bytes" where
  "attested_data aaguid credentialId cose =
     aaguid @ of_nat (length credentialId div 256) # of_nat (length credentialId mod 256) # credentialId @ cose"

lemma length_aaguid: "length (expectedAaguidForEnvironment environment) = 16"
  by (simp add: expectedAaguidForEnvironment_def AAGUID_PRODUCTION_def AAGUID_DEVELOPMENT_def utf8FixedLength_def
      ascii_bytes_def Let_def)

lemma credential_id_iff:
  assumes "55 \<le> length authData"
  shows "readAuthDataCredentialId authData = Some (credentialId, endOffset) \<and> drop endOffset authData = cose \<longleftrightarrow>
    length credentialId < 65536 \<and> endOffset = 55 + length credentialId \<and>
    drop 53 authData =
      of_nat (length credentialId div 256) # of_nat (length credentialId mod 256) # credentialId @ cose"
proof -
  have "Suc (Suc 0) \<le> length (drop 53 authData)" using assms by simp
  then obtain hi lo rest where d: "drop 53 authData = hi # lo # rest" by (metis Suc_le_length_iff)
  then have hi: "authData ! 53 = hi" and lo: "authData ! 54 = lo" and rest: "drop 55 authData = rest"
    using assms nth_via_drop [of 53 authData hi] Cons_nth_drop_Suc [of 53 authData] nth_via_drop [of 54 authData lo]
      drop_drop [of 2 53 authData]
    by (auto simp: numeral_eq_Suc)
  let ?n = "unat hi * 256 + unat lo"
  have len: "length authData = 55 + length rest" using rest assms by auto
  have n: "?n < 65536" using unat_byte_lt [of hi] unat_byte_lt [of lo] by linarith
  have r: "readAuthDataCredentialId authData =
      (if length rest < ?n then None else Some (take ?n rest, 55 + ?n))"
    using assms hi lo rest len
    by (simp add: readAuthDataCredentialId_def at_opt_def attest_offsets js_slice_def Let_def)
  have dr: "drop (55 + ?n) authData = drop ?n rest"
    using rest by (metis add.commute drop_drop)
  show ?thesis
  proof
    assume l: "readAuthDataCredentialId authData = Some (credentialId, endOffset) \<and> drop endOffset authData = cose"
    with r have e: "credentialId = take ?n rest" "endOffset = 55 + ?n" "?n \<le> length rest" by (auto split: if_splits)
    with l dr have "rest = credentialId @ cose" by (metis append_take_drop_id)
    moreover from e have "length credentialId = ?n" by simp
    moreover have "of_nat (?n div 256) = hi" "of_nat (?n mod 256) = lo"
      using unat_byte_lt [of lo] by simp_all
    ultimately show "length credentialId < 65536 \<and> endOffset = 55 + length credentialId \<and>
      drop 53 authData = of_nat (length credentialId div 256) # of_nat (length credentialId mod 256) # credentialId @ cose"
      using e n d by simp
  next
    assume a: "length credentialId < 65536 \<and> endOffset = 55 + length credentialId \<and>
      drop 53 authData = of_nat (length credentialId div 256) # of_nat (length credentialId mod 256) # credentialId @ cose"
    with d have p: "hi = of_nat (length credentialId div 256)" "lo = of_nat (length credentialId mod 256)"
        "rest = credentialId @ cose"
      by simp_all
    have "unat hi = length credentialId div 256" "unat lo = length credentialId mod 256"
      using a p(1,2) by (simp_all add: unat_of_nat less_mult_imp_div_less)
    then have "?n = length credentialId" by simp
    with a p(3) r dr show "readAuthDataCredentialId authData = Some (credentialId, endOffset) \<and> drop endOffset authData = cose"
      by auto
  qed
qed

text \<open>The checks of the authenticator data at their offsets say how it is put together.\<close>

lemma attested_layout:
  assumes "length h = 32" "length g = 16" "length credentialId < 65536"
  shows "55 \<le> length authData \<and> js_slice authData 0 32 = h \<and> readAuthDataCounter authData = 0 \<and>
      js_slice authData 37 53 = g \<and>
      (\<exists>endOffset. readAuthDataCredentialId authData = Some (credentialId, endOffset) \<and> drop endOffset authData = cose) \<longleftrightarrow>
    (\<exists>flags. authData = auth_data h flags [0, 0, 0, 0] (attested_data g credentialId cose))"
proof
  assume a: "55 \<le> length authData \<and> js_slice authData 0 32 = h \<and> readAuthDataCounter authData = 0 \<and>
      js_slice authData 37 53 = g \<and>
      (\<exists>endOffset. readAuthDataCredentialId authData = Some (credentialId, endOffset) \<and> drop endOffset authData = cose)"
  then have l: "37 \<le> length authData" by simp
  have "be_nat (js_slice authData 33 37) = be_nat [0, 0, 0, 0]"
    using a counter_bytes [OF l] by (simp add: be_nat_Cons)
  then have counter: "js_slice authData 33 37 = [0, 0, 0, 0]"
    using a by (intro be_nat_inj) (auto simp: slice_simps min_def)
  have tail: "drop 53 authData =
      of_nat (length credentialId div 256) # of_nat (length credentialId mod 256) # credentialId @ cose"
    using a credential_id_iff by blast
  have "authData = take 32 authData @ authData ! 32 # drop 33 authData"
    using l id_take_nth_drop [of 32 authData] by simp
  also have "drop 33 authData = take 4 (drop 33 authData) @ drop 37 authData"
    using append_take_drop_id [of 4 "drop 33 authData"] by simp
  also have "drop 37 authData = take 16 (drop 37 authData) @ drop 53 authData"
    using append_take_drop_id [of 16 "drop 37 authData"] by simp
  finally have "authData = auth_data h (authData ! 32) [0, 0, 0, 0] (attested_data g credentialId cose)"
    using a counter tail by (simp add: auth_data_def attested_data_def js_slice_def)
  then show "\<exists>flags. authData = auth_data h flags [0, 0, 0, 0] (attested_data g credentialId cose)" ..
next
  assume "\<exists>flags. authData = auth_data h flags [0, 0, 0, 0] (attested_data g credentialId cose)"
  then obtain flags where e: "authData = auth_data h flags [0, 0, 0, 0] (attested_data g credentialId cose)" ..
  have len: "55 \<le> length authData" using assms by (simp add: e auth_data_def attested_data_def)
  have "drop 53 authData =
      of_nat (length credentialId div 256) # of_nat (length credentialId mod 256) # credentialId @ cose"
    using assms by (simp add: e auth_data_def attested_data_def)
  with len assms(3) have "readAuthDataCredentialId authData = Some (credentialId, 55 + length credentialId) \<and>
      drop (55 + length credentialId) authData = cose"
    using credential_id_iff by blast
  moreover have "js_slice authData 37 53 = g"
    using assms by (simp add: e auth_data_def attested_data_def js_slice_def)
  ultimately show "55 \<le> length authData \<and> js_slice authData 0 32 = h \<and> readAuthDataCounter authData = 0 \<and>
      js_slice authData 37 53 = g \<and>
      (\<exists>endOffset. readAuthDataCredentialId authData = Some (credentialId, endOffset) \<and> drop endOffset authData = cose)"
    using len assms auth_data_parts [of h "[0, 0, 0, 0]" flags "attested_data g credentialId cose"]
    by (auto simp: e be_nat_Cons)
qed

text \<open>What the checks after the chain accept.\<close>

lemma verify_auth_data_iff:
  assumes "\<And>x. length (ap_sha256 ap x) = 32"
  shows "verify_auth_data ap environment keyId clientDataHash credCert decoded = Inr a \<longleftrightarrow>
    (\<exists>flags cose key.
       ac_authData decoded = auth_data (computeAppAttestRpIdHash ap) flags [0, 0, 0, 0]
         (attested_data (expectedAaguidForEnvironment environment) keyId cose) \<and>
       keyId = ap_sha256 ap (xc_subjectPublicKey credCert) \<and>
       extractAppleNonceExtension credCert = Some (ap_sha256 ap (ac_authData decoded @ clientDataHash)) \<and>
       parseCoseEc2Key cose = Inr key \<and>
       a = \<lparr>at_publicKeyCose = cose, at_receipt = ac_receipt decoded, at_counter = 0\<rparr>)"
proof -
  have layout: "keyId = ap_sha256 ap (xc_subjectPublicKey credCert) \<Longrightarrow>
      (55 \<le> length (ac_authData decoded) \<and> js_slice (ac_authData decoded) 0 32 = computeAppAttestRpIdHash ap \<and>
       readAuthDataCounter (ac_authData decoded) = 0 \<and>
       js_slice (ac_authData decoded) 37 53 = expectedAaguidForEnvironment environment \<and>
       (\<exists>endOffset. readAuthDataCredentialId (ac_authData decoded) = Some (keyId, endOffset) \<and>
          drop endOffset (ac_authData decoded) = cose)) \<longleftrightarrow>
      (\<exists>flags. ac_authData decoded = auth_data (computeAppAttestRpIdHash ap) flags [0, 0, 0, 0]
         (attested_data (expectedAaguidForEnvironment environment) keyId cose))" for cose
    by (rule attested_layout) (simp_all add: assms length_aaguid computeAppAttestRpIdHash_def)
  have "verify_auth_data ap environment keyId clientDataHash credCert decoded = Inr a \<longleftrightarrow>
    (\<exists>cose key.
      (55 \<le> length (ac_authData decoded) \<and> js_slice (ac_authData decoded) 0 32 = computeAppAttestRpIdHash ap \<and>
       readAuthDataCounter (ac_authData decoded) = 0 \<and>
       js_slice (ac_authData decoded) 37 53 = expectedAaguidForEnvironment environment \<and>
       (\<exists>endOffset. readAuthDataCredentialId (ac_authData decoded) = Some (keyId, endOffset) \<and>
          drop endOffset (ac_authData decoded) = cose)) \<and>
       keyId = ap_sha256 ap (xc_subjectPublicKey credCert) \<and>
       extractAppleNonceExtension credCert = Some (ap_sha256 ap (ac_authData decoded @ clientDataHash)) \<and>
       parseCoseEc2Key cose = Inr key \<and>
       a = \<lparr>at_publicKeyCose = cose, at_receipt = ac_receipt decoded, at_counter = 0\<rparr>)"
    by (auto simp: verify_auth_data_def Let_def attest_offsets exportSubjectPublicKey_def
        split: if_splits option.splits sum.splits)
  also have "\<dots> \<longleftrightarrow> (\<exists>flags cose key.
       ac_authData decoded = auth_data (computeAppAttestRpIdHash ap) flags [0, 0, 0, 0]
         (attested_data (expectedAaguidForEnvironment environment) keyId cose) \<and>
       keyId = ap_sha256 ap (xc_subjectPublicKey credCert) \<and>
       extractAppleNonceExtension credCert = Some (ap_sha256 ap (ac_authData decoded @ clientDataHash)) \<and>
       parseCoseEc2Key cose = Inr key \<and>
       a = \<lparr>at_publicKeyCose = cose, at_receipt = ac_receipt decoded, at_counter = 0\<rparr>)"
    using layout by blast
  finally show ?thesis .
qed

section \<open>Signatures\<close>

text \<open>DER: an integer has as few bytes as it can, and a zero in front when its first bit is set.\<close>

definition der_unsigned :: "bytes \<Rightarrow> bytes" where
  "der_unsigned bs = (let t = trimLeadingZero bs in if 128 \<le> unat (hd t) then 0 # t else t)"

definition der_signature :: "bytes \<Rightarrow> bytes \<Rightarrow> bytes" where
  "der_signature r s =
     (let ri = der_unsigned r; si = der_unsigned s
      in 0x30 # of_nat (4 + length ri + length si) # 2 # of_nat (length ri) # ri @ 2 # of_nat (length si) # si)"

lemma trim_replicate: "\<exists>n. bs = replicate n 0 @ trimLeadingZero bs"
proof (induction bs rule: trimLeadingZero.induct)
  case (1 b c bs)
  show ?case
  proof (cases "b = 0")
    case True
    with 1 obtain n where "c # bs = replicate n 0 @ trimLeadingZero (c # bs)" by blast
    with True show ?thesis by (intro exI [of _ "Suc n"]) simp
  qed (auto intro: exI [of _ 0])
qed (auto intro: exI [of _ 0])

lemma trim_nonempty: "bs \<noteq> [] \<Longrightarrow> trimLeadingZero bs \<noteq> []"
  by (induction bs rule: trimLeadingZero.induct) auto

lemma der_unsigned_pads:
  assumes "length bs = 32"
  shows "leftPadOrTrim (der_unsigned bs) 32 = Inr bs" "1 \<le> length (der_unsigned bs)" "length (der_unsigned bs) \<le> 33"
proof -
  obtain n where n: "bs = replicate n 0 @ trimLeadingZero bs" using trim_replicate by blast
  have ne: "trimLeadingZero bs \<noteq> []" using assms by (intro trim_nonempty) auto
  have "length bs = n + length (trimLeadingZero bs)" by (subst n) simp
  with assms have l: "length (trimLeadingZero bs) = 32 - n" "n \<le> 32" "length (trimLeadingZero bs) \<le> 32" by simp_all
  from ne l(3) show "1 \<le> length (der_unsigned bs)" "length (der_unsigned bs) \<le> 33"
    by (simp_all add: der_unsigned_def Let_def Suc_le_eq)
  have "leftPadOrTrim (if c then 0 # t else t) 32 = Inr (replicate n 0 @ t)"
    if "length t = 32 - n" "n \<le> 32" for c and t :: bytes
  proof (cases n)
    case (Suc m)
    have "replicate (Suc m) 0 @ t = replicate m 0 @ 0 # t" by (simp add: replicate_app_Cons_same)
    with Suc that show ?thesis by (cases m) (auto simp: leftPadOrTrim_def)
  qed (use that in \<open>simp add: leftPadOrTrim_def\<close>)
  from this [OF l(1,2)] n show "leftPadOrTrim (der_unsigned bs) 32 = Inr bs"
    by (simp add: der_unsigned_def Let_def)
qed

lemma der_parts:
  assumes "\<not> length der < 8" "der ! 0 = 0x30" "\<not> 128 \<le> unat (der ! 1)" "at_opt der 2 = Some 2" "at_opt der 3 = Some rLen"
    and "at_opt der (4 + unat rLen) = Some 2" "at_opt der (4 + unat rLen + 1) = Some sLen"
  shows "derEcdsaToRaw der n =
    rbind (leftPadOrTrim (js_slice der 4 (4 + unat rLen)) n) (\<lambda>r.
    rbind (leftPadOrTrim (js_slice der (4 + unat rLen + 2) (4 + unat rLen + 2 + unat sLen)) n) (\<lambda>s. Inr (r @ s)))"
  using assms by (simp add: derEcdsaToRaw_def Let_def at_opt_def)

text \<open>Every signature of P-256 in DER reads as its two coordinates, 32 bytes each.\<close>

lemma der_signature_reads_back:
  assumes "length r = 32" "length s = 32"
  shows "derEcdsaToRaw (der_signature r s) 32 = Inr (r @ s)"
proof -
  let ?r = "der_unsigned r" and ?s = "der_unsigned s"
  let ?der = "der_signature r s"
  note b = der_unsigned_pads [OF assms(1)] der_unsigned_pads [OF assms(2)]
  have len: "length ?der = 6 + length ?r + length ?s" by (simp add: der_signature_def Let_def)
  have n: "unat (of_nat (length ?r) :: byte) = length ?r" "unat (of_nat (length ?s) :: byte) = length ?s"
      "unat (of_nat (4 + length ?r + length ?s) :: byte) = 4 + length ?r + length ?s"
    using b by (auto intro!: unat_small simp del: of_nat_add)
  have at0: "?der ! 0 = 0x30" "?der ! 1 = of_nat (4 + length ?r + length ?s)" "at_opt ?der 2 = Some 2"
      "at_opt ?der 3 = Some (of_nat (length ?r))"
    by (simp_all add: der_signature_def Let_def at_opt_def)
  have at1: "at_opt ?der (4 + length ?r) = Some 2" "at_opt ?der (4 + length ?r + 1) = Some (of_nat (length ?s))"
    by (simp_all add: der_signature_def Let_def at_opt_def nth_append)
  have r: "js_slice ?der 4 (4 + length ?r) = ?r" by (simp add: der_signature_def Let_def js_slice_def)
  have "?der = ([0x30, of_nat (4 + length ?r + length ?s), 2, of_nat (length ?r)] @ ?r @ [2, of_nat (length ?s)]) @ ?s @ []"
    by (simp add: der_signature_def Let_def)
  then have s: "js_slice ?der (4 + length ?r + 2) (4 + length ?r + 2 + length ?s) = ?s"
    using slice_append_exact [of "[0x30, of_nat (4 + length ?r + length ?s), 2, of_nat (length ?r)] @ ?r @ [2, of_nat (length ?s)]"
        "4 + length ?r + 2" ?s "length ?s" "4 + length ?r + 2 + length ?s" "[]"]
    by simp
  have "\<not> length ?der < 8" "\<not> 128 \<le> unat (?der ! 1)" using b len n(3) at0(2) by simp_all
  from der_parts [OF this(1) at0(1) this(2) at0(3,4)] at1 r s n b(1,4) show ?thesis by simp
qed

section \<open>Apple's nonce\<close>

text \<open>The extension is a sequence with a tagged octet string of 32 bytes; the scan finds these.\<close>

lemma nonce_read_back:
  assumes "length nonce = 32"
  shows "findInnerOctetString (0x30 # 0x24 # 0xa1 # 0x22 # 4 # 32 # nonce) 32 = Some nonce"
  using assms by simp

end
