(* ===== verification/Attest_Samples.thy ===== *)
theory Attest_Samples
  imports Attest_Invariants Attest_Laws
begin

text \<open>A device that registers a key and says hello with it, on a platform whose functions are small.\<close>

lemma decode_encoded: "cbor_ok v \<Longrightarrow> decodeCbor (encodeCbor v) 0 = Inr (v, length (encodeCbor v))"
proof -
  assume "cbor_ok v"
  from encoded_reads_back [OF this, unfolded reads_back_def, rule_format, of "[]" "[]"] show ?thesis by simp
qed

section \<open>The root certificate\<close>

lemma drop_first_at:
  assumes "d \<notin> set pre"
  shows "drop_first (d # ds) (pre @ d # ds @ post) = pre @ post"
  using assms by (induction pre) auto

lemma filter_lines:
  "\<forall>l \<in> set ls. \<forall>c \<in> set l. P c \<Longrightarrow> \<not> P d \<Longrightarrow> filter P (concat (map (\<lambda>l. l @ [d]) ls)) = concat ls"
  by (induction ls) (simp_all add: filter_id_conv)

definition pem_body :: "string list" where
  "pem_body = butlast (tl PEM_LINES)"

lemma pem_lines: "PEM_LINES = ''-----BEGIN CERTIFICATE-----'' # pem_body @ [''-----END CERTIFICATE-----'']"
  by (simp add: pem_body_def PEM_LINES_def)

lemma pem_body_chars: "list_all (\<lambda>c. c \<in> set BASE64_ALPHABET) (concat pem_body)"
  by (simp add: pem_body_def PEM_LINES_def BASE64_ALPHABET_def)

lemma pem_body_length: "length (concat pem_body) mod 4 = 0"
  by (simp add: pem_body_def PEM_LINES_def)

lemma alphabet_chars: "list_all (\<lambda>c. \<not> is_js_space c \<and> c \<notin> {CHR ''-'', CHR ''='', CHR '' '', CHR 0x09, CHR 0x0A, CHR 0x0C, CHR 0x0D}) BASE64_ALPHABET"
  by code_simp

lemma alphabet_reads:
  assumes "list_all (\<lambda>c. c \<in> set BASE64_ALPHABET) s" "length s mod 4 = 0"
  shows "atob s \<noteq> None"
proof -
  have c: "\<forall>c \<in> set s. c \<notin> {CHR ''='', CHR '' '', CHR 0x09, CHR 0x0A, CHR 0x0C, CHR 0x0D}"
    using assms(1) alphabet_chars unfolding list_all_iff by blast
  then have "filter (\<lambda>c. c \<notin> set [CHR '' '', CHR 0x09, CHR 0x0A, CHR 0x0C, CHR 0x0D]) s = s"
    by (intro filter_True) auto
  moreover have "drop_padding s = s"
  proof (cases "rev s")
    case (Cons a r)
    then have "a \<in> set s" by (metis list.set_intros(1) set_rev)
    with c Cons show ?thesis by (auto simp: drop_padding_def split: list.splits)
  qed (simp add: drop_padding_def)
  ultimately show ?thesis using assms by (simp add: atob_def Let_def)
qed

text \<open>The pinned root certificate reads: the code never fails on it unless the platform's parser does.\<close>

lemma root_certificate_reads:
  "\<exists>der. parseRootCertFromPem ap APPLE_APP_ATTEST_ROOT_CA_PEM = ap_certificate ap der"
proof -
  let ?nl = "CHR 0x0A"
  let ?lines = "concat (map (\<lambda>l. l @ [?nl]) pem_body)"
  have chars: "\<forall>c \<in> set (concat pem_body). \<not> is_js_space c \<and> c \<noteq> CHR ''-''"
    using pem_body_chars alphabet_chars unfolding list_all_iff by blast
  then have no: "CHR ''-'' \<notin> set (?nl # ?lines)" by auto
  let ?rest = "(?nl # ?lines) @ CHR ''-'' # ''----END CERTIFICATE-----'' @ [?nl]"
  have pem: "APPLE_APP_ATTEST_ROOT_CA_PEM = [] @ CHR ''-'' # ''----BEGIN CERTIFICATE-----'' @ ?rest"
    unfolding APPLE_APP_ATTEST_ROOT_CA_PEM_def pem_lines by simp
  have "drop_first ''-----BEGIN CERTIFICATE-----'' APPLE_APP_ATTEST_ROOT_CA_PEM = [] @ ?rest"
    unfolding pem by (rule drop_first_at) simp
  moreover have "drop_first ''-----END CERTIFICATE-----'' ?rest = (?nl # ?lines) @ [?nl]"
    by (rule drop_first_at) (rule no)
  ultimately have "drop_first ''-----END CERTIFICATE-----'' (drop_first ''-----BEGIN CERTIFICATE-----'' APPLE_APP_ATTEST_ROOT_CA_PEM) =
      (?nl # ?lines) @ [?nl]"
    by simp
  moreover have "filter (\<lambda>c. \<not> is_js_space c) ?lines = concat pem_body"
    using chars by (intro filter_lines) (auto simp: is_js_space_def)
  moreover have "is_js_space ?nl" by (simp add: is_js_space_def)
  ultimately have "filter (\<lambda>c. \<not> is_js_space c) (drop_first ''-----END CERTIFICATE-----''
      (drop_first ''-----BEGIN CERTIFICATE-----'' APPLE_APP_ATTEST_ROOT_CA_PEM)) = concat pem_body"
    by simp
  moreover from alphabet_reads [OF pem_body_chars pem_body_length] obtain der where "atob (concat pem_body) = Some der" by auto
  ultimately show ?thesis by (auto simp: parseRootCertFromPem_def base64ToBytes_def)
qed

section \<open>The platform and the device\<close>

definition toy_sha256 :: "bytes \<Rightarrow> bytes" where
  "toy_sha256 bs = take 32 (bs @ replicate 32 0)"

definition demo_key_id :: bytes where "demo_key_id = replicate 32 5"
definition demo_rp_hash :: bytes where "demo_rp_hash = toy_sha256 (ascii_bytes APP_ATTEST_RP_ID)"

definition demo_certificate :: x5c_certificate where
  "demo_certificate =
     \<lparr>xc_extensions = [(APPLE_NONCE_EXTENSION_OID, 0x30 # 0x24 # 0xa1 # 0x22 # 4 # 32 # demo_rp_hash)],
      xc_subjectPublicKey = demo_key_id\<rparr>"

definition demo_attest_platform :: attest_platform where
  "demo_attest_platform =
     \<lparr>ap_sha256 = toy_sha256, ap_certificate = (\<lambda>_. Some demo_certificate), ap_chain_valid = (\<lambda>_ _. True),
      ap_p256_verify = (\<lambda>_ _ _ _. Some True)\<rparr>"

lemma toy_sha256_length [simp]: "length (toy_sha256 bs) = 32"
  by (simp add: toy_sha256_def)

lemma demo_rp: "computeAppAttestRpIdHash demo_attest_platform = demo_rp_hash" "length demo_rp_hash = 32"
  by (simp_all add: computeAppAttestRpIdHash_def demo_attest_platform_def demo_rp_hash_def)

definition demo_cose_value :: cbor where
  "demo_cose_value =
     CMap [(CNum 1, CNum 2), (CNum 3, CNum (- 7)), (CNum (- 1), CNum 1), (CNum (- 2), CBytes (replicate 32 1)),
           (CNum (- 3), CBytes (replicate 32 2))]"

definition demo_cose :: bytes where "demo_cose = encodeCbor demo_cose_value"

definition demo_auth_data :: bytes where
  "demo_auth_data =
     auth_data demo_rp_hash 0x40 [0, 0, 0, 0]
       (attested_data (expectedAaguidForEnvironment Env_production) demo_key_id demo_cose)"

definition demo_attestation_value :: cbor where
  "demo_attestation_value =
     CMap [(CText (text_of ''fmt''), CText (text_of ''apple-appattest'')),
           (CText (text_of ''attStmt''), CMap [(CText (text_of ''x5c''), CArr [CBytes [1]]), (CText (text_of ''receipt''), CBytes [9])]),
           (CText (text_of ''authData''), CBytes demo_auth_data)]"

definition demo_attestation :: bytes where "demo_attestation = encodeCbor demo_attestation_value"

definition demo_assertion_value :: cbor where
  "demo_assertion_value =
     CMap [(CText (text_of ''signature''), CBytes (der_signature (replicate 32 3) (replicate 32 0xff))),
           (CText (text_of ''authenticatorData''), CBytes (auth_data demo_rp_hash 0x40 [0, 0, 0, 1] []))]"

definition demo_assertion :: bytes where "demo_assertion = encodeCbor demo_assertion_value"

lemma demo_cose_parses: "parseCoseEc2Key demo_cose = Inr (replicate 32 1, replicate 32 2)"
proof -
  have "cbor_ok demo_cose_value" by (simp add: demo_cose_value_def distinct_keys_def)
  from decode_encoded [OF this] show ?thesis
    by (simp add: parseCoseEc2Key_def cose_root_def demo_cose_def demo_cose_value_def coseGet_def
        COSE_EC2_KTY_def COSE_ALG_ES256_def COSE_CRV_P256_def guard_err_def)
qed

lemma demo_lengths: "length demo_cose = 77" "length demo_auth_data = 164"
  by (simp_all add: demo_cose_def demo_cose_value_def cbor_head_def demo_auth_data_def auth_data_def attested_data_def
      length_aaguid demo_rp demo_key_id_def)

lemma demo_attestation_decodes:
  "decodeAttestationCbor demo_attestation =
     Inr \<lparr>ac_fmt = text_of ''apple-appattest'', ac_x5c = [[1]], ac_receipt = [9], ac_authData = demo_auth_data\<rparr>"
proof -
  have "cbor_ok demo_attestation_value"
    by (simp add: demo_attestation_value_def distinct_keys_def demo_lengths text_of_def)
  from decode_encoded [OF this] show ?thesis
    by (simp add: decodeAttestationCbor_def decode_root_def demo_attestation_def demo_attestation_value_def mapGet_def text_of_def)
qed

lemma demo_assertion_decodes:
  "decodeAssertionCbor demo_assertion =
     Inr \<lparr>as_signature = der_signature (replicate 32 3) (replicate 32 0xff),
          as_authenticatorData = auth_data demo_rp_hash 0x40 [0, 0, 0, 1] []\<rparr>"
proof -
  have "length (der_signature (replicate 32 3) (replicate 32 0xff)) < 2 ^ 32"
    using der_unsigned_pads(3) [of "replicate 32 3"] der_unsigned_pads(3) [of "replicate 32 0xff"]
    by (simp add: der_signature_def Let_def)
  then have "cbor_ok demo_assertion_value"
    by (simp add: demo_assertion_value_def distinct_keys_def text_of_def auth_data_def demo_rp)
  from decode_encoded [OF this] show ?thesis
    by (simp add: decodeAssertionCbor_def decode_root_def demo_assertion_def demo_assertion_value_def mapGet_def text_of_def)
qed

section \<open>A registration and a hello\<close>

lemma length_btoa: "length (btoa bs) = (length bs + 2) div 3 * 4"
  by (induction bs rule: btoa.induct) (simp_all, presburger)

lemma length_demo_attestation: "0 < length demo_attestation" "length demo_attestation < 1000"
  by (simp_all add: demo_attestation_def demo_attestation_value_def cbor_head_def text_of_def demo_lengths)

definition demo_challenge_bytes :: bytes where "demo_challenge_bytes = replicate 32 3"
definition demo_challenge :: string where "demo_challenge = attest_bytesToBase64Url demo_challenge_bytes"
definition demo_key_text :: string where "demo_key_text = attest_bytesToBase64Url demo_key_id"

definition demo_body :: register_body where
  "demo_body = \<lparr>rb_key_id = demo_key_text, rb_attestation = bytesToBase64 demo_attestation, rb_challenge = demo_challenge\<rparr>"

definition demo_attested :: attested where
  "demo_attested = \<lparr>at_publicKeyCose = demo_cose, at_receipt = [9], at_counter = 0\<rparr>"

definition demo_registration :: pending_registration where
  "demo_registration = \<lparr>pr_challenge = demo_challenge, pr_keyId = demo_key_text, pr_attested = demo_attested\<rparr>"

lemma demo_text_lengths: "length demo_challenge = 43" "list_all base64url_char demo_challenge" "length demo_key_text = 43"
  by code_simp+

lemma demo_schema: "registerBodySchema demo_body"
proof -
  have "1 \<le> (length demo_attestation + 2) div 3" "(length demo_attestation + 2) div 3 \<le> 21847"
    using length_demo_attestation by linarith+
  then show ?thesis
    by (simp add: registerBodySchema_def demo_body_def demo_text_lengths bytesToBase64_def length_btoa
        MAX_ATTESTATION_BASE64_LENGTH_def ATTEST_CHALLENGE_BASE64URL_LENGTH_def)
qed

lemma toy_sha256_prefix: "length h = 32 \<Longrightarrow> toy_sha256 (h @ rest) = h"
  by (simp add: toy_sha256_def)

lemma demo_attests:
  "verifyAttestation demo_attest_platform Env_production demo_key_id demo_attestation clientDataHash = Attested demo_attested"
proof -
  let ?ap = demo_attest_platform
  obtain der where root: "parseRootCertFromPem ?ap APPLE_APP_ATTEST_ROOT_CA_PEM = ap_certificate ?ap der"
    using root_certificate_reads by blast
  have sha: "length (ap_sha256 ?ap x) = 32" for x by (simp add: demo_attest_platform_def)
  have nonce: "ap_sha256 ?ap (demo_auth_data @ clientDataHash) = demo_rp_hash"
    using toy_sha256_prefix [OF demo_rp(2)] by (simp add: demo_attest_platform_def demo_auth_data_def auth_data_def)
  have "extractAppleNonceExtension demo_certificate = Some demo_rp_hash"
    using nonce_read_back [OF demo_rp(2)] by (simp add: extractAppleNonceExtension_def demo_certificate_def)
  moreover have "demo_key_id = ap_sha256 ?ap (xc_subjectPublicKey demo_certificate)"
    by (simp add: demo_attest_platform_def toy_sha256_def demo_certificate_def demo_key_id_def)
  ultimately have "verify_auth_data ?ap Env_production demo_key_id clientDataHash demo_certificate
      \<lparr>ac_fmt = text_of ''apple-appattest'', ac_x5c = [[1]], ac_receipt = [9], ac_authData = demo_auth_data\<rparr> = Inr demo_attested"
    unfolding verify_auth_data_iff [OF sha]
    by (intro exI [of _ "0x40"] exI [of _ demo_cose] exI [of _ "(replicate 32 1, replicate 32 2)"])
      (simp add: demo_cose_parses demo_rp demo_auth_data_def nonce [unfolded demo_auth_data_def] demo_attested_def)
  with root show ?thesis
    by (simp add: verifyAttestation_def demo_attestation_decodes APP_ATTEST_FMT_def demo_attest_platform_def)
qed

definition demo_issued :: attest_state where
  "demo_issued = issue_step (initial_attest 0) demo_challenge_bytes"

lemma demo_issued_state:
  "demo_issued = (initial_attest 0)\<lparr>am_store := [(ATTEST_CHALLENGE_REDIS_PREFIX @ demo_challenge, 300000)], am_issued := [demo_challenge]\<rparr>"
  by (simp add: demo_issued_def issue_step_def issue_challenge_def live_def initial_attest_def demo_challenge_def Let_def
      ATTEST_CHALLENGE_TTL_SECONDS_def)

definition demo_registered :: attest_state where
  "demo_registered = persist_step (begin_step demo_attest_platform Env_production demo_issued demo_body) demo_registration"

definition demo_key :: attest_key where
  "demo_key =
     \<lparr>ak_keyId = demo_key_text, ak_provider = ios_app_attest, ak_publicKeyCose = Some (bytesToBase64 demo_cose), ak_counter = 0,
      ak_receipt = Some (bytesToBase64 [9]), ak_receiptRefreshedAt = None, ak_riskMetric = None, ak_lastUsedAt = 0\<rparr>"

lemma demo_begins:
  "begin_step demo_attest_platform Env_production demo_issued demo_body =
     demo_issued\<lparr>am_store := [], am_registrations := [demo_registration]\<rparr>"
proof -
  have "register_bytes demo_body = Some (demo_attestation, demo_challenge_bytes, demo_key_id)"
    by (simp add: register_bytes_def demo_body_def demo_challenge_def demo_key_text_def url_bytes_read_back base64ToBytes_def
        bytesToBase64_def atob_btoa)
  then have "register_verify demo_attest_platform Env_production demo_body = Inr demo_registration"
    by (simp add: register_verify_def demo_attests demo_registration_def demo_body_def)
  moreover have "rb_challenge demo_body = demo_challenge" by (simp add: demo_body_def)
  ultimately show ?thesis
    by (simp add: begin_step_def register_begin_def demo_schema consumeRedisKey_def live_def demo_issued_state initial_attest_def)
qed

lemma demo_registered_state:
  "am_keys demo_registered = [demo_key]" "am_log demo_registered = [Registration demo_challenge demo_key_text demo_cose]"
  "am_gates demo_registered = []" "am_now demo_registered = 0" "am_issued demo_registered = [demo_challenge]"
  unfolding demo_registered_def demo_begins
  by (simp_all add: persist_step_def demo_issued_state initial_attest_def persistMobileAttestKey_def demo_registration_def
      demo_attested_def demo_key_def Let_def)

lemma demo_registered_reachable: "attest_reachable demo_attest_platform mac Env_production demo_registered"
proof -
  have "attest_reachable demo_attest_platform mac Env_production demo_issued"
    unfolding demo_issued_def
    by (rule attest_reachable.Step [OF attest_reachable.Start attest_step.Issue])
      (simp_all add: demo_challenge_bytes_def initial_attest_def)
  then have "attest_reachable demo_attest_platform mac Env_production
      (begin_step demo_attest_platform Env_production demo_issued demo_body)"
    by (rule attest_reachable.Step) (rule attest_step.Begin)
  then show ?thesis
    unfolding demo_registered_def
    by (rule attest_reachable.Step) (rule attest_step.Persist, simp add: demo_begins)
qed

definition demo_gate :: pending_gate where
  "demo_gate = \<lparr>pg_keyId = demo_key_text, pg_assertion = demo_assertion, pg_counter = 1, pg_previous = 0\<rparr>"

lemma demo_asserts:
  "verifyAssertion demo_attest_platform demo_assertion demo_cose clientDataHash demo_rp_hash 0 = Asserted 1"
proof -
  have "derEcdsaToRaw (der_signature (replicate 32 3) (replicate 32 0xff)) 32 = Inr (replicate 32 3 @ replicate 32 0xff)"
    by (rule der_signature_reads_back) simp_all
  moreover have "length [0, 0, 0, 1 :: byte] = 4" by simp
  note parts = auth_data_parts [OF demo_rp(2) this, of "0x40" "[]"]
  ultimately show ?thesis
    using parts
    by (simp add: verifyAssertion_def demo_assertion_decodes attest_offsets demo_cose_parses demo_attest_platform_def be_nat_Cons Let_def)
qed

definition demo_accepted :: attest_state where
  "demo_accepted = gate_step (demo_registered\<lparr>am_gates := [demo_gate]\<rparr>) Gate_HELLO_ATTEST_INVALID demo_gate"

lemma demo_accepted_uses: "uses demo_key_text (am_log demo_accepted) = [(demo_assertion, 1)]"
  by (simp add: demo_accepted_def gate_step_def gate_write_def persistCounterIfHigher_def MAX_INT4_def demo_gate_def
      demo_registered_state demo_key_def update_attest_keys_def uses_def)

lemma demo_accepted_reachable: "attest_reachable demo_attest_platform (\<lambda>_. []) Env_production demo_accepted"
proof -
  have "loadAttestKey (am_keys demo_registered) demo_key_text = Key_loaded 0 demo_cose"
    using demo_lengths(1) length_btoa [of demo_cose]
    by (auto simp: loadAttestKey_def find_key_def demo_registered_state demo_key_def base64ToBytes_def bytesToBase64_def atob_btoa)
  then have "hello_read demo_attest_platform (\<lambda>_. []) (am_keys demo_registered) [] [] [] demo_key_text demo_assertion = Inr demo_gate"
    by (simp add: hello_read_def check_assertion_def demo_asserts demo_rp demo_gate_def)
  from attest_reachable.Step [OF demo_registered_reachable attest_step.Hello [OF this]]
  have "attest_reachable demo_attest_platform (\<lambda>_. []) Env_production (demo_registered\<lparr>am_gates := [demo_gate]\<rparr>)"
    by (simp add: demo_registered_state)
  then show ?thesis
    unfolding demo_accepted_def by (rule attest_reachable.Step) (rule attest_step.Gate, simp)
qed

end
