(* ===== verification/Attest_Guarantees.thy ===== *)
theory Attest_Guarantees
  imports Attest_Samples
begin

text \<open>
  What registrations and gates promise: when an attestation and an assertion are accepted, that an
  assertion is accepted once, and that every stored key was attested for a challenge of its own.
\<close>

section \<open>Values of the format\<close>

text \<open>
  C21. A value that is encoded reads back, wherever it stands in the input and whatever follows it,
  and the decoding stops right after it: numbers of up to 32 bits, byte strings, ASCII texts, arrays
  and maps with distinct keys, nested as deep as one likes.
\<close>

theorem encoded_values_read_back:
  assumes "cbor_ok v"
  shows "decodeCbor (pre @ encodeCbor v @ post) (length pre) = Inr (v, length pre + length (encodeCbor v))"
  using encoded_reads_back [OF assms] by (simp add: reads_back_def)

theorem encoded_values_read_back_witness:
  "decodeCbor ([7] @ encodeCbor (CMap [(CText [97], CArr [CNum (- 500), CBytes [1, 2]]), (CNum 1, CMap [])]) @ [9]) 1 =
     Inr (CMap [(CText [97], CArr [CNum (- 500), CBytes [1, 2]]), (CNum 1, CMap [])], 13)"
  using encoded_values_read_back [of "CMap [(CText [97], CArr [CNum (- 500), CBytes [1, 2]]), (CNum 1, CMap [])]" "[7]" "[9]"]
  by (simp add: distinct_keys_def cbor_head_def)

section \<open>Attestations and assertions\<close>

text \<open>
  C19. An attestation is accepted for a key exactly when it decodes with Apple's format, a receipt and
  certificates that all parse and chain to the pinned root; its authenticator data is the hash of the
  application, flags, a counter of zero, the environment, the identifier of the key and a key of
  P-256; the identifier is the hash of the key in the first certificate; and the certificate's nonce
  is the hash of the authenticator data with the hash of the challenge. What is stored is the key of
  the authenticator data, which need not be the certificate's.
\<close>

theorem attestation_exact:
  assumes "\<And>x. length (ap_sha256 ap x) = 32"
  shows "verifyAttestation ap environment keyId attestationCbor clientDataHash = Attested a \<longleftrightarrow>
    (\<exists>decoded cert chain root flags cose key.
       decodeAttestationCbor attestationCbor = Inr decoded \<and> ac_fmt decoded = text_of ''apple-appattest'' \<and>
       ac_receipt decoded \<noteq> [] \<and> all_certificates ap (ac_x5c decoded) = Some (cert # chain) \<and>
       parseRootCertFromPem ap APPLE_APP_ATTEST_ROOT_CA_PEM = Some root \<and> ap_chain_valid ap (cert # chain) [root] \<and>
       ac_authData decoded = auth_data (computeAppAttestRpIdHash ap) flags [0, 0, 0, 0]
         (attested_data (expectedAaguidForEnvironment environment) keyId cose) \<and>
       keyId = ap_sha256 ap (xc_subjectPublicKey cert) \<and>
       extractAppleNonceExtension cert = Some (ap_sha256 ap (ac_authData decoded @ clientDataHash)) \<and>
       parseCoseEc2Key cose = Inr key \<and>
       a = \<lparr>at_publicKeyCose = cose, at_receipt = ac_receipt decoded, at_counter = 0\<rparr>)"
  (is "?accepted \<longleftrightarrow> (\<exists>decoded cert chain root flags cose key. ?parts decoded cert chain root flags cose key)")
proof -
  have chain: "all_certificates ap ders = Some [] \<longleftrightarrow> ders = []" for ders
    by (cases ders) (auto split: option.splits)
  have "?accepted \<longleftrightarrow> (\<exists>decoded cert chain root.
       decodeAttestationCbor attestationCbor = Inr decoded \<and> ac_fmt decoded = text_of ''apple-appattest'' \<and>
       ac_receipt decoded \<noteq> [] \<and> all_certificates ap (ac_x5c decoded) = Some (cert # chain) \<and>
       parseRootCertFromPem ap APPLE_APP_ATTEST_ROOT_CA_PEM = Some root \<and> ap_chain_valid ap (cert # chain) [root] \<and>
       verify_auth_data ap environment keyId clientDataHash cert decoded = Inr a)"
    by (auto simp: verifyAttestation_def APP_ATTEST_FMT_def chain neq_Nil_conv
        split: sum.splits if_splits option.splits)
  also have "\<dots> \<longleftrightarrow> (\<exists>decoded cert chain root flags cose key. ?parts decoded cert chain root flags cose key)"
    unfolding verify_auth_data_iff [OF assms] by blast
  finally show ?thesis .
qed

theorem attestation_exact_witness:
  "\<exists>flags cose. demo_auth_data = auth_data demo_rp_hash flags [0, 0, 0, 0]
     (attested_data (expectedAaguidForEnvironment Env_production) demo_key_id cose) \<and> at_publicKeyCose demo_attested = cose"
proof -
  have sha: "length (ap_sha256 demo_attest_platform x) = 32" for x by (simp add: demo_attest_platform_def)
  from iffD1 [OF attestation_exact [OF sha] demo_attests [of "[7]"]] obtain decoded flags cose where
    d: "decodeAttestationCbor demo_attestation = Inr decoded"
    "ac_authData decoded = auth_data (computeAppAttestRpIdHash demo_attest_platform) flags [0, 0, 0, 0]
       (attested_data (expectedAaguidForEnvironment Env_production) demo_key_id cose)"
    and a: "demo_attested = \<lparr>at_publicKeyCose = cose, at_receipt = ac_receipt decoded, at_counter = 0\<rparr>"
    by blast
  from d have "demo_auth_data = auth_data demo_rp_hash flags [0, 0, 0, 0]
      (attested_data (expectedAaguidForEnvironment Env_production) demo_key_id cose)"
    by (auto simp: demo_attestation_decodes demo_rp)
  moreover have "cose = at_publicKeyCose demo_attested" by (subst a) simp
  ultimately show ?thesis by blast
qed

text \<open>
  C20. An assertion is accepted under a key exactly when it decodes to authenticator data that starts
  with the hash of the application, flags and a counter above the last one, and to a signature in
  DER that verifies, under the key's two coordinates, the hash of the authenticator data with the
  hash of the client data. The counter it is accepted with is the one of the authenticator data.
\<close>

theorem assertion_exact:
  assumes "length rpIdHash = 32"
  shows "verifyAssertion ap assertionCbor publicKeyCose clientDataHash rpIdHash lastCounter = Asserted n \<longleftrightarrow>
    (\<exists>decoded flags counter rest x y signatureRaw.
       decodeAssertionCbor assertionCbor = Inr decoded \<and> length counter = 4 \<and>
       as_authenticatorData decoded = auth_data rpIdHash flags counter rest \<and>
       n = be_nat counter \<and> lastCounter < int n \<and>
       parseCoseEc2Key publicKeyCose = Inr (x, y) \<and> derEcdsaToRaw (as_signature decoded) 32 = Inr signatureRaw \<and>
       ap_p256_verify ap (attest_bytesToBase64Url x) (attest_bytesToBase64Url y) signatureRaw
         (ap_sha256 ap (as_authenticatorData decoded @ clientDataHash)) = Some True)"
proof -
  have head: "37 \<le> length bs \<and> js_slice bs 0 32 = rpIdHash \<and> n = readAuthDataCounter bs \<longleftrightarrow>
      (\<exists>flags counter rest. length counter = 4 \<and> bs = auth_data rpIdHash flags counter rest \<and> n = be_nat counter)" for bs
    using auth_data_iff [of bs] auth_data_parts assms by metis
  have "verifyAssertion ap assertionCbor publicKeyCose clientDataHash rpIdHash lastCounter = Asserted n \<longleftrightarrow>
    (\<exists>decoded x y signatureRaw.
       decodeAssertionCbor assertionCbor = Inr decoded \<and>
       (37 \<le> length (as_authenticatorData decoded) \<and> js_slice (as_authenticatorData decoded) 0 32 = rpIdHash \<and>
        n = readAuthDataCounter (as_authenticatorData decoded)) \<and> lastCounter < int n \<and>
       parseCoseEc2Key publicKeyCose = Inr (x, y) \<and> derEcdsaToRaw (as_signature decoded) 32 = Inr signatureRaw \<and>
       ap_p256_verify ap (attest_bytesToBase64Url x) (attest_bytesToBase64Url y) signatureRaw
         (ap_sha256 ap (as_authenticatorData decoded @ clientDataHash)) = Some True)"
    by (auto simp: verifyAssertion_def Let_def attest_offsets split: sum.splits if_splits option.splits)
  then show ?thesis unfolding head by blast
qed

theorem assertion_exact_witness:
  "\<exists>flags counter rest. length counter = 4 \<and> auth_data demo_rp_hash 0x40 [0, 0, 0, 1] [] = auth_data demo_rp_hash flags counter rest \<and>
     be_nat counter = 1"
proof -
  from iffD1 [OF assertion_exact [OF demo_rp(2)] demo_asserts [of "[7]"]] obtain decoded flags counter rest where
    "decodeAssertionCbor demo_assertion = Inr decoded" "length counter = 4"
    "as_authenticatorData decoded = auth_data demo_rp_hash flags counter rest" "1 = be_nat counter"
    by blast
  then have "length counter = 4 \<and> auth_data demo_rp_hash 0x40 [0, 0, 0, 1] [] = auth_data demo_rp_hash flags counter rest \<and>
      be_nat counter = 1"
    by (auto simp: demo_assertion_decodes)
  then show ?thesis by blast
qed

section \<open>Keys and their counters\<close>

lemma uses_logged: "(a, c) \<in> set (uses keyId es) \<Longrightarrow> Acceptance keyId a c \<in> set es"
proof (induction es rule: rev_induct)
  case (snoc e es)
  then show ?case by (cases e) (auto split: if_splits)
qed simp

text \<open>The counter of an assertion stands in its bytes.\<close>

lemma asserted_counter:
  assumes "asserted_for ap es keyId a c"
  shows "map_sum id (\<lambda>decoded. readAuthDataCounter (as_authenticatorData decoded)) (decodeAssertionCbor a) = Inr c"
proof -
  from assms obtain cose cdh rp previous where "verifyAssertion ap a cose cdh rp previous = Asserted c"
    by (auto simp: asserted_for_def)
  then show ?thesis
    by (auto simp: verifyAssertion_def Let_def split: sum.splits if_splits option.splits prod.splits)
qed

lemma registration_used: "Registration challenge keyId cose \<in> set es \<Longrightarrow> challenge \<in> set (challenges_used es)"
  by (induction es rule: challenges_used.induct) auto

text \<open>
  C17. However registrations, gates and refreshes of any number of devices interleave, no assertion is
  accepted twice: between two registrations of a key the counters of its accepted assertions
  strictly increase and the assertions differ; each was verified under a key registered for that
  identifier; and no stored counter is below one that was accepted.
\<close>

theorem assertions_accepted_once:
  assumes "attest_reachable ap mac environment s"
  shows "sorted_wrt (<) (map snd (uses keyId (am_log s))) \<and> distinct (map fst (uses keyId (am_log s))) \<and>
    (\<forall>(a, c) \<in> set (uses keyId (am_log s)). asserted_for ap (am_log s) keyId a c \<and>
       (\<forall>k \<in> set (am_keys s). ak_keyId k = keyId \<longrightarrow> int c \<le> ak_counter k))"
proof -
  let ?us = "uses keyId (am_log s)"
  from reachable_attest_ok [OF assms] have ok: "attest_ok ap environment s" .
  then have sorted: "sorted_wrt (<) (map snd ?us)" by (simp add: attest_ok_def)
  have accepted: "asserted_for ap (am_log s) keyId a c" if "(a, c) \<in> set ?us" for a c
    using ok uses_logged [OF that] by (fastforce simp: attest_ok_def event_ok_def)
  have "distinct (map snd ?us)" using sorted strict_sorted_iff by blast
  moreover have "inj_on fst (set ?us)"
  proof (rule inj_onI)
    fix p q assume pq: "p \<in> set ?us" "q \<in> set ?us" "fst p = fst q"
    obtain a c c' where e: "p = (a, c)" "q = (a, c')" using pq(3) by (metis prod.collapse)
    with asserted_counter [OF accepted, of a c] asserted_counter [OF accepted, of a c'] pq show "p = q" by simp
  qed
  ultimately have "distinct (map fst ?us)" by (simp add: distinct_map)
  moreover have "int c \<le> ak_counter k" if "(a, c) \<in> set ?us" "k \<in> set (am_keys s)" "ak_keyId k = keyId" for a c k
    using ok that by (fastforce simp: attest_ok_def attest_row_ok_def)
  ultimately show ?thesis using sorted accepted by blast
qed

theorem assertions_accepted_once_witness:
  "asserted_for demo_attest_platform (am_log demo_accepted) demo_key_text demo_assertion 1"
  using assertions_accepted_once [OF demo_accepted_reachable, of demo_key_text] by (simp add: demo_accepted_uses)

text \<open>
  C18. Every stored key was attested for a challenge of its own: in every reachable state the public
  key of a row is the one of an attestation that was accepted for the row's identifier and for a
  challenge the service had issued, and no challenge serves two registrations.
\<close>

theorem keys_are_attested:
  assumes "attest_reachable ap mac environment s" "k \<in> set (am_keys s)"
  shows "distinct (challenges_used (am_log s)) \<and>
    (\<exists>challenge cose. Registration challenge (ak_keyId k) cose \<in> set (am_log s) \<and>
       challenge \<in> set (challenges_used (am_log s)) \<and> challenge \<in> set (am_issued s) \<and>
       attested_for ap environment challenge (ak_keyId k) cose \<and>
       ak_publicKeyCose k = Some (bytesToBase64 cose))"
proof -
  from reachable_attest_ok [OF assms(1)] have ok: "attest_ok ap environment s" .
  then have c: "distinct (challenges_used (am_log s))" "set (challenges_used (am_log s)) \<subseteq> set (am_issued s)"
    by (auto simp: attest_ok_def challenges_ok_def Let_def)
  from ok assms(2) obtain cose challenge where r: "ak_publicKeyCose k = Some (bytesToBase64 cose)"
      "Registration challenge (ak_keyId k) cose \<in> set (am_log s)"
    by (fastforce simp: attest_ok_def attest_row_ok_def registered_def)
  with ok have "attested_for ap environment challenge (ak_keyId k) cose"
    by (fastforce simp: attest_ok_def event_ok_def)
  with r c registration_used [OF r(2)] show ?thesis by blast
qed

theorem keys_are_attested_witness:
  "attested_for demo_attest_platform Env_production demo_challenge demo_key_text demo_cose"
proof -
  have "demo_key \<in> set (am_keys demo_registered)" by (simp add: demo_registered_state)
  from keys_are_attested [OF demo_registered_reachable [of "\<lambda>_. []"] this] show ?thesis
    by (auto simp: demo_registered_state demo_key_def)
qed

end
